(* ===== verification/Prelude.thy ===== *)
theory Prelude
  imports Main "HOL-Library.Word"
begin

text \<open>
  Shared vocabulary of the development: the machine integers of the code, the
  \<open>HRESULT\<close> values the Direct3D entry points return, and the generic facts on words
  and lists that several components use.  \<open>bitrep\<close> collects the facts that turn a
  word expression into a statement about its bits.
\<close>

unbundle bit_operations_syntax

section \<open>Machine integers\<close>

type_synonym u8 = "8 word"
type_synonym u16 = "16 word"
type_synonym u32 = "32 word"
type_synonym u64 = "64 word"

named_theorems bitrep "word expressions as statements about single bits"

section \<open>Result codes\<close>

text \<open>
  The \<open>HRESULT\<close> and status values that the modelled entry points return; the
  success codes are \<open>S_OK\<close>, \<open>S_FALSE\<close> and the positive wait codes.
\<close>

datatype hresult =
    S_OK | S_FALSE
  | E_INVALIDARG | E_FAIL | E_OUTOFMEMORY | E_NOTIMPL | E_POINTER | E_NOINTERFACE
  | WAIT_TIMEOUT | WAIT_ABANDONED | DXGI_ERROR_INVALID_CALL

fun FAILED :: "hresult \<Rightarrow> bool" where
  "FAILED S_OK = False"
| "FAILED S_FALSE = False"
| "FAILED WAIT_TIMEOUT = False"
| "FAILED WAIT_ABANDONED = False"
| "FAILED _ = True"

section \<open>Bits of words\<close>

text \<open>The code writes \<open>1ull << k\<close>; it is kept as \<^term>\<open>push_bit k 1\<close>.\<close>

declare push_bit_of_1 [simp del]

lemma word_eq_bits: "(a :: 'a::len word) = b \<longleftrightarrow> (\<forall>n<LENGTH('a). bit a n = bit b n)"
  by (auto intro: bit_word_eqI)

lemma bit_shl_one [bitrep]: "bit (push_bit k 1 :: 'a::len word) i \<longleftrightarrow> i = k \<and> k < LENGTH('a)"
  by (auto simp: bit_simps)

lemma and_shl_one_neq_0 [bitrep]:
  "(w AND push_bit k 1 :: 'a::len word) \<noteq> 0 \<longleftrightarrow> bit w k"
  by (auto simp: word_eq_bits bit_simps dest: bit_imp_le_length)

lemma bit_or_shl_one:
  "k < LENGTH('a) \<Longrightarrow> bit (w OR push_bit k 1 :: 'a::len word) i \<longleftrightarrow> bit w i \<or> i = k"
  by (auto simp: bit_simps)

lemma bit_and_not_shl_one:
  "bit (w AND NOT (push_bit k 1) :: 'a::len word) i \<longleftrightarrow> bit w i \<and> i \<noteq> k"
  by (auto simp: bit_simps bit_imp_le_length)

lemma word_neq_0_bit: "(w :: 'a::len word) \<noteq> 0 \<longleftrightarrow> (\<exists>i<LENGTH('a). bit w i)"
  by (auto simp: word_eq_bits)

lemma word_and_neq_0_bit:
  "(a AND b :: 'a::len word) \<noteq> 0 \<longleftrightarrow> (\<exists>i<LENGTH('a). bit a i \<and> bit b i)"
  by (auto simp: word_neq_0_bit bit_simps)

lemma word_and_eq_right_bit:
  "(a AND b :: 'a::len word) = b \<longleftrightarrow> (\<forall>i<LENGTH('a). bit b i \<longrightarrow> bit a i)"
  by (auto simp: word_eq_bits bit_simps)

lemma unat_mod_pow2_diff:
  "d dvd 2 ^ LENGTH('a) \<Longrightarrow> b \<le> a \<Longrightarrow>
   unat (of_nat a - of_nat b :: 'a::len word) mod d = (a - b) mod d"
  by (simp add: unat_of_nat of_nat_diff [symmetric] mod_mod_cancel del: of_nat_diff)

section \<open>Lists\<close>

lemma sorted_wrt_less_append:
  "sorted_wrt (<) (xs :: nat list) \<Longrightarrow> sorted_wrt (<) ys \<Longrightarrow>
   \<forall>x \<in> set xs. \<forall>y \<in> set ys. x < y \<Longrightarrow> sorted_wrt (<) (xs @ ys)"
  by (simp add: sorted_wrt_append)

lemma strict_sorted_eq_sorted_list_of_set:
  "sorted_wrt (<) (xs :: nat list) \<Longrightarrow> set xs = A \<Longrightarrow> xs = sorted_list_of_set A"
  by (metis sorted_list_of_set.idem_if_sorted_distinct strict_sorted_iff)

end
