(* ===== verification/BitUtil.thy ===== *)
theory BitUtil
  imports Prelude
begin

text \<open>
  The scalar helpers of \<open>src/util/util_math.hpp\<close> and \<open>src/util/util_bit.hpp\<close>:
  clamping, alignment, bit-field extraction, population count and the bit scans.  The
  scans are the portable branches written in the source (the branches that call a compiler
  intrinsic or an assembler instruction compute the same function); they are proved equal
  to the position of the lowest or highest set bit.
\<close>

section \<open>\<open>util_math.hpp\<close>\<close>

definition clamp :: "'a::linorder \<Rightarrow> 'a \<Rightarrow> 'a \<Rightarrow> 'a" where
  "clamp n lo hi = (if n < lo then lo else if hi < n then hi else n)"

definition align :: "'a::len word \<Rightarrow> 'a word \<Rightarrow> 'a word" where
  "align what to = (what + to - 1) AND NOT (to - 1)"

definition alignDown :: "'a::len word \<Rightarrow> 'a word \<Rightarrow> 'a word" where
  "alignDown what to = (what div to) * to"

definition divCeil :: "'a::len word \<Rightarrow> 'a word \<Rightarrow> 'a word" where
  "divCeil dividend divisor = (dividend + divisor - 1) div divisor"

section \<open>Bit fields and population count\<close>

definition extract_bits :: "'a::len word \<Rightarrow> nat \<Rightarrow> nat \<Rightarrow> 'a word" where
  "extract_bits v lo hi = drop_bit lo v AND NOT (push_bit (hi - lo + 1) (NOT 0))"

definition bextract :: "'a::len word \<Rightarrow> nat \<Rightarrow> nat \<Rightarrow> 'a word" where
  "bextract v first count =
     (if count = 0 then 0
      else let m = push_bit (count - 1) 2 - 1 in drop_bit first v AND m)"

definition popcntStep :: "u32 \<Rightarrow> u32 \<Rightarrow> nat \<Rightarrow> u32" where
  "popcntStep n m s = (n AND m) + drop_bit s (n AND NOT m)"

definition popcnt :: "u32 \<Rightarrow> u32" where
  "popcnt n =
     (let n = popcntStep n 0x55555555 1;
          n = popcntStep n 0x33333333 2;
          n = popcntStep n 0x0F0F0F0F 4;
          n = popcntStep n 0x00FF00FF 8;
          n = popcntStep n 0x0000FFFF 16
      in n)"

section \<open>Bit scans\<close>

definition tzcnt32 :: "u32 \<Rightarrow> nat" where
  "tzcnt32 n0 =
     (let n = n0 AND - n0;
          r = 31;
          r = r - (if n AND 0x0000FFFF \<noteq> 0 then 16 else 0);
          r = r - (if n AND 0x00FF00FF \<noteq> 0 then 8 else 0);
          r = r - (if n AND 0x0F0F0F0F \<noteq> 0 then 4 else 0);
          r = r - (if n AND 0x33333333 \<noteq> 0 then 2 else 0);
          r = r - (if n AND 0x55555555 \<noteq> 0 then 1 else 0)
      in if n \<noteq> 0 then r else 32)"

definition tzcnt64 :: "u64 \<Rightarrow> nat" where
  "tzcnt64 n =
     (let lo = (ucast n :: u32)
      in if lo \<noteq> 0 then tzcnt32 lo
         else let hi = (ucast (drop_bit 32 n) :: u32) in tzcnt32 hi + 32)"

definition lz_step :: "u32 \<Rightarrow> nat \<Rightarrow> nat \<times> u32 \<Rightarrow> nat \<times> u32" where
  "lz_step bound s = (\<lambda>(r, n). if n \<le> bound then (r + s, push_bit s n) else (r, n))"

definition lzcnt32 :: "u32 \<Rightarrow> nat" where
  "lzcnt32 n =
     (if n = 0 then 32
      else fst (lz_step 0x7FFFFFFF 1 (lz_step 0x3FFFFFFF 2 (lz_step 0x0FFFFFFF 4
                 (lz_step 0x00FFFFFF 8 (lz_step 0x0000FFFF 16 (0, n)))))))"

section \<open>Alignment\<close>

lemma unat_and_not_mask:
  "unat (x AND NOT (mask k) :: 'a::len word) = unat x div 2 ^ k * 2 ^ k"
proof -
  have "x AND NOT (mask k) = push_bit k (drop_bit k x)"
    by (rule bit_word_eqI) (auto simp: bit_simps)
  then have "unat (x AND NOT (mask k)) = take_bit LENGTH('a) (push_bit k (drop_bit k (unat x)))"
    by (simp add: unsigned_push_bit_eq unat_drop_bit_eq)
  also have "push_bit k (drop_bit k (unat x)) = unat x div 2 ^ k * 2 ^ k"
    by (simp add: push_bit_eq_mult drop_bit_eq_div)
  also have "take_bit LENGTH('a) (unat x div 2 ^ k * 2 ^ k) = unat x div 2 ^ k * 2 ^ k"
  proof (rule take_bit_nat_eq_self)
    have "unat x div 2 ^ k * 2 ^ k \<le> unat x" by simp
    also have "\<dots> < 2 ^ LENGTH('a)" by simp
    finally show "unat x div 2 ^ k * 2 ^ k < 2 ^ LENGTH('a)" .
  qed
  finally show ?thesis .
qed

lemma unat_align:
  assumes k: "k < LENGTH('a)" and fits: "unat what + 2 ^ k \<le> 2 ^ LENGTH('a)"
  shows "unat (align what (2 ^ k) :: 'a::len word) = (unat what + 2 ^ k - 1) div 2 ^ k * 2 ^ k"
proof -
  have pos: "0 < (2::nat) ^ k" by simp
  have m: "(2 ^ k - 1 :: 'a word) = mask k"
    by (simp add: mask_eq_exp_minus_1)
  have "(of_nat (unat what + 2 ^ k - 1) :: 'a word) = of_nat (unat what + 2 ^ k) - of_nat 1"
    by (rule of_nat_diff) (use pos in linarith)
  then have eq: "(what + 2 ^ k - 1 :: 'a word) = of_nat (unat what + 2 ^ k - 1)"
    by simp
  have lt: "unat what + 2 ^ k - 1 < 2 ^ LENGTH('a)"
    using fits pos by linarith
  have "unat (what + 2 ^ k - 1 :: 'a word) = unat what + 2 ^ k - 1"
    unfolding eq by (simp only: unat_of_nat mod_less [OF lt])
  then show ?thesis
    by (simp add: align_def m unat_and_not_mask del: mask_eq_exp_minus_1)
qed

lemma align_ge:
  assumes "k < LENGTH('a)" "unat what + 2 ^ k \<le> 2 ^ LENGTH('a)"
  shows "unat what \<le> unat (align what (2 ^ k) :: 'a::len word)"
    and "unat (align what (2 ^ k)) < unat what + 2 ^ k"
    and "2 ^ k dvd unat (align what (2 ^ k) :: 'a::len word)"
proof -
  have pos: "0 < (2::nat) ^ k" by simp
  note u = unat_align [OF assms]
  have dm: "(unat what + 2 ^ k - 1) div 2 ^ k * 2 ^ k + (unat what + 2 ^ k - 1) mod 2 ^ k
      = unat what + 2 ^ k - 1"
    by (rule div_mult_mod_eq)
  have lt: "(unat what + 2 ^ k - 1) mod 2 ^ k < 2 ^ k" by simp
  show "unat what \<le> unat (align what (2 ^ k))" unfolding u using dm lt pos by linarith
  show "unat (align what (2 ^ k)) < unat what + 2 ^ k" unfolding u using dm pos by linarith
  show "2 ^ k dvd unat (align what (2 ^ k))" unfolding u by simp
qed

lemma align_0 [simp]: "align 0 (2 ^ k :: 'a::len word) = 0"
proof -
  have "(2 ^ k - 1 :: 'a word) = mask k" by (simp add: mask_eq_exp_minus_1)
  then show ?thesis by (simp add: align_def)
qed

section \<open>The lowest set bit\<close>

lemma odd_and_minus: "odd m \<Longrightarrow> m AND - m = (1 :: 'a::len word)"
proof (rule bit_word_eqI)
  fix i assume odd: "odd m"
  have "- m = NOT (m - 1)" by (rule minus_eq_not_minus_1)
  moreover have "m - 1 = unset_bit 0 m"
  proof -
    have "unset_bit 0 m + 1 = unset_bit 0 m OR 1"
      by (rule disjunctive_add_eq_or) (auto simp: bit_simps intro!: bit_word_eqI)
    also have "\<dots> = m"
      using odd by (auto simp: bit_simps bit_0 intro!: bit_word_eqI)
    finally show ?thesis by (metis add_diff_cancel_right')
  qed
  ultimately show "bit (m AND - m) i = bit (1 :: 'a word) i"
    using odd by (auto simp: bit_simps bit_0 bit_imp_le_length)
qed

lemma lowest_bit_and_minus:
  assumes b: "bit n k" and low: "\<And>i. i < k \<Longrightarrow> \<not> bit n i"
  shows "n AND - n = (push_bit k 1 :: 'a::len word)"
proof -
  let ?m = "drop_bit k n"
  have n: "n = push_bit k ?m"
    by (rule bit_word_eqI)
      (use low in \<open>auto simp: bit_simps not_less [symmetric]\<close>, metis le_add_diff_inverse not_less)
  have odd: "odd ?m" using b by (simp add: bit_iff_odd_drop_bit)
  have "- n = push_bit k (- ?m)"
    by (subst n) (simp add: push_bit_eq_mult)
  then have "n AND - n = push_bit k ?m AND push_bit k (- ?m)"
    using n by simp
  also have "\<dots> = push_bit k (?m AND - ?m)" by (simp add: push_bit_and)
  also have "\<dots> = push_bit k 1" using odd by (simp add: odd_and_minus)
  finally show ?thesis .
qed

lemma lowest_bit_obtain:
  assumes "(n :: 'a::len word) \<noteq> 0"
  obtains k where "bit n k" "k < LENGTH('a)" "\<And>i. i < k \<Longrightarrow> \<not> bit n i"
proof -
  from assms obtain j where "bit n j" by (auto simp: word_neq_0_bit)
  then have "bit n (LEAST j. bit n j)" by (rule LeastI)
  moreover have "\<not> bit n i" if "i < (LEAST j. bit n j)" for i
    using that not_less_Least by blast
  ultimately show ?thesis using that bit_imp_le_length by blast
qed

lemma and_pred_clears_lowest:
  assumes b: "bit n k" and low: "\<And>i. i < k \<Longrightarrow> \<not> bit n i"
  shows "n AND (n - 1) = n AND NOT (push_bit k 1 :: 'a::len word)"
proof (rule bit_word_eqI)
  fix i assume i: "i < LENGTH('a)"
  have "n AND NOT (n - 1) = push_bit k 1"
    using lowest_bit_and_minus [OF b low] by (simp add: minus_eq_not_minus_1)
  then have "bit (n AND NOT (n - 1)) i = bit (push_bit k 1 :: 'a word) i" by simp
  then show "bit (n AND (n - 1)) i = bit (n AND NOT (push_bit k 1)) i"
    using i by (auto simp: bit_simps)
qed

lemma power_of_two_test:
  assumes "(n :: 'a::len word) \<noteq> 0" "n AND (n - 1) = 0"
  shows "\<exists>k < LENGTH('a). n = 2 ^ k"
proof -
  obtain k where k: "bit n k" "k < LENGTH('a)" "\<And>i. i < k \<Longrightarrow> \<not> bit n i"
    using lowest_bit_obtain [OF assms(1)] by blast
  then have "n AND NOT (push_bit k 1) = 0" using and_pred_clears_lowest [of n k] assms(2) by simp
  then have z: "\<not> bit (n AND NOT (push_bit k 1)) i" for i by simp
  have "n = push_bit k 1"
  proof (rule bit_word_eqI)
    fix i assume "i < LENGTH('a)"
    then show "bit n i = bit (push_bit k 1 :: 'a word) i"
      using z [of i] k(1,2) by (auto simp: bit_and_iff bit_not_iff bit_shl_one)
  qed
  then show ?thesis using k(2) by (auto simp: push_bit_of_1)
qed

section \<open>Correctness of the scans\<close>

definition tz_table :: "u32 \<Rightarrow> nat" where
  "tz_table n =
     31 - (if n AND 0x0000FFFF \<noteq> 0 then 16 else 0) - (if n AND 0x00FF00FF \<noteq> 0 then 8 else 0)
        - (if n AND 0x0F0F0F0F \<noteq> 0 then 4 else 0) - (if n AND 0x33333333 \<noteq> 0 then 2 else 0)
        - (if n AND 0x55555555 \<noteq> 0 then 1 else 0)"

lemma tzcnt32_alt: "tzcnt32 n = (if n AND - n \<noteq> 0 then tz_table (n AND - n) else 32)"
  by (simp add: tzcnt32_def tz_table_def Let_def)

lemma tz_table_shl: "list_all (\<lambda>k. tz_table (push_bit k 1) = k) [0..<32]"
  by code_simp

lemma tzcnt32_lowest:
  assumes "bit n k" "k < 32" "\<And>i. i < k \<Longrightarrow> \<not> bit n i"
  shows "tzcnt32 n = k"
proof -
  have eq: "n AND - n = push_bit k 1" by (rule lowest_bit_and_minus) (use assms in auto)
  have "push_bit k 1 \<noteq> (0 :: u32)" using assms(2) by (auto simp: word_neq_0_bit bit_simps)
  moreover have "tz_table (push_bit k 1) = k"
    using tz_table_shl assms(2) by (auto simp: list_all_iff)
  ultimately show ?thesis by (simp add: tzcnt32_alt eq)
qed

lemma tzcnt32_0 [simp]: "tzcnt32 0 = 32"
  by (simp add: tzcnt32_def)

lemma tzcnt32_bit:
  assumes "n \<noteq> 0"
  shows "tzcnt32 n < 32 \<and> bit n (tzcnt32 n) \<and> (\<forall>i<tzcnt32 n. \<not> bit n i)"
proof -
  obtain k where k: "bit n k" "k < LENGTH(32)" "\<And>i. i < k \<Longrightarrow> \<not> bit n i"
    using lowest_bit_obtain [OF assms] by blast
  then have "tzcnt32 n = k" by (intro tzcnt32_lowest) auto
  with k show ?thesis by auto
qed

lemma tzcnt64_0 [simp]: "tzcnt64 0 = 64"
  by (simp add: tzcnt64_def)

lemma tzcnt64_bit:
  assumes "n \<noteq> 0"
  shows "tzcnt64 n < 64 \<and> bit n (tzcnt64 n) \<and> (\<forall>i<tzcnt64 n. \<not> bit n i)"
proof (cases "(ucast n :: u32) = 0")
  case False
  have "bit (ucast n :: u32) i \<longleftrightarrow> i < 32 \<and> bit n i" for i
    by (simp add: bit_simps)
  with tzcnt32_bit [OF False] False show ?thesis by (auto simp: tzcnt64_def Let_def)
next
  case True
  let ?hi = "ucast (drop_bit 32 n) :: u32"
  have low: "\<not> bit n i" if "i < 32" for i
  proof -
    have "bit (ucast n :: u32) i = bit n i" using that by (simp add: bit_simps)
    then show ?thesis by (simp add: True)
  qed
  have hib: "bit ?hi i \<longleftrightarrow> i < 32 \<and> bit n (i + 32)" for i
    by (simp add: bit_ucast_iff bit_drop_bit_eq add.commute [of 32])
  obtain j where j: "bit n j" "j < 64" using assms by (auto simp: word_neq_0_bit)
  with low have "32 \<le> j" by (meson not_less)
  with j have "bit ?hi (j - 32)" by (simp add: hib)
  then have "?hi \<noteq> 0" by auto
  from tzcnt32_bit [OF this]
  have t: "tzcnt32 ?hi < 32" "bit n (tzcnt32 ?hi + 32)" "\<And>i. i < tzcnt32 ?hi \<Longrightarrow> \<not> bit ?hi i"
    by (auto simp: hib)
  have eq: "tzcnt64 n = tzcnt32 ?hi + 32" using True by (simp add: tzcnt64_def)
  have "\<not> bit n i" if i: "i < tzcnt32 ?hi + 32" for i
  proof (cases "i < 32")
    case False
    then have "i - 32 < tzcnt32 ?hi" "i - 32 < 32" "i - 32 + 32 = i" using i t(1) by auto
    with t(3) [of "i - 32"] show ?thesis by (simp add: hib)
  qed (use low in simp)
  with t(1,2) show ?thesis by (simp add: eq)
qed

section \<open>The highest set bit\<close>

definition lz_inv :: "u32 \<Rightarrow> nat \<times> u32 \<Rightarrow> nat \<Rightarrow> bool" where
  "lz_inv orig st k \<longleftrightarrow>
     unat (snd st) = unat orig * 2 ^ fst st \<and> 2 ^ k \<le> unat (snd st) \<and> fst st \<le> k \<and> k < 32"

lemma unat_push_bit_small:
  fixes n :: u32
  assumes "unat n < 2 ^ (32 - s)" "s \<le> 32"
  shows "unat (push_bit s n) = unat n * 2 ^ s"
proof -
  have "unat n * 2 ^ s < 2 ^ (32 - s) * 2 ^ s"
    using assms(1) by simp
  also have "\<dots> = 2 ^ 32" using assms(2) by (simp flip: power_add)
  finally have "unat n * 2 ^ s < 2 ^ 32" .
  then show ?thesis
    by (simp only: unsigned_push_bit_eq) (simp add: push_bit_eq_mult take_bit_nat_eq_self)
qed

lemma lz_step_inv:
  assumes inv: "lz_inv orig st k" and b: "unat bound = 2 ^ (32 - s) - 1"
    and s: "k + s = 32 - s" "0 < s"
  shows "lz_inv orig (lz_step bound s st) (k + s)"
proof (cases st)
  case (Pair r n)
  show ?thesis
  proof (cases "n \<le> bound")
    case True
    then have lt: "unat n < 2 ^ (32 - s)"
      using b by (simp add: word_le_nat_alt) (metis One_nat_def Suc_pred le_imp_less_Suc zero_less_numeral zero_less_power)
    have eq: "unat (push_bit s n) = unat n * 2 ^ s"
      by (rule unat_push_bit_small) (use lt s in auto)
    have "2 ^ (k + s) \<le> unat n * 2 ^ s"
      using inv by (simp add: Pair lz_inv_def power_add)
    then show ?thesis
      using True inv s eq by (simp add: Pair lz_inv_def lz_step_def power_add)
  next
    case False
    then have "2 ^ (32 - s) \<le> unat n"
      using b by (simp add: word_le_nat_alt not_le)
    then show ?thesis using False inv s by (simp add: Pair lz_inv_def lz_step_def)
  qed
qed

lemma lzcnt32_0 [simp]: "lzcnt32 0 = 32"
  by (simp add: lzcnt32_def)

lemma lzcnt32_bounds:
  assumes "n \<noteq> 0"
  shows "2 ^ (31 - lzcnt32 n) \<le> unat n \<and> unat n < 2 ^ (32 - lzcnt32 n) \<and> lzcnt32 n < 32"
proof -
  let ?st = "lz_step 0x7FFFFFFF 1 (lz_step 0x3FFFFFFF 2 (lz_step 0x0FFFFFFF 4
               (lz_step 0x00FFFFFF 8 (lz_step 0x0000FFFF 16 (0, n)))))"
  have "lz_inv n (0, n) 0"
    using assms by (simp add: lz_inv_def Suc_le_eq unat_gt_0)
  then have "lz_inv n (lz_step 0x0000FFFF 16 (0, n)) (0 + 16)"
    by (rule lz_step_inv) simp_all
  then have "lz_inv n (lz_step 0x00FFFFFF 8 (lz_step 0x0000FFFF 16 (0, n))) (0 + 16 + 8)"
    by (rule lz_step_inv) simp_all
  then have "lz_inv n (lz_step 0x0FFFFFFF 4 (lz_step 0x00FFFFFF 8 (lz_step 0x0000FFFF 16 (0, n))))
      (0 + 16 + 8 + 4)"
    by (rule lz_step_inv) simp_all
  then have "lz_inv n (lz_step 0x3FFFFFFF 2 (lz_step 0x0FFFFFFF 4 (lz_step 0x00FFFFFF 8
      (lz_step 0x0000FFFF 16 (0, n))))) (0 + 16 + 8 + 4 + 2)"
    by (rule lz_step_inv) simp_all
  then have "lz_inv n ?st (0 + 16 + 8 + 4 + 2 + 1)"
    by (rule lz_step_inv) simp_all
  then have inv: "unat (snd ?st) = unat n * 2 ^ lzcnt32 n" "2 ^ 31 \<le> unat (snd ?st)"
      "lzcnt32 n \<le> 31"
    using assms by (simp_all add: lz_inv_def lzcnt32_def)
  let ?r = "lzcnt32 n"
  have "2 ^ (31 - ?r) * 2 ^ ?r = (2::nat) ^ 31" using inv(3) by (simp flip: power_add)
  then have "2 ^ (31 - ?r) * 2 ^ ?r \<le> unat n * 2 ^ ?r" using inv by simp
  then have lo: "2 ^ (31 - ?r) \<le> unat n" by simp
  have "unat (snd ?st) < 2 ^ 32" using unsigned_less [of "snd ?st"] by simp
  moreover have "2 ^ (32 - ?r) * 2 ^ ?r = (2::nat) ^ 32" using inv(3) by (simp flip: power_add)
  ultimately have "unat n * 2 ^ ?r < 2 ^ (32 - ?r) * 2 ^ ?r" using inv by simp
  then have "unat n < 2 ^ (32 - ?r)" by simp
  with lo inv(3) show ?thesis by simp
qed

section \<open>Population count\<close>

text \<open>The word as a number with digits of \<open>s\<close> bits; a step adds neighbouring digits.\<close>

definition field_at :: "nat \<Rightarrow> nat \<Rightarrow> nat \<Rightarrow> nat" where
  "field_at b x i = x div b ^ i mod b"

lemma field_at_sum:
  assumes "\<And>i. i < k \<Longrightarrow> d i < (b :: nat)" "j < k"
  shows "field_at b (\<Sum>i<k. d i * b ^ i) j = d j"
  using assms
proof (induction j arbitrary: d k)
  case 0
  then obtain k' where k: "k = Suc k'" by (cases k) auto
  have "(\<Sum>i<k. d i * b ^ i) = d 0 + b * (\<Sum>i<k'. d (Suc i) * b ^ i)"
    by (simp add: k sum.lessThan_Suc_shift sum_distrib_left algebra_simps del: sum.lessThan_Suc)
  then show ?case using 0 by (simp add: field_at_def)
next
  case (Suc j)
  then obtain k' where k: "k = Suc k'" by (cases k) auto
  have d0: "d 0 < b" using Suc.prems by (auto simp: k)
  have "(\<Sum>i<k. d i * b ^ i) = d 0 + b * (\<Sum>i<k'. d (Suc i) * b ^ i)"
    by (simp add: k sum.lessThan_Suc_shift sum_distrib_left algebra_simps del: sum.lessThan_Suc)
  then have "(\<Sum>i<k. d i * b ^ i) div b = (\<Sum>i<k'. d (Suc i) * b ^ i)" using d0 by simp
  then have "field_at b (\<Sum>i<k. d i * b ^ i) (Suc j) = field_at b (\<Sum>i<k'. d (Suc i) * b ^ i) j"
    by (simp add: field_at_def div_mult2_eq)
  also have "\<dots> = d (Suc j)" using Suc.prems by (intro Suc.IH) (auto simp: k)
  finally show ?case .
qed

lemma sum_field_at:
  assumes "x < b ^ k"
  shows "(\<Sum>i<k. field_at b x i * b ^ i) = x"
  using assms
proof (induction k arbitrary: x)
  case (Suc k)
  have "x div b < b ^ k" using Suc.prems by (simp add: less_mult_imp_div_less mult.commute)
  then have IH: "(\<Sum>i<k. field_at b (x div b) i * b ^ i) = x div b" by (rule Suc.IH)
  have "(\<Sum>i<Suc k. field_at b x i * b ^ i)
      = x mod b + b * (\<Sum>i<k. field_at b (x div b) i * b ^ i)"
    by (simp add: sum.lessThan_Suc_shift sum_distrib_left field_at_def div_mult2_eq algebra_simps
        del: sum.lessThan_Suc)
  then show ?case by (simp add: IH)
qed simp

lemma field_at_word:
  "field_at (2 ^ s) (unat (n :: u32)) i = unat (take_bit s (drop_bit (s * i) n))"
proof -
  have "unat (take_bit s (drop_bit (s * i) n)) = take_bit s (drop_bit (s * i) (unat n))"
  proof -
    have "unat n < 2 ^ 32" using unsigned_less [of n] by simp
    then have "take_bit LENGTH(32) (unat n) = unat n" by (simp add: take_bit_nat_eq_self)
    then show ?thesis by (simp only: unsigned_take_bit_eq unsigned_drop_bit_eq)
  qed
  then show ?thesis by (simp only: field_at_def take_bit_eq_mod drop_bit_eq_div power_mult)
qed

lemma alternating_mask:
  assumes m: "\<And>j. j < 32 \<Longrightarrow> bit m j \<longleftrightarrow> even (j div s)" and s: "0 < s"
  shows "take_bit (2 * s) (drop_bit (2 * s * i) (n AND m)) = take_bit s (drop_bit (s * (2 * i)) (n :: u32))"
    and "take_bit (2 * s) (drop_bit (2 * s * i) (drop_bit s (n AND NOT m)))
      = take_bit s (drop_bit (s * Suc (2 * i)) n)"
proof -
  have ev: "bit m (2 * s * i + j) \<longleftrightarrow> j < s" if "j < 2 * s" "2 * s * i + j < 32" for j
  proof -
    have "(2 * s * i + j) div s = 2 * i + j div s" using s by (simp add: div_add1_eq mult.assoc)
    moreover have "j div s = (if j < s then 0 else 1)"
      using that(1) s by (auto simp: div_nat_eqI)
    ultimately show ?thesis using m [OF that(2)] by (auto split: if_splits)
  qed
  show "take_bit (2 * s) (drop_bit (2 * s * i) (n AND m)) = take_bit s (drop_bit (s * (2 * i)) n)"
    using ev by (intro bit_word_eqI) (auto simp: bit_simps mult.commute mult.left_commute dest: bit_imp_le_length)
  show "take_bit (2 * s) (drop_bit (2 * s * i) (drop_bit s (n AND NOT m)))
      = take_bit s (drop_bit (s * Suc (2 * i)) n)"
  proof (rule bit_word_eqI)
    fix j assume j: "j < LENGTH(32)"
    have "bit m (2 * s * i + (s + j)) \<longleftrightarrow> \<not> j < s" if "j < 2 * s" "2 * s * i + (s + j) < 32"
    proof -
      have "2 * s * i + (s + j) = s * Suc (2 * i) + j" by simp
      then have "(2 * s * i + (s + j)) div s = (j + s * Suc (2 * i)) div s" by (simp only: add.commute)
      also have "\<dots> = Suc (2 * i) + j div s" using s by (intro div_mult_self2) simp
      finally have "(2 * s * i + (s + j)) div s = Suc (2 * i) + j div s" .
      moreover have "j div s = (if j < s then 0 else 1)" using that(1) s by (auto simp: div_nat_eqI)
      ultimately show ?thesis using m [OF that(2)] by (auto split: if_splits)
    qed
    note mb = this
    have "2 * s * i + (s + j) = s * Suc (2 * i) + j" by simp
    then have "bit (take_bit (2 * s) (drop_bit (2 * s * i) (drop_bit s (n AND NOT m)))) j \<longleftrightarrow>
        j < 2 * s \<and> bit n (s * Suc (2 * i) + j) \<and> \<not> bit m (2 * s * i + (s + j)) \<and> s * Suc (2 * i) + j < 32"
      by (auto simp: bit_simps ac_simps dest: bit_imp_le_length)
    also have "\<dots> \<longleftrightarrow> j < s \<and> bit n (s * Suc (2 * i) + j)"
      using mb [unfolded \<open>2 * s * i + (s + j) = s * Suc (2 * i) + j\<close>]
        bit_imp_le_length [of n "s * Suc (2 * i) + j"]
      unfolding \<open>2 * s * i + (s + j) = s * Suc (2 * i) + j\<close> by (cases "j < s") auto
    also have "\<dots> \<longleftrightarrow> bit (take_bit s (drop_bit (s * Suc (2 * i)) n)) j" by (simp add: bit_simps)
    finally show "bit (take_bit (2 * s) (drop_bit (2 * s * i) (drop_bit s (n AND NOT m)))) j
        = bit (take_bit s (drop_bit (s * Suc (2 * i)) n)) j" .
  qed
qed

lemma digits_bound:
  assumes "\<And>i. d i < (b :: nat)"
  shows "(\<Sum>i<k. d i * b ^ i) < b ^ k"
proof (induction k)
  case (Suc k)
  have "d k * b ^ k + b ^ k \<le> b * b ^ k"
    using assms [of k] by (metis Suc_leI add.commute mult_Suc mult_le_mono1)
  then show ?case using Suc by simp
qed simp

lemma popcntStep_field:
  assumes m: "\<And>j. j < 32 \<Longrightarrow> bit m j \<longleftrightarrow> even (j div s)" and s: "0 < s" "2 * s * c = 32"
    and d: "\<And>i. field_at (2 ^ s) (unat n) i \<le> s" and i: "i < c"
  shows "field_at (2 ^ (2 * s)) (unat (popcntStep n m s)) i =
    field_at (2 ^ s) (unat n) (2 * i) + field_at (2 ^ s) (unat n) (Suc (2 * i))"
proof -
  let ?b = "2 ^ (2 * s) :: nat" and ?d = "\<lambda>i. field_at (2 ^ s) (unat n) i"
  let ?A = "n AND m" and ?B = "drop_bit s (n AND NOT m)"
  have fA: "field_at ?b (unat ?A) i = ?d (2 * i)" and fB: "field_at ?b (unat ?B) i = ?d (Suc (2 * i))" for i
    unfolding field_at_word using alternating_mask [OF m s(1)] by simp_all
  have "2 * s < 2 ^ (2 * s)" by (rule less_exp)
  then have dd: "?d (2 * i) + ?d (Suc (2 * i)) < ?b" for i using d [of "2 * i"] d [of "Suc (2 * i)"] by linarith
  have b32: "?b ^ c = 2 ^ 32" by (simp only: power_mult [symmetric] s(2))
  have lt: "unat w < 2 ^ 32" for w :: u32 using unsigned_less [of w] by simp
  have A: "unat ?A = (\<Sum>i<c. ?d (2 * i) * ?b ^ i)" and B: "unat ?B = (\<Sum>i<c. ?d (Suc (2 * i)) * ?b ^ i)"
    unfolding fA [symmetric] fB [symmetric]
    by (rule sum_field_at [symmetric], simp only: b32 lt)+
  have "unat ?A + unat ?B = (\<Sum>i<c. (?d (2 * i) + ?d (Suc (2 * i))) * ?b ^ i)" (is "_ = ?S")
    unfolding A B by (simp add: sum.distrib add_mult_distrib)
  moreover have "?S < ?b ^ c"
    by (rule digits_bound) (rule dd)
  ultimately have "unat (popcntStep n m s) = ?S"
    unfolding popcntStep_def b32 using unat_add_lem [of ?A ?B] by simp
  then show ?thesis using field_at_sum [of c _ ?b i, OF dd i] by simp
qed

lemma popcnt_step:
  assumes m: "\<And>j. j < 32 \<Longrightarrow> bit m j \<longleftrightarrow> even (j div s)" and s: "0 < s" "2 * s * c = 32"
    and d: "\<And>i. field_at (2 ^ s) (unat n) i \<le> s"
  shows "(\<Sum>i<c. field_at (2 ^ (2 * s)) (unat (popcntStep n m s)) i) = (\<Sum>i<2 * c. field_at (2 ^ s) (unat n) i)"
    and "field_at (2 ^ (2 * s)) (unat (popcntStep n m s)) i \<le> 2 * s"
proof -
  let ?d = "\<lambda>i. field_at (2 ^ s) (unat n) i"
  have f: "field_at (2 ^ (2 * s)) (unat (popcntStep n m s)) i = ?d (2 * i) + ?d (Suc (2 * i))" if "i < c" for i
    by (rule popcntStep_field [OF m s d that])
  have "(\<Sum>i<c. ?d (2 * i) + ?d (Suc (2 * i))) = (\<Sum>i<2 * c. ?d i)" by (induction c) simp_all
  then show "(\<Sum>i<c. field_at (2 ^ (2 * s)) (unat (popcntStep n m s)) i) = (\<Sum>i<2 * c. ?d i)"
    using f by simp
  show "field_at (2 ^ (2 * s)) (unat (popcntStep n m s)) i \<le> 2 * s"
  proof (cases "i < c")
    case True
    show ?thesis unfolding f [OF True] using d [of "2 * i"] d [of "Suc (2 * i)"] by linarith
  next
    case False
    have "32 \<le> 2 * s * i" using False by (metis leI mult_le_mono2 s(2))
    then have "drop_bit (2 * s * i) (popcntStep n m s) = 0"
      by (intro bit_word_eqI) (simp add: bit_simps)
    then show ?thesis unfolding field_at_word by simp
  qed
qed

lemma alternating_masks:
  "list_all (\<lambda>j. bit (0x55555555 :: u32) j = even (j div 1)) [0..<32]"
  "list_all (\<lambda>j. bit (0x33333333 :: u32) j = even (j div 2)) [0..<32]"
  "list_all (\<lambda>j. bit (0x0F0F0F0F :: u32) j = even (j div 4)) [0..<32]"
  "list_all (\<lambda>j. bit (0x00FF00FF :: u32) j = even (j div 8)) [0..<32]"
  "list_all (\<lambda>j. bit (0x0000FFFF :: u32) j = even (j div 16)) [0..<32]"
  by code_simp+

lemma sum_card_bits: "(\<Sum>i<32. of_bool (bit (n :: u32) i)) = card {i. bit n i}"
proof -
  have "{i. bit n i} = {i \<in> {..<32}. bit n i}" by (auto dest: bit_imp_le_length)
  then show ?thesis by (simp add: sum.If_cases of_bool_def Int_def)
qed

text \<open>The population count is the number of set bits.\<close>

lemma popcnt_card: "unat (popcnt n) = card {i. bit n i}"
proof -
  note am = alternating_masks [unfolded list_all_iff set_upt]
  have m: "j < 32 \<Longrightarrow> bit (0x55555555 :: u32) j = even (j div 1)"
    "j < 32 \<Longrightarrow> bit (0x33333333 :: u32) j = even (j div 2)"
    "j < 32 \<Longrightarrow> bit (0x0F0F0F0F :: u32) j = even (j div 4)"
    "j < 32 \<Longrightarrow> bit (0x00FF00FF :: u32) j = even (j div 8)"
    "j < 32 \<Longrightarrow> bit (0x0000FFFF :: u32) j = even (j div 16)" for j
    using am by auto
  define n1 where "n1 = popcntStep n 0x55555555 1"
  define n2 where "n2 = popcntStep n1 0x33333333 2"
  define n3 where "n3 = popcntStep n2 0x0F0F0F0F 4"
  define n4 where "n4 = popcntStep n3 0x00FF00FF 8"
  define n5 where "n5 = popcntStep n4 0x0000FFFF 16"
  let ?S = "\<lambda>s c x. \<Sum>i<c. field_at (2 ^ s) (unat (x :: u32)) i"
  have b0: "field_at (2 ^ 1) (unat n) i = of_bool (bit n i)" for i
  proof -
    have "field_at (2 ^ 1) (unat n) i = of_bool (odd (unat n div 2 ^ i))" by (simp add: field_at_def mod_2_eq_odd)
    also have "odd (unat n div 2 ^ i) \<longleftrightarrow> bit (unat n) i" by (simp add: bit_iff_odd)
    also have "\<dots> \<longleftrightarrow> bit n i" by (auto simp: bit_unsigned_iff)
    finally show ?thesis .
  qed
  have d0: "field_at (2 ^ 1) (unat n) i \<le> 1" for i unfolding b0 by simp
  have 1: "?S 2 16 n1 = ?S 1 32 n" "\<And>i. field_at (2 ^ 2) (unat n1) i \<le> 2"
    using popcnt_step [OF m(1), of 16 n] d0 unfolding n1_def by simp_all
  have 2: "?S 4 8 n2 = ?S 2 16 n1" "\<And>i. field_at (2 ^ 4) (unat n2) i \<le> 4"
    using popcnt_step [OF m(2), of 8 n1] 1(2) unfolding n2_def by simp_all
  have 3: "?S 8 4 n3 = ?S 4 8 n2" "\<And>i. field_at (2 ^ 8) (unat n3) i \<le> 8"
    using popcnt_step [OF m(3), of 4 n2] 2(2) unfolding n3_def by simp_all
  have 4: "?S 16 2 n4 = ?S 8 4 n3" "\<And>i. field_at (2 ^ 16) (unat n4) i \<le> 16"
    using popcnt_step [OF m(4), of 2 n3] 3(2) unfolding n4_def by simp_all
  have 5: "?S 32 1 n5 = ?S 16 2 n4"
    using popcnt_step [OF m(5), of 1 n4] 4(2) unfolding n5_def by simp_all
  have "unat n5 < 2 ^ 32" using unsigned_less [of n5] by simp
  then have "?S 32 1 n5 = unat n5" by (simp add: field_at_def)
  then have "unat n5 = (\<Sum>i<32. of_bool (bit n i))" using 1(1) 2(1) 3(1) 4(1) 5 b0 by simp
  then show ?thesis
    by (simp only: sum_card_bits popcnt_def Let_def n1_def n2_def n3_def n4_def n5_def)
qed

text \<open>
  C20.  The bit helpers compute what their names say: population count is the number of set
  bits, the trailing and leading zero counts are the positions of the lowest and of the
  highest set bit, and all of them are total, with the operand width for zero.
\<close>

theorem bit_scans_correct:
  "unat (popcnt n) = card {i. bit n i} \<and>
   (if n = 0 then tzcnt32 n = 32 else tzcnt32 n = (LEAST i. bit n i)) \<and>
   (if w = 0 then tzcnt64 w = 64 else tzcnt64 w = (LEAST i. bit w i)) \<and>
   (if n = 0 then lzcnt32 n = 32
    else lzcnt32 n < 32 \<and> 2 ^ (31 - lzcnt32 n) \<le> unat n \<and> unat n < 2 ^ (32 - lzcnt32 n))"
proof -
  have "tzcnt32 n = (LEAST i. bit n i)" if "n \<noteq> 0"
    using tzcnt32_bit [OF that] by (intro Least_equality [symmetric]) (auto simp: not_le [symmetric])
  moreover have "tzcnt64 w = (LEAST i. bit w i)" if "w \<noteq> 0"
    using tzcnt64_bit [OF that] by (intro Least_equality [symmetric]) (auto simp: not_le [symmetric])
  ultimately show ?thesis using lzcnt32_bounds [of n] by (auto simp: popcnt_card)
qed

end
