(* ===== verification/FenceSet.thy ===== *)
theory FenceSet
  imports BitUtil
begin

text \<open>
  \<open>FenceSet\<close> of \<open>src/dxmt/dxmt_deptrack.hpp\<close>: a set of GPU encoder identifiers
  modulo \<open>kParityLane = 256\<close>, held in four 64-bit words (one per parity, one bit per
  lane).  The array \<open>storage_[kParity]\<close> has a constant length of four, so it is a
  datatype with four fields and the loops over \<open>kParity\<close> are written out by
  \<open>zip_slots\<close>.  The abstraction \<open>fs_abs\<close> is the set of occupied positions
  below 256; every operation is proved to be the corresponding operation on sets.
\<close>

section \<open>Constants and the position of an encoder\<close>

abbreviation (input) kLog2Lane :: nat where "kLog2Lane \<equiv> 6"
abbreviation (input) kLane :: nat where "kLane \<equiv> 64"
abbreviation (input) kParity :: nat where "kParity \<equiv> 4"
abbreviation (input) kParityLane :: nat where "kParityLane \<equiv> 256"

definition kAllLaneMask :: u64 where
  "kAllLaneMask = drop_bit (64 - kLane) (NOT 0)"

definition PARITY :: "u64 \<Rightarrow> nat" where
  "PARITY eid = unat (drop_bit kLog2Lane eid mod 4)"

definition LANE :: "u64 \<Rightarrow> nat" where
  "LANE eid = unat (eid AND 63)"

definition pos :: "u64 \<Rightarrow> nat" where
  "pos eid = unat eid mod 256"

section \<open>The data type\<close>

datatype fence_set = FenceSet u64 u64 u64 u64

fun slot :: "fence_set \<Rightarrow> nat \<Rightarrow> u64" where
  "slot (FenceSet a b c d) i =
     (if i = 0 then a else if i = 1 then b else if i = 2 then c else d)"

fun set_slot :: "fence_set \<Rightarrow> nat \<Rightarrow> u64 \<Rightarrow> fence_set" where
  "set_slot (FenceSet a b c d) i w =
     (if i = 0 then FenceSet w b c d else if i = 1 then FenceSet a w c d
      else if i = 2 then FenceSet a b w d else FenceSet a b c w)"

definition zip_slots :: "(u64 \<Rightarrow> u64 \<Rightarrow> u64) \<Rightarrow> fence_set \<Rightarrow> fence_set \<Rightarrow> fence_set" where
  "zip_slots f x y = FenceSet (f (slot x 0) (slot y 0)) (f (slot x 1) (slot y 1))
                              (f (slot x 2) (slot y 2)) (f (slot x 3) (slot y 3))"

section \<open>Operations\<close>

definition fs_empty :: fence_set where
  "fs_empty = FenceSet 0 0 0 0"

definition fs_set :: "fence_set \<Rightarrow> u64 \<Rightarrow> fence_set" where
  "fs_set s eid = set_slot s (PARITY eid) (slot s (PARITY eid) OR push_bit (LANE eid) 1)"

definition fs_singleton :: "u64 \<Rightarrow> fence_set" where
  "fs_singleton eid = fs_set fs_empty eid"

definition fs_unset :: "fence_set \<Rightarrow> u64 \<Rightarrow> fence_set" where
  "fs_unset s eid = set_slot s (PARITY eid)
     (slot s (PARITY eid) AND (kAllLaneMask AND NOT (push_bit (LANE eid) 1)))"

definition fs_fillGenerationBefore :: "fence_set \<Rightarrow> nat \<Rightarrow> nat \<Rightarrow> fence_set" where
  "fs_fillGenerationBefore s parity lane =
     (let idx = (parity + kParity + (kParity - 1)) * kLane + lane
      in fold (\<lambda>offset f. fs_set f (of_nat idx - of_nat offset)) [0..<kLane] s)"

definition fs_test :: "fence_set \<Rightarrow> u64 \<Rightarrow> bool" where
  "fs_test s eid \<longleftrightarrow> slot s (PARITY eid) AND push_bit (LANE eid) 1 \<noteq> 0"

definition fs_testAndSet :: "fence_set \<Rightarrow> u64 \<Rightarrow> bool \<times> fence_set" where
  "fs_testAndSet s eid =
     (let P = PARITY eid; LM = push_bit (LANE eid) 1
      in if slot s P AND LM \<noteq> 0 then (True, s)
         else (False, set_slot s P (slot s P OR LM)))"

definition fs_intersectedWith :: "fence_set \<Rightarrow> fence_set \<Rightarrow> bool" where
  "fs_intersectedWith s t \<longleftrightarrow> list_ex (\<lambda>i. slot s i AND slot t i \<noteq> 0) [0..<kParity]"

definition fs_contains :: "fence_set \<Rightarrow> fence_set \<Rightarrow> bool" where
  "fs_contains s t \<longleftrightarrow> list_all (\<lambda>i. slot s i AND slot t i = slot t i) [0..<kParity]"

definition fs_merge :: "fence_set \<Rightarrow> fence_set \<Rightarrow> fence_set" where
  "fs_merge s t = zip_slots (\<lambda>a b. a OR b) s t"

definition fs_unionOf :: "fence_set \<Rightarrow> fence_set \<Rightarrow> fence_set" where
  "fs_unionOf s t = zip_slots (\<lambda>a b. a OR b) s t"

definition fs_subtract :: "fence_set \<Rightarrow> fence_set \<Rightarrow> fence_set" where
  "fs_subtract s t = zip_slots (\<lambda>a b. a AND (kAllLaneMask AND NOT b)) s t"

definition fs_mergeWithLaneMaskOff :: "fence_set \<Rightarrow> fence_set \<Rightarrow> u64 \<Rightarrow> fence_set" where
  "fs_mergeWithLaneMaskOff s t m = zip_slots (\<lambda>a b. a OR (b AND (kAllLaneMask AND NOT m))) s t"

definition fs_laneMask :: "fence_set \<Rightarrow> u64" where
  "fs_laneMask s = fold (\<lambda>i ret. ret OR slot s i) [0..<kParity] 0"

definition fs_is_empty :: "fence_set \<Rightarrow> bool" where
  "fs_is_empty s \<longleftrightarrow> fs_laneMask s = 0"

text \<open>The inner \<open>while (lanes)\<close> loops of the two \<open>forEach\<close> members.\<close>

lemma clear_lowest_decreases:
  assumes "(w :: u64) \<noteq> 0"
  shows "unat (w AND NOT (push_bit (tzcnt64 w) 1)) < unat w"
proof -
  let ?v = "w AND NOT (push_bit (tzcnt64 w) 1)"
  have "?v \<le> w" by (simp add: word_and_le2)
  moreover have "?v \<noteq> w"
    using tzcnt64_bit [OF assms] bit_and_not_shl_one [of w "tzcnt64 w" "tzcnt64 w"] by auto
  ultimately have "?v < w" by simp
  then show ?thesis by (simp add: word_less_nat_alt)
qed

function lanes_of :: "nat \<Rightarrow> u64 \<Rightarrow> nat list" where
  "lanes_of P lanes =
     (if lanes = 0 then []
      else let lane = tzcnt64 lanes
           in (P * kLane + lane) # lanes_of P (lanes AND NOT (push_bit lane 1)))"
  by pat_completeness auto
termination
  by (relation "measure (\<lambda>(P, lanes). unat lanes)") (auto simp: clear_lowest_decreases)

declare lanes_of.simps [simp del]

definition fs_forEach :: "fence_set \<Rightarrow> nat list" where
  "fs_forEach s = concat (map (\<lambda>P. lanes_of P (slot s P)) [0..<kParity])"

text \<open>Calls of \<open>fnPrior\<close> are tagged \<open>True\<close>, calls of \<open>fn\<close> are tagged \<open>False\<close>.\<close>

function lanes_prior_of :: "nat \<Rightarrow> u64 \<Rightarrow> u64 \<Rightarrow> (bool \<times> nat) list" where
  "lanes_prior_of P lanes prior =
     (let combine = lanes OR prior
      in if combine = 0 then []
         else let lane = tzcnt64 combine
              in (prior AND push_bit lane 1 \<noteq> 0, P * kLane + lane)
                 # lanes_prior_of P (lanes AND NOT (push_bit lane 1)) (prior AND NOT (push_bit lane 1)))"
  by pat_completeness auto
termination
proof (relation "measure (\<lambda>(P, lanes, prior). unat (lanes OR prior))", goal_cases)
  case (2 P lanes prior x xa)
  have "(lanes AND NOT (push_bit xa 1)) OR (prior AND NOT (push_bit xa 1))
      = x AND NOT (push_bit xa 1)"
    using 2 by (auto simp: word_eq_bits bit_simps)
  then show ?case using 2 clear_lowest_decreases by simp
qed simp

declare lanes_prior_of.simps [simp del]

definition fs_forEachPrior :: "fence_set \<Rightarrow> fence_set \<Rightarrow> (bool \<times> nat) list" where
  "fs_forEachPrior s prior = concat (map (\<lambda>P. lanes_prior_of P (slot s P) (slot prior P)) [0..<kParity])"

section \<open>Positions\<close>

lemma PARITY_pos: "PARITY eid = pos eid div 64"
proof -
  have "unat eid mod (64 * 4) = 64 * (unat eid div 64 mod 4) + unat eid mod 64"
    by (rule mod_mult2_eq)
  then have "unat eid div 64 mod 4 = unat eid mod 256 div 64"
    by simp
  then show ?thesis
    by (simp add: PARITY_def pos_def unat_mod unat_div drop_bit_eq_div)
qed

lemma LANE_pos: "LANE eid = pos eid mod 64"
proof -
  have "eid AND 63 = take_bit 6 eid"
    by (simp add: take_bit_eq_mask mask_eq_exp_minus_1)
  then have "unat (eid AND 63) = unat eid mod 64"
    by (simp add: unsigned_take_bit_eq take_bit_eq_mod unat_mod)
  moreover have "unat eid mod 64 = unat eid mod 256 mod 64"
    by (simp add: mod_mod_cancel)
  ultimately show ?thesis by (simp add: LANE_def pos_def)
qed

lemma pos_less [simp]: "pos eid < 256"
  by (simp add: pos_def)

lemma PARITY_less [simp]: "PARITY eid < 4"
  using pos_less [of eid] by (simp add: PARITY_pos del: pos_less)

lemma LANE_less [simp]: "LANE eid < 64"
  by (simp add: LANE_pos)

lemma pos_split: "p = PARITY eid * 64 + LANE eid \<longleftrightarrow> p = pos eid"
  by (simp add: PARITY_pos LANE_pos)

section \<open>Abstraction\<close>

definition fs_abs :: "fence_set \<Rightarrow> nat set" where
  "fs_abs s = {p. p < 256 \<and> bit (slot s (p div 64)) (p mod 64)}"

lemma slot_set_slot:
  "i < 4 \<Longrightarrow> j < 4 \<Longrightarrow> slot (set_slot s i w) j = (if i = j then w else slot s j)"
  by (cases s) auto

lemma slot_zip_slots: "i < 4 \<Longrightarrow> slot (zip_slots f s t) i = f (slot s i) (slot t i)"
  by (auto simp: zip_slots_def less_Suc_eq numeral_eq_Suc)

lemma kAllLaneMask_and [simp]: "kAllLaneMask AND w = w"
  by (simp add: kAllLaneMask_def)

lemma mem_fs_abs: "p < 256 \<Longrightarrow> p \<in> fs_abs s \<longleftrightarrow> bit (slot s (p div 64)) (p mod 64)"
  by (simp add: fs_abs_def)

lemma fs_abs_less: "p \<in> fs_abs s \<Longrightarrow> p < 256"
  by (simp add: fs_abs_def)

lemma fs_abs_subset: "fs_abs s \<subseteq> {..<256}"
  by (auto simp: fs_abs_def)

lemma finite_fs_abs [simp]: "finite (fs_abs s)"
  using fs_abs_subset by (rule finite_subset) simp

lemma fs_abs_empty [simp]: "fs_abs fs_empty = {}"
  by (auto simp: fs_abs_def fs_empty_def)

lemma div64_less4: "p < 256 \<Longrightarrow> p div 64 < (4 :: nat)"
  by simp

lemma same_pos: "pos e div 64 = p div 64 \<Longrightarrow> p mod 64 = pos e mod 64 \<Longrightarrow> p = pos e"
  by (metis div_mult_mod_eq)

lemma fs_abs_set [simp]: "fs_abs (fs_set s eid) = insert (pos eid) (fs_abs s)"
proof (rule set_eqI)
  fix p
  show "p \<in> fs_abs (fs_set s eid) \<longleftrightarrow> p \<in> insert (pos eid) (fs_abs s)"
  proof (cases "p < 256")
    case True
    then show ?thesis
      using div64_less4 [OF True] div64_less4 [OF pos_less [of eid]]
      by (auto simp: mem_fs_abs fs_set_def slot_set_slot bit_or_shl_one PARITY_pos LANE_pos
          dest: same_pos)
  next
    case False
    then show ?thesis using fs_abs_less pos_less by (metis insertE)
  qed
qed

lemma fs_abs_unset [simp]: "fs_abs (fs_unset s eid) = fs_abs s - {pos eid}"
proof (rule set_eqI)
  fix p
  show "p \<in> fs_abs (fs_unset s eid) \<longleftrightarrow> p \<in> fs_abs s - {pos eid}"
  proof (cases "p < 256")
    case True
    then show ?thesis
      using div64_less4 [OF True] div64_less4 [OF pos_less [of eid]]
      by (auto simp: mem_fs_abs fs_unset_def slot_set_slot bit_and_not_shl_one PARITY_pos LANE_pos
          dest: same_pos)
  next
    case False
    then show ?thesis using fs_abs_less by (metis DiffD1)
  qed
qed

lemma fs_test_abs [simp]: "fs_test s eid \<longleftrightarrow> pos eid \<in> fs_abs s"
  by (simp add: fs_test_def and_shl_one_neq_0 mem_fs_abs PARITY_pos LANE_pos)

lemma fs_testAndSet_eq [simp]: "fs_testAndSet s eid = (fs_test s eid, if fs_test s eid then s else fs_set s eid)"
  by (simp add: fs_testAndSet_def fs_test_def fs_set_def Let_def del: fs_test_abs)

lemma fs_abs_merge [simp]: "fs_abs (fs_merge s t) = fs_abs s \<union> fs_abs t"
  by (auto simp: fs_abs_def fs_merge_def slot_zip_slots bit_simps)

lemma fs_abs_unionOf [simp]: "fs_abs (fs_unionOf s t) = fs_abs s \<union> fs_abs t"
  by (auto simp: fs_abs_def fs_unionOf_def slot_zip_slots bit_simps)

lemma fs_abs_subtract [simp]: "fs_abs (fs_subtract s t) = fs_abs s - fs_abs t"
  by (auto simp: fs_abs_def fs_subtract_def slot_zip_slots bit_simps)

lemma fs_abs_mergeWithLaneMaskOff [simp]:
  "fs_abs (fs_mergeWithLaneMaskOff s t m) = fs_abs s \<union> {p \<in> fs_abs t. \<not> bit m (p mod 64)}"
  by (auto simp: fs_abs_def fs_mergeWithLaneMaskOff_def slot_zip_slots bit_simps)

lemma upt4: "[0..<4] = [0, 1, 2, 3 :: nat]"
  by (simp add: upt_rec)

lemma bit_u64_less: "bit (w :: u64) i \<Longrightarrow> i < 64"
  using bit_imp_le_length [of w i] by simp

lemma ball_less4: "(\<forall>i<4. Q i) \<longleftrightarrow> Q 0 \<and> Q 1 \<and> Q 2 \<and> Q (3 :: nat)"
  by (auto simp: less_Suc_eq numeral_eq_Suc)

lemma slots_cover:
  "(\<forall>i<4. \<forall>l<64. Q i l) \<longleftrightarrow> (\<forall>p<256. Q (p div 64) (p mod (64 :: nat)))"
proof (intro iffI allI impI)
  fix i l :: nat assume a: "\<forall>p<256. Q (p div 64) (p mod 64)" "i < 4" "l < 64"
  then have "(i * 64 + l) div 64 = i" "(i * 64 + l) mod 64 = l" "i * 64 + l < 256" by auto
  with a show "Q i l" by metis
qed auto

lemma fs_contains_abs [simp]: "fs_contains s t \<longleftrightarrow> fs_abs t \<subseteq> fs_abs s"
proof -
  have "fs_contains s t \<longleftrightarrow> (\<forall>i<4. \<forall>l<64. bit (slot t i) l \<longrightarrow> bit (slot s i) l)"
    by (auto simp: fs_contains_def list_all_iff word_and_eq_right_bit)
  also have "\<dots> \<longleftrightarrow> (\<forall>p<256. bit (slot t (p div 64)) (p mod 64) \<longrightarrow> bit (slot s (p div 64)) (p mod 64))"
    by (rule slots_cover)
  also have "\<dots> \<longleftrightarrow> fs_abs t \<subseteq> fs_abs s" by (auto simp: fs_abs_def)
  finally show ?thesis .
qed

lemma fs_intersectedWith_abs [simp]: "fs_intersectedWith s t \<longleftrightarrow> fs_abs s \<inter> fs_abs t \<noteq> {}"
proof -
  have "\<not> fs_intersectedWith s t \<longleftrightarrow> (\<forall>i<4. \<forall>l<64. \<not> (bit (slot s i) l \<and> bit (slot t i) l))"
    by (auto simp: fs_intersectedWith_def list_ex_iff word_and_neq_0_bit)
  also have "\<dots> \<longleftrightarrow> (\<forall>p<256. \<not> (bit (slot s (p div 64)) (p mod 64) \<and> bit (slot t (p div 64)) (p mod 64)))"
    by (rule slots_cover)
  also have "\<dots> \<longleftrightarrow> fs_abs s \<inter> fs_abs t = {}" by (auto simp: fs_abs_def)
  finally show ?thesis by blast
qed

lemma fs_eqI:
  assumes "fs_abs s = fs_abs t"
  shows "s = t"
proof -
  have "\<forall>p<256. bit (slot s (p div 64)) (p mod 64) = bit (slot t (p div 64)) (p mod 64)"
    using assms by (auto simp: fs_abs_def)
  then have "\<forall>i<4. \<forall>l<64. bit (slot s i) l = bit (slot t i) l"
    by (simp add: slots_cover)
  then have "\<forall>i<4. slot s i = slot t i" by (simp add: word_eq_bits)
  then show ?thesis by (cases s; cases t) (simp add: ball_less4)
qed

lemma laneMask_bit:
  assumes "l < 64"
  shows "bit (fs_laneMask s) l \<longleftrightarrow> (\<exists>p \<in> fs_abs s. p mod 64 = l)"
proof -
  have "bit (fs_laneMask s) l \<longleftrightarrow> \<not> (\<forall>i<4. \<not> bit (slot s i) l)"
    by (auto simp: fs_laneMask_def upt4 bit_simps ball_less4)
  also have "\<dots> \<longleftrightarrow> \<not> (\<forall>i<4. \<forall>k<64. \<not> (bit (slot s i) k \<and> k = l))"
    using assms by auto
  also have "\<dots> \<longleftrightarrow> (\<exists>p \<in> fs_abs s. p mod 64 = l)"
    unfolding slots_cover by (auto simp: fs_abs_def)
  finally show ?thesis .
qed

lemma fs_is_empty_abs [simp]: "fs_is_empty s \<longleftrightarrow> fs_abs s = {}"
proof -
  have "fs_laneMask s \<noteq> 0 \<longleftrightarrow> (\<exists>l<64. bit (fs_laneMask s) l)" by (simp add: word_neq_0_bit)
  also have "\<dots> \<longleftrightarrow> (\<exists>l<64. \<exists>p \<in> fs_abs s. p mod 64 = l)" using laneMask_bit by blast
  also have "\<dots> \<longleftrightarrow> fs_abs s \<noteq> {}"
    by (metis all_not_in_conv mod_less_divisor zero_less_numeral)
  finally show ?thesis by (auto simp: fs_is_empty_def)
qed

section \<open>Enumeration\<close>

lemma set_lanes_of: "set (lanes_of P w) = {P * 64 + i | i. bit w i}"
proof (induction P w rule: lanes_of.induct)
  case (1 P w)
  show ?case
  proof (cases "w = 0")
    case False
    have "set (lanes_of P w) = insert (P * 64 + tzcnt64 w)
        {P * 64 + i | i. bit w i \<and> i \<noteq> tzcnt64 w}"
      using 1 False by (subst lanes_of.simps) (simp add: Let_def bit_and_not_shl_one)
    also have "\<dots> = {P * 64 + i | i. bit w i}" using tzcnt64_bit [OF False] by blast
    finally show ?thesis .
  qed (simp add: lanes_of.simps)
qed

lemma sorted_lanes_of: "sorted_wrt (<) (lanes_of P w)"
proof (induction P w rule: lanes_of.induct)
  case (1 P w)
  show ?case
  proof (cases "w = 0")
    case False
    have "tzcnt64 w < i" if "bit w i" "i \<noteq> tzcnt64 w" for i
      using tzcnt64_bit [OF False] that by (meson linorder_neqE_nat)
    then show ?thesis
      using 1 False by (subst lanes_of.simps)
        (auto simp: Let_def set_lanes_of bit_and_not_shl_one)
  qed (simp add: lanes_of.simps)
qed

lemma sorted_concat_upt:
  assumes "\<And>i. i < n \<Longrightarrow> sorted_wrt (<) (f i)"
    and "\<And>i x. i < n \<Longrightarrow> x \<in> set (f i) \<Longrightarrow> i * 64 \<le> x \<and> x < i * 64 + (64 :: nat)"
  shows "sorted_wrt (<) (concat (map f [0..<n]))"
  using assms
proof (induction n)
  case (Suc n)
  have "\<forall>x \<in> set (concat (map f [0..<n])). \<forall>y \<in> set (f n). x < y"
  proof (intro ballI)
    fix x y assume "x \<in> set (concat (map f [0..<n]))" and y: "y \<in> set (f n)"
    then obtain i where i: "i < n" "x \<in> set (f i)" by auto
    then have "x < i * 64 + 64" using Suc.prems(2) by simp
    also have "\<dots> \<le> n * 64" using i(1) by simp
    also have "\<dots> \<le> y" using Suc.prems(2) y by simp
    finally show "x < y" .
  qed
  then show ?case using Suc by (simp add: sorted_wrt_append)
qed simp

lemma fs_forEach_sorted: "fs_forEach s = sorted_list_of_set (fs_abs s)"
proof (rule strict_sorted_eq_sorted_list_of_set)
  show "sorted_wrt (<) (fs_forEach s)"
    unfolding fs_forEach_def
    by (rule sorted_concat_upt)
      (auto simp: sorted_lanes_of set_lanes_of dest: bit_imp_le_length)
  show "set (fs_forEach s) = fs_abs s"
  proof (rule set_eqI)
    fix p
    have "p \<in> set (fs_forEach s) \<longleftrightarrow> (\<exists>P<4. \<exists>i<64. p = P * 64 + i \<and> bit (slot s P) i)"
      using bit_u64_less by (fastforce simp: fs_forEach_def set_lanes_of)
    also have "\<dots> \<longleftrightarrow> \<not> (\<forall>P<4. \<forall>i<64. \<not> (p = P * 64 + i \<and> bit (slot s P) i))" by auto
    also have "\<dots> \<longleftrightarrow> p \<in> fs_abs s" unfolding slots_cover by (auto simp: fs_abs_def)
    finally show "p \<in> set (fs_forEach s) \<longleftrightarrow> p \<in> fs_abs s" .
  qed
qed

lemma lanes_prior_of_snd: "map snd (lanes_prior_of P w v) = lanes_of P (w OR v)"
proof (induction P w v rule: lanes_prior_of.induct)
  case (1 P w v)
  let ?l = "tzcnt64 (w OR v)"
  have eq: "(w AND NOT (push_bit ?l 1)) OR (v AND NOT (push_bit ?l 1))
      = (w OR v) AND NOT (push_bit ?l 1)"
    by (auto simp: word_eq_bits bit_simps)
  show ?case
  proof (cases "w OR v = 0")
    case False
    then show ?thesis
      using 1 eq by (subst lanes_prior_of.simps, subst lanes_of.simps) (simp add: Let_def)
  qed (simp add: lanes_prior_of.simps lanes_of.simps)
qed

lemma lanes_prior_of_tag:
  "(b, p) \<in> set (lanes_prior_of P w v) \<Longrightarrow> b \<longleftrightarrow> (\<exists>i. p = P * 64 + i \<and> bit v i)"
proof (induction P w v rule: lanes_prior_of.induct)
  case (1 P w v)
  let ?l = "tzcnt64 (w OR v)"
  show ?case
  proof (cases "w OR v = 0")
    case False
    from 1(2) False consider "b = bit v ?l" "p = P * 64 + ?l"
      | "(b, p) \<in> set (lanes_prior_of P (w AND NOT (push_bit ?l 1)) (v AND NOT (push_bit ?l 1)))"
      by (subst (asm) lanes_prior_of.simps) (auto simp: Let_def and_shl_one_neq_0)
    then show ?thesis
    proof cases
      case 2
      let ?w = "w AND NOT (push_bit ?l 1)" and ?v = "v AND NOT (push_bit ?l 1)"
      have "p \<in> set (lanes_of P (?w OR ?v))"
        using 2 by (subst lanes_prior_of_snd [symmetric]) force
      then have "\<not> (\<exists>i. p = P * 64 + i \<and> i = ?l)"
        by (auto simp: set_lanes_of bit_simps)
      moreover have "b \<longleftrightarrow> (\<exists>i. p = P * 64 + i \<and> bit ?v i)"
        using 1(1) [OF refl False refl 2] by simp
      ultimately show ?thesis by (auto simp: bit_and_not_shl_one)
    qed auto
  next
    case True
    with 1(2) show ?thesis by (simp add: lanes_prior_of.simps)
  qed
qed

lemma fs_forEachPrior_snd:
  "map snd (fs_forEachPrior s prior) = sorted_list_of_set (fs_abs s \<union> fs_abs prior)"
proof -
  have "map snd (fs_forEachPrior s prior) = fs_forEach (fs_unionOf s prior)"
    by (simp add: fs_forEachPrior_def fs_forEach_def map_concat comp_def lanes_prior_of_snd
        upt4 fs_unionOf_def zip_slots_def)
  then show ?thesis by (simp add: fs_forEach_sorted)
qed

lemma fs_forEachPrior_tag:
  assumes "(b, p) \<in> set (fs_forEachPrior s prior)"
  shows "b \<longleftrightarrow> p \<in> fs_abs prior"
proof -
  from assms obtain P where P: "P < 4" "(b, p) \<in> set (lanes_prior_of P (slot s P) (slot prior P))"
    by (auto simp: fs_forEachPrior_def)
  from P(2) have "p \<in> set (lanes_of P (slot s P OR slot prior P))"
    by (subst lanes_prior_of_snd [symmetric]) force
  then obtain i where i: "p = P * 64 + i" "i < 64"
    by (auto simp: set_lanes_of dest: bit_u64_less)
  have "b \<longleftrightarrow> bit (slot prior P) i"
    using lanes_prior_of_tag [OF P(2)] i by auto
  with i P(1) show ?thesis by (simp add: mem_fs_abs)
qed

section \<open>The generation before an encoder\<close>

lemma fs_abs_fold_set:
  "fs_abs (fold (\<lambda>x f. fs_set f (g x)) xs s) = fs_abs s \<union> (\<lambda>x. pos (g x)) ` set xs"
  by (induction xs arbitrary: s) auto

lemma pos_diff: "b \<le> a \<Longrightarrow> pos (of_nat a - of_nat b) = (a - b) mod 256"
  unfolding pos_def by (rule unat_mod_pow2_diff) simp_all

lemma fs_abs_fillGenerationBefore:
  "fs_abs (fs_fillGenerationBefore s parity lane)
     = fs_abs s \<union> {((parity + 7) * 64 + lane - off) mod 256 | off. off < 64}"
proof -
  define n where "n = (parity + 7) * 64 + lane"
  have n: "(parity + kParity + (kParity - 1)) * kLane + lane = n" by (simp add: n_def)
  have "pos (of_nat n - of_nat off) = (n - off) mod 256" if "off < 64" for off
    by (rule pos_diff) (use that in \<open>simp add: n_def\<close>)
  then have "(\<lambda>off. pos (of_nat n - of_nat off)) ` {0..<64} = (\<lambda>off. (n - off) mod 256) ` {0..<64}"
    by (intro image_cong) auto
  then show ?thesis
    unfolding fs_fillGenerationBefore_def Let_def n fs_abs_fold_set set_upt n_def [symmetric]
    by auto
qed

section \<open>Fence sets as an ordered algebra\<close>

text \<open>
  \<open>contains\<close> is the order of a semilattice with \<open>unionOf\<close> as join and the
  default-constructed set as least element, so the library's order automation applies.
\<close>

instantiation fence_set :: bounded_semilattice_sup_bot
begin

definition less_eq_fence_set :: "fence_set \<Rightarrow> fence_set \<Rightarrow> bool" where
  "less_eq_fence_set s t = fs_contains t s"

definition less_fence_set :: "fence_set \<Rightarrow> fence_set \<Rightarrow> bool" where
  "less_fence_set s t = (fs_contains t s \<and> \<not> fs_contains s t)"

definition sup_fence_set :: "fence_set \<Rightarrow> fence_set \<Rightarrow> fence_set" where
  "sup_fence_set s t = fs_unionOf s t"

definition bot_fence_set :: fence_set where
  "bot_fence_set = fs_empty"

instance
  by standard
    (auto simp: less_eq_fence_set_def less_fence_set_def sup_fence_set_def bot_fence_set_def
      intro: fs_eqI)

end

text \<open>
  C17.  A fence set is a set of encoder identifiers modulo 256: every operation is the set
  operation on the positions, equality of the words is equality of the sets, and the
  iterations visit each member once, in increasing order, tagged with membership in
  \<open>prior\<close>.
\<close>

theorem fence_set_refines:
  "fs_abs (fs_singleton i) = {unat i mod 256} \<and>
   fs_abs (fs_set s i) = insert (unat i mod 256) (fs_abs s) \<and>
   fs_abs (fs_unset s i) = fs_abs s - {unat i mod 256} \<and>
   (fs_test s i \<longleftrightarrow> unat i mod 256 \<in> fs_abs s) \<and>
   fs_testAndSet s i = (fs_test s i, if fs_test s i then s else fs_set s i) \<and>
   fs_abs (fs_merge s t) = fs_abs s \<union> fs_abs t \<and>
   fs_abs (fs_unionOf s t) = fs_abs s \<union> fs_abs t \<and>
   fs_abs (fs_subtract s t) = fs_abs s - fs_abs t \<and>
   fs_abs (fs_mergeWithLaneMaskOff s t m) = fs_abs s \<union> {p \<in> fs_abs t. \<not> bit m (p mod 64)} \<and>
   (fs_contains s t \<longleftrightarrow> fs_abs t \<subseteq> fs_abs s) \<and>
   (fs_intersectedWith s t \<longleftrightarrow> fs_abs s \<inter> fs_abs t \<noteq> {}) \<and>
   (fs_is_empty s \<longleftrightarrow> fs_abs s = {}) \<and> (s = t \<longleftrightarrow> fs_abs s = fs_abs t) \<and>
   fs_forEach s = sorted_list_of_set (fs_abs s) \<and>
   fs_forEachPrior s t = map (\<lambda>p. (p \<in> fs_abs t, p)) (sorted_list_of_set (fs_abs s \<union> fs_abs t))"
proof -
  have "map (\<lambda>p. (p \<in> fs_abs t, p)) (map snd (fs_forEachPrior s t)) = fs_forEachPrior s t"
    unfolding map_map by (rule map_idI) (auto dest: fs_forEachPrior_tag)
  then have "fs_forEachPrior s t = map (\<lambda>p. (p \<in> fs_abs t, p)) (sorted_list_of_set (fs_abs s \<union> fs_abs t))"
    by (simp add: fs_forEachPrior_snd)
  moreover have "s = t \<longleftrightarrow> fs_abs s = fs_abs t" using fs_eqI by blast
  ultimately show ?thesis
    by (simp add: fs_forEach_sorted pos_def fs_singleton_def)
qed

end
