(* ===== verification/FenceLocality.thy ===== *)
theory FenceLocality
  imports FenceSet
begin

text \<open>
  \<open>WeakFenceMaskLTO\<close> and \<open>FenceLocalityCheck::collectAndSimplifyWaits\<close> of
  \<open>src/dxmt/dxmt_deptrack.cpp\<close>.  Every encoder hands in the set of encoders it has to
  wait for (\<open>strong_fences\<close>); the check adds the previous generation of encoders, drops
  every wait that is already implied by another one, and records the full set for the
  encoders that follow.  The theory proves that nothing is lost: the reduced waits order
  every encoder after all the encoders it asked to wait for, and after every encoder that
  is 64 or more identifiers older.
\<close>

section \<open>The code\<close>

definition weak_fences_lto :: "fence_set list" where
  "weak_fences_lto =
     concat (map (\<lambda>p. map (\<lambda>l. fs_fillGenerationBefore fs_empty p l) [0..<kLane]) [0..<kParity])"

definition WEAK_FENCE_MASK :: "u64 \<Rightarrow> fence_set" where
  "WEAK_FENCE_MASK i = weak_fences_lto ! unat (i mod 256)"

text \<open>\<open>summary_\<close>, an array of \<open>kParityLane\<close> fence sets, indexed by position.\<close>

type_synonym summary = "nat \<Rightarrow> fence_set"

definition summary_init :: summary where
  "summary_init = (\<lambda>_. fs_empty)"

definition add_implicit :: "fence_set \<Rightarrow> u64 \<Rightarrow> bool \<Rightarrow> fence_set" where
  "add_implicit strong eid implicit_pre_raster_wait =
     (if implicit_pre_raster_wait then fs_set strong (eid - 1) else strong)"

definition full_fences :: "fence_set \<Rightarrow> u64 \<Rightarrow> bool \<Rightarrow> fence_set" where
  "full_fences strong eid implicit_pre_raster_wait =
     (let strong' = add_implicit strong eid implicit_pre_raster_wait
      in fs_mergeWithLaneMaskOff strong' (WEAK_FENCE_MASK eid) (fs_laneMask strong'))"

text \<open>The loop over \<open>offset\<close>; the offsets still to visit are the list argument.\<close>

definition simplify_step ::
  "summary \<Rightarrow> u64 \<Rightarrow> fence_set \<Rightarrow> nat \<Rightarrow> fence_set \<times> fence_set \<Rightarrow> fence_set \<times> fence_set" where
  "simplify_step sm eid full offset = (\<lambda>(minimal, accessible).
     let prev = eid - of_nat offset;
         (minimal, accessible) =
           (if fs_test full prev
            then (case fs_testAndSet accessible prev of
                    (found, a) \<Rightarrow> (if found then minimal else fs_set minimal prev, a))
            else (minimal, accessible));
         accessible =
           (if fs_test accessible prev then fs_merge accessible (sm (unat (prev mod 256)))
            else accessible)
     in (minimal, accessible))"

fun simplify_loop ::
  "summary \<Rightarrow> u64 \<Rightarrow> fence_set \<Rightarrow> nat list \<Rightarrow> fence_set \<times> fence_set \<Rightarrow> fence_set" where
  "simplify_loop sm eid full [] st = fst st"
| "simplify_loop sm eid full (offset # rest) st =
     (let st' = simplify_step sm eid full offset st
      in if fs_contains (snd st') full then fst st'
         else simplify_loop sm eid full rest st')"

definition collectAndSimplifyWaits ::
  "summary \<Rightarrow> fence_set \<Rightarrow> u64 \<Rightarrow> bool \<Rightarrow> fence_set \<times> summary" where
  "collectAndSimplifyWaits sm strong eid implicit_pre_raster_wait =
     (let full = full_fences strong eid implicit_pre_raster_wait;
          minimal = simplify_loop sm eid full [1..<kParityLane] (fs_empty, fs_empty);
          sm' = sm(unat (eid mod 256) := full);
          minimal' = (if implicit_pre_raster_wait then fs_unset minimal (eid - 1) else minimal)
      in (minimal', sm'))"

section \<open>The previous generation\<close>

lemma unat_mod_256 [simp]: "unat (i mod 256 :: u64) = pos i"
  by (simp add: unat_mod pos_def)

lemma concat_nth_64:
  "i < n \<Longrightarrow> l < 64 \<Longrightarrow> concat (map (\<lambda>p. map (f p) [0..<64]) [0..<n]) ! (i * 64 + l) = f i l"
proof (induction n)
  case (Suc n)
  have len: "length (concat (map (\<lambda>p. map (f p) [0..<64]) [0..<m])) = m * 64" for m
    by (induction m) auto
  show ?case
  proof (cases "i = n")
    case False
    then have "i < n" using Suc.prems by simp
    moreover from this have "i * 64 + l < n * 64" using Suc.prems(2) by simp
    ultimately show ?thesis using Suc by (simp add: nth_append len)
  qed (use Suc in \<open>simp add: nth_append len\<close>)
qed simp

lemma WEAK_FENCE_MASK_eq:
  "WEAK_FENCE_MASK i = fs_fillGenerationBefore fs_empty (PARITY i) (LANE i)"
proof -
  have "WEAK_FENCE_MASK i = weak_fences_lto ! (PARITY i * 64 + LANE i)"
    by (simp add: WEAK_FENCE_MASK_def PARITY_pos LANE_pos)
  also have "\<dots> = fs_fillGenerationBefore fs_empty (PARITY i) (LANE i)"
    unfolding weak_fences_lto_def by (rule concat_nth_64) simp_all
  finally show ?thesis .
qed

lemma pos_of_nat [simp]: "pos (of_nat e) = e mod 256"
  using pos_diff [of 0 e] by simp

lemma fs_abs_WEAK:
  assumes "128 \<le> e"
  shows "fs_abs (WEAK_FENCE_MASK (of_nat e)) = {(e - d) mod 256 | d. 64 \<le> d \<and> d < 128}"
proof -
  have "(PARITY (of_nat e) + 7) * 64 + LANE (of_nat e) = e mod 256 + 448"
    by (simp add: PARITY_pos LANE_pos add_mult_distrib)
  then have "fs_abs (WEAK_FENCE_MASK (of_nat e)) = {(e mod 256 + 448 - off) mod 256 | off. off < 64}"
    by (simp only: WEAK_FENCE_MASK_eq fs_abs_fillGenerationBefore fs_abs_empty Un_empty_left)
  also have "\<dots> = {(e - d) mod 256 | d. 64 \<le> d \<and> d < 128}"
  proof -
    have eq: "(e mod 256 + 448 - off) mod 256 = (e - (off + 64)) mod 256" if "off < 64" for off
    proof -
      have "(e mod 256 + 448 - off) mod 256 = (e mod 256 + (448 - off)) mod 256"
        using that by simp
      also have "\<dots> = (e + (448 - off)) mod 256" by (rule mod_add_left_eq)
      also have "e + (448 - off) = (e - (off + 64)) + 2 * 256" using that assms by simp
      also have "\<dots> mod 256 = (e - (off + 64)) mod 256" by (rule mod_mult_self1)
      finally show ?thesis .
    qed
    show ?thesis
    proof (intro set_eqI iffI)
      fix x assume "x \<in> {(e mod 256 + 448 - off) mod 256 | off. off < 64}"
      then obtain off where "off < 64" "x = (e mod 256 + 448 - off) mod 256" by blast
      then show "x \<in> {(e - d) mod 256 | d. 64 \<le> d \<and> d < 128}"
        using eq by (intro CollectI exI [of _ "off + 64"]) simp
    next
      fix x assume "x \<in> {(e - d) mod 256 | d. 64 \<le> d \<and> d < 128}"
      then obtain d where "64 \<le> d" "d < 128" "x = (e - d) mod 256" by blast
      then show "x \<in> {(e mod 256 + 448 - off) mod 256 | off. off < 64}"
        using eq [of "d - 64"] by (intro CollectI exI [of _ "d - 64"]) simp
    qed
  qed
  finally show ?thesis .
qed

section \<open>Coverage of the reduced waits\<close>

text \<open>
  \<open>covered S e M o\<close>: the encoder \<open>o\<close> before \<open>e\<close> is waited for
  directly (\<open>o \<in> M\<close>) or is in the recorded full set of a covered, younger encoder.
\<close>

inductive covered :: "(nat \<Rightarrow> nat set) \<Rightarrow> nat \<Rightarrow> nat set \<Rightarrow> nat \<Rightarrow> bool"
  for S e M where
  direct: "d \<in> M \<Longrightarrow> covered S e M d"
| through: "covered S e M d' \<Longrightarrow> d' < d \<Longrightarrow> d < 256 \<Longrightarrow>
    (e - d) mod 256 \<in> S ((e - d') mod 256) \<Longrightarrow> covered S e M d"

lemma covered_mono: "covered S e M d \<Longrightarrow> M \<subseteq> M' \<Longrightarrow> covered S e M' d"
  by (induction rule: covered.induct) (auto intro: covered.intros)

lemma covered_insert_above: "covered S e (insert k M) d \<Longrightarrow> d < k \<Longrightarrow> covered S e M d"
  by (induction rule: covered.induct) (auto intro: covered.intros)

text \<open>One iteration as an operation on positions, and the invariant of the loop.\<close>

definition offs :: "nat \<Rightarrow> fence_set \<Rightarrow> nat set" where
  "offs e s = {d. 0 < d \<and> d < 256 \<and> (e - d) mod 256 \<in> fs_abs s}"

definition loop_inv ::
  "summary \<Rightarrow> nat \<Rightarrow> fence_set \<Rightarrow> nat \<Rightarrow> fence_set \<Rightarrow> fence_set \<Rightarrow> bool" where
  "loop_inv sm e full k mini acc \<longleftrightarrow>
     offs e mini \<subseteq> {..<k} \<inter> offs e full \<and> fs_abs mini \<subseteq> fs_abs acc \<and>
     (\<forall>d \<in> offs e full. d < k \<longrightarrow> covered (fs_abs \<circ> sm) e (offs e mini) d) \<and>
     (\<forall>d \<in> offs e acc. k \<le> d \<longrightarrow> covered (fs_abs \<circ> sm) e (offs e mini) d) \<and>
     (\<forall>d<k. covered (fs_abs \<circ> sm) e (offs e mini) d \<longrightarrow>
        fs_abs (sm ((e - d) mod 256)) \<subseteq> fs_abs acc) \<and>
     (\<forall>d \<in> offs e mini. \<not> covered (fs_abs \<circ> sm) e (offs e mini \<inter> {..<d}) d)"

lemma pos_prev: "d \<le> e \<Longrightarrow> pos (of_nat e - of_nat d) = (e - d) mod 256"
  by (rule pos_diff)

lemma offset_inj_less:
  assumes "(e - d) mod 256 = (e - d') mod 256" "d < d'" "d' < 256" "256 \<le> (e :: nat)"
  shows False
proof -
  have "256 dvd (e - d) - (e - d')"
    using mod_eq_dvd_iff_nat [of "e - d'" "e - d" 256] assms(1,2) by simp
  then have "256 dvd d' - d" using assms(2-4) by (simp add: diff_diff_right)
  then show False using assms(2,3) by (auto dest: dvd_imp_le)
qed

lemma offset_inj:
  assumes "(e - d) mod 256 = (e - d') mod 256" "d < 256" "d' < 256" "256 \<le> (e :: nat)"
  shows "d = d'"
  using assms offset_inj_less [of e d d'] offset_inj_less [of e d' d] by (metis linorder_neqE_nat)

lemma offs_set:
  assumes "0 < k" "k < 256" "256 \<le> e"
  shows "offs e (fs_set s (of_nat e - of_nat k)) = insert k (offs e s)"
  using assms offset_inj [of e _ k] by (auto simp: offs_def pos_prev)

lemma mem_offs: "0 < k \<Longrightarrow> k < 256 \<Longrightarrow> (e - k) mod 256 \<in> fs_abs s \<longleftrightarrow> k \<in> offs e s"
  by (simp add: offs_def)

lemma simplify_step_cases:
  assumes "simplify_step sm (of_nat e) full k (mini, acc) = (mini', acc')"
    and "0 < k" "k < 256" "256 \<le> e"
  obtains
    (keep) "mini' = mini" "k \<in> offs e full \<longrightarrow> k \<in> offs e acc"
      "fs_abs acc' = (if k \<in> offs e acc then fs_abs acc \<union> fs_abs (sm ((e - k) mod 256)) else fs_abs acc)"
  | (wait) "mini' = fs_set mini (of_nat e - of_nat k)" "k \<in> offs e full" "k \<notin> offs e acc"
      "fs_abs acc' = insert ((e - k) mod 256) (fs_abs acc) \<union> fs_abs (sm ((e - k) mod 256))"
proof -
  have p: "pos (of_nat e - of_nat k) = (e - k) mod 256" using assms by (intro pos_prev) simp
  note m = mem_offs [OF assms(2,3), of e]
  show ?thesis
    using assms(1) keep wait
    by (auto simp: simplify_step_def Let_def p m offs_set [OF assms(2-4)] split: if_splits)
qed

lemma loop_invD:
  assumes "loop_inv sm e full k mini acc"
  shows loop_inv_minimal: "offs e mini \<subseteq> {..<k} \<inter> offs e full"
    and loop_inv_acc: "fs_abs mini \<subseteq> fs_abs acc"
    and loop_inv_seen: "d \<in> offs e full \<Longrightarrow> d < k \<Longrightarrow> covered (fs_abs \<circ> sm) e (offs e mini) d"
    and loop_inv_ahead: "d \<in> offs e acc \<Longrightarrow> k \<le> d \<Longrightarrow> covered (fs_abs \<circ> sm) e (offs e mini) d"
    and loop_inv_merged: "d < k \<Longrightarrow> covered (fs_abs \<circ> sm) e (offs e mini) d \<Longrightarrow>
      fs_abs (sm ((e - d) mod 256)) \<subseteq> fs_abs acc"
    and loop_inv_irredundant: "d \<in> offs e mini \<Longrightarrow>
      \<not> covered (fs_abs \<circ> sm) e (offs e mini \<inter> {..<d}) d"
  using assms by (simp_all add: loop_inv_def)

lemma loop_invI:
  assumes "offs e mini \<subseteq> {..<k} \<inter> offs e full" "fs_abs mini \<subseteq> fs_abs acc"
    and "\<And>d. d \<in> offs e full \<Longrightarrow> d < k \<Longrightarrow> covered (fs_abs \<circ> sm) e (offs e mini) d"
    and "\<And>d. d \<in> offs e acc \<Longrightarrow> k \<le> d \<Longrightarrow> covered (fs_abs \<circ> sm) e (offs e mini) d"
    and "\<And>d. d < k \<Longrightarrow> covered (fs_abs \<circ> sm) e (offs e mini) d \<Longrightarrow>
      fs_abs (sm ((e - d) mod 256)) \<subseteq> fs_abs acc"
    and "\<And>d. d \<in> offs e mini \<Longrightarrow> \<not> covered (fs_abs \<circ> sm) e (offs e mini \<inter> {..<d}) d"
  shows "loop_inv sm e full k mini acc"
  using assms unfolding loop_inv_def by (intro conjI ballI allI impI) assumption+

lemma loop_inv_covered_next:
  assumes inv: "loop_inv sm e full k mini acc" and c: "covered (fs_abs \<circ> sm) e (offs e mini) k"
    and k: "0 < k" "k < 256"
  shows "k \<in> offs e acc"
  using c
proof (cases rule: covered.cases)
  case direct
  then show ?thesis using loop_inv_minimal [OF inv] by auto
next
  case (through d')
  then show ?thesis using loop_inv_merged [OF inv, of d'] k by (auto simp: offs_def)
qed

lemma loop_inv_keep:
  assumes inv: "loop_inv sm e full k mini acc" and k: "0 < k" "k < 256"
    and imp: "k \<in> offs e full \<longrightarrow> k \<in> offs e acc"
    and acc': "fs_abs acc' = (if k \<in> offs e acc then fs_abs acc \<union> fs_abs (sm ((e - k) mod 256))
                              else fs_abs acc)"
  shows "loop_inv sm e full (Suc k) mini acc'"
proof -
  let ?c = "covered (fs_abs \<circ> sm) e (offs e mini)"
  have sub: "fs_abs acc \<subseteq> fs_abs acc'" using acc' by auto
  have c3: "?c d" if "d \<in> offs e full" "d < Suc k" for d
    using that imp loop_inv_seen [OF inv] loop_inv_ahead [OF inv] by (cases "d = k") auto
  have c4: "?c d" if d: "d \<in> offs e acc'" "Suc k \<le> d" for d
  proof (cases "d \<in> offs e acc")
    case False
    then have "k \<in> offs e acc" "(e - d) mod 256 \<in> fs_abs (sm ((e - k) mod 256))"
      using d(1) acc' by (auto simp: offs_def split: if_splits)
    moreover from this have "?c k" using loop_inv_ahead [OF inv] by simp
    ultimately show ?thesis
      using d by (auto simp: offs_def intro: covered.through [of _ e _ k])
  next
    case True
    then show ?thesis using d loop_inv_ahead [OF inv] by simp
  qed
  have c5: "fs_abs (sm ((e - d) mod 256)) \<subseteq> fs_abs acc'" if "d < Suc k" "?c d" for d
  proof (cases "d = k")
    case True
    then show ?thesis using that loop_inv_covered_next [OF inv _ k] acc' by simp
  next
    case False
    then show ?thesis using that loop_inv_merged [OF inv, of d] sub by auto
  qed
  have "offs e mini \<subseteq> {..<Suc k} \<inter> offs e full" using loop_inv_minimal [OF inv] by auto
  moreover have "fs_abs mini \<subseteq> fs_abs acc'" using loop_inv_acc [OF inv] sub by blast
  ultimately show ?thesis
    by (rule loop_invI) (fact c3 c4 c5 loop_inv_irredundant [OF inv])+
qed

lemma loop_inv_wait:
  assumes inv: "loop_inv sm e full k mini acc" and k: "0 < k" "k < 256" and e: "256 \<le> e"
    and f: "k \<in> offs e full" "k \<notin> offs e acc"
    and acc': "fs_abs acc' = insert ((e - k) mod 256) (fs_abs acc) \<union> fs_abs (sm ((e - k) mod 256))"
  shows "loop_inv sm e full (Suc k) (fs_set mini (of_nat e - of_nat k)) acc'"
proof -
  let ?M = "offs e mini" and ?mini' = "fs_set mini (of_nat e - of_nat k)"
  let ?c = "covered (fs_abs \<circ> sm) e (insert k ?M)"
  have M': "offs e ?mini' = insert k ?M" by (rule offs_set) (use k e in auto)
  have mono: "covered (fs_abs \<circ> sm) e ?M d \<Longrightarrow> ?c d" for d
    by (erule covered_mono) auto
  have ck: "?c k" by (rule covered.direct) simp
  have "pos (of_nat e - of_nat k) = (e - k) mod 256" using k e by (intro pos_prev) simp
  then have c2: "fs_abs ?mini' \<subseteq> fs_abs acc'" using loop_inv_acc [OF inv] acc' by auto
  have c3: "?c d" if "d \<in> offs e full" "d < Suc k" for d
    using that loop_inv_seen [OF inv] mono ck by (cases "d = k") auto
  have c4: "?c d" if d: "d \<in> offs e acc'" "Suc k \<le> d" for d
  proof (cases "d \<in> offs e acc")
    case True
    then show ?thesis using d loop_inv_ahead [OF inv] mono by simp
  next
    case False
    have "(e - d) mod 256 \<noteq> (e - k) mod 256"
      using d e k offset_inj [of e d k] by (auto simp: offs_def)
    then have "(e - d) mod 256 \<in> fs_abs (sm ((e - k) mod 256))"
      using d(1) False acc' by (auto simp: offs_def)
    then show ?thesis
      using d ck by (auto simp: offs_def intro: covered.through [of _ e _ k])
  qed
  have c5: "fs_abs (sm ((e - d) mod 256)) \<subseteq> fs_abs acc'" if "d < Suc k" "?c d" for d
  proof (cases "d = k")
    case False
    with that have "d < k" "covered (fs_abs \<circ> sm) e ?M d" by (auto intro: covered_insert_above)
    then have "fs_abs (sm ((e - d) mod 256)) \<subseteq> fs_abs acc" by (rule loop_inv_merged [OF inv])
    then show ?thesis unfolding acc' by blast
  next
    case True
    show ?thesis unfolding True acc' by blast
  qed
  have c6: "\<not> covered (fs_abs \<circ> sm) e (insert k ?M \<inter> {..<d}) d" if "d \<in> insert k ?M" for d
  proof (cases "d = k")
    case True
    have "insert k ?M \<inter> {..<k} = ?M" using loop_inv_minimal [OF inv] by auto
    then show ?thesis using True loop_inv_covered_next [OF inv _ k] f(2) by auto
  next
    case False
    then have "d \<in> ?M" "insert k ?M \<inter> {..<d} = ?M \<inter> {..<d}"
      using that loop_inv_minimal [OF inv] by auto
    then show ?thesis using loop_inv_irredundant [OF inv] by simp
  qed
  have "insert k ?M \<subseteq> {..<Suc k} \<inter> offs e full" using loop_inv_minimal [OF inv] f(1) by auto
  then show ?thesis
    by (intro loop_invI; (unfold M')?) (assumption | rule c2 | erule (1) c3 | erule (1) c4
      | erule (1) c5 | erule c6)+
qed

lemma simplify_step_inv:
  assumes "loop_inv sm e full k (fst st) (snd st)" "0 < k" "k < 256" "256 \<le> e"
    and "simplify_step sm (of_nat e) full k st = st'"
  shows "loop_inv sm e full (Suc k) (fst st') (snd st')"
proof -
  obtain mini acc mini' acc' where st: "st = (mini, acc)" "st' = (mini', acc')"
    by (cases st; cases st')
  have inv: "loop_inv sm e full k mini acc" using assms(1) st by simp
  have "simplify_step sm (of_nat e) full k (mini, acc) = (mini', acc')" using assms(5) st by simp
  then show ?thesis
    using assms(2-4)
  proof (cases rule: simplify_step_cases)
    case keep
    then show ?thesis using loop_inv_keep [OF inv assms(2,3)] st by simp
  next
    case wait
    then show ?thesis using loop_inv_wait [OF inv assms(2-4)] st by simp
  qed
qed

lemma offs_less: "d \<in> offs e s \<Longrightarrow> 0 < d \<and> d < 256"
  by (simp add: offs_def)

lemma offs_mono: "fs_abs s \<subseteq> fs_abs t \<Longrightarrow> offs e s \<subseteq> offs e t"
  by (auto simp: offs_def)

text \<open>What the loop guarantees: every requested wait is covered, none is redundant.\<close>

definition reduced :: "summary \<Rightarrow> nat \<Rightarrow> fence_set \<Rightarrow> fence_set \<Rightarrow> bool" where
  "reduced sm e full mini \<longleftrightarrow>
     offs e mini \<subseteq> offs e full \<and>
     (\<forall>d \<in> offs e full. covered (fs_abs \<circ> sm) e (offs e mini) d) \<and>
     (\<forall>d \<in> offs e mini. \<not> covered (fs_abs \<circ> sm) e (offs e mini \<inter> {..<d}) d)"

lemma loop_inv_reduced:
  assumes inv: "loop_inv sm e full k mini acc" and stop: "fs_abs full \<subseteq> fs_abs acc \<or> 256 \<le> k"
  shows "reduced sm e full mini"
proof -
  have "covered (fs_abs \<circ> sm) e (offs e mini) d" if d: "d \<in> offs e full" for d
  proof (cases "d < k")
    case False
    with stop offs_less [OF d] have "fs_abs full \<subseteq> fs_abs acc" by auto
    then have "d \<in> offs e acc" using d offs_mono by blast
    then show ?thesis using loop_inv_ahead [OF inv] False by simp
  next
    case True
    then show ?thesis using loop_inv_seen [OF inv d] by simp
  qed
  then show ?thesis
    unfolding reduced_def using loop_inv_minimal [OF inv] loop_inv_irredundant [OF inv] by blast
qed

lemma simplify_loop_reduced:
  assumes "loop_inv sm e full k (fst st) (snd st)" "0 < k" "k \<le> 256" "256 \<le> e"
  shows "reduced sm e full (simplify_loop sm (of_nat e) full [k..<256] st)"
  using assms
proof (induction "256 - k" arbitrary: k st)
  case 0
  then show ?case using loop_inv_reduced by simp
next
  case (Suc n)
  then have k: "k < 256" by simp
  then have upt: "[k..<256] = k # [Suc k..<256]" by (rule upt_conv_Cons)
  define st' where "st' = simplify_step sm (of_nat e) full k st"
  have inv: "loop_inv sm e full (Suc k) (fst st') (snd st')"
    using Suc.prems k st'_def by (intro simplify_step_inv [where st = st]) auto
  show ?case
  proof (cases "fs_contains (snd st') full")
    case True
    then show ?thesis
      using loop_inv_reduced [OF inv] by (simp add: upt st'_def [symmetric])
  next
    case False
    have "reduced sm e full (simplify_loop sm (of_nat e) full [Suc k..<256] st')"
      using Suc.hyps(2) Suc.prems k inv by (intro Suc.hyps(1)) auto
    then show ?thesis using False by (simp add: upt st'_def [symmetric])
  qed
qed

lemma collect_reduced:
  assumes "256 \<le> e"
  shows "reduced sm e full (simplify_loop sm (of_nat e) full [1..<kParityLane] (fs_empty, fs_empty))"
proof (rule simplify_loop_reduced)
  have "\<not> covered (fs_abs \<circ> sm) e {} d" for d
    by (rule notI, induction rule: covered.induct) auto
  then show "loop_inv sm e full 1 (fst (fs_empty, fs_empty)) (snd (fs_empty, fs_empty))"
    by (auto simp: loop_inv_def offs_def)
qed (use assms in auto)

section \<open>A run over consecutive encoders\<close>

text \<open>
  Encoder identifiers are handed out consecutively from \<open>base\<close> (the code starts at
  \<open>kParityLane\<close>) and every encoder calls the check once.  \<open>strong e\<close> and
  \<open>implicit e\<close> are the arguments of the call for encoder \<open>e\<close>.
\<close>

fun run_summary :: "(nat \<Rightarrow> fence_set) \<Rightarrow> (nat \<Rightarrow> bool) \<Rightarrow> nat \<Rightarrow> nat \<Rightarrow> summary" where
  "run_summary strong implicit base 0 = summary_init"
| "run_summary strong implicit base (Suc n) =
     snd (collectAndSimplifyWaits (run_summary strong implicit base n)
            (strong (base + n)) (of_nat (base + n)) (implicit (base + n)))"

definition minimal_of :: "(nat \<Rightarrow> fence_set) \<Rightarrow> (nat \<Rightarrow> bool) \<Rightarrow> nat \<Rightarrow> nat \<Rightarrow> fence_set" where
  "minimal_of strong implicit base e =
     fst (collectAndSimplifyWaits (run_summary strong implicit base (e - base))
            (strong e) (of_nat e) (implicit e))"

definition full_of :: "(nat \<Rightarrow> fence_set) \<Rightarrow> (nat \<Rightarrow> bool) \<Rightarrow> nat \<Rightarrow> fence_set" where
  "full_of strong implicit e = full_fences (strong e) (of_nat e) (implicit e)"

text \<open>
  The encoders that \<open>e\<close> really waits for: those in the returned set, and its own
  pre-raster half when the hardware orders the two halves implicitly.
\<close>

definition waits_on :: "(nat \<Rightarrow> fence_set) \<Rightarrow> (nat \<Rightarrow> bool) \<Rightarrow> nat \<Rightarrow> nat \<Rightarrow> nat set" where
  "waits_on strong implicit base e =
     {p. base \<le> p \<and> p < e \<and> e - p < 256 \<and>
         (p mod 256 \<in> fs_abs (minimal_of strong implicit base e) \<or> implicit e \<and> Suc p = e)}"

inductive ordered_before ::
  "(nat \<Rightarrow> fence_set) \<Rightarrow> (nat \<Rightarrow> bool) \<Rightarrow> nat \<Rightarrow> nat \<Rightarrow> nat \<Rightarrow> bool"
  for strong implicit base where
  wait: "p \<in> waits_on strong implicit base e \<Longrightarrow> ordered_before strong implicit base p e"
| trans: "ordered_before strong implicit base p q \<Longrightarrow> ordered_before strong implicit base q e \<Longrightarrow>
    ordered_before strong implicit base p e"

lemma collect_summary:
  "snd (collectAndSimplifyWaits sm s (of_nat e) i) = sm(e mod 256 := full_fences s (of_nat e) i)"
  by (simp add: collectAndSimplifyWaits_def Let_def)

lemma run_summary_lookup:
  assumes "base \<le> p" "p < base + n" "base + n \<le> p + 256"
  shows "run_summary strong implicit base n (p mod 256) = full_of strong implicit p"
  using assms
proof (induction n)
  case (Suc n)
  show ?case
  proof (cases "p = base + n")
    case False
    then have lt: "p < base + n" using Suc.prems by simp
    have "(base + n) mod 256 \<noteq> p mod 256"
    proof
      assume "(base + n) mod 256 = p mod 256"
      then have "256 dvd base + n - p"
        using mod_eq_dvd_iff_nat [of p "base + n" 256] lt by simp
      then show False using lt Suc.prems by (auto dest: dvd_imp_le)
    qed
    have upd: "run_summary strong implicit base (Suc n)
        = (run_summary strong implicit base n)((base + n) mod 256 := full_of strong implicit (base + n))"
      unfolding run_summary.simps full_of_def by (rule collect_summary)
    show ?thesis unfolding upd using \<open>(base + n) mod 256 \<noteq> p mod 256\<close> Suc.IH lt Suc.prems by simp
  next
    case True
    show ?thesis unfolding True run_summary.simps full_of_def collect_summary by simp
  qed
qed simp

lemma waits_on_offs:
  assumes e: "256 \<le> e" and d: "0 < d" "d < 256" "base \<le> e - d"
    and m: "d \<in> offs e (simplify_loop (run_summary strong implicit base (e - base)) (of_nat e)
              (full_of strong implicit e) [1..<kParityLane] (fs_empty, fs_empty))"
  shows "e - d \<in> waits_on strong implicit base e"
proof -
  let ?min = "simplify_loop (run_summary strong implicit base (e - base)) (of_nat e)
              (full_of strong implicit e) [1..<kParityLane] (fs_empty, fs_empty)"
  have min: "fs_abs (minimal_of strong implicit base e)
      = (if implicit e then fs_abs ?min - {pos (of_nat e - of_nat 1)} else fs_abs ?min)"
    by (simp add: minimal_of_def collectAndSimplifyWaits_def Let_def full_of_def)
  have "pos (of_nat e - of_nat 1) = (e - 1) mod 256" by (rule pos_prev) (use e in simp)
  moreover have "(e - d) mod 256 = (e - 1) mod 256 \<Longrightarrow> d = 1"
    by (rule offset_inj) (use e d in auto)
  ultimately have "(e - d) mod 256 \<in> fs_abs (minimal_of strong implicit base e) \<or> implicit e \<and> Suc (e - d) = e"
    using m e by (auto simp: min offs_def)
  then show ?thesis using e d by (simp add: waits_on_def)
qed

lemma covered_ordered:
  assumes "covered (fs_abs \<circ> run_summary strong implicit base (e - base)) e M d"
    and "256 \<le> base" "base \<le> e - d" "M \<subseteq> {0<..<256}"
    and "\<And>d. d \<in> M \<Longrightarrow> base \<le> e - d \<Longrightarrow> ordered_before strong implicit base (e - d) e"
    and IH: "\<And>e' d. e' < e \<Longrightarrow> base \<le> e' - d \<Longrightarrow> d \<in> offs e' (full_of strong implicit e') \<Longrightarrow>
      ordered_before strong implicit base (e' - d) e'"
  shows "0 < d \<and> d < 256 \<and> ordered_before strong implicit base (e - d) e"
  using assms(1,3)
proof (induction rule: covered.induct)
  case (direct d)
  then show ?case using assms(4,5) by auto
next
  case (through d' d)
  let ?e' = "e - d'"
  have "base \<le> e - d'" using through.hyps(2) through.prems by linarith
  note d' = through.IH [OF this]
  have le: "base \<le> ?e'" "?e' < e" "?e' < base + (e - base)" "base + (e - base) \<le> ?e' + 256"
    "?e' - (d - d') = e - d" "0 < d - d'" "d - d' < 256"
    using through.hyps(2,3) through.prems d' assms(2) by linarith+
  have "run_summary strong implicit base (e - base) (?e' mod 256) = full_of strong implicit ?e'"
    using le(1,3,4) by (rule run_summary_lookup)
  then have "(e - d) mod 256 \<in> fs_abs (full_of strong implicit ?e')"
    using through.hyps(4) by simp
  then have "d - d' \<in> offs ?e' (full_of strong implicit ?e')"
    unfolding offs_def using le(5,6,7) by simp
  then have "ordered_before strong implicit base (?e' - (d - d')) ?e'"
    using le(2,5) through.prems by (intro IH) simp_all
  then have "ordered_before strong implicit base (e - d) ?e'" unfolding le(5) .
  then show ?case
    using d' through.hyps(2,3) by (meson le_less_trans less_trans ordered_before.trans)
qed

lemma full_ordered:
  assumes "256 \<le> base" "base \<le> e - d" "d \<in> offs e (full_of strong implicit e)"
  shows "ordered_before strong implicit base (e - d) e"
  using assms
proof (induction e arbitrary: d rule: less_induct)
  case (less e)
  let ?sm = "run_summary strong implicit base (e - base)"
  let ?min = "simplify_loop ?sm (of_nat e) (full_of strong implicit e) [1..<kParityLane] (fs_empty, fs_empty)"
  have e: "256 \<le> e" using less.prems by simp
  then have "covered (fs_abs \<circ> ?sm) e (offs e ?min) d"
    using collect_reduced [OF e] less.prems(3) by (auto simp: reduced_def)
  moreover have "offs e ?min \<subseteq> {0<..<256}" by (auto simp: offs_def)
  moreover have "ordered_before strong implicit base (e - d) e" if "d \<in> offs e ?min" "base \<le> e - d" for d
    using that offs_less [OF that(1)] e by (intro ordered_before.wait waits_on_offs) auto
  ultimately show ?case
    using covered_ordered [of strong implicit base e "offs e ?min" d] less by blast
qed

section \<open>Older generations\<close>

text \<open>What the access trackers hand in: only encoders of the last 63.\<close>

definition recent :: "nat \<Rightarrow> fence_set \<Rightarrow> bool" where
  "recent e s \<longleftrightarrow> fs_abs s \<subseteq> (\<lambda>d. (e - d) mod 256) ` {1..<64}"

lemma recent_add_implicit:
  assumes "recent e s" "256 \<le> e"
  shows "recent e (add_implicit s (of_nat e) i)"
proof -
  have "pos (of_nat e - of_nat 1) = (e - 1) mod 256" by (rule pos_prev) (use assms in simp)
  then have "fs_abs (add_implicit s (of_nat e) i) \<subseteq> insert ((e - 1) mod 256) (fs_abs s)"
    by (auto simp: add_implicit_def)
  moreover have "(e - 1) mod 256 \<in> (\<lambda>d. (e - d) mod 256) ` {1..<64}" by (rule imageI) simp
  ultimately show ?thesis using assms(1) unfolding recent_def by blast
qed

text \<open>A weak fence is masked off only by a strong one of the same lane, 64 encoders later.\<close>

lemma weak_or_successor:
  assumes r: "recent e s" and e: "256 \<le> e" and d: "64 \<le> d" "d < 128"
  shows "d \<in> offs e (full_fences s (of_nat e) i) \<or>
    64 < d \<and> d - 64 \<in> offs e (full_fences s (of_nat e) i)"
proof (rule disjCI)
  let ?s = "add_implicit s (of_nat e) i"
  assume neg: "\<not> (64 < d \<and> d - 64 \<in> offs e (full_fences s (of_nat e) i))"
  have abs: "fs_abs (full_fences s (of_nat e) i)
      = fs_abs ?s \<union> {x \<in> fs_abs (WEAK_FENCE_MASK (of_nat e)). \<not> bit (fs_laneMask ?s) (x mod 64)}"
    by (auto simp: full_fences_def Let_def)
  have weak: "(e - d) mod 256 \<in> fs_abs (WEAK_FENCE_MASK (of_nat e))"
    using d e by (auto simp: fs_abs_WEAK)
  have "\<not> bit (fs_laneMask ?s) ((e - d) mod 256 mod 64)"
  proof
    assume "bit (fs_laneMask ?s) ((e - d) mod 256 mod 64)"
    then obtain x where x: "x \<in> fs_abs ?s" "x mod 64 = (e - d) mod 64"
      by (auto simp: laneMask_bit mod_mod_cancel)
    then obtain d' where d': "1 \<le> d'" "d' < 64" "x = (e - d') mod 256"
      using recent_add_implicit [OF r e, of i] unfolding recent_def
      by (meson atLeastLessThan_iff imageE subsetD)
    with x(2) have "(e - d') mod 64 = (e - d) mod 64" by (simp add: mod_mod_cancel)
    then have "64 dvd (e - d') - (e - d)"
      using mod_eq_dvd_iff_nat [of "e - d" "e - d'" 64] d' d by simp
    then have "64 dvd d - d'" using d d' e by simp
    then obtain k where k: "d - d' = 64 * k" by (rule dvdE)
    then have "k = 1" using d d' by linarith
    then have "d' = d - 64" "64 < d" using k d' d by linarith+
    moreover from this have "d - 64 \<in> offs e (full_fences s (of_nat e) i)"
      using x(1) d' by (simp add: offs_def abs)
    ultimately show False using neg by simp
  qed
  then show "d \<in> offs e (full_fences s (of_nat e) i)"
    using weak d by (simp add: offs_def abs)
qed

lemma generation_ordered_aux:
  assumes "256 \<le> base" "\<And>e. base \<le> e \<Longrightarrow> recent e (strong e)"
  shows "base \<le> p \<Longrightarrow> p + 64 \<le> e \<Longrightarrow> ordered_before strong implicit base p e"
proof (induction e rule: less_induct)
  case (less e)
  have r: "recent e (strong e)" and e: "256 \<le> e" using assms less.prems by auto
  have full: "d \<in> offs e (full_of strong implicit e) \<or> 64 < d \<and> d - 64 \<in> offs e (full_of strong implicit e)"
    if "64 \<le> d" "d < 128" for d
    unfolding full_of_def by (rule weak_or_successor [OF r e that])
  show ?case
  proof (cases "e - p < 128")
    case True
    have "e - p \<in> offs e (full_of strong implicit e) \<or>
        64 < e - p \<and> e - p - 64 \<in> offs e (full_of strong implicit e)"
      by (rule full) (use True less.prems in auto)
    then show ?thesis
    proof
      assume "e - p \<in> offs e (full_of strong implicit e)"
      then have "ordered_before strong implicit base (e - (e - p)) e"
        using less.prems by (intro full_ordered [OF assms(1)]) auto
      then show ?thesis using less.prems by simp
    next
      assume *: "64 < e - p \<and> e - p - 64 \<in> offs e (full_of strong implicit e)"
      then have "ordered_before strong implicit base (e - (e - p - 64)) e"
        using less.prems by (intro full_ordered [OF assms(1)]) auto
      moreover have "e - (e - p - 64) = p + 64" using * by linarith
      moreover have "ordered_before strong implicit base p (p + 64)"
        by (rule less.IH) (use * less.prems in auto)
      ultimately show ?thesis by (auto intro: ordered_before.trans)
    qed
  next
    case False
    have "64 \<in> offs e (full_of strong implicit e)" using full [of 64] by simp
    then have "ordered_before strong implicit base (e - 64) e"
      using False less.prems by (intro full_ordered [OF assms(1)]) auto
    moreover have "ordered_before strong implicit base p (e - 64)"
      by (rule less.IH) (use False less.prems in auto)
    ultimately show ?thesis by (rule ordered_before.trans [rotated])
  qed
qed



end
