(* ===== verification/AccessTracker.thy ===== *)
theory AccessTracker
  imports FenceLocality
begin

text \<open>
  \<open>TrackingSet\<close>, \<open>EncoderBarrierState\<close> and \<open>GenericAccessTracker\<close> of
  \<open>src/dxmt/dxmt_deptrack.hpp\<close> and \<open>.cpp\<close>: per resource, the last exclusive access and
  the shared accesses since, from which every access computes the encoders to wait for.
  The ring of the tracking set refines a list of identifiers, newest first; the last
  section runs accesses of many resources through trackers and the locality check and
  proves that conflicting accesses of different encoders are ordered.
\<close>

section \<open>The tracking set\<close>

text \<open>\<open>storage_[Sz + Forward]\<close> and \<open>cursor\<close>, with the default \<open>Sz = 64\<close>, \<open>Forward = 1\<close>.
  \<open>junk\<close> is the uninitialised storage before the constructor runs.\<close>

record tracking_set =
  ts_storage :: "u64 list"
  ts_cursor :: u32

definition ts_clear :: "tracking_set \<Rightarrow> tracking_set" where
  "ts_clear t = t\<lparr>ts_storage := (ts_storage t)[unat (ts_cursor t) := 0]\<rparr>"

definition ts_construct :: "u64 list \<Rightarrow> tracking_set" where
  "ts_construct junk = ts_clear \<lparr>ts_storage = junk, ts_cursor = 0\<rparr>"

definition ts_isLastAccess :: "tracking_set \<Rightarrow> u64 \<Rightarrow> bool" where
  "ts_isLastAccess t eid \<longleftrightarrow> ts_storage t ! unat (ts_cursor t) = eid"

definition ts_add :: "tracking_set \<Rightarrow> u64 \<Rightarrow> bool \<times> tracking_set" where
  "ts_add t eid =
     (if ts_storage t ! unat (ts_cursor t) = eid then (False, t)
      else let c = (ts_cursor t + 1) mod 64
           in (True, \<lparr>ts_storage = (ts_storage t)[unat c := eid], ts_cursor = c\<rparr>))"

text \<open>The loop of \<open>enumerate\<close>: the identifiers \<open>fn\<close> is called with, in order.\<close>

fun ts_enumerate_loop :: "tracking_set \<Rightarrow> u64 \<Rightarrow> nat list \<Rightarrow> u64 list" where
  "ts_enumerate_loop t id_before [] = []"
| "ts_enumerate_loop t id_before (i # is) =
     (let c = ts_storage t ! ((unat (ts_cursor t) + 64 - i) mod 64)
      in if c \<ge> id_before then ts_enumerate_loop t id_before is
         else if c > id_before - 64 then c # ts_enumerate_loop t id_before is
         else [])"

definition ts_enumerate :: "tracking_set \<Rightarrow> u64 \<Rightarrow> u64 list" where
  "ts_enumerate t id_before = ts_enumerate_loop t id_before [0..<64]"

section \<open>The tracker\<close>

text \<open>\<open>EncoderBarrierState\<close>: two-bit fields, bit 0 read/write, bit 1 write after write.\<close>

record barrier_state =
  barrierSet :: "2 word"
  barrierPreRasterSet :: "2 word"
  barrierFragmentAfterPreRasterSet :: "2 word"
  barrierPreRasterAfterFragmentSet :: "2 word"

definition kBarrierTypeRW :: "2 word" where "kBarrierTypeRW = 1"
definition kBarrierTypeWaW :: "2 word" where "kBarrierTypeWaW = 2"

definition shl_uav :: "bool \<Rightarrow> 2 word" where
  "shl_uav uav = push_bit (of_bool uav) 1"

definition no_barrier :: barrier_state where
  "no_barrier = \<lparr>barrierSet = 0, barrierPreRasterSet = 0, barrierFragmentAfterPreRasterSet = 0,
                 barrierPreRasterAfterFragmentSet = 0\<rparr>"

abbreviation or_barrier :: "2 word \<Rightarrow> barrier_state \<Rightarrow> barrier_state" where
  "or_barrier m b \<equiv> b\<lparr>barrierSet := barrierSet b OR m\<rparr>"
abbreviation or_pr :: "2 word \<Rightarrow> barrier_state \<Rightarrow> barrier_state" where
  "or_pr m b \<equiv> b\<lparr>barrierPreRasterSet := barrierPreRasterSet b OR m\<rparr>"
abbreviation or_fap :: "2 word \<Rightarrow> barrier_state \<Rightarrow> barrier_state" where
  "or_fap m b \<equiv> b\<lparr>barrierFragmentAfterPreRasterSet := barrierFragmentAfterPreRasterSet b OR m\<rparr>"
abbreviation or_paf :: "2 word \<Rightarrow> barrier_state \<Rightarrow> barrier_state" where
  "or_paf m b \<equiv> b\<lparr>barrierPreRasterAfterFragmentSet := barrierPreRasterAfterFragmentSet b OR m\<rparr>"

record tracker =
  shared :: tracking_set
  exclusive :: u64
  isShared :: bool
  isSharedPreRaster :: bool
  lastWriteFromPreRaster :: bool

definition tracker_construct :: "u64 list \<Rightarrow> tracker" where
  "tracker_construct junk = \<lparr>shared = ts_construct junk, exclusive = 0, isShared = False,
     isSharedPreRaster = False, lastWriteFromPreRaster = False\<rparr>"

type_synonym track = "tracker \<times> fence_set \<times> barrier_state"

definition set_all :: "fence_set \<Rightarrow> u64 list \<Rightarrow> fence_set" where
  "set_all w ids = foldl fs_set w ids"

definition set_if_near :: "u64 \<Rightarrow> u64 \<Rightarrow> fence_set \<Rightarrow> fence_set" where
  "set_if_near eid ex w = (if eid - ex < 64 then fs_set w ex else w)"

definition accessShared :: "u64 \<Rightarrow> track \<Rightarrow> track" where
  "accessShared eid = (\<lambda>(t, w, b).
     if exclusive t = eid then
       if isShared t then (t, w, b)
       else (t\<lparr>isShared := True\<rparr>, w, or_barrier kBarrierTypeRW b)
     else if ts_isLastAccess (shared t) eid then (t, w, b)
     else (t\<lparr>shared := snd (ts_add (shared t) eid)\<rparr>, set_if_near eid (exclusive t) w, b))"

definition accessExclusive :: "bool \<Rightarrow> u64 \<Rightarrow> track \<Rightarrow> track" where
  "accessExclusive uav eid = (\<lambda>(t, w, b).
     let t = t\<lparr>isShared := False\<rparr>
     in if exclusive t = eid then (t, w, or_barrier (shl_uav uav) b)
        else let b = (if ts_isLastAccess (shared t) eid then or_barrier kBarrierTypeRW b else b);
                 w = set_all w (ts_enumerate (shared t) eid);
                 t = t\<lparr>shared := ts_clear (shared t)\<rparr>;
                 w = set_if_near eid (exclusive t) w
             in (t\<lparr>exclusive := eid\<rparr>, w, b))"

definition accessSharedPreRaster :: "u64 \<Rightarrow> track \<Rightarrow> track" where
  "accessSharedPreRaster eid = (\<lambda>(t, w, b).
     if exclusive t = eid + 1 then
       if isSharedPreRaster t then (t, w, b)
       else (t\<lparr>isSharedPreRaster := True\<rparr>, w,
             if lastWriteFromPreRaster t then or_pr kBarrierTypeRW b else or_paf kBarrierTypeRW b)
     else if exclusive t = eid then
       if isSharedPreRaster t then (t, w, b)
       else (t\<lparr>isSharedPreRaster := True\<rparr>, w, or_pr kBarrierTypeRW b)
     else if ts_isLastAccess (shared t) (eid + 1) then
       if isSharedPreRaster t then (t, w, b)
       else (t\<lparr>isSharedPreRaster := True\<rparr>, set_if_near eid (exclusive t) w, b)
     else if ts_isLastAccess (shared t) eid then (t, w, b)
     else (t\<lparr>shared := snd (ts_add (shared t) eid), isSharedPreRaster := True, isShared := False\<rparr>,
           set_if_near eid (exclusive t) w, b))"

text \<open>The two conditional blocks that flush pending shared accesses into barriers.\<close>

definition flush_shared ::
  "(2 word \<Rightarrow> barrier_state \<Rightarrow> barrier_state) \<Rightarrow> (2 word \<Rightarrow> barrier_state \<Rightarrow> barrier_state) \<Rightarrow>
   tracker \<times> barrier_state \<Rightarrow> tracker \<times> barrier_state" where
  "flush_shared or_p or_f = (\<lambda>(t, b).
     let (t, b) = (if isSharedPreRaster t
                   then (t\<lparr>isSharedPreRaster := False\<rparr>, or_p kBarrierTypeRW b) else (t, b))
     in if isShared t then (t\<lparr>isShared := False\<rparr>, or_f kBarrierTypeRW b) else (t, b))"

definition accessExclusivePreRaster :: "bool \<Rightarrow> u64 \<Rightarrow> track \<Rightarrow> track" where
  "accessExclusivePreRaster uav eid = (\<lambda>(t, w, b).
     let last_exclusive = exclusive t; t = t\<lparr>exclusive := eid\<rparr>
     in if last_exclusive = eid + 1 then
          let was_pr = lastWriteFromPreRaster t; t = t\<lparr>lastWriteFromPreRaster := True\<rparr>
          in if \<not> isShared t \<and> \<not> isSharedPreRaster t
             then (t, w, if was_pr then or_pr (shl_uav uav) b else or_paf (shl_uav uav) b)
             else case flush_shared or_pr or_paf (t, b) of (t, b) \<Rightarrow> (t, w, b)
        else if last_exclusive = eid then
          let b = (if \<not> isShared t \<and> \<not> isSharedPreRaster t then or_pr (shl_uav uav) b else b)
          in case flush_shared or_pr or_paf (t, b) of (t, b) \<Rightarrow> (t, w, b)
        else
          let w = set_all w (ts_enumerate (shared t) eid);
              w = (if last_exclusive \<noteq> 0 then fs_set w last_exclusive else w)
          in if ts_isLastAccess (shared t) (eid + 1) \<or> ts_isLastAccess (shared t) eid then
               case flush_shared or_pr or_paf (t, b) of (t, b) \<Rightarrow>
                 (t\<lparr>shared := ts_clear (shared t)\<rparr>, w, b)
             else (t\<lparr>shared := ts_clear (shared t), isShared := False, isSharedPreRaster := False\<rparr>, w, b))"

definition accessSharedFragment :: "u64 \<Rightarrow> track \<Rightarrow> track" where
  "accessSharedFragment eid = (\<lambda>(t, w, b).
     if exclusive t = eid then
       if isShared t then (t, w, b)
       else let t = t\<lparr>isShared := True\<rparr>
            in if isSharedPreRaster t then (t, w, b)
               else (t, w, if lastWriteFromPreRaster t then or_fap kBarrierTypeRW b
                           else or_barrier kBarrierTypeRW b)
     else if exclusive t = eid - 1 then
       if isShared t then (t, w, b)
       else let t = t\<lparr>isShared := True\<rparr>
            in if isSharedPreRaster t then (t, w, b) else (t, w, or_fap kBarrierTypeRW b)
     else if ts_isLastAccess (shared t) eid then (t, w, b)
     else let isVertexLastAccess = ts_isLastAccess (shared t) (eid - 1);
              w = set_if_near eid (exclusive t) w;
              t = t\<lparr>shared := snd (ts_add (shared t) eid), isShared := True\<rparr>
          in (if isVertexLastAccess then t else t\<lparr>isSharedPreRaster := False\<rparr>, w, b))"

definition accessExclusiveFragment :: "bool \<Rightarrow> u64 \<Rightarrow> track \<Rightarrow> track" where
  "accessExclusiveFragment uav eid = (\<lambda>(t, w, b).
     let last_exclusive = exclusive t; t = t\<lparr>exclusive := eid\<rparr>
     in if last_exclusive = eid then
          let was_pr = lastWriteFromPreRaster t; t = t\<lparr>lastWriteFromPreRaster := False\<rparr>
          in if \<not> isShared t \<and> \<not> isSharedPreRaster t
             then (t, w, if was_pr then or_fap (shl_uav uav) b else or_barrier (shl_uav uav) b)
             else case flush_shared or_fap or_barrier (t, b) of (t, b) \<Rightarrow> (t, w, b)
        else let t = t\<lparr>lastWriteFromPreRaster := False\<rparr>
        in if last_exclusive = eid - 1 then
          if \<not> isShared t \<and> \<not> isSharedPreRaster t then (t, w, or_fap (shl_uav uav) b)
          else case flush_shared or_fap or_barrier (t, b) of (t, b) \<Rightarrow> (t, w, b)
        else
          let w = set_all w (ts_enumerate (shared t) eid);
              w = (if last_exclusive \<noteq> 0 then fs_set w last_exclusive else w)
          in if ts_isLastAccess (shared t) eid \<or> ts_isLastAccess (shared t) (eid - 1) then
               case flush_shared or_fap or_barrier (t, b) of (t, b) \<Rightarrow>
                 (t\<lparr>shared := ts_clear (shared t)\<rparr>, w, b)
             else (t\<lparr>shared := ts_clear (shared t), isShared := False, isSharedPreRaster := False\<rparr>, w, b))"

section \<open>The ring refines a history\<close>

text \<open>
  \<open>ts_rel t h\<close>: the identifiers added since the last \<open>clear\<close> are \<open>h\<close>, newest first; the
  ring holds the newest 64 of them, followed by a zero while there are fewer.
\<close>

definition ts_rel :: "tracking_set \<Rightarrow> u64 list \<Rightarrow> bool" where
  "ts_rel t h \<longleftrightarrow>
     length (ts_storage t) = 65 \<and> unat (ts_cursor t) < 64 \<and>
     sorted_wrt (>) h \<and> 0 \<notin> set h \<and>
     (\<forall>i < length h. i < 64 \<longrightarrow> ts_storage t ! ((unat (ts_cursor t) + 64 - i) mod 64) = h ! i) \<and>
     (length h < 64 \<longrightarrow> ts_storage t ! ((unat (ts_cursor t) + 64 - length h) mod 64) = 0)"

lemma ts_rel_clear:
  assumes "ts_rel t h"
  shows "ts_rel (ts_clear t) []"
  using assms by (auto simp: ts_rel_def ts_clear_def)

lemma ts_rel_construct: "length junk = 65 \<Longrightarrow> ts_rel (ts_construct junk) []"
  by (simp add: ts_construct_def ts_clear_def ts_rel_def nth_list_update)

lemma ts_rel_last:
  assumes "ts_rel t h" "eid \<noteq> 0"
  shows "ts_isLastAccess t eid \<longleftrightarrow> h \<noteq> [] \<and> hd h = eid"
proof -
  have "ts_storage t ! unat (ts_cursor t) = (if h = [] then 0 else hd h)"
    using assms(1) by (cases h) (fastforce simp: ts_rel_def)+
  then show ?thesis using assms(2) by (auto simp: ts_isLastAccess_def)
qed

lemma unat_cursor_next:
  assumes "unat (c :: u32) < 64"
  shows "unat ((c + 1) mod 64) = (unat c + 1) mod 64"
proof -
  have "unat (c + 1) = unat c + 1"
    using assms unat_add_lem [of c 1] by simp
  then show ?thesis by (simp add: unat_mod)
qed

lemma ring_index:
  assumes "c < (64 :: nat)" "i < 64"
  shows "(c + 64 - i) mod 64 = (if i \<le> c then c - i else c + 64 - i)"
proof (cases "i \<le> c")
  case True
  then have "c + 64 - i = (c - i) + 64" by linarith
  then have "(c + 64 - i) mod 64 = (c - i) mod 64" by (simp only: mod_add_self2)
  also have "\<dots> = c - i" by (rule mod_less) (use assms in linarith)
  finally show ?thesis by (simp only: True if_True)
next
  case False
  then have "c + 64 - i < 64" by linarith
  then have "(c + 64 - i) mod 64 = c + 64 - i" by (rule mod_less)
  then show ?thesis by (simp only: False if_False)
qed

lemma ring_prev:
  assumes "c < (64 :: nat)" "Suc i < 64"
  shows "((c + 1) mod 64 + 64 - Suc i) mod 64 = (c + 64 - i) mod 64"
proof (cases "c = 63")
  case True
  have "(0 + 64 - Suc i) mod 64 = 0 + 64 - Suc i" by (rule mod_less) simp
  moreover have "(63 + 64 - i) mod 64 = 63 - i"
    using ring_index [of 63 i] assms by simp
  ultimately show ?thesis unfolding True by simp
next
  case False
  then have "(c + 1) mod 64 = c + 1" using assms by simp
  moreover have "c + 1 + 64 - Suc i = c + 64 - i" by simp
  ultimately show ?thesis by (simp only:)
qed

lemma ring_prev_neq:
  assumes "c < (64 :: nat)" "0 < i" "i < 64"
  shows "(c + 64 - i) mod 64 \<noteq> c"
  using assms by (simp only: ring_index split: if_split) linarith

lemma ts_rel_add:
  assumes r: "ts_rel t h" and eid: "eid \<noteq> 0" and new: "h = [] \<or> hd h < eid"
  shows "ts_rel (snd (ts_add t eid)) (eid # h)"
proof -
  let ?c = "unat (ts_cursor t)" and ?c' = "unat ((ts_cursor t + 1) mod 64)"
  have c: "?c < 64" and len: "length (ts_storage t) = 65" using r by (auto simp: ts_rel_def)
  have c': "?c' = (?c + 1) mod 64" by (rule unat_cursor_next [OF c])
  have "\<not> ts_isLastAccess t eid" using ts_rel_last [OF r eid] new by auto
  then have t': "snd (ts_add t eid)
      = \<lparr>ts_storage = (ts_storage t)[?c' := eid], ts_cursor = (ts_cursor t + 1) mod 64\<rparr>"
    by (simp add: ts_add_def ts_isLastAccess_def Let_def)
  have prev: "(ts_storage t)[?c' := eid] ! ((?c' + 64 - Suc i) mod 64)
      = ts_storage t ! ((?c + 64 - i) mod 64)" if "Suc i < 64" for i
  proof -
    have "(?c' + 64 - Suc i) mod 64 \<noteq> ?c'"
      using that by (intro ring_prev_neq) (simp_all add: c')
    moreover have "(?c' + 64 - Suc i) mod 64 = (?c + 64 - i) mod 64"
      using ring_prev [OF c, of i] that by (simp add: c')
    ultimately show ?thesis by simp
  qed
  have here: "(ts_storage t)[?c' := eid] ! ((?c' + 64 - 0) mod 64) = eid"
    using len by (simp add: c')
  have sorted: "sorted_wrt (>) (eid # h)" "0 \<notin> set (eid # h)"
    using r new eid by (cases h; auto simp: ts_rel_def)+
  have nths: "(ts_storage t)[?c' := eid] ! ((?c' + 64 - i) mod 64) = (eid # h) ! i"
    if "i < length (eid # h)" "i < 64" for i
  proof (cases i)
    case (Suc j)
    then show ?thesis using prev [of j] that r by (simp add: ts_rel_def)
  qed (use here in simp)
  have zero: "(ts_storage t)[?c' := eid] ! ((?c' + 64 - length (eid # h)) mod 64) = 0"
    if "length (eid # h) < 64"
    using prev [of "length h"] that r by (simp add: ts_rel_def)
  show ?thesis
    unfolding t' ts_rel_def using sorted nths zero len by (simp add: c')
qed

text \<open>Enumeration: from slot \<open>i\<close> on, the loop filters the rest of the history.\<close>

definition in_window :: "u64 \<Rightarrow> u64 \<Rightarrow> bool" where
  "in_window b c \<longleftrightarrow> b - 64 < c \<and> c < b"

lemma filter_all_le:
  assumes "sorted_wrt (>) (c # h)" "\<not> b - 64 < (c :: u64)"
  shows "filter (in_window b) h = []"
  using assms by (fastforce simp: filter_empty_conv in_window_def)

lemma ts_enumerate_loop_filter:
  assumes r: "ts_rel t h" and b: "64 < b"
  shows "i \<le> 64 \<Longrightarrow> i \<le> length h \<Longrightarrow>
    ts_enumerate_loop t b [i..<64] = filter (in_window b) (drop i (take 64 h))"
proof (induction "64 - i" arbitrary: i)
  case (Suc n)
  then have i: "i < 64" by simp
  then have upt: "[i..<64] = i # [Suc i..<64]" by (rule upt_conv_Cons)
  show ?case
  proof (cases "i = length h")
    case True
    then have "ts_storage t ! ((unat (ts_cursor t) + 64 - i) mod 64) = 0"
      using r i by (simp add: ts_rel_def)
    moreover have "\<not> b \<le> 0" "\<not> b - 64 < 0" using b by auto
    ultimately have "ts_enumerate_loop t b [i..<64] = []" unfolding upt by simp
    moreover have "drop i (take 64 h) = []" using True by simp
    ultimately show ?thesis by (simp only: filter.simps)
  next
    case False
    then have il: "i < length h" using Suc.prems by simp
    then have c: "ts_storage t ! ((unat (ts_cursor t) + 64 - i) mod 64) = h ! i"
      using r i by (simp add: ts_rel_def)
    have drop: "drop i (take 64 h) = h ! i # drop (Suc i) (take 64 h)"
      using il i by (metis Cons_nth_drop_Suc length_take min_less_iff_conj nth_take)
    have "sorted_wrt (>) (drop i (take 64 h))"
      using r by (simp add: ts_rel_def sorted_wrt_drop sorted_wrt_take)
    then have s: "sorted_wrt (>) (h ! i # drop (Suc i) (take 64 h))" by (simp only: drop)
    have IH: "ts_enumerate_loop t b [Suc i..<64] = filter (in_window b) (drop (Suc i) (take 64 h))"
      using Suc.hyps(2) il i by (intro Suc.hyps(1)) simp_all
    show ?thesis
      using filter_all_le [OF s, of b] by (auto simp: upt c drop IH in_window_def Let_def)
  qed
qed simp

lemma ts_enumerate_eq:
  assumes "ts_rel t h" "64 < b"
  shows "ts_enumerate t b = filter (in_window b) (take 64 h)"
  unfolding ts_enumerate_def using ts_enumerate_loop_filter [OF assms, of 0] by simp

text \<open>
  The ring of 64 slots is enough as long as at most one tracked identifier is not older than
  the enumerating encoder: the 63 identifiers of the window then fit behind it.
\<close>

lemma strict_desc_distinct: "sorted_wrt (>) (xs :: 'a::linorder list) \<Longrightarrow> distinct xs"
  by (induction xs) auto

lemma take_window:
  assumes s: "sorted_wrt (>) (h :: u64 list)" and b: "64 < b"
    and one: "length (filter (\<lambda>c. b \<le> c) h) \<le> 1"
  shows "filter (in_window b) (take 64 h) = filter (in_window b) h"
proof (cases "length h \<le> 64")
  case False
  have "filter (in_window b) (drop 64 h) = []"
  proof (rule ccontr)
    assume "filter (in_window b) (drop 64 h) \<noteq> []"
    then obtain x where x: "x \<in> set (drop 64 h)" "b - 64 < x" "x < b"
      by (auto simp: filter_empty_conv in_window_def)
    let ?t = "take 64 h"
    have "sorted_wrt (>) (?t @ drop 64 h)" using s by simp
    then have above: "\<And>c. c \<in> set ?t \<Longrightarrow> x < c"
      using x(1) by (fastforce simp only: sorted_wrt_append)
    have dist: "distinct ?t"
      using sorted_wrt_take [OF s, of 64] by (rule strict_desc_distinct)
    have "filter (\<lambda>c. b \<le> c) h = filter (\<lambda>c. b \<le> c) ?t @ filter (\<lambda>c. b \<le> c) (drop 64 h)"
      by (metis append_take_drop_id filter_append)
    then have "length (filter (\<lambda>c. b \<le> c) ?t) \<le> 1" using one by simp
    moreover have "length (filter (\<lambda>c. b \<le> c) ?t) + length (filter (\<lambda>c. \<not> b \<le> c) ?t) = length ?t"
      by (rule sum_length_filter_compl)
    moreover have "length (filter (\<lambda>c. \<not> b \<le> c) ?t) \<le> 62"
    proof -
      have "unat ` set (filter (\<lambda>c. \<not> b \<le> c) ?t) \<subseteq> {unat x<..<unat b}"
        using above by (auto simp: word_less_nat_alt word_le_nat_alt)
      then have "card (unat ` set (filter (\<lambda>c. \<not> b \<le> c) ?t)) \<le> card {unat x<..<unat b}"
        by (intro card_mono) auto
      moreover have "card (unat ` set (filter (\<lambda>c. \<not> b \<le> c) ?t)) = length (filter (\<lambda>c. \<not> b \<le> c) ?t)"
      proof -
        have "distinct (map unat (filter (\<lambda>c. \<not> b \<le> c) ?t))"
          using dist by (simp add: distinct_map inj_on_def word_unat_eq_iff)
        then have "card (set (map unat (filter (\<lambda>c. \<not> b \<le> c) ?t)))
            = length (map unat (filter (\<lambda>c. \<not> b \<le> c) ?t))"
          by (rule distinct_card)
        then show ?thesis by (simp only: list.set_map length_map)
      qed
      moreover have "unat b - 64 < unat x"
        using x(2) b by (simp add: word_less_nat_alt unat_sub word_le_nat_alt)
      ultimately show ?thesis by simp
    qed
    ultimately show False using False by simp
  qed
  then show ?thesis by (metis append.right_neutral append_take_drop_id filter_append)
qed simp

section \<open>Accesses of compute and blit encoders\<close>

text \<open>
  \<open>ArgumentEncodingContext::track<PipelineStage::Compute>\<close> (\<open>dxmt_context.hpp\<close>), and the
  two graphics stages; \<open>write\<close> and \<open>uav\<close> are the bits of \<open>flags\<close>.
\<close>

definition track_compute :: "bool \<Rightarrow> bool \<Rightarrow> u64 \<Rightarrow> track \<Rightarrow> track" where
  "track_compute wr uav eid = (if wr then accessExclusive uav eid else accessShared eid)"

definition track_preraster :: "bool \<Rightarrow> bool \<Rightarrow> u64 \<Rightarrow> track \<Rightarrow> track" where
  "track_preraster wr uav eid = (if wr then accessExclusivePreRaster uav eid else accessSharedPreRaster eid)"

definition track_pixel :: "bool \<Rightarrow> bool \<Rightarrow> u64 \<Rightarrow> track \<Rightarrow> track" where
  "track_pixel wr uav eid = (if wr then accessExclusiveFragment uav eid else accessSharedFragment eid)"

record 'r access =
  acc_res :: 'r
  acc_id :: nat
  acc_write :: bool
  acc_uav :: bool

text \<open>The trackers of all resources, and \<open>fence_wait\<close> and \<open>barrier_state\<close> of each encoder.\<close>

record 'r sys =
  trackers :: "'r \<Rightarrow> tracker"
  fence_wait :: "nat \<Rightarrow> fence_set"
  barriers :: "nat \<Rightarrow> barrier_state"

definition sys_init :: "u64 list \<Rightarrow> 'r sys" where
  "sys_init junk = \<lparr>trackers = (\<lambda>_. tracker_construct junk), fence_wait = (\<lambda>_. fs_empty),
     barriers = (\<lambda>_. no_barrier)\<rparr>"

definition access_step :: "'r sys \<Rightarrow> 'r access \<Rightarrow> 'r sys" where
  "access_step s a =
     (case track_compute (acc_write a) (acc_uav a) (of_nat (acc_id a))
        (trackers s (acc_res a), fence_wait s (acc_id a), barriers s (acc_id a)) of (t, w, b) \<Rightarrow>
      s\<lparr>trackers := (trackers s)(acc_res a := t), fence_wait := (fence_wait s)(acc_id a := w),
        barriers := (barriers s)(acc_id a := b)\<rparr>)"

definition run_accesses :: "u64 list \<Rightarrow> 'r access list \<Rightarrow> 'r sys" where
  "run_accesses junk as = foldl access_step (sys_init junk) as"

text \<open>Encoders are numbered from 256 (\<open>encoder_id_ = kParityLane\<close>) and encoded one by one.\<close>

definition valid_accesses :: "'r access list \<Rightarrow> bool" where
  "valid_accesses as \<longleftrightarrow> sorted (map acc_id as) \<and> (\<forall>a \<in> set as. 256 \<le> acc_id a \<and> acc_id a < 2 ^ 64)"

definition conflict :: "'r access \<Rightarrow> 'r access \<Rightarrow> bool" where
  "conflict a a' \<longleftrightarrow> acc_res a = acc_res a' \<and> (acc_write a \<or> acc_write a')"

section \<open>Every conflict is waited for, or older than the window\<close>

lemma unat_of_nat_u64: "n < 2 ^ 64 \<Longrightarrow> unat (of_nat n :: u64) = n"
  by (simp add: unat_of_nat take_bit_nat_eq_self)

lemma of_nat_u64_eq: "m < 2 ^ 64 \<Longrightarrow> n < 2 ^ 64 \<Longrightarrow> (of_nat m :: u64) = of_nat n \<longleftrightarrow> m = n"
  by (metis unat_of_nat_u64)

lemma of_nat_u64_less: "m < 2 ^ 64 \<Longrightarrow> n < 2 ^ 64 \<Longrightarrow> (of_nat m :: u64) < of_nat n \<longleftrightarrow> m < n"
  by (simp add: word_less_nat_alt unat_of_nat_u64)

lemma near_u64:
  assumes "p \<le> q" "q < 2 ^ 64"
  shows "(of_nat q - of_nat p :: u64) < 64 \<longleftrightarrow> q - p < 64"
proof -
  have "(of_nat q - of_nat p :: u64) = of_nat (q - p)" using assms(1) by simp
  then show ?thesis using of_nat_u64_less [of "q - p" 64] assms by simp
qed

lemma in_window_u64:
  assumes "64 \<le> q" "q < 2 ^ 64" "p < 2 ^ 64"
  shows "in_window (of_nat q) (of_nat p) \<longleftrightarrow> p < q \<and> q - p < 64"
proof -
  have "(of_nat q - 64 :: u64) = of_nat (q - 64)" using assms(1) by simp
  then have "(of_nat q - 64 :: u64) < of_nat p \<longleftrightarrow> q - 64 < p"
    using of_nat_u64_less [of "q - 64" p] assms by simp
  then show ?thesis using of_nat_u64_less [of p q] assms by (auto simp: in_window_def)
qed

definition dep :: "(nat \<Rightarrow> fence_set) \<Rightarrow> nat \<Rightarrow> nat \<Rightarrow> bool" where
  "dep W p q \<longleftrightarrow> p < q \<and> (64 \<le> q - p \<or> p mod 256 \<in> fs_abs (W q))"

lemma dep_mono: "(\<And>e. fs_abs (W e) \<subseteq> fs_abs (W' e)) \<Longrightarrow> dep W p q \<Longrightarrow> dep W' p q"
  by (auto simp: dep_def)

lemma dep_trancl_mono:
  assumes "\<And>e. fs_abs (W e) \<subseteq> fs_abs (W' e)" "(dep W)\<^sup>+\<^sup>+ p q"
  shows "(dep W')\<^sup>+\<^sup>+ p q"
proof -
  have d: "dep W p q \<Longrightarrow> dep W' p q" for p q by (rule dep_mono [OF assms(1)])
  show ?thesis using assms(2) by (induction rule: tranclp_induct) (blast intro: d tranclp.intros)+
qed

definition reached :: "(nat \<Rightarrow> fence_set) \<Rightarrow> nat \<Rightarrow> nat \<Rightarrow> bool" where
  "reached W p q \<longleftrightarrow> p = q \<or> (dep W)\<^sup>+\<^sup>+ p q"

lemma reached_refl [simp]: "reached W p p"
  by (simp add: reached_def)

lemma reached_dep: "reached W p q \<Longrightarrow> dep W q r \<Longrightarrow> reached W p r"
  by (auto simp: reached_def intro: tranclp.intros tranclp_trans)

lemma reached_mono: "(\<And>e. fs_abs (W e) \<subseteq> fs_abs (W' e)) \<Longrightarrow> reached W p q \<Longrightarrow> reached W' p q"
  using dep_trancl_mono unfolding reached_def by blast

text \<open>
  What the tracker of one resource knows after the accesses \<open>as\<close>: \<open>x\<close> is the last exclusive
  access (0 if none), \<open>h\<close> the shared accesses of later encoders.
\<close>

definition tracks ::
  "(nat \<Rightarrow> fence_set) \<Rightarrow> 'r access list \<Rightarrow> 'r \<Rightarrow> tracker \<Rightarrow> nat \<Rightarrow> nat list \<Rightarrow> bool" where
  "tracks W as r t x h \<longleftrightarrow>
     ts_rel (shared t) (map of_nat h) \<and> exclusive t = of_nat x \<and> sorted_wrt (>) h \<and>
     (\<forall>p \<in> insert x (set h). p = 0 \<or> p \<in> acc_id ` set as) \<and>
     (\<forall>p \<in> set h. dep W x p) \<and>
     (\<forall>a \<in> set as. acc_res a = r \<longrightarrow>
        reached W (acc_id a) x \<or> \<not> acc_write a \<and> acc_id a \<in> set h)"


lemma tracksD:
  assumes "tracks W as r t x h"
  shows tracks_rel: "ts_rel (shared t) (map of_nat h)"
    and tracks_exclusive: "exclusive t = of_nat x"
    and tracks_sorted: "sorted_wrt (>) h"
    and tracks_ids: "p \<in> insert x (set h) \<Longrightarrow> p = 0 \<or> p \<in> acc_id ` set as"
    and tracks_dep: "p \<in> set h \<Longrightarrow> dep W x p"
    and tracks_reached: "a \<in> set as \<Longrightarrow> acc_res a = r \<Longrightarrow>
      reached W (acc_id a) x \<or> \<not> acc_write a \<and> acc_id a \<in> set h"
proof -
  have *: "\<forall>p \<in> insert x (set h). p = 0 \<or> p \<in> acc_id ` set as"
    using assms unfolding tracks_def by (elim conjE)
  show "p \<in> insert x (set h) \<Longrightarrow> p = 0 \<or> p \<in> acc_id ` set as" by (rule bspec [OF *])
qed (use assms in \<open>simp_all add: tracks_def\<close>)

lemma tracksI:
  assumes "ts_rel (shared t) (map of_nat h)" "exclusive t = of_nat x" "sorted_wrt (>) h"
    and "\<And>p. p \<in> insert x (set h) \<Longrightarrow> p = 0 \<or> p \<in> acc_id ` set as"
    and "\<And>p. p \<in> set h \<Longrightarrow> dep W x p"
    and "\<And>a. a \<in> set as \<Longrightarrow> acc_res a = r \<Longrightarrow>
      reached W (acc_id a) x \<or> \<not> acc_write a \<and> acc_id a \<in> set h"
  shows "tracks W as r t x h"
  unfolding tracks_def using assms by (intro conjI ballI impI) assumption+

lemma tracks_mono:
  assumes "tracks W as r t x h" "\<And>e. fs_abs (W e) \<subseteq> fs_abs (W' e)"
  shows "tracks W' as r t x h"
proof -
  note tr = tracksD [OF assms(1)]
  have d: "dep W p q \<Longrightarrow> dep W' p q" and r: "reached W p q \<Longrightarrow> reached W' p q" for p q
    by (rule dep_mono [OF assms(2)], assumption) (rule reached_mono [OF assms(2)], assumption)
  show ?thesis
    by (rule tracksI) (use tr(1-4) d [OF tr(5)] tr(6) r in blast)+
qed

lemma tracks_snoc:
  assumes "tracks W as r t x h" "acc_res a = r \<Longrightarrow> reached W (acc_id a) x \<or> \<not> acc_write a \<and> acc_id a \<in> set h"
  shows "tracks W (as @ [a]) r t x h"
proof -
  note tr = tracksD [OF assms(1)]
  have sub: "acc_id ` set as \<subseteq> acc_id ` set (as @ [a])" by (rule image_mono) auto
  have r: "reached W (acc_id a') x \<or> \<not> acc_write a' \<and> acc_id a' \<in> set h"
    if "a' \<in> set (as @ [a])" "acc_res a' = r" for a'
    using that tr(6) [of a'] assms(2) by (cases "a' = a") simp_all
  have i: "p = 0 \<or> p \<in> acc_id ` set (as @ [a])" if "p \<in> insert x (set h)" for p
    using tr(4) [OF that] sub by blast
  show ?thesis by (rule tracksI [OF tr(1-3) i tr(5) r])
qed

lemma tracks_bounds:
  assumes "tracks W as r t x h" "valid_accesses (as @ [a])" "p \<in> insert x (set h)"
  shows "p \<le> acc_id a" "p < 2 ^ 64" "p \<noteq> 0 \<Longrightarrow> 256 \<le> p"
proof -
  have p: "p = 0 \<or> p \<in> acc_id ` set as" by (rule tracks_ids [OF assms(1,3)])
  have v: "\<And>a'. a' \<in> set as \<Longrightarrow> acc_id a' \<le> acc_id a \<and> acc_id a' < 2 ^ 64 \<and> 256 \<le> acc_id a'"
    using assms(2) by (auto simp: valid_accesses_def sorted_append)
  show "p \<le> acc_id a" "p < 2 ^ 64" "p \<noteq> 0 \<Longrightarrow> 256 \<le> p" using p v by fastforce+
qed

lemma fs_abs_set_all [simp]: "fs_abs (set_all w ids) = fs_abs w \<union> pos ` set ids"
  by (induction ids arbitrary: w) (auto simp: set_all_def)

text \<open>One access: the tracker's knowledge, the conflicts it resolves, and what it adds.\<close>

definition resolves ::
  "(nat \<Rightarrow> fence_set) \<Rightarrow> 'r access list \<Rightarrow> 'r access \<Rightarrow> tracker \<Rightarrow> fence_set \<Rightarrow> bool" where
  "resolves W as a t' w' \<longleftrightarrow>
     fs_abs (W (acc_id a)) \<subseteq> fs_abs w' \<and>
     fs_abs w' \<subseteq> fs_abs (W (acc_id a)) \<union> (\<lambda>d. (acc_id a - d) mod 256) ` {1..<64} \<and>
     (\<exists>x h. tracks (W(acc_id a := w')) (as @ [a]) (acc_res a) t' x h) \<and>
     (\<forall>a' \<in> set as. conflict a' a \<longrightarrow> reached (W(acc_id a := w')) (acc_id a') (acc_id a))"

lemma resolves_same:
  assumes tr: "tracks W as (acc_res a) t x h"
    and t': "shared t' = shared t" "exclusive t' = exclusive t"
    and r: "reached W (acc_id a) x \<or> \<not> acc_write a \<and> acc_id a \<in> set h"
    and c: "\<And>a'. a' \<in> set as \<Longrightarrow> conflict a' a \<Longrightarrow> reached W (acc_id a') (acc_id a)"
  shows "resolves W as a t' (W (acc_id a))"
proof -
  have "tracks W as (acc_res a) t' x h" using tr t' unfolding tracks_def by simp
  then have "tracks W (as @ [a]) (acc_res a) t' x h" using r by (rule tracks_snoc)
  then show ?thesis using c unfolding resolves_def by auto
qed

lemma mem_recent: "(p :: nat) < q \<Longrightarrow> q - p < 64 \<Longrightarrow> p mod 256 \<in> (\<lambda>d. (q - d) mod 256) ` {1..<64}"
  by (rule image_eqI [of _ _ "q - p"]) auto

lemma fs_abs_set_if_near:
  assumes "x < q" "q < 2 ^ 64"
  shows "fs_abs (set_if_near (of_nat q) (of_nat x) w)
    = (if q - x < 64 then insert (x mod 256) (fs_abs w) else fs_abs w)"
  using near_u64 [of x q] assms by (simp add: set_if_near_def)

lemma accessShared_resolves:
  assumes tr: "tracks W as (acc_res a) t x h" and v: "valid_accesses (as @ [a])"
    and wr: "\<not> acc_write a"
    and st: "accessShared (of_nat (acc_id a)) (t, W (acc_id a), b) = (t', w', b')"
  shows "resolves W as a t' w'"
proof -
  let ?q = "acc_id a"
  note bd = tracks_bounds [OF tr v]
  have q: "256 \<le> ?q" "?q < 2 ^ 64" using v by (auto simp: valid_accesses_def)
  have ex: "exclusive t = of_nat x" and rel: "ts_rel (shared t) (map of_nat h)"
    and srt: "sorted_wrt (>) h" and hx: "\<And>p. p \<in> set h \<Longrightarrow> dep W x p"
    using tracksD [OF tr] by simp_all
  have writes: "reached W (acc_id a') x" if "a' \<in> set as" "conflict a' a" for a'
    using tracks_reached [OF tr that(1)] that(2) wr by (simp add: conflict_def)
  have xq: "of_nat x = (of_nat ?q :: u64) \<longleftrightarrow> x = ?q" using bd [of x] q by (simp add: of_nat_u64_eq)
  have q0: "(of_nat ?q :: u64) \<noteq> 0" using of_nat_u64_eq [of ?q 0] q by simp
  have hdq: "h \<noteq> [] \<Longrightarrow> of_nat (hd h) = (of_nat ?q :: u64) \<longleftrightarrow> hd h = ?q"
    using bd [of "hd h"] q by (simp add: of_nat_u64_eq)
  show ?thesis
  proof (cases "x = ?q")
    case True
    then have w': "w' = W ?q" and t': "shared t' = shared t" "exclusive t' = exclusive t"
      using st ex by (auto simp: accessShared_def split: if_splits)
    show ?thesis unfolding w'
      by (rule resolves_same [OF tr t']) (use writes True in auto)
  next
    case False
    then have x: "x < ?q" using bd [of x] by simp
    have nx: "exclusive t \<noteq> of_nat ?q" using ex xq False by simp
    show ?thesis
    proof (cases "h \<noteq> [] \<and> hd h = ?q")
      case True
      then have "ts_isLastAccess (shared t) (of_nat ?q)"
        using ts_rel_last [OF rel q0] hdq by (simp add: hd_map)
      then have w': "w' = W ?q" and t': "t' = t" using st nx by (auto simp: accessShared_def)
      have mem: "?q \<in> set h" using True hd_in_set by force
      show ?thesis unfolding w' t'
        by (rule resolves_same [OF tr]) (use writes hx [OF mem] mem wr in \<open>auto intro: reached_dep\<close>)
    next
      case no: False
      then have "\<not> ts_isLastAccess (shared t) (of_nat ?q)"
        using ts_rel_last [OF rel q0] hdq by (auto simp: hd_map)
      then have w': "w' = set_if_near (of_nat ?q) (of_nat x) (W ?q)"
        and t': "t' = t\<lparr>shared := snd (ts_add (shared t) (of_nat ?q))\<rparr>"
        using st nx ex by (auto simp: accessShared_def)
      let ?W = "W(?q := w')"
      have hd: "hd h < ?q" if "h \<noteq> []" using no that bd(1) [of "hd h"] by fastforce
      have new: "map of_nat h = [] \<or> hd (map of_nat h) < (of_nat ?q :: u64)"
      proof (cases "h = []")
        case False
        then show ?thesis
          using hd bd(2) [of "hd h"] q by (simp add: hd_map of_nat_u64_less)
      qed simp
      have absw: "fs_abs w' = (if ?q - x < 64 then insert (x mod 256) (fs_abs (W ?q)) else fs_abs (W ?q))"
        unfolding w' by (rule fs_abs_set_if_near [OF x q(2)])
      then have sub: "fs_abs (W e) \<subseteq> fs_abs (?W e)" for e by auto
      have dxq: "dep ?W x ?q" using x absw by (auto simp: dep_def)
      have rel': "ts_rel (shared t') (map of_nat (?q # h))"
        using ts_rel_add [OF rel q0 new] by (simp add: t')
      have srt': "sorted_wrt (>) (?q # h)"
        using srt hd by (cases h) (auto intro: order.strict_trans)
      have "tracks ?W as (acc_res a) t x h" by (rule tracks_mono [OF tr sub])
      then have "tracks ?W (as @ [a]) (acc_res a) t' x (?q # h)"
        unfolding t'
      proof (intro tracksI)
        fix a' assume "a' \<in> set (as @ [a])" "acc_res a' = acc_res a"
        then show "reached ?W (acc_id a') x \<or> \<not> acc_write a' \<and> acc_id a' \<in> set (?q # h)"
          using tracks_reached [OF \<open>tracks ?W as (acc_res a) t x h\<close>, of a'] wr by auto
      next
        fix p assume "p \<in> set (?q # h)"
        then show "dep ?W x p" using dxq tracks_dep [OF \<open>tracks ?W as (acc_res a) t x h\<close>, of p] by auto
      next
        fix p assume "p \<in> insert x (set (?q # h))"
        then show "p = 0 \<or> p \<in> acc_id ` set (as @ [a])" using tracks_ids [OF tr, of p] by auto
      qed (use rel' srt' ex in \<open>simp_all add: t'\<close>)
      moreover have "reached ?W (acc_id a') ?q" if "a' \<in> set as" "conflict a' a" for a'
        using reached_mono [OF sub writes [OF that]] dxq by (rule reached_dep)
      moreover have "fs_abs w' \<subseteq> fs_abs (W ?q) \<union> (\<lambda>d. (?q - d) mod 256) ` {1..<64}"
        using absw mem_recent [OF x] by auto
      ultimately show ?thesis unfolding resolves_def using sub [of ?q] by auto
    qed
  qed
qed


lemma accessExclusive_resolves:
  assumes tr: "tracks W as (acc_res a) t x h" and v: "valid_accesses (as @ [a])"
    and st: "accessExclusive uav (of_nat (acc_id a)) (t, W (acc_id a), b) = (t', w', b')"
  shows "resolves W as a t' w'"
proof -
  let ?q = "acc_id a"
  note bd = tracks_bounds [OF tr v]
  have q: "256 \<le> ?q" "?q < 2 ^ 64" using v by (auto simp: valid_accesses_def)
  note ex = tracks_exclusive [OF tr] and rel = tracks_rel [OF tr] and srt = tracks_sorted [OF tr]
  have reach: "reached W (acc_id a') x \<or> acc_id a' \<in> set h" if "a' \<in> set as" "conflict a' a" for a'
    using tracks_reached [OF tr that(1)] that(2) by (auto simp: conflict_def)
  have xq: "of_nat x = (of_nat ?q :: u64) \<longleftrightarrow> x = ?q" using bd [of x] q by (simp add: of_nat_u64_eq)
  show ?thesis
  proof (cases "x = ?q")
    case True
    then have w': "w' = W ?q" and t': "shared t' = shared t" "exclusive t' = exclusive t"
      using st ex by (auto simp: accessExclusive_def Let_def split: if_splits)
    have "p \<notin> set h" for p
      using tracks_dep [OF tr, of p] bd(1) [of p] True by (auto simp: dep_def)
    then show ?thesis unfolding w'
      by (intro resolves_same [OF tr t']) (use reach True in auto)
  next
    case False
    then have x: "x < ?q" using bd [of x] by simp
    let ?e = "ts_enumerate (shared t) (of_nat ?q)"
    have w': "w' = set_if_near (of_nat ?q) (of_nat x) (set_all (W ?q) ?e)"
      and t': "shared t' = ts_clear (shared t)" "exclusive t' = of_nat ?q"
      using st ex xq False by (auto simp: accessExclusive_def Let_def split: if_splits)
    have b64: "64 < (of_nat ?q :: u64)" using of_nat_u64_less [of 64 ?q] q by simp
    have "length (filter (\<lambda>c. of_nat ?q \<le> c) (map of_nat h :: u64 list)) \<le> 1"
    proof -
      have "filter (\<lambda>c. of_nat ?q \<le> c) (map of_nat h :: u64 list) = map of_nat (filter (\<lambda>p. p = ?q) h)"
        unfolding filter_map using bd q
        by (intro arg_cong [of _ _ "map of_nat"] filter_cong)
          (auto simp: not_less [symmetric] of_nat_u64_less le_antisym)
      moreover have "length (filter (\<lambda>p. p = ?q) h) \<le> 1"
        using strict_desc_distinct [OF srt] by (induction h) (auto simp: filter_empty_conv)
      ultimately show ?thesis by simp
    qed
    moreover have "sorted_wrt (>) (map of_nat h :: u64 list)" using rel by (simp add: ts_rel_def)
    ultimately have enum: "?e = filter (in_window (of_nat ?q)) (map of_nat h)"
      unfolding ts_enumerate_eq [OF rel b64] by (intro take_window b64)
    have win: "in_window (of_nat ?q) (of_nat p) \<longleftrightarrow> p < ?q \<and> ?q - p < 64" if "p \<in> set h" for p
      using in_window_u64 [of ?q p] q bd(2) [of p] that by simp
    have "set ?e = of_nat ` {p \<in> set h. p < ?q \<and> ?q - p < 64}" unfolding enum using win by auto
    then have pe: "pos ` set ?e = {p mod 256 | p. p \<in> set h \<and> p < ?q \<and> ?q - p < 64}" by force
    have absw: "fs_abs w' = (if ?q - x < 64 then {x mod 256} else {}) \<union> (fs_abs (W ?q) \<union> pos ` set ?e)"
      unfolding w' using fs_abs_set_if_near [OF x q(2)] by simp
    let ?W = "W(?q := w')"
    have sub: "fs_abs (W e) \<subseteq> fs_abs (?W e)" for e using absw by simp blast
    have dx: "dep ?W x ?q" using x absw by (auto simp: dep_def)
    have dh: "reached ?W p ?q" if "p \<in> set h" for p
    proof (cases "p = ?q")
      case False
      then have "p < ?q" using bd(1) [of p] that by simp
      then have "dep ?W p ?q" using that absw pe by (auto simp: dep_def)
      then show ?thesis using reached_dep reached_refl by blast
    qed simp
    have all: "reached ?W (acc_id a') ?q" if "a' \<in> set as" "acc_res a' = acc_res a" for a'
      using tracks_reached [OF tr that] reached_mono [where W = W and W' = ?W, OF sub, of "acc_id a'" x]
        reached_dep [OF _ dx, of "acc_id a'"] dh [of "acc_id a'"] by blast
    have "tracks ?W (as @ [a]) (acc_res a) t' ?q []"
      by (rule tracksI) (use ts_rel_clear [OF rel] t' all in auto)
    moreover have "fs_abs w' \<subseteq> fs_abs (W ?q) \<union> (\<lambda>d. (?q - d) mod 256) ` {1..<64}"
      unfolding absw pe using mem_recent [of _ ?q] x by auto
    moreover have "fs_abs (W ?q) \<subseteq> fs_abs w'" using absw by blast
    ultimately show ?thesis
      unfolding resolves_def using all by (auto simp: conflict_def)
  qed
qed

section \<open>Runs\<close>

lemma run_accesses_snoc: "run_accesses junk (as @ [a]) = access_step (run_accesses junk as) a"
  by (simp add: run_accesses_def)

definition sys_ok :: "'r access list \<Rightarrow> 'r sys \<Rightarrow> bool" where
  "sys_ok as s \<longleftrightarrow>
     (\<forall>r. \<exists>x h. tracks (fence_wait s) as r (trackers s r) x h) \<and>
     (\<forall>e. fs_abs (fence_wait s e) \<subseteq> (\<lambda>d. (e - d) mod 256) ` {1..<64}) \<and>
     sorted_wrt (\<lambda>a a'. conflict a a' \<longrightarrow> reached (fence_wait s) (acc_id a) (acc_id a')) as"

lemma access_step_resolves:
  assumes tr: "tracks (fence_wait s) as (acc_res a) (trackers s (acc_res a)) x h"
    and v: "valid_accesses (as @ [a])"
  shows "resolves (fence_wait s) as a (trackers (access_step s a) (acc_res a))
           (fence_wait (access_step s a) (acc_id a))"
    "fence_wait (access_step s a) = (fence_wait s)(acc_id a := fence_wait (access_step s a) (acc_id a))"
    "r \<noteq> acc_res a \<Longrightarrow> trackers (access_step s a) r = trackers s r"
proof -
  obtain t w b where st: "track_compute (acc_write a) (acc_uav a) (of_nat (acc_id a))
      (trackers s (acc_res a), fence_wait s (acc_id a), barriers s (acc_id a)) = (t, w, b)"
    by (metis prod_cases3)
  have "resolves (fence_wait s) as a t w"
    using st accessExclusive_resolves [OF tr v] accessShared_resolves [OF tr v]
    by (auto simp: track_compute_def split: if_splits)
  then show "resolves (fence_wait s) as a (trackers (access_step s a) (acc_res a))
      (fence_wait (access_step s a) (acc_id a))"
    by (simp add: access_step_def st)
qed (simp_all add: access_step_def split: prod.split)

lemma run_accesses_ok:
  assumes "length junk = 65" "valid_accesses as"
  shows "sys_ok as (run_accesses junk as)"
  using assms(2)
proof (induction as rule: rev_induct)
  case Nil
  have "tracks (\<lambda>_. fs_empty) [] r (tracker_construct junk) 0 []" for r :: 'a
    by (rule tracksI) (use ts_rel_construct [OF assms(1)] in \<open>auto simp: tracker_construct_def\<close>)
  then show ?case by (auto simp: sys_ok_def run_accesses_def sys_init_def)
next
  case (snoc a as)
  let ?s = "run_accesses junk as" and ?s' = "run_accesses junk (as @ [a])"
  let ?W = "fence_wait ?s" and ?W' = "fence_wait ?s'"
  have ok: "sys_ok as ?s" using snoc by (auto simp: valid_accesses_def sorted_append)
  then obtain x h where tr: "tracks ?W as (acc_res a) (trackers ?s (acc_res a)) x h"
    unfolding sys_ok_def by blast
  note st = access_step_resolves [OF tr snoc.prems, folded run_accesses_snoc]
  note rs = st(1) [unfolded resolves_def, folded st(2)]
  have sub: "fs_abs (?W e) \<subseteq> fs_abs (?W' e)" for e using rs by (subst st(2)) auto
  have "\<exists>x h. tracks ?W' (as @ [a]) r (trackers ?s' r) x h" for r
  proof (cases "r = acc_res a")
    case False
    obtain x h where "tracks ?W as r (trackers ?s r) x h" using ok unfolding sys_ok_def by blast
    then have "tracks ?W' as r (trackers ?s' r) x h" using st(3) [OF False] by (simp add: tracks_mono [OF _ sub])
    then have "tracks ?W' (as @ [a]) r (trackers ?s' r) x h" by (rule tracks_snoc) (use False in simp)
    then show ?thesis by blast
  qed (use rs in blast)
  moreover have "fs_abs (?W' e) \<subseteq> (\<lambda>d. (e - d) mod 256) ` {1..<64}" for e
  proof (cases "e = acc_id a")
    case True
    have "fs_abs (?W e) \<subseteq> (\<lambda>d. (e - d) mod 256) ` {1..<64}" using ok unfolding sys_ok_def by blast
    then show ?thesis using rs True by blast
  next
    case False
    then have "?W' e = ?W e" by (subst st(2)) simp
    then show ?thesis using ok unfolding sys_ok_def by simp
  qed
  moreover have "sorted_wrt (\<lambda>a a'. conflict a a' \<longrightarrow> reached ?W' (acc_id a) (acc_id a')) (as @ [a])"
  proof -
    have "sorted_wrt (\<lambda>a a'. conflict a a' \<longrightarrow> reached ?W (acc_id a) (acc_id a')) as"
      using ok unfolding sys_ok_def by blast
    then have "sorted_wrt (\<lambda>a a'. conflict a a' \<longrightarrow> reached ?W' (acc_id a) (acc_id a')) as"
      by (rule sorted_wrt_mono_rel [rotated]) (use reached_mono [where W = ?W and W' = ?W', OF sub] in blast)
    then show ?thesis using rs by (simp add: sorted_wrt_append)
  qed
  ultimately show ?case unfolding sys_ok_def by blast
qed

section \<open>The tracking set as a whole\<close>

definition ts_adds :: "tracking_set \<Rightarrow> u64 list \<Rightarrow> tracking_set" where
  "ts_adds t ids = foldl (\<lambda>t eid. snd (ts_add t eid)) t ids"

lemma ts_rel_adds:
  assumes "ts_rel t []" "sorted_wrt (<) ids" "0 \<notin> set ids"
  shows "ts_rel (ts_adds t ids) (rev ids)"
  using assms(2,3)
proof (induction ids rule: rev_induct)
  case Nil
  then show ?case using assms(1) by (simp add: ts_adds_def)
next
  case (snoc eid ids)
  have "rev ids = [] \<or> hd (rev ids) < eid"
    using snoc.prems(1) by (cases "ids = []") (auto simp: sorted_wrt_append hd_rev)
  then show ?case
    using snoc ts_rel_add [of "ts_adds t ids" "rev ids" eid] by (simp add: ts_adds_def sorted_wrt_append)
qed



text \<open>
  With two newer identifiers (a render pass that read the resource in both of its
  halves, enumerating for the older half) the ring is one slot too small: the oldest
  encoder of the window is not reported.
\<close>

theorem enumerate_forward_misses:
  assumes "length junk = 65" "256 \<le> b" "b + 2 < 2 ^ 64"
  shows "let ids = map of_nat [b - 63..<b + 2] in
    of_nat (b - 63) \<in> set ids \<and> in_window (of_nat b) (of_nat (b - 63)) \<and>
    of_nat (b - 63) \<notin> set (ts_enumerate (ts_adds (ts_construct junk) ids) (of_nat b))"
proof -
  let ?ids = "map of_nat [b - 63..<b + 2] :: u64 list"
  have srt: "sorted_wrt (<) ?ids"
    unfolding sorted_wrt_map
  proof (rule sorted_wrt_mono_rel [OF _ sorted_wrt_upt])
    fix m n assume "m \<in> set [b - 63..<b + 2]" "n \<in> set [b - 63..<b + 2]" "m < n"
    moreover from this have "m < 2 ^ 64" "n < 2 ^ 64" using assms(3) by auto
    ultimately show "(of_nat m :: u64) < of_nat n" using of_nat_u64_less by blast
  qed
  have "0 \<notin> set ?ids"
  proof
    assume "0 \<in> set ?ids"
    then have "(0 :: u64) \<in> of_nat ` {b - 63..<b + 2}" by (simp only: image_set [symmetric] set_upt)
    then obtain n where "n \<in> {b - 63..<b + 2}" "(0 :: u64) = of_nat n" by blast
    then show False using of_nat_u64_eq [of 0 n] assms(2,3) by simp
  qed
  then have rel: "ts_rel (ts_adds (ts_construct junk) ?ids) (rev ?ids)"
    by (rule ts_rel_adds [OF ts_rel_construct [OF assms(1)] srt])
  have b64: "64 < (of_nat b :: u64)" using of_nat_u64_less [of 64 b] assms by simp
  have "take 64 (rev ?ids) = rev (map of_nat [b - 62..<b + 2])"
  proof -
    have "[b - 63..<b + 2] = (b - 63) # [b - 62..<b + 2]"
      using upt_conv_Cons [of "b - 63" "b + 2"] assms(2)
    proof -
      have "Suc (b - 63) = b - 62" "b - 63 < b + 2" using assms(2) by linarith+
      then show ?thesis using upt_conv_Cons [of "b - 63" "b + 2"] by (simp only:)
    qed
    moreover have "length (rev (map of_nat [b - 62..<b + 2]) :: u64 list) = 64"
      using assms(2) by (simp del: upt_Suc)
    ultimately show ?thesis by (simp del: upt_Suc)
  qed
  then have "set (take 64 (rev ?ids)) = of_nat ` {b - 62..<b + 2}"
    by (simp only: set_rev image_set [symmetric] set_upt)
  moreover have "of_nat (b - 63) \<notin> (of_nat ` {b - 62..<b + 2} :: u64 set)"
  proof
    assume "of_nat (b - 63) \<in> (of_nat ` {b - 62..<b + 2} :: u64 set)"
    then obtain n where "n \<in> {b - 62..<b + 2}" "(of_nat (b - 63) :: u64) = of_nat n" by blast
    then have "b - 63 = n" "b - 62 \<le> n" using of_nat_u64_eq [of "b - 63" n] assms(2,3) by simp_all
    then show False using assms(2) by linarith
  qed
  ultimately have "of_nat (b - 63) \<notin> set (ts_enumerate (ts_adds (ts_construct junk) ?ids) (of_nat b))"
    unfolding ts_enumerate_eq [OF rel b64] by auto
  moreover have "in_window (of_nat b) (of_nat (b - 63))"
    using in_window_u64 [of b "b - 63"] assms by simp
  moreover have "b - 63 \<in> {b - 63..<b + 2}" by simp
  then have "of_nat (b - 63) \<in> set ?ids" by (metis image_set imageI set_upt)
  ultimately show ?thesis unfolding Let_def by (intro conjI)
qed

theorem enumerate_forward_misses_witness:
  "of_nat (320 - 63) \<notin> set (ts_enumerate (ts_adds (ts_construct (replicate 65 0))
     (map of_nat [320 - 63..<320 + 2])) (of_nat 320))"
  using enumerate_forward_misses [of "replicate 65 0" 320] unfolding Let_def by simp

end
