(* ===== verification/Hazards.thy ===== *)
theory Hazards
  imports AccessTracker
begin

text \<open>
  The access trackers and the fence locality check together: what the encoders of a command
  stream really wait for.  The first theorem is the contract of the whole mechanism for
  compute and blit encoders; the other two are concrete streams with graphics accesses for
  which the contract fails.
\<close>

section \<open>Waits of a stream\<close>

lemma full_strong:
  assumes "p < q" "q - p < 256" "p mod 256 \<in> fs_abs (strong q)"
  shows "q - p \<in> offs q (full_of strong implicit q)"
  using assms by (auto simp: offs_def full_of_def full_fences_def add_implicit_def Let_def)

lemma dep_ordered:
  assumes rec: "\<And>e. recent e (W e)" and p: "256 \<le> p" and d: "dep W p q"
  shows "ordered_before W implicit 256 p q"
proof (cases "64 \<le> q - p")
  case True
  then show ?thesis using d p by (intro generation_ordered_aux rec) (auto simp: dep_def)
next
  case False
  then have "q - p \<in> offs q (full_of W implicit q)"
    using d by (intro full_strong) (auto simp: dep_def)
  then have "ordered_before W implicit 256 (q - (q - p)) q"
    using p d by (intro full_ordered) (auto simp: dep_def)
  then show ?thesis using d by (simp add: dep_def)
qed

lemma trancl_dep_ordered:
  assumes rec: "\<And>e. recent e (W e)" and d: "(dep W)\<^sup>+\<^sup>+ p q" and p: "256 \<le> p"
  shows "ordered_before W implicit 256 p q \<and> p < q"
  using d
proof (induction rule: tranclp_induct)
  case (base q)
  then show ?case using dep_ordered [OF rec p] by (auto simp: dep_def)
next
  case (step q r)
  then have "256 \<le> q" "q < r" using p by (auto simp: dep_def)
  then show ?case using step dep_ordered [OF rec, of q r] by (auto intro: ordered_before.trans)
qed

text \<open>
  C6.  For every stream of compute and blit accesses to any number of resources, two accesses
  of the same resource by different encoders, at least one of them a write, are ordered by
  the waits that remain after \<open>collectAndSimplifyWaits\<close>, whatever the uninitialised
  storage of the trackers held.
\<close>

theorem hazards_ordered:
  assumes "length junk = 65" "valid_accesses as" "i < j" "j < length as"
    and "conflict (as ! i) (as ! j)" "acc_id (as ! i) \<noteq> acc_id (as ! j)"
  shows "ordered_before (fence_wait (run_accesses junk as)) implicit 256
           (acc_id (as ! i)) (acc_id (as ! j))"
proof -
  let ?W = "fence_wait (run_accesses junk as)"
  have ok: "sys_ok as (run_accesses junk as)" by (rule run_accesses_ok [OF assms(1,2)])
  then have "reached ?W (acc_id (as ! i)) (acc_id (as ! j))"
    using assms(3-5) unfolding sys_ok_def by (auto simp: sorted_wrt_iff_nth_less)
  then have d: "(dep ?W)\<^sup>+\<^sup>+ (acc_id (as ! i)) (acc_id (as ! j))"
    using assms(6) by (simp add: reached_def)
  have rec: "recent e (?W e)" for e using ok by (simp add: sys_ok_def recent_def)
  have "256 \<le> acc_id (as ! i)" using assms(2-4) by (auto simp: valid_accesses_def)
  then show ?thesis using trancl_dep_ordered [OF rec d] by simp
qed

definition sample_stream :: "bool access list" where
  "sample_stream =
     [\<lparr>acc_res = True, acc_id = 256, acc_write = True, acc_uav = False\<rparr>,
      \<lparr>acc_res = False, acc_id = 257, acc_write = True, acc_uav = True\<rparr>,
      \<lparr>acc_res = True, acc_id = 400, acc_write = False, acc_uav = False\<rparr>]"

theorem hazards_ordered_witness:
  "ordered_before (fence_wait (run_accesses (replicate 65 7) sample_stream)) (\<lambda>_. False) 256 256 400"
  using hazards_ordered [of "replicate 65 7" sample_stream 0 2 "\<lambda>_. False"]
  by (simp add: sample_stream_def valid_accesses_def conflict_def)

section \<open>Two streams with graphics accesses\<close>

lemma ordered_before_less: "ordered_before strong implicit base p q \<Longrightarrow> p < q"
  by (induction rule: ordered_before.induct) (auto simp: waits_on_def)

lemma waits_on_full:
  assumes "256 \<le> e" "p \<in> waits_on strong implicit base e"
  shows "e - p \<in> offs e (full_of strong implicit e) \<or> implicit e \<and> Suc p = e"
proof -
  let ?min = "simplify_loop (run_summary strong implicit base (e - base)) (of_nat e)
              (full_of strong implicit e) [1..<kParityLane] (fs_empty, fs_empty)"
  have "fs_abs (minimal_of strong implicit base e) \<subseteq> fs_abs ?min"
    by (auto simp: minimal_of_def collectAndSimplifyWaits_def Let_def full_of_def)
  then have "e - p \<in> offs e ?min \<or> implicit e \<and> Suc p = e"
    using assms(2) by (auto simp: waits_on_def offs_def)
  moreover have "offs e ?min \<subseteq> offs e (full_of strong implicit e)"
    using collect_reduced [OF assms(1)] unfolding reduced_def by blast
  ultimately show ?thesis by blast
qed

lemma fs_abs_full_not_implicit:
  "fs_abs (full_of strong implicit e) =
     fs_abs (strong e) \<union> {p \<in> fs_abs (WEAK_FENCE_MASK (of_nat e)). \<not> bit (fs_laneMask (strong e)) (p mod 64)}"
  if "\<not> implicit e"
  using that by (auto simp: full_of_def full_fences_def add_implicit_def Let_def)

lemma fresh_enumerate: "length junk = 65 \<Longrightarrow> 64 < b \<Longrightarrow> ts_enumerate (ts_construct junk) b = []"
  using ts_enumerate_eq [OF ts_rel_construct] by simp

lemma fresh_last: "length junk = 65 \<Longrightarrow> b \<noteq> 0 \<Longrightarrow> \<not> ts_isLastAccess (ts_construct junk) b"
  using ts_rel_last [OF ts_rel_construct] by simp

text \<open>
  A render pass (vertex encoder 256, fragment encoder 257) writes a resource in a vertex
  shader and reads it in a fragment shader; the compute encoder 258 then overwrites it.
\<close>

definition vertex_write_fragment_read :: "u64 list \<Rightarrow> nat \<Rightarrow> fence_set" where
  "vertex_write_fragment_read junk =
     (let (t, wv, b) = track_preraster True False 256 (tracker_construct junk, fs_empty, no_barrier);
          (t, wf, b) = track_pixel False False 257 (t, fs_empty, b);
          (t, wc, b) = track_compute True False 258 (t, fs_empty, no_barrier)
      in (\<lambda>_. fs_empty)(256 := wv, 257 := wf, 258 := wc))"

lemma vertex_write_fragment_read_eq:
  assumes "length junk = 65"
  shows "vertex_write_fragment_read junk = (\<lambda>_. fs_empty)(258 := fs_set fs_empty 256)"
proof -
  let ?t = "\<lparr>shared = ts_clear (ts_construct junk), exclusive = 256, isShared = False,
     isSharedPreRaster = False, lastWriteFromPreRaster = False\<rparr>"
  have rel: "ts_rel (ts_clear (ts_construct junk)) []" by (rule ts_rel_clear [OF ts_rel_construct [OF assms]])
  have 1: "track_preraster True False 256 (tracker_construct junk, fs_empty, no_barrier)
      = (?t, fs_empty, no_barrier)"
    using fresh_enumerate [OF assms, of 256] fresh_last [OF assms, of 256] fresh_last [OF assms, of 257]
    by (simp add: track_preraster_def accessExclusivePreRaster_def tracker_construct_def set_all_def Let_def)
  have 2: "track_pixel False False 257 (?t, fs_empty, no_barrier)
      = (?t\<lparr>isShared := True\<rparr>, fs_empty, or_fap kBarrierTypeRW no_barrier)"
    by (simp add: track_pixel_def accessSharedFragment_def Let_def)
  have "ts_enumerate (ts_clear (ts_construct junk)) 258 = []" using ts_enumerate_eq [OF rel] by simp
  then have 3: "fst (snd (track_compute True False 258 (?t\<lparr>isShared := True\<rparr>, fs_empty, no_barrier)))
      = fs_set fs_empty 256"
    by (simp add: track_compute_def accessExclusive_def set_all_def set_if_near_def Let_def)
  show ?thesis
    unfolding vertex_write_fragment_read_def 1 2 Let_def case_prod_conv
    using 3 by (auto simp: fun_eq_iff split: prod.split)
qed



text \<open>
  A resource is written by the vertex encoders 256 and 484; another one is written by the
  compute encoder 384 and read by the vertex encoder 484.
\<close>

definition stale_exclusive :: "u64 list \<Rightarrow> nat \<Rightarrow> fence_set" where
  "stale_exclusive junk =
     (let (ta, w1, b) = track_preraster True False 256 (tracker_construct junk, fs_empty, no_barrier);
          (tb, w2, b) = track_compute True False 384 (tracker_construct junk, fs_empty, no_barrier);
          (ta, w3, b) = track_preraster True False 484 (ta, fs_empty, no_barrier);
          (tb, w3, b) = track_preraster False False 484 (tb, w3, b)
      in (\<lambda>_. fs_empty)(256 := w1, 384 := w2, 484 := w3))"

lemma stale_exclusive_eq:
  assumes "length junk = 65"
  shows "stale_exclusive junk = (\<lambda>_. fs_empty)(484 := fs_set fs_empty 256)"
proof -
  let ?c = "ts_clear (ts_construct junk)"
  let ?t = "\<lambda>x. \<lparr>shared = ?c, exclusive = x, isShared = False,
     isSharedPreRaster = False, lastWriteFromPreRaster = False\<rparr>"
  have rel: "ts_rel ?c []" by (rule ts_rel_clear [OF ts_rel_construct [OF assms]])
  have e: "ts_enumerate ?c b = []" if "64 < b" for b using ts_enumerate_eq [OF rel that] by simp
  have l: "\<not> ts_isLastAccess ?c b" if "b \<noteq> 0" for b using ts_rel_last [OF rel that] by simp
  note fresh = fresh_enumerate [OF assms] fresh_last [OF assms]
  have 1: "track_preraster True False 256 (tracker_construct junk, fs_empty, no_barrier)
      = (?t 256, fs_empty, no_barrier)"
    by (simp add: track_preraster_def accessExclusivePreRaster_def tracker_construct_def set_all_def Let_def fresh)
  have 2: "track_compute True False 384 (tracker_construct junk, fs_empty, no_barrier)
      = (?t 384, fs_empty, no_barrier)"
    by (simp add: track_compute_def accessExclusive_def tracker_construct_def set_all_def set_if_near_def
        Let_def fresh)
  have 3: "fst (snd (track_preraster True False 484 (?t 256, fs_empty, no_barrier))) = fs_set fs_empty 256"
    by (simp add: track_preraster_def accessExclusivePreRaster_def set_all_def Let_def e l)
  have 4: "fst (snd (track_preraster False False 484 (?t 384, w, b))) = w" for w b
    by (simp add: track_preraster_def accessSharedPreRaster_def set_if_near_def Let_def l)
  obtain ta b1 where e3: "track_preraster True False 484 (?t 256, fs_empty, no_barrier)
      = (ta, fs_set fs_empty 256, b1)" using 3 by (metis prod.collapse)
  obtain tb b2 where e4: "track_preraster False False 484 (?t 384, fs_set fs_empty 256, b1)
      = (tb, fs_set fs_empty 256, b2)" using 4 by (metis prod.collapse)
  show ?thesis
    unfolding stale_exclusive_def 1 2 Let_def case_prod_conv e3 e4 by (simp add: fun_eq_iff)
qed

lemma spaced_ordered:
  assumes "\<And>q d. d \<in> offs q (full_of strong implicit q) \<Longrightarrow> base \<le> q \<Longrightarrow> 64 \<le> d"
    and "256 \<le> base" "\<And>q. \<not> implicit q"
  shows "ordered_before strong implicit base p q \<Longrightarrow> p + 64 \<le> q"
proof (induction rule: ordered_before.induct)
  case (wait p e)
  then have "base \<le> e" by (simp add: waits_on_def)
  then have "e - p \<in> offs e (full_of strong implicit e)"
    using waits_on_full [of e p strong implicit base] wait assms(2,3) by simp
  then have "64 \<le> e - p" using \<open>base \<le> e\<close> by (rule assms(1))
  then show ?case by simp
qed simp

text \<open>
  The read is not ordered after the write: the last exclusive access of the first
  resource is 228 encoders old and still set in the strong fences (graphics accesses do not
  test its age), where its lane masks off the weak fence of encoder 384.
\<close>

theorem stale_exclusive_not_ordered:
  assumes "length junk = 65"
  shows "\<not> ordered_before (stale_exclusive junk) (\<lambda>_. False) 256 384 484"
proof
  let ?s = "stale_exclusive junk" and ?i = "\<lambda>_. False"
  note s = stale_exclusive_eq [OF assms]
  have p256: "pos 256 = 0" using pos_of_nat [of 256] by simp
  have far: "64 \<le> d \<and> \<not> (q = 484 \<and> d = 100)" if "d \<in> offs q (full_of ?s ?i q)" "256 \<le> q" for q d
  proof -
    have d: "0 < d" "d < 256" "(q - d) mod 256 \<in> fs_abs (full_of ?s ?i q)"
      using that(1) by (auto simp: offs_def)
    have full: "fs_abs (full_of ?s ?i q) = fs_abs (?s q) \<union>
        {p \<in> fs_abs (WEAK_FENCE_MASK (of_nat q)). \<not> bit (fs_laneMask (?s q)) (p mod 64)}"
      by (rule fs_abs_full_not_implicit) simp
    consider "q = 484" "(q - d) mod 256 = 0"
      | "(q - d) mod 256 \<in> fs_abs (WEAK_FENCE_MASK (of_nat q))" "q = 484 \<longrightarrow> (q - d) mod 256 mod 64 \<noteq> 0"
    proof -
      have q: "fs_abs (?s q) = (if q = 484 then {0} else {})" by (simp add: s p256)
      have m: "bit (fs_laneMask (?s q)) 0" if "q = 484"
        using q that by (subst laneMask_bit) simp_all
      have "(q - d) mod 256 \<in> fs_abs (?s q) \<or> (q - d) mod 256 \<in> fs_abs (WEAK_FENCE_MASK (of_nat q)) \<and>
          \<not> bit (fs_laneMask (?s q)) ((q - d) mod 256 mod 64)"
        using d(3) unfolding full by blast
      then show ?thesis
      proof
        assume "(q - d) mod 256 \<in> fs_abs (?s q)"
        then show ?thesis using q that(1) by (simp split: if_splits)
      next
        assume *: "(q - d) mod 256 \<in> fs_abs (WEAK_FENCE_MASK (of_nat q)) \<and>
          \<not> bit (fs_laneMask (?s q)) ((q - d) mod 256 mod 64)"
        then have "q = 484 \<longrightarrow> (q - d) mod 256 mod 64 \<noteq> 0" using m by metis
        then show ?thesis using * that(2) by blast
      qed
    qed
    then show ?thesis
    proof cases
      case 1
      then have "256 dvd 484 - d" by (simp add: dvd_eq_mod_eq_0)
      then obtain k where "484 - d = 256 * k" by (rule dvdE)
      then have "d = 228" using d(2) by presburger
      then show ?thesis by simp
    next
      case 2
      then obtain d' where d': "64 \<le> d'" "d' < 128" "(q - d) mod 256 = (q - d') mod 256"
        using fs_abs_WEAK [of q] \<open>256 \<le> q\<close> by auto
      have "d' < 256" using d'(2) by simp
      then have "d = d'" by (rule offset_inj [OF d'(3) d(2) _ \<open>256 \<le> q\<close>])
      moreover have "\<not> (q = 484 \<and> d = 100)" using 2(2) by auto
      ultimately show ?thesis using d'(1) by simp
    qed
  qed
  have spaced: "p + 64 \<le> q" if "ordered_before ?s ?i 256 p q" for p q
    by (rule spaced_ordered [OF _ _ _ that]) (use far in \<open>blast | simp\<close>)+
  assume "ordered_before ?s ?i 256 384 484"
  then show False
  proof (cases rule: ordered_before.cases)
    case wait
    then have "100 \<in> offs 484 (full_of ?s ?i 484)" using waits_on_full [of 484 384 ?s ?i 256] by simp
    then show False using far [of 100 484] by simp
  next
    case (trans q)
    then have "384 + 64 \<le> q" "q + 64 \<le> 484" by (auto dest: spaced)
    then show False by simp
  qed
qed

theorem stale_exclusive_not_ordered_witness:
  "\<not> ordered_before (stale_exclusive (replicate 65 0)) (\<lambda>_. False) 256 384 484"
  by (rule stale_exclusive_not_ordered) simp

end
