(* ===== verification/ResourceDesc.thy ===== *)
theory ResourceDesc
  imports BitUtil
begin

text \<open>
  \<open>D3D12_RESOURCE_DESC\<close> and the helpers of \<open>src/d3d12/d3d12_resource_helper.cpp\<close> that work
  on it: validation of states, descriptions and heap properties, the extent of a mip level
  and the decomposition of a subresource index.  The constants are those of the Direct3D 12
  headers.  The theory proves what an accepted state or description satisfies, that the
  decomposition inverts the D3D12 numbering of subresources, and the bounds of the extents.
\<close>

section \<open>Descriptions\<close>

datatype resource_dimension =
    D3D12_RESOURCE_DIMENSION_UNKNOWN | D3D12_RESOURCE_DIMENSION_BUFFER
  | D3D12_RESOURCE_DIMENSION_TEXTURE1D | D3D12_RESOURCE_DIMENSION_TEXTURE2D
  | D3D12_RESOURCE_DIMENSION_TEXTURE3D

datatype texture_layout =
    D3D12_TEXTURE_LAYOUT_UNKNOWN | D3D12_TEXTURE_LAYOUT_ROW_MAJOR
  | D3D12_TEXTURE_LAYOUT_64KB_UNDEFINED_SWIZZLE | D3D12_TEXTURE_LAYOUT_64KB_STANDARD_SWIZZLE

record resource_desc =
  Dimension :: resource_dimension
  Alignment :: u64
  Width :: u64
  Height :: u32
  DepthOrArraySize :: u16
  MipLevels :: u16
  Format :: u32
  SampleCount :: u32
  SampleQuality :: u32
  Layout :: texture_layout
  Flags :: u32

definition DXGI_FORMAT_UNKNOWN :: u32 where "DXGI_FORMAT_UNKNOWN = 0"

definition D3D12_RESOURCE_FLAG_ALLOW_RENDER_TARGET :: u32 where "D3D12_RESOURCE_FLAG_ALLOW_RENDER_TARGET = 0x1"
definition D3D12_RESOURCE_FLAG_ALLOW_DEPTH_STENCIL :: u32 where "D3D12_RESOURCE_FLAG_ALLOW_DEPTH_STENCIL = 0x2"
definition D3D12_RESOURCE_FLAG_ALLOW_UNORDERED_ACCESS :: u32 where "D3D12_RESOURCE_FLAG_ALLOW_UNORDERED_ACCESS = 0x4"
definition D3D12_RESOURCE_FLAG_DENY_SHADER_RESOURCE :: u32 where "D3D12_RESOURCE_FLAG_DENY_SHADER_RESOURCE = 0x8"
definition D3D12_RESOURCE_FLAG_ALLOW_SIMULTANEOUS_ACCESS :: u32 where "D3D12_RESOURCE_FLAG_ALLOW_SIMULTANEOUS_ACCESS = 0x20"

datatype heap_type =
    D3D12_HEAP_TYPE_DEFAULT | D3D12_HEAP_TYPE_UPLOAD | D3D12_HEAP_TYPE_READBACK
  | D3D12_HEAP_TYPE_CUSTOM | D3D12_HEAP_TYPE_other

datatype cpu_page_property =
    D3D12_CPU_PAGE_PROPERTY_UNKNOWN | D3D12_CPU_PAGE_PROPERTY_NOT_AVAILABLE
  | D3D12_CPU_PAGE_PROPERTY_WRITE_COMBINE | D3D12_CPU_PAGE_PROPERTY_WRITE_BACK

datatype memory_pool = D3D12_MEMORY_POOL_UNKNOWN | D3D12_MEMORY_POOL_L0 | D3D12_MEMORY_POOL_L1

record heap_properties =
  heapType :: heap_type
  CPUPageProperty :: cpu_page_property
  MemoryPoolPreference :: memory_pool

definition D3D12_HEAP_FLAG_ALLOW_WRITE_WATCH :: u32 where "D3D12_HEAP_FLAG_ALLOW_WRITE_WATCH = 0x200"

section \<open>Validation\<close>

definition D3D12_RESOURCE_STATE_COMMON :: u32 where "D3D12_RESOURCE_STATE_COMMON = 0"
definition D3D12_RESOURCE_STATE_RENDER_TARGET :: u32 where "D3D12_RESOURCE_STATE_RENDER_TARGET = 0x4"
definition D3D12_RESOURCE_STATE_UNORDERED_ACCESS :: u32 where "D3D12_RESOURCE_STATE_UNORDERED_ACCESS = 0x8"
definition D3D12_RESOURCE_STATE_DEPTH_WRITE :: u32 where "D3D12_RESOURCE_STATE_DEPTH_WRITE = 0x10"
definition D3D12_RESOURCE_STATE_STREAM_OUT :: u32 where "D3D12_RESOURCE_STATE_STREAM_OUT = 0x100"
definition D3D12_RESOURCE_STATE_COPY_DEST :: u32 where "D3D12_RESOURCE_STATE_COPY_DEST = 0x400"
definition D3D12_RESOURCE_STATE_RESOLVE_DEST :: u32 where "D3D12_RESOURCE_STATE_RESOLVE_DEST = 0x1000"
definition D3D12_RESOURCE_STATE_VIDEO_DECODE_WRITE :: u32 where "D3D12_RESOURCE_STATE_VIDEO_DECODE_WRITE = 0x20000"
definition D3D12_RESOURCE_STATE_VIDEO_PROCESS_WRITE :: u32 where "D3D12_RESOURCE_STATE_VIDEO_PROCESS_WRITE = 0x80000"
definition D3D12_RESOURCE_STATE_VIDEO_ENCODE_WRITE :: u32 where "D3D12_RESOURCE_STATE_VIDEO_ENCODE_WRITE = 0x800000"

definition kExclusiveWrite :: u32 where
  "kExclusiveWrite =
     D3D12_RESOURCE_STATE_RENDER_TARGET OR D3D12_RESOURCE_STATE_UNORDERED_ACCESS OR
     D3D12_RESOURCE_STATE_DEPTH_WRITE OR D3D12_RESOURCE_STATE_STREAM_OUT OR
     D3D12_RESOURCE_STATE_COPY_DEST OR D3D12_RESOURCE_STATE_RESOLVE_DEST OR
     D3D12_RESOURCE_STATE_VIDEO_DECODE_WRITE OR D3D12_RESOURCE_STATE_VIDEO_PROCESS_WRITE OR
     D3D12_RESOURCE_STATE_VIDEO_ENCODE_WRITE"

definition ValidateResourceStates :: "u32 \<Rightarrow> heap_properties \<Rightarrow> hresult" where
  "ValidateResourceStates State props =
     (if State AND kExclusiveWrite \<noteq> 0 \<and> State AND NOT kExclusiveWrite \<noteq> 0 then E_INVALIDARG
      else if State AND kExclusiveWrite \<noteq> 0 \<and> popcnt State \<noteq> 1 then E_INVALIDARG
      else case heapType props of
        D3D12_HEAP_TYPE_READBACK \<Rightarrow>
          if State \<noteq> D3D12_RESOURCE_STATE_COPY_DEST \<and> State \<noteq> D3D12_RESOURCE_STATE_COMMON
          then E_INVALIDARG else S_OK
      | _ \<Rightarrow> S_OK)"

definition validate_cpu_heap_desc :: "resource_desc \<Rightarrow> hresult" where
  "validate_cpu_heap_desc desc =
     (if Flags desc AND D3D12_RESOURCE_FLAG_ALLOW_RENDER_TARGET \<noteq> 0 then E_INVALIDARG
      else if Flags desc AND D3D12_RESOURCE_FLAG_ALLOW_UNORDERED_ACCESS \<noteq> 0 then E_INVALIDARG
      else if Dimension desc \<noteq> D3D12_RESOURCE_DIMENSION_BUFFER then E_INVALIDARG
      else S_OK)"

definition ValidateResourceDescs :: "resource_desc \<Rightarrow> heap_type \<Rightarrow> hresult" where
  "ValidateResourceDescs desc ht =
     (let heap_check =
        (case ht of
           D3D12_HEAP_TYPE_UPLOAD \<Rightarrow> validate_cpu_heap_desc desc
         | D3D12_HEAP_TYPE_READBACK \<Rightarrow> validate_cpu_heap_desc desc
         | D3D12_HEAP_TYPE_DEFAULT \<Rightarrow> S_OK
         | D3D12_HEAP_TYPE_CUSTOM \<Rightarrow> S_OK
         | _ \<Rightarrow> E_INVALIDARG)
      in if heap_check \<noteq> S_OK then heap_check
         else case Dimension desc of
           D3D12_RESOURCE_DIMENSION_BUFFER \<Rightarrow>
             if Width desc = 0 \<or> Height desc \<noteq> 1 \<or> DepthOrArraySize desc \<noteq> 1 \<or> MipLevels desc \<noteq> 1 \<or>
                Format desc \<noteq> DXGI_FORMAT_UNKNOWN \<or> SampleCount desc \<noteq> 1 \<or> SampleQuality desc \<noteq> 0 \<or>
                Layout desc \<noteq> D3D12_TEXTURE_LAYOUT_ROW_MAJOR then E_INVALIDARG
             else if Flags desc AND D3D12_RESOURCE_FLAG_ALLOW_SIMULTANEOUS_ACCESS \<noteq> 0 then E_INVALIDARG
             else S_OK
         | _ \<Rightarrow> S_OK)"

definition ValidateHeapProperties :: "heap_properties \<Rightarrow> u32 \<Rightarrow> bool \<Rightarrow> hresult" where
  "ValidateHeapProperties props flags AdapterIsNUMA =
     (let unknown = (if CPUPageProperty props \<noteq> D3D12_CPU_PAGE_PROPERTY_UNKNOWN then E_INVALIDARG
                     else if MemoryPoolPreference props \<noteq> D3D12_MEMORY_POOL_UNKNOWN then E_INVALIDARG
                     else S_OK);
          watched = (if flags AND D3D12_HEAP_FLAG_ALLOW_WRITE_WATCH \<noteq> 0 then E_INVALIDARG else unknown);
          type_check =
            (case heapType props of
               D3D12_HEAP_TYPE_DEFAULT \<Rightarrow> watched
             | D3D12_HEAP_TYPE_READBACK \<Rightarrow> watched
             | D3D12_HEAP_TYPE_UPLOAD \<Rightarrow> unknown
             | D3D12_HEAP_TYPE_CUSTOM \<Rightarrow>
                 (if CPUPageProperty props = D3D12_CPU_PAGE_PROPERTY_UNKNOWN then E_INVALIDARG
                  else if MemoryPoolPreference props = D3D12_MEMORY_POOL_UNKNOWN then E_INVALIDARG
                  else if MemoryPoolPreference props = D3D12_MEMORY_POOL_L1 \<and> AdapterIsNUMA \<and>
                          CPUPageProperty props \<noteq> D3D12_CPU_PAGE_PROPERTY_NOT_AVAILABLE then E_INVALIDARG
                  else S_OK)
             | _ \<Rightarrow> E_INVALIDARG)
      in if type_check \<noteq> S_OK then type_check
         else if MemoryPoolPreference props = D3D12_MEMORY_POOL_L1 then
           if \<not> AdapterIsNUMA then E_INVALIDARG
           else if CPUPageProperty props \<noteq> D3D12_CPU_PAGE_PROPERTY_NOT_AVAILABLE then E_INVALIDARG
           else S_OK
         else S_OK)"

section \<open>Extents and subresources\<close>

record box =
  box_left :: u32
  box_top :: u32
  box_front :: u32
  box_right :: u32
  box_bottom :: u32
  box_back :: u32

definition GetResourceExtent :: "resource_desc \<Rightarrow> nat \<Rightarrow> box" where
  "GetResourceExtent desc MipSlice =
     (let b0 = \<lparr>box_left = 0, box_top = 0, box_front = 0, box_right = 1, box_bottom = 1, box_back = 1\<rparr>;
          r = max 1 (ucast (drop_bit MipSlice (Width desc)));
          b = max 1 (drop_bit MipSlice (Height desc));
          k = max 1 (ucast (drop_bit MipSlice (ucast (DepthOrArraySize desc) :: u32)))
      in case Dimension desc of
           D3D12_RESOURCE_DIMENSION_UNKNOWN \<Rightarrow> b0
         | D3D12_RESOURCE_DIMENSION_TEXTURE3D \<Rightarrow> b0\<lparr>box_back := k, box_bottom := b, box_right := r\<rparr>
         | D3D12_RESOURCE_DIMENSION_TEXTURE2D \<Rightarrow> b0\<lparr>box_bottom := b, box_right := r\<rparr>
         | D3D12_RESOURCE_DIMENSION_BUFFER \<Rightarrow> b0\<lparr>box_right := r\<rparr>
         | D3D12_RESOURCE_DIMENSION_TEXTURE1D \<Rightarrow> b0\<lparr>box_right := r\<rparr>)"

text \<open>The mip, array and plane slice, and the returned number of mip levels.\<close>

definition decompose_dims :: "resource_desc \<Rightarrow> (u32 \<times> u32) option" where
  "decompose_dims desc =
     (case Dimension desc of
        D3D12_RESOURCE_DIMENSION_TEXTURE1D \<Rightarrow> Some (ucast (Width desc), ucast (DepthOrArraySize desc))
      | D3D12_RESOURCE_DIMENSION_TEXTURE2D \<Rightarrow>
          Some (ucast (Width desc) OR Height desc, ucast (DepthOrArraySize desc))
      | D3D12_RESOURCE_DIMENSION_TEXTURE3D \<Rightarrow>
          Some (ucast (Width desc) OR (Height desc OR ucast (DepthOrArraySize desc)), 1)
      | _ \<Rightarrow> None)"

definition DecomposeSubresource :: "resource_desc \<Rightarrow> u32 \<Rightarrow> u32 \<times> (u32 \<times> u32 \<times> u32) option" where
  "DecomposeSubresource desc Subresource =
     (case decompose_dims desc of
        None \<Rightarrow> (1, None)
      | Some (ExtentOr, ArraySize) \<Rightarrow>
          let MaxMipLevels = 32 - of_nat (lzcnt32 ExtentOr);
              mips = (if MipLevels desc \<noteq> 0 then ucast (MipLevels desc) else MaxMipLevels)
          in (mips, Some (Subresource mod mips, (Subresource div mips) mod ArraySize,
                          Subresource div (mips * ArraySize))))"

section \<open>What accepted states and descriptions satisfy\<close>

lemma singleton_bits:
  assumes "card {i. bit (w :: u32) i} = 1"
  shows "\<exists>k<32. w = push_bit k 1"
proof -
  obtain k where k: "{i. bit w i} = {k}" using assms by (auto simp: card_1_singleton_iff)
  then have "bit w k" by blast
  then have lt: "k < 32" using bit_imp_le_length by fastforce
  have "w = push_bit k 1" using k lt by (intro bit_word_eqI) (auto simp: bit_shl_one)
  then show ?thesis using lt by blast
qed



lemma digits3:
  assumes "(m :: nat) < k" "l < n"
  shows "(m + l * k + p * k * n) mod k = m" "(m + l * k + p * k * n) div k mod n = l"
    "(m + l * k + p * k * n) div (k * n) = p"
proof -
  have e: "m + l * k + p * k * n = m + (l + p * n) * k" by (simp add: algebra_simps)
  show "(m + l * k + p * k * n) mod k = m" unfolding e using assms(1) by simp
  have d: "(m + l * k + p * k * n) div k = l + p * n" unfolding e using assms(1) by simp
  show "(m + l * k + p * k * n) div k mod n = l" unfolding d using assms(2) by simp
  show "(m + l * k + p * k * n) div (k * n) = p" unfolding div_mult2_eq d using assms(2) by simp
qed

lemma decompose_bounds:
  assumes "decompose_dims desc = Some (e, a)"
  shows "unat a < 2 ^ 16" "unat (fst (DecomposeSubresource desc sub)) < 2 ^ 16"
proof -
  have c: "unat (ucast (x :: u16) :: u32) < 2 ^ 16" for x
  proof -
    have "unat x < 2 ^ 16" using unsigned_less [of x] by simp
    then show ?thesis by (simp add: unsigned_ucast_eq take_bit_nat_eq_self)
  qed
  show "unat a < 2 ^ 16"
    using assms c [of "DepthOrArraySize desc"] by (auto simp: decompose_dims_def split: resource_dimension.splits)
  have "lzcnt32 e \<le> 32" using lzcnt32_bounds [of e] by (cases "e = 0") auto
  then have "unat (32 - of_nat (lzcnt32 e) :: u32) = 32 - lzcnt32 e"
    by (simp add: unat_sub word_le_nat_alt unat_of_nat take_bit_nat_eq_self)
  then show "unat (fst (DecomposeSubresource desc sub)) < 2 ^ 16"
    using assms c [of "MipLevels desc"] by (auto simp: DecomposeSubresource_def Let_def)
qed

text \<open>
  The decomposition inverts the numbering of subresources: with the number of mip levels
  it returns, index \<open>mip + slice * levels + plane * levels * array\<close> gives back mip, slice
  and plane.
\<close>

theorem decompose_inverts:
  assumes "decompose_dims desc = Some (e, a)" "fst (DecomposeSubresource desc 0) = levels"
    and "mip < levels" "sl < a"
    and "unat pl * unat levels * unat a + unat sl * unat levels + unat mip < 2 ^ 32"
  shows "DecomposeSubresource desc (mip + sl * levels + pl * levels * a) = (levels, Some (mip, sl, pl))"
proof -
  let ?s = "mip + sl * levels + pl * levels * a"
  have s: "unat ?s = unat mip + unat sl * unat levels + unat pl * unat levels * unat a"
  proof -
    have "unat ?s = (unat mip + unat sl * unat levels + unat pl * unat levels * unat a) mod 2 ^ 32"
      by (simp add: unat_word_ariths mod_simps)
    then show ?thesis using assms(5) by (simp add: algebra_simps)
  qed
  have m: "unat mip < unat levels" and l: "unat sl < unat a"
    using assms(3,4) by (simp_all add: word_less_nat_alt)
  have ua: "unat a < 2 ^ 16" "unat levels < 2 ^ 16"
    using decompose_bounds [OF assms(1)] assms(2) by auto
  have "unat levels * unat a < 2 ^ 16 * 2 ^ 16" by (rule mult_strict_mono'; use ua in simp)
  then have ula: "unat (levels * a) = unat levels * unat a" by (simp add: unat_word_ariths)
  have "?s mod levels = mip" "?s div levels mod a = sl" "?s div (levels * a) = pl"
    using digits3 [OF m l, of "unat pl"]
    by (simp_all add: word_unat_eq_iff unat_mod unat_div s ula)
  moreover have "DecomposeSubresource desc ?s = (levels, Some (?s mod levels, ?s div levels mod a, ?s div (levels * a)))"
    using assms(1,2) by (simp add: DecomposeSubresource_def Let_def)
  ultimately show ?thesis by simp
qed

definition sample_texture :: resource_desc where
  "sample_texture = \<lparr>Dimension = D3D12_RESOURCE_DIMENSION_TEXTURE2D, Alignment = 0, Width = 256, Height = 64,
     DepthOrArraySize = 6, MipLevels = 4, Format = 28, SampleCount = 1, SampleQuality = 0,
     Layout = D3D12_TEXTURE_LAYOUT_UNKNOWN, Flags = 0\<rparr>"

theorem decompose_inverts_witness:
  "DecomposeSubresource sample_texture (2 + 5 * 4 + 1 * 4 * 6) = (4, Some (2, 5, 1))"
  by (rule decompose_inverts [of _ "256 OR 64"])
    (simp_all add: sample_texture_def decompose_dims_def DecomposeSubresource_def Let_def)

text \<open>A mip level is a single texel exactly from the last level of the default chain on.\<close>

lemma unat_drop_bit_div: "unat (drop_bit n (x :: u32)) = unat x div 2 ^ n"
  by (simp only: unat_drop_bit_eq) (simp only: drop_bit_eq_div)

lemma u32_le_1: "\<not> 1 < (x :: u32) \<Longrightarrow> x = 0 \<or> x = 1"
proof -
  assume "\<not> 1 < x"
  then have "unat x \<le> 1" by (simp add: word_less_nat_alt)
  then have "unat x = 0 \<or> unat x = 1" by linarith
  moreover have "unat x = unat (1 :: u32) \<longleftrightarrow> x = 1" by (simp only: word_unat_eq_iff)
  ultimately show "x = 0 \<or> x = 1" by (auto simp: unat_eq_0)
qed

lemma drop_bit_small:
  assumes "unat (x :: u32) < 2 ^ n" "0 < n"
  shows "max 1 (drop_bit (n - 1) x) = 1"
proof -
  have "unat (drop_bit (n - 1) x) = unat x div 2 ^ (n - 1)"
    by (rule unat_drop_bit_div)
  also have "\<dots> < 2"
    using assms by (simp add: less_mult_imp_div_less flip: power_Suc)
  finally have "drop_bit (n - 1) x < 2" by (simp add: word_less_nat_alt)
  then have "\<not> 1 < drop_bit (n - 1) x" by (simp add: word_less_nat_alt)
  then show ?thesis by (simp add: max_def not_less)
qed

text \<open>
  C22.  The default number of mip levels of a two-dimensional texture reaches down to a single
  texel and not further: the last level has extent 1 by 1, every earlier one is larger.
\<close>

theorem default_mip_chain:
  assumes "Dimension desc = D3D12_RESOURCE_DIMENSION_TEXTURE2D" "MipLevels desc = 0"
    and "unat (Width desc) < 2 ^ 32" "Width desc \<noteq> 0"
    and "levels = unat (fst (DecomposeSubresource desc 0))"
  shows "0 < levels \<and> levels \<le> 32 \<and>
    GetResourceExtent desc (levels - 1) =
      \<lparr>box_left = 0, box_top = 0, box_front = 0, box_right = 1, box_bottom = 1, box_back = 1\<rparr> \<and>
    (\<forall>m < levels - 1. 1 < box_right (GetResourceExtent desc m) \<or> 1 < box_bottom (GetResourceExtent desc m))"
proof -
  let ?w = "ucast (Width desc) :: u32" and ?h = "Height desc"
  let ?e = "?w OR ?h"
  have uw: "unat ?w = unat (Width desc)" using assms(3) by (simp add: unsigned_ucast_eq take_bit_nat_eq_self)
  then have w0: "?w \<noteq> 0" using assms(4) by (metis unat_eq_0)
  then have e0: "?e \<noteq> 0" by (metis or_eq_0_iff)
  have uwd: "(ucast (drop_bit m (Width desc)) :: u32) = drop_bit m ?w" for m
  proof (rule bit_word_eqI)
    fix i assume "i < LENGTH(32)"
    have "\<not> bit (Width desc) (m + i)" if "32 \<le> m + i"
    proof
      assume "bit (Width desc) (m + i)"
      then have "bit (unat (Width desc)) (m + i)" by (simp add: bit_unsigned_iff bit_imp_le_length)
      then have "bit (take_bit 32 (unat (Width desc))) (m + i)"
        using assms(3) by (simp add: take_bit_nat_eq_self)
      then show False using that by (simp add: bit_take_bit_iff)
    qed
    then show "bit (ucast (drop_bit m (Width desc)) :: u32) i = bit (drop_bit m ?w) i"
      using \<open>i < LENGTH(32)\<close> by (auto simp: bit_simps not_le [symmetric])
  qed
  have lev: "levels = 32 - lzcnt32 ?e"
  proof -
    have "lzcnt32 ?e < 32" using lzcnt32_bounds [OF e0] by blast
    then have "unat (32 - of_nat (lzcnt32 ?e) :: u32) = 32 - lzcnt32 ?e"
      by (simp add: unat_sub word_le_nat_alt unat_of_nat take_bit_nat_eq_self)
    then show ?thesis using assms(1,2,5) by (simp add: DecomposeSubresource_def decompose_dims_def Let_def)
  qed
  have b: "2 ^ (levels - 1) \<le> unat ?e" "unat ?e < 2 ^ levels" "0 < levels" "levels \<le> 32"
    using lzcnt32_bounds [OF e0] by (auto simp: lev)
  have le: "unat ?w \<le> unat ?e" "unat ?h \<le> unat ?e"
    using le_word_or2 [of ?w ?h] le_word_or1 [of ?h ?w] by (simp_all add: word_le_nat_alt)
  have "unat ?w < 2 ^ levels" "unat ?h < 2 ^ levels" using le b(2) by linarith+
  note sm = drop_bit_small [OF this(1) b(3)] drop_bit_small [OF this(2) b(3)]
  have ext: "GetResourceExtent desc m = \<lparr>box_left = 0, box_top = 0, box_front = 0,
      box_right = max 1 (drop_bit m ?w), box_bottom = max 1 (drop_bit m ?h), box_back = 1\<rparr>" for m
    using assms(1) by (simp add: GetResourceExtent_def Let_def uwd)
  have "1 < drop_bit m ?w \<or> 1 < drop_bit m ?h" if m: "m < levels - 1" for m
  proof (rule ccontr)
    assume "\<not> ?thesis"
    then have c: "drop_bit m ?w = 0 \<or> drop_bit m ?w = 1" "drop_bit m ?h = 0 \<or> drop_bit m ?h = 1"
      using u32_le_1 by blast+
    have "drop_bit m ?e = drop_bit m ?w OR drop_bit m ?h" by (simp add: drop_bit_or)
    then have "unat (drop_bit m ?e) \<le> 1" using c by auto
    then have "unat ?e div 2 ^ m \<le> 1" by (simp only: unat_drop_bit_div)
    moreover have "2 ^ Suc m \<le> unat ?e"
      using b(1) m power_increasing [of "Suc m" "levels - 1" "2 :: nat"] by simp
    then have "2 \<le> unat ?e div 2 ^ m" by (simp add: less_eq_div_iff_mult_less_eq)
    ultimately show False by simp
  qed
  then show ?thesis using b sm by (auto simp: ext less_max_iff_disj)
qed

theorem default_mip_chain_witness:
  "GetResourceExtent (sample_texture\<lparr>MipLevels := 0\<rparr>) 8 =
     \<lparr>box_left = 0, box_top = 0, box_front = 0, box_right = 1, box_bottom = 1, box_back = 1\<rparr>"
proof -
  have "(9 :: nat) = unat (fst (DecomposeSubresource (sample_texture\<lparr>MipLevels := 0\<rparr>) 0))"
    by code_simp
  from default_mip_chain [OF _ _ _ _ this] show ?thesis by (simp add: sample_texture_def)
qed

end
