(* ===== verification/Subresource.thy ===== *)
theory Subresource
  imports Prelude
begin

text \<open>
  \<open>ResourceSubsetState\<close> of \<open>src/dxmt/dxmt_subresource.hpp\<close> and \<open>.cpp\<close>: the part of a
  buffer or texture that an access touches, packed in one 64-bit word, and the test whether
  two parts overlap.  A texture view is encoded as a bit mask of its subresources when the
  texture has at most 62 of them, and as mip, slice and plane ranges otherwise; the theory
  proves that the test is geometric overlap under either encoding.
\<close>

section \<open>Formats and views\<close>

text \<open>\<open>WMTPixelFormat\<close> values of \<open>src/winemetal/winemetal.h\<close> that the code tests.\<close>

definition WMTPixelFormatR001Swizzle :: u32 where "WMTPixelFormatR001Swizzle = push_bit 12 0b000011010010"
definition WMTPixelFormat0R01Swizzle :: u32 where "WMTPixelFormat0R01Swizzle = push_bit 12 0b100101010010"
definition WMTPixelFormatDepth24Unorm_Stencil8 :: u32 where "WMTPixelFormatDepth24Unorm_Stencil8 = 255"
definition WMTPixelFormatDepth32Float_Stencil8 :: u32 where "WMTPixelFormatDepth32Float_Stencil8 = 260"
definition WMTPixelFormatX32_Stencil8 :: u32 where "WMTPixelFormatX32_Stencil8 = 261"
definition WMTPixelFormatX24_Stencil8 :: u32 where "WMTPixelFormatX24_Stencil8 = 262"
definition WMTPixelFormatR32X8X32 :: u32 where
  "WMTPixelFormatR32X8X32 = WMTPixelFormatR001Swizzle OR WMTPixelFormatDepth32Float_Stencil8"
definition WMTPixelFormatX32G8X32 :: u32 where
  "WMTPixelFormatX32G8X32 = WMTPixelFormat0R01Swizzle OR WMTPixelFormatX32_Stencil8"

definition getPlanarCount :: "u32 \<Rightarrow> nat" where
  "getPlanarCount format =
     (if format \<in> {WMTPixelFormatX32G8X32, WMTPixelFormatR32X8X32, WMTPixelFormatDepth32Float_Stencil8,
        WMTPixelFormatDepth24Unorm_Stencil8, WMTPixelFormatX32_Stencil8, WMTPixelFormatX24_Stencil8}
      then 2 else 1)"

definition getPlanarMask :: "u32 \<Rightarrow> u32" where
  "getPlanarMask format =
     (if format = WMTPixelFormatX32G8X32 then 0b10
      else if format = WMTPixelFormatR32X8X32 then 0b01
      else if format \<in> {WMTPixelFormatDepth32Float_Stencil8, WMTPixelFormatDepth24Unorm_Stencil8} then 0b11
      else if format \<in> {WMTPixelFormatX32_Stencil8, WMTPixelFormatX24_Stencil8} then 0b10
      else 1)"

datatype texture_type =
    WMTTextureType1D | WMTTextureType1DArray | WMTTextureType2D | WMTTextureType2DArray
  | WMTTextureType2DMultisample | WMTTextureTypeCube | WMTTextureTypeCubeArray | WMTTextureType3D
  | WMTTextureType2DMultisampleArray | WMTTextureTypeTextureBuffer

text \<open>\<open>TextureViewDescriptor\<close> (\<open>dxmt_texture.hpp\<close>); the bit fields have 4, 4, 12 and 12 bits.\<close>

record view_desc =
  format :: u32
  vtype :: texture_type
  firstMiplevel :: nat
  miplevelCount :: nat
  firstArraySlice :: nat
  arraySize :: nat

section \<open>The packed word\<close>

text \<open>A union of bit-field structs, laid out from the low bit; \<open>encoded_tag\<close> is common.\<close>

definition fld :: "u64 \<Rightarrow> nat \<Rightarrow> nat \<Rightarrow> u64" where
  "fld w lo n = take_bit n (drop_bit lo w)"

definition put_fld :: "nat \<Rightarrow> nat \<Rightarrow> u64 \<Rightarrow> u64" where
  "put_fld lo n x = push_bit lo (take_bit n x)"

abbreviation "encoded_tag w \<equiv> fld w 0 2"
abbreviation "buffer_offset w \<equiv> fld w 2 31"
abbreviation "buffer_length w \<equiv> fld w 33 31"
abbreviation "bitmask_mask w \<equiv> fld w 2 62"
abbreviation "texture_planar_mask w \<equiv> fld w 2 30"
abbreviation "texture_mip_start w \<equiv> fld w 32 4"
abbreviation "texture_array_start w \<equiv> fld w 36 12"
abbreviation "texture_mip_end w \<equiv> fld w 48 4"
abbreviation "texture_array_end w \<equiv> fld w 52 12"

text \<open>The 31-bit fields promote to \<open>int\<close>, so the sums are 32-bit and signed.\<close>

definition buffer_end :: "u64 \<Rightarrow> u32" where
  "buffer_end w = ucast (buffer_offset w) + ucast (buffer_length w)"

definition overlapWith :: "u64 \<Rightarrow> u64 \<Rightarrow> bool" where
  "overlapWith self oth =
     (if encoded_tag self \<noteq> 0 \<and> encoded_tag oth \<noteq> 0 \<and> encoded_tag self \<noteq> encoded_tag oth then False
      else if encoded_tag self = 0b01 then
        sint (ucast (buffer_offset self) :: u32) < sint (buffer_end oth) \<and>
        sint (ucast (buffer_offset oth) :: u32) < sint (buffer_end self)
      else if encoded_tag self = 0b11 then
        bitmask_mask self AND bitmask_mask oth \<noteq> 0
      else if encoded_tag self = 0b10 then
        texture_planar_mask self AND texture_planar_mask oth \<noteq> 0 \<and>
        texture_mip_start self < texture_mip_end oth \<and>
        texture_mip_start oth < texture_mip_end self \<and>
        texture_array_start self < texture_array_end oth \<and>
        texture_array_start oth < texture_array_end self
      else True)"

definition whole_resource :: u64 where
  "whole_resource = 0"

definition buffer_subset :: "u32 \<Rightarrow> u32 \<Rightarrow> u64" where
  "buffer_subset off len = 0b01 OR put_fld 2 31 (ucast off) OR put_fld 33 31 (ucast len)"

text \<open>The three nested loops; the list holds the iterations in order.\<close>

definition subset_bits :: "view_desc \<Rightarrow> nat \<Rightarrow> u32 \<Rightarrow> nat \<Rightarrow> nat \<Rightarrow> u64" where
  "subset_bits desc total_planar planar_mask total_mip_count total_array_size =
     foldl (\<lambda>bits (plane, arr, level).
              if push_bit plane 1 AND planar_mask \<noteq> 0
              then bits OR push_bit (plane * total_array_size * total_mip_count + arr * total_mip_count + level) 1
              else bits)
       0 [(plane, arr, level).
            plane \<leftarrow> [0..<total_planar],
            arr \<leftarrow> [firstArraySlice desc..<firstArraySlice desc + arraySize desc],
            level \<leftarrow> [firstMiplevel desc..<firstMiplevel desc + miplevelCount desc]]"

definition texture_subset :: "view_desc \<Rightarrow> nat \<Rightarrow> nat \<Rightarrow> u32 \<Rightarrow> u64" where
  "texture_subset desc total_mip_count total_array_size ignore_planar_mask =
     (let total_planar = getPlanarCount (format desc);
          planar_mask = getPlanarMask (format desc) AND NOT ignore_planar_mask
      in if total_planar * total_mip_count * total_array_size \<le> 62 then
           0b11 OR put_fld 2 62 (subset_bits desc total_planar planar_mask total_mip_count total_array_size)
         else
           0b10 OR put_fld 32 4 (of_nat (firstMiplevel desc))
             OR put_fld 48 4 (of_nat (firstMiplevel desc + miplevelCount desc))
             OR put_fld 36 12 (of_nat (firstArraySlice desc))
             OR put_fld 52 12 (of_nat (firstArraySlice desc + arraySize desc))
             OR put_fld 2 30 (ucast planar_mask))"

section \<open>Reading fields back\<close>

lemma fld_or [bitrep]: "fld (a OR b) lo n = fld a lo n OR fld b lo n"
  by (simp add: fld_def)

lemma fld_put_same: "lo + n \<le> 64 \<Longrightarrow> fld (put_fld lo n x) lo n = take_bit n x"
  by (intro bit_word_eqI) (auto simp: fld_def put_fld_def bit_simps)

lemma fld_put_other: "lo + n \<le> lo' \<or> lo' + n' \<le> lo \<Longrightarrow> fld (put_fld lo' n' x) lo n = 0"
  by (intro bit_word_eqI) (auto simp: fld_def put_fld_def bit_simps)

lemma fld_tag: "2 \<le> lo \<Longrightarrow> t < 4 \<Longrightarrow> fld t lo n = 0"
proof -
  assume lo: "2 \<le> lo" and t: "t < (4 :: u64)"
  have "take_bit 2 t = t" by (rule less_mask_eq [unfolded take_bit_eq_mask [symmetric]]) (use t in simp)
  then have "bit t i \<Longrightarrow> i < 2" for i by (metis bit_take_bit_iff)
  then show ?thesis using lo by (intro bit_word_eqI) (fastforce simp: fld_def bit_simps)
qed

lemma put_fld_tag_absorb: "fld (put_fld lo n x) 0 2 = 0" if "2 \<le> lo"
  by (rule fld_put_other) (use that in simp)

lemma bit_fld: "bit (fld w lo n) i \<longleftrightarrow> i < n \<and> bit w (lo + i)"
  by (auto simp: fld_def bit_simps dest: bit_imp_le_length)

lemma take_bit_of_nat_u64: "m < 2 ^ n \<Longrightarrow> n \<le> 64 \<Longrightarrow> take_bit n (of_nat m :: u64) = of_nat m"
  by (metis take_bit_nat_eq_self take_bit_of_nat)

lemma of_nat_less_u64: "m < 2 ^ 64 \<Longrightarrow> n < 2 ^ 64 \<Longrightarrow> (of_nat m :: u64) < of_nat n \<longleftrightarrow> m < n"
  by (simp add: word_less_nat_alt unat_of_nat take_bit_nat_eq_self)

text \<open>The tags.\<close>

lemma tag_whole: "encoded_tag whole_resource = 0"
  by (simp add: whole_resource_def fld_def)

lemma tag_consts [simp]: "fld 1 0 2 = 1" "fld 2 0 2 = 2" "fld 3 0 2 = 3"
  by (simp_all add: fld_def take_bit_eq_mask mask_numeral)

lemma buffer_subset_fields:
  "encoded_tag (buffer_subset off len) = 1"
  "buffer_offset (buffer_subset off len) = take_bit 31 (ucast off)"
  "buffer_length (buffer_subset off len) = take_bit 31 (ucast len)"
  by (simp_all add: buffer_subset_def fld_or fld_put_same fld_put_other fld_tag)

lemma unat_buffer_end:
  assumes "unat off + unat len < 2 ^ 31"
  shows "unat (ucast (buffer_offset (buffer_subset off len)) :: u32) = unat off"
    "unat (buffer_end (buffer_subset off len)) = unat off + unat len"
proof -
  have t: "(ucast (take_bit 31 (ucast x :: u64)) :: u32) = x" if "unat x < 2 ^ 31" for x :: u32
  proof -
    have "take_bit 31 (ucast x :: u64) = ucast x"
      using that by (simp add: word_unat_eq_iff unsigned_take_bit_eq unsigned_ucast_eq take_bit_nat_eq_self)
    moreover have "(ucast (ucast x :: u64) :: u32) = x" by (intro bit_word_eqI) (simp add: bit_simps)
    ultimately show ?thesis by simp
  qed
  show "unat (ucast (buffer_offset (buffer_subset off len)) :: u32) = unat off"
    unfolding buffer_subset_fields by (subst t) (use assms in simp_all)
  show "unat (buffer_end (buffer_subset off len)) = unat off + unat len"
    unfolding buffer_end_def buffer_subset_fields
    by (subst (1 2) t) (use assms unat_add_lem [of off len] in simp_all)
qed

lemma sint_small: "unat (x :: u32) < 2 ^ 31 \<Longrightarrow> sint x = int (unat x)"
proof -
  assume a: "unat x < 2 ^ 31"
  have "nat (uint x) < 2 ^ 31" by (rule a [unfolded unat_eq_nat_uint])
  then have u: "uint x < 2 ^ 31" by (subst (asm) nat_less_iff) simp_all
  have "- (2 ^ 31) \<le> uint x" by (rule order_trans [of _ 0]) simp_all
  then have "signed_take_bit 31 (uint x) = uint x" using u by (rule signed_take_bit_int_eq_self)
  moreover have "sint x = signed_take_bit 31 (uint x)" by (simp add: sint_uint)
  ultimately show "sint x = int (unat x)" by simp
qed

text \<open>
  Two buffer ranges overlap in the code exactly when they share a byte, for ranges that
  end below 2^31 and are not empty.
\<close>

theorem buffer_overlap_iff:
  assumes "unat o1 + unat l1 < 2 ^ 31" "unat o2 + unat l2 < 2 ^ 31" "l1 \<noteq> 0" "l2 \<noteq> 0"
  shows "overlapWith (buffer_subset o1 l1) (buffer_subset o2 l2) \<longleftrightarrow>
    {unat o1..<unat o1 + unat l1} \<inter> {unat o2..<unat o2 + unat l2} \<noteq> {}"
proof -
  note e = unat_buffer_end [OF assms(1)] unat_buffer_end [OF assms(2)]
  have "overlapWith (buffer_subset o1 l1) (buffer_subset o2 l2) \<longleftrightarrow>
      unat o1 < unat o2 + unat l2 \<and> unat o2 < unat o1 + unat l1"
  proof -
    have "sint (ucast (buffer_offset (buffer_subset o1 l1)) :: u32) = int (unat o1)"
      "sint (buffer_end (buffer_subset o1 l1)) = int (unat o1 + unat l1)"
      "sint (ucast (buffer_offset (buffer_subset o2 l2)) :: u32) = int (unat o2)"
      "sint (buffer_end (buffer_subset o2 l2)) = int (unat o2 + unat l2)"
      using e assms(1,2) sint_small by (metis add_leD1 le_less_trans less_imp_le order.refl)+
    then show ?thesis
      unfolding overlapWith_def buffer_subset_fields(1) by (simp only: of_nat_less_iff) simp
  qed
  also have "\<dots> \<longleftrightarrow> {unat o1..<unat o1 + unat l1} \<inter> {unat o2..<unat o2 + unat l2} \<noteq> {}"
    using assms(3,4) by (auto simp: unat_eq_0 [symmetric] simp del: unat_eq_0)
  finally show ?thesis .
qed

theorem buffer_overlap_iff_witness:
  "overlapWith (buffer_subset 16 32) (buffer_subset 40 8) \<longleftrightarrow> {16 ..< 48 :: nat} \<inter> {40 ..< 48} \<noteq> {}"
  using buffer_overlap_iff [of 16 32 40 8] by simp

section \<open>Texture views\<close>

definition in_texture :: "view_desc \<Rightarrow> nat \<Rightarrow> nat \<Rightarrow> bool" where
  "in_texture desc total_mip_count total_array_size \<longleftrightarrow>
     0 < miplevelCount desc \<and> firstMiplevel desc + miplevelCount desc \<le> total_mip_count \<and>
     total_mip_count < 16 \<and>
     0 < arraySize desc \<and> firstArraySlice desc + arraySize desc \<le> total_array_size \<and>
     total_array_size < 4096"

text \<open>The plane, slice and level of every subresource of a view.\<close>

definition subresources :: "view_desc \<Rightarrow> u32 \<Rightarrow> (nat \<times> nat \<times> nat) set" where
  "subresources desc ignore_planar_mask =
     {(p, s, l). bit (getPlanarMask (format desc) AND NOT ignore_planar_mask) p \<and>
        s \<in> {firstArraySlice desc..<firstArraySlice desc + arraySize desc} \<and>
        l \<in> {firstMiplevel desc..<firstMiplevel desc + miplevelCount desc}}"

lemma getPlanarMask_bits: "bit (getPlanarMask f) p \<Longrightarrow> p < getPlanarCount f"
proof -
  assume b: "bit (getPlanarMask f) p"
  have c: "getPlanarMask f < 4" "getPlanarMask f = 1 \<or> getPlanarCount f = 2" "1 \<le> getPlanarCount f"
    by (simp_all add: getPlanarMask_def getPlanarCount_def)
  have "take_bit 2 (getPlanarMask f) = getPlanarMask f"
    by (rule less_mask_eq [unfolded take_bit_eq_mask [symmetric]]) (use c(1) in simp)
  then have "p < 2" using b by (metis bit_take_bit_iff)
  moreover have "p = 0" if "getPlanarMask f = 1" using b that by (simp add: bit_1_iff)
  ultimately show "p < getPlanarCount f" using c by auto
qed

lemma foldl_or_bits:
  "bit (foldl (\<lambda>b x. if c x then b OR push_bit (f x) 1 else b) acc xs :: 'a::len word) i \<longleftrightarrow>
     bit acc i \<or> i < LENGTH('a) \<and> (\<exists>x \<in> set xs. c x \<and> f x = i)"
  by (induction xs arbitrary: acc) (auto simp: bit_or_iff bit_shl_one bit_imp_le_length)

lemma subset_bits_bit:
  assumes "\<And>p. bit m p \<Longrightarrow> p < tp"
  shows "bit (subset_bits desc tp m tm ta) i \<longleftrightarrow> i < 64 \<and>
    (\<exists>p s l. bit m p \<and> s \<in> {firstArraySlice desc..<firstArraySlice desc + arraySize desc} \<and>
       l \<in> {firstMiplevel desc..<firstMiplevel desc + miplevelCount desc} \<and> p * ta * tm + s * tm + l = i)"
proof -
  have c: "push_bit p 1 AND m \<noteq> 0 \<longleftrightarrow> bit m p" for p
    by (subst and.commute) (rule and_shl_one_neq_0)
  have eq: "(\<lambda>bits (plane, arr, level). if push_bit plane 1 AND m \<noteq> 0
        then bits OR push_bit (plane * ta * tm + arr * tm + level) 1 else bits)
      = (\<lambda>bits x. if bit m (fst x)
        then bits OR push_bit (fst x * ta * tm + fst (snd x) * tm + snd (snd x)) 1 else bits)"
    by (auto simp: fun_eq_iff c)
  show ?thesis
    unfolding subset_bits_def eq foldl_or_bits using assms by fastforce
qed

text \<open>The bit number determines the subresource, and is below the bound of the mask.\<close>

lemma flat_index_inj:
  assumes "(l :: nat) < tm" "l' < tm" "s < ta" "s' < ta"
    and "p * ta * tm + s * tm + l = p' * ta * tm + s' * tm + l'"
  shows "p = p' \<and> s = s' \<and> l = l'"
proof -
  have e: "(p * ta + s) * tm + l = (p' * ta + s') * tm + l'" using assms(5) by (simp add: algebra_simps)
  then have "((p * ta + s) * tm + l) div tm = ((p' * ta + s') * tm + l') div tm" by simp
  then have q: "p * ta + s = p' * ta + s'" using assms(1,2) by simp
  then have l: "l = l'" using e by simp
  from q have "(p * ta + s) div ta = (p' * ta + s') div ta" by simp
  then have "p = p'" using assms(3,4) by simp
  then show ?thesis using q l by simp
qed

lemma flat_index_less:
  assumes "(l :: nat) < tm" "s < ta" "p < tp"
  shows "p * ta * tm + s * tm + l < tp * tm * ta"
proof -
  have "p * ta * tm + s * tm + l < p * ta * tm + s * tm + tm" using assms(1) by simp
  also have "\<dots> = (p * ta + Suc s) * tm" by (simp add: algebra_simps)
  also have "\<dots> \<le> (Suc p * ta) * tm" using assms(2) by (intro mult_right_mono) simp_all
  also have "\<dots> \<le> tp * ta * tm" using assms(3) by (intro mult_right_mono) simp_all
  finally show ?thesis by (simp add: mult.commute mult.left_commute)
qed

definition small_texture :: "view_desc \<Rightarrow> nat \<Rightarrow> nat \<Rightarrow> bool" where
  "small_texture desc tm ta \<longleftrightarrow> getPlanarCount (format desc) * tm * ta \<le> 62"

lemma texture_subset_small:
  assumes "small_texture desc tm ta"
  shows "encoded_tag (texture_subset desc tm ta ig) = 3"
    "bitmask_mask (texture_subset desc tm ta ig) =
       take_bit 62 (subset_bits desc (getPlanarCount (format desc))
         (getPlanarMask (format desc) AND NOT ig) tm ta)"
  using assms by (simp_all add: texture_subset_def small_texture_def Let_def fld_or fld_put_same fld_put_other fld_tag)

lemma texture_subset_large:
  assumes "\<not> small_texture desc tm ta" "in_texture desc tm ta"
  shows "encoded_tag (texture_subset desc tm ta ig) = 2"
    "texture_planar_mask (texture_subset desc tm ta ig) = take_bit 30 (ucast (getPlanarMask (format desc) AND NOT ig))"
    "texture_mip_start (texture_subset desc tm ta ig) = of_nat (firstMiplevel desc)"
    "texture_mip_end (texture_subset desc tm ta ig) = of_nat (firstMiplevel desc + miplevelCount desc)"
    "texture_array_start (texture_subset desc tm ta ig) = of_nat (firstArraySlice desc)"
    "texture_array_end (texture_subset desc tm ta ig) = of_nat (firstArraySlice desc + arraySize desc)"
proof -
  let ?w = "texture_subset desc tm ta ig"
  have w: "?w = 0b10 OR put_fld 32 4 (of_nat (firstMiplevel desc))
             OR put_fld 48 4 (of_nat (firstMiplevel desc + miplevelCount desc))
             OR put_fld 36 12 (of_nat (firstArraySlice desc))
             OR put_fld 52 12 (of_nat (firstArraySlice desc + arraySize desc))
             OR put_fld 2 30 (ucast (getPlanarMask (format desc) AND NOT ig))"
    using assms(1) by (simp add: texture_subset_def small_texture_def Let_def)
  note r = fld_or fld_put_same fld_put_other fld_tag
  show "encoded_tag ?w = 2" "texture_planar_mask ?w = take_bit 30 (ucast (getPlanarMask (format desc) AND NOT ig))"
    unfolding w by (simp_all add: r)
  have b: "firstMiplevel desc < 2 ^ 4" "firstMiplevel desc + miplevelCount desc < 2 ^ 4"
    "firstArraySlice desc < 2 ^ 12" "firstArraySlice desc + arraySize desc < 2 ^ 12"
    using assms(2) by (simp_all add: in_texture_def)
  show "texture_mip_start ?w = of_nat (firstMiplevel desc)"
    unfolding w using take_bit_of_nat_u64 [OF b(1)] by (simp add: r)
  show "texture_mip_end ?w = of_nat (firstMiplevel desc + miplevelCount desc)"
    unfolding w using take_bit_of_nat_u64 [OF b(2)] by (simp add: r del: of_nat_add)
  show "texture_array_start ?w = of_nat (firstArraySlice desc)"
    unfolding w using take_bit_of_nat_u64 [OF b(3)] by (simp add: r)
  show "texture_array_end ?w = of_nat (firstArraySlice desc + arraySize desc)"
    unfolding w using take_bit_of_nat_u64 [OF b(4)] by (simp add: r del: of_nat_add)
qed

lemma in_textureD:
  assumes "in_texture desc tm ta"
  shows "l < firstMiplevel desc + miplevelCount desc \<Longrightarrow> l < tm"
    and "s < firstArraySlice desc + arraySize desc \<Longrightarrow> s < ta"
  using assms by (auto simp: in_texture_def)

lemma planar_masked: "bit (getPlanarMask f AND NOT ig) p \<Longrightarrow> p < getPlanarCount f"
  using getPlanarMask_bits by (simp add: bit_simps)

lemma small_overlap:
  assumes sm: "small_texture d1 tm ta" and t: "in_texture d1 tm ta" "in_texture d2 tm ta"
    and pl: "getPlanarCount (format d1) = getPlanarCount (format d2)"
  shows "bitmask_mask (texture_subset d1 tm ta ig1) AND bitmask_mask (texture_subset d2 tm ta ig2) \<noteq> 0
    \<longleftrightarrow> subresources d1 ig1 \<inter> subresources d2 ig2 \<noteq> {}"
    (is "?a AND ?b \<noteq> 0 \<longleftrightarrow> _")
proof -
  have sm2: "small_texture d2 tm ta" using sm pl by (simp add: small_texture_def)
  have ba: "bit (bitmask_mask (texture_subset d tm ta ig)) i \<longleftrightarrow>
      i < 62 \<and> (\<exists>p s l. (p, s, l) \<in> subresources d ig \<and> p * ta * tm + s * tm + l = i)"
    if "small_texture d tm ta" for d ig i
    unfolding texture_subset_small [OF that] bit_take_bit_iff
    by (subst subset_bits_bit) (auto simp: subresources_def planar_masked)
  have "?a AND ?b \<noteq> 0 \<longleftrightarrow> (\<exists>i. bit ?a i \<and> bit ?b i)"
    unfolding word_and_neq_0_bit using bit_imp_le_length [of ?a] by blast
  also have "\<dots> \<longleftrightarrow> subresources d1 ig1 \<inter> subresources d2 ig2 \<noteq> {}"
  proof
    assume "\<exists>i. bit ?a i \<and> bit ?b i"
    then obtain p s l p' s' l' where
      *: "(p, s, l) \<in> subresources d1 ig1" "(p', s', l') \<in> subresources d2 ig2"
      "p * ta * tm + s * tm + l = p' * ta * tm + s' * tm + l'"
      unfolding ba [OF sm] ba [OF sm2] by metis
    then have "p = p' \<and> s = s' \<and> l = l'"
      using in_textureD [OF t(1)] in_textureD [OF t(2)]
      by (intro flat_index_inj [of l tm l' s ta s']) (auto simp: subresources_def)
    then show "subresources d1 ig1 \<inter> subresources d2 ig2 \<noteq> {}" using * by blast
  next
    assume "subresources d1 ig1 \<inter> subresources d2 ig2 \<noteq> {}"
    then obtain p s l where *: "(p, s, l) \<in> subresources d1 ig1" "(p, s, l) \<in> subresources d2 ig2"
      by auto
    have "p * ta * tm + s * tm + l < getPlanarCount (format d1) * tm * ta"
      using *(1) in_textureD [OF t(1)] planar_masked
      by (intro flat_index_less) (auto simp: subresources_def)
    then have "p * ta * tm + s * tm + l < 62" using sm by (simp add: small_texture_def)
    then show "\<exists>i. bit ?a i \<and> bit ?b i" unfolding ba [OF sm] ba [OF sm2] using * by blast
  qed
  finally show ?thesis .
qed

lemma planar_overlap:
  fixes m1 m2 :: u32
  assumes "\<And>p. bit m1 p \<Longrightarrow> p < 30"
  shows "take_bit 30 (ucast m1 :: u64) AND take_bit 30 (ucast m2) \<noteq> 0 \<longleftrightarrow> (\<exists>p. bit m1 p \<and> bit m2 p)"
proof -
  have "bit (take_bit 30 (ucast m :: u64)) p \<longleftrightarrow> p < 30 \<and> bit m p" for m :: u32 and p
    by (auto simp: bit_simps dest: bit_imp_le_length)
  then show ?thesis unfolding word_and_neq_0_bit using assms by fastforce
qed

lemma large_overlap:
  assumes lg: "\<not> small_texture d1 tm ta" and t: "in_texture d1 tm ta" "in_texture d2 tm ta"
    and pl: "getPlanarCount (format d1) = getPlanarCount (format d2)"
  shows "overlapWith (texture_subset d1 tm ta ig1) (texture_subset d2 tm ta ig2)
    \<longleftrightarrow> subresources d1 ig1 \<inter> subresources d2 ig2 \<noteq> {}"
proof -
  have lg2: "\<not> small_texture d2 tm ta" using lg pl by (simp add: small_texture_def)
  have cnt: "getPlanarCount f \<le> 2" for f by (simp add: getPlanarCount_def)
  have p30: "p < 30" if "bit (getPlanarMask (format d1) AND NOT ig1) p" for p
    using planar_masked [OF that] cnt [of "format d1"] by simp
  note f1 = texture_subset_large [OF lg t(1)] and f2 = texture_subset_large [OF lg2 t(2)]
  have lt: "(of_nat m :: u64) < of_nat n \<longleftrightarrow> m < n" if "m < 2 ^ 12" "n < 2 ^ 12" for m n
    by (rule of_nat_less_u64) (use that in simp_all)
  note b = t [unfolded in_texture_def]
  have "overlapWith (texture_subset d1 tm ta ig1) (texture_subset d2 tm ta ig2) \<longleftrightarrow>
      (\<exists>p. bit (getPlanarMask (format d1) AND NOT ig1) p \<and> bit (getPlanarMask (format d2) AND NOT ig2) p) \<and>
      firstMiplevel d1 < firstMiplevel d2 + miplevelCount d2 \<and>
      firstMiplevel d2 < firstMiplevel d1 + miplevelCount d1 \<and>
      firstArraySlice d1 < firstArraySlice d2 + arraySize d2 \<and>
      firstArraySlice d2 < firstArraySlice d1 + arraySize d1"
  proof -
    have "take_bit 30 (ucast (getPlanarMask (format d1) AND NOT ig1) :: u64) AND
        take_bit 30 (ucast (getPlanarMask (format d2) AND NOT ig2)) \<noteq> 0 \<longleftrightarrow>
      (\<exists>p. bit (getPlanarMask (format d1) AND NOT ig1) p \<and> bit (getPlanarMask (format d2) AND NOT ig2) p)"
      using p30 by (rule planar_overlap)
    then show ?thesis
      unfolding overlapWith_def f1 f2 using b by (subst (1 2 3 4) lt) simp_all
  qed
  also have "\<dots> \<longleftrightarrow> subresources d1 ig1 \<inter> subresources d2 ig2 \<noteq> {}"
  proof -
    have ov: "{a..<a + m} \<inter> {c..<c + n} \<noteq> {} \<longleftrightarrow> a < c + n \<and> c < a + m" if "0 < m" "0 < n" for a c m n :: nat
      using that by auto
    have "subresources d1 ig1 \<inter> subresources d2 ig2 \<noteq> {} \<longleftrightarrow>
        (\<exists>p. bit (getPlanarMask (format d1) AND NOT ig1) p \<and> bit (getPlanarMask (format d2) AND NOT ig2) p) \<and>
        {firstArraySlice d1..<firstArraySlice d1 + arraySize d1} \<inter>
          {firstArraySlice d2..<firstArraySlice d2 + arraySize d2} \<noteq> {} \<and>
        {firstMiplevel d1..<firstMiplevel d1 + miplevelCount d1} \<inter>
          {firstMiplevel d2..<firstMiplevel d2 + miplevelCount d2} \<noteq> {}"
      unfolding subresources_def by blast
    then show ?thesis using ov b by (auto simp: in_texture_def)
  qed
  finally show ?thesis .
qed

text \<open>
  C19.  Two views of one texture overlap in the code exactly when they share a subresource,
  whichever of the two encodings the texture uses, planes excluded by the caller included.
\<close>

theorem texture_overlap_iff:
  assumes "in_texture d1 tm ta" "in_texture d2 tm ta"
    and "getPlanarCount (format d1) = getPlanarCount (format d2)"
  shows "overlapWith (texture_subset d1 tm ta ig1) (texture_subset d2 tm ta ig2)
    \<longleftrightarrow> subresources d1 ig1 \<inter> subresources d2 ig2 \<noteq> {}"
proof (cases "small_texture d1 tm ta")
  case True
  moreover from this have "small_texture d2 tm ta" using assms(3) by (simp add: small_texture_def)
  ultimately have "overlapWith (texture_subset d1 tm ta ig1) (texture_subset d2 tm ta ig2) \<longleftrightarrow>
      bitmask_mask (texture_subset d1 tm ta ig1) AND bitmask_mask (texture_subset d2 tm ta ig2) \<noteq> 0"
    by (simp add: overlapWith_def texture_subset_small)
  then show ?thesis using small_overlap [OF True assms] by simp
qed (use large_overlap assms in blast)

theorem texture_overlap_iff_witness:
  "\<not> overlapWith
     (texture_subset \<lparr>format = WMTPixelFormatDepth32Float_Stencil8, vtype = WMTTextureType2DArray, firstMiplevel = 0, miplevelCount = 2,
        firstArraySlice = 0, arraySize = 1\<rparr> 12 6 2)
     (texture_subset \<lparr>format = WMTPixelFormatX32_Stencil8, vtype = WMTTextureType2DArray, firstMiplevel = 0, miplevelCount = 12,
        firstArraySlice = 0, arraySize = 6\<rparr> 12 6 0)"
proof -
  have "bit (getPlanarMask WMTPixelFormatDepth32Float_Stencil8 AND NOT 2) p \<Longrightarrow>
      bit (getPlanarMask WMTPixelFormatX32_Stencil8 AND NOT 0) p \<Longrightarrow> False" for p
    by (auto simp: getPlanarMask_def WMTPixelFormatDepth32Float_Stencil8_def WMTPixelFormatX32_Stencil8_def
        WMTPixelFormatDepth24Unorm_Stencil8_def WMTPixelFormatX32G8X32_def WMTPixelFormatR32X8X32_def
        WMTPixelFormatR001Swizzle_def WMTPixelFormat0R01Swizzle_def bit_simps)
  moreover have "getPlanarCount WMTPixelFormatDepth32Float_Stencil8 = getPlanarCount WMTPixelFormatX32_Stencil8"
    by (simp add: getPlanarCount_def)
  ultimately show ?thesis
    by (subst texture_overlap_iff) (auto simp: in_texture_def subresources_def)
qed

text \<open>
  A whole resource overlaps everything, but not the other way round: asked of a buffer
  range, the test reads the empty range out of the untagged word.
\<close>

theorem whole_resource_asymmetric:
  "overlapWith whole_resource s \<and>
   (unat off + unat len < 2 ^ 31 \<longrightarrow> \<not> overlapWith (buffer_subset off len) whole_resource)"
proof -
  have z: "buffer_end whole_resource = 0" "encoded_tag whole_resource = 0"
    by (simp_all add: buffer_end_def whole_resource_def fld_def)
  have "\<not> overlapWith (buffer_subset off len) whole_resource" if "unat off + unat len < 2 ^ 31"
    unfolding overlapWith_def buffer_subset_fields(1) z
    using sint_small [of "ucast (buffer_offset (buffer_subset off len))"] unat_buffer_end(1) [OF that] that
    by simp
  then show ?thesis by (simp add: overlapWith_def z)
qed

theorem whole_resource_asymmetric_witness:
  "overlapWith whole_resource (buffer_subset 16 16) \<and> \<not> overlapWith (buffer_subset 16 16) whole_resource"
  using whole_resource_asymmetric [of "buffer_subset 16 16" 16 16] by simp

end
