(* ===== verification/ResourceViews.thy ===== *)
theory ResourceViews
  imports ResourceDesc Subresource
begin

text \<open>
  Views of textures: \<open>ExtractEntireResourceViewDescription\<close>
  (\<open>src/d3d12/d3d12_resource_helper.cpp\<close>), the lowering of view descriptions to Metal
  texture views and the swizzle encoding (\<open>src/d3d12/d3d12_texture.cpp\<close>,
  \<open>src/winemetal/winemetal.h\<close>), and the view table of a texture
  (\<open>src/dxmt/dxmt_texture.cpp\<close>).  The theory proves that the default views cover the
  resource, what each lowering selects, that swizzles compose, and that the view table
  never holds a view twice nor moves one.
\<close>

section \<open>View descriptions\<close>

text \<open>A view description without the format: the active member of the union.\<close>

datatype dsv_dim =
    DSV_TEXTURE1D u32 | DSV_TEXTURE1DARRAY u32 u32 u32
  | DSV_TEXTURE2D u32 | DSV_TEXTURE2DARRAY u32 u32 u32
  | DSV_TEXTURE2DMS | DSV_TEXTURE2DMSARRAY u32 u32 | DSV_other

datatype rtv_dim =
    RTV_TEXTURE1D u32 | RTV_TEXTURE1DARRAY u32 u32 u32
  | RTV_TEXTURE2D u32 u32 | RTV_TEXTURE2DARRAY u32 u32 u32 u32
  | RTV_TEXTURE2DMS | RTV_TEXTURE2DMSARRAY u32 u32
  | RTV_TEXTURE3D u32 u32 u32 | RTV_other

datatype srv_dim =
    SRV_TEXTURE1D u32 u32 | SRV_TEXTURE1DARRAY u32 u32 u32 u32
  | SRV_TEXTURE2D u32 u32 u32 | SRV_TEXTURE2DARRAY u32 u32 u32 u32 u32
  | SRV_TEXTURECUBE u32 u32 | SRV_TEXTURECUBEARRAY u32 u32 u32 u32
  | SRV_TEXTURE2DMS | SRV_TEXTURE2DMSARRAY u32 u32
  | SRV_TEXTURE3D u32 u32 | SRV_other

datatype uav_dim =
    UAV_TEXTURE1D u32 | UAV_TEXTURE1DARRAY u32 u32 u32
  | UAV_TEXTURE2D u32 u32 | UAV_TEXTURE2DARRAY u32 u32 u32 u32
  | UAV_TEXTURE3D u32 u32 u32 | UAV_other

text \<open>
  Arguments: mip slice (or most detailed mip and mip levels), first array slice, array size,
  plane slice; for volumes first depth slice and depth.
\<close>

record dsv_desc =
  dsv_Format :: u32
  dsv_Flags :: u32
  dsv_View :: dsv_dim

record rtv_desc =
  rtv_Format :: u32
  rtv_View :: rtv_dim

record srv_desc =
  srv_Format :: u32
  Shader4ComponentMapping :: u32
  srv_View :: srv_dim

record uav_desc =
  uav_Format :: u32
  uav_View :: uav_dim

definition kDefaultShader4Component :: u32 where
  "kDefaultShader4Component = 0b1011010001000"

section \<open>The view of an entire resource\<close>

definition ExtractDSV :: "resource_desc \<Rightarrow> hresult + dsv_desc" where
  "ExtractDSV rd =
     (let n = ucast (DepthOrArraySize rd);
          ok = (\<lambda>v. Inr \<lparr>dsv_Format = Format rd, dsv_Flags = 0, dsv_View = v\<rparr>)
      in case Dimension rd of
           D3D12_RESOURCE_DIMENSION_BUFFER \<Rightarrow> Inl E_FAIL
         | D3D12_RESOURCE_DIMENSION_TEXTURE1D \<Rightarrow>
             ok (if DepthOrArraySize rd > 1 then DSV_TEXTURE1DARRAY 0 0 n else DSV_TEXTURE1D 0)
         | D3D12_RESOURCE_DIMENSION_TEXTURE2D \<Rightarrow>
             ok (if SampleCount rd > 1
                 then if DepthOrArraySize rd > 1 then DSV_TEXTURE2DMSARRAY 0 n else DSV_TEXTURE2DMS
                 else if DepthOrArraySize rd > 1 then DSV_TEXTURE2DARRAY 0 0 n else DSV_TEXTURE2D 0)
         | D3D12_RESOURCE_DIMENSION_TEXTURE3D \<Rightarrow> Inl E_FAIL
         | _ \<Rightarrow> Inl E_INVALIDARG)"

definition ExtractRTV :: "resource_desc \<Rightarrow> hresult + rtv_desc" where
  "ExtractRTV rd =
     (let n = ucast (DepthOrArraySize rd);
          ok = (\<lambda>v. Inr \<lparr>rtv_Format = Format rd, rtv_View = v\<rparr>)
      in case Dimension rd of
           D3D12_RESOURCE_DIMENSION_BUFFER \<Rightarrow> Inl E_FAIL
         | D3D12_RESOURCE_DIMENSION_TEXTURE1D \<Rightarrow>
             ok (if DepthOrArraySize rd > 1 then RTV_TEXTURE1DARRAY 0 0 n else RTV_TEXTURE1D 0)
         | D3D12_RESOURCE_DIMENSION_TEXTURE2D \<Rightarrow>
             ok (if SampleCount rd > 1
                 then if DepthOrArraySize rd > 1 then RTV_TEXTURE2DMSARRAY 0 n else RTV_TEXTURE2DMS
                 else if DepthOrArraySize rd > 1 then RTV_TEXTURE2DARRAY 0 0 n 0 else RTV_TEXTURE2D 0 0)
         | D3D12_RESOURCE_DIMENSION_TEXTURE3D \<Rightarrow> ok (RTV_TEXTURE3D 0 0 n)
         | _ \<Rightarrow> Inl E_INVALIDARG)"

definition ExtractSRV :: "resource_desc \<Rightarrow> hresult + srv_desc" where
  "ExtractSRV rd =
     (let n = ucast (DepthOrArraySize rd); mips = ucast (MipLevels rd);
          ok = (\<lambda>v. Inr \<lparr>srv_Format = Format rd, Shader4ComponentMapping = kDefaultShader4Component,
                        srv_View = v\<rparr>)
      in case Dimension rd of
           D3D12_RESOURCE_DIMENSION_BUFFER \<Rightarrow> Inl E_FAIL
         | D3D12_RESOURCE_DIMENSION_TEXTURE1D \<Rightarrow>
             ok (if DepthOrArraySize rd > 1 then SRV_TEXTURE1DARRAY 0 mips 0 n else SRV_TEXTURE1D 0 mips)
         | D3D12_RESOURCE_DIMENSION_TEXTURE2D \<Rightarrow>
             ok (if SampleCount rd > 1
                 then if DepthOrArraySize rd > 1 then SRV_TEXTURE2DMSARRAY 0 n else SRV_TEXTURE2DMS
                 else if DepthOrArraySize rd > 1 then SRV_TEXTURE2DARRAY 0 mips 0 n 0
                      else SRV_TEXTURE2D 0 mips 0)
         | D3D12_RESOURCE_DIMENSION_TEXTURE3D \<Rightarrow> ok (SRV_TEXTURE3D 0 mips)
         | _ \<Rightarrow> Inl E_INVALIDARG)"

definition ExtractUAV :: "resource_desc \<Rightarrow> hresult + uav_desc" where
  "ExtractUAV rd =
     (let n = ucast (DepthOrArraySize rd);
          ok = (\<lambda>v. Inr \<lparr>uav_Format = Format rd, uav_View = v\<rparr>)
      in case Dimension rd of
           D3D12_RESOURCE_DIMENSION_BUFFER \<Rightarrow> Inl E_FAIL
         | D3D12_RESOURCE_DIMENSION_TEXTURE1D \<Rightarrow>
             ok (if DepthOrArraySize rd > 1 then UAV_TEXTURE1DARRAY 0 0 n else UAV_TEXTURE1D 0)
         | D3D12_RESOURCE_DIMENSION_TEXTURE2D \<Rightarrow>
             (if SampleCount rd > 1 then Inl E_FAIL
              else ok (if DepthOrArraySize rd > 1 then UAV_TEXTURE2DARRAY 0 0 n 0 else UAV_TEXTURE2D 0 0))
         | D3D12_RESOURCE_DIMENSION_TEXTURE3D \<Rightarrow> ok (UAV_TEXTURE3D 0 0 n)
         | _ \<Rightarrow> Inl E_INVALIDARG)"

section \<open>Swizzles\<close>

text \<open>The macros of \<open>winemetal.h\<close>: three bits per channel above the base format.\<close>

definition DECODE_FORMAT_COMPONENT_SWIZZLE :: "u32 \<Rightarrow> nat \<Rightarrow> u32 \<Rightarrow> u32" where
  "DECODE_FORMAT_COMPONENT_SWIZZLE fmt component base =
     (base + (drop_bit (21 - 3 * component) fmt AND 0x7)) mod 6"

definition GET_SWIZZLE :: "nat \<Rightarrow> u32 \<Rightarrow> u32" where
  "GET_SWIZZLE c fmt = DECODE_FORMAT_COMPONENT_SWIZZLE fmt c (of_nat (c + 2))"

definition ENCODE_FORMAT_COMPONENT_OFFSET :: "u32 \<Rightarrow> u32 \<Rightarrow> u32" where
  "ENCODE_FORMAT_COMPONENT_OFFSET target base = (target + (6 - base)) mod 6"

definition ENCODE_FORMAT_SWIZZLE :: "u32 \<Rightarrow> u32 \<Rightarrow> u32 \<Rightarrow> u32 \<Rightarrow> u32 \<Rightarrow> u32" where
  "ENCODE_FORMAT_SWIZZLE base_format r g b a =
     (base_format AND 0xfff) OR push_bit 21 (ENCODE_FORMAT_COMPONENT_OFFSET r 2)
       OR push_bit 18 (ENCODE_FORMAT_COMPONENT_OFFSET g 3)
       OR push_bit 15 (ENCODE_FORMAT_COMPONENT_OFFSET b 4)
       OR push_bit 12 (ENCODE_FORMAT_COMPONENT_OFFSET a 5)"

definition DX2MTL_SWIZZLE :: "u32 \<Rightarrow> u32" where
  "DX2MTL_SWIZZLE x = (x + 2) mod 6"

definition EncodeComponentMapping :: "u32 \<Rightarrow> u32 \<Rightarrow> u32" where
  "EncodeComponentMapping m fmt =
     (let MappingR = DX2MTL_SWIZZLE (m AND 0x7);
          MappingG = DX2MTL_SWIZZLE (drop_bit 3 m AND 0x7);
          MappingB = DX2MTL_SWIZZLE (drop_bit 6 m AND 0x7);
          MappingA = DX2MTL_SWIZZLE (drop_bit 9 m AND 0x7);
          Map = [0, 1, GET_SWIZZLE 0 fmt, GET_SWIZZLE 1 fmt, GET_SWIZZLE 2 fmt, GET_SWIZZLE 3 fmt]
      in ENCODE_FORMAT_SWIZZLE fmt (Map ! unat MappingR) (Map ! unat MappingG)
           (Map ! unat MappingB) (Map ! unat MappingA))"

section \<open>The view table of a texture\<close>

text \<open>\<open>WMTTextureInfo\<close> (the fields used here) and \<open>Texture\<close> with its \<open>viewDescriptors_\<close>.\<close>

record texture_info =
  pixel_format :: u32
  ti_width :: u32
  ti_height :: u32
  ti_depth :: u32
  array_length :: u32
  ti_type :: texture_type
  mipmap_level_count :: nat
  sample_count :: nat
  usage :: u8

record texture =
  info :: texture_info
  viewDescriptors :: "view_desc list"

record view_key =
  key_index :: nat
  key_mip_count :: nat
  key_mip_start :: nat
  key_array_start :: nat
  key_mip_end :: nat
  key_array_end :: nat

definition TextureViewKey :: "view_desc \<Rightarrow> nat \<Rightarrow> nat \<Rightarrow> view_key" where
  "TextureViewKey d index total_mip_count =
     \<lparr>key_index = index mod 2 ^ 28, key_mip_count = total_mip_count mod 2 ^ 4,
      key_mip_start = firstMiplevel d mod 2 ^ 4, key_array_start = firstArraySlice d mod 2 ^ 12,
      key_mip_end = (firstMiplevel d + miplevelCount d) mod 2 ^ 4,
      key_array_end = (firstArraySlice d + arraySize d) mod 2 ^ 12\<rparr>"

fun find_view :: "view_desc \<Rightarrow> view_desc list \<Rightarrow> nat" where
  "find_view d [] = 0"
| "find_view d (v # vs) = (if v = d then 0 else Suc (find_view d vs))"

definition createView :: "view_desc \<Rightarrow> texture \<Rightarrow> view_key \<times> texture" where
  "createView d tex =
     (let i = find_view d (viewDescriptors tex);
          key = TextureViewKey d i (mipmap_level_count (info tex))
      in if i < length (viewDescriptors tex) then (key, tex)
         else (key, tex\<lparr>viewDescriptors := viewDescriptors tex @ [d]\<rparr>))"

definition arrayLength :: "texture_info \<Rightarrow> u32" where
  "arrayLength ti =
     (case ti_type ti of
        WMTTextureTypeCubeArray \<Rightarrow> array_length ti * 6
      | WMTTextureTypeCube \<Rightarrow> array_length ti * 6
      | _ \<Rightarrow> array_length ti)"

text \<open>Assigning to the bit fields of a view descriptor keeps the low 4 and 12 bits.\<close>

definition mk_view :: "u32 \<Rightarrow> texture_type \<Rightarrow> u32 \<Rightarrow> u32 \<Rightarrow> u32 \<Rightarrow> u32 \<Rightarrow> view_desc" where
  "mk_view fmt ty first_mip mips first_slice slices =
     \<lparr>format = take_bit 24 fmt, vtype = ty, firstMiplevel = unat first_mip mod 2 ^ 4,
      miplevelCount = unat mips mod 2 ^ 4, firstArraySlice = unat first_slice mod 2 ^ 12,
      arraySize = unat slices mod 2 ^ 12\<rparr>"

definition ORIGINAL_FORMAT :: "u32 \<Rightarrow> u32" where
  "ORIGINAL_FORMAT fmt = fmt AND NOT (push_bit 12 0b111111111111)"

definition Texture_construct :: "texture_info \<Rightarrow> texture" where
  "Texture_construct ti =
     \<lparr>info = ti,
      viewDescriptors = [mk_view (ORIGINAL_FORMAT (pixel_format ti)) (ti_type ti) 0
         (of_nat (mipmap_level_count ti)) 0 (arrayLength ti)]\<rparr>"

definition fullView :: "texture \<Rightarrow> view_key" where
  "fullView tex = TextureViewKey (viewDescriptors (Texture_construct (info tex)) ! 0) 0
     (mipmap_level_count (info tex))"

definition view_array :: "texture_type \<Rightarrow> bool" where
  "view_array ty = (case ty of WMTTextureType1DArray \<Rightarrow> True | WMTTextureType2DArray \<Rightarrow> True
     | WMTTextureTypeCubeArray \<Rightarrow> True | WMTTextureType2DMultisampleArray \<Rightarrow> True | _ \<Rightarrow> False)"

definition checkViewUseArray :: "view_key \<Rightarrow> bool \<Rightarrow> texture \<Rightarrow> view_key \<times> texture" where
  "checkViewUseArray key isArray tex =
     (let view = viewDescriptors tex ! key_index key
      in if view_array (vtype view) \<noteq> isArray then
           case vtype view of
             WMTTextureType1D \<Rightarrow> createView (view\<lparr>vtype := WMTTextureType1DArray, arraySize := 1\<rparr>) tex
           | WMTTextureType1DArray \<Rightarrow> createView (view\<lparr>vtype := WMTTextureType1D, arraySize := 1\<rparr>) tex
           | WMTTextureType2D \<Rightarrow> createView (view\<lparr>vtype := WMTTextureType2DArray, arraySize := 1\<rparr>) tex
           | WMTTextureType2DArray \<Rightarrow> createView (view\<lparr>vtype := WMTTextureType2D, arraySize := 1\<rparr>) tex
           | WMTTextureType2DMultisample \<Rightarrow>
               createView (view\<lparr>vtype := WMTTextureType2DMultisampleArray, arraySize := 1\<rparr>) tex
           | WMTTextureType2DMultisampleArray \<Rightarrow>
               createView (view\<lparr>vtype := WMTTextureType2DMultisample, arraySize := 1\<rparr>) tex
           | WMTTextureTypeCube \<Rightarrow> createView (view\<lparr>vtype := WMTTextureTypeCubeArray, arraySize := 6\<rparr>) tex
           | WMTTextureTypeCubeArray \<Rightarrow> createView (view\<lparr>vtype := WMTTextureTypeCube, arraySize := 6\<rparr>) tex
           | _ \<Rightarrow> (key, tex)
         else (key, tex))"

definition checkViewUseFormat :: "view_key \<Rightarrow> u32 \<Rightarrow> texture \<Rightarrow> view_key \<times> texture" where
  "checkViewUseFormat key fmt tex =
     (let view = viewDescriptors tex ! key_index key
      in if format view \<noteq> fmt then createView (view\<lparr>format := take_bit 24 fmt\<rparr>) tex else (key, tex))"

section \<open>Lowering\<close>

text \<open>
  What \<open>Create*View\<close> of \<open>MTLD3D12Texture\<close> put into the view descriptor; \<open>Abort\<close> is
  \<open>IMPLEMENT_ME\<close>.  \<open>rd\<close> is \<open>desc_\<close> and \<open>q\<close> the result of
  \<open>MTLQueryDXGIFormat\<close> for a format, which depends on the device.
\<close>

datatype 'a outcome = Done 'a | Fails hresult | Abort

definition all_ones :: u32 where "all_ones = NOT 0"

definition srv_mips :: "resource_desc \<Rightarrow> u32 \<Rightarrow> u32 \<Rightarrow> u32" where
  "srv_mips rd first mips = (if mips = all_ones then ucast (MipLevels rd) - first else mips)"

definition srv_slices :: "resource_desc \<Rightarrow> u32 \<Rightarrow> u32 \<Rightarrow> u32" where
  "srv_slices rd first n = (if n = all_ones then ucast (DepthOrArraySize rd) - first else n)"

definition lowerSRV :: "resource_desc \<Rightarrow> u32 \<Rightarrow> srv_dim \<Rightarrow> view_desc outcome" where
  "lowerSRV rd fmt v =
     (case v of
        SRV_TEXTURE1D m n \<Rightarrow> Done (mk_view fmt WMTTextureType2D m (srv_mips rd m n) 0 1)
      | SRV_TEXTURE1DARRAY m n f k \<Rightarrow>
          Done (mk_view fmt WMTTextureType2DArray m (srv_mips rd m n) f (srv_slices rd f k))
      | SRV_TEXTURE2D m n pl \<Rightarrow> Done (mk_view fmt WMTTextureType2D m (srv_mips rd m n) 0 1)
      | SRV_TEXTURE2DARRAY m n f k pl \<Rightarrow>
          Done (mk_view fmt WMTTextureType2DArray m (srv_mips rd m n) f (srv_slices rd f k))
      | SRV_TEXTURECUBE m n \<Rightarrow> Done (mk_view fmt WMTTextureTypeCube m (srv_mips rd m n) 0 6)
      | SRV_TEXTURECUBEARRAY m n face cubes \<Rightarrow>
          Done (mk_view fmt WMTTextureTypeCubeArray m (srv_mips rd m n) 0
                 (if cubes = all_ones then ucast (DepthOrArraySize rd) - face else cubes * 6))
      | SRV_TEXTURE2DMS \<Rightarrow> Done (mk_view fmt WMTTextureType2DMultisample 0 1 0 1)
      | SRV_TEXTURE2DMSARRAY f k \<Rightarrow>
          Done (mk_view fmt WMTTextureType2DMultisampleArray 0 1 f (srv_slices rd f k))
      | SRV_TEXTURE3D m n \<Rightarrow> Done (mk_view fmt WMTTextureType3D m (srv_mips rd m n) 0 1)
      | SRV_other \<Rightarrow> Fails E_INVALIDARG)"

definition lowerUAV :: "resource_desc \<Rightarrow> u32 \<Rightarrow> uav_dim \<Rightarrow> view_desc outcome" where
  "lowerUAV rd fmt v =
     (case v of
        UAV_TEXTURE1D m \<Rightarrow> Done (mk_view fmt WMTTextureType2D m 1 0 1)
      | UAV_TEXTURE2D m pl \<Rightarrow> Done (mk_view fmt WMTTextureType2D m 1 0 1)
      | UAV_TEXTURE1DARRAY m f k \<Rightarrow> Done (mk_view fmt WMTTextureType2DArray m 1 f (srv_slices rd f k))
      | UAV_TEXTURE2DARRAY m f k pl \<Rightarrow> Done (mk_view fmt WMTTextureType2DArray m 1 f (srv_slices rd f k))
      | UAV_TEXTURE3D m w k \<Rightarrow> Done (mk_view fmt WMTTextureType3D m 1 0 1)
      | UAV_other \<Rightarrow> Fails E_INVALIDARG)"

text \<open>\<open>MTL_RENDER_TARGET_DESC\<close>; the view is the key passed to \<open>AddRenderTarget\<close>.\<close>

record render_target_desc =
  rt_View :: view_key
  rt_DepthPlane :: u32
  rt_RenderTargetArrayLength :: u32
  rt_Flags :: u32
  rt_Width :: u32
  rt_Height :: u32

definition target_slices :: "texture \<Rightarrow> u32 \<Rightarrow> u32" where
  "target_slices tex k = (if k = all_ones then arrayLength (info tex) else k)"

text \<open>
  The view descriptor, whether \<open>createView\<close> is called for it, the depth plane and the
  array length of a render target view.
\<close>

definition lowerRTV ::
  "resource_desc \<Rightarrow> texture \<Rightarrow> u32 \<Rightarrow> rtv_dim \<Rightarrow> (view_desc \<times> bool \<times> u32 \<times> u32) outcome" where
  "lowerRTV rd tex fmt v =
     (let arr = (\<lambda>ty m f k. let d = mk_view fmt ty m 1 f (target_slices tex k)
                            in Done (d, True, 0, of_nat (arraySize d)))
      in case v of
        RTV_TEXTURE1D m \<Rightarrow> Done (mk_view fmt WMTTextureType2D m 1 0 1, True, 0, 0)
      | RTV_TEXTURE1DARRAY m f k \<Rightarrow> arr WMTTextureType2DArray m f k
      | RTV_TEXTURE2D m pl \<Rightarrow>
          if pl \<noteq> 0 then Abort else Done (mk_view fmt WMTTextureType2D m 1 0 1, True, 0, 0)
      | RTV_TEXTURE2DARRAY m f k pl \<Rightarrow> if pl \<noteq> 0 then Abort else arr WMTTextureType2DArray m f k
      | RTV_TEXTURE2DMS \<Rightarrow> Done (mk_view fmt WMTTextureType2DMultisample 0 1 0 1, True, 0, 0)
      | RTV_TEXTURE2DMSARRAY f k \<Rightarrow> arr WMTTextureType2DMultisampleArray 0 f k
      | RTV_TEXTURE3D m w k \<Rightarrow>
          (let d = mk_view fmt WMTTextureType3D m 1 0 1;
               ArraySize = max (ucast (drop_bit (unat m) (ucast (DepthOrArraySize rd) :: u32)) :: u16) 1
           in if k = 1 then Done (d, False, w, 1)
              else if w = 0 then Done (d, False, 0, ucast ArraySize)
              else Done (d, False, 0, 1))
      | RTV_other \<Rightarrow> Fails E_INVALIDARG)"

definition lowerDSV :: "texture \<Rightarrow> u32 \<Rightarrow> dsv_dim \<Rightarrow> (view_desc \<times> u32) outcome" where
  "lowerDSV tex fmt v =
     (let arr = (\<lambda>ty m f k. let d = mk_view fmt ty m 1 f (target_slices tex k)
                            in Done (d, of_nat (arraySize d)))
      in case v of
        DSV_TEXTURE1D m \<Rightarrow> Done (mk_view fmt WMTTextureType2D m 1 0 1, 0)
      | DSV_TEXTURE1DARRAY m f k \<Rightarrow> arr WMTTextureType2DArray m f k
      | DSV_TEXTURE2D m \<Rightarrow> Done (mk_view fmt WMTTextureType2D m 1 0 1, 0)
      | DSV_TEXTURE2DARRAY m f k \<Rightarrow> arr WMTTextureType2DArray m f k
      | DSV_TEXTURE2DMS \<Rightarrow> Done (mk_view fmt WMTTextureType2DMultisample 0 1 0 1, 0)
      | DSV_TEXTURE2DMSARRAY f k \<Rightarrow> arr WMTTextureType2DMultisampleArray 0 f k
      | DSV_other \<Rightarrow> Fails E_INVALIDARG)"

section \<open>Creating views\<close>

definition WMTPixelFormatDepth16Unorm :: u32 where "WMTPixelFormatDepth16Unorm = 250"
definition WMTPixelFormatDepth32Float :: u32 where "WMTPixelFormatDepth32Float = 252"

definition CreateShaderResourceView ::
  "(u32 \<Rightarrow> hresult + u32) \<Rightarrow> resource_desc \<Rightarrow> srv_desc option \<Rightarrow> texture \<Rightarrow> view_key outcome \<times> texture" where
  "CreateShaderResourceView q rd pDesc tex =
     (case (case pDesc of None \<Rightarrow> ExtractSRV rd
            | Some d \<Rightarrow> Inr (if srv_Format d = DXGI_FORMAT_UNKNOWN then d\<lparr>srv_Format := Format rd\<rparr> else d)) of
        Inl e \<Rightarrow> (Fails e, tex)
      | Inr d \<Rightarrow>
          (case q (srv_Format d) of
             Inl e \<Rightarrow> (Fails e, tex)
           | Inr pf \<Rightarrow>
               let base = (if pixel_format (info tex) = WMTPixelFormatDepth32Float \<or>
                              pixel_format (info tex) = WMTPixelFormatDepth16Unorm
                           then pixel_format (info tex) else pf);
                   fmt = EncodeComponentMapping (Shader4ComponentMapping d) base
               in case lowerSRV rd fmt (srv_View d) of
                    Done v \<Rightarrow> (case createView v tex of (key, tex) \<Rightarrow> (Done key, tex))
                  | Fails e \<Rightarrow> (Fails e, tex)
                  | Abort \<Rightarrow> (Abort, tex)))"

definition CreateUnorderedAccessView ::
  "(u32 \<Rightarrow> hresult + u32) \<Rightarrow> resource_desc \<Rightarrow> uav_desc option \<Rightarrow> texture \<Rightarrow> view_key outcome \<times> texture" where
  "CreateUnorderedAccessView q rd pDesc tex =
     (case (case pDesc of None \<Rightarrow> ExtractUAV rd
            | Some d \<Rightarrow> Inr (if uav_Format d = DXGI_FORMAT_UNKNOWN then d\<lparr>uav_Format := Format rd\<rparr> else d)) of
        Inl e \<Rightarrow> (Fails e, tex)
      | Inr d \<Rightarrow>
          (case q (uav_Format d) of
             Inl e \<Rightarrow> (Fails e, tex)
           | Inr pf \<Rightarrow>
               (case lowerUAV rd pf (uav_View d) of
                  Done v \<Rightarrow> (case createView v tex of (key, tex) \<Rightarrow> (Done key, tex))
                | Fails e \<Rightarrow> (Fails e, tex)
                | Abort \<Rightarrow> (Abort, tex))))"

definition mip_extent :: "u32 \<Rightarrow> nat \<Rightarrow> u32" where
  "mip_extent x m = max 1 (drop_bit m x)"

definition CreateRenderTargetView ::
  "(u32 \<Rightarrow> hresult + u32) \<Rightarrow> resource_desc \<Rightarrow> rtv_desc option \<Rightarrow> texture \<Rightarrow>
   render_target_desc outcome \<times> texture" where
  "CreateRenderTargetView q rd pDesc tex =
     (case (case pDesc of None \<Rightarrow> ExtractRTV rd
            | Some d \<Rightarrow> Inr (if rtv_Format d = DXGI_FORMAT_UNKNOWN then d\<lparr>rtv_Format := Format rd\<rparr> else d)) of
        Inl e \<Rightarrow> (Fails e, tex)
      | Inr d \<Rightarrow>
          (case q (rtv_Format d) of
             Inl e \<Rightarrow> (Fails e, tex)
           | Inr pf \<Rightarrow>
               (case lowerRTV rd tex pf (rtv_View d) of
                  Done (v, create, plane, len) \<Rightarrow>
                    (case (if create then createView v tex else (fullView tex, tex)) of (key, tex) \<Rightarrow>
                      (Done \<lparr>rt_View = key, rt_DepthPlane = plane, rt_RenderTargetArrayLength = len,
                         rt_Flags = 0, rt_Width = mip_extent (ti_width (info tex)) (firstMiplevel v),
                         rt_Height = mip_extent (ti_height (info tex)) (firstMiplevel v)\<rparr>, tex))
                | Fails e \<Rightarrow> (Fails e, tex)
                | Abort \<Rightarrow> (Abort, tex))))"

definition CreateDepthStencilView ::
  "(u32 \<Rightarrow> hresult + u32) \<Rightarrow> resource_desc \<Rightarrow> dsv_desc option \<Rightarrow> texture \<Rightarrow>
   render_target_desc outcome \<times> texture" where
  "CreateDepthStencilView q rd pDesc tex =
     (case (case pDesc of None \<Rightarrow> ExtractDSV rd
            | Some d \<Rightarrow> Inr (if dsv_Format d = DXGI_FORMAT_UNKNOWN then d\<lparr>dsv_Format := Format rd\<rparr> else d)) of
        Inl e \<Rightarrow> (Fails e, tex)
      | Inr d \<Rightarrow>
          (case q (dsv_Format d) of
             Inl e \<Rightarrow> (Fails e, tex)
           | Inr pf \<Rightarrow>
               (case lowerDSV tex pf (dsv_View d) of
                  Done (v, len) \<Rightarrow>
                    (case createView v tex of (key, tex) \<Rightarrow>
                      (Done \<lparr>rt_View = key, rt_DepthPlane = 0, rt_RenderTargetArrayLength = len,
                         rt_Flags = dsv_Flags d, rt_Width = mip_extent (ti_width (info tex)) (firstMiplevel v),
                         rt_Height = mip_extent (ti_height (info tex)) (firstMiplevel v)\<rparr>, tex))
                | Fails e \<Rightarrow> (Fails e, tex)
                | Abort \<Rightarrow> (Abort, tex))))"

section \<open>Texture info and allocation size\<close>

definition MTL_DXGI_FORMAT_BC :: u32 where "MTL_DXGI_FORMAT_BC = 2"
definition MTL_DXGI_FORMAT_DEPTH_PLANER :: u32 where "MTL_DXGI_FORMAT_DEPTH_PLANER = 16"
definition MTL_DXGI_FORMAT_STENCIL_PLANER :: u32 where "MTL_DXGI_FORMAT_STENCIL_PLANER = 32"

definition depth_stencil_format :: "u32 \<Rightarrow> u32" where
  "depth_stencil_format pf =
     (if pf \<in> {53, 54, 55} then WMTPixelFormatDepth32Float
      else if pf \<in> {20, 22, 23, 24, 25} then WMTPixelFormatDepth16Unorm
      else pf)"

definition texture_usage :: "u32 \<Rightarrow> u8" where
  "texture_usage flags =
     (let Usage = 16;
          Usage = (if flags AND D3D12_RESOURCE_FLAG_ALLOW_RENDER_TARGET \<noteq> 0 then Usage OR 4 else Usage);
          Usage = (if flags AND D3D12_RESOURCE_FLAG_ALLOW_DEPTH_STENCIL \<noteq> 0 then Usage OR 4 else Usage);
          Usage = (if flags AND D3D12_RESOURCE_FLAG_ALLOW_UNORDERED_ACCESS \<noteq> 0 then Usage OR (1 OR 2) else Usage);
          Usage = (if flags AND D3D12_RESOURCE_FLAG_DENY_SHADER_RESOURCE = 0 then Usage OR 1 else Usage)
      in Usage)"

text \<open>\<open>q\<close> gives the pixel format and the flags of \<open>MTLQueryDXGIFormat\<close>.\<close>

definition PopulateWMTTextureInfo ::
  "(u32 \<Rightarrow> hresult + u32 \<times> u32) \<Rightarrow> resource_desc \<Rightarrow> hresult + texture_info" where
  "PopulateWMTTextureInfo q rd =
     (case q (Format rd) of
        Inl e \<Rightarrow> Inl e
      | Inr (pf, flag) \<Rightarrow>
          let pixel = (if Flags rd AND D3D12_RESOURCE_FLAG_ALLOW_DEPTH_STENCIL \<noteq> 0
                       then depth_stencil_format pf else pf);
              w = ucast (Width rd); h = Height rd; n = ucast (DepthOrArraySize rd);
              mk = (\<lambda>h d len ty samples.
                let levels = 32 - lzcnt32 (w OR h OR d);
                    levels = (if MipLevels rd \<noteq> 0 then min levels (unat (MipLevels rd)) else levels)
                in Inr \<lparr>pixel_format = pixel, ti_width = w, ti_height = h, ti_depth = d, array_length = len,
                        ti_type = ty, mipmap_level_count = levels, sample_count = unat samples mod 256,
                        usage = texture_usage (Flags rd)\<rparr>)
          in case Dimension rd of
               D3D12_RESOURCE_DIMENSION_TEXTURE1D \<Rightarrow>
                 if flag AND (MTL_DXGI_FORMAT_BC OR MTL_DXGI_FORMAT_DEPTH_PLANER OR MTL_DXGI_FORMAT_STENCIL_PLANER) \<noteq> 0
                 then Inl E_INVALIDARG
                 else mk 1 1 n (if DepthOrArraySize rd > 1 then WMTTextureType2DArray else WMTTextureType2D) 1
             | D3D12_RESOURCE_DIMENSION_TEXTURE2D \<Rightarrow>
                 if SampleCount rd = 0 then Inl E_INVALIDARG
                 else if SampleCount rd > 1 then
                   mk h 1 n (if DepthOrArraySize rd > 1 then WMTTextureType2DMultisampleArray
                             else WMTTextureType2DMultisample) (SampleCount rd)
                 else mk h 1 n (if DepthOrArraySize rd > 1 then WMTTextureType2DArray else WMTTextureType2D) 1
             | D3D12_RESOURCE_DIMENSION_TEXTURE3D \<Rightarrow> mk h n 1 WMTTextureType3D 1
             | _ \<Rightarrow> Inl E_INVALIDARG)"

definition D3D12_DEFAULT_RESOURCE_PLACEMENT_ALIGNMENT :: u64 where
  "D3D12_DEFAULT_RESOURCE_PLACEMENT_ALIGNMENT = 0x10000"

text \<open>\<open>metal\<close> is \<open>heapTextureSizeAndAlign\<close>; the result is size and alignment.\<close>

definition GetTextureAllocationInfo ::
  "(u32 \<Rightarrow> hresult + u32 \<times> u32) \<Rightarrow> (texture_info \<Rightarrow> u32 \<times> u32) \<Rightarrow> resource_desc \<Rightarrow> hresult + u64 \<times> u64" where
  "GetTextureAllocationInfo q metal rd =
     (case PopulateWMTTextureInfo q rd of
        Inl e \<Rightarrow> Inl e
      | Inr ti \<Rightarrow>
          (case metal ti of (msize, malign) \<Rightarrow>
             if msize = 0 \<or> malign = 0 then Inl E_INVALIDARG
             else
               let requested = (if Alignment rd \<noteq> 0 then Alignment rd
                                else D3D12_DEFAULT_RESOURCE_PLACEMENT_ALIGNMENT)
               in if requested \<noteq> D3D12_DEFAULT_RESOURCE_PLACEMENT_ALIGNMENT then Inl E_INVALIDARG
                  else
                    let al = max (ucast malign) requested
                    in if al AND (al - 1) \<noteq> 0 \<or> ucast msize > (NOT 0 :: u64) - al + 1 then Inl E_INVALIDARG
                       else let size = align (ucast msize) al
                            in if size \<noteq> 0 then Inr (size, al) else Inl E_INVALIDARG))"

section \<open>The view table\<close>

lemma find_view_le: "find_view d vs \<le> length vs"
  by (induction vs) auto

lemma find_view_nth: "find_view d vs < length vs \<Longrightarrow> vs ! find_view d vs = d"
  by (induction vs) auto

lemma find_view_notin: "find_view d vs = length vs \<longleftrightarrow> d \<notin> set vs"
  by (induction vs) (auto simp: find_view_le dest: sym)

lemma find_view_append: "d \<notin> set vs \<Longrightarrow> find_view d (vs @ [d]) = length vs"
  by (induction vs) auto

definition table_ok :: "texture \<Rightarrow> bool" where
  "table_ok tex \<longleftrightarrow> distinct (viewDescriptors tex) \<and> length (viewDescriptors tex) < 2 ^ 28"

lemma createView_cases:
  obtains (hit) "find_view d (viewDescriptors tex) < length (viewDescriptors tex)" "snd (createView d tex) = tex"
  | (miss) "d \<notin> set (viewDescriptors tex)"
      "find_view d (viewDescriptors tex) = length (viewDescriptors tex)"
      "viewDescriptors (snd (createView d tex)) = viewDescriptors tex @ [d]"
      "info (snd (createView d tex)) = info tex"
  using find_view_le [of d "viewDescriptors tex"] find_view_notin [of d "viewDescriptors tex"]
  by (cases "find_view d (viewDescriptors tex) < length (viewDescriptors tex)")
    (auto simp: createView_def Let_def)

lemma createView_key:
  "fst (createView d tex) = TextureViewKey d (find_view d (viewDescriptors tex)) (mipmap_level_count (info tex))"
  by (simp add: createView_def Let_def)

lemma createView_index:
  assumes "table_ok tex"
  shows "viewDescriptors (snd (createView d tex)) ! key_index (fst (createView d tex)) = d"
    and "key_index (fst (createView d tex)) = find_view d (viewDescriptors tex)"
proof -
  have "find_view d (viewDescriptors tex) < 2 ^ 28"
    using assms find_view_le [of d "viewDescriptors tex"] by (simp add: table_ok_def)
  then show i: "key_index (fst (createView d tex)) = find_view d (viewDescriptors tex)"
    by (simp add: createView_key TextureViewKey_def)
  show "viewDescriptors (snd (createView d tex)) ! key_index (fst (createView d tex)) = d"
    unfolding i by (cases rule: createView_cases [of d tex]) (auto simp: find_view_nth)
qed

text \<open>
  C23.  The view table: the key of \<open>createView\<close> selects the requested descriptor, every key
  handed out before still selects its descriptor, no descriptor is stored twice, and asking
  again returns the same key and changes nothing.
\<close>

theorem view_table_stable:
  assumes "table_ok tex" "createView d tex = (key, tex')"
  shows "viewDescriptors tex' ! key_index key = d \<and>
    (\<forall>i < length (viewDescriptors tex). viewDescriptors tex' ! i = viewDescriptors tex ! i) \<and>
    distinct (viewDescriptors tex') \<and> createView d tex' = (key, tex')"
proof -
  have k: "key = fst (createView d tex)" "tex' = snd (createView d tex)" using assms(2) by simp_all
  have i: "viewDescriptors tex' ! key_index key = d" unfolding k by (rule createView_index(1) [OF assms(1)])
  have di: "distinct (viewDescriptors tex)" using assms(1) by (simp add: table_ok_def)
  show ?thesis
  proof (cases rule: createView_cases [of d tex])
    case hit
    then have t: "tex' = tex" using k(2) by simp
    then show ?thesis using i di assms(2) unfolding t by blast
  next
    case miss
    then have "createView d tex' = (key, tex')"
      unfolding k(2) by (auto simp: createView_def Let_def find_view_append k(1))
    then show ?thesis using miss i di k by (auto simp: nth_append)
  qed
qed

theorem view_table_stable_witness:
  "distinct (viewDescriptors (snd (createView (mk_view 70 WMTTextureType2D 1 1 0 1)
     \<lparr>info = \<lparr>pixel_format = 70, ti_width = 4, ti_height = 4, ti_depth = 1, array_length = 1,
        ti_type = WMTTextureType2D, mipmap_level_count = 3, sample_count = 1, usage = 1\<rparr>,
      viewDescriptors = [mk_view 70 WMTTextureType2D 0 3 0 1]\<rparr>)))"
  (is "distinct (viewDescriptors (snd (createView ?d ?t)))")
proof -
  have "table_ok ?t" by (simp add: table_ok_def)
  from view_table_stable [OF this prod.collapse [symmetric]] show ?thesis by blast
qed

section \<open>What the lowered views select\<close>

lemma mk_view_sel [simp]:
  "firstMiplevel (mk_view f ty m n a k) = unat m mod 16"
  "miplevelCount (mk_view f ty m n a k) = unat n mod 16"
  "firstArraySlice (mk_view f ty m n a k) = unat a mod 4096"
  "arraySize (mk_view f ty m n a k) = unat k mod 4096"
  "vtype (mk_view f ty m n a k) = ty"
  by (simp_all add: mk_view_def)

lemma unat_ucast_u16: "unat (ucast (x :: u16) :: u32) = unat x"
proof -
  have "unat x < 2 ^ 16" using unsigned_less [of x] by simp
  then show ?thesis by (simp add: unsigned_ucast_eq take_bit_nat_eq_self)
qed

lemma ucast_u16_not_ones: "ucast (x :: u16) \<noteq> all_ones"
proof
  assume e: "ucast x = all_ones"
  have "bit all_ones 31" by (simp add: all_ones_def bit_not_iff)
  then have "bit (ucast x :: u32) 31" unfolding e .
  then have "bit x 31" by (simp add: bit_simps)
  then show False using bit_imp_le_length [of x 31] by simp
qed

definition selects :: "view_desc \<Rightarrow> nat \<Rightarrow> nat \<Rightarrow> nat \<Rightarrow> nat \<Rightarrow> bool" where
  "selects v mip mips sl slices \<longleftrightarrow>
     firstMiplevel v = mip \<and> miplevelCount v = mips \<and> firstArraySlice v = sl \<and> arraySize v = slices"

definition slice_count :: "resource_desc \<Rightarrow> nat" where
  "slice_count rd = (if Dimension rd = D3D12_RESOURCE_DIMENSION_TEXTURE3D then 1 else unat (DepthOrArraySize rd))"

definition plain_texture :: "resource_desc \<Rightarrow> bool" where
  "plain_texture rd \<longleftrightarrow>
     Dimension rd \<in> {D3D12_RESOURCE_DIMENSION_TEXTURE1D, D3D12_RESOURCE_DIMENSION_TEXTURE2D,
       D3D12_RESOURCE_DIMENSION_TEXTURE3D} \<and>
     0 < unat (MipLevels rd) \<and> unat (MipLevels rd) < 16 \<and>
     0 < unat (DepthOrArraySize rd) \<and> unat (DepthOrArraySize rd) < 4096 \<and>
     (Dimension rd = D3D12_RESOURCE_DIMENSION_TEXTURE2D \<and> 1 < SampleCount rd \<longrightarrow> unat (MipLevels rd) = 1)"

lemma array_or_one:
  "plain_texture rd \<Longrightarrow> \<not> 1 < DepthOrArraySize rd \<Longrightarrow> unat (DepthOrArraySize rd) = 1"
  by (auto simp: plain_texture_def word_less_nat_alt)

lemma extract_lower_srv:
  assumes p: "plain_texture rd"
  shows "\<exists>d. ExtractSRV rd = Inr d \<and> srv_Format d = Format rd \<and>
    Shader4ComponentMapping d = kDefaultShader4Component \<and>
    (\<forall>fmt. \<exists>v. lowerSRV rd fmt (srv_View d) = Done v \<and>
       selects v 0 (unat (MipLevels rd)) 0 (slice_count rd))"
  using p array_or_one [OF p]
  by (auto simp: plain_texture_def ExtractSRV_def Let_def lowerSRV_def selects_def slice_count_def
      srv_mips_def srv_slices_def unat_ucast_u16 ucast_u16_not_ones split: if_splits)

text \<open>
  C24.  Without a description, a shader resource view covers the whole texture: all mip levels
  and all array slices, and the returned key selects that view.
\<close>

theorem default_srv_covers:
  assumes "plain_texture rd" "table_ok tex" "q (Format rd) = Inr pf"
    and "CreateShaderResourceView q rd None tex = (r, tex')"
  shows "\<exists>key. r = Done key \<and>
    selects (viewDescriptors tex' ! key_index key) 0 (unat (MipLevels rd)) 0 (slice_count rd)"
proof -
  from extract_lower_srv [OF assms(1)] obtain d where d: "ExtractSRV rd = Inr d" "srv_Format d = Format rd"
    and low: "\<forall>fmt. \<exists>v. lowerSRV rd fmt (srv_View d) = Done v \<and>
       selects v 0 (unat (MipLevels rd)) 0 (slice_count rd)"
    by (elim exE conjE)
  define base where "base = (if pixel_format (info tex) = WMTPixelFormatDepth32Float \<or>
        pixel_format (info tex) = WMTPixelFormatDepth16Unorm then pixel_format (info tex) else pf)"
  from low [rule_format, of "EncodeComponentMapping (Shader4ComponentMapping d) base"]
  obtain v where v: "lowerSRV rd (EncodeComponentMapping (Shader4ComponentMapping d) base) (srv_View d) = Done v"
      "selects v 0 (unat (MipLevels rd)) 0 (slice_count rd)"
    by (elim exE conjE)
  have "CreateShaderResourceView q rd None tex = (Done (fst (createView v tex)), snd (createView v tex))"
    unfolding CreateShaderResourceView_def
    by (simp only: option.case d sum.case assms(3) Let_def base_def [symmetric] v(1) outcome.case
        case_prod_beta)
  then have r: "r = Done (fst (createView v tex))" "tex' = snd (createView v tex)" using assms(4) by simp_all
  show ?thesis
    unfolding r by (rule exI [of _ "fst (createView v tex)"]) (simp only: createView_index(1) [OF assms(2)] v(2) simp_thms)
qed

lemma extract_lower_rtv:
  assumes "plain_texture rd" "arrayLength (info tex) = ucast (DepthOrArraySize rd)"
    and "Dimension rd \<noteq> D3D12_RESOURCE_DIMENSION_TEXTURE3D"
  shows "\<exists>d. ExtractRTV rd = Inr d \<and> rtv_Format d = Format rd \<and>
    (\<exists>v l. lowerRTV rd tex fmt (rtv_View d) = Done (v, True, 0, l) \<and> selects v 0 1 0 (slice_count rd))"
  using assms array_or_one [OF assms(1)]
  by (auto simp: plain_texture_def ExtractRTV_def Let_def lowerRTV_def selects_def slice_count_def
      target_slices_def unat_ucast_u16 ucast_u16_not_ones split: if_splits)

lemma extract_lower_dsv:
  assumes "plain_texture rd" "arrayLength (info tex) = ucast (DepthOrArraySize rd)"
    and "Dimension rd \<noteq> D3D12_RESOURCE_DIMENSION_TEXTURE3D"
  shows "\<exists>d. ExtractDSV rd = Inr d \<and> dsv_Format d = Format rd \<and>
    (\<exists>v l. lowerDSV tex fmt (dsv_View d) = Done (v, l) \<and> selects v 0 1 0 (slice_count rd))"
  using assms array_or_one [OF assms(1)]
  by (auto simp: plain_texture_def ExtractDSV_def Let_def lowerDSV_def selects_def slice_count_def
      target_slices_def unat_ucast_u16 ucast_u16_not_ones split: if_splits)

text \<open>
  Without a description, render target and depth stencil views of a one- or
  two-dimensional texture select the first mip level of every array slice.
\<close>

theorem default_targets_cover:
  assumes "plain_texture rd" "table_ok tex" "q (Format rd) = Inr pf"
    and "arrayLength (info tex) = ucast (DepthOrArraySize rd)"
    and "Dimension rd \<noteq> D3D12_RESOURCE_DIMENSION_TEXTURE3D"
    and "CreateRenderTargetView q rd None tex = (r, tex')"
    and "CreateDepthStencilView q rd None tex = (s, tex'')"
  shows "(\<exists>t. r = Done t \<and> selects (viewDescriptors tex' ! key_index (rt_View t)) 0 1 0 (slice_count rd)) \<and>
    (\<exists>t. s = Done t \<and> selects (viewDescriptors tex'' ! key_index (rt_View t)) 0 1 0 (slice_count rd))"
proof
  obtain d v l where d: "ExtractRTV rd = Inr d" "rtv_Format d = Format rd"
      "lowerRTV rd tex pf (rtv_View d) = Done (v, True, 0, l)" "selects v 0 1 0 (slice_count rd)"
    using extract_lower_rtv [OF assms(1,4,5)] by blast
  then show "\<exists>t. r = Done t \<and> selects (viewDescriptors tex' ! key_index (rt_View t)) 0 1 0 (slice_count rd)"
    using assms(3,6) createView_index(1) [OF assms(2), of v]
    by (auto simp: CreateRenderTargetView_def split: prod.splits)
next
  obtain d v l where d: "ExtractDSV rd = Inr d" "dsv_Format d = Format rd"
      "lowerDSV tex pf (dsv_View d) = Done (v, l)" "selects v 0 1 0 (slice_count rd)"
    using extract_lower_dsv [OF assms(1,4,5)] by blast
  then show "\<exists>t. s = Done t \<and> selects (viewDescriptors tex'' ! key_index (rt_View t)) 0 1 0 (slice_count rd)"
    using assms(3,7) createView_index(1) [OF assms(2), of v]
    by (auto simp: CreateDepthStencilView_def split: prod.splits)
qed

text \<open>A six-slice texture with four mip levels for the witnesses.\<close>

definition sample_tex :: texture where
  "sample_tex = Texture_construct \<lparr>pixel_format = 70, ti_width = 256, ti_height = 64, ti_depth = 1,
     array_length = 6, ti_type = WMTTextureType2DArray, mipmap_level_count = 4, sample_count = 1, usage = 17\<rparr>"

lemma sample_ok:
  "plain_texture sample_texture" "table_ok sample_tex"
  "arrayLength (info sample_tex) = ucast (DepthOrArraySize sample_texture)"
  by (simp_all add: plain_texture_def sample_texture_def table_ok_def sample_tex_def Texture_construct_def
      arrayLength_def)

theorem default_srv_covers_witness:
  "\<exists>key. fst (CreateShaderResourceView (\<lambda>_. Inr 70) sample_texture None sample_tex) = Done key"
  using default_srv_covers [OF sample_ok(1,2) _ prod.collapse [symmetric], of "\<lambda>_. Inr 70" 70] by auto

theorem default_targets_cover_witness:
  "\<exists>t. fst (CreateRenderTargetView (\<lambda>_. Inr 70) sample_texture None sample_tex) = Done t"
  using default_targets_cover [OF sample_ok(1,2) _ sample_ok(3) _ prod.collapse [symmetric]
      prod.collapse [symmetric], of "\<lambda>_. Inr 70" 70]
  by (auto simp: sample_texture_def)



section \<open>Swizzles compose\<close>

lemma three_bits: "x < 8 \<Longrightarrow> take_bit 3 (x :: u32) = x"
  by (rule less_mask_eq [unfolded take_bit_eq_mask [symmetric]]) simp

lemma and_7: "(x :: u32) AND 7 = take_bit 3 x"
  by (simp add: take_bit_eq_mask mask_eq_exp_minus_1)

lemma swizzle_fields:
  fixes f :: u32
  assumes "r < 8" "g < 8" "b < 8" "a < 8"
  defines "w \<equiv> (f AND 0xfff) OR push_bit 21 r OR push_bit 18 g OR push_bit 15 b OR push_bit 12 a"
  shows "drop_bit 21 w AND 7 = r" "drop_bit 18 w AND 7 = g" "drop_bit 15 w AND 7 = b" "drop_bit 12 w AND 7 = a"
    "w AND 0xfff = f AND 0xfff"
proof -
  have m: "(0xfff :: u32) = mask 12" by (simp add: mask_eq_exp_minus_1)
  have t: "bit x i \<Longrightarrow> i < 3" if "x < 8" for x :: u32 and i
    using three_bits [OF that] by (metis bit_take_bit_iff)
  note bits = t [OF assms(1)] t [OF assms(2)] t [OF assms(3)] t [OF assms(4)]
  show "drop_bit 21 w AND 7 = r" "drop_bit 18 w AND 7 = g" "drop_bit 15 w AND 7 = b" "drop_bit 12 w AND 7 = a"
    unfolding and_7 w_def m
    by (rule bit_word_eqI; use bits in \<open>fastforce simp: bit_simps\<close>)+
  show "w AND 0xfff = f AND 0xfff"
    unfolding w_def m by (rule bit_word_eqI; use bits in \<open>fastforce simp: bit_simps\<close>)
qed

lemma lt6_cases: "(t :: u32) < 6 \<Longrightarrow> t = 0 \<or> t = 1 \<or> t = 2 \<or> t = 3 \<or> t = 4 \<or> t = 5"
proof -
  assume "t < 6"
  then have "unat t < 6" by (simp add: word_less_nat_alt)
  then have "unat t = 0 \<or> unat t = 1 \<or> unat t = 2 \<or> unat t = 3 \<or> unat t = 4 \<or> unat t = 5" by linarith
  then show "t = 0 \<or> t = 1 \<or> t = 2 \<or> t = 3 \<or> t = 4 \<or> t = 5" by (simp add: word_unat_eq_iff)
qed

lemma offset_roundtrip:
  assumes "t < 6"
  shows "(2 + ENCODE_FORMAT_COMPONENT_OFFSET t 2) mod 6 = t" "(3 + ENCODE_FORMAT_COMPONENT_OFFSET t 3) mod 6 = t"
    "(4 + ENCODE_FORMAT_COMPONENT_OFFSET t 4) mod 6 = t" "(5 + ENCODE_FORMAT_COMPONENT_OFFSET t 5) mod 6 = t"
  using lt6_cases [OF assms] by (auto simp: ENCODE_FORMAT_COMPONENT_OFFSET_def)

lemma mod_6_less: "(x :: u32) mod 6 < 6"
  by (simp add: word_mod_less_divisor)

lemma offset_less_8: "ENCODE_FORMAT_COMPONENT_OFFSET t k < 8"
  unfolding ENCODE_FORMAT_COMPONENT_OFFSET_def by (rule less_trans [OF mod_6_less]) simp

lemma GET_SWIZZLE_encode:
  assumes "r < 6" "g < 6" "b < 6" "a < 6"
  shows "GET_SWIZZLE 0 (ENCODE_FORMAT_SWIZZLE f r g b a) = r" "GET_SWIZZLE 1 (ENCODE_FORMAT_SWIZZLE f r g b a) = g"
    "GET_SWIZZLE 2 (ENCODE_FORMAT_SWIZZLE f r g b a) = b" "GET_SWIZZLE 3 (ENCODE_FORMAT_SWIZZLE f r g b a) = a"
  using swizzle_fields [OF offset_less_8 offset_less_8 offset_less_8 offset_less_8, of f r 2 g 3 b 4 a 5]
    offset_roundtrip assms
  by (simp_all add: GET_SWIZZLE_def DECODE_FORMAT_COMPONENT_SWIZZLE_def ENCODE_FORMAT_SWIZZLE_def)

lemma swizzle_map_less:
  "unat (DX2MTL_SWIZZLE x) < 6"
  "i < 6 \<Longrightarrow> [0, 1, GET_SWIZZLE 0 f, GET_SWIZZLE 1 f, GET_SWIZZLE 2 f, GET_SWIZZLE 3 f] ! i < 6"
proof -
  show "unat (DX2MTL_SWIZZLE x) < 6"
    using mod_6_less [of "x + 2"] by (simp add: DX2MTL_SWIZZLE_def word_less_nat_alt)
  have "GET_SWIZZLE c f < 6" for c
    by (simp add: GET_SWIZZLE_def DECODE_FORMAT_COMPONENT_SWIZZLE_def mod_6_less)
  then have "list_all (\<lambda>y. y < 6) [0, 1, GET_SWIZZLE 0 f, GET_SWIZZLE 1 f, GET_SWIZZLE 2 f, GET_SWIZZLE 3 f]"
    by simp
  then show "i < 6 \<Longrightarrow> [0, 1, GET_SWIZZLE 0 f, GET_SWIZZLE 1 f, GET_SWIZZLE 2 f, GET_SWIZZLE 3 f] ! i < 6"
    unfolding list_all_length by simp
qed

text \<open>
  Component mappings compose with the swizzle of the format: in the encoded format every
  channel reads what the mapping selects from the format's own channels, a constant zero or
  a constant one, and the base format is kept.
\<close>

theorem swizzle_composes:
  assumes "c < 4" "x = drop_bit (3 * c) m AND 7" "x < 6"
  shows "GET_SWIZZLE c (EncodeComponentMapping m f) =
      (if x < 4 then GET_SWIZZLE (unat x) f else if x = 4 then 0 else 1) \<and>
    EncodeComponentMapping m f AND 0xfff = f AND 0xfff"
proof -
  let ?M = "[0, 1, GET_SWIZZLE 0 f, GET_SWIZZLE 1 f, GET_SWIZZLE 2 f, GET_SWIZZLE 3 f]"
  let ?s = "\<lambda>y. ?M ! unat (DX2MTL_SWIZZLE y)"
  have lt: "?s y < 6" for y by (intro swizzle_map_less)
  have e: "EncodeComponentMapping m f = ENCODE_FORMAT_SWIZZLE f (?s (m AND 7)) (?s (drop_bit 3 m AND 7))
      (?s (drop_bit 6 m AND 7)) (?s (drop_bit 9 m AND 7))"
    by (simp only: EncodeComponentMapping_def Let_def)
  have "c = 0 \<or> c = 1 \<or> c = 2 \<or> c = 3" using assms(1) by linarith
  then have "GET_SWIZZLE c (EncodeComponentMapping m f) = ?s x"
    unfolding e assms(2) using GET_SWIZZLE_encode [OF lt lt lt lt] by (elim disjE) simp_all
  moreover have "?s x = (if x < 4 then GET_SWIZZLE (unat x) f else if x = 4 then 0 else 1)"
    using lt6_cases [OF assms(3)] by (elim disjE) (simp_all add: DX2MTL_SWIZZLE_def)
  moreover have "EncodeComponentMapping m f AND 0xfff = f AND 0xfff"
    unfolding e ENCODE_FORMAT_SWIZZLE_def
    by (rule swizzle_fields(5) [OF offset_less_8 offset_less_8 offset_less_8 offset_less_8])
  ultimately show ?thesis by simp
qed

theorem swizzle_composes_witness:
  "GET_SWIZZLE 2 (EncodeComponentMapping 0b001000001000 (80 OR push_bit 12 0b011000010010)) =
     GET_SWIZZLE 0 (80 OR push_bit 12 0b011000010010)"
  using swizzle_composes [of 2 0 "0b001000001000" "80 OR push_bit 12 0b011000010010"]
  by simp

section \<open>Allocation sizes\<close>

text \<open>
  C26.  The size and alignment reported for a texture: a power of two not below the default
  placement alignment and Metal's own, a size that is a multiple of it and the smallest one
  holding Metal's size, without wrap-around.
\<close>

theorem allocation_info_sound:
  assumes "GetTextureAllocationInfo q metal rd = Inr (bytes, al)" "PopulateWMTTextureInfo q rd = Inr ti"
  shows "(\<exists>k < 64. al = 2 ^ k) \<and> 0x10000 \<le> unat al \<and> unat (snd (metal ti)) \<le> unat al \<and>
    unat al dvd unat bytes \<and> unat (fst (metal ti)) \<le> unat bytes \<and>
    unat bytes < unat (fst (metal ti)) + unat al"
proof -
  let ?ms = "ucast (fst (metal ti)) :: u64" and ?ma = "ucast (snd (metal ti)) :: u64"
  have u: "unat (ucast x :: u64) = unat x" for x :: u32
  proof -
    have "unat x < 2 ^ 32" using unsigned_less [of x] by simp
    then show ?thesis by (simp add: unsigned_ucast_eq take_bit_nat_eq_self)
  qed
  obtain ms ma where m: "metal ti = (ms, ma)" by (cases "metal ti")
  let ?req = "if Alignment rd \<noteq> 0 then Alignment rd else D3D12_DEFAULT_RESOURCE_PLACEMENT_ALIGNMENT"
  note g = assms(1) [unfolded GetTextureAllocationInfo_def assms(2) sum.case m case_prod_conv Let_def]
  have z: "\<not> (ms = 0 \<or> ma = 0)" using g by (rule contrapos_pn) simp
  note g1 = g [unfolded if_not_P [OF z]]
  have r: "\<not> ?req \<noteq> D3D12_DEFAULT_RESOURCE_PLACEMENT_ALIGNMENT" using g1 by (rule contrapos_pn) simp
  note g2 = g1 [unfolded if_not_P [OF r]]
  have req: "?req = 0x10000" using r by (simp add: D3D12_DEFAULT_RESOURCE_PLACEMENT_ALIGNMENT_def)
  let ?al = "max ?ma 0x10000"
  have c: "\<not> (?al AND (?al - 1) \<noteq> 0 \<or> ?ms > NOT 0 - ?al + 1)"
    using g2 unfolding req m fst_conv snd_conv by (rule contrapos_pn) (simp only: if_True sum.distinct not_False_eq_True)
  have "(if align ?ms ?al \<noteq> 0 then Inr (align ?ms ?al, ?al) else Inl E_INVALIDARG) = Inr (bytes, al)"
    using g2 unfolding req m fst_conv snd_conv
    by (simp only: if_not_P [OF c [unfolded m fst_conv snd_conv]])
  then have al: "al = max ?ma 0x10000" and sz: "bytes = align ?ms al"
    by (cases "align ?ms ?al = 0"; auto)+
  have pw: "al AND (al - 1) = 0" and fit: "\<not> ?ms > NOT 0 - al + 1" using c unfolding al by simp_all
  have ge: "0x10000 \<le> al" "?ma \<le> al" unfolding al by simp_all
  have "al \<noteq> 0" using ge(1) by auto
  then obtain k where k: "k < 64" "al = 2 ^ k" using power_of_two_test [of al] pw by auto
  have ua: "unat al = 2 ^ k" 
  proof -
    have "al = push_bit k 1" using k(2) by (simp add: push_bit_of_1)
    then have "unat al = take_bit 64 (push_bit k 1)" by (simp add: unsigned_push_bit_eq)
    moreover have "(2 :: nat) ^ k < 2 ^ 64" using k(1) by (intro power_strict_increasing) simp_all
    ultimately show ?thesis using k(1) by (simp add: push_bit_eq_mult take_bit_nat_eq_self)
  qed
  have "unat (NOT 0 - al + 1) = 2 ^ 64 - 2 ^ k"
  proof -
    have "- al = of_nat (2 ^ 64 - 2 ^ k)"
    proof -
      have "(2 :: nat) ^ k \<le> 2 ^ 64" using k(1) by (intro power_increasing) simp_all
      then have "(of_nat (2 ^ 64 - 2 ^ k) :: u64) = of_nat (2 ^ 64) - of_nat (2 ^ k)" by (rule of_nat_diff)
      also have "(of_nat (2 ^ 64) :: u64) = 0" by simp
      also have "(of_nat (2 ^ k) :: u64) = al" by (simp add: k(2))
      finally show ?thesis by simp
    qed
    moreover have "NOT 0 - al + 1 = - al" by simp
    moreover have "(2 :: nat) ^ 64 - 2 ^ k < 2 ^ 64" by simp
    then have "unat (of_nat (2 ^ 64 - 2 ^ k) :: u64) = 2 ^ 64 - 2 ^ k"
      by (simp only: unat_of_nat) simp
    ultimately show ?thesis by (simp only:)
  qed
  then have "unat ?ms \<le> 2 ^ 64 - 2 ^ k" using fit by (simp add: not_less word_le_nat_alt)
  moreover have "(2 :: nat) ^ k \<le> 2 ^ 64" using k(1) by (intro power_increasing) simp_all
  ultimately have "unat ?ms + 2 ^ k \<le> 2 ^ 64" by linarith
  then have f: "unat ?ms + 2 ^ k \<le> 2 ^ LENGTH(64)" by simp
  have k': "k < LENGTH(64)" using k(1) by simp
  note a = align_ge [OF k' f, folded k(2), folded sz]
  show ?thesis
  proof (intro conjI)
    show "\<exists>k < 64. al = 2 ^ k" using k by blast
    show "0x10000 \<le> unat al" using ge(1) by (simp add: word_le_nat_alt)
    show "unat (snd (metal ti)) \<le> unat al" using ge(2) unfolding word_le_nat_alt u .
    show "unat al dvd unat bytes" using a(3) by (simp only: ua)
    show "unat (fst (metal ti)) \<le> unat bytes" using a(1) by (simp only: u)
    show "unat bytes < unat (fst (metal ti)) + unat al" using a(2) by (simp only: u ua)
  qed
qed

theorem allocation_info_sound_witness:
  "unat (65536 :: u64) dvd unat (327680 :: u64) \<and>
   GetTextureAllocationInfo (\<lambda>_. Inr (70, 0)) (\<lambda>_. (300000, 0x10000)) sample_texture = Inr (327680, 65536)"
proof -
  let ?q = "\<lambda>_ :: u32. Inr (70, 0) :: hresult + u32 \<times> u32" and ?m = "\<lambda>_ :: texture_info. (300000 :: u32, 0x10000 :: u32)"
  have i: "GetTextureAllocationInfo ?q ?m sample_texture = Inr (327680, 65536)" by code_simp
  obtain ti where "PopulateWMTTextureInfo ?q sample_texture = Inr ti"
    using i by (auto simp: GetTextureAllocationInfo_def split: sum.splits)
  from allocation_info_sound [OF i this] i show ?thesis by blast
qed

end
