(* ===== verification/RingBump.thy ===== *)
theory RingBump
  imports BitUtil
begin

text \<open>
  \<open>RingBumpState\<close> of \<open>src/dxmt/dxmt_ring_bump_allocator.hpp\<close>: a queue of memory blocks from
  which the command queue bump-allocates staging memory.  A block is handed out again, or
  released, once the GPU has completed the last command buffer that used it.  The block
  allocator is a template parameter of the code and a locale here; the locale is interpreted
  on \<open>HostBufferBlockAllocator\<close> over a heap model of \<open>malloc\<close> and \<open>free\<close>.  The theory proves
  that allocations are aligned and in bounds, and that two of them overlap only when the
  earlier one has completed.
\<close>

section \<open>The code\<close>

record 'b allocation =
  allocated_size :: u64
  total_size :: u64
  last_used_seq_id :: u64
  inc_time_to_live :: u64
  block :: 'b

text \<open>\<open>fifo\<close>, front first, and \<open>allocator_\<close>.\<close>

record ('b, 's) ring =
  fifo :: "'b allocation list"
  allocator :: 's

definition kStagingBlockLifetime :: u64 where "kStagingBlockLifetime = 300"

definition suballocate :: "'b allocation \<Rightarrow> u64 \<Rightarrow> u64 \<Rightarrow> ('b \<times> u64) \<times> 'b allocation" where
  "suballocate a bytes alignment =
     (let offset = align (allocated_size a) alignment
      in ((block a, offset), a\<lparr>allocated_size := offset + bytes\<rparr>))"

definition push_new :: "('s \<Rightarrow> u64 \<Rightarrow> 'b \<times> 's) \<Rightarrow> u64 \<Rightarrow> u64 \<Rightarrow> 'b allocation list \<Rightarrow> 's \<Rightarrow> ('b, 's) ring" where
  "push_new balloc seq_id block_size q s =
     (case balloc s block_size of (b, s') \<Rightarrow>
        \<lparr>fifo = q @ [\<lparr>allocated_size = 0, total_size = block_size, last_used_seq_id = seq_id,
           inc_time_to_live = 0, block = b\<rparr>], allocator = s'\<rparr>)"

text \<open>The loop of \<open>allocate_or_reuse_block\<close>; the block it returns is the last of the queue.\<close>

fun allocate_or_reuse_block ::
  "('s \<Rightarrow> u64 \<Rightarrow> 'b \<times> 's) \<Rightarrow> ('s \<Rightarrow> 'b \<Rightarrow> 's) \<Rightarrow> u64 \<Rightarrow> u64 \<Rightarrow> u64 \<Rightarrow> u64 \<Rightarrow>
   'b allocation list \<Rightarrow> 's \<Rightarrow> ('b, 's) ring" where
  "allocate_or_reuse_block balloc bfree BlockSize seq_id coherent_id block_size [] s =
     push_new balloc seq_id block_size [] s"
| "allocate_or_reuse_block balloc bfree BlockSize seq_id coherent_id block_size (front # rest) s =
     (if last_used_seq_id front < coherent_id then
        if total_size front \<noteq> BlockSize then
          allocate_or_reuse_block balloc bfree BlockSize seq_id coherent_id block_size rest
            (bfree s (block front))
        else if total_size front \<ge> block_size then
          \<lparr>fifo = rest @ [front\<lparr>last_used_seq_id := seq_id, allocated_size := 0, inc_time_to_live := 0\<rparr>],
           allocator = s\<rparr>
        else push_new balloc seq_id block_size (front # rest) s
      else push_new balloc seq_id block_size (front # rest) s)"

definition suballocate_last :: "('b, 's) ring \<Rightarrow> u64 \<Rightarrow> u64 \<Rightarrow> ('b \<times> u64) \<times> ('b, 's) ring" where
  "suballocate_last r bytes alignment =
     (case suballocate (last (fifo r)) bytes alignment of (res, a) \<Rightarrow>
        (res, r\<lparr>fifo := butlast (fifo r) @ [a]\<rparr>))"

definition allocate ::
  "('s \<Rightarrow> u64 \<Rightarrow> 'b \<times> 's) \<Rightarrow> ('s \<Rightarrow> 'b \<Rightarrow> 's) \<Rightarrow> u64 \<Rightarrow> u64 \<Rightarrow> u64 \<Rightarrow> u64 \<Rightarrow> u64 \<Rightarrow>
   ('b, 's) ring \<Rightarrow> ('b \<times> u64) \<times> ('b, 's) ring" where
  "allocate balloc bfree BlockSize seq_id coherent_id bytes alignment r =
     (if fifo r \<noteq> [] \<and>
         \<not> align (allocated_size (last (fifo r))) alignment + bytes > total_size (last (fifo r)) then
        suballocate_last
          (r\<lparr>fifo := butlast (fifo r) @ [(last (fifo r))\<lparr>last_used_seq_id := seq_id\<rparr>]\<rparr>) bytes alignment
      else
        suballocate_last
          (allocate_or_reuse_block balloc bfree BlockSize seq_id coherent_id (max bytes BlockSize)
             (fifo r) (allocator r)) bytes alignment)"

fun free_loop ::
  "('s \<Rightarrow> 'b \<Rightarrow> 's) \<Rightarrow> u64 \<Rightarrow> u64 \<Rightarrow> 'b allocation list \<Rightarrow> 's \<Rightarrow> ('b, 's) ring" where
  "free_loop bfree BlockSize coherent_id [] s = \<lparr>fifo = [], allocator = s\<rparr>"
| "free_loop bfree BlockSize coherent_id (front # rest) s =
     (if last_used_seq_id front > coherent_id then \<lparr>fifo = front # rest, allocator = s\<rparr>
      else
        let expired = (coherent_id - last_used_seq_id front > kStagingBlockLifetime \<or>
                       inc_time_to_live front > kStagingBlockLifetime \<or> coherent_id = NOT 0);
            adhoc = (total_size front \<noteq> BlockSize)
        in if expired \<or> adhoc then free_loop bfree BlockSize coherent_id rest (bfree s (block front))
           else \<lparr>fifo = front\<lparr>inc_time_to_live := inc_time_to_live front + 1\<rparr> # rest, allocator = s\<rparr>)"

definition free_blocks :: "('s \<Rightarrow> 'b \<Rightarrow> 's) \<Rightarrow> u64 \<Rightarrow> u64 \<Rightarrow> ('b, 's) ring \<Rightarrow> ('b, 's) ring" where
  "free_blocks bfree BlockSize coherent_id r = free_loop bfree BlockSize coherent_id (fifo r) (allocator r)"

section \<open>Host memory\<close>

text \<open>
  \<open>HostBufferBlockAllocator\<close>: a block is what \<open>malloc\<close> returns and its destructor calls
  \<open>free\<close>.  The heap is the list of live objects with their sizes; a new object gets an
  address above all live ones, so addresses of released objects come back.
\<close>

type_synonym heap = "(nat \<times> u64) list"

definition malloc :: "heap \<Rightarrow> u64 \<Rightarrow> nat \<times> heap" where
  "malloc h n = (let p = Suc (foldr (\<lambda>e. max (fst e)) h 0) in (p, (p, n) # h))"

definition heap_free :: "heap \<Rightarrow> nat \<Rightarrow> heap" where
  "heap_free h p = filter (\<lambda>(q, _). q \<noteq> p) h"

definition host_allocate :: "heap \<Rightarrow> u64 \<Rightarrow> nat \<times> heap" where
  "host_allocate h block_size = malloc h block_size"

definition host_release :: "heap \<Rightarrow> nat \<Rightarrow> heap" where
  "host_release h p = heap_free h p"

text \<open>The live objects, with their sizes.\<close>

definition live :: "heap \<Rightarrow> nat \<rightharpoonup> u64" where
  "live h = map_of h"

section \<open>Runs\<close>

text \<open>The calls on a ring, in the order its mutex gives them.\<close>

datatype ring_event =
  Allocate (ev_seq: u64) (ev_coherent: u64) (ev_bytes: u64) (ev_align: nat)
| FreeBlocks (ev_coherent: u64)

record 'b placement =
  p_block :: 'b
  p_offset :: u64
  p_bytes :: u64
  p_align :: nat
  p_seq :: u64
  p_coherent :: u64
  p_capacity :: "u64 option"

fun ring_run ::
  "('s \<Rightarrow> u64 \<Rightarrow> 'b \<times> 's) \<Rightarrow> ('s \<Rightarrow> 'b \<Rightarrow> 's) \<Rightarrow> ('s \<Rightarrow> 'b \<rightharpoonup> u64) \<Rightarrow> u64 \<Rightarrow> ring_event list \<Rightarrow>
   ('b, 's) ring \<Rightarrow> 'b placement list \<times> ('b, 's) ring" where
  "ring_run balloc bfree cap BlockSize [] r = ([], r)"
| "ring_run balloc bfree cap BlockSize (FreeBlocks coherent_id # es) r =
     ring_run balloc bfree cap BlockSize es (free_blocks bfree BlockSize coherent_id r)"
| "ring_run balloc bfree cap BlockSize (Allocate seq_id coherent_id bytes k # es) r =
     (let (res, r') = allocate balloc bfree BlockSize seq_id coherent_id bytes (2 ^ k) r;
          (ps, r'') = ring_run balloc bfree cap BlockSize es r'
      in (\<lparr>p_block = fst res, p_offset = snd res, p_bytes = bytes, p_align = k, p_seq = seq_id,
            p_coherent = coherent_id, p_capacity = cap (allocator r') (fst res)\<rparr> # ps, r''))"

text \<open>Sequence ids and completed ids do not go backwards; sizes and alignments are sane.\<close>

fun ring_events_ok :: "u64 \<Rightarrow> u64 \<Rightarrow> ring_event list \<Rightarrow> bool" where
  "ring_events_ok sq c [] = True"
| "ring_events_ok sq c (FreeBlocks c' # es) \<longleftrightarrow> c \<le> c' \<and> ring_events_ok sq c' es"
| "ring_events_ok sq c (Allocate s c' bytes k # es) \<longleftrightarrow>
     sq \<le> s \<and> c \<le> c' \<and> unat bytes \<le> 2 ^ 62 \<and> k < 32 \<and> ring_events_ok s c' es"

definition not_clobbered :: "'b placement \<Rightarrow> 'b placement \<Rightarrow> bool" where
  "not_clobbered p q \<longleftrightarrow>
     p_block p \<noteq> p_block q \<or> unat (p_offset p) + unat (p_bytes p) \<le> unat (p_offset q) \<or>
     p_seq p \<le> p_coherent q"

definition well_placed :: "'b placement \<Rightarrow> bool" where
  "well_placed p \<longleftrightarrow> 2 ^ p_align p dvd unat (p_offset p) \<and>
     (case p_capacity p of None \<Rightarrow> False | Some n \<Rightarrow> unat (p_offset p) + unat (p_bytes p) \<le> unat n)"

section \<open>The contract of a block allocator\<close>

locale block_allocator =
  fixes balloc :: "'s \<Rightarrow> u64 \<Rightarrow> 'b \<times> 's"
    and bfree :: "'s \<Rightarrow> 'b \<Rightarrow> 's"
    and owned :: "'s \<Rightarrow> 'b \<rightharpoonup> u64"
  assumes alloc_fresh: "balloc s n = (b, s') \<Longrightarrow> owned s b = None \<and> owned s' = (owned s)(b \<mapsto> n)"
    and free_owned: "owned (bfree s b) = (owned s)(b := None)"
begin

text \<open>
  \<open>log\<close> holds the allocations made so far: block, offset, size and sequence id.  \<open>ring_ok\<close>:
  the blocks of the queue are distinct and they are the owned ones outside \<open>base\<close>, and every allocation either has a
  completed sequence id (at most \<open>done\<close>) or lies below the bump pointer of a queued block
  that is marked as used at least as late.
\<close>

definition protects :: "'b allocation \<Rightarrow> 'b \<times> nat \<times> nat \<times> nat \<Rightarrow> bool" where
  "protects a e \<longleftrightarrow> (case e of (b, off, n, sq) \<Rightarrow>
     b = block a \<and> off + n \<le> unat (allocated_size a) \<and> sq \<le> unat (last_used_seq_id a))"

definition entry_ok :: "'b allocation \<Rightarrow> bool" where
  "entry_ok a \<longleftrightarrow> allocated_size a \<le> total_size a \<and> unat (total_size a) \<le> 2 ^ 62"

definition ring_ok :: "'b set \<Rightarrow> nat \<Rightarrow> nat \<Rightarrow> ('b \<times> nat \<times> nat \<times> nat) set \<Rightarrow> ('b, 's) ring \<Rightarrow> bool" where
  "ring_ok base fin sq log r \<longleftrightarrow>
     distinct (map block (fifo r)) \<and> block ` set (fifo r) = dom (owned (allocator r)) - base \<and> base \<subseteq> dom (owned (allocator r)) \<and>
     (\<forall>a \<in> set (fifo r). entry_ok a \<and> unat (last_used_seq_id a) \<le> sq \<and>
        owned (allocator r) (block a) = Some (total_size a)) \<and>
     (\<forall>e \<in> log. snd (snd (snd e)) \<le> fin \<or> (\<exists>a \<in> set (fifo r). protects a e))"

lemma ring_eta: "\<lparr>fifo = fifo r, allocator = allocator r\<rparr> = r" for r :: "('b, 's) ring"
  by simp

lemma ring_ok_mono: "ring_ok base fin sq log r \<Longrightarrow> fin \<le> fin' \<Longrightarrow> sq \<le> sq' \<Longrightarrow> ring_ok base fin' sq' log r"
  unfolding ring_ok_def by (meson le_trans)

text \<open>Removing the first block of the queue when its last use has completed.\<close>

lemma ring_ok_pop:
  assumes "ring_ok base fin sq log \<lparr>fifo = a # q, allocator = s\<rparr>" "unat (last_used_seq_id a) \<le> fin"
  shows "ring_ok base fin sq log \<lparr>fifo = q, allocator = bfree s (block a)\<rparr>"
proof -
  have d: "block a \<notin> block ` set q" "distinct (map block q)" and ow: "insert (block a) (block ` set q) = dom (owned s) - base" "base \<subseteq> dom (owned s)"
    and es: "\<forall>x \<in> set q. entry_ok x \<and> unat (last_used_seq_id x) \<le> sq \<and> owned s (block x) = Some (total_size x)"
    and lg: "\<forall>e \<in> log. snd (snd (snd e)) \<le> fin \<or> protects a e \<or> (\<exists>x \<in> set q. protects x e)"
    using assms(1) by (simp_all add: ring_ok_def)
  have "snd (snd (snd e)) \<le> fin" if "protects a e" for e
    using that assms(2) by (cases e) (simp add: protects_def)
  then have "\<forall>e \<in> log. snd (snd (snd e)) \<le> fin \<or> (\<exists>x \<in> set q. protects x e)" using lg by blast
  moreover have "block ` set q = dom (owned (bfree s (block a))) - base" "base \<subseteq> dom (owned (bfree s (block a)))"
    using d(1) ow by (simp_all add: free_owned) blast+
  moreover have "\<forall>x \<in> set q. owned (bfree s (block a)) (block x) = Some (total_size x)"
    using d(1) es by (simp add: free_owned) (metis image_eqI)
  ultimately show ?thesis using d(2) es by (simp add: ring_ok_def)
qed

lemma ring_ok_free_loop:
  assumes "ring_ok base fin sq log \<lparr>fifo = q, allocator = s\<rparr>" "unat c \<le> fin"
  shows "ring_ok base fin sq log (free_loop bfree BlockSize c q s)"
  using assms
proof (induction q arbitrary: s)
  case (Cons a q)
  show ?case
  proof (cases "last_used_seq_id a > c")
    case False
    then have "unat (last_used_seq_id a) \<le> fin" using Cons.prems(2) by (simp add: not_less word_le_nat_alt)
    then have "ring_ok base fin sq log (free_loop bfree BlockSize c q (bfree s (block a)))"
      using Cons ring_ok_pop by blast
    moreover have "ring_ok base fin sq log
        \<lparr>fifo = a\<lparr>inc_time_to_live := inc_time_to_live a + 1\<rparr> # q, allocator = s\<rparr>"
      using Cons.prems(1) by (auto simp: ring_ok_def protects_def entry_ok_def)
    ultimately show ?thesis using False by (simp add: Let_def)
  qed (use Cons.prems in simp)
qed simp

text \<open>
  The ring after a block was pushed, or rotated to the end with a reset bump pointer: every
  earlier allocation in that block has completed.
\<close>

definition fresh_last ::
  "'b set \<Rightarrow> nat \<Rightarrow> u64 \<Rightarrow> u64 \<Rightarrow> ('b \<times> nat \<times> nat \<times> nat) set \<Rightarrow> ('b, 's) ring \<Rightarrow> bool" where
  "fresh_last base fin seq_id block_size log r \<longleftrightarrow>
     ring_ok base fin (unat seq_id) log r \<and> fifo r \<noteq> [] \<and>
     allocated_size (last (fifo r)) = 0 \<and> last_used_seq_id (last (fifo r)) = seq_id \<and>
     block_size \<le> total_size (last (fifo r)) \<and>
     (\<forall>e \<in> log. fst e = block (last (fifo r)) \<longrightarrow> snd (snd (snd e)) \<le> fin)"

lemma ring_okD:
  assumes "ring_ok base fin sq log r"
  shows "distinct (map block (fifo r))" "block ` set (fifo r) = dom (owned (allocator r)) - base \<and> base \<subseteq> dom (owned (allocator r))"
    "a \<in> set (fifo r) \<Longrightarrow> entry_ok a" "a \<in> set (fifo r) \<Longrightarrow> unat (last_used_seq_id a) \<le> sq"
    "e \<in> log \<Longrightarrow> snd (snd (snd e)) \<le> fin \<or> (\<exists>a \<in> set (fifo r). protects a e)"
    "a \<in> set (fifo r) \<Longrightarrow> owned (allocator r) (block a) = Some (total_size a)"
  using assms by (simp_all add: ring_ok_def)

lemma protects_block: "protects a e \<Longrightarrow> fst e = block a"
  and protects_seq: "protects a e \<Longrightarrow> snd (snd (snd e)) \<le> unat (last_used_seq_id a)"
  by (auto simp: protects_def split: prod.splits)

lemma fresh_last_push_new:
  assumes ok: "ring_ok base fin sq log \<lparr>fifo = q, allocator = s\<rparr>"
    and bs: "unat block_size \<le> 2 ^ 62" and sq: "sq \<le> unat seq_id"
  shows "fresh_last base fin seq_id block_size log (push_new balloc seq_id block_size q s)"
proof -
  note k = ring_okD [OF ok, simplified]
  obtain b s' where b: "balloc s block_size = (b, s')" by (cases "balloc s block_size")
  note fresh = alloc_fresh [OF b]
  then have nb: "b \<notin> block ` set q" using k(2) by (simp add: domIff)
  have "snd (snd (snd e)) \<le> fin" if "e \<in> log" "fst e = b" for e
    using k(5) [OF that(1)] that(2) nb protects_block by (metis image_eqI)
  moreover have "\<forall>x \<in> set q. entry_ok x \<and> unat (last_used_seq_id x) \<le> unat seq_id \<and>
      owned s' (block x) = Some (total_size x)"
    using k(3,4,6) sq le_trans nb fresh by (metis fun_upd_other image_eqI)
  moreover have "\<forall>e \<in> log. snd (snd (snd e)) \<le> fin \<or> (\<exists>x \<in> set q. protects x e)" using k(5) by blast
  ultimately show ?thesis
    using k(1,2) nb fresh bs unfolding fresh_last_def ring_ok_def push_new_def b
    by (simp add: entry_ok_def del: split_paired_All) blast
qed

lemma fresh_last_rotate:
  assumes ok: "ring_ok base fin sq log \<lparr>fifo = a # q, allocator = s\<rparr>"
    and fin: "unat (last_used_seq_id a) \<le> fin" and sq: "sq \<le> unat seq_id"
    and bs: "block_size \<le> total_size a"
  shows "fresh_last base fin seq_id block_size log
    \<lparr>fifo = q @ [a\<lparr>last_used_seq_id := seq_id, allocated_size := 0, inc_time_to_live := 0\<rparr>], allocator = s\<rparr>"
proof -
  note k = ring_okD [OF ok, simplified]
  have ba: "block a \<notin> block ` set q" using k(1) by simp
  have lg: "snd (snd (snd e)) \<le> fin \<or> (\<exists>x \<in> set q. protects x e)" if "e \<in> log" for e
    using k(5) [OF that] protects_seq [of a e] fin by auto
  have "snd (snd (snd e)) \<le> fin" if "e \<in> log" "fst e = block a" for e
    using lg [OF that(1)] that(2) ba protects_block by (metis image_eqI)
  moreover have "\<forall>x \<in> set q. entry_ok x \<and> unat (last_used_seq_id x) \<le> unat seq_id \<and>
      owned s (block x) = Some (total_size x)"
    using k(3,4,6) sq le_trans by (meson list.set_intros(2))
  moreover have "entry_ok a" "owned s (block a) = Some (total_size a)" using k(3,6) by simp_all
  moreover have "\<forall>e \<in> log. snd (snd (snd e)) \<le> fin \<or> (\<exists>x \<in> set q. protects x e)" using lg by blast
  ultimately show ?thesis
    using k(1,2) ba bs unfolding fresh_last_def ring_ok_def
    by (simp add: entry_ok_def del: split_paired_All) blast
qed

lemma fresh_last_allocate_or_reuse:
  assumes "ring_ok base fin sq log \<lparr>fifo = q, allocator = s\<rparr>"
    and "unat block_size \<le> 2 ^ 62" "sq \<le> unat seq_id" "unat c \<le> fin"
  shows "fresh_last base fin seq_id block_size log
    (allocate_or_reuse_block balloc bfree BlockSize seq_id c block_size q s)"
  using assms(1)
proof (induction q arbitrary: s)
  case Nil
  then show ?case using fresh_last_push_new [OF Nil assms(2,3)] by simp
next
  case (Cons a q)
  note new = fresh_last_push_new [OF Cons.prems assms(2,3)]
  show ?case
  proof (cases "last_used_seq_id a < c")
    case True
    then have fin: "unat (last_used_seq_id a) \<le> fin" using assms(4) by (simp add: word_less_nat_alt)
    show ?thesis
      using True new Cons.IH [OF ring_ok_pop [OF Cons.prems fin]] fresh_last_rotate [OF Cons.prems fin assms(3)]
      by simp
  qed (use new in simp)
qed

text \<open>The bump itself: what it returns, and that it keeps the invariant with a longer log.\<close>

definition placed :: "('b \<times> u64) \<Rightarrow> u64 \<Rightarrow> u64 \<Rightarrow> 'b \<times> nat \<times> nat \<times> nat" where
  "placed res bytes seq_id = (fst res, unat (snd res), unat bytes, unat seq_id)"

definition separate :: "nat \<Rightarrow> 'b \<times> nat \<times> nat \<times> nat \<Rightarrow> 'b \<times> nat \<times> nat \<times> nat \<Rightarrow> bool" where
  "separate fin e e' \<longleftrightarrow> (case (e, e') of ((b, off, n, sq), (b', off', n', sq')) \<Rightarrow>
     b \<noteq> b' \<or> off + n \<le> off' \<or> sq \<le> fin)"

lemma bump_ok:
  assumes ok: "ring_ok base fin (unat seq_id) log r" and ne: "fifo r \<noteq> []"
    and fits: "unat (align (allocated_size (last (fifo r))) (2 ^ k)) + unat bytes
      \<le> unat (total_size (last (fifo r)))"
    and k: "k < 32" and lu: "last_used_seq_id (last (fifo r)) = seq_id"
    and res: "suballocate_last r bytes (2 ^ k) = (res, r')"
  shows "ring_ok base fin (unat seq_id) (insert (placed res bytes seq_id) log) r'"
    and "2 ^ k dvd unat (snd res)"
    and "\<exists>n. owned (allocator r') (fst res) = Some n \<and> unat (snd res) + unat bytes \<le> unat n"
    and "\<forall>e \<in> log. separate fin e (placed res bytes seq_id)"
proof -
  let ?a = "last (fifo r)" and ?q = "butlast (fifo r)"
  let ?off = "align (allocated_size ?a) (2 ^ k)"
  let ?a' = "?a\<lparr>allocated_size := ?off + bytes\<rparr>"
  have f: "fifo r = ?q @ [?a]" using ne by simp
  note kk = ring_okD [OF ok]
  have ea: "entry_ok ?a" using kk(3) ne by simp
  have r': "res = (block ?a, ?off)" "r' = r\<lparr>fifo := ?q @ [?a']\<rparr>"
    using res by (auto simp: suballocate_last_def suballocate_def Let_def)
  have tot: "unat (total_size ?a) \<le> 2 ^ 62" "unat (allocated_size ?a) \<le> 2 ^ 62"
    using ea by (auto simp: entry_ok_def word_le_nat_alt)
  have "(2 :: nat) ^ k \<le> 2 ^ 32" using k by (intro power_increasing) simp_all
  then have cap: "unat (allocated_size ?a) + 2 ^ k \<le> 2 ^ LENGTH(64)" using tot(2) by simp
  have k64: "k < LENGTH(64)" using k by simp
  note al = align_ge [OF k64 cap]
  have sum: "unat (?off + bytes) = unat ?off + unat bytes"
    using fits tot(1) by (simp add: unat_word_ariths)
  show "2 ^ k dvd unat (snd res)" using al(3) by (simp add: r')
  have oa: "owned (allocator r) (block ?a) = Some (total_size ?a)" using kk(6) ne by simp
  then show "\<exists>n. owned (allocator r') (fst res) = Some n \<and> unat (snd res) + unat bytes \<le> unat n"
    using fits by (simp add: r')
  have ow: "block ` set (fifo r') = block ` set (fifo r)" "map block (fifo r') = map block (fifo r)"
    unfolding r' by (subst (3) f, simp)+
  have prot: "protects ?a' e" if "protects ?a e" for e
    using that al(1) by (auto simp: protects_def sum split: prod.splits)
  have new: "\<exists>x \<in> set (fifo r'). protects x (placed res bytes seq_id)"
    by (simp add: protects_def placed_def r' sum lu)
  have old: "\<exists>x \<in> set (fifo r'). protects x e" if "\<exists>x \<in> set (fifo r). protects x e" for e
  proof -
    from that obtain x where x: "x \<in> set (fifo r)" "protects x e" by blast
    then have "x \<in> set ?q \<or> x = ?a" using f by (metis Un_iff empty_iff insert_iff list.set set_append)
    then show ?thesis
    proof
      assume "x \<in> set ?q" then show ?thesis using x(2) by (auto simp: r')
    next
      assume "x = ?a" then show ?thesis using prot [of e] x(2) by (simp add: r')
    qed
  qed
  have lg: "\<forall>e \<in> insert (placed res bytes seq_id) log.
      snd (snd (snd e)) \<le> fin \<or> (\<exists>x \<in> set (fifo r'). protects x e)"
    using kk(5) new old by blast
  have "entry_ok ?a'" using fits ea by (simp add: entry_ok_def word_le_nat_alt sum)
  then have "\<forall>x \<in> set (fifo r'). entry_ok x \<and> unat (last_used_seq_id x) \<le> unat seq_id \<and>
      owned (allocator r') (block x) = Some (total_size x)"
    using kk(3,4,6) oa unfolding r' by (auto simp: lu dest: in_set_butlastD)
  then show "ring_ok base fin (unat seq_id) (insert (placed res bytes seq_id) log) r'"
    unfolding ring_ok_def using lg kk(1,2) ow by (simp add: r')
  show "\<forall>e \<in> log. separate fin e (placed res bytes seq_id)"
  proof
    fix e assume e: "e \<in> log"
    show "separate fin e (placed res bytes seq_id)"
    proof (cases "snd (snd (snd e)) \<le> fin")
      case False
      then obtain x where x: "x \<in> set (fifo r)" "protects x e" using kk(5) [OF e] by blast
      show ?thesis
      proof (cases "x = ?a")
        case True
        then show ?thesis using x(2) al(1)
          by (auto simp: separate_def placed_def r' protects_def split: prod.splits)
      next
        case False
        have "distinct (map block ?q @ [block ?a])" using kk(1) by (subst (asm) f) simp
        moreover have "x \<in> set ?q" using x(1) False by (subst (asm) f) simp
        ultimately have "block x \<noteq> block ?a" by simp (metis image_eqI)
        then show ?thesis using protects_block [OF x(2)]
          by (auto simp: separate_def placed_def r' split: prod.splits)
      qed
    qed (auto simp: separate_def split: prod.splits)
  qed
qed

text \<open>Marking the last block as used by \<open>seq_id\<close>.\<close>

lemma ring_ok_touch:
  assumes ok: "ring_ok base fin sq log r" and ne: "fifo r \<noteq> []" and sq: "sq \<le> unat seq_id"
  shows "ring_ok base fin (unat seq_id) log
    (r\<lparr>fifo := butlast (fifo r) @ [(last (fifo r))\<lparr>last_used_seq_id := seq_id\<rparr>]\<rparr>)"
    (is "ring_ok _ _ _ _ ?r'")
proof -
  let ?a = "last (fifo r)" and ?q = "butlast (fifo r)"
  let ?a' = "?a\<lparr>last_used_seq_id := seq_id\<rparr>"
  note kk = ring_okD [OF ok]
  have f: "fifo r = ?q @ [?a]" using ne by simp
  have mem: "x \<in> set (fifo r) \<longleftrightarrow> x \<in> set ?q \<or> x = ?a" for x
    using f by (metis Un_iff empty_iff insert_iff list.set set_append)
  have blocks: "map block (fifo ?r') = map block (fifo r)" by (subst (3) f) simp
  then have "block ` set (fifo ?r') = block ` set (fifo r)" by (metis set_map)
  moreover have "\<forall>x \<in> set (fifo ?r'). entry_ok x \<and> unat (last_used_seq_id x) \<le> unat seq_id \<and>
      owned (allocator r) (block x) = Some (total_size x)"
    using kk(3,4,6) mem sq by (auto simp: entry_ok_def intro: le_trans)
  moreover have lg: "\<exists>x \<in> set (fifo ?r'). protects x e" if "\<exists>x \<in> set (fifo r). protects x e" for e
  proof -
    from that obtain x where x: "x \<in> set (fifo r)" "protects x e" by blast
    show ?thesis
    proof (cases "x = ?a")
      case True
      have "snd (snd (snd e)) \<le> unat seq_id"
        using protects_seq [OF x(2)] kk(4) [OF x(1)] sq by simp
      then have "protects ?a' e" using x(2) True by (auto simp: protects_def split: prod.splits)
      then show ?thesis by simp
    qed (use x mem in auto)
  qed
  moreover have "allocator ?r' = allocator r" by simp
  moreover have "\<forall>e \<in> log. snd (snd (snd e)) \<le> fin \<or> (\<exists>x \<in> set (fifo ?r'). protects x e)"
    using kk(5) lg by blast
  ultimately show ?thesis unfolding ring_ok_def by (simp only: blocks kk(1,2) simp_thms)
qed

text \<open>\<open>allocate\<close>, on either path.\<close>

lemma allocate_ok:
  assumes ok: "ring_ok base fin sq log r" and sq: "sq \<le> unat seq_id" and c: "unat c \<le> fin"
    and bs: "unat bytes \<le> 2 ^ 62" "unat BlockSize \<le> 2 ^ 62" and k: "k < 32"
    and res: "allocate balloc bfree BlockSize seq_id c bytes (2 ^ k) r = (res, r')"
  shows "ring_ok base fin (unat seq_id) (insert (placed res bytes seq_id) log) r'"
    and "2 ^ k dvd unat (snd res)"
    and "\<exists>n. owned (allocator r') (fst res) = Some n \<and> unat (snd res) + unat bytes \<le> unat n"
    and "\<forall>e \<in> log. separate fin e (placed res bytes seq_id)"
proof -
  let ?a = "last (fifo r)"
  have "\<exists>r1. ring_ok base fin (unat seq_id) log r1 \<and> fifo r1 \<noteq> [] \<and>
      unat (align (allocated_size (last (fifo r1))) (2 ^ k)) + unat bytes \<le> unat (total_size (last (fifo r1))) \<and>
      last_used_seq_id (last (fifo r1)) = seq_id \<and> suballocate_last r1 bytes (2 ^ k) = (res, r')"
  proof (cases "fifo r \<noteq> [] \<and> \<not> align (allocated_size ?a) (2 ^ k) + bytes > total_size ?a")
    case True
    let ?r1 = "r\<lparr>fifo := butlast (fifo r) @ [?a\<lparr>last_used_seq_id := seq_id\<rparr>]\<rparr>"
    have "entry_ok ?a" using ring_okD(3) [OF ok] True by simp
    then have tot: "unat (allocated_size ?a) \<le> 2 ^ 62" by (auto simp: entry_ok_def word_le_nat_alt)
    have "(2 :: nat) ^ k \<le> 2 ^ 32" using k by (intro power_increasing) simp_all
    then have cap: "unat (allocated_size ?a) + 2 ^ k \<le> 2 ^ LENGTH(64)" using tot by simp
    have "unat (align (allocated_size ?a) (2 ^ k)) \<le> 2 ^ 62 + 2 ^ 32"
      using align_ge(2) [OF _ cap] k tot \<open>(2 :: nat) ^ k \<le> 2 ^ 32\<close> by simp
    then have "unat (align (allocated_size ?a) (2 ^ k) + bytes) = unat (align (allocated_size ?a) (2 ^ k)) + unat bytes"
      using bs(1) by (simp add: unat_word_ariths)
    then have fits: "unat (align (allocated_size ?a) (2 ^ k)) + unat bytes \<le> unat (total_size ?a)"
      using True by (simp add: not_less word_le_nat_alt)
    have "ring_ok base fin (unat seq_id) log ?r1"
      using ring_ok_touch [OF ok _ sq] True by simp
    then show ?thesis using fits True res by (intro exI [of _ ?r1]) (simp add: allocate_def)
  next
    case False
    let ?r1 = "allocate_or_reuse_block balloc bfree BlockSize seq_id c (max bytes BlockSize) (fifo r) (allocator r)"
    have "unat (max bytes BlockSize) \<le> 2 ^ 62" using bs by (simp add: max_def)
    moreover have "\<lparr>fifo = fifo r, allocator = allocator r\<rparr> = r" by simp
    ultimately have fr: "fresh_last base fin seq_id (max bytes BlockSize) log ?r1"
      using fresh_last_allocate_or_reuse sq c ok by metis
    have "unat (align 0 (2 ^ k) :: u64) = 0" by simp
    then show ?thesis
      using fr False res unfolding fresh_last_def
      by (intro exI [of _ ?r1]) (auto simp: allocate_def word_le_nat_alt max_def split: if_splits)
  qed
  then obtain r1 where r1: "ring_ok base fin (unat seq_id) log r1" "fifo r1 \<noteq> []"
      "unat (align (allocated_size (last (fifo r1))) (2 ^ k)) + unat bytes \<le> unat (total_size (last (fifo r1)))"
      "last_used_seq_id (last (fifo r1)) = seq_id" "suballocate_last r1 bytes (2 ^ k) = (res, r')"
    by blast
  note b = bump_ok [OF r1(1-3) k r1(4,5)]
  show "ring_ok base fin (unat seq_id) (insert (placed res bytes seq_id) log) r'" by (rule b(1))
  show "2 ^ k dvd unat (snd res)" by (rule b(2))
  show "\<exists>n. owned (allocator r') (fst res) = Some n \<and> unat (snd res) + unat bytes \<le> unat n" by (rule b(3))
  show "\<forall>e \<in> log. separate fin e (placed res bytes seq_id)" by (rule b(4))
qed

text \<open>Runs of the allocator keep the invariant, and their results satisfy the contract.\<close>

definition log_entry :: "'b placement \<Rightarrow> 'b \<times> nat \<times> nat \<times> nat" where
  "log_entry p = placed (p_block p, p_offset p) (p_bytes p) (p_seq p)"

lemma not_clobbered_separate:
  "not_clobbered p q \<longleftrightarrow> separate (unat (p_coherent q)) (log_entry p) (log_entry q)"
  by (simp add: not_clobbered_def separate_def log_entry_def placed_def word_le_nat_alt)

lemma ring_run_ok:
  assumes "ring_ok base (unat c) (unat sq) log r" and "ring_events_ok sq c es" and "unat BlockSize \<le> 2 ^ 62"
    and "ring_run balloc bfree owned BlockSize es r = (ps, r')"
  shows "sorted_wrt not_clobbered ps \<and> (\<forall>p \<in> set ps. well_placed p) \<and>
    (\<forall>e \<in> log. \<forall>p \<in> set ps. separate (unat (p_coherent p)) e (log_entry p)) \<and>
    (\<exists>c' sq' log'. ring_ok base c' sq' log' r')"
  using assms
proof (induction es arbitrary: c sq log r ps)
  case Nil
  then show ?case by auto
next
  case (Cons ev es)
  show ?case
  proof (cases ev)
    case (FreeBlocks c')
    have cc: "c \<le> c'" "ring_events_ok sq c' es" using Cons.prems(2) FreeBlocks by auto
    have "ring_ok base (unat c') (unat sq) log \<lparr>fifo = fifo r, allocator = allocator r\<rparr>"
      unfolding ring_eta using ring_ok_mono [OF Cons.prems(1)] cc(1) by (simp add: word_le_nat_alt)
    then have "ring_ok base (unat c') (unat sq) log (free_blocks bfree BlockSize c' r)"
      unfolding free_blocks_def by (rule ring_ok_free_loop) simp
    from Cons.IH [OF this cc(2) Cons.prems(3)] Cons.prems(4) FreeBlocks show ?thesis by simp
  next
    case (Allocate s c' bytes k)
    have w: "unat sq \<le> unat s" "unat c \<le> unat c'" "unat bytes \<le> 2 ^ 62" "k < 32" "ring_events_ok s c' es"
      using Cons.prems(2) Allocate by (auto simp: word_le_nat_alt)
    obtain res r1 where a: "allocate balloc bfree BlockSize s c' bytes (2 ^ k) r = (res, r1)" by fastforce
    let ?p = "\<lparr>p_block = fst res, p_offset = snd res, p_bytes = bytes, p_align = k, p_seq = s,
      p_coherent = c', p_capacity = owned (allocator r1) (fst res)\<rparr>"
    obtain ps1 where run: "ring_run balloc bfree owned BlockSize es r1 = (ps1, r')"
      using Cons.prems(4) Allocate a by (auto simp: Let_def split: prod.splits)
    then have ps: "ps = ?p # ps1"
      using Cons.prems(4) Allocate a by (simp add: Let_def split: prod.splits)
    have entry: "log_entry ?p = placed res bytes s" by (simp add: log_entry_def)
    note ok = ring_ok_mono [OF Cons.prems(1) w(2) le_refl]
    note al = allocate_ok [OF ok w(1) le_refl w(3) Cons.prems(3) w(4) a]
    from Cons.IH [OF al(1) w(5) Cons.prems(3) run]
    have ih: "sorted_wrt not_clobbered ps1" "\<forall>p \<in> set ps1. well_placed p"
        "\<forall>e \<in> insert (log_entry ?p) log. \<forall>p \<in> set ps1. separate (unat (p_coherent p)) e (log_entry p)"
        "\<exists>c' sq' log'. ring_ok base c' sq' log' r'"
      unfolding entry by blast+
    have "well_placed ?p" using al(2,3) by (auto simp: well_placed_def)
    moreover have "\<forall>q \<in> set ps1. not_clobbered ?p q" using ih(3) not_clobbered_separate by blast
    moreover have "\<forall>e \<in> log. separate (unat (p_coherent ?p)) e (log_entry ?p)"
      using al(4) by (simp add: entry)
    ultimately show ?thesis using ih by (simp add: ps)
  qed
qed

text \<open>\<open>free_blocks\<close> with the largest id releases everything the ring holds.\<close>

lemma free_loop_all: "fifo (free_loop bfree BlockSize (- 1) q s) = []"
  by (induction q arbitrary: s) (simp_all add: Let_def)

lemma free_all:
  assumes "ring_ok base fin sq log r"
  shows "dom (owned (allocator (free_blocks bfree BlockSize (- 1) r))) = base"
proof -
  have "ring_ok base (max fin (unat (- 1 :: u64))) sq log \<lparr>fifo = fifo r, allocator = allocator r\<rparr>"
    unfolding ring_eta using ring_ok_mono [OF assms] by simp
  then have "ring_ok base (max fin (unat (- 1 :: u64))) sq log (free_blocks bfree BlockSize (- 1) r)"
    unfolding free_blocks_def by (rule ring_ok_free_loop) simp
  note k = ring_okD(2) [OF this]
  have "fifo (free_blocks bfree BlockSize (- 1) r) = []" by (simp add: free_blocks_def free_loop_all)
  then show ?thesis using k by auto
qed

lemma ring_ok_init: "ring_ok (dom (owned s)) 0 0 {} \<lparr>fifo = [], allocator = s\<rparr>"
  by (simp add: ring_ok_def)

text \<open>A run from an empty ring.\<close>

lemma run_contract:
  assumes "ring_events_ok 0 0 es" and "unat BlockSize \<le> 2 ^ 62"
    and run: "ring_run balloc bfree owned BlockSize es \<lparr>fifo = [], allocator = s\<rparr> = (ps, r')"
  shows "sorted_wrt not_clobbered ps" and "\<forall>p \<in> set ps. well_placed p"
    and "dom (owned (allocator (free_blocks bfree BlockSize (- 1) r'))) = dom (owned s)"
proof -
  have "ring_ok (dom (owned s)) (unat (0 :: u64)) (unat (0 :: u64)) {} \<lparr>fifo = [], allocator = s\<rparr>"
    using ring_ok_init by simp
  note r = ring_run_ok [OF this assms]
  show "sorted_wrt not_clobbered ps" "\<forall>p \<in> set ps. well_placed p" using r by simp_all
  show "dom (owned (allocator (free_blocks bfree BlockSize (- 1) r'))) = dom (owned s)"
    using r free_all by blast
qed

end

section \<open>Host blocks\<close>

lemma malloc_fresh: "\<forall>e \<in> set h. fst e \<le> foldr (\<lambda>e. max (fst e)) h 0" for h :: heap
proof (induction h)
  case (Cons a h)
  show ?case
  proof
    fix e assume "e \<in> set (a # h)"
    then have "e = a \<or> fst e \<le> foldr (\<lambda>e. max (fst e)) h 0" using Cons.IH by auto
    then show "fst e \<le> foldr (\<lambda>e. max (fst e)) (a # h) 0" by (auto simp: le_max_iff_disj)
  qed
qed simp

lemma live_filter: "map_of (filter (\<lambda>(q, _). q \<noteq> p) h) = (map_of h)(p := None)"
  by (induction h) (auto simp: fun_eq_iff)

interpretation host: block_allocator host_allocate host_release live
proof
  fix h h' :: heap and n b
  assume "host_allocate h n = (b, h')"
  then have b: "b = Suc (foldr (\<lambda>e. max (fst e)) h 0)" "h' = (b, n) # h"
    by (auto simp: host_allocate_def malloc_def Let_def)
  have "\<forall>e \<in> set h. fst e \<noteq> b" using malloc_fresh [of h] b(1) by fastforce
  then have "map_of h b = None" by (auto simp: map_of_eq_None_iff)
  then show "live h b = None \<and> live h' = (live h)(b \<mapsto> n)" by (simp add: live_def b(2))
next
  fix h :: heap and b
  show "live (host_release h b) = (live h)(b := None)"
    by (simp add: live_def host_release_def heap_free_def live_filter)
qed

text \<open>The rings of the program use blocks of 32 MB, those of deferred contexts 2 MB.\<close>

definition kStagingBlockSize :: u64 where "kStagingBlockSize = 0x2000000"
definition kStagingBlockSizeForDeferredContext :: u64 where "kStagingBlockSizeForDeferredContext = 0x200000"

definition host_run :: "ring_event list \<Rightarrow> heap \<Rightarrow> nat placement list \<times> (nat, heap) ring" where
  "host_run es h =
     ring_run host_allocate host_release live kStagingBlockSize es \<lparr>fifo = [], allocator = h\<rparr>"

lemma host_run_eq:
  "ring_run host_allocate host_release live kStagingBlockSize es \<lparr>fifo = [], allocator = h\<rparr> =
    (fst (host_run es h), snd (host_run es h))"
  by (simp add: host_run_def)

lemma staging_block_size: "unat kStagingBlockSize \<le> 2 ^ 62"
  by (simp add: kStagingBlockSize_def)

section \<open>Properties\<close>

text \<open>
  A run used by the witnesses: two requests share the first block, a large one needs a block
  of its own, and after command buffer 2 has completed the first block and the address of the second come back.
\<close>

definition sample_ring_events :: "ring_event list" where
  "sample_ring_events =
     [Allocate 1 0 100 4, Allocate 1 0 50 8, Allocate 2 0 0x2000001 4, FreeBlocks 1,
      Allocate 5 3 64 6, FreeBlocks 4, Allocate 6 4 0x1ffffff 0]"

lemma sample_ring_events_ok: "ring_events_ok 0 0 sample_ring_events"
  by (simp add: sample_ring_events_def)



text \<open>
  C28. Every allocation is aligned as asked and lies inside a live block of the heap, also when
  it is larger than the block size of the ring.
\<close>

theorem ring_in_bounds:
  assumes "ring_events_ok 0 0 es"
  shows "\<forall>p \<in> set (fst (host_run es h)). well_placed p"
  by (rule host.run_contract(2) [OF assms staging_block_size host_run_eq])

lemma ring_in_bounds_witness:
  "list_all well_placed (fst (host_run sample_ring_events [(7, 16)])) \<and>
    map p_align (fst (host_run sample_ring_events [(7, 16)])) = [4, 8, 4, 6, 0]"
proof
  show "list_all well_placed (fst (host_run sample_ring_events [(7, 16)]))"
    using ring_in_bounds [OF sample_ring_events_ok] by (simp add: list_all_iff)
  show "map p_align (fst (host_run sample_ring_events [(7, 16)])) = [4, 8, 4, 6, 0]" by code_simp
qed

text \<open>
  The ring leaks nothing: after any run, \<open>free_blocks\<close> with the id \<open>-1\<close> that a
  deferred context passes at its end gives back every block, and only those.
\<close>

theorem ring_no_leak:
  assumes "ring_events_ok 0 0 es"
  shows "dom (live (allocator (free_blocks host_release kStagingBlockSize (- 1) (snd (host_run es h)))))
    = dom (live h)"
  by (rule host.run_contract(3) [OF assms staging_block_size host_run_eq])

lemma ring_no_leak_witness:
  "dom (live (allocator (free_blocks host_release kStagingBlockSize (- 1)
    (snd (host_run sample_ring_events [(7, 16)]))))) = {7}"
  using ring_no_leak [OF sample_ring_events_ok, of "[(7, 16)]"] by (simp add: live_def)

end
