(* ===== verification/CommandQueue.thy ===== *)
theory CommandQueue
  imports RingBump "HOL-Library.Sublist"
begin

text \<open>
  \<open>CommandQueue\<close> and \<open>CommandChunk\<close> of \<open>src/dxmt/dxmt_command_queue.hpp\<close> and \<open>.cpp\<close>, with
  \<open>CpuFence\<close> of \<open>src/util/util_cpu_fence.hpp\<close>: the application thread records commands in a
  ring of 32 chunks, the encoding thread turns each committed chunk into a Metal command
  buffer, and the finish thread waits for the GPU and recycles the chunk.  The threads are
  step functions over one state, interleaved in any order; the properties are first-in
  first-out execution, the safety of the commands' memory, the frame latency bound and the
  absence of deadlock.

  The event and frame counters are 64-bit in the code and start from 0 or 1; they are \<open>nat\<close>
  here.  \<open>chunk_ongoing\<close>, which can drop below zero for a moment, is kept at its width.
  Not modelled: the destructor, the statistics, the Metal frame capture, and the allocation
  references of \<open>Retain\<close>.
\<close>

section \<open>\<open>CpuFence\<close>\<close>

definition fence_signal :: "nat \<Rightarrow> nat \<Rightarrow> nat" where
  "fence_signal v current = (if v \<le> current then current else v)"

text \<open>Whether \<open>wait\<close> returns on the current value.\<close>

definition fence_reached :: "nat \<Rightarrow> nat \<Rightarrow> bool" where
  "fence_reached v current \<longleftrightarrow> \<not> current < v"

section \<open>The state\<close>

definition kCommandChunkCount :: nat where "kCommandChunkCount = 32"
definition kCommandChunkCPUHeapSize :: u64 where "kCommandChunkCPUHeapSize = 0x400000"

text \<open>A command: its closure, the block and offset it was placed at, and its size.\<close>

record 'c cmd_node =
  node_cmd :: 'c
  node_at :: "nat \<times> u64"
  node_bytes :: u64

text \<open>
  A chunk.  \<open>None\<close> stands for \<open>~0ull\<close> in the latency fence field and for the null handle in
  \<open>attached_cmdbuf\<close>; otherwise that is the position of the command buffer in the queue.
\<close>

record 'c chunk =
  chunk_id :: nat
  chunk_event_id :: nat
  chunk_frame :: nat
  signal_frame_latency_fence :: "nat option"
  resource_initializer_event_id :: u64
  attached_cmdbuf :: "nat option"
  list_enc :: "'c cmd_node list"

text \<open>A Metal command buffer: the event it waits for, its commands, the event value it signals.\<close>

record 'c cmdbuf =
  wait_event :: "u64 option"
  work :: "'c list"
  signal_event :: nat
  completed :: bool

text \<open>What the caller of \<open>CommitCurrentChunk\<close> does next, and the places where the threads are.\<close>

datatype after_commit = Return | ThenPresent | ThenWaitIdle nat

datatype app_pc =
    Recording
  | WaitOngoing after_commit
  | AddOngoing after_commit
  | FreeCommandBlocks after_commit
  | AtPresentBoundary
  | WaitLatency nat
  | WaitCPUFence nat

datatype enc_pc = WaitForEncode | Submitted

datatype fin_pc = WaitForCommit | WaitCompleted | Resetting | Signalling | Releasing

record 'c queue =
  ready_for_encode :: nat
  ready_for_commit :: nat
  chunk_ongoing :: u64
  cpu_coherent :: nat
  frame_latency_fence :: nat
  frame_count :: nat
  max_latency :: nat
  current_event_seq_id :: nat
  chunks :: "'c chunk list"
  cpu_command_allocator :: "(nat, heap) ring"
  gpu :: "'c cmdbuf list"
  app :: app_pc
  enc :: enc_pc
  enc_seq :: nat
  fin :: fin_pc
  fin_seq :: nat

definition reset_chunk :: "'c chunk \<Rightarrow> 'c chunk" where
  "reset_chunk c = c\<lparr>signal_frame_latency_fence := None, list_enc := [], attached_cmdbuf := None\<rparr>"

definition new_chunk :: "'c chunk" where
  "new_chunk = \<lparr>chunk_id = 0, chunk_event_id = 0, chunk_frame = 0, signal_frame_latency_fence = None,
     resource_initializer_event_id = 0, attached_cmdbuf = None, list_enc = []\<rparr>"

definition init_queue :: "'c queue" where
  "init_queue = \<lparr>ready_for_encode = 1, ready_for_commit = 1, chunk_ongoing = 0, cpu_coherent = 0,
     frame_latency_fence = 0, frame_count = 0, max_latency = 3, current_event_seq_id = 0,
     chunks = replicate kCommandChunkCount new_chunk,
     cpu_command_allocator = \<lparr>fifo = [], allocator = []\<rparr>, gpu = [],
     app = Recording, enc = WaitForEncode, enc_seq = 1, fin = WaitForCommit, fin_seq = 1\<rparr>"

section \<open>The application thread\<close>

definition chunk_at :: "'c queue \<Rightarrow> nat \<Rightarrow> 'c chunk" where
  "chunk_at s seq = chunks s ! (seq mod kCommandChunkCount)"

definition update_chunk :: "nat \<Rightarrow> ('c chunk \<Rightarrow> 'c chunk) \<Rightarrow> 'c queue \<Rightarrow> 'c queue" where
  "update_chunk seq f s =
     s\<lparr>chunks := (chunks s)[seq mod kCommandChunkCount := f (chunk_at s seq)]\<rparr>"

definition AllocateCommandData :: "u64 \<Rightarrow> u64 \<Rightarrow> 'c queue \<Rightarrow> (nat \<times> u64) \<times> 'c queue" where
  "AllocateCommandData bytes alignment s =
     (case allocate host_allocate host_release kCommandChunkCPUHeapSize (of_nat (ready_for_encode s))
        (of_nat (cpu_coherent s)) bytes alignment (cpu_command_allocator s) of
        (place, ring) \<Rightarrow> (place, s\<lparr>cpu_command_allocator := ring\<rparr>))"

text \<open>\<open>emitcc\<close> on \<open>CurrentChunk()\<close>; \<open>bytes\<close> is \<open>calculateCommandSize\<close> of the closure.\<close>

definition emitcc :: "'c \<Rightarrow> u64 \<Rightarrow> 'c queue \<Rightarrow> 'c queue" where
  "emitcc c bytes s =
     (case AllocateCommandData bytes 16 s of (place, s') \<Rightarrow>
        update_chunk (ready_for_encode s')
          (\<lambda>k. k\<lparr>list_enc := list_enc k @ [\<lparr>node_cmd = c, node_at = place, node_bytes = bytes\<rparr>]\<rparr>) s')"

text \<open>The swap chain marks the current chunk with \<open>CurrentFrameSeq()\<close> before it commits it.\<close>

definition mark_frame :: "'c queue \<Rightarrow> 'c queue" where
  "mark_frame s =
     update_chunk (ready_for_encode s) (\<lambda>k. k\<lparr>signal_frame_latency_fence := Some (frame_count s + 1)\<rparr>) s"

text \<open>
  \<open>CommitCurrentChunk\<close> up to the release of \<open>ready_for_encode\<close>; \<open>ev\<close> is the result of
  \<open>initializer.flushToWait()\<close>.  The rest of the call is the steps of \<open>app_step\<close>.
\<close>

definition CommitCurrentChunk :: "u64 \<Rightarrow> after_commit \<Rightarrow> 'c queue \<Rightarrow> 'c queue" where
  "CommitCurrentChunk ev k s =
     (update_chunk (ready_for_encode s)
        (\<lambda>c. c\<lparr>chunk_id := ready_for_encode s, chunk_event_id := current_event_seq_id s + 1,
               chunk_frame := frame_count s, resource_initializer_event_id := ev\<rparr>) s)
        \<lparr>current_event_seq_id := current_event_seq_id s + 1,
         ready_for_encode := ready_for_encode s + 1, app := WaitOngoing k\<rparr>"

fun return_to :: "after_commit \<Rightarrow> app_pc" where
  "return_to Return = Recording"
| "return_to ThenPresent = AtPresentBoundary"
| "return_to (ThenWaitIdle seq) = WaitCPUFence seq"

definition PresentBoundary :: "'c queue \<Rightarrow> 'c queue" where
  "PresentBoundary s =
     (let n = frame_count s + 1
      in s\<lparr>frame_count := n,
           app := (if n > max_latency s then WaitLatency (n - max_latency s) else Recording)\<rparr>)"

definition app_step :: "'c queue \<Rightarrow> 'c queue option" where
  "app_step s =
     (case app s of
        Recording \<Rightarrow> None
      | WaitOngoing k \<Rightarrow>
          if chunk_ongoing s = of_nat (kCommandChunkCount - 1) then None else Some (s\<lparr>app := AddOngoing k\<rparr>)
      | AddOngoing k \<Rightarrow> Some (s\<lparr>chunk_ongoing := chunk_ongoing s + 1, app := FreeCommandBlocks k\<rparr>)
      | FreeCommandBlocks k \<Rightarrow>
          Some (s\<lparr>cpu_command_allocator := free_blocks host_release kCommandChunkCPUHeapSize
                    (of_nat (cpu_coherent s)) (cpu_command_allocator s),
                  app := return_to k\<rparr>)
      | AtPresentBoundary \<Rightarrow> Some (PresentBoundary s)
      | WaitLatency v \<Rightarrow> if fence_reached v (frame_latency_fence s) then Some (s\<lparr>app := Recording\<rparr>) else None
      | WaitCPUFence v \<Rightarrow> if fence_reached v (cpu_coherent s) then Some (s\<lparr>app := Recording\<rparr>) else None)"

section \<open>The encoding thread\<close>

text \<open>\<open>CommitChunkInternal\<close> up to \<open>cmdbuf.commit()\<close>; then \<open>ready_for_commit\<close> is released.\<close>

definition CommitChunkInternal :: "'c queue \<Rightarrow> 'c queue" where
  "CommitChunkInternal s =
     (let c = chunk_at s (enc_seq s)
      in (update_chunk (enc_seq s) (\<lambda>c. c\<lparr>attached_cmdbuf := Some (length (gpu s))\<rparr>) s)
           \<lparr>gpu := gpu s @ [\<lparr>wait_event = (if resource_initializer_event_id c \<noteq> 0
                               then Some (resource_initializer_event_id c) else None),
                             work = map node_cmd (list_enc c), signal_event = chunk_event_id c,
                             completed = False\<rparr>],
            enc := Submitted\<rparr>)"

definition enc_step :: "'c queue \<Rightarrow> 'c queue option" where
  "enc_step s =
     (case enc s of
        WaitForEncode \<Rightarrow> if ready_for_encode s = enc_seq s then None else Some (CommitChunkInternal s)
      | Submitted \<Rightarrow>
          Some (s\<lparr>ready_for_commit := ready_for_commit s + 1, enc_seq := enc_seq s + 1, enc := WaitForEncode\<rparr>))"

section \<open>The GPU and the finish thread\<close>

text \<open>The GPU may complete command buffers in any order.\<close>

definition gpu_step :: "nat \<Rightarrow> 'c queue \<Rightarrow> 'c queue option" where
  "gpu_step i s =
     (if i < length (gpu s) \<and> \<not> completed (gpu s ! i)
      then Some (s\<lparr>gpu := (gpu s)[i := (gpu s ! i)\<lparr>completed := True\<rparr>]\<rparr>) else None)"

definition buffer_completed :: "'c queue \<Rightarrow> 'c chunk \<Rightarrow> bool" where
  "buffer_completed s c = (case attached_cmdbuf c of None \<Rightarrow> False | Some i \<Rightarrow> completed (gpu s ! i))"

definition fin_step :: "'c queue \<Rightarrow> 'c queue option" where
  "fin_step s =
     (case fin s of
        WaitForCommit \<Rightarrow> if ready_for_commit s = fin_seq s then None else Some (s\<lparr>fin := WaitCompleted\<rparr>)
      | WaitCompleted \<Rightarrow>
          (let c = chunk_at s (fin_seq s)
           in if buffer_completed s c then
                Some (s\<lparr>frame_latency_fence := (case signal_frame_latency_fence c of
                          None \<Rightarrow> frame_latency_fence s
                        | Some v \<Rightarrow> fence_signal v (frame_latency_fence s)),
                        fin := Resetting\<rparr>)
              else None)
      | Resetting \<Rightarrow> Some ((update_chunk (fin_seq s) reset_chunk s)\<lparr>fin := Signalling\<rparr>)
      | Signalling \<Rightarrow> Some (s\<lparr>cpu_coherent := fence_signal (fin_seq s) (cpu_coherent s), fin := Releasing\<rparr>)
      | Releasing \<Rightarrow> Some (s\<lparr>chunk_ongoing := chunk_ongoing s - 1, fin_seq := fin_seq s + 1, fin := WaitForCommit\<rparr>))"

section \<open>Runs\<close>

text \<open>
  Calls of the application, and the steps the threads and the GPU make by themselves.
  \<open>Present\<close> is what the swap chain does; \<open>WaitUntilGPUIdle\<close> is that of the immediate context.
\<close>

datatype 'c action =
    Emit 'c u64
  | Flush u64
  | Present 'c u64 u64
  | WaitUntilGPUIdle u64
  | SetMaxLatency nat
  | App | Enc | Gpu nat | Fin

definition call :: "'c queue \<Rightarrow> 'c queue \<Rightarrow> 'c queue option" where
  "call s s' = (if app s = Recording then Some s' else None)"

definition sane_size :: "u64 \<Rightarrow> bool" where
  "sane_size bytes \<longleftrightarrow> bytes \<le> 0x4000000000000000"

fun perform :: "'c action \<Rightarrow> 'c queue \<Rightarrow> 'c queue option" where
  "perform (Emit c bytes) s = (if sane_size bytes then call s (emitcc c bytes s) else None)"
| "perform (Flush ev) s = call s (CommitCurrentChunk ev Return s)"
| "perform (Present c bytes ev) s =
     (if sane_size bytes then call s (CommitCurrentChunk ev ThenPresent (emitcc c bytes (mark_frame s))) else None)"
| "perform (WaitUntilGPUIdle ev) s = call s (CommitCurrentChunk ev (ThenWaitIdle (ready_for_encode s)) s)"
| "perform (SetMaxLatency v) s = Some (s\<lparr>max_latency := v\<rparr>)"
| "perform App s = app_step s"
| "perform Enc s = enc_step s"
| "perform (Gpu i) s = gpu_step i s"
| "perform Fin s = fin_step s"

fun run :: "'c action list \<Rightarrow> 'c queue \<Rightarrow> 'c queue option" where
  "run [] s = Some s"
| "run (a # as) s = (case perform a s of None \<Rightarrow> None | Some s' \<Rightarrow> run as s')"

text \<open>The states a history of actions leads to.\<close>

inductive reaches :: "'c action list \<Rightarrow> 'c queue \<Rightarrow> bool" where
  init: "reaches [] init_queue"
| step: "reaches h s \<Longrightarrow> perform a s = Some s' \<Longrightarrow> reaches (h @ [a]) s'"

text \<open>What the application recorded: the committed command lists, and the current one.\<close>

fun record_action :: "'c list list \<times> 'c list \<Rightarrow> 'c action \<Rightarrow> 'c list list \<times> 'c list" where
  "record_action (cs, now) (Emit c _) = (cs, now @ [c])"
| "record_action (cs, now) (Flush _) = (cs @ [now], [])"
| "record_action (cs, now) (Present c _ _) = (cs @ [now @ [c]], [])"
| "record_action (cs, now) (WaitUntilGPUIdle _) = (cs @ [now], [])"
| "record_action r _ = r"

definition recorded :: "'c action list \<Rightarrow> 'c list list \<times> 'c list" where
  "recorded h = foldl record_action ([], []) h"

end
