(* ===== verification/QueueContract.thy ===== *)
theory QueueContract
  imports CommandQueue
begin

text \<open>
  The contract of \<open>CommandQueue\<close>, over all interleavings: invariants of the counters and of
  the slots of the chunk ring, of the frame latency fence, of the memory the commands live
  in (through the interpretation \<open>host\<close> of the block allocator) and of completion, and a
  measure on the steps the threads can still take.  The properties rest on the invariants
  of all reachable states.
\<close>

section \<open>Steps\<close>

text \<open>The calls as plain updates of the state.\<close>

definition place_command :: "u64 \<Rightarrow> 'c queue \<Rightarrow> (nat \<times> u64) \<times> (nat, heap) ring" where
  "place_command n s = allocate host_allocate host_release kCommandChunkCPUHeapSize
     (of_nat (ready_for_encode s)) (of_nat (cpu_coherent s)) n 16 (cpu_command_allocator s)"

definition add_node :: "'c \<Rightarrow> nat \<times> u64 \<Rightarrow> u64 \<Rightarrow> 'c chunk \<Rightarrow> 'c chunk" where
  "add_node c place n k = k\<lparr>list_enc := list_enc k @ [\<lparr>node_cmd = c, node_at = place, node_bytes = n\<rparr>]\<rparr>"

lemma emitcc_eq:
  "emitcc c n s = (update_chunk (ready_for_encode s) (add_node c (fst (place_command n s)) n) s)
     \<lparr>cpu_command_allocator := snd (place_command n s)\<rparr>"
  by (simp add: emitcc_def AllocateCommandData_def update_chunk_def chunk_at_def place_command_def add_node_def
      split: prod.splits)

lemma update_chunk_sel [simp]:
  "ready_for_encode (update_chunk q f s) = ready_for_encode s"
  "ready_for_commit (update_chunk q f s) = ready_for_commit s"
  "chunk_ongoing (update_chunk q f s) = chunk_ongoing s"
  "cpu_coherent (update_chunk q f s) = cpu_coherent s"
  "frame_latency_fence (update_chunk q f s) = frame_latency_fence s"
  "frame_count (update_chunk q f s) = frame_count s"
  "max_latency (update_chunk q f s) = max_latency s"
  "current_event_seq_id (update_chunk q f s) = current_event_seq_id s"
  "cpu_command_allocator (update_chunk q f s) = cpu_command_allocator s"
  "gpu (update_chunk q f s) = gpu s" "app (update_chunk q f s) = app s"
  "enc (update_chunk q f s) = enc s" "enc_seq (update_chunk q f s) = enc_seq s"
  "fin (update_chunk q f s) = fin s" "fin_seq (update_chunk q f s) = fin_seq s"
  "length (chunks (update_chunk q f s)) = length (chunks s)"
  by (simp_all add: update_chunk_def)

lemma place_command_cong [simp]: "place_command n (update_chunk q f s) = place_command n s"
  by (simp add: place_command_def)

text \<open>The cases of a step.\<close>

lemma perform_cases:
  assumes "perform a s = Some s'"
  obtains
    (Emit) c n where "a = Emit c n" "sane_size n" "app s = Recording" "s' = emitcc c n s"
  | (Flush) ev where "a = Flush ev" "app s = Recording" "s' = CommitCurrentChunk ev Return s"
  | (Present) c n ev where "a = Present c n ev" "sane_size n" "app s = Recording"
      "s' = CommitCurrentChunk ev ThenPresent (emitcc c n (mark_frame s))"
  | (Idle) ev where "a = WaitUntilGPUIdle ev" "app s = Recording"
      "s' = CommitCurrentChunk ev (ThenWaitIdle (ready_for_encode s)) s"
  | (Latency) v where "a = SetMaxLatency v" "s' = s\<lparr>max_latency := v\<rparr>"
  | (Ongoing) k where "a = App" "app s = WaitOngoing k" "chunk_ongoing s \<noteq> of_nat (kCommandChunkCount - 1)"
      "s' = s\<lparr>app := AddOngoing k\<rparr>"
  | (Add) k where "a = App" "app s = AddOngoing k"
      "s' = s\<lparr>chunk_ongoing := chunk_ongoing s + 1, app := FreeCommandBlocks k\<rparr>"
  | (Free) k where "a = App" "app s = FreeCommandBlocks k"
      "s' = s\<lparr>cpu_command_allocator := free_blocks host_release kCommandChunkCPUHeapSize
          (of_nat (cpu_coherent s)) (cpu_command_allocator s), app := return_to k\<rparr>"
  | (Boundary) "a = App" "app s = AtPresentBoundary" "s' = PresentBoundary s"
  | (Latent) v where "a = App" "app s = WaitLatency v" "v \<le> frame_latency_fence s" "s' = s\<lparr>app := Recording\<rparr>"
  | (Waited) v where "a = App" "app s = WaitCPUFence v" "v \<le> cpu_coherent s" "s' = s\<lparr>app := Recording\<rparr>"
  | (Encode) "a = Enc" "enc s = WaitForEncode" "ready_for_encode s \<noteq> enc_seq s" "s' = CommitChunkInternal s"
  | (Publish) "a = Enc" "enc s = Submitted"
      "s' = s\<lparr>ready_for_commit := ready_for_commit s + 1, enc_seq := enc_seq s + 1, enc := WaitForEncode\<rparr>"
  | (Gpu) i where "a = Gpu i" "i < length (gpu s)" "\<not> completed (gpu s ! i)"
      "s' = s\<lparr>gpu := (gpu s)[i := (gpu s ! i)\<lparr>completed := True\<rparr>]\<rparr>"
  | (Take) "a = Fin" "fin s = WaitForCommit" "ready_for_commit s \<noteq> fin_seq s" "s' = s\<lparr>fin := WaitCompleted\<rparr>"
  | (Complete) "a = Fin" "fin s = WaitCompleted" "buffer_completed s (chunk_at s (fin_seq s))"
      "s' = s\<lparr>frame_latency_fence := (case signal_frame_latency_fence (chunk_at s (fin_seq s)) of
          None \<Rightarrow> frame_latency_fence s | Some v \<Rightarrow> fence_signal v (frame_latency_fence s)), fin := Resetting\<rparr>"
  | (Reset) "a = Fin" "fin s = Resetting" "s' = (update_chunk (fin_seq s) reset_chunk s)\<lparr>fin := Signalling\<rparr>"
  | (Signal) "a = Fin" "fin s = Signalling"
      "s' = s\<lparr>cpu_coherent := fence_signal (fin_seq s) (cpu_coherent s), fin := Releasing\<rparr>"
  | (Release) "a = Fin" "fin s = Releasing"
      "s' = s\<lparr>chunk_ongoing := chunk_ongoing s - 1, fin_seq := fin_seq s + 1, fin := WaitForCommit\<rparr>"
proof (cases a)
  case App
  show ?thesis
  proof (cases "app s")
    case Recording
    then show ?thesis using assms App by (simp add: app_step_def)
  next
    case (WaitOngoing k)
    then show ?thesis using assms App Ongoing [of k] by (simp add: app_step_def split: if_splits)
  next
    case (AddOngoing k)
    then show ?thesis using assms App Add [of k] by (simp add: app_step_def)
  next
    case (FreeCommandBlocks k)
    then show ?thesis using assms App Free [of k] by (simp add: app_step_def)
  next
    case AtPresentBoundary
    then show ?thesis using assms App Boundary by (simp add: app_step_def)
  next
    case (WaitLatency v)
    then show ?thesis using assms App Latent [of v] by (simp add: app_step_def fence_reached_def split: if_splits)
  next
    case (WaitCPUFence v)
    then show ?thesis using assms App Waited [of v] by (simp add: app_step_def fence_reached_def split: if_splits)
  qed
next
  case Enc
  show ?thesis
  proof (cases "enc s")
    case WaitForEncode
    then show ?thesis using assms Enc Encode by (simp add: enc_step_def split: if_splits)
  next
    case Submitted
    then show ?thesis using assms Enc Publish by (simp add: enc_step_def)
  qed
next
  case Fin
  show ?thesis
  proof (cases "fin s")
    case WaitForCommit
    then show ?thesis using assms Fin Take by (simp add: fin_step_def split: if_splits)
  next
    case WaitCompleted
    then show ?thesis using assms Fin Complete by (simp add: fin_step_def Let_def split: if_splits)
  next
    case Resetting
    then show ?thesis using assms Fin Reset by (simp add: fin_step_def)
  next
    case Signalling
    then show ?thesis using assms Fin Signal by (simp add: fin_step_def)
  next
    case Releasing
    then show ?thesis using assms Fin Release by (simp add: fin_step_def)
  qed
next
  case (Emit c n)
  then show ?thesis using assms that(1) by (simp add: call_def split: if_splits)
next
  case (Flush ev)
  then show ?thesis using assms that(2) by (simp add: call_def split: if_splits)
next
  case (Present c n ev)
  then show ?thesis using assms that(3) by (simp add: call_def split: if_splits)
next
  case (WaitUntilGPUIdle ev)
  then show ?thesis using assms that(4) by (simp add: call_def split: if_splits)
next
  case (SetMaxLatency v)
  then show ?thesis using assms that(5) by simp
next
  case (Gpu i)
  then show ?thesis using assms that(14) by (simp add: gpu_step_def split: if_splits)
qed

section \<open>Counters\<close>

definition waiting :: "app_pc \<Rightarrow> nat" where
  "waiting p = (case p of WaitOngoing k \<Rightarrow> 1 | _ \<Rightarrow> 0)"

definition unpaid :: "app_pc \<Rightarrow> nat" where
  "unpaid p = (case p of WaitOngoing k \<Rightarrow> 1 | AddOngoing k \<Rightarrow> 1 | _ \<Rightarrow> 0)"

definition submitted :: "enc_pc \<Rightarrow> nat" where
  "submitted p = (case p of Submitted \<Rightarrow> 1 | WaitForEncode \<Rightarrow> 0)"

definition counters_ok :: "'c queue \<Rightarrow> bool" where
  "counters_ok s \<longleftrightarrow>
     length (chunks s) = kCommandChunkCount \<and> 1 \<le> fin_seq s \<and> enc_seq s = ready_for_commit s \<and>
     fin_seq s + (if fin s = WaitForCommit then 0 else 1) \<le> ready_for_commit s \<and>
     ready_for_commit s + submitted (enc s) \<le> ready_for_encode s \<and>
     cpu_coherent s + 1 = fin_seq s + (if fin s = Releasing then 1 else 0) \<and>
     length (gpu s) + 1 = ready_for_commit s + submitted (enc s) \<and>
     ready_for_encode s \<le> fin_seq s + 31 + waiting (app s) \<and>
     chunk_ongoing s = of_int (int (ready_for_encode s) - int (fin_seq s) - int (unpaid (app s)))"

lemma ongoing_full:
  fixes x :: int
  assumes "- 1 \<le> x" "x \<le> 32"
  shows "(of_int x :: u64) = of_nat (kCommandChunkCount - 1) \<longleftrightarrow> x = 31"
proof -
  have "uint (of_int x :: u64) = x mod 2 ^ 64" by (simp add: uint_word_of_int_eq take_bit_eq_mod)
  moreover have "x mod 2 ^ 64 = (if x = - 1 then 2 ^ 64 - 1 else x)"
    using assms by (auto simp: zmod_minus1)
  ultimately show ?thesis
    using assms by (auto simp: kCommandChunkCount_def simp flip: word_uint_eq_iff split: if_splits)
qed

lemma counters_init: "counters_ok init_queue"
  by (simp add: counters_ok_def init_queue_def waiting_def unpaid_def submitted_def)

lemma counters_step: "counters_ok s \<Longrightarrow> perform a s = Some s' \<Longrightarrow> counters_ok s'"
proof -
  assume ok: "counters_ok s" and p: "perform a s = Some s'"
  note d = counters_ok_def waiting_def unpaid_def submitted_def
  from p show ?thesis
  proof (cases rule: perform_cases)
    case (Ongoing k)
    have "int (ready_for_encode s) - int (fin_seq s) - int (unpaid (app s)) \<noteq> 31"
    proof
      assume eq: "int (ready_for_encode s) - int (fin_seq s) - int (unpaid (app s)) = 31"
      have "chunk_ongoing s = of_int 31" using ok by (simp only: counters_ok_def eq)
      then show False using Ongoing(3) by (simp add: kCommandChunkCount_def)
    qed
    then show ?thesis using ok Ongoing by (simp add: d)
  next
    case (Free k)
    then show ?thesis using ok by (cases k) (simp_all add: d)
  qed (use ok in \<open>simp_all add: d emitcc_eq CommitCurrentChunk_def mark_frame_def PresentBoundary_def
         CommitChunkInternal_def Let_def fence_signal_def\<close>)
qed

section \<open>Contents\<close>

lemma slot_eq:
  fixes p q f :: nat
  assumes "f \<le> p" "p < f + 32" "f \<le> q" "q < f + 32"
  shows "p mod kCommandChunkCount = q mod kCommandChunkCount \<longleftrightarrow> p = q"
proof -
  have *: "\<lbrakk>a mod 32 = b mod 32; a \<le> b; b < a + 32\<rbrakk> \<Longrightarrow> a = b" for a b :: nat
  proof -
    assume h: "a mod 32 = b mod 32" "a \<le> b" "b < a + 32"
    then have "32 dvd b - a" by (metis mod_eq_dvd_iff_nat)
    then show "a = b" using h nat_dvd_not_less [of "b - a" 32] by linarith
  qed
  show ?thesis
  proof (cases "p \<le> q")
    case True
    then show ?thesis using * [of p q] assms by (auto simp: kCommandChunkCount_def)
  next
    case False
    then show ?thesis using * [of q p] assms by (auto simp: kCommandChunkCount_def)
  qed
qed

lemma slot_period: "(f + 32) mod kCommandChunkCount = f mod kCommandChunkCount"
  by (simp add: kCommandChunkCount_def)

lemma chunk_at_update:
  "length (chunks s) = kCommandChunkCount \<Longrightarrow>
   chunk_at (update_chunk p f s) q =
     (if q mod kCommandChunkCount = p mod kCommandChunkCount then f (chunk_at s p) else chunk_at s q)"
  by (simp add: chunk_at_def update_chunk_def kCommandChunkCount_def nth_list_update)

lemma chunk_at_cong: "chunks s = chunks s' \<Longrightarrow> chunk_at s q = chunk_at s' q"
  by (simp add: chunk_at_def)

lemma chunk_at_fields [simp]:
  "chunk_at (s\<lparr>ready_for_encode := a\<rparr>) q = chunk_at s q"
  "chunk_at (s\<lparr>ready_for_commit := a\<rparr>) q = chunk_at s q"
  "chunk_at (s\<lparr>chunk_ongoing := u\<rparr>) q = chunk_at s q"
  "chunk_at (s\<lparr>cpu_coherent := a\<rparr>) q = chunk_at s q"
  "chunk_at (s\<lparr>frame_latency_fence := a\<rparr>) q = chunk_at s q"
  "chunk_at (s\<lparr>frame_count := a\<rparr>) q = chunk_at s q"
  "chunk_at (s\<lparr>max_latency := a\<rparr>) q = chunk_at s q"
  "chunk_at (s\<lparr>current_event_seq_id := a\<rparr>) q = chunk_at s q"
  "chunk_at (s\<lparr>cpu_command_allocator := r\<rparr>) q = chunk_at s q"
  "chunk_at (s\<lparr>gpu := g\<rparr>) q = chunk_at s q"
  "chunk_at (s\<lparr>app := p\<rparr>) q = chunk_at s q"
  "chunk_at (s\<lparr>enc := e\<rparr>) q = chunk_at s q"
  "chunk_at (s\<lparr>enc_seq := a\<rparr>) q = chunk_at s q"
  "chunk_at (s\<lparr>fin := z\<rparr>) q = chunk_at s q"
  "chunk_at (s\<lparr>fin_seq := a\<rparr>) q = chunk_at s q"
  by (simp_all add: chunk_at_def)

definition payloads :: "'c queue \<Rightarrow> nat \<Rightarrow> 'c list" where
  "payloads s q = map node_cmd (list_enc (chunk_at s q))"

text \<open>The chunk the finish thread has reset but not yet released.\<close>

definition emptied :: "'c queue \<Rightarrow> nat \<Rightarrow> bool" where
  "emptied s q \<longleftrightarrow> q = fin_seq s \<and> (fin s = Signalling \<or> fin s = Releasing)"

definition held :: "'c list list \<Rightarrow> 'c list \<Rightarrow> 'c queue \<Rightarrow> nat \<Rightarrow> 'c list" where
  "held cs now s q =
     (if emptied s q then [] else if q < ready_for_encode s then cs ! (q - 1)
      else if q = ready_for_encode s then now else [])"

definition contents_ok :: "'c list list \<Rightarrow> 'c list \<Rightarrow> 'c queue \<Rightarrow> bool" where
  "contents_ok cs now s \<longleftrightarrow>
     length cs + 1 = ready_for_encode s \<and> (app s \<noteq> Recording \<longrightarrow> now = []) \<and>
     (\<forall>q. fin_seq s \<le> q \<and> q < fin_seq s + 32 \<longrightarrow> payloads s q = held cs now s q) \<and>
     (\<forall>q. fin_seq s \<le> q \<and> q \<le> length (gpu s) \<and> \<not> emptied s q \<longrightarrow> attached_cmdbuf (chunk_at s q) = Some (q - 1)) \<and>
     map work (gpu s) = take (length (gpu s)) cs"

lemma recorded_snoc: "recorded (h @ [a]) = record_action (recorded h) a"
  by (simp add: recorded_def)

lemma contents_init: "contents_ok [] [] init_queue"
  by (simp add: contents_ok_def init_queue_def payloads_def held_def emptied_def chunk_at_def new_chunk_def
      kCommandChunkCount_def)


lemma window:
  assumes "counters_ok s"
  shows "length (chunks s) = kCommandChunkCount" "1 \<le> fin_seq s" "fin_seq s \<le> enc_seq s" "enc_seq s \<le> ready_for_encode s"
    "ready_for_encode s \<le> fin_seq s + 31 + waiting (app s)" "length (gpu s) < ready_for_encode s"
    "app s = Recording \<Longrightarrow> ready_for_encode s < fin_seq s + 32"
  using assms by (auto simp: counters_ok_def submitted_def waiting_def split: enc_pc.splits if_splits)

lemma counters_emit:
  "counters_ok s \<Longrightarrow> counters_ok (emitcc c n s)" "counters_ok s \<Longrightarrow> counters_ok (mark_frame s)"
  by (simp_all add: counters_ok_def emitcc_eq mark_frame_def)


lemma emptied_less: "counters_ok s \<Longrightarrow> emptied s q \<Longrightarrow> q < ready_for_encode s"
  by (auto simp: counters_ok_def emptied_def split: if_splits)

lemma held_cong:
  "emptied s' = emptied s \<Longrightarrow> ready_for_encode s' = ready_for_encode s \<Longrightarrow> held cs now s' q = held cs now s q"
  by (simp add: held_def)

lemma contents_okI:
  assumes "length cs + 1 = ready_for_encode s" and "app s \<noteq> Recording \<Longrightarrow> now = []"
    and "\<And>q. fin_seq s \<le> q \<Longrightarrow> q < fin_seq s + 32 \<Longrightarrow> payloads s q = held cs now s q"
    and "\<And>q. fin_seq s \<le> q \<Longrightarrow> q \<le> length (gpu s) \<Longrightarrow> \<not> emptied s q \<Longrightarrow> attached_cmdbuf (chunk_at s q) = Some (q - 1)"
    and "map work (gpu s) = take (length (gpu s)) cs"
  shows "contents_ok cs now s"
  using assms by (simp add: contents_ok_def)

lemma contents_okD:
  assumes "contents_ok cs now s"
  shows "length cs + 1 = ready_for_encode s" and "app s \<noteq> Recording \<Longrightarrow> now = []"
    and "fin_seq s \<le> q \<Longrightarrow> q < fin_seq s + 32 \<Longrightarrow> payloads s q = held cs now s q"
    and "fin_seq s \<le> q \<Longrightarrow> q \<le> length (gpu s) \<Longrightarrow> \<not> emptied s q \<Longrightarrow> attached_cmdbuf (chunk_at s q) = Some (q - 1)"
    and "map work (gpu s) = take (length (gpu s)) cs"
  using assms by (simp_all add: contents_ok_def)

lemma slot_window:
  assumes "counters_ok s" "fin_seq s \<le> p" "p < fin_seq s + 32" "fin_seq s \<le> q" "q < fin_seq s + 32"
  shows "chunk_at (update_chunk p f s) q = (if q = p then f (chunk_at s p) else chunk_at s q)"
  using slot_eq [OF assms(4,5,2,3)] window(1) [OF assms(1)] by (simp add: chunk_at_update)

lemma contents_emit:
  assumes ok: "counters_ok s" and a: "app s = Recording" and c: "contents_ok cs now s"
  shows "contents_ok cs (now @ [x]) (emitcc x n s)" and "contents_ok cs now (mark_frame s)"
proof -
  note w = window [OF ok] and k = contents_okD [OF c]
  have r: "fin_seq s \<le> ready_for_encode s" "ready_for_encode s < fin_seq s + 32" using w a by simp_all
  note at = slot_window [OF ok r]
  show "contents_ok cs (now @ [x]) (emitcc x n s)"
  proof (rule contents_okI)
    fix q
    assume "fin_seq (emitcc x n s) \<le> q" "q < fin_seq (emitcc x n s) + 32"
    then have q: "fin_seq s \<le> q" "q < fin_seq s + 32" by (simp_all add: emitcc_eq)
    show "payloads (emitcc x n s) q = held cs (now @ [x]) (emitcc x n s) q"
      using k(3) [OF q] k(3) [OF r] at [OF q] emptied_less [OF ok, of q]
      by (auto simp: payloads_def held_def emptied_def emitcc_eq add_node_def)
  next
    fix q
    assume "fin_seq (emitcc x n s) \<le> q" "q \<le> length (gpu (emitcc x n s))" "\<not> emptied (emitcc x n s) q"
    then have q: "fin_seq s \<le> q" "q \<le> length (gpu s)" "\<not> emptied s q" by (simp_all add: emitcc_eq emptied_def)
    then show "attached_cmdbuf (chunk_at (emitcc x n s) q) = Some (q - 1)"
      using k(4) [OF q] at [of q] w(5-7) a by (auto simp: emitcc_eq add_node_def)
  qed (use k(1,2,5) a in \<open>simp_all add: emitcc_eq\<close>)
  show "contents_ok cs now (mark_frame s)"
  proof (rule contents_okI)
    fix q
    assume "fin_seq (mark_frame s) \<le> q" "q < fin_seq (mark_frame s) + 32"
    then have q: "fin_seq s \<le> q" "q < fin_seq s + 32" by (simp_all add: mark_frame_def)
    show "payloads (mark_frame s) q = held cs now (mark_frame s) q"
      using k(3) [OF q] k(3) [OF r] at [OF q] by (auto simp: payloads_def held_def emptied_def mark_frame_def)
  next
    fix q
    assume "fin_seq (mark_frame s) \<le> q" "q \<le> length (gpu (mark_frame s))" "\<not> emptied (mark_frame s) q"
    then have q: "fin_seq s \<le> q" "q \<le> length (gpu s)" "\<not> emptied s q" by (simp_all add: mark_frame_def emptied_def)
    then show "attached_cmdbuf (chunk_at (mark_frame s) q) = Some (q - 1)"
      using k(4) [OF q] at [of q] w(5-7) a by (auto simp: mark_frame_def)
  qed (use k(1,2,5) a in \<open>simp_all add: mark_frame_def\<close>)
qed

lemma contents_commit:
  assumes ok: "counters_ok s" and a: "app s = Recording" and c: "contents_ok cs now s"
  shows "contents_ok (cs @ [now]) [] (CommitCurrentChunk ev k s)"
proof -
  note w = window [OF ok] and k = contents_okD [OF c]
  have r: "fin_seq s \<le> ready_for_encode s" "ready_for_encode s < fin_seq s + 32" using w a by simp_all
  note at = slot_window [OF ok r]
  let ?s = "CommitCurrentChunk ev k s"
  show ?thesis
  proof (rule contents_okI)
    fix q
    assume "fin_seq ?s \<le> q" "q < fin_seq ?s + 32"
    then have q: "fin_seq s \<le> q" "q < fin_seq s + 32" by (simp_all add: CommitCurrentChunk_def)
    have "payloads ?s q = payloads s q" using at [OF q] by (simp add: payloads_def CommitCurrentChunk_def)
    moreover have "q \<le> ready_for_encode s \<Longrightarrow> (cs @ [now]) ! (q - 1) = (if q < ready_for_encode s then cs ! (q - 1) else now)"
      using k(1) q(1) w(2) by (auto simp: nth_append)
    ultimately show "payloads ?s q = held (cs @ [now]) [] ?s q"
      using k(3) [OF q] q w(2) by (auto simp: held_def emptied_def CommitCurrentChunk_def)
  next
    fix q
    assume "fin_seq ?s \<le> q" "q \<le> length (gpu ?s)" "\<not> emptied ?s q"
    then have q: "fin_seq s \<le> q" "q \<le> length (gpu s)" "\<not> emptied s q" by (simp_all add: CommitCurrentChunk_def emptied_def)
    then show "attached_cmdbuf (chunk_at ?s q) = Some (q - 1)"
      using k(4) [OF q] at [of q] w(5-7) a by (auto simp: CommitCurrentChunk_def)
  qed (use k(1,2,5) a w in \<open>simp_all add: CommitCurrentChunk_def\<close>)
qed

lemma contents_encode:
  assumes ok: "counters_ok s" and e: "enc s = WaitForEncode" "ready_for_encode s \<noteq> enc_seq s"
    and c: "contents_ok cs now s"
  shows "contents_ok cs now (CommitChunkInternal s)"
proof -
  note w = window [OF ok] and k = contents_okD [OF c]
  let ?s = "CommitChunkInternal s"
  have lg: "length (gpu s) + 1 = enc_seq s" using ok e by (simp add: counters_ok_def submitted_def)
  have n: "\<not> emptied s (enc_seq s)" "enc_seq s < ready_for_encode s"
    using ok e w(4) by (auto simp: counters_ok_def emptied_def)
  have r: "enc_seq s < fin_seq s + 32"
    using n w(5) by (auto simp: waiting_def split: app_pc.splits)
  note at = slot_window [OF ok w(3) r]
  have pl: "payloads s (enc_seq s) = cs ! (length (gpu s))"
    using k(3) [OF w(3) r] n lg by (simp add: held_def flip: lg)
  show ?thesis
  proof (rule contents_okI)
    fix q
    assume "fin_seq ?s \<le> q" "q < fin_seq ?s + 32"
    then have q: "fin_seq s \<le> q" "q < fin_seq s + 32" by (simp_all add: CommitChunkInternal_def Let_def)
    show "payloads ?s q = held cs now ?s q"
    proof -
      have "payloads ?s q = payloads s q" using at [OF q] by (simp add: payloads_def CommitChunkInternal_def Let_def)
      moreover have "held cs now ?s q = held cs now s q"
        by (rule held_cong) (simp_all add: emptied_def fun_eq_iff CommitChunkInternal_def Let_def)
      ultimately show ?thesis using k(3) [OF q] by simp
    qed
  next
    fix q
    assume "fin_seq ?s \<le> q" "q \<le> length (gpu ?s)" "\<not> emptied ?s q"
    then have q: "fin_seq s \<le> q" "q \<le> enc_seq s" "\<not> emptied s q"
      using lg by (simp_all add: CommitChunkInternal_def Let_def emptied_def)
    then show "attached_cmdbuf (chunk_at ?s q) = Some (q - 1)"
      using k(4) [of q] at [of q] r lg by (auto simp: CommitChunkInternal_def Let_def)
  next
    have "length (gpu s) < length cs" using lg n k(1) by simp
    then show "map work (gpu ?s) = take (length (gpu ?s)) cs"
      using k(5) pl by (simp add: CommitChunkInternal_def Let_def payloads_def take_Suc_conv_app_nth)
  qed (use k(1,2) e in \<open>simp_all add: CommitChunkInternal_def Let_def\<close>)
qed

lemma contents_finish:
  assumes ok: "counters_ok s" and c: "contents_ok cs now s"
  shows "fin s = Resetting \<Longrightarrow> contents_ok cs now ((update_chunk (fin_seq s) reset_chunk s)\<lparr>fin := Signalling\<rparr>)"
    and "fin s = Releasing \<Longrightarrow> contents_ok cs now (s\<lparr>chunk_ongoing := u, fin_seq := fin_seq s + 1, fin := WaitForCommit\<rparr>)"
proof -
  note w = window [OF ok] and k = contents_okD [OF c]
  have at: "fin_seq s \<le> q \<Longrightarrow> q < fin_seq s + 32 \<Longrightarrow>
      chunk_at (update_chunk (fin_seq s) reset_chunk s) q = (if q = fin_seq s then reset_chunk (chunk_at s q) else chunk_at s q)" for q
    using slot_window [OF ok, of "fin_seq s"] by simp
  have g: "q \<le> length (gpu s) \<Longrightarrow> q < fin_seq s + 32" for q
    using w(5,6) by (auto simp: waiting_def split: app_pc.splits)
  assume f: "fin s = Resetting"
  let ?s = "(update_chunk (fin_seq s) reset_chunk s)\<lparr>fin := Signalling\<rparr>"
  show "contents_ok cs now ?s"
  proof (rule contents_okI)
    fix q
    assume "fin_seq ?s \<le> q" "q < fin_seq ?s + 32"
    then show "payloads ?s q = held cs now ?s q"
      using k(3) [of q] at [of q] f by (auto simp: payloads_def held_def emptied_def reset_chunk_def)
  next
    fix q
    assume "fin_seq ?s \<le> q" "q \<le> length (gpu ?s)" "\<not> emptied ?s q"
    then show "attached_cmdbuf (chunk_at ?s q) = Some (q - 1)"
      using k(4) [of q] at [of q] g [of q] f by (auto simp: emptied_def)
  qed (use k(1,2,5) in simp_all)
next
  note w = window [OF ok] and k = contents_okD [OF c]
  assume f: "fin s = Releasing"
  let ?s = "s\<lparr>chunk_ongoing := u, fin_seq := fin_seq s + 1, fin := WaitForCommit\<rparr>"
  show "contents_ok cs now ?s"
  proof (rule contents_okI)
    fix q
    assume "fin_seq ?s \<le> q" "q < fin_seq ?s + 32"
    then have q: "fin_seq s < q" "q \<le> fin_seq s + 32" by simp_all
    show "payloads ?s q = held cs now ?s q"
    proof (cases "q = fin_seq s + 32")
      case True
      have "chunk_at s q = chunk_at s (fin_seq s)" by (simp add: chunk_at_def True slot_period)
      moreover have "payloads s (fin_seq s) = []" using k(3) [of "fin_seq s"] f by (simp add: held_def emptied_def)
      moreover have "ready_for_encode s \<le> q" "ready_for_encode s = q \<Longrightarrow> now = []"
        using w(5,7) k(2) True by (auto simp: waiting_def split: app_pc.splits)
      ultimately show ?thesis by (simp add: payloads_def held_def emptied_def)
    next
      case False
      then show ?thesis using k(3) [of q] q by (simp add: payloads_def held_def emptied_def)
    qed
  next
    fix q
    assume "fin_seq ?s \<le> q" "q \<le> length (gpu ?s)" "\<not> emptied ?s q"
    then show "attached_cmdbuf (chunk_at ?s q) = Some (q - 1)" using k(4) [of q] by (simp add: emptied_def)
  qed (use k(1,2,5) in simp_all)
qed

text \<open>Steps that touch no chunk and no counter the contents depend on.\<close>

lemma contents_cong:
  assumes "contents_ok cs now s"
    and "chunks s' = chunks s" "ready_for_encode s' = ready_for_encode s" "fin_seq s' = fin_seq s"
    and "map work (gpu s') = map work (gpu s)" "emptied s' = emptied s" "app s \<noteq> Recording \<or> app s' = Recording"
  shows "contents_ok cs now s'"
  using assms map_eq_imp_length_eq [OF assms(5)] chunk_at_cong [OF assms(2)]
  by (auto simp: contents_ok_def payloads_def held_def)

lemma contents_step:
  assumes ok: "counters_ok s" and c: "contents_ok cs now s" and p: "perform a s = Some s'"
    and r: "record_action (cs, now) a = (cs', now')"
  shows "contents_ok cs' now' s'"
  using p
proof (cases rule: perform_cases)
  case (Emit x n)
  then show ?thesis using contents_emit(1) [OF ok _ c] r by auto
next
  case (Flush ev)
  then show ?thesis using contents_commit [OF ok _ c] r by auto
next
  case (Present x n ev)
  have app: "app (mark_frame s) = Recording" "app (emitcc x n (mark_frame s)) = Recording"
    using Present by (simp_all add: mark_frame_def emitcc_eq)
  note c2 = contents_emit(1) [OF counters_emit(2) [OF ok] app(1) contents_emit(2) [OF ok Present(3) c]]
  show ?thesis
    using contents_commit [OF counters_emit(1) [OF counters_emit(2) [OF ok]] app(2) c2] r Present by auto
next
  case (Idle ev)
  then show ?thesis using contents_commit [OF ok _ c] r by auto
next
  case Encode
  then show ?thesis using contents_encode [OF ok _ _ c] r by auto
next
  case Reset
  then show ?thesis using contents_finish(1) [OF ok c] r by auto
next
  case Release
  then show ?thesis using contents_finish(2) [OF ok c] r by auto
next
  case (Gpu i)
  have "contents_ok cs now s'"
    by (rule contents_cong [OF c]) (use Gpu in \<open>simp_all add: map_update emptied_def fun_eq_iff list_update_same_conv\<close>)
  then show ?thesis using r Gpu by simp
qed (use c r in \<open>auto elim!: contents_cong simp: emptied_def fun_eq_iff PresentBoundary_def Let_def\<close>)

section \<open>Frame latency\<close>

text \<open>Frames presented, counting the one whose commit is under way.\<close>

definition presenting :: "app_pc \<Rightarrow> nat" where
  "presenting p = (if p \<in> {WaitOngoing ThenPresent, AddOngoing ThenPresent, FreeCommandBlocks ThenPresent, AtPresentBoundary}
     then 1 else 0)"

definition frames :: "'c queue \<Rightarrow> nat" where
  "frames s = frame_count s + presenting (app s)"

text \<open>The sequence id the application waits for, or will wait for after the commit.\<close>

fun awaited :: "app_pc \<Rightarrow> nat" where
  "awaited (WaitOngoing (ThenWaitIdle v)) = v"
| "awaited (AddOngoing (ThenWaitIdle v)) = v"
| "awaited (FreeCommandBlocks (ThenWaitIdle v)) = v"
| "awaited (WaitCPUFence v) = v"
| "awaited _ = 0"

definition unsignalled :: "'c queue \<Rightarrow> nat \<Rightarrow> bool" where
  "unsignalled s q \<longleftrightarrow> fin_seq s \<le> q \<and> q < ready_for_encode s \<and>
     (q = fin_seq s \<longrightarrow> fin s = WaitForCommit \<or> fin s = WaitCompleted)"

definition latency_ok :: "'c queue \<Rightarrow> bool" where
  "latency_ok s \<longleftrightarrow>
     (frames s \<le> frame_latency_fence s \<or>
      (\<exists>q v. unsignalled s q \<and> signal_frame_latency_fence (chunk_at s q) = Some v \<and> frames s \<le> v)) \<and>
     awaited (app s) < ready_for_encode s \<and>
     (\<forall>v. app s = WaitLatency v \<longrightarrow> v \<le> frame_count s)"

lemma latency_commit:
  assumes ok: "counters_ok s" and a: "app s = Recording" and l: "latency_ok s"
    and k: "k = Return \<or> k = ThenWaitIdle (ready_for_encode s) \<or>
      k = ThenPresent \<and> signal_frame_latency_fence (chunk_at s (ready_for_encode s)) = Some (frame_count s + 1)"
  shows "latency_ok (CommitCurrentChunk ev k s)"
proof -
  note w = window [OF ok]
  have r: "fin_seq s \<le> ready_for_encode s" "ready_for_encode s < fin_seq s + 32" using w a by simp_all
  let ?s = "CommitCurrentChunk ev k s"
  have at: "signal_frame_latency_fence (chunk_at ?s q) = signal_frame_latency_fence (chunk_at s q)"
    if "fin_seq s \<le> q" "q \<le> ready_for_encode s" for q
    using slot_window [OF ok r, of q] that r by (simp add: CommitCurrentChunk_def)
  have un: "unsignalled ?s q \<longleftrightarrow> unsignalled s q \<or> q = ready_for_encode s \<and> unsignalled ?s q" for q
    by (auto simp: unsignalled_def CommitCurrentChunk_def)
  have new: "unsignalled ?s (ready_for_encode s)"
    using ok r by (auto simp: unsignalled_def CommitCurrentChunk_def counters_ok_def split: if_splits)
  have side: "awaited (app ?s) < ready_for_encode ?s \<and> (\<forall>v. app ?s = WaitLatency v \<longrightarrow> v \<le> frame_count ?s)"
    using k l by (auto simp: CommitCurrentChunk_def latency_ok_def)
  show ?thesis
  proof (cases "k = ThenPresent")
    case True
    then have "signal_frame_latency_fence (chunk_at ?s (ready_for_encode s)) = Some (frames ?s)"
      using k at [of "ready_for_encode s"] r by (simp add: frames_def CommitCurrentChunk_def presenting_def)
    then show ?thesis using new side unfolding latency_ok_def by blast
  next
    case False
    then have f: "frames ?s = frames s" "frame_latency_fence ?s = frame_latency_fence s"
      using a by (auto simp: frames_def CommitCurrentChunk_def presenting_def)
    have "unsignalled s q \<Longrightarrow> fin_seq s \<le> q \<and> q \<le> ready_for_encode s" for q by (simp add: unsignalled_def)
    then show ?thesis using l f side un at unfolding latency_ok_def by metis
  qed
qed

text \<open>Steps that keep every chunk that still has to signal.\<close>

lemma latency_cong:
  assumes "latency_ok s" "frames s' = frames s" "frame_latency_fence s \<le> frame_latency_fence s'"
    and "\<And>q. unsignalled s q \<Longrightarrow> unsignalled s' q \<and>
      signal_frame_latency_fence (chunk_at s' q) = signal_frame_latency_fence (chunk_at s q)"
    and "awaited (app s') \<le> awaited (app s)" "ready_for_encode s \<le> ready_for_encode s'"
    and "\<And>v. app s' = WaitLatency v \<Longrightarrow> v \<le> frame_count s'"
  shows "latency_ok s'"
  unfolding latency_ok_def
proof (intro conjI)
  show "awaited (app s') < ready_for_encode s'" using assms(1,5,6) by (simp add: latency_ok_def)
  show "\<forall>v. app s' = WaitLatency v \<longrightarrow> v \<le> frame_count s'" using assms(7) by blast
  show "frames s' \<le> frame_latency_fence s' \<or>
      (\<exists>q v. unsignalled s' q \<and> signal_frame_latency_fence (chunk_at s' q) = Some v \<and> frames s' \<le> v)"
    using assms(1-4) unfolding latency_ok_def by (metis order_trans)
qed

lemma latency_emit:
  assumes ok: "counters_ok s" and a: "app s = Recording" and l: "latency_ok s"
  shows "latency_ok (emitcc x n s)" and "latency_ok (mark_frame s)"
    and "signal_frame_latency_fence (chunk_at (emitcc x n (mark_frame s)) (ready_for_encode s)) = Some (frame_count s + 1)"
proof -
  note w = window [OF ok]
  have r: "fin_seq s \<le> ready_for_encode s" "ready_for_encode s < fin_seq s + 32" using w a by simp_all
  have q: "fin_seq s \<le> q \<and> q < fin_seq s + 32 \<and> q \<noteq> ready_for_encode s" if "unsignalled s q" for q
    using that r by (simp add: unsignalled_def)
  show "latency_ok (emitcc x n s)"
    by (rule latency_cong [OF l])
      (use slot_window [OF ok r] q a in \<open>auto simp: emitcc_eq frames_def unsignalled_def\<close>)
  show "latency_ok (mark_frame s)"
    by (rule latency_cong [OF l])
      (use slot_window [OF ok r] q a in \<open>auto simp: mark_frame_def frames_def unsignalled_def\<close>)
  show "signal_frame_latency_fence (chunk_at (emitcc x n (mark_frame s)) (ready_for_encode s)) = Some (frame_count s + 1)"
    using w(1) by (simp add: emitcc_eq mark_frame_def chunk_at_update add_node_def)
qed

lemma latency_step:
  assumes ok: "counters_ok s" and l: "latency_ok s" and p: "perform a s = Some s'"
  shows "latency_ok s'"
  using p
proof (cases rule: perform_cases)
  case (Emit x n)
  then show ?thesis using latency_emit(1) [OF ok _ l] by simp
next
  case (Flush ev)
  then show ?thesis using latency_commit [OF ok _ l] by simp
next
  case (Present x n ev)
  have app: "app (mark_frame s) = Recording" "app (emitcc x n (mark_frame s)) = Recording"
    using Present by (simp_all add: mark_frame_def emitcc_eq)
  have "latency_ok (emitcc x n (mark_frame s))"
    by (rule latency_emit(1) [OF counters_emit(2) [OF ok] app(1) latency_emit(2) [OF ok Present(3) l]])
  from latency_commit [OF counters_emit(1) [OF counters_emit(2) [OF ok]] app(2) this, of ThenPresent]
  show ?thesis using latency_emit(3) [OF ok Present(3) l] Present by (simp add: emitcc_eq mark_frame_def)
next
  case (Idle ev)
  then show ?thesis using latency_commit [OF ok _ l] by simp
next
  case (Free k)
  show ?thesis by (rule latency_cong [OF l]) (use Free in \<open>cases k; auto simp: frames_def presenting_def unsignalled_def\<close>)+
next
  case (Ongoing k)
  show ?thesis by (rule latency_cong [OF l]) (use Ongoing in \<open>cases k; auto simp: frames_def presenting_def unsignalled_def\<close>)+
next
  case (Add k)
  show ?thesis by (rule latency_cong [OF l]) (use Add in \<open>cases k; auto simp: frames_def presenting_def unsignalled_def\<close>)+
next
  case Boundary
  show ?thesis by (rule latency_cong [OF l])
      (use Boundary in \<open>auto simp: frames_def presenting_def unsignalled_def PresentBoundary_def Let_def split: if_splits\<close>)
next
  case Encode
  note w = window [OF ok]
  have e: "fin_seq s \<le> enc_seq s" "enc_seq s < ready_for_encode s" using Encode w(3,4) by simp_all
  then have r: "enc_seq s < fin_seq s + 32" using w(5) by (auto simp: waiting_def split: app_pc.splits)
  have q: "q < fin_seq s + 32" if "unsignalled s q" for q
    using that w(5) by (auto simp: unsignalled_def waiting_def split: app_pc.splits)
  show ?thesis by (rule latency_cong [OF l])
      (use Encode slot_window [OF ok e(1) r] q l in
        \<open>auto simp: frames_def unsignalled_def CommitChunkInternal_def Let_def latency_ok_def\<close>)
next
  case Complete
  have "frames s' \<le> frame_latency_fence s' \<or>
      (\<exists>q v. unsignalled s' q \<and> signal_frame_latency_fence (chunk_at s' q) = Some v \<and> frames s' \<le> v)"
    using l Complete unfolding latency_ok_def
    by (auto simp: frames_def unsignalled_def fence_signal_def split: option.splits)
  then show ?thesis using l Complete by (simp add: latency_ok_def)
next
  case Reset
  have "chunk_at s' q = chunk_at s q" if "unsignalled s q" for q
    using that window(5) [OF ok] Reset slot_window [OF ok, of "fin_seq s" q]
    by (auto simp: unsignalled_def waiting_def split: app_pc.splits)
  then show ?thesis by (intro latency_cong [OF l]) (use Reset l in \<open>auto simp: frames_def unsignalled_def latency_ok_def\<close>)
qed (auto intro!: latency_cong [OF l] simp: frames_def presenting_def unsignalled_def split: if_splits
    dest: l [unfolded latency_ok_def, THEN conjunct2, THEN conjunct2, rule_format])

section \<open>Progress\<close>

text \<open>An upper bound on the steps the threads and the GPU can still make by themselves.\<close>

definition app_rank :: "app_pc \<Rightarrow> nat" where
  "app_rank p = (case p of Recording \<Rightarrow> 0 | WaitCPUFence v \<Rightarrow> 1 | WaitLatency v \<Rightarrow> 1 | AtPresentBoundary \<Rightarrow> 2
     | FreeCommandBlocks k \<Rightarrow> 3 | AddOngoing k \<Rightarrow> 4 | WaitOngoing k \<Rightarrow> 5)"

definition fin_rank :: "fin_pc \<Rightarrow> nat" where
  "fin_rank p = (case p of WaitForCommit \<Rightarrow> 0 | WaitCompleted \<Rightarrow> 1 | Resetting \<Rightarrow> 2 | Signalling \<Rightarrow> 3 | Releasing \<Rightarrow> 4)"

definition work_left :: "'c queue \<Rightarrow> nat" where
  "work_left s = app_rank (app s) +
     (2 * (ready_for_encode s - enc_seq s) - submitted (enc s)) +
     (5 * (ready_for_encode s - fin_seq s) - fin_rank (fin s)) +
     (ready_for_encode s - 1 - length (gpu s)) + length (filter (\<lambda>b. \<not> completed b) (gpu s))"

fun is_background :: "'c action \<Rightarrow> bool" where
  "is_background App = True" | "is_background Enc = True"
| "is_background (Gpu i) = True" | "is_background Fin = True"
| "is_background _ = False"

text \<open>No thread and no command buffer can go on by itself.\<close>

definition blocked :: "'c queue \<Rightarrow> bool" where
  "blocked s \<longleftrightarrow> list_all (\<lambda>a. perform a s = None) ([App, Enc, Fin] @ map Gpu [0..<length (gpu s)])"

text \<open>Everything committed has been executed and recycled, and the application may go on.\<close>

definition settled :: "'c queue \<Rightarrow> bool" where
  "settled s \<longleftrightarrow> app s = Recording \<and> enc_seq s = ready_for_encode s \<and> fin_seq s = ready_for_encode s \<and>
     cpu_coherent s + 1 = ready_for_encode s \<and> chunk_ongoing s = 0 \<and> list_all completed (gpu s)"

lemma filter_update_drop:
  "i < length xs \<Longrightarrow> P (xs ! i) \<Longrightarrow> \<not> P y \<Longrightarrow> Suc (length (filter P (xs[i := y]))) = length (filter P xs)"
  by (subst id_take_nth_drop [of i xs], simp, subst upd_conv_take_nth_drop, simp) simp

lemma background_decreases:
  assumes ok: "counters_ok s" and p: "perform a s = Some s'" and b: "is_background a"
  shows "work_left s' < work_left s"
proof -
  note w = window [OF ok]
  note d = work_left_def app_rank_def fin_rank_def submitted_def
  have f: "fin s \<noteq> WaitForCommit \<Longrightarrow> fin_seq s < ready_for_encode s"
    and e: "enc s = Submitted \<Longrightarrow> enc_seq s < ready_for_encode s" "enc s = WaitForEncode \<Longrightarrow> enc_seq s = length (gpu s) + 1"
    using ok by (auto simp: counters_ok_def submitted_def split: if_splits)
  from p show ?thesis
  proof (cases rule: perform_cases)
    case (Free k)
    then show ?thesis by (cases k) (simp_all add: d)
  next
    case Encode
    then show ?thesis using w e by (simp add: d CommitChunkInternal_def Let_def)
  next
    case (Gpu i)
    then show ?thesis using filter_update_drop [of i "gpu s" "\<lambda>b. \<not> completed b" "(gpu s ! i)\<lparr>completed := True\<rparr>"]
      by (simp add: d)
  next
    case Publish
    then show ?thesis using w e by (simp add: d)
  next
    case Take
    then have "fin_seq s < ready_for_encode s" using ok by (auto simp: counters_ok_def)
    then show ?thesis using w Take by (simp add: d)
  next
    case Complete
    then show ?thesis using w f by (simp add: d)
  next
    case Reset
    then show ?thesis using w f by (simp add: d)
  next
    case Signal
    then show ?thesis using w f by (simp add: d)
  next
    case Release
    then show ?thesis using w f by (simp add: d)
  qed (use b in \<open>auto simp: work_left_def app_rank_def PresentBoundary_def Let_def\<close>)
qed

lemma blocked_settled:
  assumes ok: "counters_ok s" and c: "contents_ok cs now s" and l: "latency_ok s" and b: "blocked s"
  shows "settled s"
proof -
  have g: "\<And>i. i < length (gpu s) \<Longrightarrow> completed (gpu s ! i)"
    using b by (auto simp: blocked_def list_all_iff gpu_step_def split: if_splits)
  have e: "enc s = WaitForEncode" "enc_seq s = ready_for_encode s"
    using b by (auto simp: blocked_def enc_step_def split: enc_pc.splits if_splits)
  have lg: "length (gpu s) + 1 = ready_for_encode s" "ready_for_commit s = ready_for_encode s"
    using ok e by (simp_all add: counters_ok_def submitted_def)
  have "fin s \<noteq> WaitCompleted"
  proof
    assume f: "fin s = WaitCompleted"
    have q: "fin_seq s \<le> length (gpu s)" "1 \<le> fin_seq s" using ok f lg by (auto simp: counters_ok_def)
    have "attached_cmdbuf (chunk_at s (fin_seq s)) = Some (fin_seq s - 1)"
      using contents_okD(4) [OF c, of "fin_seq s"] q f by (simp add: emptied_def)
    then have "buffer_completed s (chunk_at s (fin_seq s))" using q g by (simp add: buffer_completed_def)
    then show False using b f by (simp add: blocked_def fin_step_def)
  qed
  then have f: "fin s = WaitForCommit" "fin_seq s = ready_for_encode s"
    using b lg by (auto simp: blocked_def fin_step_def Let_def split: fin_pc.splits if_splits)
  have co: "cpu_coherent s + 1 = ready_for_encode s" using ok f by (simp add: counters_ok_def)
  have og: "chunk_ongoing s = of_int (- int (unpaid (app s)))" using ok f by (simp add: counters_ok_def)
  have lat: "frames s \<le> frame_latency_fence s" using l f by (auto simp: latency_ok_def unsignalled_def)
  have "app s = Recording"
  proof (cases "app s")
    case (WaitOngoing k)
    then have "chunk_ongoing s \<noteq> of_nat (kCommandChunkCount - 1)" using og by (simp add: unpaid_def kCommandChunkCount_def)
    then show ?thesis using b WaitOngoing by (simp add: blocked_def app_step_def)
  next
    case (WaitLatency v)
    then have "v \<le> frame_latency_fence s" using l lat by (auto simp: latency_ok_def frames_def)
    then show ?thesis using b WaitLatency by (simp add: blocked_def app_step_def fence_reached_def)
  next
    case (WaitCPUFence v)
    then have "v \<le> cpu_coherent s" using l co by (simp add: latency_ok_def)
    then show ?thesis using b WaitCPUFence by (simp add: blocked_def app_step_def fence_reached_def)
  qed (use b in \<open>simp_all add: blocked_def app_step_def\<close>)
  then show ?thesis using e f co og g by (auto simp: settled_def unpaid_def list_all_length)
qed

section \<open>The memory of the commands\<close>

definition node_apart :: "'c cmd_node \<Rightarrow> 'c cmd_node \<Rightarrow> bool" where
  "node_apart m n \<longleftrightarrow> fst (node_at m) \<noteq> fst (node_at n) \<or>
     unat (snd (node_at m)) + unat (node_bytes m) \<le> unat (snd (node_at n)) \<or>
     unat (snd (node_at n)) + unat (node_bytes n) \<le> unat (snd (node_at m))"

text \<open>A command lies inside a block that has not been given back to the heap, aligned to 16 bytes.\<close>

definition node_placed :: "'c queue \<Rightarrow> 'c cmd_node \<Rightarrow> bool" where
  "node_placed s n \<longleftrightarrow> 16 dvd unat (snd (node_at n)) \<and>
     (case live (allocator (cpu_command_allocator s)) (fst (node_at n)) of None \<Rightarrow> False
      | Some k \<Rightarrow> unat (snd (node_at n)) + unat (node_bytes n) \<le> unat k)"

definition live_nodes :: "'c queue \<Rightarrow> 'c cmd_node list" where
  "live_nodes s = concat (map list_enc (chunks s))"

definition node_entry :: "'c cmd_node \<Rightarrow> nat \<Rightarrow> nat \<times> nat \<times> nat \<times> nat" where
  "node_entry n q = (fst (node_at n), unat (snd (node_at n)), unat (node_bytes n), q)"

definition memory_ok :: "'c queue \<Rightarrow> bool" where
  "memory_ok s \<longleftrightarrow>
     sorted_wrt node_apart (live_nodes s) \<and>
     (\<exists>log. host.ring_ok {} (cpu_coherent s) (ready_for_encode s) log (cpu_command_allocator s) \<and>
        (\<forall>q n. fin_seq s \<le> q \<and> q < fin_seq s + 32 \<and> n \<in> set (list_enc (chunk_at s q)) \<longrightarrow>
           node_entry n q \<in> log \<and> 16 dvd unat (snd (node_at n))))"

lemma node_apart_sym: "node_apart m n = node_apart n m"
  by (auto simp: node_apart_def)

lemma sorted_wrt_insert_apart:
  "sorted_wrt node_apart (xs @ l @ [n] @ ys) \<longleftrightarrow>
   sorted_wrt node_apart (xs @ l @ ys) \<and> (\<forall>m \<in> set (xs @ l @ ys). node_apart m n)"
  by (auto simp: sorted_wrt_append node_apart_sym [of n])

text \<open>The live commands, seen from one slot.\<close>

lemma live_split:
  assumes "length (chunks s) = kCommandChunkCount"
  obtains xs ys where "live_nodes s = xs @ list_enc (chunk_at s q) @ ys"
    and "\<And>f. live_nodes (update_chunk q f s) = xs @ list_enc (f (chunk_at s q)) @ ys"
proof -
  let ?i = "q mod kCommandChunkCount"
  have i: "?i < length (chunks s)" using assms by (simp add: kCommandChunkCount_def)
  show ?thesis
  proof (rule that)
    show "live_nodes s = concat (map list_enc (take ?i (chunks s))) @ list_enc (chunk_at s q) @
        concat (map list_enc (drop (Suc ?i) (chunks s)))"
      unfolding live_nodes_def chunk_at_def using arg_cong [OF id_take_nth_drop [OF i], of "\<lambda>l. concat (map list_enc l)"]
      by simp
    show "live_nodes (update_chunk q f s) = concat (map list_enc (take ?i (chunks s))) @
        list_enc (f (chunk_at s q)) @ concat (map list_enc (drop (Suc ?i) (chunks s)))" for f
      using i by (simp add: live_nodes_def update_chunk_def upd_conv_take_nth_drop)
  qed
qed

lemma live_window:
  assumes ok: "counters_ok s" and n: "n \<in> set (live_nodes s)"
  obtains q where "fin_seq s \<le> q" "q < fin_seq s + 32" "n \<in> set (list_enc (chunk_at s q))"
proof -
  obtain i where i: "i < 32" "n \<in> set (list_enc (chunks s ! i))"
    using n window(1) [OF ok] by (auto simp: live_nodes_def in_set_conv_nth [of _ "chunks s"] kCommandChunkCount_def)
  define f where "f = fin_seq s"
  obtain k m where km: "f = 32 * k + m" "m < 32"
    using mult_div_mod_eq [of 32 f] mod_less_divisor [of 32 f] by (metis zero_less_numeral)
  define q where "q = 32 * k + (if m \<le> i then i else i + 32)"
  have "f \<le> q" "q < f + 32" "q mod 32 = i"
    using i(1) km by (auto simp: q_def)
  then show thesis using that [of q] i(2) by (simp add: f_def chunk_at_def kCommandChunkCount_def)
qed

lemma memory_okI:
  assumes "sorted_wrt node_apart (live_nodes s)"
    and "host.ring_ok {} (cpu_coherent s) (ready_for_encode s) log (cpu_command_allocator s)"
    and "\<And>q n. fin_seq s \<le> q \<Longrightarrow> q < fin_seq s + 32 \<Longrightarrow> n \<in> set (list_enc (chunk_at s q)) \<Longrightarrow>
      node_entry n q \<in> log \<and> 16 dvd unat (snd (node_at n))"
  shows "memory_ok s"
  using assms unfolding memory_ok_def by blast

lemma memory_okE:
  assumes "memory_ok s"
  obtains log where "sorted_wrt node_apart (live_nodes s)"
    and "host.ring_ok {} (cpu_coherent s) (ready_for_encode s) log (cpu_command_allocator s)"
    and "\<And>q n. fin_seq s \<le> q \<Longrightarrow> q < fin_seq s + 32 \<Longrightarrow> n \<in> set (list_enc (chunk_at s q)) \<Longrightarrow>
      node_entry n q \<in> log \<and> 16 dvd unat (snd (node_at n))"
  using assms unfolding memory_ok_def by blast

lemma unat_counter: "n < 2 ^ 64 \<Longrightarrow> unat (of_nat n :: u64) = n"
  by (simp add: unat_of_nat)

text \<open>The commands of a window chunk belong to work the GPU has not completed.\<close>

lemma window_incomplete:
  assumes ok: "counters_ok s" and c: "contents_ok cs now s"
    and q: "fin_seq s \<le> q" "q < fin_seq s + 32" and n: "n \<in> set (list_enc (chunk_at s q))"
  shows "cpu_coherent s < q"
proof (rule ccontr)
  assume "\<not> cpu_coherent s < q"
  then have "emptied s q" using ok q(1) by (auto simp: counters_ok_def emptied_def split: if_splits)
  then have "payloads s q = []" using contents_okD(3) [OF c q] by (simp add: held_def)
  then show False using n by (simp add: payloads_def)
qed

lemma memory_emit:
  assumes ok: "counters_ok s" and c: "contents_ok cs now s" and a: "app s = Recording"
    and sane: "sane_size n" and small: "ready_for_encode s < 2 ^ 64" and m: "memory_ok s"
  shows "memory_ok (emitcc x n s)"
proof -
  from m obtain log where lg: "sorted_wrt node_apart (live_nodes s)"
      "host.ring_ok {} (cpu_coherent s) (ready_for_encode s) log (cpu_command_allocator s)"
      "\<And>q n. fin_seq s \<le> q \<Longrightarrow> q < fin_seq s + 32 \<Longrightarrow> n \<in> set (list_enc (chunk_at s q)) \<Longrightarrow>
        node_entry n q \<in> log \<and> 16 dvd unat (snd (node_at n))"
    by (rule memory_okE) blast
  note w = window [OF ok]
  have r: "fin_seq s \<le> ready_for_encode s" "ready_for_encode s < fin_seq s + 32" using w a by simp_all
  have coh: "cpu_coherent s < 2 ^ 64" using ok small r by (auto simp: counters_ok_def split: if_splits)
  obtain place ring where pl: "place_command n s = (place, ring)" by fastforce
  have n62: "unat n \<le> 2 ^ 62" using sane by (simp add: sane_size_def word_le_nat_alt)
  have "allocate host_allocate host_release kCommandChunkCPUHeapSize (of_nat (ready_for_encode s))
      (of_nat (cpu_coherent s)) n (2 ^ 4) (cpu_command_allocator s) = (place, ring)"
    using pl by (simp add: place_command_def)
  note al = host.allocate_ok [OF lg(2) _ _ n62 _ _ this, unfolded unat_counter [OF small]]
  define new where "new = \<lparr>node_cmd = x, node_at = place, node_bytes = n\<rparr>"
  have e: "host.placed place n (of_nat (ready_for_encode s)) = node_entry new (ready_for_encode s)"
    by (simp add: host.placed_def node_entry_def new_def unat_counter [OF small])
  have ring: "host.ring_ok {} (cpu_coherent s) (ready_for_encode s) (insert (node_entry new (ready_for_encode s)) log) ring"
    and dvd: "16 dvd unat (snd place)"
    and sep: "\<forall>e \<in> log. host.separate (cpu_coherent s) e (node_entry new (ready_for_encode s))"
    using al by (simp_all add: unat_counter [OF coh] kCommandChunkCPUHeapSize_def e)
  have "\<forall>m \<in> set (live_nodes s). node_apart m new"
  proof
    fix m assume "m \<in> set (live_nodes s)"
    then obtain q where q: "fin_seq s \<le> q" "q < fin_seq s + 32" "m \<in> set (list_enc (chunk_at s q))"
      by (rule live_window [OF ok])
    have "host.separate (cpu_coherent s) (node_entry m q) (node_entry new (ready_for_encode s))"
      using lg(3) [OF q] sep by blast
    then show "node_apart m new"
      using window_incomplete [OF ok c q] by (auto simp: host.separate_def node_entry_def node_apart_def)
  qed
  moreover obtain xs ys where live: "live_nodes s = xs @ list_enc (chunk_at s (ready_for_encode s)) @ ys"
      "\<And>f. live_nodes (update_chunk (ready_for_encode s) f s) = xs @ list_enc (f (chunk_at s (ready_for_encode s))) @ ys"
    by (rule live_split [OF w(1)]) blast
  have "live_nodes (emitcc x n s) = xs @ list_enc (chunk_at s (ready_for_encode s)) @ [new] @ ys"
    using live(2) by (simp add: emitcc_eq pl new_def add_node_def live_nodes_def)
  ultimately have "sorted_wrt node_apart (live_nodes (emitcc x n s))"
    using lg(1) by (simp only: sorted_wrt_insert_apart live(1) simp_thms)
  then show ?thesis
  proof (rule memory_okI)
    show "host.ring_ok {} (cpu_coherent (emitcc x n s)) (ready_for_encode (emitcc x n s))
        (insert (node_entry new (ready_for_encode s)) log) (cpu_command_allocator (emitcc x n s))"
      using ring by (simp add: emitcc_eq pl)
    fix q m
    assume q: "fin_seq (emitcc x n s) \<le> q" "q < fin_seq (emitcc x n s) + 32" "m \<in> set (list_enc (chunk_at (emitcc x n s) q))"
    then have q': "fin_seq s \<le> q" "q < fin_seq s + 32" by (simp_all add: emitcc_eq)
    from q(3) slot_window [OF ok r q'] have "m \<in> set (list_enc (chunk_at s q)) \<or> q = ready_for_encode s \<and> m = new"
      by (auto simp: emitcc_eq pl add_node_def new_def split: if_splits)
    then show "node_entry m q \<in> insert (node_entry new (ready_for_encode s)) log \<and> 16 dvd unat (snd (node_at m))"
      using lg(3) [OF q'] dvd by (auto simp: new_def)
  qed
qed

text \<open>Steps that keep the command lists, the ring or its contract, and do not take back completion.\<close>

lemma memory_cong:
  assumes m: "memory_ok s"
    and "map list_enc (chunks s') = map list_enc (chunks s)" "fin_seq s' = fin_seq s"
    and "cpu_coherent s \<le> cpu_coherent s'" "ready_for_encode s \<le> ready_for_encode s'"
    and "length (chunks s) = kCommandChunkCount"
    and "cpu_command_allocator s' = cpu_command_allocator s"
  shows "memory_ok s'"
proof -
  have "list_enc (chunk_at s' q) = list_enc (chunk_at s q)" for q
  proof -
    have "q mod kCommandChunkCount < length (chunks s')"
      using assms(2,6) map_eq_imp_length_eq [OF assms(2)] by (simp add: kCommandChunkCount_def)
    then show ?thesis using assms(2) map_eq_imp_length_eq [OF assms(2)] unfolding chunk_at_def by (metis nth_map)
  qed
  moreover have "live_nodes s' = live_nodes s" using assms(2) by (simp add: live_nodes_def)
  ultimately show ?thesis using m host.ring_ok_mono [OF _ assms(4,5)] assms(3,7) unfolding memory_ok_def by metis
qed

lemma memory_commit:
  assumes ok: "counters_ok s" and a: "app s = Recording" and m: "memory_ok s"
  shows "memory_ok (mark_frame s)" and "memory_ok (CommitCurrentChunk ev k s)"
proof -
  have i: "ready_for_encode s mod kCommandChunkCount < length (chunks s)"
    using window(1) [OF ok] by (simp add: kCommandChunkCount_def)
  show "memory_ok (mark_frame s)" "memory_ok (CommitCurrentChunk ev k s)"
    by (rule memory_cong [OF m];
        use i window(1) [OF ok] in \<open>simp add: mark_frame_def CommitCurrentChunk_def update_chunk_def chunk_at_def
          map_update list_update_same_conv\<close>)+
qed

lemma memory_reset:
  assumes ok: "counters_ok s" and m: "memory_ok s"
  shows "memory_ok ((update_chunk (fin_seq s) reset_chunk s)\<lparr>fin := Signalling\<rparr>)" (is "memory_ok ?s")
proof -
  from m obtain log where lg: "sorted_wrt node_apart (live_nodes s)"
      "host.ring_ok {} (cpu_coherent s) (ready_for_encode s) log (cpu_command_allocator s)"
      "\<And>q n. fin_seq s \<le> q \<Longrightarrow> q < fin_seq s + 32 \<Longrightarrow> n \<in> set (list_enc (chunk_at s q)) \<Longrightarrow>
        node_entry n q \<in> log \<and> 16 dvd unat (snd (node_at n))"
    by (rule memory_okE) blast
  obtain xs ys where live: "live_nodes s = xs @ list_enc (chunk_at s (fin_seq s)) @ ys"
      "\<And>f. live_nodes (update_chunk (fin_seq s) f s) = xs @ list_enc (f (chunk_at s (fin_seq s))) @ ys"
    by (rule live_split [OF window(1) [OF ok]]) blast
  have "live_nodes ?s = xs @ ys" using live(2) by (simp add: reset_chunk_def live_nodes_def)
  then have "sorted_wrt node_apart (live_nodes ?s)" using lg(1) live(1) by (simp add: sorted_wrt_append)
  moreover have "n \<in> set (list_enc (chunk_at ?s q)) \<Longrightarrow> n \<in> set (list_enc (chunk_at s q))"
    if "fin_seq s \<le> q" "q < fin_seq s + 32" for q n
    using slot_window [OF ok _ _ that, of "fin_seq s"] by (auto simp: reset_chunk_def split: if_splits)
  ultimately show ?thesis using lg(2,3) by (intro memory_okI [where log = log]) simp_all
qed

lemma memory_release:
  assumes ok: "counters_ok s" and c: "contents_ok cs now s" and f: "fin s = Releasing" and m: "memory_ok s"
  shows "memory_ok (s\<lparr>chunk_ongoing := u, fin_seq := fin_seq s + 1, fin := WaitForCommit\<rparr>)" (is "memory_ok ?s")
proof -
  from m obtain log where lg: "sorted_wrt node_apart (live_nodes s)"
      "host.ring_ok {} (cpu_coherent s) (ready_for_encode s) log (cpu_command_allocator s)"
      "\<And>q n. fin_seq s \<le> q \<Longrightarrow> q < fin_seq s + 32 \<Longrightarrow> n \<in> set (list_enc (chunk_at s q)) \<Longrightarrow>
        node_entry n q \<in> log \<and> 16 dvd unat (snd (node_at n))"
    by (rule memory_okE) blast
  have "list_enc (chunk_at s (fin_seq s)) = []"
    using contents_okD(3) [OF c, of "fin_seq s"] f by (simp add: held_def emptied_def payloads_def)
  then have "list_enc (chunk_at s (fin_seq s + 32)) = []" by (simp add: chunk_at_def slot_period)
  then have low: "q < fin_seq s + 32" if "q \<le> fin_seq s + 32" "n \<in> set (list_enc (chunk_at s q))" for q n
    using that by (cases "q = fin_seq s + 32") auto
  show ?thesis
  proof (rule memory_okI)
    show "sorted_wrt node_apart (live_nodes ?s)" using lg(1) by (simp add: live_nodes_def)
    show "host.ring_ok {} (cpu_coherent ?s) (ready_for_encode ?s) log (cpu_command_allocator ?s)" using lg(2) by simp
    fix q n
    assume "fin_seq ?s \<le> q" "q < fin_seq ?s + 32" "n \<in> set (list_enc (chunk_at ?s q))"
    then show "node_entry n q \<in> log \<and> 16 dvd unat (snd (node_at n))" using lg(3) [of q n] low [of q n] by simp
  qed
qed

lemma memory_step:
  assumes ok: "counters_ok s" and c: "contents_ok cs now s" and m: "memory_ok s"
    and p: "perform a s = Some s'" and small: "ready_for_encode s' < 2 ^ 64"
  shows "memory_ok s'"
  using p
proof (cases rule: perform_cases)
  case (Emit x n)
  then show ?thesis using memory_emit [OF ok c _ _ _ m] small by (simp add: emitcc_eq)
next
  case (Flush ev)
  then show ?thesis using memory_commit [OF ok _ m] by simp
next
  case (Present x n ev)
  have app: "app (mark_frame s) = Recording" "app (emitcc x n (mark_frame s)) = Recording"
    using Present by (simp_all add: mark_frame_def emitcc_eq)
  have "memory_ok (emitcc x n (mark_frame s))"
    by (rule memory_emit [OF counters_emit(2) [OF ok] contents_emit(2) [OF ok Present(3) c] app(1) Present(2)
          _ memory_commit(1) [OF ok Present(3) m]])
      (use small Present in \<open>simp add: CommitCurrentChunk_def emitcc_eq mark_frame_def\<close>)
  then show ?thesis using memory_commit(2) [OF counters_emit(1) [OF counters_emit(2) [OF ok]] app(2)] Present by simp
next
  case (Idle ev)
  then show ?thesis using memory_commit [OF ok _ m] by simp
next
  case (Free k)
  from m obtain log where lg: "sorted_wrt node_apart (live_nodes s)"
      "host.ring_ok {} (cpu_coherent s) (ready_for_encode s) log (cpu_command_allocator s)"
      "\<And>q n. fin_seq s \<le> q \<Longrightarrow> q < fin_seq s + 32 \<Longrightarrow> n \<in> set (list_enc (chunk_at s q)) \<Longrightarrow>
        node_entry n q \<in> log \<and> 16 dvd unat (snd (node_at n))"
    by (rule memory_okE) blast
  have "unat (of_nat (cpu_coherent s) :: u64) \<le> cpu_coherent s" by (simp add: unat_of_nat)
  then have "host.ring_ok {} (cpu_coherent s) (ready_for_encode s) log (cpu_command_allocator s')"
    using host.ring_ok_free_loop lg(2) by (simp add: Free free_blocks_def host.ring_eta)
  then show ?thesis using lg Free by (intro memory_okI [where log = log]) (simp_all add: live_nodes_def)
next
  case Encode
  have "enc_seq s mod kCommandChunkCount < length (chunks s)"
    using window(1) [OF ok] by (simp add: kCommandChunkCount_def)
  then show ?thesis using window(1) [OF ok]
    by (intro memory_cong [OF m]) (simp_all add: Encode CommitChunkInternal_def Let_def update_chunk_def chunk_at_def
        map_update list_update_same_conv)
next
  case Reset
  then show ?thesis using memory_reset [OF ok m] by simp
next
  case Release
  then show ?thesis using memory_release [OF ok c _ m] by simp
qed (use window(1) [OF ok] in \<open>auto intro!: memory_cong [OF m] simp: PresentBoundary_def Let_def fence_signal_def\<close>)

section \<open>All reachable states\<close>

lemma counters_reaches: "reaches h s \<Longrightarrow> counters_ok s"
  by (induction rule: reaches.induct) (auto intro: counters_init counters_step)

lemma contents_reaches: "reaches h s \<Longrightarrow> contents_ok (fst (recorded h)) (snd (recorded h)) s"
proof (induction rule: reaches.induct)
  case init
  then show ?case using contents_init by (simp add: recorded_def)
next
  case (step h s a s')
  then show ?case using contents_step [OF counters_reaches [OF step.hyps(1)] step.IH step.hyps(2)]
    by (simp add: recorded_snoc)
qed

lemma latency_reaches: "reaches h s \<Longrightarrow> latency_ok s"
proof (induction rule: reaches.induct)
  case init
  then show ?case by (simp add: latency_ok_def init_queue_def frames_def presenting_def)
next
  case (step h s a s')
  then show ?case using latency_step [OF counters_reaches] by blast
qed

lemma ready_mono: "perform a s = Some s' \<Longrightarrow> ready_for_encode s \<le> ready_for_encode s'"
  by (elim perform_cases) (simp_all add: emitcc_eq CommitCurrentChunk_def mark_frame_def PresentBoundary_def
      CommitChunkInternal_def Let_def)

lemma memory_reaches: "reaches h s \<Longrightarrow> ready_for_encode s < 2 ^ 64 \<Longrightarrow> memory_ok s"
proof (induction rule: reaches.induct)
  case init
  have "set (live_nodes (init_queue :: 'a queue)) = {}" by (simp add: live_nodes_def init_queue_def new_chunk_def)
  then have "live_nodes (init_queue :: 'a queue) = []" by simp
  moreover have "list_enc (chunk_at (init_queue :: 'a queue) q) = []" for q
    by (simp add: chunk_at_def init_queue_def new_chunk_def kCommandChunkCount_def)
  moreover have "host.ring_ok {} 0 1 {} \<lparr>fifo = [], allocator = []\<rparr>"
    using host.ring_ok_mono [OF host.ring_ok_init [of "[]"], of 0 1] by (simp add: live_def)
  ultimately show ?case by (intro memory_okI [where log = "{}"]) (simp_all add: init_queue_def)
next
  case (step h s a s')
  then show ?case
    using memory_step [OF counters_reaches [OF step.hyps(1)] contents_reaches [OF step.hyps(1)] _ step.hyps(2)]
      ready_mono [OF step.hyps(2)] by simp
qed

lemma run_append: "run (as @ bs) s = (case run as s of None \<Rightarrow> None | Some t \<Rightarrow> run bs t)"
  by (induction as arbitrary: s) (simp_all split: option.splits)

lemma run_reaches: "reaches h s \<Longrightarrow> run as s = Some s' \<Longrightarrow> reaches (h @ as) s'"
proof (induction as arbitrary: h s)
  case (Cons a as)
  then obtain t where "perform a s = Some t" "run as t = Some s'" by (auto split: option.splits)
  then show ?case using Cons.IH [OF reaches.step [OF Cons.prems(1)]] by simp
qed simp

lemma run_init: "run h init_queue = Some s \<Longrightarrow> reaches h s"
  using run_reaches [OF reaches.init] by simp

text \<open>What the finish thread has passed is completed.\<close>

definition passed :: "'c queue \<Rightarrow> nat" where
  "passed s = fin_seq s - (if fin s = WaitForCommit \<or> fin s = WaitCompleted then 1 else 0)"

definition completed_ok :: "'c queue \<Rightarrow> bool" where
  "completed_ok s \<longleftrightarrow> (\<forall>i < passed s. completed (gpu s ! i))"

lemma completed_step:
  assumes ok: "counters_ok s" and c: "contents_ok cs now s" and k: "completed_ok s" and p: "perform a s = Some s'"
  shows "completed_ok s'"
proof -
  have lg: "passed s \<le> length (gpu s)" "1 \<le> fin_seq s" using ok by (auto simp: counters_ok_def passed_def)
  from p show ?thesis
  proof (cases rule: perform_cases)
    case (Gpu i)
    then show ?thesis using k by (auto simp: completed_ok_def passed_def nth_list_update)
  next
    case Encode
    then show ?thesis using k lg
      by (auto simp: completed_ok_def passed_def CommitChunkInternal_def Let_def nth_append split: if_splits)
  next
    case Complete
    have q: "fin_seq s \<le> length (gpu s)" using ok Complete by (auto simp: counters_ok_def)
    have "attached_cmdbuf (chunk_at s (fin_seq s)) = Some (fin_seq s - 1)"
      using contents_okD(4) [OF c, of "fin_seq s"] q Complete by (simp add: emptied_def)
    then have "completed (gpu s ! (fin_seq s - 1))" using Complete by (simp add: buffer_completed_def)
    moreover have "i = fin_seq s - 1 \<or> i < fin_seq s - 1" if "i < fin_seq s" for i using that by arith
    ultimately show ?thesis using k lg Complete by (fastforce simp: completed_ok_def passed_def)
  qed (use k in \<open>simp_all add: completed_ok_def passed_def emitcc_eq mark_frame_def CommitCurrentChunk_def
      PresentBoundary_def Let_def\<close>)
qed

lemma completed_reaches: "reaches h s \<Longrightarrow> completed_ok s"
proof (induction rule: reaches.induct)
  case init
  then show ?case by (simp add: completed_ok_def passed_def init_queue_def)
next
  case (step h s a s')
  then show ?case using completed_step [OF counters_reaches [OF step.hyps(1)] contents_reaches [OF step.hyps(1)]] by blast
qed

lemma coherent_passed: "counters_ok s \<Longrightarrow> cpu_coherent s \<le> passed s"
  by (auto simp: counters_ok_def passed_def split: if_splits)

text \<open>Background runs shrink the work that is left.\<close>

lemma background_run:
  assumes "reaches h s" "run as s = Some s'" "list_all is_background as"
  shows "work_left s' + length as \<le> work_left s"
  using assms
proof (induction as arbitrary: h s)
  case (Cons a as)
  then obtain t where t: "perform a s = Some t" "run as t = Some s'" by (auto split: option.splits)
  have "work_left t < work_left s" using background_decreases [OF counters_reaches] Cons.prems t by auto
  moreover have "work_left s' + length as \<le> work_left t"
    using Cons.IH [OF reaches.step [OF Cons.prems(1) t(1)] t(2)] Cons.prems(3) by simp
  ultimately show ?case by simp
qed simp

section \<open>Properties\<close>

text \<open>
  A run used by the witnesses: a frame of three commands and a second chunk of one, during
  which the first frame is encoded, executed and recycled.
\<close>

definition sample_history :: "nat action list" where
  "sample_history =
     [SetMaxLatency 0, Emit 1 40, Emit 2 32, Present 3 64 5, Enc, App, App, App, App, Enc, Fin, Gpu 0, Fin,
      App, Emit 4 16, Fin, Fin, Flush 0, App, Enc, Fin]"

lemma sample_history_run: "run sample_history init_queue \<noteq> None"
  by code_simp

text \<open>
  C2. The queue is first in, first out: in any interleaving of the application, the two
  threads and the GPU, the command buffers the GPU has received are exactly the first command
  lists the application committed, in order, each once and complete.
\<close>

theorem queue_in_order:
  assumes "run h init_queue = Some s"
  shows "map work (gpu s) = take (length (gpu s)) (fst (recorded h))"
  by (rule contents_okD(5) [OF contents_reaches [OF run_init [OF assms]]])

lemma queue_in_order_witness:
  "map work (gpu (the (run sample_history init_queue))) = [[1, 2, 3], [4]] \<and>
    recorded sample_history = ([[1, 2, 3], [4]], [])"
proof
  have "run sample_history init_queue = Some (the (run sample_history init_queue))"
    using sample_history_run by simp
  from queue_in_order [OF this]
  have "map work (gpu (the (run sample_history init_queue))) =
      take (length (gpu (the (run sample_history init_queue)))) (fst (recorded sample_history))" .
  moreover have "length (gpu (the (run sample_history init_queue))) = 2" by code_simp
  moreover show "recorded sample_history = ([[1, 2, 3], [4]], [])" by code_simp
  ultimately show "map work (gpu (the (run sample_history init_queue))) = [[1, 2, 3], [4]]" by simp
qed

text \<open>
  C5. The memory of the commands is safe: in every state the queue reaches in fewer than
  \<open>2^64\<close> commits, no two commands of the chunks that are recorded or in flight share a byte,
  and each lies, aligned, inside a block the allocator still owns, although the ring hands out
  blocks again while the encoding thread and the GPU lag behind.
\<close>

theorem queue_memory_safe:
  assumes "run h init_queue = Some s" and "ready_for_encode s < 2 ^ 64"
  shows "sorted_wrt node_apart (live_nodes s) \<and> list_all (node_placed s) (live_nodes s)"
proof
  have reach: "reaches h s" by (rule run_init [OF assms(1)])
  note ok = counters_reaches [OF reach] and c = contents_reaches [OF reach]
  obtain log where lg: "sorted_wrt node_apart (live_nodes s)"
      "host.ring_ok {} (cpu_coherent s) (ready_for_encode s) log (cpu_command_allocator s)"
      "\<And>q n. fin_seq s \<le> q \<Longrightarrow> q < fin_seq s + 32 \<Longrightarrow> n \<in> set (list_enc (chunk_at s q)) \<Longrightarrow>
        node_entry n q \<in> log \<and> 16 dvd unat (snd (node_at n))"
    by (rule memory_okE [OF memory_reaches [OF reach assms(2)]]) blast
  show "sorted_wrt node_apart (live_nodes s)" by (rule lg(1))
  have "node_placed s n" if n: "n \<in> set (live_nodes s)" for n
  proof -
    obtain q where q: "fin_seq s \<le> q" "q < fin_seq s + 32" "n \<in> set (list_enc (chunk_at s q))"
      using live_window [OF ok n] by blast
    note e = lg(3) [OF q]
    obtain a where a: "a \<in> set (fifo (cpu_command_allocator s))" "host.protects a (node_entry n q)"
      using host.ring_okD(5) [OF lg(2)] e window_incomplete [OF ok c q] by (fastforce simp: node_entry_def)
    then show ?thesis
      using e host.ring_okD(3,6) [OF lg(2) a(1)]
      by (auto simp: node_placed_def host.protects_def host.entry_ok_def node_entry_def word_le_nat_alt)
  qed
  then show "list_all (node_placed s) (live_nodes s)" by (simp add: list_all_iff)
qed

lemma queue_memory_safe_witness:
  "sorted_wrt node_apart (live_nodes (the (run (take 4 sample_history) init_queue))) \<and>
    map node_at (live_nodes (the (run (take 4 sample_history) init_queue))) = [(1, 0), (1, 48), (1, 80)]"
proof
  let ?s = "the (run (take 4 sample_history) init_queue)"
  have "run (take 4 sample_history) init_queue \<noteq> None" by code_simp
  then have r: "run (take 4 sample_history) init_queue = Some ?s" by simp
  have "ready_for_encode ?s = 2" by code_simp
  then show "sorted_wrt node_apart (live_nodes ?s)" using queue_memory_safe [OF r] by simp
  show "map node_at (live_nodes ?s) = [(1, 0), (1, 48), (1, 80)]" by code_simp
qed

text \<open>
  C10. \<open>cpu_coherent\<close> tells the truth: every command buffer up to the completed id the
  rest of the program relies on has been executed by the GPU, and no more than 32 chunks are
  ever in use.
\<close>

theorem coherent_completed:
  assumes "run h init_queue = Some s"
  shows "cpu_coherent s \<le> length (gpu s) \<and> list_all completed (take (cpu_coherent s) (gpu s)) \<and>
    length (gpu s) < ready_for_encode s \<and> ready_for_encode s \<le> cpu_coherent s + 33"
proof -
  have reach: "reaches h s" by (rule run_init [OF assms])
  note ok = counters_reaches [OF reach]
  have "cpu_coherent s \<le> length (gpu s)" "length (gpu s) < ready_for_encode s" "ready_for_encode s \<le> cpu_coherent s + 33"
    using ok by (auto simp: counters_ok_def submitted_def waiting_def split: enc_pc.splits if_splits app_pc.splits)
  then show ?thesis
    using completed_reaches [OF reach] coherent_passed [OF ok] by (auto simp: completed_ok_def list_all_length)
qed

lemma coherent_completed_witness:
  "cpu_coherent (the (run sample_history init_queue)) = 1 \<and>
    map completed (gpu (the (run sample_history init_queue))) = [True, False] \<and>
    list_all completed (take 1 (gpu (the (run sample_history init_queue))))"
proof (intro conjI)
  show c: "cpu_coherent (the (run sample_history init_queue)) = 1" by code_simp
  show "map completed (gpu (the (run sample_history init_queue))) = [True, False]" by code_simp
  have "run sample_history init_queue = Some (the (run sample_history init_queue))"
    using sample_history_run by simp
  from coherent_completed [OF this] show "list_all completed (take 1 (gpu (the (run sample_history init_queue))))"
    by (simp only: c simp_thms)
qed

text \<open>
  C9. The queue cannot hang: from any state it reaches, the threads and the GPU can make only
  boundedly many steps by themselves, and when none is possible any more the application is
  free to record, every commit has been executed and recycled, and \<open>WaitCPUFence\<close>,
  \<open>PresentBoundary\<close> and the wait for a free chunk have returned.
\<close>

theorem queue_drains:
  assumes "run h init_queue = Some s" and "list_all is_background bs" and "run bs s = Some s'"
  shows "length bs \<le> work_left s \<and> (\<not> blocked s' \<or> settled s')"
proof -
  have reach: "reaches h s" "reaches (h @ bs) s'"
    using run_init [OF assms(1)] run_reaches assms(3) by blast+
  have "settled s'" if "blocked s'"
    using blocked_settled [OF counters_reaches contents_reaches latency_reaches that] reach(2) by blast
  then show ?thesis using background_run [OF reach(1) assms(3,2)] by auto
qed

definition sample_drain :: "nat action list" where
  "sample_drain = [App, App, Enc, Fin, Gpu 1, Fin, Fin, Fin, Fin]"

lemma queue_drains_witness:
  "settled (the (run sample_drain (the (run sample_history init_queue)))) \<and>
    length sample_drain \<le> work_left (the (run sample_history init_queue)) \<and>
    frame_latency_fence (the (run sample_drain (the (run sample_history init_queue)))) = 1"
proof (intro conjI)
  let ?s = "the (run sample_history init_queue)" and ?t = "the (run sample_drain (the (run sample_history init_queue)))"
  have r: "run sample_history init_queue = Some ?s" using sample_history_run by simp
  have "run sample_drain ?s \<noteq> None" by code_simp
  then have d: "run sample_drain ?s = Some ?t" by simp
  have "list_all is_background sample_drain" by (simp add: sample_drain_def)
  note q = queue_drains [OF r this d]
  have "blocked ?t" by code_simp
  then show "settled ?t" using q by simp
  show "length sample_drain \<le> work_left ?s" using q by simp
  show "frame_latency_fence ?t = 1" by code_simp
qed

end
