(* ===== verification/Bytes.thy ===== *)
theory Bytes
  imports Prelude "HOL-Library.Monad_Syntax"
begin

text \<open>
  Memory read as bytes: little-endian words, structures of 32-bit fields and arrays of such
  structures, the way the parsers of the program cast pointers into a blob.  A read outside
  the memory is \<open>None\<close>; the code has no defined result there.  The locale \<open>layout\<close> is the
  interface between a structure and its bytes.
\<close>

type_synonym bytes = "u8 list"

section \<open>Words\<close>

definition le32 :: "u32 \<Rightarrow> bytes" where
  "le32 w = [ucast w, ucast (drop_bit 8 w), ucast (drop_bit 16 w), ucast (drop_bit 24 w)]"

definition le16 :: "u16 \<Rightarrow> bytes" where
  "le16 w = [ucast w, ucast (drop_bit 8 w)]"

definition of_le32 :: "u8 \<Rightarrow> u8 \<Rightarrow> u8 \<Rightarrow> u8 \<Rightarrow> u32" where
  "of_le32 a b c d = ucast a OR push_bit 8 (ucast b) OR push_bit 16 (ucast c) OR push_bit 24 (ucast d)"

definition of_le16 :: "u8 \<Rightarrow> u8 \<Rightarrow> u16" where
  "of_le16 a b = ucast a OR push_bit 8 (ucast b)"

definition rd8 :: "bytes \<Rightarrow> nat \<Rightarrow> u8 option" where
  "rd8 m i = (if i < length m then Some (m ! i) else None)"

definition rd32 :: "bytes \<Rightarrow> nat \<Rightarrow> u32 option" where
  "rd32 m i = (if i + 4 \<le> length m then Some (of_le32 (m ! i) (m ! (i + 1)) (m ! (i + 2)) (m ! (i + 3))) else None)"

definition rd16 :: "bytes \<Rightarrow> nat \<Rightarrow> u16 option" where
  "rd16 m i = (if i + 2 \<le> length m then Some (of_le16 (m ! i) (m ! (i + 1))) else None)"

lemma length_le32 [simp]: "length (le32 w) = 4" by (simp add: le32_def)
lemma length_le16 [simp]: "length (le16 w) = 2" by (simp add: le16_def)

lemma of_le32_le32:
  "of_le32 (ucast w) (ucast (drop_bit 8 w)) (ucast (drop_bit 16 w)) (ucast (drop_bit 24 w)) = w"
  unfolding of_le32_def word_eq_bits
proof (intro allI impI)
  fix n assume n: "n < LENGTH(32)"
  consider "n < 8" | "8 \<le> n" "n < 16" | "16 \<le> n" "n < 24" | "24 \<le> n" by linarith
  then show "bit (ucast (ucast w :: u8) OR push_bit 8 (ucast (ucast (drop_bit 8 w) :: u8)) OR
      push_bit 16 (ucast (ucast (drop_bit 16 w) :: u8)) OR push_bit 24 (ucast (ucast (drop_bit 24 w) :: u8)) :: u32) n
    = bit w n"
    using n by cases (auto simp: bit_simps)
qed

lemma of_le16_le16: "of_le16 (ucast w) (ucast (drop_bit 8 w)) = w"
  unfolding of_le16_def word_eq_bits by (auto simp: bit_simps)

lemma le32_of_le32: "le32 (of_le32 a b c d) = [a, b, c, d]"
  unfolding le32_def of_le32_def by (simp add: word_eq_bits) (auto simp: bit_simps dest: bit_imp_le_length)

lemma rd32_append: "length pre = i \<Longrightarrow> rd32 (pre @ le32 w @ post) i = Some w"
  by (auto simp: rd32_def le32_def nth_append of_le32_le32 simp del: append_Cons)

lemma rd16_append: "length pre = i \<Longrightarrow> rd16 (pre @ le16 w @ post) i = Some w"
  by (auto simp: rd16_def le16_def nth_append of_le16_le16 simp del: append_Cons)

lemma rd32_shift: "length pre = k \<Longrightarrow> rd32 (pre @ m) (k + i) = rd32 m i"
  by (auto simp: rd32_def nth_append)

lemma rd16_shift: "length pre = k \<Longrightarrow> rd16 (pre @ m) (k + i) = rd16 m i"
  by (auto simp: rd16_def nth_append)

lemma rd32_prefix: "rd32 m i = Some w \<Longrightarrow> rd32 (m @ post) i = Some w"
  by (auto simp: rd32_def nth_append split: if_splits)

lemma rd32_None: "rd32 m i = None \<longleftrightarrow> length m < i + 4"
  by (auto simp: rd32_def)

section \<open>Runs of words\<close>

definition le32s :: "u32 list \<Rightarrow> bytes" where
  "le32s ws = concat (map le32 ws)"

fun rd32s :: "bytes \<Rightarrow> nat \<Rightarrow> nat \<Rightarrow> u32 list option" where
  "rd32s m i 0 = Some []"
| "rd32s m i (Suc n) = do { w \<leftarrow> rd32 m i; ws \<leftarrow> rd32s m (i + 4) n; Some (w # ws) }"

lemma length_le32s [simp]: "length (le32s ws) = 4 * length ws"
  by (induction ws) (simp_all add: le32s_def)

lemma le32s_simps [simp]:
  "le32s [] = []" "le32s (w # ws) = le32 w @ le32s ws" "le32s (vs @ ws) = le32s vs @ le32s ws"
  by (simp_all add: le32s_def)

lemma rd32s_append: "length pre = i \<Longrightarrow> rd32s (pre @ le32s ws @ post) i (length ws) = Some ws"
proof (induction ws arbitrary: pre i)
  case (Cons w ws)
  have "rd32s ((pre @ le32 w) @ le32s ws @ post) (i + 4) (length ws) = Some ws"
    using Cons.prems by (intro Cons.IH) simp
  then show ?case using rd32_append [OF Cons.prems, of w "le32s ws @ post"] by simp
qed simp

lemma rd32s_length: "rd32s m i n = Some ws \<Longrightarrow> length ws = n"
  by (induction n arbitrary: i ws) (auto split: bind_splits)

section \<open>Structures of 32-bit fields\<close>

text \<open>
  \<open>fields\<close> lists the fields of a structure in memory order, \<open>build\<close> makes the structure from
  them, \<open>words\<close> is \<open>sizeof\<close> in words.
\<close>

definition read_struct :: "(u32 list \<Rightarrow> 'a option) \<Rightarrow> nat \<Rightarrow> bytes \<Rightarrow> nat \<Rightarrow> 'a option" where
  "read_struct build words m i = rd32s m i words \<bind> build"

fun read_array :: "(u32 list \<Rightarrow> 'a option) \<Rightarrow> nat \<Rightarrow> bytes \<Rightarrow> nat \<Rightarrow> nat \<Rightarrow> 'a list option" where
  "read_array build words m i 0 = Some []"
| "read_array build words m i (Suc n) =
     do { x \<leftarrow> read_struct build words m i; xs \<leftarrow> read_array build words m (i + 4 * words) n; Some (x # xs) }"

definition write_array :: "('a \<Rightarrow> u32 list) \<Rightarrow> 'a list \<Rightarrow> bytes" where
  "write_array fields xs = le32s (concat (map fields xs))"

locale layout =
  fixes fields :: "'a \<Rightarrow> u32 list"
    and build :: "u32 list \<Rightarrow> 'a option"
    and words :: nat
  assumes fields_length: "length (fields x) = words"
    and build_fields: "build (fields x) = Some x"
begin

lemma read_struct_at:
  assumes "length pre = i"
  shows "read_struct build words (pre @ le32s (fields x) @ post) i = Some x"
  using rd32s_append [OF assms, of "fields x" post] by (simp add: read_struct_def fields_length build_fields)

lemma length_write_array: "length (write_array fields xs) = 4 * (words * length xs)"
  by (induction xs) (simp_all add: write_array_def fields_length algebra_simps)

lemma read_array_at:
  assumes "length pre = i"
  shows "read_array build words (pre @ write_array fields xs @ post) i (length xs) = Some xs"
  using assms
proof (induction xs arbitrary: pre i)
  case (Cons x xs)
  have "read_array build words ((pre @ le32s (fields x)) @ write_array fields xs @ post) (i + 4 * words) (length xs) = Some xs"
    using Cons.prems by (intro Cons.IH) (simp add: fields_length)
  then show ?case
    using read_struct_at [OF Cons.prems, of x "write_array fields xs @ post"] by (simp add: write_array_def)
qed simp

end

section \<open>Copies and results\<close>

text \<open>\<open>memcpy\<close> into the middle of a buffer.\<close>

definition copy_into :: "bytes \<Rightarrow> nat \<Rightarrow> bytes \<Rightarrow> bytes" where
  "copy_into dst at src = take at dst @ src @ drop (at + length src) dst"

lemma length_copy_into [simp]: "at + length src \<le> length dst \<Longrightarrow> length (copy_into dst at src) = length dst"
  by (simp add: copy_into_def)

text \<open>Sequencing of operations that fail with a code, on top of undefined behaviour.\<close>

definition and_then :: "('e + 'a) option \<Rightarrow> ('a \<Rightarrow> ('e + 'b) option) \<Rightarrow> ('e + 'b) option" where
  "and_then r f = (case r of None \<Rightarrow> None | Some (Inl e) \<Rightarrow> Some (Inl e) | Some (Inr x) \<Rightarrow> f x)"

lemma and_then_simps [simp]:
  "and_then None f = None" "and_then (Some (Inl e)) f = Some (Inl e)" "and_then (Some (Inr x)) f = f x"
  by (simp_all add: and_then_def)

lemma and_then_Inr: "and_then r f = Some (Inr y) \<longleftrightarrow> (\<exists>x. r = Some (Inr x) \<and> f x = Some (Inr y))"
  by (auto simp: and_then_def split: option.splits sum.splits)

end
