(* ===== verification/Container.thy ===== *)
theory Container
  imports Bytes
begin

text \<open>
  The DXBC container parser of \<open>libs/DXBCParser/BlobContainer.cpp\<close> and
  \<open>DXBCGetRootSignature\<close> of \<open>DXBCUtils.cpp\<close>, for 64-bit builds.  Pointers are offsets into
  one memory; \<open>NULL\<close> is \<open>None\<close>.  A read outside the memory makes the result \<open>None\<close>.
  Comparisons of a pointer with itself plus an unsigned offset are kept as they stand.
\<close>

section \<open>The code\<close>

definition DXBC_FOURCC :: "u32 \<Rightarrow> u32 \<Rightarrow> u32 \<Rightarrow> u32 \<Rightarrow> u32" where
  "DXBC_FOURCC a b c d = a OR push_bit 8 b OR push_bit 16 c OR push_bit 24 d"

definition DXBC_FOURCC_NAME :: u32 where "DXBC_FOURCC_NAME = DXBC_FOURCC 0x44 0x58 0x42 0x43"
definition DXBC_RootSignature :: u32 where "DXBC_RootSignature = DXBC_FOURCC 0x52 0x54 0x53 0x30"
definition DXBC_BLOB_NOT_FOUND :: u32 where "DXBC_BLOB_NOT_FOUND = 0xffffffff"

text \<open>\<open>DXBCHeader\<close>: tag, digest, version, container size and blob count at 0, 4, 20, 24, 28.\<close>

definition sizeof_DXBCHeader :: nat where "sizeof_DXBCHeader = 32"
definition sizeof_DXBCBlobHeader :: nat where "sizeof_DXBCBlobHeader = 8"

record dxbc_header =
  DXBCHeaderFourCC :: u32
  VersionMajor :: u16
  VersionMinor :: u16
  ContainerSizeInBytes :: u32
  BlobCount :: u32

definition rd_header :: "bytes \<Rightarrow> nat \<Rightarrow> dxbc_header option" where
  "rd_header m p = do {
     cc \<leftarrow> rd32 m p; major \<leftarrow> rd16 m (p + 20); minor \<leftarrow> rd16 m (p + 22);
     sz \<leftarrow> rd32 m (p + 24); n \<leftarrow> rd32 m (p + 28);
     Some \<lparr>DXBCHeaderFourCC = cc, VersionMajor = major, VersionMinor = minor,
       ContainerSizeInBytes = sz, BlobCount = n\<rparr> }"

record dxbc_parser =
  m_pHeader :: "nat option"
  m_pIndex :: "nat option"

definition CDXBCParser :: dxbc_parser where
  "CDXBCParser = \<lparr>m_pHeader = None, m_pIndex = None\<rparr>"

text \<open>
  The loop over the blobs of \<open>ReadDXBC\<close>.  \<open>prev\<close> is \<open>OffsetOfLastSegmentEnd\<close>; the sums with
  \<open>sizeof\<close> are 64-bit and are truncated when they are assigned to a \<open>UINT\<close>.
\<close>

function check_blobs :: "bytes \<Rightarrow> nat \<Rightarrow> u32 \<Rightarrow> nat \<Rightarrow> nat \<Rightarrow> u32 \<Rightarrow> hresult option" where
  "check_blobs m p csize count b prev =
     (if b \<ge> count then Some S_OK
      else do {
        idx \<leftarrow> rd32 m (p + sizeof_DXBCHeader + 4 * b);
        let pBlobHeader = p + unat idx;
        let pAfterBlobHeader = pBlobHeader + sizeof_DXBCBlobHeader;
        if pAfterBlobHeader < pBlobHeader \<or> pAfterBlobHeader > p + unat csize then Some E_FAIL
        else if pBlobHeader < p \<or> (ucast idx + 8 :: u64) < ucast idx then Some E_FAIL
        else do {
          bsz \<leftarrow> rd32 m (pBlobHeader + 4);
          if (ucast idx + 8 + ucast bsz :: u64) < ucast idx then Some E_FAIL
          else let cur = ucast (ucast idx + 8 + ucast bsz - 1 :: u64) :: u32
               in if cur > csize then Some E_FAIL
                  else if prev \<noteq> idx - 1 then Some E_FAIL
                  else check_blobs m p csize count (b + 1) cur } })"
  by pat_completeness auto
termination by (relation "measure (\<lambda>(_, _, _, count, b, _). count - b)") auto

declare check_blobs.simps [simp del]

definition ReadDXBC :: "bytes \<Rightarrow> nat option \<Rightarrow> u32 \<Rightarrow> dxbc_parser \<Rightarrow> (hresult \<times> dxbc_parser) option" where
  "ReadDXBC m pContainer csize self =
     (case pContainer of
        None \<Rightarrow> Some (E_FAIL, self)
      | Some p \<Rightarrow>
        if unat csize < sizeof_DXBCHeader then Some (E_FAIL, self)
        else do {
          h \<leftarrow> rd_header m p;
          if ContainerSizeInBytes h \<noteq> csize then Some (E_FAIL, self)
          else if DXBCHeaderFourCC h \<noteq> DXBC_FOURCC_NAME \<or> VersionMajor h \<noteq> 1 \<or> VersionMinor h \<noteq> 0
          then Some (E_FAIL, self)
          else if p + unat csize < p then Some (E_FAIL, self)
          else if p + 4 * unat (BlobCount h) < p then Some (E_FAIL, self)
          else let cur = ucast (32 + 4 * ucast (BlobCount h) - 1 :: u64) :: u32
               in if cur > csize then Some (E_FAIL, self)
                  else do {
                    hr \<leftarrow> check_blobs m p csize (unat (BlobCount h)) 0 cur;
                    if FAILED hr then Some (hr, self)
                    else Some (S_OK, self\<lparr>m_pHeader := Some p, m_pIndex := Some (p + sizeof_DXBCHeader)\<rparr>) } })"

definition DXBCGetSizeAssumingValidPointer :: "bytes \<Rightarrow> nat option \<Rightarrow> u32 option" where
  "DXBCGetSizeAssumingValidPointer m pDXBC = (case pDXBC of None \<Rightarrow> Some 0 | Some p \<Rightarrow> rd32 m (p + 24))"

definition ReadDXBCAssumingValidSize :: "bytes \<Rightarrow> nat option \<Rightarrow> dxbc_parser \<Rightarrow> (hresult \<times> dxbc_parser) option" where
  "ReadDXBCAssumingValidSize m pContainer self =
     (case pContainer of
        None \<Rightarrow> Some (E_FAIL, self)
      | Some p \<Rightarrow> do { csize \<leftarrow> DXBCGetSizeAssumingValidPointer m pContainer; ReadDXBC m pContainer csize self })"

definition GetBlobCount :: "bytes \<Rightarrow> dxbc_parser \<Rightarrow> u32 option" where
  "GetBlobCount m self =
     (case m_pHeader self of None \<Rightarrow> Some 0 | Some p \<Rightarrow> map_option BlobCount (rd_header m p))"

function find_blob :: "bytes \<Rightarrow> nat \<Rightarrow> nat \<Rightarrow> u32 \<Rightarrow> nat \<Rightarrow> nat \<Rightarrow> u32 option" where
  "find_blob m p q cc count b =
     (if b \<ge> count then Some DXBC_BLOB_NOT_FOUND
      else do {
        idx \<leftarrow> rd32 m (q + 4 * b);
        fcc \<leftarrow> rd32 m (p + unat idx);
        if fcc = cc then Some (of_nat b) else find_blob m p q cc count (b + 1) })"
  by pat_completeness auto
termination by (relation "measure (\<lambda>(_, _, _, _, count, b). count - b)") auto

declare find_blob.simps [simp del]

definition FindNextMatchingBlob :: "bytes \<Rightarrow> dxbc_parser \<Rightarrow> u32 \<Rightarrow> u32 \<Rightarrow> u32 option" where
  "FindNextMatchingBlob m self cc start =
     (case (m_pHeader self, m_pIndex self) of
        (Some p, Some q) \<Rightarrow> do {
          h \<leftarrow> rd_header m p;
          find_blob m p q cc (unat (BlobCount h)) (unat start) }
      | _ \<Rightarrow> Some DXBC_BLOB_NOT_FOUND)"

text \<open>The guard that \<open>GetBlob\<close>, \<open>GetBlobSize\<close> and \<open>GetBlobFourCC\<close> share.\<close>

definition blob_at :: "bytes \<Rightarrow> dxbc_parser \<Rightarrow> u32 \<Rightarrow> nat option option" where
  "blob_at m self i =
     (case (m_pHeader self, m_pIndex self) of
        (Some p, Some q) \<Rightarrow> do {
          h \<leftarrow> rd_header m p;
          if BlobCount h \<le> i then Some None
          else do { idx \<leftarrow> rd32 m (q + 4 * unat i); Some (Some (p + unat idx)) } }
      | _ \<Rightarrow> Some None)"

definition GetBlob :: "bytes \<Rightarrow> dxbc_parser \<Rightarrow> u32 \<Rightarrow> nat option option" where
  "GetBlob m self i =
     blob_at m self i \<bind> (\<lambda>r. Some (map_option (\<lambda>p. p + sizeof_DXBCBlobHeader) r))"

definition GetBlobSize :: "bytes \<Rightarrow> dxbc_parser \<Rightarrow> u32 \<Rightarrow> u32 option" where
  "GetBlobSize m self i =
     blob_at m self i \<bind> (\<lambda>r. case r of None \<Rightarrow> Some 0 | Some p \<Rightarrow> rd32 m (p + 4))"

definition GetBlobFourCC :: "bytes \<Rightarrow> dxbc_parser \<Rightarrow> u32 \<Rightarrow> u32 option" where
  "GetBlobFourCC m self i =
     blob_at m self i \<bind> (\<lambda>r. case r of None \<Rightarrow> Some 0 | Some p \<Rightarrow> rd32 m p)"

definition RelocateBytecode :: "nat \<Rightarrow> dxbc_parser \<Rightarrow> hresult \<times> dxbc_parser" where
  "RelocateBytecode ByteOffset self =
     (case (m_pHeader self, m_pIndex self) of
        (Some p, Some q) \<Rightarrow> (S_OK, self\<lparr>m_pHeader := Some (p + ByteOffset), m_pIndex := Some (q + ByteOffset)\<rparr>)
      | _ \<Rightarrow> (E_FAIL, self))"

text \<open>
  \<open>DXBCGetRootSignature\<close>: on success the pointer to the blob's data and its size.  The
  assertion after the search is not part of the model.
\<close>

definition DXBCGetRootSignature :: "bytes \<Rightarrow> nat option \<Rightarrow> (hresult + nat \<times> u32) option" where
  "DXBCGetRootSignature m pBlobContainer = do {
     (hr, parser) \<leftarrow> ReadDXBCAssumingValidSize m pBlobContainer CDXBCParser;
     if FAILED hr then Some (Inl hr)
     else do {
       BlobIndex \<leftarrow> FindNextMatchingBlob m parser DXBC_RootSignature 0;
       if BlobIndex \<noteq> DXBC_BLOB_NOT_FOUND then do {
         pBlob \<leftarrow> GetBlob m parser BlobIndex;
         csize \<leftarrow> GetBlobSize m parser BlobIndex;
         if csize = 0 then Some (Inl E_FAIL)
         else (case pBlob of None \<Rightarrow> None | Some q \<Rightarrow> Some (Inr (q, csize))) }
       else Some (Inl E_FAIL) } }"

section \<open>Layout of an accepted container\<close>

text \<open>Start of blob \<open>i\<close>, relative to the container, and the length its header gives.\<close>

definition blob_start :: "bytes \<Rightarrow> nat \<Rightarrow> nat \<Rightarrow> nat" where
  "blob_start m p i = (case rd32 m (p + sizeof_DXBCHeader + 4 * i) of None \<Rightarrow> 0 | Some idx \<Rightarrow> unat idx)"

definition blob_len :: "bytes \<Rightarrow> nat \<Rightarrow> nat \<Rightarrow> nat" where
  "blob_len m p i = (case rd32 m (p + blob_start m p i + 4) of None \<Rightarrow> 0 | Some n \<Rightarrow> unat n)"

lemma unat_lt_32: "unat (w :: u32) < 2 ^ 32"
  using unsigned_less [of w] by simp

lemma of_nat_u32_inj:
  "of_nat a = (of_nat b :: u32) \<Longrightarrow> a < 2 ^ 32 \<Longrightarrow> b < 2 ^ 32 \<Longrightarrow> a = b"
  by (simp add: word_of_nat_eq_iff take_bit_nat_eq_self)

lemma check_blobs_step:
  assumes "check_blobs m p csize count b prev = Some S_OK" "b < count"
  obtains idx bsz cur where
    "rd32 m (p + sizeof_DXBCHeader + 4 * b) = Some idx" "rd32 m (p + unat idx + 4) = Some bsz"
    "unat idx + 8 \<le> unat csize" "prev = idx - 1"
    "cur = ucast (ucast idx + 8 + ucast bsz - 1 :: u64)" "cur \<le> csize"
    "check_blobs m p csize count (b + 1) cur = Some S_OK"
  using assms
  by (subst (asm) check_blobs.simps)
    (auto simp: Let_def sizeof_DXBCBlobHeader_def not_less not_le split: bind_splits if_splits)

lemma segment_end:
  assumes "unat (idx :: u32) + 8 < 2 ^ 31" "unat (bsz :: u32) < 2 ^ 31"
  shows "unat (ucast (ucast idx + 8 + ucast bsz - 1 :: u64) :: u32) = unat idx + 7 + unat bsz"
proof -
  have "(ucast idx + 8 + ucast bsz - 1 :: u64) = of_nat (unat idx + 7 + unat bsz)"
    by (simp add: of_nat_unat)
  then have "unat (ucast (ucast idx + 8 + ucast bsz - 1 :: u64) :: u32)
      = (unat idx + 7 + unat bsz) mod 2 ^ 64 mod 2 ^ 32"
    by (simp only: unat_of_nat unsigned_ucast_eq) (simp add: take_bit_eq_mod)
  then show ?thesis using assms by simp
qed

lemma check_blobs_layout:
  assumes "check_blobs m p csize count b prev = Some S_OK" and "unat csize < 2 ^ 31"
    and "\<forall>i. b \<le> i \<and> i < count \<longrightarrow> blob_len m p i < 2 ^ 31"
  shows "(b < count \<longrightarrow> of_nat (blob_start m p b) = prev + 1) \<and>
    (\<forall>i. b \<le> i \<and> i < count \<longrightarrow> blob_start m p i + 8 + blob_len m p i \<le> unat csize + 1) \<and>
    (\<forall>i. b \<le> i \<and> Suc i < count \<longrightarrow> blob_start m p (Suc i) = blob_start m p i + 8 + blob_len m p i)"
  using assms
proof (induction "count - b" arbitrary: b prev)
  case (Suc k)
  then have b: "b < count" by simp
  obtain idx bsz cur where s:
    "rd32 m (p + sizeof_DXBCHeader + 4 * b) = Some idx" "rd32 m (p + unat idx + 4) = Some bsz"
    "unat idx + 8 \<le> unat csize" "prev = idx - 1"
    "cur = ucast (ucast idx + 8 + ucast bsz - 1 :: u64)" "cur \<le> csize"
    "check_blobs m p csize count (b + 1) cur = Some S_OK"
    by (rule check_blobs_step [OF Suc.prems(1) b])
  have st: "blob_start m p b = unat idx" "blob_len m p b = unat bsz"
    using s by (simp_all add: blob_start_def blob_len_def)
  have small: "unat idx + 8 < 2 ^ 31" "unat bsz < 2 ^ 31"
    using s(3) Suc.prems(2,3) b st by auto
  have cur: "unat cur = unat idx + 7 + unat bsz" unfolding s(5) by (rule segment_end [OF small])
  have ih: "(b + 1 < count \<longrightarrow> of_nat (blob_start m p (b + 1)) = cur + 1) \<and>
    (\<forall>i. b + 1 \<le> i \<and> i < count \<longrightarrow> blob_start m p i + 8 + blob_len m p i \<le> unat csize + 1) \<and>
    (\<forall>i. b + 1 \<le> i \<and> Suc i < count \<longrightarrow> blob_start m p (Suc i) = blob_start m p i + 8 + blob_len m p i)"
    using Suc.hyps(2) Suc.prems(2,3) s(7) by (intro Suc.hyps(1)) auto
  have e: "blob_start m p b + 8 + blob_len m p b \<le> unat csize + 1"
    using s(6) cur st by (simp add: word_le_nat_alt)
  have nxt: "blob_start m p (Suc b) = blob_start m p b + 8 + blob_len m p b" if "Suc b < count"
  proof -
    have "blob_start m p (Suc b) < 2 ^ 32"
      using unat_lt_32 by (auto simp: blob_start_def split: option.splits)
    moreover have "of_nat (blob_start m p (Suc b)) = (of_nat (unat cur + 1) :: u32)"
      using ih that by simp
    moreover have "unat cur + 1 < 2 ^ 32" using cur small by simp
    ultimately have "blob_start m p (Suc b) = unat cur + 1" using of_nat_u32_inj by blast
    then show ?thesis using cur st by simp
  qed
  show ?case
  proof (intro conjI allI impI)
    show "b < count \<Longrightarrow> of_nat (blob_start m p b) = prev + 1" using st s(4) by simp
  next
    fix i assume "b \<le> i \<and> i < count"
    then show "blob_start m p i + 8 + blob_len m p i \<le> unat csize + 1"
      using e ih by (cases "i = b") auto
  next
    fix i assume "b \<le> i \<and> Suc i < count"
    then show "blob_start m p (Suc i) = blob_start m p i + 8 + blob_len m p i"
      using nxt ih by (cases "i = b") auto
  qed
qed auto

lemma check_blobs_result: "check_blobs m p csize count b prev = Some hr \<Longrightarrow> hr = S_OK \<or> hr = E_FAIL"
proof (induction m p csize count b prev rule: check_blobs.induct)
  case (1 m p csize count b prev)
  then show ?case
    by (subst (asm) (2) check_blobs.simps) (auto simp: Let_def split: bind_splits if_splits)
qed

lemma check_blobs_S_OK: "check_blobs m p csize count b prev = Some hr \<Longrightarrow> \<not> FAILED hr \<Longrightarrow> hr = S_OK"
  using check_blobs_result by fastforce

text \<open>What acceptance by \<open>ReadDXBC\<close> means.\<close>

lemma ReadDXBC_accepts:
  assumes "ReadDXBC m (Some p) csize self = Some (S_OK, self')"
  obtains h cur where "rd_header m p = Some h" "ContainerSizeInBytes h = csize" "32 \<le> unat csize"
    "cur = ucast (32 + 4 * ucast (BlobCount h) - 1 :: u64)" "cur \<le> csize"
    "check_blobs m p csize (unat (BlobCount h)) 0 cur = Some S_OK"
    "self' = self\<lparr>m_pHeader := Some p, m_pIndex := Some (p + sizeof_DXBCHeader)\<rparr>"
  using assms
  by (auto simp: ReadDXBC_def Let_def sizeof_DXBCHeader_def not_less split: bind_splits if_splits
      dest: check_blobs_S_OK)

text \<open>The search: the first blob from \<open>b\<close> on with the tag, provided the indices fit in \<open>UINT\<close>.\<close>

definition blob_tag :: "bytes \<Rightarrow> nat \<Rightarrow> nat \<Rightarrow> nat \<Rightarrow> u32 option" where
  "blob_tag m p q i = rd32 m (q + 4 * i) \<bind> (\<lambda>idx. rd32 m (p + unat idx))"

lemma find_blob_tag:
  "find_blob m p q cc count b =
     (if b \<ge> count then Some DXBC_BLOB_NOT_FOUND
      else blob_tag m p q b \<bind> (\<lambda>fcc. if fcc = cc then Some (of_nat b) else find_blob m p q cc count (b + 1)))"
  by (subst find_blob.simps) (simp add: blob_tag_def)

lemma find_blob_first:
  assumes "find_blob m p q cc count b = Some r" and "count < 2 ^ 32"
  shows "(r = DXBC_BLOB_NOT_FOUND \<and> (\<forall>i \<in> {b..<count}. blob_tag m p q i \<notin> {None, Some cc})) \<or>
    (unat r \<in> {b..<count} \<and> blob_tag m p q (unat r) = Some cc \<and>
     (\<forall>i \<in> {b..<unat r}. blob_tag m p q i \<notin> {None, Some cc}))"
  using assms
proof (induction "count - b" arbitrary: b)
  case 0
  then show ?case by (subst (asm) find_blob_tag) simp
next
  case (Suc k)
  then have b: "b < count" by simp
  then obtain fcc where t: "blob_tag m p q b = Some fcc"
      "(if fcc = cc then Some (of_nat b) else find_blob m p q cc count (b + 1)) = Some r"
    using Suc.prems(1) by (subst (asm) find_blob_tag) (auto split: bind_splits)
  show ?case
  proof (cases "fcc = cc")
    case True
    then have "r = of_nat b" using t(2) by simp
    then have "unat r = b" using b Suc.prems(2) by (simp add: unat_of_nat)
    then show ?thesis using b t(1) True by auto
  next
    case False
    then have f: "find_blob m p q cc count (b + 1) = Some r" using t(2) by simp
    have here: "blob_tag m p q b \<notin> {None, Some cc}" using t(1) False by simp
    have ext: "\<forall>i \<in> {b..<n}. blob_tag m p q i \<notin> {None, Some cc}"
      if "\<forall>i \<in> {b + 1..<n}. blob_tag m p q i \<notin> {None, Some cc}" for n
    proof
      fix i assume "i \<in> {b..<n}"
      then have "i = b \<or> i \<in> {b + 1..<n}" by auto
      then show "blob_tag m p q i \<notin> {None, Some cc}" using here that by blast
    qed
    have "k = count - (b + 1)" using Suc.hyps(2) by simp
    from Suc.hyps(1) [OF this f Suc.prems(2)] show ?thesis
    proof
      assume "r = DXBC_BLOB_NOT_FOUND \<and> (\<forall>i \<in> {b + 1..<count}. blob_tag m p q i \<notin> {None, Some cc})"
      then show ?thesis using ext by blast
    next
      assume "unat r \<in> {b + 1..<count} \<and> blob_tag m p q (unat r) = Some cc \<and>
        (\<forall>i \<in> {b + 1..<unat r}. blob_tag m p q i \<notin> {None, Some cc})"
      moreover from this have "unat r \<in> {b..<count}" by simp
      ultimately show ?thesis using ext by blast
    qed
  qed
qed

section \<open>Properties\<close>

text \<open>
  C31. \<open>DXBCGetRootSignature\<close> returns the data of the first root signature blob of the
  container.  When the container and blob sizes are below \<open>2^31\<close> the data ends at most one byte
  past the declared end of the container.
\<close>

theorem root_blob_located:
  assumes get: "DXBCGetRootSignature m (Some p) = Some (Inr (q, n))"
    and h: "rd_header m p = Some h"
    and small: "unat (ContainerSizeInBytes h) < 2 ^ 31" "\<forall>i < unat (BlobCount h). blob_len m p i < 2 ^ 31"
  shows "\<exists>i < unat (BlobCount h). q = p + blob_start m p i + 8 \<and> unat n = blob_len m p i \<and>
    blob_tag m p (p + 32) i = Some DXBC_RootSignature \<and>
    (\<forall>j < i. blob_tag m p (p + 32) j \<noteq> Some DXBC_RootSignature) \<and>
    q + unat n \<le> p + unat (ContainerSizeInBytes h) + 1"
proof -
  obtain hr parser where rd: "ReadDXBCAssumingValidSize m (Some p) CDXBCParser = Some (hr, parser)" "\<not> FAILED hr"
    using get by (auto simp: DXBCGetRootSignature_def split: bind_splits if_splits)
  obtain csize where cs: "ReadDXBC m (Some p) csize CDXBCParser = Some (hr, parser)"
    using rd by (auto simp: ReadDXBCAssumingValidSize_def split: bind_splits)
  have "hr = S_OK" using cs rd(2)
    by (auto simp: ReadDXBC_def Let_def split: bind_splits if_splits)
  obtain h' cur where acc: "rd_header m p = Some h'" "ContainerSizeInBytes h' = csize"
      "check_blobs m p csize (unat (BlobCount h')) 0 cur = Some S_OK"
      "parser = CDXBCParser\<lparr>m_pHeader := Some p, m_pIndex := Some (p + sizeof_DXBCHeader)\<rparr>"
    by (rule ReadDXBC_accepts [OF cs [unfolded \<open>hr = S_OK\<close>]])
  have k: "ContainerSizeInBytes h = csize" "check_blobs m p csize (unat (BlobCount h)) 0 cur = Some S_OK"
      "parser = CDXBCParser\<lparr>m_pHeader := Some p, m_pIndex := Some (p + 32)\<rparr>"
    using acc h by (simp_all add: sizeof_DXBCHeader_def)
  have at: "blob_at m parser i = (if BlobCount h \<le> i then Some None
      else rd32 m (p + 32 + 4 * unat i) \<bind> (\<lambda>idx. Some (Some (p + unat idx))))" for i
    by (simp add: blob_at_def k(3) h)
  obtain r where f: "find_blob m p (p + 32) DXBC_RootSignature (unat (BlobCount h)) 0 = Some r" "r \<noteq> DXBC_BLOB_NOT_FOUND"
      and g: "GetBlob m parser r = Some (Some q)" "GetBlobSize m parser r = Some n"
    using get rd by (auto simp: DXBCGetRootSignature_def FindNextMatchingBlob_def k(3) h split: bind_splits if_splits option.splits)
  have first: "unat r < unat (BlobCount h)" "blob_tag m p (p + 32) (unat r) = Some DXBC_RootSignature"
      "\<forall>j < unat r. blob_tag m p (p + 32) j \<noteq> Some DXBC_RootSignature"
    using find_blob_first [OF f(1) unat_lt_32] f(2) by auto
  obtain idx where idx: "rd32 m (p + 32 + 4 * unat r) = Some idx" "q = p + unat idx + 8" "rd32 m (p + unat idx + 4) = Some n"
    using g by (auto simp: GetBlob_def GetBlobSize_def at sizeof_DXBCBlobHeader_def split: bind_splits if_splits)
  have pos: "blob_start m p (unat r) = unat idx" "blob_len m p (unat r) = unat n"
    using idx by (simp_all add: blob_start_def blob_len_def sizeof_DXBCHeader_def)
  have "blob_start m p (unat r) + 8 + blob_len m p (unat r) \<le> unat csize + 1"
    using check_blobs_layout [OF k(2)] small k(1) first(1) by auto
  then show ?thesis using first idx pos k(1) by (intro exI [of _ "unat r"]) auto
qed

text \<open>Containers that differ from a well-formed one in the blob length or the blob count.\<close>

definition sample_container :: "u32 \<Rightarrow> u32 \<Rightarrow> bytes" where
  "sample_container csize blob_size =
     le32s [DXBC_FOURCC_NAME, 0, 0, 0, 0, 1, csize, 1, 36, DXBC_RootSignature, blob_size, 7]"

lemma root_blob_located_witness:
  "\<exists>i < 1. 44 = blob_start (sample_container 48 4) 0 i + 8 \<and> 4 = blob_len (sample_container 48 4) 0 i \<and>
    blob_tag (sample_container 48 4) 0 32 i = Some DXBC_RootSignature"
proof -
  have g: "DXBCGetRootSignature (sample_container 48 4) (Some 0) = Some (Inr (44, 4))" by code_simp
  have h: "rd_header (sample_container 48 4) 0 = Some \<lparr>DXBCHeaderFourCC = DXBC_FOURCC_NAME,
      VersionMajor = 1, VersionMinor = 0, ContainerSizeInBytes = 48, BlobCount = 1\<rparr>" by code_simp
  have l: "blob_len (sample_container 48 4) 0 0 = 4" by code_simp
  show ?thesis using root_blob_located [OF g h] l by auto
qed

text \<open>
  The bounds check of \<open>ReadDXBC\<close> compares the offset of the last byte with the size, so a
  blob may end one byte past the container; and on 64-bit builds the end is computed in 64 bits and
  truncated, so a blob length close to \<open>2^32\<close> is accepted as well.
\<close>

theorem container_bounds_missed:
  "length (sample_container 48 n) = 48 \<and>
   DXBCGetRootSignature (sample_container 48 5) (Some 0) = Some (Inr (44, 5)) \<and>
   DXBCGetRootSignature (sample_container 48 0xffffffe0) (Some 0) = Some (Inr (44, 0xffffffe0)) \<and>
   DXBCGetRootSignature (sample_container 48 6) (Some 0) = Some (Inl E_FAIL)"
proof (intro conjI)
  show "length (sample_container 48 n) = 48" by (simp add: sample_container_def)
qed code_simp+

end
