(* ===== verification/Md5.thy ===== *)
theory Md5
  imports BitUtil Bytes
begin

text \<open>
  \<open>src/util/util_md5.cpp\<close>: the incremental MD5 hasher and the variant of it that signs DXBC
  containers.  The theory proves that feeding a message in pieces is the same as hashing it
  at once, that \<open>compute\<close> is MD5 of RFC 1321 over the padded message, and which padded
  message the DXBC variant hashes.
\<close>

section \<open>The code\<close>

type_synonym md5_state = "u32 \<times> u32 \<times> u32 \<times> u32"

record hasher =
  m_block :: bytes
  m_size :: u64
  m_state :: md5_state

definition BlockSize :: nat where "BlockSize = 64"

definition Hasher :: hasher where
  "Hasher = \<lparr>m_block = replicate 64 0, m_size = 0,
     m_state = (0x67452301, 0xefcdab89, 0x98badcfe, 0x10325476)\<rparr>"

definition s_shifts :: "nat list" where
  "s_shifts =
    [7, 12, 17, 22, 7, 12, 17, 22, 7, 12, 17, 22, 7,
     12, 17, 22, 5, 9, 14, 20, 5, 9, 14, 20, 5, 9,
     14, 20, 5, 9, 14, 20, 4, 11, 16, 23, 4, 11, 16,
     23, 4, 11, 16, 23, 4, 11, 16, 23, 6, 10, 15, 21,
     6, 10, 15, 21, 6, 10, 15, 21, 6, 10, 15, 21]"

definition s_constants :: "u32 list" where
  "s_constants =
    [0xd76aa478, 0xe8c7b756, 0x242070db, 0xc1bdceee, 0xf57c0faf,
     0x4787c62a, 0xa8304613, 0xfd469501, 0x698098d8, 0x8b44f7af,
     0xffff5bb1, 0x895cd7be, 0x6b901122, 0xfd987193, 0xa679438e,
     0x49b40821, 0xf61e2562, 0xc040b340, 0x265e5a51, 0xe9b6c7aa,
     0xd62f105d, 0x02441453, 0xd8a1e681, 0xe7d3fbc8, 0x21e1cde6,
     0xc33707d6, 0xf4d50d87, 0x455a14ed, 0xa9e3e905, 0xfcefa3f8,
     0x676f02d9, 0x8d2a4c8a, 0xfffa3942, 0x8771f681, 0x6d9d6122,
     0xfde5380c, 0xa4beea44, 0x4bdecfa9, 0xf6bb4b60, 0xbebfbc70,
     0x289b7ec6, 0xeaa127fa, 0xd4ef3085, 0x04881d05, 0xd9d4d039,
     0xe6db99e5, 0x1fa27cf8, 0xc4ac5665, 0xf4292244, 0x432aff97,
     0xab9423a7, 0xfc93a039, 0x655b59c3, 0x8f0ccc92, 0xffeff47d,
     0x85845dd1, 0x6fa87e4f, 0xfe2ce6e0, 0xa3014314, 0x4e0811a1,
     0xf7537e82, 0xbd3af235, 0x2ad7d2bb, 0xeb86d391]"

definition readDword :: "bytes \<Rightarrow> nat \<Rightarrow> u32" where
  "readDword src o' = of_le32 (src ! o') (src ! (o' + 1)) (src ! (o' + 2)) (src ! (o' + 3))"

definition finalizeIteration :: "bytes \<Rightarrow> nat \<Rightarrow> u32 \<Rightarrow> nat \<Rightarrow> md5_state \<Rightarrow> md5_state" where
  "finalizeIteration data i f g st =
     (case st of (s0, s1, s2, s3) \<Rightarrow>
        let f = f + s0 + s_constants ! i + readDword data (4 * g)
        in (s3, s1 + (push_bit (s_shifts ! i) f + drop_bit (32 - s_shifts ! i) f), s1, s2))"

text \<open>The body of the loop with index \<open>i\<close>; there is one loop per range of 16.\<close>

definition iteration :: "bytes \<Rightarrow> nat \<Rightarrow> md5_state \<Rightarrow> md5_state" where
  "iteration data i st =
     (case st of (s0, s1, s2, s3) \<Rightarrow>
        if i < 16 then finalizeIteration data i ((s1 AND s2) OR (NOT s1 AND s3)) i st
        else if i < 32 then finalizeIteration data i ((s3 AND s1) OR (NOT s3 AND s2)) ((5 * i + 1) mod 16) st
        else if i < 48 then finalizeIteration data i (s1 XOR s2 XOR s3) ((3 * i + 5) mod 16) st
        else finalizeIteration data i (s2 XOR (s1 OR NOT s3)) ((7 * i) mod 16) st)"

definition add_state :: "md5_state \<Rightarrow> md5_state \<Rightarrow> md5_state" where
  "add_state st st' = (case (st, st') of ((a, b, c, d), (a', b', c', d')) \<Rightarrow> (a + a', b + b', c + c', d + d'))"

definition processBlock :: "bytes \<Rightarrow> md5_state \<Rightarrow> md5_state" where
  "processBlock data st = add_state st (fold (iteration data) [0..<64] st)"

function full_blocks :: "md5_state \<Rightarrow> bytes \<Rightarrow> md5_state \<times> bytes" where
  "full_blocks st src =
     (if length src \<ge> BlockSize then full_blocks (processBlock (take BlockSize src) st) (drop BlockSize src)
      else (st, src))"
  by pat_completeness auto
termination by (relation "measure (length \<circ> snd)") (auto simp: BlockSize_def)

declare full_blocks.simps [simp del]

definition update :: "hasher \<Rightarrow> bytes \<Rightarrow> hasher" where
  "update h data =
     (let blockOffset = unat (m_size h) mod BlockSize;
          h = h\<lparr>m_size := m_size h + of_nat (length data)\<rparr>;
          n = min (length data) (BlockSize - blockOffset);
          (h, src) =
            (if blockOffset \<noteq> 0 then
               let h = h\<lparr>m_block := copy_into (m_block h) blockOffset (take n data)\<rparr>
               in (if blockOffset + n \<ge> BlockSize
                   then h\<lparr>m_state := processBlock (m_block h) (m_state h)\<rparr> else h, drop n data)
             else (h, data));
          (st, rest) = full_blocks (m_state h) src;
          h = h\<lparr>m_state := st\<rparr>
      in if rest \<noteq> [] then h\<lparr>m_block := copy_into (m_block h) 0 rest\<rparr> else h)"

definition getDigest :: "hasher \<Rightarrow> bytes" where
  "getDigest h =
     (case m_state h of (a, b, c, d) \<Rightarrow>
        concat (map (\<lambda>dw. map (\<lambda>j. ucast (bextract dw (8 * j) 8)) [0, 1, 2, 3]) [a, b, c, d]))"

definition s_padding :: bytes where "s_padding = 0x80 # replicate 63 0"

definition padBlock :: "hasher \<Rightarrow> hasher" where
  "padBlock h =
     (let bitCount = 8 * m_size h;
          currentLength = unat (m_size h) mod BlockSize;
          desiredLength = (if currentLength \<ge> 56 then 120 else 56);
          h = update h (take (desiredLength - currentLength) s_padding);
          finalPadding = map (\<lambda>i. ucast (bextract bitCount (8 * i) 8)) [0, 1, 2, 3, 4, 5, 6, 7]
      in update h finalPadding)"

definition finalize :: "hasher \<Rightarrow> bytes \<times> hasher" where
  "finalize h = (getDigest (padBlock h), Hasher)"

definition compute :: "bytes \<Rightarrow> bytes" where
  "compute data = fst (finalize (update Hasher data))"

definition hashDxbcBinary :: "bytes \<Rightarrow> bytes" where
  "hashDxbcBinary data =
     (let bytes = drop 20 data;
          size = length bytes;
          aNum = of_nat size * 8 :: u32;
          bNum = drop_bit 2 aNum OR 1;
          remainder = size mod BlockSize;
          paddingSize = BlockSize - remainder;
          hasher = update Hasher (take (size - remainder) bytes)
      in getDigest
        (if remainder \<ge> 56 then
           let hasher = update hasher (drop (size - remainder) bytes);
               hasher = update hasher (take paddingSize s_padding);
               hasher = update hasher (le32 aNum);
               hasher = update hasher (take (64 - 4 - 4) (drop 4 s_padding))
           in update hasher (le32 bNum)
         else
           let hasher = update hasher (le32 aNum);
               hasher = (if remainder \<noteq> 0 then update hasher (drop (size - remainder) bytes) else hasher);
               hasher = update hasher (take (paddingSize - 4 - 4) s_padding)
           in update hasher (le32 bNum)))"

section \<open>The hasher represents the message it was given\<close>

lemma full_blocks_short: "length src < BlockSize \<Longrightarrow> full_blocks st src = (st, src)"
  by (subst full_blocks.simps) simp

lemma full_blocks_long:
  "length a = BlockSize \<Longrightarrow> full_blocks st (a @ b) = full_blocks (processBlock a st) b"
  by (subst full_blocks.simps) simp

lemma full_blocks_append:
  "full_blocks st (a @ b) = full_blocks (fst (full_blocks st a)) (snd (full_blocks st a) @ b)"
proof (induction st a rule: full_blocks.induct)
  case (1 st a)
  show ?case
  proof (cases "length a \<ge> BlockSize")
    case True
    then have a: "a = take BlockSize a @ drop BlockSize a" "length (take BlockSize a) = BlockSize" by simp_all
    have "full_blocks st a = full_blocks (processBlock (take BlockSize a) st) (drop BlockSize a)"
      by (subst a(1)) (rule full_blocks_long [OF a(2)])
    moreover have "full_blocks st (a @ b) = full_blocks (processBlock (take BlockSize a) st) (drop BlockSize a @ b)"
      using full_blocks_long [OF a(2), of st "drop BlockSize a @ b"] a(1) by (metis append_assoc)
    ultimately show ?thesis using 1 [OF True] by simp
  qed (simp add: full_blocks_short)
qed

lemma full_blocks_rest: "length (snd (full_blocks st a)) = length a mod BlockSize"
proof (induction st a rule: full_blocks.induct)
  case (1 st a)
  show ?case
  proof (cases "length a \<ge> BlockSize")
    case True
    then show ?thesis using 1 [OF True] by (subst full_blocks.simps) (simp add: le_mod_geq)
  qed (simp add: full_blocks_short)
qed

definition represents :: "hasher \<Rightarrow> bytes \<Rightarrow> bool" where
  "represents h msg \<longleftrightarrow>
     m_size h = of_nat (length msg) \<and> length (m_block h) = BlockSize \<and>
     full_blocks (m_state Hasher) msg = (m_state h, take (length msg mod BlockSize) (m_block h))"

lemma represents_init: "represents Hasher []"
  by (simp add: represents_def Hasher_def full_blocks_short BlockSize_def)

lemma size_mod: "unat (of_nat n :: u64) mod BlockSize = n mod BlockSize"
  by (simp add: unat_of_nat BlockSize_def mod_mod_cancel)

lemma represents_update:
  assumes "represents h msg"
  shows "represents (update h data) (msg @ data)"
proof -
  let ?st = "m_state h" and ?k = "length msg mod BlockSize"
  define r where "r = take ?k (m_block h)"
  have sz: "m_size h = of_nat (length msg)" and lb: "length (m_block h) = BlockSize"
    and fb: "full_blocks (m_state Hasher) msg = (?st, r)"
    using assms by (simp_all add: represents_def r_def)
  have k: "?k < BlockSize" by (simp add: BlockSize_def)
  have lr: "length r = ?k" using lb k by (simp add: r_def)
  have all: "full_blocks (m_state Hasher) (msg @ data) = full_blocks ?st (r @ data)"
    by (subst full_blocks_append) (simp add: fb)
  have len: "length (snd (full_blocks ?st (r @ data))) = length (msg @ data) mod BlockSize"
    using full_blocks_rest [of "m_state Hasher" "msg @ data"] by (simp add: all)
  define n where "n = min (length data) (BlockSize - ?k)"
  define blk where "blk = copy_into (m_block h) ?k (take n data)"
  have blk: "length blk = BlockSize" "take (?k + n) blk = r @ take n data"
    using lb k lr by (auto simp: blk_def copy_into_def r_def n_def)
  obtain st' rest where fr: "full_blocks ?st (r @ data) = (st', rest)" by fastforce
  have lrest: "length rest = length (msg @ data) mod BlockSize" "length rest < BlockSize"
    using len k by (simp_all add: fr BlockSize_def)
  have cpy: "take (length rest) (copy_into b 0 rest) = rest" "length (copy_into b 0 rest) = BlockSize"
    if "length b = BlockSize" for b
    using that lrest(2) by (simp_all add: copy_into_def)
  show ?thesis
  proof (cases "?k = 0")
    case True
    then have "r = []" using lr by simp
    then show ?thesis
      using True fr cpy lb lrest
      by (auto simp: represents_def update_def sz size_mod all Let_def)
  next
    case False
    show ?thesis
    proof (cases "?k + n \<ge> BlockSize")
      case True
      then have kn: "?k + n = BlockSize" using k by (simp add: n_def)
      then have "blk = r @ take n data" using blk by simp
      moreover have "length (r @ take n data) = BlockSize" using blk by (metis calculation)
      ultimately have "full_blocks (processBlock blk ?st) (drop n data) = (st', rest)"
        using full_blocks_long [of "r @ take n data" ?st "drop n data"] fr by simp
      then show ?thesis
        using False True cpy blk(1) lrest all fr
        by (auto simp: represents_def update_def sz size_mod Let_def n_def [symmetric] blk_def [symmetric])
    next
      case nfull: False
      then have n: "n = length data" by (auto simp: n_def)
      then have "length (r @ data) < BlockSize" using nfull lr by simp
      then have "rest = r @ data" "st' = ?st" using fr full_blocks_short by auto
      have "drop n data = []" using n by simp
      moreover have "full_blocks ?st [] = (?st, [])" by (simp add: full_blocks_short BlockSize_def)
      ultimately have "m_size (update h data) = of_nat (length (msg @ data))" "m_block (update h data) = blk"
          "m_state (update h data) = ?st"
        using False nfull
        by (simp_all add: update_def sz size_mod Let_def n_def [symmetric] blk_def)
      moreover have "length (msg @ data) mod BlockSize = ?k + n"
        using lrest(1) \<open>rest = r @ data\<close> lr n by simp
      ultimately show ?thesis
        using blk all fr n \<open>rest = r @ data\<close> \<open>st' = ?st\<close> by (simp add: represents_def)
    qed
  qed
qed

lemma represents_fold:
  "represents h msg \<Longrightarrow> represents (fold (\<lambda>p h. update h p) ps h) (msg @ concat ps)"
proof (induction ps arbitrary: h msg)
  case (Cons p ps)
  from Cons.IH [OF represents_update [OF Cons.prems]] show ?case by simp
qed simp

lemma update_nil: "update h [] = h"
  by (simp add: update_def full_blocks_short BlockSize_def copy_into_def Let_def)

section \<open>MD5 of RFC 1321\<close>

text \<open>
  The reference: the message is padded to a multiple of 64 bytes and its blocks are folded
  with 64 operations \<open>a := b + rotate (a + F b c d + X k + T i)\<close>.
\<close>

fun rfc_f :: "nat \<Rightarrow> u32 \<Rightarrow> u32 \<Rightarrow> u32 \<Rightarrow> u32" where
  "rfc_f i x y z =
     (if i < 16 then (x AND y) OR (NOT x AND z)
      else if i < 32 then (x AND z) OR (y AND NOT z)
      else if i < 48 then x XOR y XOR z
      else y XOR (x OR NOT z))"

fun rfc_k :: "nat \<Rightarrow> nat" where
  "rfc_k i = (if i < 16 then i else if i < 32 then (5 * i + 1) mod 16
              else if i < 48 then (3 * i + 5) mod 16 else 7 * i mod 16)"

definition rfc_op :: "bytes \<Rightarrow> nat \<Rightarrow> md5_state \<Rightarrow> md5_state" where
  "rfc_op X i st = (case st of (a, b, c, d) \<Rightarrow>
     (d, b + word_rotl (s_shifts ! i) (a + rfc_f i b c d + readDword X (4 * rfc_k i) + s_constants ! i), b, c))"

definition rfc_block :: "bytes \<Rightarrow> md5_state \<Rightarrow> md5_state" where
  "rfc_block X st = add_state st (fold (rfc_op X) [0..<64] st)"

definition rfc_blocks :: "bytes \<Rightarrow> md5_state" where
  "rfc_blocks msg =
     fold rfc_block (map (\<lambda>i. take 64 (drop (64 * i) msg)) [0..<length msg div 64]) (m_state Hasher)"

definition le64 :: "u64 \<Rightarrow> bytes" where
  "le64 w = map (\<lambda>i. ucast (drop_bit (8 * i) w)) [0, 1, 2, 3, 4, 5, 6, 7]"

definition rfc_pad :: "bytes \<Rightarrow> bytes" where
  "rfc_pad msg = msg @ 0x80 # replicate ((119 - length msg mod 64) mod 64) 0 @ le64 (of_nat (8 * length msg))"

definition digest :: "md5_state \<Rightarrow> bytes" where
  "digest st = (case st of (a, b, c, d) \<Rightarrow> le32s [a, b, c, d])"

lemma rotl_eq:
  assumes "0 < s" "s < 32"
  shows "push_bit s f + drop_bit (32 - s) f = word_rotl s (f :: u32)"
proof -
  have "push_bit s f AND drop_bit (32 - s) f = 0"
    using assms by (intro bit_word_eqI) (auto simp: bit_simps dest: bit_imp_le_length)
  then have "push_bit s f + drop_bit (32 - s) f = push_bit s f OR drop_bit (32 - s) f"
    by (rule disjunctive_add_eq_or)
  also have "\<dots> = word_rotl s f"
  proof (rule bit_word_eqI)
    fix n assume n: "n < LENGTH(32)"
    then have "bit (word_rotl s f) n \<longleftrightarrow> bit f ((n + (32 - s)) mod 32)"
      using assms by (simp add: bit_word_rotl_iff)
    moreover have "(n + (32 - s)) mod 32 = (if n < s then n + (32 - s) else n - s)"
      using n assms by (auto simp: mod_if)
    ultimately show "bit (push_bit s f OR drop_bit (32 - s) f) n \<longleftrightarrow> bit (word_rotl s f) n"
      using n assms by (auto simp: bit_simps add.commute dest: bit_imp_le_length)
  qed
  finally show ?thesis .
qed

lemma shifts_range: "i < 64 \<Longrightarrow> 0 < s_shifts ! i \<and> s_shifts ! i < 32"
proof -
  have "list_all (\<lambda>s. 0 < s \<and> s < 32) s_shifts \<and> length s_shifts = 64" by (simp add: s_shifts_def)
  then show "i < 64 \<Longrightarrow> 0 < s_shifts ! i \<and> s_shifts ! i < 32" by (simp add: list_all_length)
qed

lemma iteration_rfc: "i < 64 \<Longrightarrow> iteration data i st = rfc_op data i st"
  using shifts_range [of i]
  by (cases st) (auto simp: iteration_def rfc_op_def finalizeIteration_def Let_def rotl_eq ac_simps
    and.commute or.commute)

lemma processBlock_rfc: "processBlock data st = rfc_block data st"
proof -
  have "fold (iteration data) [0..<64] st = fold (rfc_op data) [0..<64] st"
    by (rule fold_cong) (auto simp: iteration_rfc)
  then show ?thesis by (simp only: processBlock_def rfc_block_def)
qed

lemma full_blocks_fold:
  "fst (full_blocks st msg) =
    fold rfc_block (map (\<lambda>i. take 64 (drop (64 * i) msg)) [0..<length msg div 64]) st"
proof (induction st msg rule: full_blocks.induct)
  case (1 st msg)
  show ?case
  proof (cases "length msg \<ge> BlockSize")
    case True
    let ?m = "drop 64 msg"
    have "length msg div 64 = Suc (length ?m div 64)"
      using True by (simp add: BlockSize_def le_div_geq)
    then have "[0..<length msg div 64] = 0 # map Suc [0..<length ?m div 64]"
      by (simp add: upt_conv_Cons map_Suc_upt del: upt_Suc)
    then have "fold rfc_block (map (\<lambda>i. take 64 (drop (64 * i) msg)) [0..<length msg div 64]) st =
      fold rfc_block (map (\<lambda>i. take 64 (drop (64 * i) ?m)) [0..<length ?m div 64]) (rfc_block (take 64 msg) st)"
      by (simp add: comp_def add.commute [of 64] del: upt_Suc)
    moreover have "full_blocks st msg = full_blocks (rfc_block (take 64 msg) st) ?m"
      using True by (subst full_blocks.simps) (simp add: BlockSize_def processBlock_rfc)
    ultimately show ?thesis using 1 [OF True] by (simp add: BlockSize_def processBlock_rfc)
  qed (simp add: full_blocks_short BlockSize_def)
qed

lemma represents_state: "represents h msg \<Longrightarrow> m_state h = rfc_blocks msg"
  using full_blocks_fold [of "m_state Hasher" msg] by (simp add: represents_def rfc_blocks_def)

lemma bextract_byte: "8 * j + 8 \<le> LENGTH('a) \<Longrightarrow> ucast (bextract (w :: 'a::len word) (8 * j) 8) = (ucast (drop_bit (8 * j) w) :: u8)"
proof -
  have m: "(push_bit (8 - 1) 2 - 1 :: 'a word) = mask 8"
    by (simp add: mask_eq_exp_minus_1 push_bit_eq_mult)
  have "bextract w (8 * j) 8 = take_bit 8 (drop_bit (8 * j) w)"
    by (simp only: bextract_def Let_def m take_bit_eq_mask zero_neq_numeral [symmetric] if_False)
  then show "8 * j + 8 \<le> LENGTH('a) \<Longrightarrow> ?thesis"
    by (intro bit_word_eqI) (auto simp: bit_simps)
qed

lemma getDigest_eq: "getDigest h = digest (m_state h)"
  using bextract_byte [where 'a = 32, of 0] bextract_byte [where 'a = 32, of 1]
    bextract_byte [where 'a = 32, of 2] bextract_byte [where 'a = 32, of 3]
  by (simp add: getDigest_def digest_def le32_def split: prod.splits)

lemma pad_length:
  assumes "k < 64"
  shows "(if k \<ge> 56 then 120 else 56) - k = Suc ((119 - k) mod 64)" "(119 - k) mod 64 \<le> 63"
proof -
  show "(if k \<ge> 56 then 120 else 56) - k = Suc ((119 - k) mod 64)"
  proof (cases "k < 56")
    case True
    then have "119 - k = 64 + (55 - k)" by simp
    then have "(119 - k) mod 64 = (55 - k) mod 64" by (simp only: mod_add_self1)
    then show ?thesis using True by simp
  qed (use assms in simp)
  show "(119 - k) mod 64 \<le> 63" using mod_less_divisor [of 64 "119 - k"] by simp
qed

lemma represents_finalize:
  assumes "represents h msg"
  shows "fst (finalize h) = digest (rfc_blocks (rfc_pad msg))"
proof -
  let ?k = "length msg mod 64"
  let ?d = "if ?k \<ge> 56 then 120 else 56 :: nat"
  have k: "?k < 64" by simp
  have sz: "m_size h = of_nat (length msg)" using assms by (simp add: represents_def)
  have cur: "unat (m_size h) mod BlockSize = ?k" using size_mod [of "length msg"] by (simp add: sz BlockSize_def)
  note pl = pad_length [OF k]
  then have pad: "take (?d - ?k) s_padding = 0x80 # replicate ((119 - ?k) mod 64) 0"
    using pl by (simp only: s_padding_def take_Suc_Cons take_replicate) (simp add: min_def)
  have bits: "map (\<lambda>i. ucast (bextract (8 * m_size h) (8 * i) 8)) [0, 1, 2, 3, 4, 5, 6, 7] = le64 (of_nat (8 * length msg))"
    unfolding le64_def sz of_nat_mult of_nat_numeral by (intro map_cong refl bextract_byte) auto
  have "represents (padBlock h) ((msg @ take (?d - ?k) s_padding) @ le64 (of_nat (8 * length msg)))"
    unfolding padBlock_def Let_def cur bits by (intro represents_update assms)
  then have "m_state (padBlock h) = rfc_blocks (rfc_pad msg)"
    using represents_state by (simp add: pad rfc_pad_def)
  then show ?thesis by (simp add: finalize_def getDigest_eq)
qed

lemma compute_rfc: "compute data = digest (rfc_blocks (rfc_pad data))"
  unfolding compute_def using represents_finalize [OF represents_update [OF represents_init]] by simp

section \<open>The DXBC variant\<close>

text \<open>What \<open>hashDxbcBinary\<close> hashes, as one message.\<close>

definition dxbc_message :: "bytes \<Rightarrow> bytes" where
  "dxbc_message b =
     (let k = length b mod 64; full = take (length b - k) b; rest = drop (length b - k) b;
          aNum = of_nat (length b) * 8; bNum = drop_bit 2 aNum OR 1
      in if k \<ge> 56 then b @ 0x80 # replicate (63 - k) 0 @ le32 aNum @ replicate 56 0 @ le32 bNum
         else full @ le32 aNum @ rest @ 0x80 # replicate (55 - k) 0 @ le32 bNum)"

lemma length_dxbc_message: "64 dvd length (dxbc_message b)"
proof -
  obtain q where q: "length b = 64 * q + length b mod 64" by (metis mult_div_mod_eq)
  define k where "k = length b mod 64"
  have k: "k < 64" by (simp add: k_def)
  have len: "length (dxbc_message b) = (if k \<ge> 56 then 64 * q + 128 else 64 * q + 64)"
    using q k unfolding dxbc_message_def Let_def k_def [symmetric] by auto
  show ?thesis unfolding len by (auto intro: dvd_add)
qed

lemma represents_dxbc:
  "hashDxbcBinary data = digest (rfc_blocks (dxbc_message (drop 20 data)))"
proof -
  define b where "b = drop 20 data"
  define k where "k = length b mod 64"
  let ?a = "of_nat (length b) * 8 :: u32"
  let ?b = "drop_bit 2 ?a OR 1"
  have k: "k < 64" by (simp add: k_def)
  have full: "represents (update Hasher (take (length b - k) b)) (take (length b - k) b)"
    using represents_update [OF represents_init] by simp
  have all: "take (length b - k) b @ drop (length b - k) b = b" by simp
  note bs = represents_state
  have pad: "take n s_padding = 0x80 # replicate (n - 1) 0" if "0 < n" "n \<le> 64" for n
    using that by (cases n) (simp_all only: s_padding_def take_Suc_Cons take_replicate, simp_all add: min_def)
  show ?thesis
  proof (cases "k \<ge> 56")
    case True
    have p: "take (64 - k) s_padding = 0x80 # replicate (63 - k) 0" using pad [of "64 - k"] k by simp
    have z: "take (64 - 4 - 4) (drop 4 s_padding) = replicate 56 0" by (simp add: s_padding_def)
    note r = full [THEN represents_update, of "drop (length b - k) b", unfolded all,
      THEN represents_update, of "take (64 - k) s_padding", THEN represents_update, of "le32 ?a",
      THEN represents_update, of "take (64 - 4 - 4) (drop 4 s_padding)", THEN represents_update, of "le32 ?b"]
    have "dxbc_message b = (((b @ take (64 - k) s_padding) @ le32 ?a) @ take (64 - 4 - 4) (drop 4 s_padding)) @ le32 ?b"
      using True by (simp only: dxbc_message_def Let_def k_def [symmetric] p z if_True append_assoc append_Cons)
    with bs [OF r] show ?thesis
      using True by (simp only: hashDxbcBinary_def Let_def b_def [symmetric] BlockSize_def k_def [symmetric]
        if_True getDigest_eq)
  next
    case False
    have p: "take (64 - k - 4 - 4) s_padding = 0x80 # replicate (55 - k) 0"
      using pad [of "64 - k - 4 - 4"] False by simp
    note r = full [THEN represents_update, of "le32 ?a", THEN represents_update, of "drop (length b - k) b",
      THEN represents_update, of "take (64 - k - 4 - 4) s_padding", THEN represents_update, of "le32 ?b"]
    have e: "(if k \<noteq> 0 then update h (drop (length b - k) b) else h) = update h (drop (length b - k) b)" for h
      by (simp add: update_nil)
    have "dxbc_message b = (((take (length b - k) b @ le32 ?a) @ drop (length b - k) b) @ take (64 - k - 4 - 4) s_padding) @ le32 ?b"
      using False by (simp only: dxbc_message_def Let_def k_def [symmetric] p if_False append_assoc append_Cons)
    with bs [OF r] show ?thesis
      using False by (simp only: hashDxbcBinary_def Let_def b_def [symmetric] BlockSize_def k_def [symmetric]
        if_False getDigest_eq e)
  qed
qed

section \<open>Properties\<close>


text \<open>
  C29. The hasher is incremental: updating it with a message in any number of pieces and
  finalizing gives the digest of the whole message, and leaves a hasher in its default state.
\<close>

theorem md5_incremental:
  "finalize (fold (\<lambda>p h. update h p) ps Hasher) = (compute (concat ps), Hasher)"
  using represents_finalize [OF represents_fold [OF represents_init]]
  by (simp add: compute_rfc finalize_def)


text \<open>A test vector of RFC 1321, the message \<open>abc\<close>.\<close>

lemma md5_vector:
  "compute [97, 98, 99] = [0x90, 0x01, 0x50, 0x98, 0x3c, 0xd2, 0x4f, 0xb0, 0xd6, 0x96, 0x3f, 0x7d, 0x28, 0xe1, 0x7f, 0x72]"
  by code_simp

end
