(* ===== verification/RootSignature.thy ===== *)
theory RootSignature
  imports Container Md5
begin

text \<open>
  Root signatures: \<open>src/airconv/dxbc_root_signature.hpp\<close> and
  \<open>src/d3d12/d3d12_root_signature.cpp\<close>.  A description is serialized into segments that are
  copied into a signed DXBC container; the deserializer reads the container back in both
  versions, and \<open>Initialize\<close> validates it and lays out the argument buffer.  The structures of
  the D3D12 API have the layout of its headers; floating point fields are kept as their bits.
  \<open>malloc\<close> is taken to succeed, so \<open>AllocateBuffer\<close> returns \<open>nullptr\<close> only for a count of 0.
\<close>

section \<open>Descriptions\<close>

record root_constants =
  rc_ShaderRegister :: u32
  rc_RegisterSpace :: u32
  rc_Num32BitValues :: u32

record root_descriptor =
  rd_ShaderRegister :: u32
  rd_RegisterSpace :: u32

record root_descriptor1 = root_descriptor +
  rd_Flags :: u32

record descriptor_range =
  RangeType :: u32
  NumDescriptors :: u32
  BaseShaderRegister :: u32
  RegisterSpace :: u32
  OffsetInDescriptorsFromTableStart :: u32

record descriptor_range1 = descriptor_range +
  RangeFlags :: u32

record static_sampler =
  ss_Filter :: u32
  ss_AddressU :: u32
  ss_AddressV :: u32
  ss_AddressW :: u32
  ss_MipLODBias :: u32
  ss_MaxAnisotropy :: u32
  ss_ComparisonFunc :: u32
  ss_BorderColor :: u32
  ss_MinLOD :: u32
  ss_MaxLOD :: u32
  ss_ShaderRegister :: u32
  ss_RegisterSpace :: u32
  ss_ShaderVisibility :: u32

text \<open>
  A descriptor table of the API is an array of ranges; one of the deserializer points to its
  ranges, into the blob (count and offset) or to an array of its own.  The constructors of \<open>root_payload\<close> are the values of
  \<open>D3D12_ROOT_PARAMETER_TYPE\<close>, with the union member each selects.
\<close>

datatype 'r ranges = InBlob u32 nat | Owned "'r list"

datatype ('t, 'd) root_payload =
    Table 't
  | Constants root_constants
  | Cbv 'd | Srv 'd | Uav 'd
  | OtherType u32

record ('t, 'd) root_parameter =
  ShaderVisibility :: u32
  payload :: "('t, 'd) root_payload"

fun ParameterType :: "('t, 'd) root_payload \<Rightarrow> u32" where
  "ParameterType (Table _) = 0"
| "ParameterType (Constants _) = 1"
| "ParameterType (Cbv _) = 2"
| "ParameterType (Srv _) = 3"
| "ParameterType (Uav _) = 4"
| "ParameterType (OtherType n) = n"

record ('t, 'd, 's) root_signature_desc =
  desc_Flags :: u32
  pParameters :: "('t, 'd) root_parameter list"
  pStaticSamplers :: 's

type_synonym ('r, 'd) api_desc = "('r list, 'd, static_sampler list) root_signature_desc"
type_synonym ('r, 'd) read_desc = "('r ranges, 'd, u32 \<times> nat option) root_signature_desc"

definition NumParameters :: "('t, 'd, 's) root_signature_desc \<Rightarrow> nat" where
  "NumParameters d = length (pParameters d)"

section \<open>Layouts\<close>

record raw_desc =
  Version :: u32
  raw_NumParameters :: u32
  RootParametersOffset :: u32
  raw_NumStaticSamplers :: u32
  StaticSamplersOffset :: u32
  raw_Flags :: u32

record raw_parameter =
  raw_ParameterType :: u32
  raw_ShaderVisibility :: u32
  PayloadOffset :: u32

record raw_table =
  NumDescriptorRanges :: u32
  DescriptorRangesOffset :: u32

definition raw_desc_fields :: "raw_desc \<Rightarrow> u32 list" where
  "raw_desc_fields r = [Version r, raw_NumParameters r, RootParametersOffset r,
     raw_NumStaticSamplers r, StaticSamplersOffset r, raw_Flags r]"

fun raw_desc_build :: "u32 list \<Rightarrow> raw_desc option" where
  "raw_desc_build [a, b, c, d, e, f] = Some \<lparr>Version = a, raw_NumParameters = b, RootParametersOffset = c,
     raw_NumStaticSamplers = d, StaticSamplersOffset = e, raw_Flags = f\<rparr>"
| "raw_desc_build _ = None"

definition raw_parameter_fields :: "raw_parameter \<Rightarrow> u32 list" where
  "raw_parameter_fields r = [raw_ParameterType r, raw_ShaderVisibility r, PayloadOffset r]"

fun raw_parameter_build :: "u32 list \<Rightarrow> raw_parameter option" where
  "raw_parameter_build [a, b, c] = Some \<lparr>raw_ParameterType = a, raw_ShaderVisibility = b, PayloadOffset = c\<rparr>"
| "raw_parameter_build _ = None"

definition raw_table_fields :: "raw_table \<Rightarrow> u32 list" where
  "raw_table_fields r = [NumDescriptorRanges r, DescriptorRangesOffset r]"

fun raw_table_build :: "u32 list \<Rightarrow> raw_table option" where
  "raw_table_build [a, b] = Some \<lparr>NumDescriptorRanges = a, DescriptorRangesOffset = b\<rparr>"
| "raw_table_build _ = None"

definition constants_fields :: "root_constants \<Rightarrow> u32 list" where
  "constants_fields r = [rc_ShaderRegister r, rc_RegisterSpace r, rc_Num32BitValues r]"

fun constants_build :: "u32 list \<Rightarrow> root_constants option" where
  "constants_build [a, b, c] = Some \<lparr>rc_ShaderRegister = a, rc_RegisterSpace = b, rc_Num32BitValues = c\<rparr>"
| "constants_build _ = None"

definition descriptor_fields :: "root_descriptor \<Rightarrow> u32 list" where
  "descriptor_fields r = [rd_ShaderRegister r, rd_RegisterSpace r]"

fun descriptor_build :: "u32 list \<Rightarrow> root_descriptor option" where
  "descriptor_build [a, b] = Some \<lparr>rd_ShaderRegister = a, rd_RegisterSpace = b\<rparr>"
| "descriptor_build _ = None"

definition descriptor1_fields :: "root_descriptor1 \<Rightarrow> u32 list" where
  "descriptor1_fields r = [rd_ShaderRegister r, rd_RegisterSpace r, rd_Flags r]"

fun descriptor1_build :: "u32 list \<Rightarrow> root_descriptor1 option" where
  "descriptor1_build [a, b, c] = Some \<lparr>rd_ShaderRegister = a, rd_RegisterSpace = b, rd_Flags = c\<rparr>"
| "descriptor1_build _ = None"

definition range_fields :: "descriptor_range \<Rightarrow> u32 list" where
  "range_fields r = [RangeType r, NumDescriptors r, BaseShaderRegister r, RegisterSpace r,
     OffsetInDescriptorsFromTableStart r]"

fun range_build :: "u32 list \<Rightarrow> descriptor_range option" where
  "range_build [a, b, c, d, e] = Some \<lparr>RangeType = a, NumDescriptors = b, BaseShaderRegister = c,
     RegisterSpace = d, OffsetInDescriptorsFromTableStart = e\<rparr>"
| "range_build _ = None"

definition range1_fields :: "descriptor_range1 \<Rightarrow> u32 list" where
  "range1_fields r = [RangeType r, NumDescriptors r, BaseShaderRegister r, RegisterSpace r,
     RangeFlags r, OffsetInDescriptorsFromTableStart r]"

fun range1_build :: "u32 list \<Rightarrow> descriptor_range1 option" where
  "range1_build [a, b, c, d, f, e] = Some \<lparr>RangeType = a, NumDescriptors = b, BaseShaderRegister = c,
     RegisterSpace = d, OffsetInDescriptorsFromTableStart = e, RangeFlags = f\<rparr>"
| "range1_build _ = None"

definition sampler_fields :: "static_sampler \<Rightarrow> u32 list" where
  "sampler_fields s = [ss_Filter s, ss_AddressU s, ss_AddressV s, ss_AddressW s, ss_MipLODBias s,
     ss_MaxAnisotropy s, ss_ComparisonFunc s, ss_BorderColor s, ss_MinLOD s, ss_MaxLOD s,
     ss_ShaderRegister s, ss_RegisterSpace s, ss_ShaderVisibility s]"

fun sampler_build :: "u32 list \<Rightarrow> static_sampler option" where
  "sampler_build [a, b, c, d, e, f, g, h, i, j, k, l, m] = Some \<lparr>ss_Filter = a, ss_AddressU = b,
     ss_AddressV = c, ss_AddressW = d, ss_MipLODBias = e, ss_MaxAnisotropy = f, ss_ComparisonFunc = g,
     ss_BorderColor = h, ss_MinLOD = i, ss_MaxLOD = j, ss_ShaderRegister = k, ss_RegisterSpace = l,
     ss_ShaderVisibility = m\<rparr>"
| "sampler_build _ = None"

interpretation raw_desc_layout: layout raw_desc_fields raw_desc_build 6
  by unfold_locales (simp_all add: raw_desc_fields_def)
interpretation raw_parameter_layout: layout raw_parameter_fields raw_parameter_build 3
  by unfold_locales (simp_all add: raw_parameter_fields_def)
interpretation raw_table_layout: layout raw_table_fields raw_table_build 2
  by unfold_locales (simp_all add: raw_table_fields_def)
interpretation constants_layout: layout constants_fields constants_build 3
  by unfold_locales (simp_all add: constants_fields_def)
interpretation descriptor_layout: layout descriptor_fields descriptor_build 2
  by unfold_locales (simp_all add: descriptor_fields_def)
interpretation descriptor1_layout: layout descriptor1_fields descriptor1_build 3
  by unfold_locales (simp_all add: descriptor1_fields_def)
interpretation range_layout: layout range_fields range_build 5
  by unfold_locales (simp_all add: range_fields_def)
interpretation range1_layout: layout range1_fields range1_build 6
  by unfold_locales (simp_all add: range1_fields_def)
interpretation sampler_layout: layout sampler_fields sampler_build 13
  by unfold_locales (simp_all add: sampler_fields_def)

section \<open>Deserialization\<close>

text \<open>The ranges of a table, read through its pointer.\<close>

fun ranges_at :: "(u32 list \<Rightarrow> 'r option) \<Rightarrow> nat \<Rightarrow> bytes \<Rightarrow> 'r ranges \<Rightarrow> 'r list option" where
  "ranges_at build words raw (InBlob n p) = read_array build words raw p (unat n)"
| "ranges_at build words raw (Owned rs) = Some rs"

fun NumRanges :: "'r ranges \<Rightarrow> nat" where
  "NumRanges (InBlob n p) = unat n"
| "NumRanges (Owned rs) = length rs"

text \<open>The body of the parameter loop of \<open>DeserializeVersionedRootSignatureImpl\<close>.\<close>

definition deserialize_parameter ::
  "(u32 list \<Rightarrow> 'd option) \<Rightarrow> nat \<Rightarrow> bytes \<Rightarrow> raw_parameter \<Rightarrow> ('r ranges, 'd) root_parameter option" where
  "deserialize_parameter dbuild dwords raw p =
     (let ty = raw_ParameterType p; off = unat (PayloadOffset p);
          out = (\<lambda>pl. Some \<lparr>ShaderVisibility = raw_ShaderVisibility p, payload = pl\<rparr>)
      in if ty = 0 then do {
           t \<leftarrow> read_struct raw_table_build 2 raw off;
           out (Table (InBlob (NumDescriptorRanges t) (unat (DescriptorRangesOffset t)))) }
         else if ty = 1 then read_struct constants_build 3 raw off \<bind> (\<lambda>c. out (Constants c))
         else if ty = 2 then read_struct dbuild dwords raw off \<bind> (\<lambda>d. out (Cbv d))
         else if ty = 3 then read_struct dbuild dwords raw off \<bind> (\<lambda>d. out (Srv d))
         else if ty = 4 then read_struct dbuild dwords raw off \<bind> (\<lambda>d. out (Uav d))
         else out (OtherType ty))"

fun deserialize_parameters ::
  "(u32 list \<Rightarrow> 'd option) \<Rightarrow> nat \<Rightarrow> bytes \<Rightarrow> nat \<Rightarrow> nat \<Rightarrow> ('r ranges, 'd) root_parameter list option" where
  "deserialize_parameters dbuild dwords raw p 0 = Some []"
| "deserialize_parameters dbuild dwords raw p (Suc n) = do {
     rp \<leftarrow> read_struct raw_parameter_build 3 raw p;
     q \<leftarrow> deserialize_parameter dbuild dwords raw rp;
     qs \<leftarrow> deserialize_parameters dbuild dwords raw (p + 12) n;
     Some (q # qs) }"

definition DeserializeVersionedRootSignatureImpl ::
  "(u32 list \<Rightarrow> 'd option) \<Rightarrow> nat \<Rightarrow> bytes \<Rightarrow> ('r, 'd) read_desc option" where
  "DeserializeVersionedRootSignatureImpl dbuild dwords raw = do {
     h \<leftarrow> read_struct raw_desc_build 6 raw 0;
     ps \<leftarrow> deserialize_parameters dbuild dwords raw (unat (RootParametersOffset h)) (unat (raw_NumParameters h));
     Some \<lparr>desc_Flags = raw_Flags h, pParameters = ps,
       pStaticSamplers = (raw_NumStaticSamplers h,
         if raw_NumStaticSamplers h \<noteq> 0 then Some (unat (StaticSamplersOffset h)) else None)\<rparr> }"

text \<open>\<open>SetFlag\<close>: version 1.0 means volatile data and descriptors; the other way the flags go.\<close>

definition D3D12_ROOT_DESCRIPTOR_FLAG_DATA_VOLATILE :: u32 where
  "D3D12_ROOT_DESCRIPTOR_FLAG_DATA_VOLATILE = 2"
definition D3D12_DESCRIPTOR_RANGE_FLAG_DESCRIPTORS_VOLATILE :: u32 where
  "D3D12_DESCRIPTOR_RANGE_FLAG_DESCRIPTORS_VOLATILE = 1"
definition D3D12_DESCRIPTOR_RANGE_FLAG_DATA_VOLATILE :: u32 where
  "D3D12_DESCRIPTOR_RANGE_FLAG_DATA_VOLATILE = 2"
definition D3D12_DESCRIPTOR_RANGE_TYPE_SAMPLER :: u32 where
  "D3D12_DESCRIPTOR_RANGE_TYPE_SAMPLER = 3"

definition descriptor_to_1 :: "root_descriptor \<Rightarrow> root_descriptor1" where
  "descriptor_to_1 d = \<lparr>rd_ShaderRegister = rd_ShaderRegister d, rd_RegisterSpace = rd_RegisterSpace d,
     rd_Flags = D3D12_ROOT_DESCRIPTOR_FLAG_DATA_VOLATILE\<rparr>"

definition descriptor_to_0 :: "root_descriptor1 \<Rightarrow> root_descriptor" where
  "descriptor_to_0 d = \<lparr>rd_ShaderRegister = rd_ShaderRegister d, rd_RegisterSpace = rd_RegisterSpace d\<rparr>"

definition range_to_1 :: "descriptor_range \<Rightarrow> descriptor_range1" where
  "range_to_1 r = \<lparr>RangeType = RangeType r, NumDescriptors = NumDescriptors r,
     BaseShaderRegister = BaseShaderRegister r, RegisterSpace = RegisterSpace r,
     OffsetInDescriptorsFromTableStart = OffsetInDescriptorsFromTableStart r,
     RangeFlags =
       (if RangeType r \<noteq> D3D12_DESCRIPTOR_RANGE_TYPE_SAMPLER
        then D3D12_DESCRIPTOR_RANGE_FLAG_DESCRIPTORS_VOLATILE OR D3D12_DESCRIPTOR_RANGE_FLAG_DATA_VOLATILE
        else D3D12_DESCRIPTOR_RANGE_FLAG_DESCRIPTORS_VOLATILE)\<rparr>"

definition range_to_0 :: "descriptor_range1 \<Rightarrow> descriptor_range" where
  "range_to_0 r = \<lparr>RangeType = RangeType r, NumDescriptors = NumDescriptors r,
     BaseShaderRegister = BaseShaderRegister r, RegisterSpace = RegisterSpace r,
     OffsetInDescriptorsFromTableStart = OffsetInDescriptorsFromTableStart r\<rparr>"

text \<open>The loop of \<open>ConvertVersionedRootSignature\<close>; \<open>rd\<close> reads the ranges of a table.\<close>

fun convert_payload ::
  "('r ranges \<Rightarrow> 'r list option) \<Rightarrow> ('r \<Rightarrow> 'q) \<Rightarrow> ('d \<Rightarrow> 'e) \<Rightarrow> ('r ranges, 'd) root_payload \<Rightarrow>
   (hresult + ('q ranges, 'e) root_payload) option" where
  "convert_payload rd cr cd (Table t) =
     (if NumRanges t = 0 then Some (Inl E_OUTOFMEMORY)
      else rd t \<bind> (\<lambda>rs. Some (Inr (Table (Owned (map cr rs))))))"
| "convert_payload rd cr cd (Constants c) = Some (Inr (Constants c))"
| "convert_payload rd cr cd (Cbv d) = Some (Inr (Cbv (cd d)))"
| "convert_payload rd cr cd (Srv d) = Some (Inr (Srv (cd d)))"
| "convert_payload rd cr cd (Uav d) = Some (Inr (Uav (cd d)))"
| "convert_payload rd cr cd (OtherType n) = Some (Inr (OtherType n))"

fun convert_parameters ::
  "('r ranges \<Rightarrow> 'r list option) \<Rightarrow> ('r \<Rightarrow> 'q) \<Rightarrow> ('d \<Rightarrow> 'e) \<Rightarrow> ('r ranges, 'd) root_parameter list \<Rightarrow>
   (hresult + ('q ranges, 'e) root_parameter list) option" where
  "convert_parameters rd cr cd [] = Some (Inr [])"
| "convert_parameters rd cr cd (p # ps) =
     and_then (convert_payload rd cr cd (payload p)) (\<lambda>pl.
     and_then (convert_parameters rd cr cd ps) (\<lambda>qs.
       Some (Inr (\<lparr>ShaderVisibility = ShaderVisibility p, payload = pl\<rparr> # qs))))"

definition ConvertVersionedRootSignature ::
  "('r ranges \<Rightarrow> 'r list option) \<Rightarrow> ('r \<Rightarrow> 'q) \<Rightarrow> ('d \<Rightarrow> 'e) \<Rightarrow> ('r, 'd) read_desc \<Rightarrow>
   (hresult + ('q, 'e) read_desc) option" where
  "ConvertVersionedRootSignature rd cr cd From =
     and_then (convert_parameters rd cr cd (pParameters From)) (\<lambda>ps.
       Some (Inr \<lparr>desc_Flags = desc_Flags From, pParameters = ps, pStaticSamplers = pStaticSamplers From\<rparr>))"

definition D3D_ROOT_SIGNATURE_VERSION_1_0 :: u32 where "D3D_ROOT_SIGNATURE_VERSION_1_0 = 1"
definition D3D_ROOT_SIGNATURE_VERSION_1_1 :: u32 where "D3D_ROOT_SIGNATURE_VERSION_1_1 = 2"

text \<open>\<open>RootSignatureDeserializer\<close>; \<open>raw_root_sig\<close> is its copy of the blob.\<close>

record deserializer =
  raw_root_sig :: bytes
  desc_1_0 :: "(descriptor_range, root_descriptor) read_desc"
  desc_1_1 :: "(descriptor_range1, root_descriptor1) read_desc"

definition Deserialize :: "bytes \<Rightarrow> (hresult + deserializer) option" where
  "Deserialize raw = do {
     h \<leftarrow> read_struct raw_desc_build 6 raw 0;
     if Version h = D3D_ROOT_SIGNATURE_VERSION_1_0 then do {
       d0 \<leftarrow> DeserializeVersionedRootSignatureImpl descriptor_build 2 raw;
       and_then (ConvertVersionedRootSignature (ranges_at range_build 5 raw) range_to_1 descriptor_to_1 d0)
         (\<lambda>d1. Some (Inr \<lparr>raw_root_sig = raw, desc_1_0 = d0, desc_1_1 = d1\<rparr>)) }
     else if Version h = D3D_ROOT_SIGNATURE_VERSION_1_1 then do {
       d1 \<leftarrow> DeserializeVersionedRootSignatureImpl descriptor1_build 3 raw;
       and_then (ConvertVersionedRootSignature (ranges_at range1_build 6 raw) range_to_0 descriptor_to_0 d1)
         (\<lambda>d0. Some (Inr \<lparr>raw_root_sig = raw, desc_1_0 = d0, desc_1_1 = d1\<rparr>)) }
     else Some (Inl E_INVALIDARG) }"

text \<open>\<open>GetRootSignatureDescAtVersion\<close> and \<open>GetUnconvertedRootSignatureDesc\<close>.\<close>

datatype versioned_desc =
    Desc_1_0 "(descriptor_range, root_descriptor) read_desc"
  | Desc_1_1 "(descriptor_range1, root_descriptor1) read_desc"

definition GetRootSignatureDescAtVersion :: "deserializer \<Rightarrow> u32 \<Rightarrow> hresult + versioned_desc" where
  "GetRootSignatureDescAtVersion d version =
     (if version = D3D_ROOT_SIGNATURE_VERSION_1_0 then Inr (Desc_1_0 (desc_1_0 d))
      else if version = D3D_ROOT_SIGNATURE_VERSION_1_1 then Inr (Desc_1_1 (desc_1_1 d))
      else Inl E_INVALIDARG)"

definition GetUnconvertedRootSignatureDesc :: "deserializer \<Rightarrow> versioned_desc option" where
  "GetUnconvertedRootSignatureDesc d =
     read_struct raw_desc_build 6 (raw_root_sig d) 0 \<bind> (\<lambda>h.
       Some (if Version h = D3D_ROOT_SIGNATURE_VERSION_1_0 then Desc_1_0 (desc_1_0 d) else Desc_1_1 (desc_1_1 d)))"

text \<open>\<open>D3D12CreateVersionedRootSignatureDeserializer\<close>, up to the COM object it wraps.\<close>

definition CreateVersionedRootSignatureDeserializer :: "bytes \<Rightarrow> nat option \<Rightarrow> (hresult + deserializer) option" where
  "CreateVersionedRootSignatureDeserializer m pBytecode =
     and_then (DXBCGetRootSignature m pBytecode)
       (\<lambda>(q, n). if q + unat n \<le> length m then Deserialize (take (unat n) (drop q m)) else None)"

section \<open>Serialization\<close>

text \<open>\<open>add_segment\<close>: the offset of the new segment, and the total after it.\<close>

definition add_segment :: "nat \<Rightarrow> nat \<Rightarrow> nat \<Rightarrow> nat \<times> nat" where
  "add_segment sizeof_TYPE count tot = (tot, if count = 0 then tot else tot + sizeof_TYPE * count)"

text \<open>
  A segment is its offset and its bytes, padded with zeros to a multiple of 4; segments of count
  0 are not stored.
\<close>

definition segment :: "nat \<Rightarrow> bytes \<Rightarrow> (nat \<times> bytes) list" where
  "segment offset bs =
     (if bs = [] then []
      else [(offset, bs @ replicate (unat (align (of_nat (length bs)) (4 :: u64)) - length bs) 0)])"

text \<open>The payload of a parameter: its offset, its segments and the new total.\<close>

definition serialize_descriptor ::
  "('d \<Rightarrow> u32 list) \<Rightarrow> nat \<Rightarrow> 'd \<Rightarrow> nat \<Rightarrow> nat \<times> (nat \<times> bytes) list \<times> nat" where
  "serialize_descriptor df dw d tot =
     (let (o1, t1) = add_segment (4 * dw) 1 tot in (o1, segment o1 (le32s (df d)), t1))"

fun serialize_payload ::
  "('r \<Rightarrow> u32 list) \<Rightarrow> nat \<Rightarrow> ('d \<Rightarrow> u32 list) \<Rightarrow> nat \<Rightarrow> ('r list, 'd) root_payload \<Rightarrow> nat \<Rightarrow>
   nat \<times> (nat \<times> bytes) list \<times> nat" where
  "serialize_payload rf rw df dw (Table rs) tot =
     (let (o1, t1) = add_segment 8 1 tot;
          (o2, t2) = add_segment (4 * rw) (length rs) t1
      in (o1, segment o1 (le32s (raw_table_fields \<lparr>NumDescriptorRanges = of_nat (length rs),
                DescriptorRangesOffset = of_nat o2\<rparr>)) @
              segment o2 (write_array rf rs), t2))"
| "serialize_payload rf rw df dw (Constants c) tot =
     (let (o1, t1) = add_segment 12 1 tot in (o1, segment o1 (le32s (constants_fields c)), t1))"
| "serialize_payload rf rw df dw (Cbv d) tot = serialize_descriptor df dw d tot"
| "serialize_payload rf rw df dw (Srv d) tot = serialize_descriptor df dw d tot"
| "serialize_payload rf rw df dw (Uav d) tot = serialize_descriptor df dw d tot"
| "serialize_payload rf rw df dw (OtherType n) tot = (0, [], tot)"

text \<open>The loop over the parameters: the raw parameters, the segments and the new total.\<close>

fun serialize_parameters ::
  "('r \<Rightarrow> u32 list) \<Rightarrow> nat \<Rightarrow> ('d \<Rightarrow> u32 list) \<Rightarrow> nat \<Rightarrow> ('r list, 'd) root_parameter list \<Rightarrow> nat \<Rightarrow>
   raw_parameter list \<times> (nat \<times> bytes) list \<times> nat" where
  "serialize_parameters rf rw df dw [] tot = ([], [], tot)"
| "serialize_parameters rf rw df dw (p # ps) tot =
     (let (off, segs, t1) = serialize_payload rf rw df dw (payload p) tot;
          (raws, segs', t2) = serialize_parameters rf rw df dw ps t1
      in (\<lparr>raw_ParameterType = ParameterType (payload p), raw_ShaderVisibility = ShaderVisibility p,
            PayloadOffset = of_nat off\<rparr> # raws, segs @ segs', t2))"

text \<open>All segments of a description, and their total size.\<close>

definition serialize_segments ::
  "u32 \<Rightarrow> ('r \<Rightarrow> u32 list) \<Rightarrow> nat \<Rightarrow> ('d \<Rightarrow> u32 list) \<Rightarrow> nat \<Rightarrow> ('r, 'd) api_desc \<Rightarrow> (nat \<times> bytes) list \<times> nat" where
  "serialize_segments version rf rw df dw d =
     (let n = NumParameters d; ss = pStaticSamplers d;
          (o0, t0) = add_segment 24 1 0;
          (op, t1) = add_segment 12 n t0;
          (raws, segs, t2) = serialize_parameters rf rw df dw (pParameters d) t1;
          (os, t3) = add_segment 52 (length ss) t2
      in (segment o0 (le32s (raw_desc_fields \<lparr>Version = version, raw_NumParameters = of_nat n,
              RootParametersOffset = of_nat op, raw_NumStaticSamplers = of_nat (length ss),
              StaticSamplersOffset = of_nat os, raw_Flags = desc_Flags d\<rparr>)) @
            segment op (write_array raw_parameter_fields raws) @ segs @ segment os (write_array sampler_fields ss),
          t3))"

text \<open>
  The blob: \<open>DXBC_ROOT_SIGNATURE_BLOB_HEADER\<close> (44 bytes), the segments at their offsets and
  the hash.  \<open>uninit\<close> is what \<open>malloc\<close> returned.
\<close>

definition blob_header :: "nat \<Rightarrow> nat \<Rightarrow> bytes" where
  "blob_header TotalSize tot =
     le32 DXBC_FOURCC_NAME @ replicate 16 0 @ le16 1 @ le16 0 @ le32 (of_nat TotalSize) @ le32 1 @
     le32 (44 - 8) @ le32 DXBC_RootSignature @ le32 (of_nat tot)"

definition SerializeVersionedRootSignatureImpl ::
  "u32 \<Rightarrow> ('r \<Rightarrow> u32 list) \<Rightarrow> nat \<Rightarrow> ('d \<Rightarrow> u32 list) \<Rightarrow> nat \<Rightarrow> (nat \<Rightarrow> u8) \<Rightarrow> ('r, 'd) api_desc \<Rightarrow> bytes" where
  "SerializeVersionedRootSignatureImpl version rf rw df dw uninit d =
     (let (segs, tot) = serialize_segments version rf rw df dw d;
          TotalSize = 44 + tot;
          blob = copy_into (map uninit [0..<TotalSize]) 0 (blob_header TotalSize tot);
          blob = fold (\<lambda>(off, bs) b. copy_into b (44 + off) bs) segs blob
      in copy_into blob 4 (hashDxbcBinary blob))"

datatype versioned_api_desc =
    Api_1_0 "(descriptor_range, root_descriptor) api_desc"
  | Api_1_1 "(descriptor_range1, root_descriptor1) api_desc"
  | Api_other u32

text \<open>\<open>has_blob\<close> says whether the caller gave a place for the result.\<close>

definition D3D12SerializeVersionedRootSignature ::
  "(nat \<Rightarrow> u8) \<Rightarrow> versioned_api_desc \<Rightarrow> bool \<Rightarrow> hresult + bytes" where
  "D3D12SerializeVersionedRootSignature uninit vd has_blob =
     (if \<not> has_blob then Inl E_INVALIDARG
      else case vd of
        Api_1_0 d \<Rightarrow> Inr (SerializeVersionedRootSignatureImpl D3D_ROOT_SIGNATURE_VERSION_1_0
                       range_fields 5 descriptor_fields 2 uninit d)
      | Api_1_1 d \<Rightarrow> Inr (SerializeVersionedRootSignatureImpl D3D_ROOT_SIGNATURE_VERSION_1_1
                       range1_fields 6 descriptor1_fields 3 uninit d)
      | Api_other v \<Rightarrow> Inl E_INVALIDARG)"

definition D3D12SerializeRootSignature ::
  "(nat \<Rightarrow> u8) \<Rightarrow> (descriptor_range, root_descriptor) api_desc \<Rightarrow> u32 \<Rightarrow> bool \<Rightarrow> hresult + bytes" where
  "D3D12SerializeRootSignature uninit d version has_blob =
     (if \<not> has_blob \<or> version \<noteq> D3D_ROOT_SIGNATURE_VERSION_1_0 then Inl E_INVALIDARG
      else D3D12SerializeVersionedRootSignature uninit (Api_1_0 d) has_blob)"

end
