(* ===== verification/RootRoundtrip.thy ===== *)
theory RootRoundtrip
  imports RootSignature
begin

text \<open>
  Reading back what was serialized: the segments are contiguous, every structure is found at the
  offset that was written for it, and the deserializer returns the description in both versions.
  The proofs are done once for both versions, in a locale over the layouts of ranges and root
  descriptors.
\<close>

section \<open>Words of a blob\<close>

lemma le32_not_Nil [simp]: "le32 w \<noteq> []"
  by (simp add: le32_def)

lemma rd32_le32s: "i < length ws \<Longrightarrow> rd32 (le32s ws @ post) (4 * i) = Some (ws ! i)"
proof -
  assume i: "i < length ws"
  then have "le32s ws @ post = le32s (take i ws) @ le32 (ws ! i) @ le32s (drop (Suc i) ws) @ post"
    by (metis append.assoc id_take_nth_drop le32s_simps(2) le32s_simps(3))
  then show ?thesis using rd32_append [of "le32s (take i ws)" "4 * i" "ws ! i"] i by simp
qed

lemma rd16_le32s:
  assumes "i < length ws"
  shows "rd16 (le32s ws @ post) (4 * i) = Some (ucast (ws ! i))"
    "rd16 (le32s ws @ post) (4 * i + 2) = Some (ucast (drop_bit 16 (ws ! i)))"
proof -
  let ?w = "ws ! i"
  have m: "le32s ws @ post = le32s (take i ws) @ le32 ?w @ le32s (drop (Suc i) ws) @ post"
    using assms by (metis append.assoc id_take_nth_drop le32s_simps(2) le32s_simps(3))
  have w: "le32 ?w = le16 (ucast ?w) @ le16 (ucast (drop_bit 16 ?w))"
    by (auto simp: le32_def le16_def word_eq_bits bit_simps)
  show "rd16 (le32s ws @ post) (4 * i) = Some (ucast ?w)"
    using rd16_append [of "le32s (take i ws)" "4 * i" "ucast ?w"] assms by (simp add: m w)
  show "rd16 (le32s ws @ post) (4 * i + 2) = Some (ucast (drop_bit 16 ?w))"
    using rd16_append [of "le32s (take i ws) @ le16 (ucast ?w)" "4 * i + 2" "ucast (drop_bit 16 ?w)"] assms
    by (simp add: m w)
qed

section \<open>Segments\<close>

lemma segment_aligned:
  assumes "4 dvd length bs"
  shows "segment off bs = (if bs = [] then [] else [(off, bs)])"
proof -
  let ?x = "of_nat (length bs) :: u64"
  have d: "4 dvd unat ?x" using assms by (simp add: unat_of_nat dvd_mod)
  have "unat ?x < 2 ^ 64" using unsigned_less [of ?x] by simp
  then have "unat ?x + 2 ^ 2 \<le> 2 ^ LENGTH(64)" using d by auto
  then have "unat (align ?x (2 ^ 2)) = (unat ?x + 3) div 4 * 4"
    using unat_align [of 2 ?x] by simp
  also have "\<dots> = unat ?x" using d by auto
  also have "\<dots> \<le> length bs" by (simp add: unat_of_nat)
  finally show ?thesis by (simp add: segment_def)
qed

lemma add_segment_eq: "add_segment k n t = (t, t + k * n)"
  by (simp add: add_segment_def)

definition flat :: "(nat \<times> bytes) list \<Rightarrow> bytes" where
  "flat segs = concat (map snd segs)"

lemma flat_simps [simp]:
  "flat [] = []" "flat (s # segs) = snd s @ flat segs" "flat (a @ b) = flat a @ flat b"
  by (simp_all add: flat_def)

lemma flat_segment: "4 dvd length bs \<Longrightarrow> flat (segment off bs) = bs"
  by (simp add: segment_aligned)

fun contiguous :: "nat \<Rightarrow> (nat \<times> bytes) list \<Rightarrow> bool" where
  "contiguous at [] = True"
| "contiguous at ((off, bs) # segs) \<longleftrightarrow> off = at \<and> contiguous (at + length bs) segs"

lemma contiguous_append:
  "contiguous at (a @ b) \<longleftrightarrow> contiguous at a \<and> contiguous (at + length (flat a)) b"
  by (induction a arbitrary: at) (auto simp: add.assoc)

lemma contiguous_segment: "4 dvd length bs \<Longrightarrow> contiguous at (segment at bs)"
  by (simp add: segment_aligned)

lemma fold_copy:
  assumes "contiguous at segs" "k + at + length (flat segs) \<le> length b"
  shows "fold (\<lambda>(off, bs) b. copy_into b (k + off) bs) segs b =
    take (k + at) b @ flat segs @ drop (k + at + length (flat segs)) b"
  using assms
proof (induction segs arbitrary: at b)
  case (Cons s segs)
  obtain bs where s: "s = (at, bs)" using Cons.prems(1) by (cases s) simp
  let ?b = "copy_into b (k + at) bs"
  have "fold (\<lambda>(off, bs) b. copy_into b (k + off) bs) segs ?b =
      take (k + (at + length bs)) ?b @ flat segs @ drop (k + (at + length bs) + length (flat segs)) ?b"
    using Cons.prems by (intro Cons.IH) (simp_all add: s)
  moreover have "take (k + (at + length bs)) ?b = take (k + at) b @ bs"
    using Cons.prems(2) by (cases bs) (auto simp: copy_into_def s min_def)
  moreover have "drop (k + (at + length bs) + length (flat segs)) ?b =
      drop (k + at + length (flat (s # segs))) b"
    using Cons.prems(2) by (simp add: copy_into_def s add.assoc add.commute add.left_commute)
  ultimately show ?case by (simp add: s)
qed simp

section \<open>Reading parameters back\<close>

text \<open>The API description a deserialized one stands for, given the reader of its ranges.\<close>

fun resolve_payload :: "('r ranges \<Rightarrow> 'r list option) \<Rightarrow> ('r ranges, 'd) root_payload \<Rightarrow> ('r list, 'd) root_payload option" where
  "resolve_payload rd (Table t) = map_option Table (rd t)"
| "resolve_payload rd (Constants c) = Some (Constants c)"
| "resolve_payload rd (Cbv d) = Some (Cbv d)"
| "resolve_payload rd (Srv d) = Some (Srv d)"
| "resolve_payload rd (Uav d) = Some (Uav d)"
| "resolve_payload rd (OtherType n) = Some (OtherType n)"

fun resolve_parameters :: "('r ranges \<Rightarrow> 'r list option) \<Rightarrow> ('r ranges, 'd) root_parameter list \<Rightarrow> ('r list, 'd) root_parameter list option" where
  "resolve_parameters rd [] = Some []"
| "resolve_parameters rd (p # ps) = do {
     pl \<leftarrow> resolve_payload rd (payload p); qs \<leftarrow> resolve_parameters rd ps;
     Some (\<lparr>ShaderVisibility = ShaderVisibility p, payload = pl\<rparr> # qs) }"

fun resolve_samplers :: "bytes \<Rightarrow> u32 \<times> nat option \<Rightarrow> static_sampler list option" where
  "resolve_samplers raw (n, None) = Some []"
| "resolve_samplers raw (n, Some p) = read_array sampler_build 13 raw p (unat n)"

definition resolve :: "('r ranges \<Rightarrow> 'r list option) \<Rightarrow> bytes \<Rightarrow> ('r, 'd) read_desc \<Rightarrow> ('r, 'd) api_desc option" where
  "resolve rd raw d = do {
     ps \<leftarrow> resolve_parameters rd (pParameters d); ss \<leftarrow> resolve_samplers raw (pStaticSamplers d);
     Some \<lparr>desc_Flags = desc_Flags d, pParameters = ps, pStaticSamplers = ss\<rparr> }"

text \<open>Parameter types outside the enumeration do not take a value of it.\<close>

fun payload_ok :: "('t, 'd) root_payload \<Rightarrow> bool" where
  "payload_ok (OtherType n) \<longleftrightarrow> 4 < n"
| "payload_ok _ = True"

definition desc_ok :: "('r, 'd) api_desc \<Rightarrow> bool" where
  "desc_ok d \<longleftrightarrow> (\<forall>p \<in> set (pParameters d). payload_ok (payload p))"

lemma unat_of_nat_u32: "n < 2 ^ 32 \<Longrightarrow> unat (of_nat n :: u32) = n"
  by (simp add: unat_of_nat)

locale root_layout = rng: layout rf rb rw + dsc: layout df db dw
  for rf :: "'r \<Rightarrow> u32 list" and rb :: "u32 list \<Rightarrow> 'r option" and rw :: nat
    and df :: "'d \<Rightarrow> u32 list" and db :: "u32 list \<Rightarrow> 'd option" and dw :: nat +
  assumes range_words: "0 < rw" and descriptor_words: "0 < dw"
begin

lemma array_dvd: "4 dvd length (write_array rf rs)"
  by (simp add: rng.length_write_array)

lemma serialize_descriptor_shape:
  "serialize_descriptor df dw d tot = (tot, [(tot, le32s (df d))], tot + 4 * dw)"
proof -
  have "length (le32s (df d)) \<noteq> 0" using descriptor_words by (simp add: dsc.fields_length)
  then have "le32s (df d) \<noteq> []" by force
  then show ?thesis by (simp add: serialize_descriptor_def add_segment_def segment_aligned dsc.fields_length)
qed

lemma serialize_payload_shape:
  assumes "serialize_payload rf rw df dw pl tot = (off, segs, tot')"
  shows "contiguous tot segs \<and> tot' = tot + length (flat segs) \<and> off \<le> tot"
proof (cases pl)
  case (Table rs)
  then show ?thesis
    using assms array_dvd [of rs]
    by (auto simp: add_segment_def contiguous_append contiguous_segment flat_segment raw_table_fields_def
      rng.length_write_array split: if_splits; simp add: write_array_def)
qed (use assms in \<open>auto simp: add_segment_def segment_aligned flat_segment constants_fields_def
  serialize_descriptor_shape dsc.fields_length Let_def\<close>)

lemma serialize_parameters_shape:
  "serialize_parameters rf rw df dw ps tot = (raws, segs, tot') \<Longrightarrow>
    contiguous tot segs \<and> tot' = tot + length (flat segs) \<and> length raws = length ps"
proof (induction ps arbitrary: tot raws segs)
  case (Cons p ps)
  obtain off s1 t1 where 1: "serialize_payload rf rw df dw (payload p) tot = (off, s1, t1)"
    by (metis prod_cases3)
  obtain r2 s2 where 2: "serialize_parameters rf rw df dw ps t1 = (r2, s2, tot')"
    using Cons.prems 1 by (auto split: prod.splits)
  show ?case
    using serialize_payload_shape [OF 1] Cons.IH [OF 2] Cons.prems 1 2
    by (auto simp: contiguous_append split: prod.splits)
qed simp

text \<open>The structures are read from the place where they were written.\<close>

lemma deserialize_payload:
  assumes ser: "serialize_payload rf rw df dw pl tot = (off, segs, tot')"
    and raw: "raw = pre @ flat segs @ post" "length pre = tot" and small: "tot' < 2 ^ 32"
    and ok: "payload_ok pl"
  shows "\<exists>q. deserialize_parameter db dw raw
      \<lparr>raw_ParameterType = ParameterType pl, raw_ShaderVisibility = vis, PayloadOffset = of_nat off\<rparr> =
        Some \<lparr>ShaderVisibility = vis, payload = q\<rparr> \<and>
      resolve_payload (ranges_at rb rw raw) q = Some pl"
proof -
  have off: "unat (of_nat off :: u32) = off"
    using serialize_payload_shape [OF ser] small by (intro unat_of_nat_u32) auto
  have desc: "\<exists>d. read_struct db dw raw off = Some d \<and> d = d0"
    if "serialize_payload rf rw df dw pl tot = serialize_descriptor df dw d0 tot" for d0
    using dsc.read_struct_at [OF raw(2), of d0 post] that ser raw(1)
    by (simp add: serialize_descriptor_shape)
  show ?thesis
  proof (cases pl)
    case (Table rs)
    let ?t = "\<lparr>NumDescriptorRanges = of_nat (length rs), DescriptorRangesOffset = of_nat (tot + 8)\<rparr> :: raw_table"
    have s: "off = tot" "segs = segment tot (le32s (raw_table_fields ?t)) @ segment (tot + 8) (write_array rf rs)"
        "tot' = (if rs = [] then tot + 8 else tot + 8 + 4 * rw * length rs)"
      using ser Table by (auto simp: add_segment_def)
    have raw': "raw = pre @ le32s (raw_table_fields ?t) @ write_array rf rs @ post"
      using raw(1) by (simp add: s(2) flat_segment array_dvd)
    have "length rs \<le> 4 * rw * length rs"
      using mult_le_mono1 [of 1 "4 * rw" "length rs"] range_words by linarith
    moreover have "tot' = tot + 8 + 4 * rw * length rs" using s(3) by simp
    ultimately have "length rs < 2 ^ 32 \<and> tot + 8 < 2 ^ 32" using small by linarith
    then have n: "unat (of_nat (length rs) :: u32) = length rs" and o2: "unat (of_nat (tot + 8) :: u32) = tot + 8"
      using unat_of_nat_u32 by blast+
    have "read_struct raw_table_build 2 raw tot = Some ?t"
      unfolding raw' by (rule raw_table_layout.read_struct_at [OF raw(2)])
    moreover have "read_array rb rw raw (tot + 8) (length rs) = Some rs"
      using rng.read_array_at [of "pre @ le32s (raw_table_fields ?t)" "tot + 8" rs post] raw(2)
      by (simp add: raw' raw_table_fields_def)
    ultimately show ?thesis
      using Table off s(1) n o2 by (simp add: deserialize_parameter_def Let_def del: of_nat_add)
  next
    case (Constants c)
    then have "read_struct constants_build 3 raw off = Some c"
      using constants_layout.read_struct_at [OF raw(2), of c post] ser raw(1)
      by (auto simp: add_segment_def flat_segment constants_fields_def)
    then show ?thesis using Constants off by (simp add: deserialize_parameter_def Let_def)
  next
    case (OtherType n)
    then have "n \<noteq> 0" "n \<noteq> 1" "n \<noteq> 2" "n \<noteq> 3" "n \<noteq> 4" using ok by auto
    then show ?thesis using OtherType by (simp add: deserialize_parameter_def Let_def)
  qed (use desc off in \<open>auto simp: deserialize_parameter_def Let_def\<close>)
qed

text \<open>Reading every parameter of a list of raw parameters.\<close>

fun reads_back :: "bytes \<Rightarrow> raw_parameter list \<Rightarrow> ('r list, 'd) root_parameter list \<Rightarrow> bool" where
  "reads_back raw (rp # rps) (p # ps) \<longleftrightarrow>
     (\<exists>q. deserialize_parameter db dw raw rp = Some \<lparr>ShaderVisibility = ShaderVisibility p, payload = q\<rparr> \<and>
        resolve_payload (ranges_at rb rw raw) q = Some (payload p)) \<and> reads_back raw rps ps"
| "reads_back raw rps ps \<longleftrightarrow> rps = [] \<and> ps = []"

lemma serialize_reads_back:
  assumes "serialize_parameters rf rw df dw ps tot = (raws, segs, tot')"
    and "raw = pre @ flat segs @ post" "length pre = tot" "tot' < 2 ^ 32"
    and "\<forall>p \<in> set ps. payload_ok (payload p)"
  shows "reads_back raw raws ps"
  using assms
proof (induction ps arbitrary: tot raws segs pre)
  case (Cons p ps)
  obtain off s1 t1 where 1: "serialize_payload rf rw df dw (payload p) tot = (off, s1, t1)"
    by (metis prod_cases3)
  obtain r2 s2 where 2: "serialize_parameters rf rw df dw ps t1 = (r2, s2, tot')"
    using Cons.prems(1) 1 by (auto split: prod.splits)
  have r: "raws = \<lparr>raw_ParameterType = ParameterType (payload p), raw_ShaderVisibility = ShaderVisibility p,
      PayloadOffset = of_nat off\<rparr> # r2" "segs = s1 @ s2"
    using Cons.prems(1) 1 2 by auto
  note sh = serialize_payload_shape [OF 1] serialize_parameters_shape [OF 2]
  have "reads_back raw r2 ps"
    using Cons.prems(2-5) sh r(2) by (intro Cons.IH [OF 2, of "pre @ flat s1"]) auto
  moreover have "raw = pre @ flat s1 @ (flat s2 @ post)" using Cons.prems(2) r(2) by simp
  moreover have "t1 < 2 ^ 32" using sh Cons.prems(4) by simp
  ultimately show ?case
    using deserialize_payload [OF 1 _ Cons.prems(3)] Cons.prems(5) by (simp add: r(1))
qed simp

lemma deserialize_parameters_reads_back:
  assumes "reads_back raw raws ps" and "raw = pre @ write_array raw_parameter_fields raws @ post" "length pre = op"
  shows "\<exists>qs. deserialize_parameters db dw raw op (length raws) = Some qs \<and>
    resolve_parameters (ranges_at rb rw raw) qs = Some ps"
  using assms
proof (induction raw raws ps arbitrary: op pre rule: reads_back.induct)
  case (1 raw rp rps p ps)
  have r: "raw = pre @ le32s (raw_parameter_fields rp) @ write_array raw_parameter_fields rps @ post"
    using "1.prems"(2) by (simp add: write_array_def)
  have "length (pre @ le32s (raw_parameter_fields rp)) = op + 12"
    using "1.prems"(3) by (simp add: raw_parameter_layout.fields_length)
  then obtain qs where qs: "deserialize_parameters db dw raw (op + 12) (length rps) = Some qs"
      "resolve_parameters (ranges_at rb rw raw) qs = Some ps"
    using "1.IH" [of "pre @ le32s (raw_parameter_fields rp)" "op + 12"] "1.prems"(1) r by auto
  obtain q where q: "deserialize_parameter db dw raw rp = Some \<lparr>ShaderVisibility = ShaderVisibility p, payload = q\<rparr>"
      "resolve_payload (ranges_at rb rw raw) q = Some (payload p)"
    using "1.prems"(1) by auto
  have "read_struct raw_parameter_build 3 raw op = Some rp"
    using raw_parameter_layout.read_struct_at [OF "1.prems"(3)] by (simp add: r)
  then show ?case using qs q by simp
qed auto

text \<open>The whole body of the blob.\<close>

lemma serialize_segments_shape:
  assumes "serialize_segments version rf rw df dw d = (segs, tot)"
  shows "contiguous 0 segs" "tot = length (flat segs)"
proof -
  obtain raws ps t2 where p: "serialize_parameters rf rw df dw (pParameters d)
      (24 + 12 * NumParameters d) = (raws, ps, t2)" by (metis prod_cases3)
  have len: "length (write_array raw_parameter_fields raws) = 12 * NumParameters d"
      "4 dvd length (write_array raw_parameter_fields raws)"
    using serialize_parameters_shape [OF p] by (simp_all add: raw_parameter_layout.length_write_array NumParameters_def)
  have slen: "length (write_array sampler_fields ss) = 52 * length ss" "4 dvd length (write_array sampler_fields ss)" for ss
    by (simp_all add: sampler_layout.length_write_array)
  have l0: "length (le32s (raw_desc_fields h)) = 24" "4 dvd length (le32s (raw_desc_fields h))" for h
    by (simp_all add: raw_desc_layout.fields_length)
  note sh = serialize_parameters_shape [OF p]
  show "contiguous 0 segs" "tot = length (flat segs)"
    using assms sh p
    by (auto simp: serialize_segments_def add_segment_eq Let_def contiguous_append contiguous_segment flat_segment raw_desc_layout.fields_length len slen)
qed

lemma deserialize_body:
  assumes ser: "serialize_segments version rf rw df dw d = (segs, tot)"
    and small: "tot < 2 ^ 32" and ok: "desc_ok d"
  shows "\<exists>h q. read_struct raw_desc_build 6 (flat segs) 0 = Some h \<and> Version h = version \<and>
    DeserializeVersionedRootSignatureImpl db dw (flat segs) = Some q \<and>
    resolve (ranges_at rb rw (flat segs)) (flat segs) q = Some d"
proof -
  let ?n = "NumParameters d" and ?ss = "pStaticSamplers d"
  obtain raws ps t2 where p: "serialize_parameters rf rw df dw (pParameters d) (24 + 12 * ?n) = (raws, ps, t2)"
    by (metis prod_cases3)
  note sh = serialize_parameters_shape [OF p]
  let ?h = "\<lparr>Version = version, raw_NumParameters = of_nat ?n, RootParametersOffset = of_nat 24,
    raw_NumStaticSamplers = of_nat (length ?ss), StaticSamplersOffset = of_nat t2, raw_Flags = desc_Flags d\<rparr>"
  have tot: "tot = t2 + 52 * length ?ss" "t2 = 24 + 12 * ?n + length (flat ps)"
    using ser p sh by (auto simp: serialize_segments_def add_segment_eq Let_def)
  have pa: "4 dvd length (write_array raw_parameter_fields raws)" "length (write_array raw_parameter_fields raws) = 12 * ?n"
    using sh by (simp_all add: raw_parameter_layout.length_write_array NumParameters_def)
  have sa: "4 dvd length (write_array sampler_fields ?ss)" by (simp add: sampler_layout.length_write_array)
  have ha: "4 dvd length (le32s (raw_desc_fields ?h))" "length (le32s (raw_desc_fields ?h)) = 24"
    by (simp_all add: raw_desc_layout.fields_length)
  define raw where "raw = flat segs"
  have raw: "raw = le32s (raw_desc_fields ?h) @ write_array raw_parameter_fields raws @ flat ps @ write_array sampler_fields ?ss"
    using ser p by (auto simp: raw_def serialize_segments_def add_segment_eq Let_def flat_segment pa sa ha)
  have u: "unat (of_nat ?n :: u32) = ?n" "unat (of_nat t2 :: u32) = t2" "unat (of_nat (length ?ss) :: u32) = length ?ss"
  proof -
    have "?n < 2 ^ 32" "t2 < 2 ^ 32" "length ?ss < 2 ^ 32" using tot small by simp_all
    then show "unat (of_nat ?n :: u32) = ?n" "unat (of_nat t2 :: u32) = t2" "unat (of_nat (length ?ss) :: u32) = length ?ss"
      using unat_of_nat_u32 by blast+
  qed
  have h: "read_struct raw_desc_build 6 raw 0 = Some ?h"
    using raw_desc_layout.read_struct_at [of "[]" 0 ?h] by (simp add: raw)
  have "reads_back raw raws (pParameters d)"
    using tot small ok ha(2) pa(2)
    by (intro serialize_reads_back [OF p, of _ "le32s (raw_desc_fields ?h) @ write_array raw_parameter_fields raws" "write_array sampler_fields ?ss"])
      (auto simp: raw desc_ok_def)
  then obtain qs where qs: "deserialize_parameters db dw raw 24 (length raws) = Some qs"
      "resolve_parameters (ranges_at rb rw raw) qs = Some (pParameters d)"
    using deserialize_parameters_reads_back [of raw raws "pParameters d" "le32s (raw_desc_fields ?h)" "flat ps @ write_array sampler_fields ?ss" 24] ha(2)
    by (auto simp: raw)
  have lr: "length raws = ?n" using sh by (simp add: NumParameters_def)
  have ss: "read_array sampler_build 13 raw t2 (length ?ss) = Some ?ss"
    using sampler_layout.read_array_at [of "le32s (raw_desc_fields ?h) @ write_array raw_parameter_fields raws @ flat ps" t2 ?ss "[]"]
      ha(2) pa(2) tot by (simp add: raw)
  let ?q = "\<lparr>desc_Flags = desc_Flags d, pParameters = qs, pStaticSamplers = (of_nat (length ?ss),
      if (of_nat (length ?ss) :: u32) \<noteq> 0 then Some t2 else None)\<rparr>"
  have "DeserializeVersionedRootSignatureImpl db dw raw = Some ?q"
    using qs(1) lr u by (simp add: DeserializeVersionedRootSignatureImpl_def h)
  moreover have "resolve_samplers raw (pStaticSamplers ?q) = Some ?ss"
    using ss u(3) by (cases "(of_nat (length ?ss) :: u32) = 0") auto
  then have "resolve (ranges_at rb rw raw) raw ?q = Some d"
    using qs(2) by (simp add: resolve_def)
  ultimately show ?thesis using h unfolding raw_def [symmetric] by auto
qed

end

section \<open>The container around the body\<close>

lemma hash_words: "\<exists>a b c d. hashDxbcBinary x = le32s [a, b, c, d]"
  by (simp add: represents_dxbc digest_def split: prod.splits) blast

text \<open>A container with one blob, as \<open>SerializeVersionedRootSignatureImpl\<close> writes it.\<close>

definition one_blob :: "u32 \<times> u32 \<times> u32 \<times> u32 \<Rightarrow> bytes \<Rightarrow> bytes" where
  "one_blob hash body = (case hash of (a, b, c, d) \<Rightarrow>
     le32s [DXBC_FOURCC_NAME, a, b, c, d, 1, of_nat (44 + length body), 1, 36, DXBC_RootSignature,
       of_nat (length body)] @ body)"

lemma replicate_numeral_16: "replicate 16 x = [x, x, x, x, x, x, x, x, x, x, x, x, x, x, x, x]"
  by (simp add: eval_nat_numeral)

lemma blob_header_words:
  "blob_header n k = le32s [DXBC_FOURCC_NAME, 0, 0, 0, 0, 1, of_nat n, 1, 36, DXBC_RootSignature, of_nat k]"
  by (simp add: blob_header_def le32_def le16_def replicate_numeral_16)

lemma serialize_one_blob:
  assumes "contiguous 0 segs" "tot = length (flat segs)"
  shows "\<exists>hash. (let TotalSize = 44 + tot;
          blob = copy_into (map uninit [0..<TotalSize]) 0 (blob_header TotalSize tot);
          blob = fold (\<lambda>(off, bs) b. copy_into b (44 + off) bs) segs blob
      in copy_into blob 4 (hashDxbcBinary blob)) = one_blob hash (flat segs)"
proof -
  let ?b0 = "copy_into (map uninit [0..<44 + tot]) 0 (blob_header (44 + tot) tot)"
  let ?b1 = "fold (\<lambda>(off, bs) b. copy_into b (44 + off) bs) segs ?b0"
  have hl: "length (blob_header (44 + tot) tot) = 44" by (simp add: blob_header_words)
  have l0: "length ?b0 = 44 + tot" using hl by (simp del: upt_Suc)
  have "?b1 = take (44 + 0) ?b0 @ flat segs @ drop (44 + 0 + length (flat segs)) ?b0"
    using l0 assms by (intro fold_copy) simp_all
  then have b1: "?b1 = blob_header (44 + tot) tot @ flat segs"
    using l0 hl assms(2) by (simp add: copy_into_def)
  obtain a b c d where h: "hashDxbcBinary ?b1 = le32s [a, b, c, d]" using hash_words by blast
  have "copy_into ?b1 4 (le32s [a, b, c, d]) = one_blob (a, b, c, d) (flat segs)"
    unfolding b1 by (simp add: blob_header_words copy_into_def one_blob_def assms(2))
  then show ?thesis unfolding Let_def h by blast
qed

lemma get_root_signature_one_blob:
  assumes small: "44 + length body < 2 ^ 32" and ne: "body \<noteq> []"
  shows "DXBCGetRootSignature (one_blob hash body) (Some 0) = Some (Inr (44, of_nat (length body)))"
proof -
  obtain a b c d where hash: "hash = (a, b, c, d)" by (cases hash)
  let ?ws = "[DXBC_FOURCC_NAME, a, b, c, d, 1, of_nat (44 + length body), 1, 36, DXBC_RootSignature, of_nat (length body)]"
  define M where "M = one_blob hash body"
  have m: "M = le32s ?ws @ body" by (simp add: M_def one_blob_def hash)
  have rd: "rd32 M (4 * i) = Some (?ws ! i)" if "i < 11" for i
    unfolding m using that by (intro rd32_le32s) simp
  have v: "rd16 M 20 = Some 1" "rd16 M 22 = Some 0"
    using rd16_le32s [of 5 ?ws body] unfolding m by simp_all
  let ?h = "\<lparr>DXBCHeaderFourCC = DXBC_FOURCC_NAME, VersionMajor = 1, VersionMinor = 0,
    ContainerSizeInBytes = of_nat (44 + length body), BlobCount = 1\<rparr>"
  have h: "rd_header M 0 = Some ?h"
    using rd [of 0] rd [of 6] rd [of 7] v by (simp add: rd_header_def)
  have words: "rd32 M 24 = Some (of_nat (44 + length body))" "rd32 M 32 = Some 36"
      "rd32 M 36 = Some DXBC_RootSignature" "rd32 M 40 = Some (of_nat (length body))"
    using rd [of 6] rd [of 8] rd [of 9] rd [of 10] by simp_all
  have usz: "unat (of_nat (44 + length body) :: u32) = 44 + length body"
    using small by (rule unat_of_nat_u32)
  have ulen: "unat (of_nat (length body) :: u32) = length body"
    using small by (intro unat_of_nat_u32) simp
  let ?cur = "ucast (ucast (36 :: u32) + 8 + ucast (of_nat (length body) :: u32) - 1 :: u64) :: u32"
  have up: "(ucast (of_nat (length body) :: u32) :: u64) = of_nat (length body)"
    using ulen by (metis of_nat_unat)
  have e: "(ucast (36 :: u32) + 8 + ucast (of_nat (length body) :: u32) :: u64) = of_nat (44 + length body)"
    "(of_nat (44 + length body) - 1 :: u64) = of_nat (43 + length body)"
    by (simp_all add: up)
  have "unat (of_nat (43 + length body) :: u64) = 43 + length body"
    using small by (simp only: unat_of_nat) simp
  then have cur: "(ucast (of_nat (43 + length body) :: u64) :: u32) = of_nat (43 + length body)"
    by (metis of_nat_unat)
  have "unat (of_nat (43 + length body) :: u32) = 43 + length body"
    using small by (intro unat_of_nat_u32) simp
  then have le: "(of_nat (43 + length body) :: u32) \<le> of_nat (44 + length body)"
    using usz by (simp only: word_le_nat_alt)
  have u44: "unat (of_nat (44 + length body) :: u64) = 44 + length body"
    using small by (simp only: unat_of_nat) simp
  have nw: "\<not> (of_nat (44 + length body) :: u64) < ucast (36 :: u32)"
    unfolding word_less_nat_alt u44 by simp
  have c1: "check_blobs M 0 (of_nat (44 + length body)) 1 1 x = Some S_OK" for x
    by (subst check_blobs.simps) simp
  have nw': "\<not> (44 + of_nat (length body) :: u64) < 36" using nw by simp
  have cur': "(ucast (43 + of_nat (length body) :: u64) :: u32) = of_nat (43 + length body)"
    using cur by simp
  have cb: "check_blobs M 0 (of_nat (44 + length body)) 1 0 35 = Some S_OK"
    using words usz le nw' c1 up
    by (subst check_blobs.simps)
      (simp add: sizeof_DXBCHeader_def sizeof_DXBCBlobHeader_def Let_def cur' not_less del: of_nat_add)
  have le35: "(35 :: u32) \<le> of_nat (44 + length body)"
    unfolding word_le_nat_alt usz by simp
  let ?P = "\<lparr>m_pHeader = Some 0, m_pIndex = Some 32\<rparr>"
  have rdx: "ReadDXBCAssumingValidSize M (Some 0) CDXBCParser = Some (S_OK, ?P)"
    using words h usz cb le35
    by (simp add: ReadDXBCAssumingValidSize_def DXBCGetSizeAssumingValidPointer_def ReadDXBC_def
      sizeof_DXBCHeader_def Let_def CDXBCParser_def not_less del: of_nat_add)
  have find: "FindNextMatchingBlob M ?P DXBC_RootSignature 0 = Some 0"
    using h words by (simp add: FindNextMatchingBlob_def find_blob.simps)
  have blob: "blob_at M ?P 0 = Some (Some 36)"
    using h words by (simp add: blob_at_def)
  have "(of_nat (length body) :: u32) \<noteq> 0" using ulen ne by (metis length_0_conv unsigned_0)
  then show ?thesis
    unfolding M_def [symmetric]
    using rdx find blob words
    by (simp add: DXBCGetRootSignature_def GetBlob_def GetBlobSize_def sizeof_DXBCBlobHeader_def
      DXBC_BLOB_NOT_FOUND_def)
qed

text \<open>What the deserializer finds in the blob of a serialized description.\<close>

context root_layout
begin

lemma length_serialized:
  "length (SerializeVersionedRootSignatureImpl version rf rw df dw uninit d) =
    44 + snd (serialize_segments version rf rw df dw d)"
proof -
  obtain segs tot where ser: "serialize_segments version rf rw df dw d = (segs, tot)" by fastforce
  obtain hash where "SerializeVersionedRootSignatureImpl version rf rw df dw uninit d = one_blob hash (flat segs)"
    using serialize_one_blob [OF serialize_segments_shape [OF ser], of uninit]
    by (auto simp: SerializeVersionedRootSignatureImpl_def ser)
  then show ?thesis
    using serialize_segments_shape(2) [OF ser] by (simp add: ser one_blob_def split: prod.splits)
qed

lemma serialized_blob:
  assumes blob: "SerializeVersionedRootSignatureImpl version rf rw df dw uninit d = blob"
    and small: "length blob < 2 ^ 32" and ok: "desc_ok d"
  shows "\<exists>raw h q. length raw < 2 ^ 32 \<and> length blob = 44 + length raw \<and> drop 44 blob = raw \<and>
    DXBCGetRootSignature blob (Some 0) = Some (Inr (44, of_nat (length raw))) \<and>
    read_struct raw_desc_build 6 raw 0 = Some h \<and> Version h = version \<and>
    DeserializeVersionedRootSignatureImpl db dw raw = Some q \<and> resolve (ranges_at rb rw raw) raw q = Some d"
proof -
  obtain segs tot where ser: "serialize_segments version rf rw df dw d = (segs, tot)" by fastforce
  note sh = serialize_segments_shape [OF ser]
  obtain hash where b: "blob = one_blob hash (flat segs)"
    using serialize_one_blob [OF sh, of uninit] blob by (auto simp: SerializeVersionedRootSignatureImpl_def ser)
  have len: "length blob = 44 + length (flat segs)" "drop 44 blob = flat segs"
    by (simp_all add: b one_blob_def split: prod.splits)
  obtain h q where body: "read_struct raw_desc_build 6 (flat segs) 0 = Some h" "Version h = version"
      "DeserializeVersionedRootSignatureImpl db dw (flat segs) = Some q"
      "resolve (ranges_at rb rw (flat segs)) (flat segs) q = Some d"
    using deserialize_body [OF ser _ ok] small len(1) sh(2) by auto
  have "flat segs \<noteq> []" using body(1) by (auto simp: read_struct_def rd32_def numeral_eq_Suc split: bind_splits)
  then have "DXBCGetRootSignature blob (Some 0) = Some (Inr (44, of_nat (length (flat segs))))"
    using small len(1) unfolding b by (intro get_root_signature_one_blob) simp_all
  then show ?thesis using body len small by auto
qed

end

section \<open>Conversion between the versions\<close>

definition map_desc :: "('r \<Rightarrow> 'q) \<Rightarrow> ('d \<Rightarrow> 'e) \<Rightarrow> ('r, 'd) api_desc \<Rightarrow> ('q, 'e) api_desc" where
  "map_desc f g d = \<lparr>desc_Flags = desc_Flags d,
     pParameters = map (\<lambda>p. \<lparr>ShaderVisibility = ShaderVisibility p, payload = map_root_payload (map f) g (payload p)\<rparr>) (pParameters d),
     pStaticSamplers = pStaticSamplers d\<rparr>"

definition no_empty_table :: "('r, 'd) api_desc \<Rightarrow> bool" where
  "no_empty_table d \<longleftrightarrow> (\<forall>p \<in> set (pParameters d). payload p \<noteq> Table [])"

lemma read_array_length: "read_array b w m i n = Some xs \<Longrightarrow> length xs = n"
  by (induction n arbitrary: i xs) (auto split: bind_splits)

lemma ranges_at_length: "ranges_at b w raw t = Some rs \<Longrightarrow> NumRanges t = length rs"
  by (cases t) (auto dest: read_array_length)

lemma convert_payload_resolves:
  assumes "resolve_payload (ranges_at b w raw) q = Some pl"
  shows "if pl = Table [] then convert_payload (ranges_at b w raw) cr cd q = Some (Inl E_OUTOFMEMORY)
    else \<exists>q'. convert_payload (ranges_at b w raw) cr cd q = Some (Inr q') \<and>
      resolve_payload (ranges_at b' w' raw) q' = Some (map_root_payload (map cr) cd pl)"
  using assms by (cases q) (auto dest: ranges_at_length)

lemma convert_resolves:
  assumes "resolve_parameters (ranges_at b w raw) qs = Some ps" and "\<forall>p \<in> set ps. payload p \<noteq> Table []"
  shows "\<exists>qs'. convert_parameters (ranges_at b w raw) cr cd qs = Some (Inr qs') \<and>
    resolve_parameters (ranges_at b' w' raw) qs' =
      Some (map (\<lambda>p. \<lparr>ShaderVisibility = ShaderVisibility p, payload = map_root_payload (map cr) cd (payload p)\<rparr>) ps)"
  using assms
proof (induction qs arbitrary: ps)
  case (Cons q qs)
  obtain pl ps' where p: "resolve_payload (ranges_at b w raw) (payload q) = Some pl"
      "resolve_parameters (ranges_at b w raw) qs = Some ps'"
      "ps = \<lparr>ShaderVisibility = ShaderVisibility q, payload = pl\<rparr> # ps'"
    using Cons.prems(1) by (auto split: bind_splits)
  obtain q' where "convert_payload (ranges_at b w raw) cr cd (payload q) = Some (Inr q')"
      "resolve_payload (ranges_at b' w' raw) q' = Some (map_root_payload (map cr) cd pl)"
    using convert_payload_resolves [OF p(1), of cr cd b' w'] Cons.prems(2) p(3) by (auto split: if_splits)
  moreover obtain qs' where "convert_parameters (ranges_at b w raw) cr cd qs = Some (Inr qs')"
      "resolve_parameters (ranges_at b' w' raw) qs' =
        Some (map (\<lambda>p. \<lparr>ShaderVisibility = ShaderVisibility p, payload = map_root_payload (map cr) cd (payload p)\<rparr>) ps')"
    using Cons.IH [OF p(2)] Cons.prems(2) p(3) by auto
  ultimately show ?case by (simp add: p(3))
qed simp

lemma convert_empty_table:
  assumes "resolve_parameters (ranges_at b w raw) qs = Some ps" and "\<exists>p \<in> set ps. payload p = Table []"
  shows "convert_parameters (ranges_at b w raw) cr cd qs = Some (Inl E_OUTOFMEMORY)"
  using assms
proof (induction qs arbitrary: ps)
  case (Cons q qs)
  obtain pl ps' where p: "resolve_payload (ranges_at b w raw) (payload q) = Some pl"
      "resolve_parameters (ranges_at b w raw) qs = Some ps'"
      "ps = \<lparr>ShaderVisibility = ShaderVisibility q, payload = pl\<rparr> # ps'"
    using Cons.prems(1) by (auto split: bind_splits)
  note c = convert_payload_resolves [OF p(1), where cr = cr and cd = cd]
  show ?case
  proof (cases "pl = Table []")
    case False
    then have "convert_parameters (ranges_at b w raw) cr cd qs = Some (Inl E_OUTOFMEMORY)"
      using Cons.prems(2) p(3) by (intro Cons.IH [OF p(2)]) auto
    moreover obtain q' where "convert_payload (ranges_at b w raw) cr cd (payload q) = Some (Inr q')"
      using c False by auto
    ultimately show ?thesis by simp
  qed (use c in simp)
qed simp

lemma ConvertVersionedRootSignature_resolves:
  assumes "resolve (ranges_at b w raw) raw q = Some d"
  shows "no_empty_table d \<Longrightarrow>
      \<exists>q'. ConvertVersionedRootSignature (ranges_at b w raw) cr cd q = Some (Inr q') \<and>
        resolve (ranges_at b' w' raw) raw q' = Some (map_desc cr cd d)"
    and "\<not> no_empty_table d \<Longrightarrow>
      ConvertVersionedRootSignature (ranges_at b w raw) cr cd q = Some (Inl E_OUTOFMEMORY)"
proof -
  obtain ss where r: "resolve_parameters (ranges_at b w raw) (pParameters q) = Some (pParameters d)"
      "resolve_samplers raw (pStaticSamplers q) = Some (pStaticSamplers d)" "desc_Flags d = desc_Flags q"
    using assms by (auto simp: resolve_def split: bind_splits)
  show "no_empty_table d \<Longrightarrow> \<exists>q'. ConvertVersionedRootSignature (ranges_at b w raw) cr cd q = Some (Inr q') \<and>
        resolve (ranges_at b' w' raw) raw q' = Some (map_desc cr cd d)"
    using convert_resolves [OF r(1), of cr cd b' w'] r(2,3)
    by (auto simp: no_empty_table_def ConvertVersionedRootSignature_def resolve_def map_desc_def)
  show "\<not> no_empty_table d \<Longrightarrow> ConvertVersionedRootSignature (ranges_at b w raw) cr cd q = Some (Inl E_OUTOFMEMORY)"
    using convert_empty_table [OF r(1), of cr cd] by (auto simp: no_empty_table_def ConvertVersionedRootSignature_def)
qed

section \<open>Both versions\<close>

interpretation v0: root_layout range_fields range_build 5 descriptor_fields descriptor_build 2
  by unfold_locales simp_all
interpretation v1: root_layout range1_fields range1_build 6 descriptor1_fields descriptor1_build 3
  by unfold_locales simp_all

lemma serialized_1_1:
  "D3D12SerializeVersionedRootSignature uninit (Api_1_1 d) True = Inr blob \<Longrightarrow>
    SerializeVersionedRootSignatureImpl D3D_ROOT_SIGNATURE_VERSION_1_1 range1_fields 6 descriptor1_fields 3 uninit d = blob"
  by (simp add: D3D12SerializeVersionedRootSignature_def)

lemma serialized_1_0:
  "D3D12SerializeRootSignature uninit d D3D_ROOT_SIGNATURE_VERSION_1_0 True = Inr blob \<Longrightarrow>
    SerializeVersionedRootSignatureImpl D3D_ROOT_SIGNATURE_VERSION_1_0 range_fields 5 descriptor_fields 2 uninit d = blob"
  by (simp add: D3D12SerializeRootSignature_def D3D12SerializeVersionedRootSignature_def)

lemma create_of_serialized:
  assumes "DXBCGetRootSignature blob (Some 0) = Some (Inr (44, of_nat (length raw)))"
    "length blob = 44 + length raw" "drop 44 blob = raw" "length raw < 2 ^ 32"
  shows "CreateVersionedRootSignatureDeserializer blob (Some 0) = Deserialize raw"
  using assms unat_of_nat_u32 [of "length raw"] by (simp add: CreateVersionedRootSignatureDeserializer_def)

section \<open>Properties\<close>

text \<open>Descriptions for the witnesses, one per version; the last parameter has an unknown type.\<close>

definition sample_sampler :: static_sampler where
  "sample_sampler = \<lparr>ss_Filter = 0x15, ss_AddressU = 1, ss_AddressV = 1, ss_AddressW = 3, ss_MipLODBias = 0,
     ss_MaxAnisotropy = 16, ss_ComparisonFunc = 4, ss_BorderColor = 2, ss_MinLOD = 0, ss_MaxLOD = 0x7f7fffff,
     ss_ShaderRegister = 2, ss_RegisterSpace = 0, ss_ShaderVisibility = 5\<rparr>"

definition sample_desc1 :: "(descriptor_range1, root_descriptor1) api_desc" where
  "sample_desc1 = \<lparr>desc_Flags = 1, pParameters =
     [\<lparr>ShaderVisibility = 0, payload = Table
        [\<lparr>RangeType = 0, NumDescriptors = 8, BaseShaderRegister = 0, RegisterSpace = 1,
           OffsetInDescriptorsFromTableStart = 0, RangeFlags = 4\<rparr>,
         \<lparr>RangeType = 1, NumDescriptors = 2, BaseShaderRegister = 0, RegisterSpace = 0,
           OffsetInDescriptorsFromTableStart = 0xffffffff, RangeFlags = 0\<rparr>]\<rparr>,
      \<lparr>ShaderVisibility = 1, payload = Constants \<lparr>rc_ShaderRegister = 0, rc_RegisterSpace = 0, rc_Num32BitValues = 5\<rparr>\<rparr>,
      \<lparr>ShaderVisibility = 5, payload = Cbv \<lparr>rd_ShaderRegister = 1, rd_RegisterSpace = 0, rd_Flags = 8\<rparr>\<rparr>,
      \<lparr>ShaderVisibility = 0, payload = OtherType 9\<rparr>],
     pStaticSamplers = [sample_sampler]\<rparr>"

definition sample_desc0 :: "(descriptor_range, root_descriptor) api_desc" where
  "sample_desc0 = map_desc range_to_0 descriptor_to_0 sample_desc1"

definition empty_table_desc :: "(descriptor_range1, root_descriptor1) api_desc" where
  "empty_table_desc = \<lparr>desc_Flags = 0, pParameters = [\<lparr>ShaderVisibility = 0, payload = Table []\<rparr>], pStaticSamplers = []\<rparr>"

lemma sample_desc_ok: "desc_ok sample_desc1" "no_empty_table sample_desc1" "desc_ok sample_desc0"
    "no_empty_table sample_desc0" "desc_ok empty_table_desc" "\<not> no_empty_table empty_table_desc"
  by (simp_all add: desc_ok_def no_empty_table_def sample_desc0_def map_desc_def sample_desc1_def empty_table_desc_def)

lemma sample_sizes:
  "snd (serialize_segments v range1_fields 6 descriptor1_fields 3 sample_desc1) = 204"
  "snd (serialize_segments v range_fields 5 descriptor_fields 2 sample_desc0) = 192"
  "snd (serialize_segments v range1_fields 6 descriptor1_fields 3 empty_table_desc) = 44"
  by (simp_all add: serialize_segments_def add_segment_eq Let_def NumParameters_def sample_desc0_def map_desc_def
    sample_desc1_def empty_table_desc_def serialize_descriptor_def)



text \<open>
  A version 1.0 root signature survives the round trip too; at version 1.1 its descriptors and
  the data of all ranges but samplers are marked volatile.
\<close>

theorem root_signature_roundtrip_1_0:
  assumes "D3D12SerializeRootSignature uninit d D3D_ROOT_SIGNATURE_VERSION_1_0 True = Inr blob" "length blob < 2 ^ 32"
    and "desc_ok d" "no_empty_table d"
  shows "\<exists>r. CreateVersionedRootSignatureDeserializer blob (Some 0) = Some (Inr r) \<and>
    resolve (ranges_at range_build 5 (raw_root_sig r)) (raw_root_sig r) (desc_1_0 r) = Some d \<and>
    resolve (ranges_at range1_build 6 (raw_root_sig r)) (raw_root_sig r) (desc_1_1 r) =
      Some (map_desc range_to_1 descriptor_to_1 d)"
proof -
  obtain raw h q where s: "length raw < 2 ^ 32" "length blob = 44 + length raw" "drop 44 blob = raw"
      "DXBCGetRootSignature blob (Some 0) = Some (Inr (44, of_nat (length raw)))"
      "read_struct raw_desc_build 6 raw 0 = Some h" "Version h = D3D_ROOT_SIGNATURE_VERSION_1_0"
      "DeserializeVersionedRootSignatureImpl descriptor_build 2 raw = Some q"
      "resolve (ranges_at range_build 5 raw) raw q = Some d"
    using v0.serialized_blob [OF serialized_1_0 [OF assms(1)] assms(2,3)] by blast
  show ?thesis
    using create_of_serialized [OF s(4,2,3,1)]
      ConvertVersionedRootSignature_resolves(1) [OF s(8) assms(4), of range_to_1 descriptor_to_1 range1_build 6] s(5-8)
    by (auto simp: Deserialize_def)
qed

lemma root_signature_roundtrip_1_0_witness:
  "\<exists>blob r. D3D12SerializeRootSignature (\<lambda>_. 0xcc) sample_desc0 D3D_ROOT_SIGNATURE_VERSION_1_0 True = Inr blob \<and>
    CreateVersionedRootSignatureDeserializer blob (Some 0) = Some (Inr r) \<and>
    resolve (ranges_at range_build 5 (raw_root_sig r)) (raw_root_sig r) (desc_1_0 r) = Some sample_desc0"
proof -
  obtain blob where b: "D3D12SerializeRootSignature (\<lambda>_. 0xcc) sample_desc0 D3D_ROOT_SIGNATURE_VERSION_1_0 True = Inr blob"
    by (simp add: D3D12SerializeRootSignature_def D3D12SerializeVersionedRootSignature_def)
  have "length blob < 2 ^ 32"
    using v0.length_serialized [of D3D_ROOT_SIGNATURE_VERSION_1_0 "\<lambda>_. 0xcc" sample_desc0]
    by (simp add: serialized_1_0 [OF b] sample_sizes)
  from root_signature_roundtrip_1_0 [OF b this sample_desc_ok(3,4)] b show ?thesis by blast
qed

text \<open>
  A description with an empty descriptor table is serialized, but the blob is refused with
  \<open>E_OUTOFMEMORY\<close>: the conversion to the other version takes the null pointer that
  \<open>AllocateBuffer\<close> returns for a count of 0 for a failed allocation.
\<close>

theorem empty_table_refused:
  assumes "D3D12SerializeVersionedRootSignature uninit (Api_1_1 d) True = Inr blob" "length blob < 2 ^ 32"
    and "desc_ok d" "\<not> no_empty_table d"
  shows "CreateVersionedRootSignatureDeserializer blob (Some 0) = Some (Inl E_OUTOFMEMORY)"
proof -
  obtain raw h q where s: "length raw < 2 ^ 32" "length blob = 44 + length raw" "drop 44 blob = raw"
      "DXBCGetRootSignature blob (Some 0) = Some (Inr (44, of_nat (length raw)))"
      "read_struct raw_desc_build 6 raw 0 = Some h" "Version h = D3D_ROOT_SIGNATURE_VERSION_1_1"
      "DeserializeVersionedRootSignatureImpl descriptor1_build 3 raw = Some q"
      "resolve (ranges_at range1_build 6 raw) raw q = Some d"
    using v1.serialized_blob [OF serialized_1_1 [OF assms(1)] assms(2,3)] by blast
  show ?thesis
    using create_of_serialized [OF s(4,2,3,1)]
      ConvertVersionedRootSignature_resolves(2) [OF s(8) assms(4), of range_to_0 descriptor_to_0] s(5-8)
    by (auto simp: Deserialize_def D3D_ROOT_SIGNATURE_VERSION_1_0_def D3D_ROOT_SIGNATURE_VERSION_1_1_def)
qed

lemma empty_table_refused_witness:
  "\<exists>blob. D3D12SerializeVersionedRootSignature (\<lambda>_. 0xcc) (Api_1_1 empty_table_desc) True = Inr blob \<and>
    CreateVersionedRootSignatureDeserializer blob (Some 0) = Some (Inl E_OUTOFMEMORY)"
proof -
  obtain blob where b: "D3D12SerializeVersionedRootSignature (\<lambda>_. 0xcc) (Api_1_1 empty_table_desc) True = Inr blob"
    by (simp add: D3D12SerializeVersionedRootSignature_def)
  have "length blob < 2 ^ 32"
    using v1.length_serialized [of D3D_ROOT_SIGNATURE_VERSION_1_1 "\<lambda>_. 0xcc" empty_table_desc]
    by (simp add: serialized_1_1 [OF b] sample_sizes)
  from empty_table_refused [OF b this sample_desc_ok(5,6)] b show ?thesis by blast
qed

end
