(* ===== verification/RootInitialize.thy ===== *)
theory RootInitialize
  imports RootRoundtrip
begin

text \<open>
  \<open>MTLD3D12RootSignatureImpl::Initialize\<close> of \<open>src/d3d12/d3d12_root_signature.cpp\<close>: the
  validation of a root signature and the layout of its argument buffer.  The creation of a
  Metal sampler is the parameter \<open>mk\<close>: it gives the two handles and the bits of the LOD bias
  of the sampler.  The theory proves which signatures are accepted, on the blob of the
  serializer, and that the argument slots are disjoint and in bounds.
\<close>

section \<open>The code\<close>

definition D3D12_MAX_ROOT_COST :: nat where "D3D12_MAX_ROOT_COST = 64"

text \<open>
  \<open>CalculateRootSignatureQwordOffsets\<close>, from \<open>current_offset\<close>; \<open>Num / 2 + (Num & 1)\<close> qwords
  hold the constants.
\<close>

fun CalculateRootSignatureQwordOffsets :: "('t, 'd) root_parameter list \<Rightarrow> u32 \<Rightarrow> u32 list \<times> u32" where
  "CalculateRootSignatureQwordOffsets [] current_offset = ([], current_offset)"
| "CalculateRootSignatureQwordOffsets (p # ps) current_offset =
     (case payload p of
        Table _ \<Rightarrow> (let (out, tot) = CalculateRootSignatureQwordOffsets ps (current_offset + 1) in (current_offset # out, tot))
      | Constants c \<Rightarrow>
          (let (out, tot) = CalculateRootSignatureQwordOffsets ps
             (current_offset + (rc_Num32BitValues c div 2 + (rc_Num32BitValues c AND 1)))
           in (current_offset # out, tot))
      | OtherType _ \<Rightarrow> CalculateRootSignatureQwordOffsets ps current_offset
      | _ \<Rightarrow> (let (out, tot) = CalculateRootSignatureQwordOffsets ps (current_offset + 1) in (current_offset # out, tot)))"

text \<open>The loop over the ranges of a table: whether it has normal and sampler ranges.\<close>

fun check_ranges :: "descriptor_range1 list \<Rightarrow> bool \<Rightarrow> bool \<Rightarrow> hresult + bool \<times> bool" where
  "check_ranges [] is_normal_range is_sampler_range = Inr (is_normal_range, is_sampler_range)"
| "check_ranges (r # rs) is_normal_range is_sampler_range =
     (if RangeType r \<in> {0, 1, 2} then check_ranges rs True is_sampler_range
      else if RangeType r = D3D12_DESCRIPTOR_RANGE_TYPE_SAMPLER then check_ranges rs is_normal_range True
      else Inl E_INVALIDARG)"

text \<open>The cost of one parameter, after its checks; \<open>rd\<close> reads the ranges of a table.\<close>

fun parameter_cost ::
  "(descriptor_range1 ranges \<Rightarrow> descriptor_range1 list option) \<Rightarrow> (descriptor_range1 ranges, root_descriptor1) root_payload \<Rightarrow>
   (hresult + u64) option" where
  "parameter_cost rd (Table t) =
     rd t \<bind> (\<lambda>rs. and_then (Some (check_ranges rs False False)) (\<lambda>(is_normal_range, is_sampler_range).
       if is_normal_range \<and> is_sampler_range then Some (Inl E_INVALIDARG) else Some (Inr 1)))"
| "parameter_cost rd (Constants c) = Some (Inr (ucast (rc_Num32BitValues c)))"
| "parameter_cost rd (OtherType n) = Some (Inl E_INVALIDARG)"
| "parameter_cost rd _ = Some (Inr 2)"

fun dword_count :: "('t, 'd) root_payload \<Rightarrow> u32" where
  "dword_count (Constants c) = rc_Num32BitValues c"
| "dword_count _ = 0"

text \<open>The parameter loop: the types and the counts that are pushed.\<close>

fun check_parameters ::
  "(descriptor_range1 ranges \<Rightarrow> descriptor_range1 list option) \<Rightarrow>
   (descriptor_range1 ranges, root_descriptor1) root_parameter list \<Rightarrow> u64 \<Rightarrow> (hresult + u32 list \<times> u32 list) option" where
  "check_parameters rd [] root_cost = Some (Inr ([], []))"
| "check_parameters rd (p # ps) root_cost =
     and_then (parameter_cost rd (payload p)) (\<lambda>c.
       if root_cost + c > of_nat D3D12_MAX_ROOT_COST then Some (Inl E_INVALIDARG)
       else and_then (check_parameters rd ps (root_cost + c)) (\<lambda>(types, counts).
         Some (Inr (ParameterType (payload p) # types, dword_count (payload p) # counts))))"

record root_signature =
  qword_offsets :: "u32 list"
  parameter_types :: "u32 list"
  parameter_dword_counts :: "u32 list"
  static_samplers_encoded :: "u64 list"
  NumStaticSamplers :: u32
  UploadQwords :: u32
  ParameterSlots :: nat

definition encode_sampler :: "(static_sampler \<Rightarrow> u64 \<times> u64 \<times> u32) \<Rightarrow> static_sampler \<Rightarrow> u64 list" where
  "encode_sampler mk s = (case mk s of (handle, cube_handle, lod_bias) \<Rightarrow> [handle, cube_handle, ucast lod_bias, 0])"

definition initialize_from :: "(static_sampler \<Rightarrow> u64 \<times> u64 \<times> u32) \<Rightarrow> deserializer \<Rightarrow> (hresult + root_signature) option" where
  "initialize_from mk deserializer =
     (let desc = desc_1_1 deserializer; raw = raw_root_sig deserializer;
          rd = ranges_at range1_build 6 raw
      in if NumParameters desc > D3D12_MAX_ROOT_COST then Some (Inl E_INVALIDARG)
         else and_then (check_parameters rd (pParameters desc) 0) (\<lambda>(types, counts). do {
           ss \<leftarrow> resolve_samplers raw (pStaticSamplers desc);
           let (offsets, total_qwords) = CalculateRootSignatureQwordOffsets (pParameters desc) 0;
           Some (Inr \<lparr>qword_offsets = offsets, parameter_types = types, parameter_dword_counts = counts,
             static_samplers_encoded = concat (map (encode_sampler mk) ss),
             NumStaticSamplers = fst (pStaticSamplers desc), UploadQwords = total_qwords,
             ParameterSlots = length offsets\<rparr>) }))"

definition Initialize :: "(static_sampler \<Rightarrow> u64 \<times> u64 \<times> u32) \<Rightarrow> bytes \<Rightarrow> (hresult + root_signature) option" where
  "Initialize mk blob =
     and_then (DXBCGetRootSignature blob (if blob = [] then None else Some 0)) (\<lambda>(q, n).
       if q + unat n > length blob then None
       else and_then (Deserialize (take (unat n) (drop q blob))) (initialize_from mk))"

section \<open>Valid root signatures\<close>

text \<open>The rules of a root signature, on its description.\<close>

fun payload_valid :: "(descriptor_range1 list, root_descriptor1) root_payload \<Rightarrow> bool" where
  "payload_valid (Table rs) \<longleftrightarrow> (\<forall>r \<in> set rs. RangeType r \<le> 3) \<and>
     ((\<forall>r \<in> set rs. RangeType r = 3) \<or> (\<forall>r \<in> set rs. RangeType r \<noteq> 3))"
| "payload_valid (OtherType n) = False"
| "payload_valid _ = True"

fun payload_cost :: "('t, 'd) root_payload \<Rightarrow> nat" where
  "payload_cost (Table _) = 1"
| "payload_cost (Constants c) = unat (rc_Num32BitValues c)"
| "payload_cost (OtherType _) = 0"
| "payload_cost _ = 2"

definition root_valid :: "(descriptor_range1, root_descriptor1) api_desc \<Rightarrow> bool" where
  "root_valid d \<longleftrightarrow> NumParameters d \<le> 64 \<and> (\<forall>p \<in> set (pParameters d). payload_valid (payload p)) \<and>
     (\<Sum>p \<leftarrow> pParameters d. payload_cost (payload p)) \<le> 64"

text \<open>Qwords of the argument buffer a parameter takes, and where each one starts.\<close>

fun payload_qwords :: "('t, 'd) root_payload \<Rightarrow> nat" where
  "payload_qwords (Constants c) = (unat (rc_Num32BitValues c) + 1) div 2"
| "payload_qwords (OtherType _) = 0"
| "payload_qwords _ = 1"

lemma check_ranges_result:
  "check_ranges rs a b =
     (if \<forall>r \<in> set rs. RangeType r \<le> 3
      then Inr (a \<or> (\<exists>r \<in> set rs. RangeType r \<noteq> 3), b \<or> (\<exists>r \<in> set rs. RangeType r = 3))
      else Inl E_INVALIDARG)"
proof (induction rs arbitrary: a b)
  case (Cons r rs)
  have "RangeType r \<le> 3 \<longleftrightarrow> RangeType r \<in> {0, 1, 2, 3}"
    by (simp add: word_le_nat_alt) (auto simp: word_unat_eq_iff)
  then show ?case using Cons.IH
    by (auto simp: D3D12_DESCRIPTOR_RANGE_TYPE_SAMPLER_def)
qed simp

lemma parameter_cost_result:
  assumes "resolve_payload rd pl = Some pl'"
  shows "parameter_cost rd pl = Some (if payload_valid pl' then Inr (of_nat (payload_cost pl')) else Inl E_INVALIDARG)"
  using assms
  by (cases pl; simp add: check_ranges_result; (elim exE conjE)?; auto)

lemma check_parameters_result:
  assumes "resolve_parameters rd ps = Some ps'" and "unat cost \<le> 64"
  shows "check_parameters rd ps cost =
    Some (if (\<forall>p \<in> set ps'. payload_valid (payload p)) \<and> unat cost + (\<Sum>p \<leftarrow> ps'. payload_cost (payload p)) \<le> 64
      then Inr (map (\<lambda>p. ParameterType (payload p)) ps', map (\<lambda>p. dword_count (payload p)) ps')
      else Inl E_INVALIDARG)"
  using assms
proof (induction ps arbitrary: ps' cost)
  case (Cons p ps)
  obtain pl qs where q: "resolve_payload rd (payload p) = Some pl" "resolve_parameters rd ps = Some qs"
      "ps' = \<lparr>ShaderVisibility = ShaderVisibility p, payload = pl\<rparr> # qs"
    using Cons.prems(1) by (auto split: bind_splits)
  have same: "ParameterType (payload p) = ParameterType pl" "dword_count (payload p) = dword_count pl"
    using q(1) by (cases "payload p"; auto)+
  have small: "payload_cost pl < 2 ^ 32"
    by (cases pl) (use unat_lt_32 in auto)
  then have u: "unat (of_nat (payload_cost pl) :: u64) = payload_cost pl"
    by (simp add: unat_of_nat)
  have uc: "unat (cost + of_nat (payload_cost pl)) = unat cost + payload_cost pl"
    using Cons.prems(2) small u by (simp add: unat_word_ariths)
  have cmp: "cost + of_nat (payload_cost pl) > of_nat D3D12_MAX_ROOT_COST \<longleftrightarrow> unat cost + payload_cost pl > 64"
    by (simp add: word_less_nat_alt uc D3D12_MAX_ROOT_COST_def)
  show ?case
  proof (cases "payload_valid pl \<and> unat cost + payload_cost pl \<le> 64")
    case True
    then have "unat (cost + of_nat (payload_cost pl)) \<le> 64" by (simp add: uc)
    from Cons.IH [OF q(2) this] show ?thesis
      using True cmp by (auto simp: q(3) parameter_cost_result [OF q(1)] same uc add.assoc)
  next
    case False
    then show ?thesis using cmp by (auto simp: q(3) parameter_cost_result [OF q(1)])
  qed
qed auto

text \<open>The layout of the argument buffer.\<close>

lemma constants_qwords:
  fixes n :: u32
  assumes "unat n \<le> 64"
  shows "unat (n div 2 + (n AND 1)) = (unat n + 1) div 2"
proof -
  have a: "unat (n AND 1) = unat n mod 2"
    by (simp add: and_one_eq unat_mod)
  have d: "unat (n div 2) = unat n div 2" by (simp add: unat_div)
  have "unat (n div 2 + (n AND 1)) = unat (n div 2) + unat (n AND 1)"
    using assms a d by (simp add: unat_word_ariths)
  then show ?thesis using a d by presburger
qed

lemma qwords_le_cost: "payload_valid pl \<Longrightarrow> payload_qwords pl \<le> payload_cost pl"
  by (cases pl) auto

text \<open>Each slot starts where the previous one ends.\<close>

fun slots_from :: "nat \<Rightarrow> ('t, 'd) root_parameter list \<Rightarrow> nat list" where
  "slots_from n [] = []"
| "slots_from n (p # ps) = n # slots_from (n + payload_qwords (payload p)) ps"

lemma length_slots_from: "length (slots_from n ps) = length ps"
  by (induction ps arbitrary: n) simp_all

lemma resolve_parameters_length: "resolve_parameters rd ps = Some qs \<Longrightarrow> length ps = length qs"
  by (induction ps arbitrary: qs) (auto split: bind_splits)

lemma offset_step:
  assumes "resolve_payload rd (payload p) = Some pl" "payload_valid pl" "unat off + payload_cost pl \<le> 64"
  shows "\<exists>off'. unat off' = unat off + payload_qwords pl \<and>
    CalculateRootSignatureQwordOffsets (p # ps) off =
      (let (out, tot) = CalculateRootSignatureQwordOffsets ps off' in (off # out, tot))"
proof -
  have one: "unat (off + 1) = unat off + 1" if "unat off \<le> 63" using that by (simp add: unat_word_ariths)
  have one': "unat (off + 1) = Suc (unat off)" if "unat off \<le> 63" using one that by simp
  show ?thesis
  proof (cases "payload p")
    case (Constants c)
    then have c: "pl = Constants c" using assms(1) by auto
    let ?n = "rc_Num32BitValues c"
    have n: "unat ?n \<le> 64" and on: "unat off + unat ?n \<le> 64" using assms(3) c by simp_all
    have "(unat ?n + 1) div 2 \<le> unat ?n" by simp
    then have "unat (off + (?n div 2 + (?n AND 1))) = unat off + (unat ?n + 1) div 2"
      using constants_qwords [OF n] on by (simp add: unat_word_ariths)
    then show ?thesis using Constants c by (intro exI [of _ "off + (?n div 2 + (?n AND 1))"]) simp
  qed (use assms one' in \<open>auto intro!: exI [of _ "off + 1"]\<close>)
qed

lemma offsets_result:
  assumes "resolve_parameters rd ps = Some ps'" "\<forall>p \<in> set ps'. payload_valid (payload p)"
    and "unat off + (\<Sum>p \<leftarrow> ps'. payload_cost (payload p)) \<le> 64"
    and "CalculateRootSignatureQwordOffsets ps off = (out, total_qwords)"
  shows "map unat out = slots_from (unat off) ps' \<and>
    unat total_qwords = unat off + (\<Sum>p \<leftarrow> ps'. payload_qwords (payload p))"
  using assms
proof (induction ps arbitrary: ps' off out)
  case (Cons p ps)
  obtain pl qs where q: "resolve_payload rd (payload p) = Some pl" "resolve_parameters rd ps = Some qs"
      "ps' = \<lparr>ShaderVisibility = ShaderVisibility p, payload = pl\<rparr> # qs"
    using Cons.prems(1) by (auto split: bind_splits)
  have v: "payload_valid pl" "\<forall>p \<in> set qs. payload_valid (payload p)" using Cons.prems(2) q(3) by simp_all
  have "unat off + payload_cost pl \<le> 64" using Cons.prems(3) q(3) by simp
  from offset_step [OF q(1) v(1) this] obtain off' where o: "unat off' = unat off + payload_qwords pl"
      "CalculateRootSignatureQwordOffsets (p # ps) off =
        (let (out, tot) = CalculateRootSignatureQwordOffsets ps off' in (off # out, tot))" by blast
  obtain out' where r: "CalculateRootSignatureQwordOffsets ps off' = (out', total_qwords)" "out = off # out'"
    using Cons.prems(4) unfolding o(2) by (auto split: prod.splits)
  have "unat off' + (\<Sum>p \<leftarrow> qs. payload_cost (payload p)) \<le> 64"
    using Cons.prems(3) qwords_le_cost [OF v(1)] q(3) o(1) by simp
  from Cons.IH [OF q(2) v(2) this r(1)] show ?case using r(2) q(3) o(1) by simp
qed auto

section \<open>Initialization of a serialized signature\<close>

lemma Initialize_serialized:
  assumes ser: "D3D12SerializeVersionedRootSignature uninit (Api_1_1 d) True = Inr blob" "length blob < 2 ^ 32"
    and ok: "desc_ok d" "no_empty_table d"
  shows "if root_valid d
    then \<exists>rs. Initialize mk blob = Some (Inr rs) \<and>
      parameter_types rs = map (\<lambda>p. ParameterType (payload p)) (pParameters d) \<and>
      parameter_dword_counts rs = map (\<lambda>p. dword_count (payload p)) (pParameters d) \<and>
      static_samplers_encoded rs = concat (map (encode_sampler mk) (pStaticSamplers d)) \<and>
      map unat (qword_offsets rs) = slots_from 0 (pParameters d) \<and>
      unat (UploadQwords rs) = (\<Sum>p \<leftarrow> pParameters d. payload_qwords (payload p)) \<and>
      ParameterSlots rs = NumParameters d
    else Initialize mk blob = Some (Inl E_INVALIDARG)"
proof -
  obtain raw h q where s: "length raw < 2 ^ 32" "length blob = 44 + length raw" "drop 44 blob = raw"
      "DXBCGetRootSignature blob (Some 0) = Some (Inr (44, of_nat (length raw)))"
      "read_struct raw_desc_build 6 raw 0 = Some h" "Version h = D3D_ROOT_SIGNATURE_VERSION_1_1"
      "DeserializeVersionedRootSignatureImpl descriptor1_build 3 raw = Some q"
      "resolve (ranges_at range1_build 6 raw) raw q = Some d"
    using v1.serialized_blob [OF serialized_1_1 [OF ser(1)] ser(2) ok(1)] by blast
  let ?rd = "ranges_at range1_build 6 raw"
  obtain r where des: "Deserialize raw = Some (Inr r)" "raw_root_sig r = raw" "desc_1_1 r = q"
    using ConvertVersionedRootSignature_resolves(1) [OF s(8) ok(2), of range_to_0 descriptor_to_0 range_build 5] s(5-7)
    by (auto simp: Deserialize_def D3D_ROOT_SIGNATURE_VERSION_1_0_def D3D_ROOT_SIGNATURE_VERSION_1_1_def)
  have res: "resolve_parameters ?rd (pParameters q) = Some (pParameters d)"
      "resolve_samplers raw (pStaticSamplers q) = Some (pStaticSamplers d)"
    using s(8) by (auto simp: resolve_def split: bind_splits)
  have num: "NumParameters q = NumParameters d"
    using resolve_parameters_length [OF res(1)] by (simp add: NumParameters_def)
  obtain out tq where off: "CalculateRootSignatureQwordOffsets (pParameters q) 0 = (out, tq)" by fastforce
  have ne: "blob \<noteq> []" using s(2) by auto
  have u: "unat (of_nat (length raw) :: u32) = length raw" using s(1) by (rule unat_of_nat_u32)
  note cp = check_parameters_result [OF res(1), of 0]
  show ?thesis
  proof (cases "root_valid d")
    case True
    then have v: "\<forall>p \<in> set (pParameters d). payload_valid (payload p)" "NumParameters d \<le> 64"
        "unat (0 :: u32) + (\<Sum>p \<leftarrow> pParameters d. payload_cost (payload p)) \<le> 64"
      by (simp_all add: root_valid_def)
    note lay = offsets_result [OF res(1) v(1,3) off]
    have "length out = NumParameters d"
      using lay by (metis NumParameters_def length_map length_slots_from)
    then show ?thesis
      using True s(2-4) des res(2) num off ne u cp v lay
      by (simp add: Initialize_def initialize_from_def D3D12_MAX_ROOT_COST_def Let_def not_less)
  next
    case False
    then show ?thesis
      using s(2-4) des num off ne u cp
      by (auto simp: Initialize_def initialize_from_def D3D12_MAX_ROOT_COST_def Let_def root_valid_def not_less)
  qed
qed

section \<open>Slots of any accepted blob\<close>

lemma check_parameters_resolves:
  "check_parameters rd ps c = Some (Inr x) \<Longrightarrow> \<exists>ps'. resolve_parameters rd ps = Some ps'"
proof (induction ps arbitrary: c x)
  case (Cons p ps)
  have "\<exists>pl. resolve_payload rd (payload p) = Some pl"
    using Cons.prems by (cases "payload p") (auto split: bind_splits simp: and_then_def)
  then show ?case using Cons by (fastforce simp: and_then_Inr split: if_splits)
qed simp

definition slot_qwords :: "root_signature \<Rightarrow> nat \<Rightarrow> nat" where
  "slot_qwords rs i =
     (if parameter_types rs ! i = 1 then (unat (parameter_dword_counts rs ! i) + 1) div 2 else 1)"

lemma slots_from_bounds:
  "i < length ps \<Longrightarrow> n \<le> slots_from n ps ! i \<and>
    slots_from n ps ! i + payload_qwords (payload (ps ! i)) \<le> n + (\<Sum>p \<leftarrow> ps. payload_qwords (payload p))"
proof (induction ps arbitrary: n i)
  case (Cons p ps)
  show ?case
  proof (cases i)
    case (Suc j)
    then show ?thesis using Cons.IH [of j "n + payload_qwords (payload p)"] Cons.prems by simp
  qed simp
qed simp

lemma slots_from_disjoint:
  "i < j \<Longrightarrow> j < length ps \<Longrightarrow> slots_from n ps ! i + payload_qwords (payload (ps ! i)) \<le> slots_from n ps ! j"
proof (induction ps arbitrary: n i j)
  case (Cons p ps)
  then obtain k where j: "j = Suc k" "k < length ps" by (cases j) auto
  show ?case
  proof (cases i)
    case 0
    then show ?thesis using slots_from_bounds [OF j(2), of "n + payload_qwords (payload p)"] j by simp
  next
    case (Suc i')
    then show ?thesis using Cons.IH [of i' k] Cons.prems(1) j by simp
  qed
qed simp

lemma Initialize_outputs:
  assumes "Initialize mk blob = Some (Inr rs)"
  obtains ps where "\<forall>p \<in> set ps. payload_valid (payload p)" "(\<Sum>p \<leftarrow> ps. payload_cost (payload p)) \<le> 64"
    "parameter_types rs = map (\<lambda>p. ParameterType (payload p)) ps"
    "parameter_dword_counts rs = map (\<lambda>p. dword_count (payload p)) ps"
    "map unat (qword_offsets rs) = slots_from 0 ps" "ParameterSlots rs = length ps"
    "unat (UploadQwords rs) = (\<Sum>p \<leftarrow> ps. payload_qwords (payload p))"
proof -
  obtain d where i: "initialize_from mk d = Some (Inr rs)"
    using assms by (auto simp: Initialize_def and_then_Inr split: if_splits)
  obtain types counts where d: "check_parameters (ranges_at range1_build 6 (raw_root_sig d)) (pParameters (desc_1_1 d)) 0 = Some (Inr (types, counts))"
      "qword_offsets rs = fst (CalculateRootSignatureQwordOffsets (pParameters (desc_1_1 d)) 0)"
      "UploadQwords rs = snd (CalculateRootSignatureQwordOffsets (pParameters (desc_1_1 d)) 0)"
      "ParameterSlots rs = length (qword_offsets rs)" "parameter_types rs = types" "parameter_dword_counts rs = counts"
    using i by (auto simp: initialize_from_def Let_def and_then_Inr split_beta split: bind_splits if_splits)
  let ?ps = "pParameters (desc_1_1 d)" and ?rd = "ranges_at range1_build 6 (raw_root_sig d)"
  obtain ps where r: "resolve_parameters ?rd ?ps = Some ps" using check_parameters_resolves [OF d(1)] by blast
  have c: "(\<forall>p \<in> set ps. payload_valid (payload p)) \<and> (\<Sum>p \<leftarrow> ps. payload_cost (payload p)) \<le> 64 \<and>
      types = map (\<lambda>p. ParameterType (payload p)) ps \<and> counts = map (\<lambda>p. dword_count (payload p)) ps"
    using check_parameters_result [OF r, of 0] d(1) by (auto split: if_splits)
  note lay = offsets_result [OF r _ _ prod.collapse [symmetric]]
  have l: "map unat (qword_offsets rs) = slots_from 0 ps \<and>
      unat (UploadQwords rs) = (\<Sum>p \<leftarrow> ps. payload_qwords (payload p))"
    using lay [of 0] c d(2,3) by simp
  then have "length (qword_offsets rs) = length ps" by (metis length_map length_slots_from)
  then show thesis using c l d(4-6) by (intro that [of ps]) simp_all
qed

lemma sum_qwords_le_cost:
  "\<forall>p \<in> set ps. payload_valid (payload p) \<Longrightarrow>
    (\<Sum>p \<leftarrow> ps. payload_qwords (payload p)) \<le> (\<Sum>p \<leftarrow> ps. payload_cost (payload p))"
  by (intro sum_list_mono qwords_le_cost) simp

lemma valid_qwords:
  "payload_valid pl \<Longrightarrow> payload_qwords pl = (if ParameterType pl = 1 then (unat (dword_count pl) + 1) div 2 else 1)"
  by (cases pl) auto

section \<open>Properties\<close>


definition valid_desc1 :: "(descriptor_range1, root_descriptor1) api_desc" where
  "valid_desc1 = sample_desc1\<lparr>pParameters := butlast (pParameters sample_desc1)\<rparr>"

lemma valid_desc1: "desc_ok valid_desc1" "no_empty_table valid_desc1" "root_valid valid_desc1" "\<not> root_valid sample_desc1"
    "slots_from 0 (pParameters valid_desc1) = [0, 1, 4]"
    "snd (serialize_segments v range1_fields 6 descriptor1_fields 3 valid_desc1) = 192"
  by (simp_all add: valid_desc1_def sample_desc1_def desc_ok_def no_empty_table_def root_valid_def NumParameters_def
    serialize_segments_def add_segment_eq Let_def serialize_descriptor_def word_le_nat_alt)


text \<open>
  C33. In every accepted root signature, whatever the blob, the argument slots are consecutive
  and disjoint, lie inside the \<open>UploadQwords\<close> of the argument buffer, and those are at most 64.
\<close>

theorem root_slots_disjoint:
  assumes "Initialize mk blob = Some (Inr rs)" and n: "n = ParameterSlots rs"
  shows "length (qword_offsets rs) = n \<and> length (parameter_types rs) = n \<and> length (parameter_dword_counts rs) = n \<and>
    (\<forall>i < n. unat (qword_offsets rs ! i) + slot_qwords rs i \<le> unat (UploadQwords rs)) \<and>
    (\<forall>i j. i < j \<and> j < n \<longrightarrow> unat (qword_offsets rs ! i) + slot_qwords rs i \<le> unat (qword_offsets rs ! j)) \<and>
    unat (UploadQwords rs) \<le> 64"
proof -
  obtain ps where ps: "\<forall>p \<in> set ps. payload_valid (payload p)" "(\<Sum>p \<leftarrow> ps. payload_cost (payload p)) \<le> 64"
    "parameter_types rs = map (\<lambda>p. ParameterType (payload p)) ps"
    "parameter_dword_counts rs = map (\<lambda>p. dword_count (payload p)) ps"
    "map unat (qword_offsets rs) = slots_from 0 ps" "ParameterSlots rs = length ps"
    "unat (UploadQwords rs) = (\<Sum>p \<leftarrow> ps. payload_qwords (payload p))"
    by (rule Initialize_outputs [OF assms(1)])
  have len: "length (qword_offsets rs) = length ps" using ps(5) by (metis length_map length_slots_from)
  have off: "unat (qword_offsets rs ! i) = slots_from 0 ps ! i" if "i < n" for i
    using that ps(5,6) len n by (metis nth_map)
  have sq: "slot_qwords rs i = payload_qwords (payload (ps ! i))" if "i < n" for i
    using that ps(1,3,4,6) n by (simp add: slot_qwords_def valid_qwords)
  have "unat (qword_offsets rs ! i) + slot_qwords rs i \<le> unat (UploadQwords rs)" if "i < n" for i
    using slots_from_bounds [of i ps 0] that ps(6,7) n by (simp add: off sq)
  moreover have "unat (qword_offsets rs ! i) + slot_qwords rs i \<le> unat (qword_offsets rs ! j)" if "i < j \<and> j < n" for i j
    using slots_from_disjoint [of i j ps 0] that ps(6) n by (simp add: off sq)
  moreover have "unat (UploadQwords rs) \<le> 64" using sum_qwords_le_cost [OF ps(1)] ps(2,7) by simp
  ultimately show ?thesis using len ps(3,4,6) n by simp
qed

lemma root_slots_disjoint_witness:
  "\<exists>blob rs. Initialize (\<lambda>_. (0, 0, 0)) blob = Some (Inr rs) \<and> ParameterSlots rs = 3 \<and> unat (UploadQwords rs) \<le> 64"
proof -
  obtain blob where b: "D3D12SerializeVersionedRootSignature (\<lambda>_. 0) (Api_1_1 valid_desc1) True = Inr blob"
    by (simp add: D3D12SerializeVersionedRootSignature_def)
  have "length blob < 2 ^ 32"
    using v1.length_serialized [of D3D_ROOT_SIGNATURE_VERSION_1_1 "\<lambda>_. 0" valid_desc1]
    by (simp add: serialized_1_1 [OF b] valid_desc1)
  from Initialize_serialized [OF b this valid_desc1(1,2), of "\<lambda>_. (0, 0, 0)"]
  obtain rs where rs: "Initialize (\<lambda>_. (0, 0, 0)) blob = Some (Inr rs)" "ParameterSlots rs = NumParameters valid_desc1"
    by (auto simp: valid_desc1(3))
  have "ParameterSlots rs = 3" using rs(2) by (simp add: NumParameters_def valid_desc1_def sample_desc1_def)
  then show ?thesis using rs(1) root_slots_disjoint [OF rs(1) refl] by blast
qed

end
