(* ===== verification/DescriptorHeap.thy ===== *)
theory DescriptorHeap
  imports Prelude
begin

text \<open>
  Descriptor heaps: \<open>src/d3d12/d3d12_descriptor_heap.hpp\<close> and \<open>.cpp\<close>, the handle functions of
  \<open>src/d3d12/d3d12_device.hpp\<close> and the calls of \<open>src/d3d12/d3d12_device.cpp\<close> that create,
  address and copy descriptors.  A CPU descriptor handle packs the pointer of the heap object
  and an index into 64 bits.  Shader visible and staging heaps keep each descriptor twice, as
  a tagged union for the encoder and as four words for the shaders.

  The heap objects live in a store indexed by their pointers; a dangling handle or an index
  out of range in a copy, undefined in the code, is \<open>None\<close>.  What Metal decides (resource
  ids, GPU addresses, sampler handles) and the array length of a texture view are parameters.
\<close>

section \<open>Handles\<close>

text \<open>\<open>EMBEDDED_DESCRIPTOR_HANDLE\<close> on 64-bit builds: 5 bits \<open>Tag\<close>, 20 bits \<open>Descriptor\<close>, 39 bits \<open>Heap\<close>.\<close>

definition embed_handle :: "u64 \<Rightarrow> u32 \<Rightarrow> u64" where
  "embed_handle heap index =
     push_bit 25 (drop_bit 8 heap) OR push_bit 5 (ucast index AND 0xFFFFF) OR (drop_bit 3 heap AND 0x1F)"

definition handle_extract :: "u64 \<Rightarrow> u64" where
  "handle_extract h = push_bit 8 (drop_bit 25 h) OR push_bit 3 (h AND 0x1F)"

definition handle_descriptor :: "u64 \<Rightarrow> u32" where
  "handle_descriptor h = ucast (drop_bit 5 h AND 0xFFFFF)"

definition GetDescriptorHandleIncrementSize :: u64 where
  "GetDescriptorHandleIncrementSize = 32"

section \<open>Storage\<close>

record buffer_slice =
  byteOffset :: u32
  byteLength :: u32
  firstElement :: u32
  elementCount :: u32

text \<open>The tagged union \<open>ShaderVisibleDescriptorCPUStorage\<close>; buffers may be null.\<close>

datatype ('t, 'b) cpu_storage =
    Null
  | SRVTexture 't nat
  | ConstantBuffer u64 u64
  | UAVTexture 't nat
  | UAVTexelBuffer "'b option" nat buffer_slice
  | UAVBuffer "'b option" buffer_slice
  | SRVTexelBuffer "'b option" nat buffer_slice
  | SRVBuffer "'b option" buffer_slice

text \<open>\<open>ShaderVisibleDescriptorGPUStorage\<close> and \<open>SamplerGPUStorage\<close>: four words each.\<close>

record gpu_words =
  word0 :: u64
  word1 :: u64
  word2 :: u64
  word3 :: u64

definition ZeroFilled :: gpu_words where
  "ZeroFilled = \<lparr>word0 = 0, word1 = 0, word2 = 0, word3 = 0\<rparr>"

text \<open>What the code asks textures, buffers and samplers for.\<close>

record ('t, 'b, 's) objects =
  view_resource_id :: "'t \<Rightarrow> nat \<Rightarrow> u64"
  view_array_length :: "'t \<Rightarrow> nat \<Rightarrow> u32"
  buffer_view_id :: "'b \<Rightarrow> nat \<Rightarrow> u64"
  gpuAddress :: "'b \<Rightarrow> u64"
  sampler_state_handle :: "'s \<Rightarrow> u64"
  sampler_state_cube_handle :: "'s \<Rightarrow> u64"
  lod_bias_bits :: "'s \<Rightarrow> u32"

datatype heap_type = CBV_SRV_UAV | SAMPLER | RTV | DSV | NUM_TYPES

record ('d, 'g) descriptor_heap =
  desc_type :: heap_type
  desc_visible :: bool
  descriptors :: "'d list"
  mapped_argument_buffer :: "'g list"

type_synonym ('t, 'b) shader_heap = "(('t, 'b) cpu_storage, gpu_words) descriptor_heap"
type_synonym 's sampler_heap = "('s option, gpu_words) descriptor_heap"
type_synonym 'r target_heap = "('r option, unit) descriptor_heap"

record ('t, 'b, 's, 'r) store =
  shader_heaps :: "u64 \<rightharpoonup> ('t, 'b) shader_heap"
  sampler_heaps :: "u64 \<rightharpoonup> 's sampler_heap"
  target_heaps :: "u64 \<rightharpoonup> 'r target_heap"

definition empty_store :: "('t, 'b, 's, 'r) store" where
  "empty_store = \<lparr>shader_heaps = Map.empty, sampler_heaps = Map.empty, target_heaps = Map.empty\<rparr>"

section \<open>Creating heaps\<close>

text \<open>
  \<open>CreateDescriptorHeap\<close> with the \<open>Initialize\<close> of each class; \<open>p\<close> is the address of the
  object and \<open>junk\<close> the contents of the memory the words live in.
\<close>

definition CreateDescriptorHeap ::
  "u64 \<Rightarrow> (nat \<Rightarrow> gpu_words) \<Rightarrow> heap_type \<Rightarrow> u32 \<Rightarrow> bool \<Rightarrow> ('t, 'b, 's, 'r) store \<Rightarrow>
   hresult \<times> ('t, 'b, 's, 'r) store" where
  "CreateDescriptorHeap p junk ty NumDescriptors visible w =
     (if NumDescriptors > 0xFFFFF then (E_INVALIDARG, w)
      else
        let n = unat NumDescriptors
        in case ty of
             CBV_SRV_UAV \<Rightarrow>
               (S_OK, w\<lparr>shader_heaps := (shader_heaps w)(p \<mapsto> \<lparr>desc_type = ty, desc_visible = visible,
                  descriptors = replicate n Null, mapped_argument_buffer = map junk [0..<n]\<rparr>)\<rparr>)
           | SAMPLER \<Rightarrow>
               (S_OK, w\<lparr>sampler_heaps := (sampler_heaps w)(p \<mapsto> \<lparr>desc_type = ty, desc_visible = visible,
                  descriptors = replicate n None, mapped_argument_buffer = map junk [0..<n]\<rparr>)\<rparr>)
           | NUM_TYPES \<Rightarrow> (E_INVALIDARG, w)
           | _ \<Rightarrow>
               if visible then (E_INVALIDARG, w)
               else (S_OK, w\<lparr>target_heaps := (target_heaps w)(p \<mapsto> \<lparr>desc_type = ty, desc_visible = False,
                  descriptors = replicate n None, mapped_argument_buffer = []\<rparr>)\<rparr>))"

section \<open>Writing descriptors\<close>

text \<open>The shape all the \<open>Add\<close> operations share: the bounds check, the tagged value, the words.\<close>

definition add_descriptor ::
  "u32 \<Rightarrow> ('t, 'b) cpu_storage \<Rightarrow> (gpu_words \<Rightarrow> gpu_words) \<Rightarrow> ('t, 'b) shader_heap \<Rightarrow>
   hresult \<times> ('t, 'b) shader_heap" where
  "add_descriptor index c f h =
     (if unat index \<ge> length (descriptors h) then (E_INVALIDARG, h)
      else (S_OK, h\<lparr>descriptors := (descriptors h)[unat index := c],
              mapped_argument_buffer :=
                (mapped_argument_buffer h)[unat index := f (mapped_argument_buffer h ! unat index)]\<rparr>))"

definition TextureMetadata :: "u32 \<Rightarrow> u32 \<Rightarrow> u64" where
  "TextureMetadata array_length min_lod_bits = push_bit 32 (ucast array_length) OR ucast min_lod_bits"

definition texture_words :: "('t, 'b, 's) objects \<Rightarrow> 't \<Rightarrow> nat \<Rightarrow> u32 \<Rightarrow> gpu_words \<Rightarrow> gpu_words" where
  "texture_words objs t v lod g =
     g\<lparr>word0 := view_resource_id objs t v, word1 := TextureMetadata (view_array_length objs t v) lod\<rparr>"

definition texel_words :: "('t, 'b, 's) objects \<Rightarrow> 'b option \<Rightarrow> nat \<Rightarrow> buffer_slice \<Rightarrow> gpu_words \<Rightarrow> gpu_words" where
  "texel_words objs b v sl g =
     (case b of None \<Rightarrow> g\<lparr>word0 := 0, word1 := 0\<rparr>
      | Some b \<Rightarrow> g\<lparr>word0 := buffer_view_id objs b v,
                    word1 := push_bit 32 (ucast (elementCount sl)) OR ucast (firstElement sl)\<rparr>)"

definition AddShaderResourceView_texture where
  "AddShaderResourceView_texture objs index t v lod h =
     add_descriptor index (SRVTexture t v) (texture_words objs t v lod) h"

definition AddConstantBufferView where
  "AddConstantBufferView index va (bytes :: u32) h =
     add_descriptor index (ConstantBuffer va (ucast bytes)) (\<lambda>g. g\<lparr>word0 := va, word1 := ucast bytes\<rparr>) h"

definition AddUnorderedAccessView_texture where
  "AddUnorderedAccessView_texture objs index t v h =
     add_descriptor index (UAVTexture t v) (texture_words objs t v 0) h"

definition AddUnorderedAccessView_texel where
  "AddUnorderedAccessView_texel objs index b v sl h =
     add_descriptor index (UAVTexelBuffer b v sl) (texel_words objs b v sl) h"

definition AddUnorderedAccessView_buffer where
  "AddUnorderedAccessView_buffer objs index b sl counter (counter_offset :: u32) h =
     add_descriptor index (UAVBuffer b sl)
       (\<lambda>g. case b of None \<Rightarrow> g\<lparr>word0 := 0, word1 := 0, word2 := 0\<rparr>
          | Some b \<Rightarrow> g\<lparr>word0 := gpuAddress objs b + ucast (byteOffset sl), word1 := ucast (byteLength sl),
                        word2 := (case counter of None \<Rightarrow> 0 | Some c \<Rightarrow> gpuAddress objs c + ucast counter_offset)\<rparr>) h"

definition AddShaderResourceView_texel where
  "AddShaderResourceView_texel objs index b v sl h =
     add_descriptor index (SRVTexelBuffer b v sl) (texel_words objs b v sl) h"

definition AddShaderResourceView_buffer where
  "AddShaderResourceView_buffer objs index b sl h =
     add_descriptor index (SRVBuffer b sl)
       (\<lambda>g. case b of None \<Rightarrow> g\<lparr>word0 := 0, word1 := 0\<rparr>
          | Some b \<Rightarrow> g\<lparr>word0 := gpuAddress objs b + ucast (byteOffset sl), word1 := ucast (byteLength sl)\<rparr>) h"

text \<open>The null descriptors of either kind; \<open>has_desc\<close> tells whether \<open>pDesc\<close> is given.\<close>

definition AddNullView :: "u32 \<Rightarrow> bool \<Rightarrow> ('t, 'b) shader_heap \<Rightarrow> hresult \<times> ('t, 'b) shader_heap" where
  "AddNullView index has_desc h =
     (if unat index \<ge> length (descriptors h) \<or> \<not> has_desc then (E_INVALIDARG, h)
      else add_descriptor index Null (\<lambda>_. ZeroFilled) h)"

definition AddSampler ::
  "('t, 'b, 's) objects \<Rightarrow> u32 \<Rightarrow> 's \<Rightarrow> 's sampler_heap \<Rightarrow> hresult \<times> 's sampler_heap" where
  "AddSampler objs index s h =
     (if unat index \<ge> length (descriptors h) then (E_INVALIDARG, h)
      else (S_OK, h\<lparr>descriptors := (descriptors h)[unat index := Some s],
              mapped_argument_buffer := (mapped_argument_buffer h)[unat index :=
                (mapped_argument_buffer h ! unat index)\<lparr>word0 := sampler_state_handle objs s,
                   word1 := sampler_state_cube_handle objs s, word2 := ucast (lod_bias_bits objs s)\<rparr>]\<rparr>))"

definition AddRenderTarget :: "u32 \<Rightarrow> 'r option \<Rightarrow> 'r target_heap \<Rightarrow> hresult \<times> 'r target_heap" where
  "AddRenderTarget index d h =
     (if unat index \<ge> length (descriptors h) then (E_INVALIDARG, h)
      else (S_OK, h\<lparr>descriptors := (descriptors h)[unat index := d]\<rparr>))"

section \<open>Copying descriptors\<close>

text \<open>One turn of the loop of the \<open>CopyDescriptors\<close> of each class.\<close>

definition copy_shader_slot :: "u64 \<Rightarrow> u64 \<Rightarrow> u32 \<Rightarrow> u32 \<Rightarrow> ('t, 'b, 's, 'r) store \<Rightarrow> ('t, 'b, 's, 'r) store option" where
  "copy_shader_slot src dst i j w =
     (case (shader_heaps w src, shader_heaps w dst) of
        (Some hfrom, Some hto) \<Rightarrow>
          if unat i < length (descriptors hfrom) \<and> unat j < length (descriptors hto) then
            Some (w\<lparr>shader_heaps := (shader_heaps w)(dst \<mapsto>
              hto\<lparr>descriptors := (descriptors hto)[unat j := descriptors hfrom ! unat i],
                 mapped_argument_buffer := (mapped_argument_buffer hto)[unat j := mapped_argument_buffer hfrom ! unat i]\<rparr>)\<rparr>)
          else None
      | _ \<Rightarrow> None)"

definition copy_sampler_slot :: "u64 \<Rightarrow> u64 \<Rightarrow> u32 \<Rightarrow> u32 \<Rightarrow> ('t, 'b, 's, 'r) store \<Rightarrow> ('t, 'b, 's, 'r) store option" where
  "copy_sampler_slot src dst i j w =
     (case (sampler_heaps w src, sampler_heaps w dst) of
        (Some hfrom, Some hto) \<Rightarrow>
          if unat i < length (descriptors hfrom) \<and> unat j < length (descriptors hto) then
            Some (w\<lparr>sampler_heaps := (sampler_heaps w)(dst \<mapsto>
              hto\<lparr>descriptors := (descriptors hto)[unat j := descriptors hfrom ! unat i],
                 mapped_argument_buffer := (mapped_argument_buffer hto)[unat j := mapped_argument_buffer hfrom ! unat i]\<rparr>)\<rparr>)
          else None
      | _ \<Rightarrow> None)"

definition copy_target_slot :: "u64 \<Rightarrow> u64 \<Rightarrow> u32 \<Rightarrow> u32 \<Rightarrow> ('t, 'b, 's, 'r) store \<Rightarrow> ('t, 'b, 's, 'r) store option" where
  "copy_target_slot src dst i j w =
     (case (target_heaps w src, target_heaps w dst) of
        (Some hfrom, Some hto) \<Rightarrow>
          if unat i < length (descriptors hfrom) \<and> unat j < length (descriptors hto) then
            Some (w\<lparr>target_heaps := (target_heaps w)(dst \<mapsto>
              hto\<lparr>descriptors := (descriptors hto)[unat j := descriptors hfrom ! unat i]\<rparr>)\<rparr>)
          else None
      | _ \<Rightarrow> None)"

fun copy_slot :: "heap_type \<Rightarrow> u64 \<Rightarrow> u64 \<Rightarrow> u32 \<Rightarrow> u32 \<Rightarrow> ('t, 'b, 's, 'r) store \<Rightarrow> ('t, 'b, 's, 'r) store option" where
  "copy_slot CBV_SRV_UAV = copy_shader_slot"
| "copy_slot SAMPLER = copy_sampler_slot"
| "copy_slot RTV = copy_target_slot"
| "copy_slot DSV = copy_target_slot"
| "copy_slot NUM_TYPES = (\<lambda>_ _ _ _ w. Some w)"

text \<open>The loop; \<open>From + i\<close> and \<open>DescriptorTo + i\<close> are 32-bit.\<close>

fun heap_CopyDescriptors :: "(u32 \<Rightarrow> u32 \<Rightarrow> 'w \<Rightarrow> 'w option) \<Rightarrow> u32 \<Rightarrow> u32 \<Rightarrow> nat \<Rightarrow> 'w \<Rightarrow> 'w option" where
  "heap_CopyDescriptors one from to 0 w = Some w"
| "heap_CopyDescriptors one from to (Suc n) w =
     (case one from to w of None \<Rightarrow> None | Some w' \<Rightarrow> heap_CopyDescriptors one (from + 1) (to + 1) n w')"

text \<open>
  The loop of the device over two lists of ranges, each a handle and a size (1 where no sizes
  are given).  It ends because every turn finishes the current range of one of the lists.
\<close>

function copy_ranges ::
  "(u64 \<Rightarrow> u64 \<Rightarrow> u32 \<Rightarrow> u32 \<Rightarrow> nat \<Rightarrow> 'w \<Rightarrow> 'w option) \<Rightarrow> (u64 \<times> u32) list \<Rightarrow> u32 \<Rightarrow>
   (u64 \<times> u32) list \<Rightarrow> u32 \<Rightarrow> 'w \<Rightarrow> 'w option" where
  "copy_ranges copy [] dst_idx srcs src_idx w = Some w"
| "copy_ranges copy (d # ds) dst_idx [] src_idx w = Some w"
| "copy_ranges copy ((dh, dn) # ds) dst_idx ((sh, sn) # ss) src_idx w =
     (let n = min (dn - dst_idx) (sn - src_idx)
      in case copy (handle_extract sh) (handle_extract dh) (handle_descriptor sh + src_idx)
                (handle_descriptor dh + dst_idx) (unat n) w of
           None \<Rightarrow> None
         | Some w' \<Rightarrow>
             let dst_end = (dst_idx + n \<ge> dn); src_end = (src_idx + n \<ge> sn)
             in copy_ranges copy (if dst_end then ds else (dh, dn) # ds) (if dst_end then 0 else dst_idx + n)
                  (if src_end then ss else (sh, sn) # ss) (if src_end then 0 else src_idx + n) w')"
  by pat_completeness auto

termination
proof (relation "measure (\<lambda>(copy, ds, di, ss, si, w). length ds + length ss)")
  fix dh sh :: u64 and dn di sn si n :: u32 and ds ss and w' :: 'w and dst_end src_end
  assume n: "n = min (dn - di) (sn - si)" and "dst_end = (dn \<le> di + n)" "src_end = (sn \<le> si + n)"
  moreover have "di + (dn - di) = dn" "si + (sn - si) = sn" by simp_all
  then have "di + n = dn \<or> si + n = sn" unfolding n min_def by presburger
  ultimately show "((copy, if dst_end then ds else (dh, dn) # ds, if dst_end then 0 else di + n,
      if src_end then ss else (sh, sn) # ss, if src_end then 0 else si + n, w'),
      copy, (dh, dn) # ds, di, (sh, sn) # ss, si, w) \<in> measure (\<lambda>(copy, ds, di, ss, si, w). length ds + length ss)"
    for copy w by auto
qed simp

definition CopyDescriptors ::
  "(u64 \<times> u32) list \<Rightarrow> (u64 \<times> u32) list \<Rightarrow> heap_type \<Rightarrow> ('t, 'b, 's, 'r) store \<Rightarrow> ('t, 'b, 's, 'r) store option" where
  "CopyDescriptors dsts srcs ty w =
     (if ty = NUM_TYPES then Some w
      else copy_ranges (\<lambda>src dst. heap_CopyDescriptors (copy_slot ty src dst)) dsts 0 srcs 0 w)"

definition CopyDescriptorsSimple ::
  "u32 \<Rightarrow> u64 \<Rightarrow> u64 \<Rightarrow> heap_type \<Rightarrow> ('t, 'b, 's, 'r) store \<Rightarrow> ('t, 'b, 's, 'r) store option" where
  "CopyDescriptorsSimple n dst src ty w = CopyDescriptors [(dst, n)] [(src, n)] ty w"

section \<open>Calls\<close>

text \<open>
  The calls of an application, with the descriptor handles it holds.  A call through a
  dangling handle is undefined (\<open>None\<close>); the results of the \<open>Add\<close> operations are dropped by
  the device, as in the code.
\<close>

datatype ('t, 'b, 's, 'r) heap_call =
    MakeHeap u64 "nat \<Rightarrow> gpu_words" heap_type u32 bool
  | MakeCbv u64 u64 u32
  | MakeSrvTexture u64 't nat u32
  | MakeUavTexture u64 't nat
  | MakeSrvTexel u64 "'b option" nat buffer_slice
  | MakeUavTexel u64 "'b option" nat buffer_slice
  | MakeSrvBuffer u64 "'b option" buffer_slice
  | MakeUavBuffer u64 "'b option" buffer_slice "'b option" u32
  | MakeNullView u64 bool
  | MakeSampler u64 's
  | MakeTarget u64 "'r option"
  | Copy "(u64 \<times> u32) list" "(u64 \<times> u32) list" heap_type

definition on_shader_heap ::
  "u64 \<Rightarrow> (u32 \<Rightarrow> ('t, 'b) shader_heap \<Rightarrow> hresult \<times> ('t, 'b) shader_heap) \<Rightarrow> ('t, 'b, 's, 'r) store \<Rightarrow>
   ('t, 'b, 's, 'r) store option" where
  "on_shader_heap h f w =
     (case shader_heaps w (handle_extract h) of None \<Rightarrow> None
      | Some hp \<Rightarrow> Some (w\<lparr>shader_heaps := (shader_heaps w)(handle_extract h \<mapsto> snd (f (handle_descriptor h) hp))\<rparr>))"

definition CreateSampler :: "('t, 'b, 's) objects \<Rightarrow> 's \<Rightarrow> u64 \<Rightarrow> ('t, 'b, 's, 'r) store \<Rightarrow> ('t, 'b, 's, 'r) store option" where
  "CreateSampler objs s h w =
     (case sampler_heaps w (handle_extract h) of None \<Rightarrow> None
      | Some hp \<Rightarrow> Some (w\<lparr>sampler_heaps :=
          (sampler_heaps w)(handle_extract h \<mapsto> snd (AddSampler objs (handle_descriptor h) s hp))\<rparr>))"

definition CreateTarget :: "'r option \<Rightarrow> u64 \<Rightarrow> ('t, 'b, 's, 'r) store \<Rightarrow> ('t, 'b, 's, 'r) store option" where
  "CreateTarget d h w =
     (case target_heaps w (handle_extract h) of None \<Rightarrow> None
      | Some hp \<Rightarrow> Some (w\<lparr>target_heaps :=
          (target_heaps w)(handle_extract h \<mapsto> snd (AddRenderTarget (handle_descriptor h) d hp))\<rparr>))"

fun heap_step ::
  "('t, 'b, 's) objects \<Rightarrow> ('t, 'b, 's, 'r) heap_call \<Rightarrow> ('t, 'b, 's, 'r) store \<Rightarrow> ('t, 'b, 's, 'r) store option" where
  "heap_step objs (MakeHeap p junk ty n visible) w = Some (snd (CreateDescriptorHeap p junk ty n visible w))"
| "heap_step objs (MakeCbv h va bytes) w = on_shader_heap h (\<lambda>i. AddConstantBufferView i va bytes) w"
| "heap_step objs (MakeSrvTexture h t v lod) w = on_shader_heap h (\<lambda>i. AddShaderResourceView_texture objs i t v lod) w"
| "heap_step objs (MakeUavTexture h t v) w = on_shader_heap h (\<lambda>i. AddUnorderedAccessView_texture objs i t v) w"
| "heap_step objs (MakeSrvTexel h b v sl) w = on_shader_heap h (\<lambda>i. AddShaderResourceView_texel objs i b v sl) w"
| "heap_step objs (MakeUavTexel h b v sl) w = on_shader_heap h (\<lambda>i. AddUnorderedAccessView_texel objs i b v sl) w"
| "heap_step objs (MakeSrvBuffer h b sl) w = on_shader_heap h (\<lambda>i. AddShaderResourceView_buffer objs i b sl) w"
| "heap_step objs (MakeUavBuffer h b sl c off) w =
     on_shader_heap h (\<lambda>i. AddUnorderedAccessView_buffer objs i b sl c off) w"
| "heap_step objs (MakeNullView h has_desc) w = on_shader_heap h (\<lambda>i. AddNullView i has_desc) w"
| "heap_step objs (MakeSampler h s) w = CreateSampler objs s h w"
| "heap_step objs (MakeTarget h d) w = CreateTarget d h w"
| "heap_step objs (Copy dsts srcs ty) w = CopyDescriptors dsts srcs ty w"

fun heap_run ::
  "('t, 'b, 's) objects \<Rightarrow> ('t, 'b, 's, 'r) heap_call list \<Rightarrow> ('t, 'b, 's, 'r) store \<Rightarrow> ('t, 'b, 's, 'r) store option" where
  "heap_run objs [] w = Some w"
| "heap_run objs (c # cs) w = (case heap_step objs c w of None \<Rightarrow> None | Some w' \<Rightarrow> heap_run objs cs w')"

end
