(* ===== verification/DescriptorContract.thy ===== *)
theory DescriptorContract
  imports DescriptorHeap
begin

text \<open>
  The contract of the descriptor heaps: handle arithmetic addresses the slots of the heap it
  started from, the two images of every descriptor agree after any sequence of calls, and the
  copy loop of the device over two lists of ranges of different shapes is the copy of the
  listed descriptors one after the other.
\<close>

section \<open>Handle arithmetic\<close>

lemma bits_below:
  assumes "unat (w :: 'a::len word) < 2 ^ k" "k \<le> n"
  shows "\<not> bit w n"
proof
  assume b: "bit w n"
  have "take_bit k w = w"
    using assms(1) by (simp add: word_unat_eq_iff unsigned_take_bit_eq take_bit_nat_eq_self)
  then have "bit (take_bit k w) n" using b by simp
  then show False using assms(2) by (simp add: bit_take_bit_iff)
qed

lemma low_bits_clear:
  assumes "8 dvd unat (p :: u64)" "n < 3"
  shows "\<not> bit p n"
proof -
  have "unat (take_bit 3 p) = take_bit 3 (unat p)" by (rule unsigned_take_bit_eq)
  moreover have "take_bit 3 (unat p) = 0" using assms(1) by (simp add: take_bit_eq_mod dvd_eq_mod_eq_0)
  ultimately have "take_bit 3 p = 0" by (simp only: unat_eq_zero)
  moreover have "bit (take_bit 3 p) n = bit p n" using assms(2) by (simp add: bit_take_bit_iff)
  ultimately show ?thesis by simp
qed

lemma field_masks: "w AND 0x1F = take_bit 5 w" "w AND 0xFFFFF = take_bit 20 w" for w :: u64
  by (simp_all add: take_bit_eq_mask mask_eq_exp_minus_1)

lemma bit_embed_handle:
  "bit (embed_handle p i) n \<longleftrightarrow> n < 64 \<and>
     (if n < 5 then bit p (n + 3) else if n < 25 then bit i (n - 5) else bit p (n - 17))"
  unfolding embed_handle_def field_masks
  by (auto simp: bit_simps add.commute [of 3] dest: bit_imp_le_length)

lemma handle_extract_embed:
  assumes "8 dvd unat p" "unat p < 2 ^ 47"
  shows "handle_extract (embed_handle p i) = p"
proof (rule bit_word_eqI)
  fix n assume "n < LENGTH(64)"
  then show "bit (handle_extract (embed_handle p i)) n = bit p n"
    using bits_below [OF assms(2), of n] low_bits_clear [OF assms(1), of n]
    unfolding handle_extract_def field_masks
    by (cases "n < 3"; cases "n < 8"; cases "n < 47") (auto simp: bit_simps bit_embed_handle)
qed

lemma handle_descriptor_embed:
  assumes "unat i < 2 ^ 20"
  shows "handle_descriptor (embed_handle p i) = i"
proof (rule bit_word_eqI)
  fix n assume "n < LENGTH(32)"
  then show "bit (handle_descriptor (embed_handle p i)) n = bit i n"
    using bits_below [OF assms, of n] unfolding handle_descriptor_def field_masks
    by (auto simp: bit_simps bit_embed_handle)
qed

text \<open>The index is a field of its own, so that adding increments to a handle adds to the index.\<close>

lemma embed_handle_sum:
  assumes "unat i < 2 ^ 20"
  shows "embed_handle p i = embed_handle p 0 + push_bit 5 (ucast i)"
proof -
  have "embed_handle p 0 + push_bit 5 (ucast i) = embed_handle p 0 OR push_bit 5 (ucast i)"
    using bits_below [OF assms]
    by (intro disjunctive_add_eq_or) (auto simp: bit_eq_iff bit_simps bit_embed_handle)
  moreover have "embed_handle p i = embed_handle p 0 OR push_bit 5 (ucast i)"
    using bits_below [OF assms]
    by (intro bit_word_eqI) (auto simp: bit_simps bit_embed_handle)
  ultimately show ?thesis by simp
qed

lemma embed_handle_add:
  assumes "unat i + k < 2 ^ 20"
  shows "embed_handle p i + of_nat k * GetDescriptorHandleIncrementSize = embed_handle p (i + of_nat k)"
proof -
  have u: "unat (i + of_nat k) = unat i + k" using assms by (simp add: unat_word_ariths unat_of_nat)
  have e: "unat (ucast x :: u64) = unat x" for x :: u32
    using unsigned_less [of x, where 'a = nat] by (simp add: unsigned_ucast_eq take_bit_nat_eq_self)
  have "(ucast (i + of_nat k) :: u64) = ucast i + of_nat k"
    using assms by (simp add: word_unat_eq_iff [where 'a = 64] unat_word_ariths e u unat_of_nat)
  then show ?thesis
    using embed_handle_sum [of i p] embed_handle_sum [of "i + of_nat k" p] assms u
    by (simp add: GetDescriptorHandleIncrementSize_def push_bit_eq_mult algebra_simps)
qed

section \<open>Range copies\<close>

text \<open>The slots a list of ranges names, in order, and the copy of pairs of slots one by one.\<close>

fun range_slots :: "(u64 \<times> u32) list \<Rightarrow> (u64 \<times> u32) list" where
  "range_slots [] = []"
| "range_slots ((h, n) # rs) =
     map (\<lambda>k. (handle_extract h, handle_descriptor h + of_nat k)) [0..<unat n] @ range_slots rs"

fun copy_each ::
  "(u64 \<Rightarrow> u64 \<Rightarrow> u32 \<Rightarrow> u32 \<Rightarrow> 'w \<Rightarrow> 'w option) \<Rightarrow> ((u64 \<times> u32) \<times> (u64 \<times> u32)) list \<Rightarrow> 'w \<Rightarrow> 'w option" where
  "copy_each one [] w = Some w"
| "copy_each one (((src, i), (dst, j)) # ps) w =
     (case one src dst i j w of None \<Rightarrow> None | Some w' \<Rightarrow> copy_each one ps w')"

lemma copy_each_append:
  "copy_each one (ps @ qs) w = (case copy_each one ps w of None \<Rightarrow> None | Some w' \<Rightarrow> copy_each one qs w')"
  by (induction one ps w rule: copy_each.induct) (simp_all split: option.splits)

lemma zip_append_same: "length xs = length ys \<Longrightarrow> zip (xs @ xs') (ys @ ys') = zip xs ys @ zip xs' ys'"
  by simp

text \<open>What a heap promises: its copy of a block is the copy of its slots, the first one first.\<close>

locale slot_copy =
  fixes copy :: "u64 \<Rightarrow> u64 \<Rightarrow> u32 \<Rightarrow> u32 \<Rightarrow> nat \<Rightarrow> 'w \<Rightarrow> 'w option"
    and one :: "u64 \<Rightarrow> u64 \<Rightarrow> u32 \<Rightarrow> u32 \<Rightarrow> 'w \<Rightarrow> 'w option"
  assumes copy_0: "copy src dst i j 0 w = Some w"
    and copy_Suc: "copy src dst i j (Suc n) w =
      (case one src dst i j w of None \<Rightarrow> None | Some w' \<Rightarrow> copy src dst (i + 1) (j + 1) n w')"
begin

lemma copy_block:
  "copy src dst i j n w = copy_each one (map (\<lambda>k. ((src, i + of_nat k), (dst, j + of_nat k))) [0..<n]) w"
proof (induction n arbitrary: i j w)
  case (Suc n)
  have "map (\<lambda>k. ((src, i + of_nat k), (dst, j + of_nat k))) [0..<Suc n] =
      ((src, i), (dst, j)) # map (\<lambda>k. ((src, (i + 1) + of_nat k), (dst, (j + 1) + of_nat k))) [0..<n]"
    unfolding upt_conv_Cons [OF zero_less_Suc] map_Suc_upt [symmetric] by (simp add: ac_simps)
  then show ?case using Suc.IH by (simp add: copy_Suc split: option.split)
qed (simp add: copy_0)

text \<open>One turn of the device's loop, on the slots that are still to be copied.\<close>

lemma rest_slots:
  assumes "i \<le> n" "m \<le> unat n - unat i"
  shows "drop (unat i) (range_slots ((h, n) # rs)) =
      map (\<lambda>k. (handle_extract h, handle_descriptor h + i + of_nat k)) [0..<m] @
      drop (unat i + m) (range_slots ((h, n) # rs))"
proof -
  let ?f = "\<lambda>k. (handle_extract h, handle_descriptor h + of_nat k)"
  have le: "unat i \<le> unat n" using assms(1) by (simp add: word_le_nat_alt)
  have "[unat i..<unat n] = [unat i..<unat i + m] @ [unat i + m..<unat n]"
    using assms(2) le by (metis le_add_diff_inverse nat_add_left_cancel_le upt_add_eq_append le_add1)
  moreover have "map ?f [unat i..<unat i + m] =
      map (\<lambda>k. (handle_extract h, handle_descriptor h + i + of_nat k)) [0..<m]"
    by (rule nth_equalityI) (simp_all add: algebra_simps)
  moreover have "unat i + m \<le> unat n" using assms(2) le by simp
  ultimately show ?thesis using le by (simp add: drop_map)
qed

lemma next_slots:
  assumes "i \<le> n" "m \<le> unat n - unat i" "x = i + of_nat m"
  shows "drop (unat (if n \<le> x then 0 else x)) (range_slots (if n \<le> x then rs else (h, n) # rs)) =
      drop (unat i + m) (range_slots ((h, n) # rs))"
    and "(if n \<le> x then rs else (h, n) # rs) \<noteq> [] \<Longrightarrow>
      (if n \<le> x then 0 else x) \<le> snd (hd (if n \<le> x then rs else (h, n) # rs))"
proof -
  have "unat i \<le> unat n" "unat n < 2 ^ 32" using assms(1) unsigned_less [of n, where 'a = nat]
    by (simp_all add: word_le_nat_alt)
  then have x: "unat x = unat i + m" using assms(2,3) by (simp add: unat_word_ariths unat_of_nat)
  show "drop (unat (if n \<le> x then 0 else x)) (range_slots (if n \<le> x then rs else (h, n) # rs)) =
      drop (unat i + m) (range_slots ((h, n) # rs))"
    using assms(2) \<open>unat i \<le> unat n\<close> x by (auto simp: word_le_nat_alt)
  show "(if n \<le> x then 0 else x) \<le> snd (hd (if n \<le> x then rs else (h, n) # rs))"
    by (auto simp: not_le intro: less_imp_le)
qed

lemma copy_ranges_each:
  assumes "ds \<noteq> [] \<Longrightarrow> di \<le> snd (hd ds)" and "ss \<noteq> [] \<Longrightarrow> si \<le> snd (hd ss)"
  shows "copy_ranges copy ds di ss si w =
    copy_each one (zip (drop (unat si) (range_slots ss)) (drop (unat di) (range_slots ds))) w"
  using assms
proof (induction "length ds + length ss" arbitrary: ds di ss si w rule: less_induct)
  case less
  show ?case
  proof (cases "ds = [] \<or> ss = []")
    case True
    then show ?thesis by (cases ds) auto
  next
    case False
    then obtain dh dn ds' sh sn ss' where l: "ds = (dh, dn) # ds'" "ss = (sh, sn) # ss'"
      by (metis list.exhaust surj_pair)
    have le: "di \<le> dn" "si \<le> sn" using less.prems l by simp_all
    define n m where "n = min (dn - di) (sn - si)" and "m = unat n"
    have m: "m \<le> unat dn - unat di" "m \<le> unat sn - unat si" "n = of_nat m"
      using le by (simp_all add: m_def n_def min_def word_le_nat_alt unat_sub_if')
    let ?ds = "if dn \<le> di + n then ds' else (dh, dn) # ds'" and ?di = "if dn \<le> di + n then 0 else di + n"
    let ?ss = "if sn \<le> si + n then ss' else (sh, sn) # ss'" and ?si = "if sn \<le> si + n then 0 else si + n"
    let ?pairs = "map (\<lambda>k. ((handle_extract sh, handle_descriptor sh + si + of_nat k),
      (handle_extract dh, handle_descriptor dh + di + of_nat k))) [0..<m]"
    have "di + (dn - di) = dn" "si + (sn - si) = sn" by simp_all
    then have "di + n = dn \<or> si + n = sn" unfolding n_def min_def by presburger
    then have shorter: "length ?ds + length ?ss < length ds + length ss" using l by auto
    have step: "copy_ranges copy ds di ss si w =
        (case copy_each one ?pairs w of None \<Rightarrow> None | Some w' \<Rightarrow> copy_ranges copy ?ds ?di ?ss ?si w')"
      by (simp add: l Let_def copy_block m_def flip: n_def split: option.split)
    have rec: "copy_ranges copy ?ds ?di ?ss ?si w' = copy_each one
        (zip (drop (unat si + m) (range_slots ss)) (drop (unat di + m) (range_slots ds))) w'" for w'
      using less.hyps [OF shorter next_slots(2) [OF le(1) m(1)] next_slots(2) [OF le(2) m(2)], unfolded m(3) [symmetric],
        OF refl _ refl]
        next_slots(1) [OF le(1) m(1), unfolded m(3) [symmetric], OF refl] next_slots(1) [OF le(2) m(2), unfolded m(3) [symmetric], OF refl]
      unfolding l by simp
    have "zip (drop (unat si) (range_slots ss)) (drop (unat di) (range_slots ds)) =
        ?pairs @ zip (drop (unat si + m) (range_slots ss)) (drop (unat di + m) (range_slots ds))"
      unfolding l rest_slots [OF le(1) m(1)] rest_slots [OF le(2) m(2)]
      by (simp add: zip_map_map zip_same_conv_map)
    then show ?thesis unfolding step rec by (simp only: copy_each_append)
  qed
qed

end

interpretation slots: slot_copy "\<lambda>src dst. heap_CopyDescriptors (copy_slot ty src dst)" "copy_slot ty" for ty
  by unfold_locales simp_all

section \<open>The two images of a descriptor\<close>

text \<open>
  What the words of a slot hold for the descriptor the encoder sees.  A null descriptor is
  either zero-filled or, where none was written yet, what the memory held (\<open>junk\<close>).
\<close>

fun image_ok :: "('t, 'b, 's) objects \<Rightarrow> gpu_words set \<Rightarrow> ('t, 'b) cpu_storage \<Rightarrow> gpu_words \<Rightarrow> bool" where
  "image_ok objs junk Null g \<longleftrightarrow> g = ZeroFilled \<or> g \<in> junk"
| "image_ok objs junk (SRVTexture t v) g \<longleftrightarrow>
     word0 g = view_resource_id objs t v \<and> drop_bit 32 (word1 g) = ucast (view_array_length objs t v)"
| "image_ok objs junk (UAVTexture t v) g \<longleftrightarrow>
     word0 g = view_resource_id objs t v \<and> word1 g = push_bit 32 (ucast (view_array_length objs t v))"
| "image_ok objs junk (ConstantBuffer va bytes) g \<longleftrightarrow> word0 g = va \<and> word1 g = bytes"
| "image_ok objs junk (UAVTexelBuffer b v sl) g \<longleftrightarrow>
     (case b of None \<Rightarrow> word0 g = 0 \<and> word1 g = 0
      | Some b \<Rightarrow> word0 g = buffer_view_id objs b v \<and>
          word1 g = push_bit 32 (ucast (elementCount sl)) + ucast (firstElement sl))"
| "image_ok objs junk (SRVTexelBuffer b v sl) g \<longleftrightarrow>
     (case b of None \<Rightarrow> word0 g = 0 \<and> word1 g = 0
      | Some b \<Rightarrow> word0 g = buffer_view_id objs b v \<and>
          word1 g = push_bit 32 (ucast (elementCount sl)) + ucast (firstElement sl))"
| "image_ok objs junk (UAVBuffer b sl) g \<longleftrightarrow>
     (case b of None \<Rightarrow> word0 g = 0 \<and> word1 g = 0 \<and> word2 g = 0
      | Some b \<Rightarrow> word0 g = gpuAddress objs b + ucast (byteOffset sl) \<and> word1 g = ucast (byteLength sl))"
| "image_ok objs junk (SRVBuffer b sl) g \<longleftrightarrow>
     (case b of None \<Rightarrow> word0 g = 0 \<and> word1 g = 0
      | Some b \<Rightarrow> word0 g = gpuAddress objs b + ucast (byteOffset sl) \<and> word1 g = ucast (byteLength sl))"

fun sampler_image_ok :: "('t, 'b, 's) objects \<Rightarrow> gpu_words set \<Rightarrow> 's option \<Rightarrow> gpu_words \<Rightarrow> bool" where
  "sampler_image_ok objs junk None g \<longleftrightarrow> g \<in> junk"
| "sampler_image_ok objs junk (Some s) g \<longleftrightarrow> word0 g = sampler_state_handle objs s \<and>
     word1 g = sampler_state_cube_handle objs s \<and> word2 g = ucast (lod_bias_bits objs s)"

definition heap_ok :: "('d \<Rightarrow> 'g \<Rightarrow> bool) \<Rightarrow> ('d, 'g) descriptor_heap \<Rightarrow> bool" where
  "heap_ok R h \<longleftrightarrow> list_all2 R (descriptors h) (mapped_argument_buffer h)"

definition good_heap :: "('t, 'b, 's) objects \<Rightarrow> gpu_words set \<Rightarrow> ('t, 'b) shader_heap \<Rightarrow> bool" where
  "good_heap objs junk h \<longleftrightarrow> heap_ok (image_ok objs junk) h \<and> length (descriptors h) < 2 ^ 20"

definition good_sampler_heap :: "('t, 'b, 's) objects \<Rightarrow> gpu_words set \<Rightarrow> 's sampler_heap \<Rightarrow> bool" where
  "good_sampler_heap objs junk h \<longleftrightarrow> heap_ok (sampler_image_ok objs junk) h \<and> length (descriptors h) < 2 ^ 20"

text \<open>All heaps of the store: their images agree and a handle can name each of their slots.\<close>

definition store_ok :: "('t, 'b, 's) objects \<Rightarrow> gpu_words set \<Rightarrow> ('t, 'b, 's, 'r) store \<Rightarrow> bool" where
  "store_ok objs junk w \<longleftrightarrow>
     (\<forall>p h. shader_heaps w p = Some h \<longrightarrow> good_heap objs junk h) \<and>
     (\<forall>p h. sampler_heaps w p = Some h \<longrightarrow> good_sampler_heap objs junk h) \<and>
     (\<forall>p h. target_heaps w p = Some h \<longrightarrow> length (descriptors h) < 2 ^ 20)"

lemma store_okD:
  assumes "store_ok objs junk w"
  shows "shader_heaps w p = Some h \<Longrightarrow> good_heap objs junk h"
    and "sampler_heaps w p = Some k \<Longrightarrow> good_sampler_heap objs junk k"
    and "target_heaps w p = Some t \<Longrightarrow> length (descriptors t) < 2 ^ 20"
  using assms by (simp_all add: store_ok_def)

lemma store_ok_update:
  assumes "store_ok objs junk w"
  shows "good_heap objs junk h \<Longrightarrow> store_ok objs junk (w\<lparr>shader_heaps := (shader_heaps w)(p \<mapsto> h)\<rparr>)"
    and "good_sampler_heap objs junk k \<Longrightarrow> store_ok objs junk (w\<lparr>sampler_heaps := (sampler_heaps w)(p \<mapsto> k)\<rparr>)"
    and "length (descriptors t) < 2 ^ 20 \<Longrightarrow> store_ok objs junk (w\<lparr>target_heaps := (target_heaps w)(p \<mapsto> t)\<rparr>)"
  using assms by (simp_all add: store_ok_def)

text \<open>What the memory of new heaps held.\<close>

fun junk_of :: "('t, 'b, 's, 'r) heap_call list \<Rightarrow> gpu_words set" where
  "junk_of [] = {}"
| "junk_of (MakeHeap p j ty n visible # cs) = range j \<union> junk_of cs"
| "junk_of (c # cs) = junk_of cs"

lemma or_disjoint_u64: "push_bit 32 (ucast (a :: u32)) OR ucast (b :: u32) = (push_bit 32 (ucast a) + ucast b :: u64)"
  by (rule disjunctive_add_eq_or [symmetric]) (auto simp: bit_eq_iff bit_simps dest: bit_imp_le_length)

lemma drop_TextureMetadata: "drop_bit 32 (TextureMetadata n lod) = ucast n"
  by (rule bit_word_eqI) (auto simp: TextureMetadata_def bit_simps dest: bit_imp_le_length)

lemma add_descriptor_ok:
  assumes "heap_ok R h \<and> length (descriptors h) < 2 ^ 20" and "\<And>g. R c (f g)"
  shows "heap_ok R (snd (add_descriptor i c f h)) \<and> length (descriptors (snd (add_descriptor i c f h))) < 2 ^ 20"
  using assms by (auto simp: add_descriptor_def heap_ok_def intro!: list_all2_update_cong)

lemmas add_defs = AddShaderResourceView_texture_def AddConstantBufferView_def AddUnorderedAccessView_texture_def
  AddUnorderedAccessView_texel_def AddUnorderedAccessView_buffer_def AddShaderResourceView_texel_def
  AddShaderResourceView_buffer_def

lemma add_good:
  "good_heap objs junk h \<Longrightarrow> (\<And>g. image_ok objs junk c (f g)) \<Longrightarrow> good_heap objs junk (snd (add_descriptor i c f h))"
  unfolding good_heap_def by (rule add_descriptor_ok)

lemma adds_ok:
  assumes "good_heap objs junk h"
  shows "good_heap objs junk (snd (AddShaderResourceView_texture objs i t v lod h))"
    and "good_heap objs junk (snd (AddConstantBufferView i va bytes h))"
    and "good_heap objs junk (snd (AddUnorderedAccessView_texture objs i t v h))"
    and "good_heap objs junk (snd (AddUnorderedAccessView_texel objs i b v sl h))"
    and "good_heap objs junk (snd (AddUnorderedAccessView_buffer objs i b sl cn off h))"
    and "good_heap objs junk (snd (AddShaderResourceView_texel objs i b v sl h))"
    and "good_heap objs junk (snd (AddShaderResourceView_buffer objs i b sl h))"
    and "good_heap objs junk (snd (AddNullView i has_desc h))"
  using assms unfolding add_defs AddNullView_def
  by (auto intro!: add_good simp: texture_words_def texel_words_def or_disjoint_u64 drop_TextureMetadata
      TextureMetadata_def [of _ 0] split: option.splits)

lemma on_shader_heap_ok:
  assumes w: "store_ok objs junk w" and s: "on_shader_heap h f w = Some w'"
    and f: "\<And>hp. good_heap objs junk hp \<Longrightarrow> good_heap objs junk (snd (f (handle_descriptor h) hp))"
  shows "store_ok objs junk w'"
  using s store_ok_update(1) [OF w] f store_okD(1) [OF w] by (auto simp: on_shader_heap_def split: option.splits)

lemma create_heap_ok:
  assumes w: "store_ok objs junk w" and "range j \<subseteq> junk"
  shows "store_ok objs junk (snd (CreateDescriptorHeap p j ty n visible w))"
proof (cases "n > 0xFFFFF")
  case False
  then have n: "unat n < 2 ^ 20" by (simp add: not_less word_le_nat_alt)
  have "j i \<in> junk" for i using assms(2) by blast
  then have "good_heap objs junk \<lparr>desc_type = ty, desc_visible = visible, descriptors = replicate (unat n) Null,
        mapped_argument_buffer = map j [0..<unat n]\<rparr>"
      "good_sampler_heap objs junk \<lparr>desc_type = ty, desc_visible = visible, descriptors = replicate (unat n) None,
        mapped_argument_buffer = map j [0..<unat n]\<rparr>" for ty
    using n by (auto simp: good_heap_def good_sampler_heap_def heap_ok_def list_all2_conv_all_nth)
  then show ?thesis using w n store_ok_update [OF w]
    by (cases ty) (simp_all add: CreateDescriptorHeap_def Let_def)
qed (use w in \<open>simp add: CreateDescriptorHeap_def\<close>)

lemma heap_ok_copy:
  assumes "heap_ok R k" "heap_ok R h" "i < length (descriptors k)"
  shows "heap_ok R (h\<lparr>descriptors := (descriptors h)[j := descriptors k ! i],
    mapped_argument_buffer := (mapped_argument_buffer h)[j := mapped_argument_buffer k ! i]\<rparr>)"
  using assms by (auto simp: heap_ok_def intro!: list_all2_update_cong dest: list_all2_nthD)

lemma copy_slot_ok:
  assumes w: "store_ok objs junk w" and c: "copy_slot ty src dst i j w = Some w'"
  shows "store_ok objs junk w'"
proof (cases ty)
  case CBV_SRV_UAV
  then show ?thesis using c
    by (auto simp: copy_shader_slot_def good_heap_def split: option.splits if_splits
        intro!: store_ok_update(1) [OF w] heap_ok_copy dest!: store_okD(1) [OF w])
next
  case SAMPLER
  then show ?thesis using c
    by (auto simp: copy_sampler_slot_def good_sampler_heap_def split: option.splits if_splits
        intro!: store_ok_update(2) [OF w] heap_ok_copy dest!: store_okD(2) [OF w])
qed (use c w in \<open>auto simp: copy_target_slot_def split: option.splits if_splits
      intro!: store_ok_update(3) [OF w] dest!: store_okD(3) [OF w]\<close>)

lemma copy_each_ok:
  assumes "store_ok objs junk w" "copy_each (copy_slot ty) ps w = Some w'"
  shows "store_ok objs junk w'"
  using assms
proof (induction ps arbitrary: w)
  case (Cons p ps)
  obtain src i dst j where p: "p = ((src, i), (dst, j))" by (metis surj_pair)
  then obtain w1 where "copy_slot ty src dst i j w = Some w1" "copy_each (copy_slot ty) ps w1 = Some w'"
    using Cons.prems(2) by (auto split: option.splits)
  then show ?case using Cons.IH copy_slot_ok [OF Cons.prems(1)] by blast
qed simp

lemma CopyDescriptors_each:
  "CopyDescriptors dsts srcs ty w =
    (if ty = NUM_TYPES then Some w else copy_each (copy_slot ty) (zip (range_slots srcs) (range_slots dsts)) w)"
  using slots.copy_ranges_each [where di = 0 and si = 0 and ds = dsts and ss = srcs and w = w and ty = ty]
  by (simp add: CopyDescriptors_def)

lemma heap_step_ok:
  assumes w: "store_ok objs junk w" and s: "heap_step objs c w = Some w'" and j: "junk_of [c] \<subseteq> junk"
  shows "store_ok objs junk w'"
proof (cases c)
  case (MakeHeap p jk ty n visible)
  then show ?thesis using create_heap_ok [OF w, of jk] s j by auto
next
  case (Copy dsts srcs ty)
  then show ?thesis using copy_each_ok [OF w] s w by (auto simp: CopyDescriptors_each split: if_splits)
next
  case (MakeSampler h x)
  then show ?thesis using s
    by (auto simp: CreateSampler_def AddSampler_def good_sampler_heap_def heap_ok_def split: option.splits if_splits
        intro!: store_ok_update(2) [OF w] list_all2_update_cong dest!: store_okD(2) [OF w])
next
  case (MakeTarget h d)
  then show ?thesis using s
    by (auto simp: CreateTarget_def AddRenderTarget_def split: option.splits if_splits
        intro!: store_ok_update(3) [OF w] dest!: store_okD(3) [OF w])
next
  case (MakeCbv h va bytes)
  then show ?thesis using s on_shader_heap_ok [OF w _ adds_ok(2)] by simp
next
  case (MakeSrvTexture h t v lod)
  then show ?thesis using s on_shader_heap_ok [OF w _ adds_ok(1)] by simp
next
  case (MakeUavTexture h t v)
  then show ?thesis using s on_shader_heap_ok [OF w _ adds_ok(3)] by simp
next
  case (MakeSrvTexel h b v sl)
  then show ?thesis using s on_shader_heap_ok [OF w _ adds_ok(6)] by simp
next
  case (MakeUavTexel h b v sl)
  then show ?thesis using s on_shader_heap_ok [OF w _ adds_ok(4)] by simp
next
  case (MakeSrvBuffer h b sl)
  then show ?thesis using s on_shader_heap_ok [OF w _ adds_ok(7)] by simp
next
  case (MakeUavBuffer h b sl cn off)
  then show ?thesis using s on_shader_heap_ok [OF w _ adds_ok(5)] by simp
next
  case (MakeNullView h has_desc)
  then show ?thesis using s on_shader_heap_ok [OF w _ adds_ok(8)] by simp
qed

lemma junk_of_Cons: "junk_of (c # cs) = junk_of [c] \<union> junk_of cs"
  by (cases c) auto

lemma heap_run_ok:
  assumes "store_ok objs junk w" "heap_run objs cs w = Some w'" "junk_of cs \<subseteq> junk"
  shows "store_ok objs junk w'"
  using assms
proof (induction cs arbitrary: w)
  case (Cons c cs)
  have j: "junk_of [c] \<subseteq> junk" "junk_of cs \<subseteq> junk" using Cons.prems(3) by (simp_all add: junk_of_Cons [of c cs])
  obtain w1 where "heap_step objs c w = Some w1" "heap_run objs cs w1 = Some w'"
    using Cons.prems(2) by (auto split: option.splits)
  then show ?case using Cons.IH heap_step_ok [OF Cons.prems(1) _ j(1)] j(2) by blast
qed simp

section \<open>Properties\<close>

text \<open>
  C34. Descriptor handle arithmetic is sound: from a handle made for an 8-byte aligned heap
  object in the lower half of the address space, adding any multiple of the increment size
  that stays below \<open>2^20\<close> slots gives the handle of the same heap with the index moved by
  that multiple.
\<close>

theorem handle_arithmetic:
  assumes "8 dvd unat p" "unat p < 2 ^ 47" "unat i + k < 2 ^ 20"
  shows "handle_extract (embed_handle p i + of_nat k * GetDescriptorHandleIncrementSize) = p \<and>
    handle_descriptor (embed_handle p i + of_nat k * GetDescriptorHandleIncrementSize) = i + of_nat k"
proof -
  have "unat (i + of_nat k) < 2 ^ 20" using assms(3) by (simp add: unat_word_ariths unat_of_nat)
  then show ?thesis
    by (simp add: embed_handle_add [OF assms(3)] handle_extract_embed [OF assms(1,2)] handle_descriptor_embed)
qed

lemma handle_arithmetic_witness:
  "handle_extract (embed_handle 0x7f0012345678 3 + of_nat 0xFFFF0 * GetDescriptorHandleIncrementSize) = 0x7f0012345678 \<and>
    handle_descriptor (embed_handle 0x7f0012345678 3 + of_nat 0xFFFF0 * GetDescriptorHandleIncrementSize) = 0xFFFF3"
  using handle_arithmetic [of "0x7f0012345678" 3 "0xFFFF0"] by simp

text \<open>
  C35. A descriptor is always what its tag says: after any sequence of calls that creates heaps
  and creates and copies descriptors of all kinds, every heap has as many words as
  descriptors, at most \<open>2^20 - 1\<close> of them, and the words the shaders read in each slot are the
  image of the tagged value the encoder reads there.
\<close>

theorem descriptor_images_agree:
  assumes "heap_run objs cs empty_store = Some w"
  shows "store_ok objs (junk_of cs) w"
  by (rule heap_run_ok [OF _ assms]) (simp_all add: store_ok_def empty_store_def)

definition sample_objects :: "(nat, nat, nat) objects" where
  "sample_objects = \<lparr>view_resource_id = \<lambda>t v. of_nat (t + v), view_array_length = \<lambda>t v. 6,
     buffer_view_id = \<lambda>b v. of_nat (b + v), gpuAddress = \<lambda>b. push_bit 12 (of_nat b),
     sampler_state_handle = of_nat, sampler_state_cube_handle = of_nat, lod_bias_bits = \<lambda>s. 0\<rparr>"

definition sample_slice :: buffer_slice where
  "sample_slice = \<lparr>byteOffset = 16, byteLength = 64, firstElement = 4, elementCount = 16\<rparr>"

definition sample_calls :: "(nat, nat, nat, nat) heap_call list" where
  "sample_calls =
     [MakeHeap 0x1000 (\<lambda>_. ZeroFilled) CBV_SRV_UAV 3 True,
      MakeUavBuffer (embed_handle 0x1000 1) (Some 5) sample_slice (Some 6) 8,
      Copy [(embed_handle 0x1000 2, 1)] [(embed_handle 0x1000 1, 1)] CBV_SRV_UAV]"

lemma sample_run:
  "map_option (\<lambda>w. map_option (\<lambda>h. (descriptors h, map word0 (mapped_argument_buffer h))) (shader_heaps w 0x1000))
     (heap_run sample_objects sample_calls empty_store) =
   Some (Some ([Null, UAVBuffer (Some 5) sample_slice, UAVBuffer (Some 5) sample_slice], [0, 20496, 20496]))"
  by code_simp

lemma descriptor_images_agree_witness:
  "let h = the (shader_heaps (the (heap_run sample_objects sample_calls empty_store)) 0x1000)
   in image_ok sample_objects {ZeroFilled} (descriptors h ! 2) (mapped_argument_buffer h ! 2) \<and>
     descriptors h ! 2 = UAVBuffer (Some 5) sample_slice \<and> word0 (mapped_argument_buffer h ! 2) = 20496"
proof -
  obtain w h where w: "heap_run sample_objects sample_calls empty_store = Some w" "shader_heaps w 0x1000 = Some h"
      "descriptors h = [Null, UAVBuffer (Some 5) sample_slice, UAVBuffer (Some 5) sample_slice]"
      "map word0 (mapped_argument_buffer h) = [0, 20496, 20496]"
    using sample_run by (auto simp: map_option_case split: option.splits)
  have "junk_of sample_calls = {ZeroFilled}" by (simp add: sample_calls_def)
  then have "store_ok sample_objects {ZeroFilled} w"
    using descriptor_images_agree [OF w(1)] by simp
  then have "good_heap sample_objects {ZeroFilled} h" using store_okD(1) w(2) by blast
  then have "image_ok sample_objects {ZeroFilled} (descriptors h ! 2) (mapped_argument_buffer h ! 2)"
    using w(3) by (auto simp: good_heap_def heap_ok_def dest: list_all2_nthD [of _ _ _ 2])
  moreover have "word0 (mapped_argument_buffer h ! 2) = 20496" using arg_cong [OF w(4), of "\<lambda>l. l ! 2"] arg_cong [OF w(4), of length] by simp
  ultimately show ?thesis using w by (simp add: Let_def)
qed

text \<open>
  C12. Copying ranges ends and copies in order: whatever the numbers and sizes of the destination
  and source ranges, empty ones included, the loop of \<open>CopyDescriptors\<close> does exactly what copying
  the listed descriptors one by one does, the k-th listed source to the k-th listed
  destination, until one of the lists is exhausted.
\<close>

theorem device_copy_in_order:
  "CopyDescriptors dsts srcs ty w =
    (if ty = NUM_TYPES then Some w else copy_each (copy_slot ty) (zip (range_slots srcs) (range_slots dsts)) w)"
  by (rule CopyDescriptors_each)

end
