(* ===== verification/ShaderTokens.thy ===== *)
theory ShaderTokens
  imports Prelude
begin

text \<open>
  The tokens of a DXBC shader: the \<open>DECODE\<close> and \<open>ENCODE\<close> macros of
  \<open>libs/DXBCParser/d3d12tokenizedprogramformat.hpp\<close> that the parser and its specification use,
  with their masks and shifts written out, the opcodes, and the table \<open>g_InstructionInfo\<close> of
  \<open>libs/DXBCParser/ShaderBinary.cpp\<close>.  A field of an enumeration type is its 32-bit number.
\<close>

section \<open>Program and opcode tokens\<close>

definition DECODE_D3D10_SB_CUSTOMDATA_CLASS :: "u32 \<Rightarrow> u32" where
  "DECODE_D3D10_SB_CUSTOMDATA_CLASS t = drop_bit 11 (t AND 0xfffff800)"

definition DECODE_D3D10_SB_EXTENDED_OPCODE_TYPE :: "u32 \<Rightarrow> u32" where
  "DECODE_D3D10_SB_EXTENDED_OPCODE_TYPE t = t AND 0x3f"

definition DECODE_D3D10_SB_INSTRUCTION_RETURN_TYPE :: "u32 \<Rightarrow> u32" where
  "DECODE_D3D10_SB_INSTRUCTION_RETURN_TYPE t = drop_bit 11 (t AND 0x1800)"

definition DECODE_D3D10_SB_INSTRUCTION_TEST_BOOLEAN :: "u32 \<Rightarrow> u32" where
  "DECODE_D3D10_SB_INSTRUCTION_TEST_BOOLEAN t = drop_bit 18 (t AND 0x40000)"

definition DECODE_D3D10_SB_OPCODE_TYPE :: "u32 \<Rightarrow> u32" where
  "DECODE_D3D10_SB_OPCODE_TYPE t = t AND 0x7ff"

definition DECODE_D3D10_SB_RESINFO_INSTRUCTION_RETURN_TYPE :: "u32 \<Rightarrow> u32" where
  "DECODE_D3D10_SB_RESINFO_INSTRUCTION_RETURN_TYPE t = drop_bit 11 (t AND 0x1800)"

definition DECODE_D3D10_SB_TOKENIZED_INSTRUCTION_LENGTH :: "u32 \<Rightarrow> u32" where
  "DECODE_D3D10_SB_TOKENIZED_INSTRUCTION_LENGTH t = drop_bit 24 (t AND 0x7f000000)"

definition DECODE_D3D10_SB_TOKENIZED_PROGRAM_MAJOR_VERSION :: "u32 \<Rightarrow> u32" where
  "DECODE_D3D10_SB_TOKENIZED_PROGRAM_MAJOR_VERSION t = drop_bit 4 (t AND 0xf0)"

definition DECODE_D3D10_SB_TOKENIZED_PROGRAM_MINOR_VERSION :: "u32 \<Rightarrow> u32" where
  "DECODE_D3D10_SB_TOKENIZED_PROGRAM_MINOR_VERSION t = t AND 0xf"

definition DECODE_D3D10_SB_TOKENIZED_PROGRAM_TYPE :: "u32 \<Rightarrow> u32" where
  "DECODE_D3D10_SB_TOKENIZED_PROGRAM_TYPE t = drop_bit 16 (t AND 0xffff0000)"

definition DECODE_D3D11_SB_INSTRUCTION_PRECISE_VALUES :: "u32 \<Rightarrow> u32" where
  "DECODE_D3D11_SB_INSTRUCTION_PRECISE_VALUES t = drop_bit 19 (t AND 0x780000)"

definition DECODE_D3D11_SB_SYNC_FLAGS :: "u32 \<Rightarrow> u32" where
  "DECODE_D3D11_SB_SYNC_FLAGS t = t AND 0x7800"

definition DECODE_IS_D3D10_SB_INSTRUCTION_SATURATE_ENABLED :: "u32 \<Rightarrow> u32" where
  "DECODE_IS_D3D10_SB_INSTRUCTION_SATURATE_ENABLED t = t AND 0x2000"

definition DECODE_IS_D3D10_SB_OPCODE_EXTENDED :: "u32 \<Rightarrow> u32" where
  "DECODE_IS_D3D10_SB_OPCODE_EXTENDED t = drop_bit 31 (t AND 0x80000000)"

section \<open>Extended opcode tokens\<close>

definition DECODE_D3D11_SB_EXTENDED_RESOURCE_DIMENSION :: "u32 \<Rightarrow> u32" where
  "DECODE_D3D11_SB_EXTENDED_RESOURCE_DIMENSION t = drop_bit 6 (t AND 0x7c0)"

definition DECODE_D3D11_SB_EXTENDED_RESOURCE_DIMENSION_STRUCTURE_STRIDE :: "u32 \<Rightarrow> u32" where
  "DECODE_D3D11_SB_EXTENDED_RESOURCE_DIMENSION_STRUCTURE_STRIDE t = drop_bit 11 (t AND 0x7ff800)"

definition DECODE_D3D11_SB_EXTENDED_RESOURCE_RETURN_TYPE :: "u32 \<Rightarrow> nat \<Rightarrow> u32" where
  "DECODE_D3D11_SB_EXTENDED_RESOURCE_RETURN_TYPE t component = drop_bit (component * 4 + 6) t AND 0xf"

definition DECODE_IMMEDIATE_D3D10_SB_ADDRESS_OFFSET :: "nat \<Rightarrow> u32 \<Rightarrow> u32" where
  "DECODE_IMMEDIATE_D3D10_SB_ADDRESS_OFFSET coord t = drop_bit (9 + 4 * coord) (t AND push_bit (9 + 4 * coord) 0xf)"

section \<open>Operand tokens\<close>

definition DECODE_D3D10_SB_EXTENDED_OPERAND_TYPE :: "u32 \<Rightarrow> u32" where
  "DECODE_D3D10_SB_EXTENDED_OPERAND_TYPE t = t AND 0x3f"

definition DECODE_D3D10_SB_OPERAND_4_COMPONENT_MASK :: "u32 \<Rightarrow> u32" where
  "DECODE_D3D10_SB_OPERAND_4_COMPONENT_MASK t = t AND 0xf0"

definition DECODE_D3D10_SB_OPERAND_4_COMPONENT_SELECTION_MODE :: "u32 \<Rightarrow> u32" where
  "DECODE_D3D10_SB_OPERAND_4_COMPONENT_SELECTION_MODE t = drop_bit 2 (t AND 0xc)"

definition DECODE_D3D10_SB_OPERAND_4_COMPONENT_SELECT_1 :: "u32 \<Rightarrow> u32" where
  "DECODE_D3D10_SB_OPERAND_4_COMPONENT_SELECT_1 t = drop_bit 4 (t AND 0x30)"

definition DECODE_D3D10_SB_OPERAND_4_COMPONENT_SWIZZLE_SOURCE :: "u32 \<Rightarrow> nat \<Rightarrow> u32" where
  "DECODE_D3D10_SB_OPERAND_4_COMPONENT_SWIZZLE_SOURCE t dest = drop_bit (4 + 2 * dest) t AND 3"

definition DECODE_D3D10_SB_OPERAND_INDEX_DIMENSION :: "u32 \<Rightarrow> u32" where
  "DECODE_D3D10_SB_OPERAND_INDEX_DIMENSION t = drop_bit 20 (t AND 0x300000)"

definition DECODE_D3D10_SB_OPERAND_INDEX_REPRESENTATION :: "nat \<Rightarrow> u32 \<Rightarrow> u32" where
  "DECODE_D3D10_SB_OPERAND_INDEX_REPRESENTATION dim t = drop_bit (22 + 3 * dim) (t AND push_bit (22 + 3 * dim) 0x3)"

definition DECODE_D3D10_SB_OPERAND_MODIFIER :: "u32 \<Rightarrow> u32" where
  "DECODE_D3D10_SB_OPERAND_MODIFIER t = drop_bit 6 (t AND 0x3fc0)"

definition DECODE_D3D10_SB_OPERAND_NUM_COMPONENTS :: "u32 \<Rightarrow> u32" where
  "DECODE_D3D10_SB_OPERAND_NUM_COMPONENTS t = t AND 0x3"

definition DECODE_D3D10_SB_OPERAND_TYPE :: "u32 \<Rightarrow> u32" where
  "DECODE_D3D10_SB_OPERAND_TYPE t = drop_bit 12 (t AND 0xff000)"

definition DECODE_D3D11_SB_OPERAND_MIN_PRECISION :: "u32 \<Rightarrow> u32" where
  "DECODE_D3D11_SB_OPERAND_MIN_PRECISION t = drop_bit 14 (t AND 0x1c000)"

definition DECODE_D3D12_SB_OPERAND_NON_UNIFORM :: "u32 \<Rightarrow> u32" where
  "DECODE_D3D12_SB_OPERAND_NON_UNIFORM t = drop_bit 17 (t AND 0x20000)"

definition DECODE_IS_D3D10_SB_OPERAND_EXTENDED :: "u32 \<Rightarrow> u32" where
  "DECODE_IS_D3D10_SB_OPERAND_EXTENDED t = drop_bit 31 (t AND 0x80000000)"

section \<open>Declaration tokens\<close>

definition DECODE_D3D10_SB_CONSTANT_BUFFER_ACCESS_PATTERN :: "u32 \<Rightarrow> u32" where
  "DECODE_D3D10_SB_CONSTANT_BUFFER_ACCESS_PATTERN t = drop_bit 11 (t AND 0x800)"

definition DECODE_D3D10_SB_GLOBAL_FLAGS :: "u32 \<Rightarrow> u32" where
  "DECODE_D3D10_SB_GLOBAL_FLAGS t = t AND 0xfff800"

definition DECODE_D3D10_SB_GS_INPUT_PRIMITIVE :: "u32 \<Rightarrow> u32" where
  "DECODE_D3D10_SB_GS_INPUT_PRIMITIVE t = drop_bit 11 (t AND 0x1f800)"

definition DECODE_D3D10_SB_GS_OUTPUT_PRIMITIVE_TOPOLOGY :: "u32 \<Rightarrow> u32" where
  "DECODE_D3D10_SB_GS_OUTPUT_PRIMITIVE_TOPOLOGY t = drop_bit 11 (t AND 0x1f800)"

definition DECODE_D3D10_SB_INPUT_INTERPOLATION_MODE :: "u32 \<Rightarrow> u32" where
  "DECODE_D3D10_SB_INPUT_INTERPOLATION_MODE t = drop_bit 11 (t AND 0x7800)"

definition DECODE_D3D10_SB_NAME :: "u32 \<Rightarrow> u32" where
  "DECODE_D3D10_SB_NAME t = t AND 0xffff"

definition DECODE_D3D10_SB_RESOURCE_DIMENSION :: "u32 \<Rightarrow> u32" where
  "DECODE_D3D10_SB_RESOURCE_DIMENSION t = drop_bit 11 (t AND 0xf800)"

definition DECODE_D3D10_SB_RESOURCE_RETURN_TYPE :: "u32 \<Rightarrow> nat \<Rightarrow> u32" where
  "DECODE_D3D10_SB_RESOURCE_RETURN_TYPE t component = drop_bit (component * 4) t AND 0xf"

definition DECODE_D3D10_SB_RESOURCE_SAMPLE_COUNT :: "u32 \<Rightarrow> u32" where
  "DECODE_D3D10_SB_RESOURCE_SAMPLE_COUNT t = drop_bit 16 (t AND 0x7f0000)"

definition DECODE_D3D10_SB_SAMPLER_MODE :: "u32 \<Rightarrow> u32" where
  "DECODE_D3D10_SB_SAMPLER_MODE t = drop_bit 11 (t AND 0x7800)"

definition DECODE_D3D11_SB_INPUT_CONTROL_POINT_COUNT :: "u32 \<Rightarrow> u32" where
  "DECODE_D3D11_SB_INPUT_CONTROL_POINT_COUNT t = drop_bit 11 (t AND 0x1f800)"

definition DECODE_D3D11_SB_INTERFACE_ARRAY_LENGTH :: "u32 \<Rightarrow> u32" where
  "DECODE_D3D11_SB_INTERFACE_ARRAY_LENGTH t = drop_bit 16 (t AND 0xffff0000)"

definition DECODE_D3D11_SB_INTERFACE_INDEXED_BIT :: "u32 \<Rightarrow> bool" where
  "DECODE_D3D11_SB_INTERFACE_INDEXED_BIT t = (drop_bit 11 (t AND 0x800) \<noteq> 0)"

definition DECODE_D3D11_SB_INTERFACE_TABLE_LENGTH :: "u32 \<Rightarrow> u32" where
  "DECODE_D3D11_SB_INTERFACE_TABLE_LENGTH t = t AND 0xffff"

definition DECODE_D3D11_SB_OUTPUT_CONTROL_POINT_COUNT :: "u32 \<Rightarrow> u32" where
  "DECODE_D3D11_SB_OUTPUT_CONTROL_POINT_COUNT t = drop_bit 11 (t AND 0x1f800)"

definition DECODE_D3D11_SB_RESOURCE_FLAGS :: "u32 \<Rightarrow> u32" where
  "DECODE_D3D11_SB_RESOURCE_FLAGS t = t AND 0x830000"

definition DECODE_D3D11_SB_TESS_DOMAIN :: "u32 \<Rightarrow> u32" where
  "DECODE_D3D11_SB_TESS_DOMAIN t = drop_bit 11 (t AND 0x1800)"

definition DECODE_D3D11_SB_TESS_OUTPUT_PRIMITIVE :: "u32 \<Rightarrow> u32" where
  "DECODE_D3D11_SB_TESS_OUTPUT_PRIMITIVE t = drop_bit 11 (t AND 0x3800)"

definition DECODE_D3D11_SB_TESS_PARTITIONING :: "u32 \<Rightarrow> u32" where
  "DECODE_D3D11_SB_TESS_PARTITIONING t = drop_bit 11 (t AND 0x3800)"

section \<open>Opcodes\<close>

text \<open>The opcodes that \<open>ParseInstruction\<close> names, with their number in the enumeration.\<close>

abbreviation D3D10_SB_OPCODE_BREAKC :: u32 where "D3D10_SB_OPCODE_BREAKC \<equiv> 3"
abbreviation D3D10_SB_OPCODE_CALLC :: u32 where "D3D10_SB_OPCODE_CALLC \<equiv> 5"
abbreviation D3D10_SB_OPCODE_CONTINUEC :: u32 where "D3D10_SB_OPCODE_CONTINUEC \<equiv> 8"
abbreviation D3D10_SB_OPCODE_DISCARD :: u32 where "D3D10_SB_OPCODE_DISCARD \<equiv> 13"
abbreviation D3D10_SB_OPCODE_IF :: u32 where "D3D10_SB_OPCODE_IF \<equiv> 31"
abbreviation D3D10_SB_OPCODE_CUSTOMDATA :: u32 where "D3D10_SB_OPCODE_CUSTOMDATA \<equiv> 53"
abbreviation D3D10_SB_OPCODE_RESINFO :: u32 where "D3D10_SB_OPCODE_RESINFO \<equiv> 61"
abbreviation D3D10_SB_OPCODE_RETC :: u32 where "D3D10_SB_OPCODE_RETC \<equiv> 63"
abbreviation D3D10_SB_OPCODE_DCL_RESOURCE :: u32 where "D3D10_SB_OPCODE_DCL_RESOURCE \<equiv> 88"
abbreviation D3D10_SB_OPCODE_DCL_CONSTANT_BUFFER :: u32 where "D3D10_SB_OPCODE_DCL_CONSTANT_BUFFER \<equiv> 89"
abbreviation D3D10_SB_OPCODE_DCL_SAMPLER :: u32 where "D3D10_SB_OPCODE_DCL_SAMPLER \<equiv> 90"
abbreviation D3D10_SB_OPCODE_DCL_INDEX_RANGE :: u32 where "D3D10_SB_OPCODE_DCL_INDEX_RANGE \<equiv> 91"
abbreviation D3D10_SB_OPCODE_DCL_GS_OUTPUT_PRIMITIVE_TOPOLOGY :: u32 where "D3D10_SB_OPCODE_DCL_GS_OUTPUT_PRIMITIVE_TOPOLOGY \<equiv> 92"
abbreviation D3D10_SB_OPCODE_DCL_GS_INPUT_PRIMITIVE :: u32 where "D3D10_SB_OPCODE_DCL_GS_INPUT_PRIMITIVE \<equiv> 93"
abbreviation D3D10_SB_OPCODE_DCL_MAX_OUTPUT_VERTEX_COUNT :: u32 where "D3D10_SB_OPCODE_DCL_MAX_OUTPUT_VERTEX_COUNT \<equiv> 94"
abbreviation D3D10_SB_OPCODE_DCL_INPUT :: u32 where "D3D10_SB_OPCODE_DCL_INPUT \<equiv> 95"
abbreviation D3D10_SB_OPCODE_DCL_INPUT_SGV :: u32 where "D3D10_SB_OPCODE_DCL_INPUT_SGV \<equiv> 96"
abbreviation D3D10_SB_OPCODE_DCL_INPUT_SIV :: u32 where "D3D10_SB_OPCODE_DCL_INPUT_SIV \<equiv> 97"
abbreviation D3D10_SB_OPCODE_DCL_INPUT_PS :: u32 where "D3D10_SB_OPCODE_DCL_INPUT_PS \<equiv> 98"
abbreviation D3D10_SB_OPCODE_DCL_INPUT_PS_SGV :: u32 where "D3D10_SB_OPCODE_DCL_INPUT_PS_SGV \<equiv> 99"
abbreviation D3D10_SB_OPCODE_DCL_INPUT_PS_SIV :: u32 where "D3D10_SB_OPCODE_DCL_INPUT_PS_SIV \<equiv> 100"
abbreviation D3D10_SB_OPCODE_DCL_OUTPUT :: u32 where "D3D10_SB_OPCODE_DCL_OUTPUT \<equiv> 101"
abbreviation D3D10_SB_OPCODE_DCL_OUTPUT_SGV :: u32 where "D3D10_SB_OPCODE_DCL_OUTPUT_SGV \<equiv> 102"
abbreviation D3D10_SB_OPCODE_DCL_OUTPUT_SIV :: u32 where "D3D10_SB_OPCODE_DCL_OUTPUT_SIV \<equiv> 103"
abbreviation D3D10_SB_OPCODE_DCL_TEMPS :: u32 where "D3D10_SB_OPCODE_DCL_TEMPS \<equiv> 104"
abbreviation D3D10_SB_OPCODE_DCL_INDEXABLE_TEMP :: u32 where "D3D10_SB_OPCODE_DCL_INDEXABLE_TEMP \<equiv> 105"
abbreviation D3D10_SB_OPCODE_DCL_GLOBAL_FLAGS :: u32 where "D3D10_SB_OPCODE_DCL_GLOBAL_FLAGS \<equiv> 106"
abbreviation D3D10_1_SB_OPCODE_SAMPLE_INFO :: u32 where "D3D10_1_SB_OPCODE_SAMPLE_INFO \<equiv> 111"
abbreviation D3D11_SB_OPCODE_INTERFACE_CALL :: u32 where "D3D11_SB_OPCODE_INTERFACE_CALL \<equiv> 120"
abbreviation D3D11_SB_OPCODE_DCL_STREAM :: u32 where "D3D11_SB_OPCODE_DCL_STREAM \<equiv> 143"
abbreviation D3D11_SB_OPCODE_DCL_FUNCTION_BODY :: u32 where "D3D11_SB_OPCODE_DCL_FUNCTION_BODY \<equiv> 144"
abbreviation D3D11_SB_OPCODE_DCL_FUNCTION_TABLE :: u32 where "D3D11_SB_OPCODE_DCL_FUNCTION_TABLE \<equiv> 145"
abbreviation D3D11_SB_OPCODE_DCL_INTERFACE :: u32 where "D3D11_SB_OPCODE_DCL_INTERFACE \<equiv> 146"
abbreviation D3D11_SB_OPCODE_DCL_INPUT_CONTROL_POINT_COUNT :: u32 where "D3D11_SB_OPCODE_DCL_INPUT_CONTROL_POINT_COUNT \<equiv> 147"
abbreviation D3D11_SB_OPCODE_DCL_OUTPUT_CONTROL_POINT_COUNT :: u32 where "D3D11_SB_OPCODE_DCL_OUTPUT_CONTROL_POINT_COUNT \<equiv> 148"
abbreviation D3D11_SB_OPCODE_DCL_TESS_DOMAIN :: u32 where "D3D11_SB_OPCODE_DCL_TESS_DOMAIN \<equiv> 149"
abbreviation D3D11_SB_OPCODE_DCL_TESS_PARTITIONING :: u32 where "D3D11_SB_OPCODE_DCL_TESS_PARTITIONING \<equiv> 150"
abbreviation D3D11_SB_OPCODE_DCL_TESS_OUTPUT_PRIMITIVE :: u32 where "D3D11_SB_OPCODE_DCL_TESS_OUTPUT_PRIMITIVE \<equiv> 151"
abbreviation D3D11_SB_OPCODE_DCL_HS_MAX_TESSFACTOR :: u32 where "D3D11_SB_OPCODE_DCL_HS_MAX_TESSFACTOR \<equiv> 152"
abbreviation D3D11_SB_OPCODE_DCL_HS_FORK_PHASE_INSTANCE_COUNT :: u32 where "D3D11_SB_OPCODE_DCL_HS_FORK_PHASE_INSTANCE_COUNT \<equiv> 153"
abbreviation D3D11_SB_OPCODE_DCL_HS_JOIN_PHASE_INSTANCE_COUNT :: u32 where "D3D11_SB_OPCODE_DCL_HS_JOIN_PHASE_INSTANCE_COUNT \<equiv> 154"
abbreviation D3D11_SB_OPCODE_DCL_THREAD_GROUP :: u32 where "D3D11_SB_OPCODE_DCL_THREAD_GROUP \<equiv> 155"
abbreviation D3D11_SB_OPCODE_DCL_UNORDERED_ACCESS_VIEW_TYPED :: u32 where "D3D11_SB_OPCODE_DCL_UNORDERED_ACCESS_VIEW_TYPED \<equiv> 156"
abbreviation D3D11_SB_OPCODE_DCL_UNORDERED_ACCESS_VIEW_RAW :: u32 where "D3D11_SB_OPCODE_DCL_UNORDERED_ACCESS_VIEW_RAW \<equiv> 157"
abbreviation D3D11_SB_OPCODE_DCL_UNORDERED_ACCESS_VIEW_STRUCTURED :: u32 where "D3D11_SB_OPCODE_DCL_UNORDERED_ACCESS_VIEW_STRUCTURED \<equiv> 158"
abbreviation D3D11_SB_OPCODE_DCL_THREAD_GROUP_SHARED_MEMORY_RAW :: u32 where "D3D11_SB_OPCODE_DCL_THREAD_GROUP_SHARED_MEMORY_RAW \<equiv> 159"
abbreviation D3D11_SB_OPCODE_DCL_THREAD_GROUP_SHARED_MEMORY_STRUCTURED :: u32 where "D3D11_SB_OPCODE_DCL_THREAD_GROUP_SHARED_MEMORY_STRUCTURED \<equiv> 160"
abbreviation D3D11_SB_OPCODE_DCL_RESOURCE_RAW :: u32 where "D3D11_SB_OPCODE_DCL_RESOURCE_RAW \<equiv> 161"
abbreviation D3D11_SB_OPCODE_DCL_RESOURCE_STRUCTURED :: u32 where "D3D11_SB_OPCODE_DCL_RESOURCE_STRUCTURED \<equiv> 162"
abbreviation D3D11_SB_OPCODE_SYNC :: u32 where "D3D11_SB_OPCODE_SYNC \<equiv> 190"
abbreviation D3D11_SB_OPCODE_DCL_GS_INSTANCE_COUNT :: u32 where "D3D11_SB_OPCODE_DCL_GS_INSTANCE_COUNT \<equiv> 206"

definition D3D10_SB_NUM_OPCODES :: u32 where "D3D10_SB_NUM_OPCODES = 236"

section \<open>The table of instructions\<close>

datatype opcode_class =
    D3D10_SB_FLOAT_OP | D3D10_SB_INT_OP | D3D10_SB_UINT_OP | D3D10_SB_BIT_OP
  | D3D10_SB_FLOW_OP | D3D10_SB_TEX_OP | D3D10_SB_DCL_OP | D3D11_SB_ATOMIC_OP
  | D3D11_SB_MEM_OP | D3D11_SB_DOUBLE_OP | D3D11_SB_FLOAT_TO_DOUBLE_OP | D3D11_SB_DOUBLE_TO_FLOAT_OP
  | D3D11_SB_DEBUG_OP

record instruction_info =
  m_Name :: string
  m_NumOperands :: u8
  m_InPrecisionFromOutMask :: u8
  m_OpClass :: opcode_class

text \<open>\<open>SET(OpCode, Name, NumOperands, PrecMask, OpClass)\<close>: one entry of the table, keyed by the opcode.\<close>

definition SET :: "u32 \<Rightarrow> string \<Rightarrow> u8 \<Rightarrow> u8 \<Rightarrow> opcode_class \<Rightarrow> u32 \<times> instruction_info" where
  "SET opcode name n prec cls =
     (opcode, \<lparr>m_Name = name, m_NumOperands = n, m_InPrecisionFromOutMask = prec, m_OpClass = cls\<rparr>)"

definition instruction_info_sm4 :: "(u32 \<times> instruction_info) list" where
  "instruction_info_sm4 =
     [SET 0 ''add'' 3 0x6 D3D10_SB_FLOAT_OP,
      SET 1 ''and'' 3 0x6 D3D10_SB_BIT_OP,
      SET 2 ''break'' 0 0 D3D10_SB_FLOW_OP,
      SET 3 ''breakc'' 1 0 D3D10_SB_FLOW_OP,
      SET 4 ''call'' 1 0 D3D10_SB_FLOW_OP,
      SET 5 ''callc'' 2 0 D3D10_SB_FLOW_OP,
      SET 7 ''continue'' 0 0 D3D10_SB_FLOW_OP,
      SET 8 ''continuec'' 1 0 D3D10_SB_FLOW_OP,
      SET 6 ''case'' 1 0 D3D10_SB_FLOW_OP,
      SET 9 ''cut'' 0 0 D3D10_SB_FLOW_OP,
      SET 10 ''default'' 0 0 D3D10_SB_FLOW_OP,
      SET 13 ''discard'' 1 0 D3D10_SB_FLOW_OP,
      SET 14 ''div'' 3 0x6 D3D10_SB_FLOAT_OP,
      SET 15 ''dp2'' 3 0x6 D3D10_SB_FLOAT_OP,
      SET 16 ''dp3'' 3 0x6 D3D10_SB_FLOAT_OP,
      SET 17 ''dp4'' 3 0x6 D3D10_SB_FLOAT_OP,
      SET 18 ''else'' 0 0 D3D10_SB_FLOW_OP,
      SET 19 ''emit'' 0 0 D3D10_SB_FLOW_OP,
      SET 20 ''emit_then_cut'' 0 0 D3D10_SB_FLOW_OP,
      SET 21 ''endif'' 0 0 D3D10_SB_FLOW_OP,
      SET 22 ''endloop'' 0 0 D3D10_SB_FLOW_OP,
      SET 23 ''endswitch'' 0 0 D3D10_SB_FLOW_OP,
      SET 24 ''eq'' 3 0 D3D10_SB_FLOAT_OP,
      SET 25 ''exp'' 2 0x2 D3D10_SB_FLOAT_OP,
      SET 26 ''frc'' 2 0x2 D3D10_SB_FLOAT_OP,
      SET 27 ''ftoi'' 2 0 D3D10_SB_FLOAT_OP,
      SET 28 ''ftou'' 2 0 D3D10_SB_FLOAT_OP,
      SET 29 ''ge'' 3 0 D3D10_SB_FLOAT_OP,
      SET 11 ''deriv_rtx'' 2 0x2 D3D10_SB_FLOAT_OP,
      SET 12 ''deriv_rty'' 2 0x2 D3D10_SB_FLOAT_OP,
      SET 30 ''iadd'' 3 0x6 D3D10_SB_INT_OP,
      SET 31 ''if'' 1 0 D3D10_SB_FLOW_OP,
      SET 32 ''ieq'' 3 0 D3D10_SB_INT_OP,
      SET 33 ''ige'' 3 0 D3D10_SB_INT_OP,
      SET 34 ''ilt'' 3 0 D3D10_SB_INT_OP,
      SET 35 ''imad'' 4 0xe D3D10_SB_INT_OP,
      SET 36 ''imax'' 3 0x6 D3D10_SB_INT_OP,
      SET 37 ''imin'' 3 0x6 D3D10_SB_INT_OP,
      SET 38 ''imul'' 4 0xc D3D10_SB_INT_OP,
      SET 39 ''ine'' 3 0 D3D10_SB_INT_OP,
      SET 40 ''ineg'' 2 0x2 D3D10_SB_INT_OP,
      SET 41 ''ishl'' 3 0x2 D3D10_SB_INT_OP,
      SET 42 ''ishr'' 3 0x2 D3D10_SB_INT_OP,
      SET 43 ''itof'' 2 0 D3D10_SB_INT_OP,
      SET 44 ''label'' 1 0 D3D10_SB_FLOW_OP,
      SET 45 ''ld'' 3 0 D3D10_SB_TEX_OP,
      SET 46 ''ldms'' 4 0 D3D10_SB_TEX_OP,
      SET 47 ''log'' 2 0x2 D3D10_SB_FLOAT_OP,
      SET 48 ''loop'' 0 0 D3D10_SB_FLOW_OP,
      SET 49 ''lt'' 3 0 D3D10_SB_FLOAT_OP,
      SET 50 ''mad'' 4 0xe D3D10_SB_FLOAT_OP,
      SET 52 ''max'' 3 0x6 D3D10_SB_FLOAT_OP,
      SET 51 ''min'' 3 0x6 D3D10_SB_FLOAT_OP,
      SET 54 ''mov'' 2 0x2 D3D10_SB_FLOAT_OP,
      SET 55 ''movc'' 4 0xc D3D10_SB_FLOAT_OP,
      SET 56 ''mul'' 3 0x6 D3D10_SB_FLOAT_OP,
      SET 57 ''ne'' 3 0 D3D10_SB_FLOAT_OP,
      SET 58 ''nop'' 0 0 D3D10_SB_FLOW_OP,
      SET 59 ''not'' 2 0x2 D3D10_SB_BIT_OP,
      SET 60 ''or'' 3 0x6 D3D10_SB_BIT_OP,
      SET 61 ''resinfo'' 3 0 D3D10_SB_TEX_OP,
      SET 62 ''ret'' 0 0 D3D10_SB_FLOW_OP,
      SET 63 ''retc'' 1 0 D3D10_SB_FLOW_OP,
      SET 64 ''round_ne'' 2 0x2 D3D10_SB_FLOAT_OP,
      SET 65 ''round_ni'' 2 0x2 D3D10_SB_FLOAT_OP,
      SET 66 ''round_pi'' 2 0x2 D3D10_SB_FLOAT_OP,
      SET 67 ''round_z'' 2 0x2 D3D10_SB_FLOAT_OP,
      SET 68 ''rsq'' 2 0x2 D3D10_SB_FLOAT_OP,
      SET 69 ''sample'' 4 0 D3D10_SB_TEX_OP,
      SET 74 ''sample_b'' 5 0 D3D10_SB_TEX_OP]"

definition instruction_info_decls :: "(u32 \<times> instruction_info) list" where
  "instruction_info_decls =
     [SET 72 ''sample_l'' 5 0 D3D10_SB_TEX_OP,
      SET 73 ''sample_d'' 6 0 D3D10_SB_TEX_OP,
      SET 70 ''sample_c'' 5 0 D3D10_SB_TEX_OP,
      SET 71 ''sample_c_lz'' 5 0 D3D10_SB_TEX_OP,
      SET 75 ''sqrt'' 2 0x2 D3D10_SB_FLOAT_OP,
      SET 76 ''switch'' 1 0 D3D10_SB_FLOW_OP,
      SET 77 ''sincos'' 3 0x4 D3D10_SB_FLOAT_OP,
      SET 78 ''udiv'' 4 0xc D3D10_SB_UINT_OP,
      SET 79 ''ult'' 3 0 D3D10_SB_UINT_OP,
      SET 80 ''uge'' 3 0 D3D10_SB_UINT_OP,
      SET 83 ''umax'' 3 0x6 D3D10_SB_UINT_OP,
      SET 84 ''umin'' 3 0x6 D3D10_SB_UINT_OP,
      SET 81 ''umul'' 4 0xc D3D10_SB_UINT_OP,
      SET 82 ''umad'' 4 0xe D3D10_SB_UINT_OP,
      SET 85 ''ushr'' 3 0x2 D3D10_SB_UINT_OP,
      SET 86 ''utof'' 2 0 D3D10_SB_UINT_OP,
      SET 87 ''xor'' 3 0x6 D3D10_SB_BIT_OP,
      SET 107 ''jmp'' 0 0 D3D10_SB_FLOW_OP,
      SET 95 ''dcl_input'' 1 0 D3D10_SB_DCL_OP,
      SET 101 ''dcl_output'' 1 0 D3D10_SB_DCL_OP,
      SET 96 ''dcl_input_sgv'' 1 0 D3D10_SB_DCL_OP,
      SET 99 ''dcl_input_ps_sgv'' 1 0 D3D10_SB_DCL_OP,
      SET 93 ''dcl_inputprimitive'' 0 0 D3D10_SB_DCL_OP,
      SET 92 ''dcl_outputtopology'' 0 0 D3D10_SB_DCL_OP,
      SET 94 ''dcl_maxout'' 0 0 D3D10_SB_DCL_OP,
      SET 98 ''dcl_input_ps'' 1 0 D3D10_SB_DCL_OP,
      SET 89 ''dcl_constantbuffer'' 1 0 D3D10_SB_DCL_OP,
      SET 90 ''dcl_sampler'' 1 0 D3D10_SB_DCL_OP,
      SET 88 ''dcl_resource'' 1 0 D3D10_SB_DCL_OP,
      SET 97 ''dcl_input_siv'' 1 0 D3D10_SB_DCL_OP,
      SET 100 ''dcl_input_ps_siv'' 1 0 D3D10_SB_DCL_OP,
      SET 103 ''dcl_output_siv'' 1 0 D3D10_SB_DCL_OP,
      SET 102 ''dcl_output_sgv'' 1 0 D3D10_SB_DCL_OP,
      SET 104 ''dcl_temps'' 0 0 D3D10_SB_DCL_OP,
      SET 105 ''dcl_indexableTemp'' 0 0 D3D10_SB_DCL_OP,
      SET 91 ''dcl_indexrange'' 1 0 D3D10_SB_DCL_OP,
      SET 106 ''dcl_globalFlags'' 0 0 D3D10_SB_DCL_OP,
      SET 111 ''sampleinfo'' 2 0 D3D10_SB_TEX_OP,
      SET 110 ''samplepos'' 3 0 D3D10_SB_TEX_OP,
      SET 109 ''gather4'' 4 0 D3D10_SB_TEX_OP,
      SET 108 ''lod'' 4 0 D3D10_SB_TEX_OP,
      SET 117 ''emit_stream'' 1 0 D3D10_SB_FLOW_OP,
      SET 118 ''cut_stream'' 1 0 D3D10_SB_FLOW_OP,
      SET 119 ''emit_then_cut_stream'' 1 0 D3D10_SB_FLOW_OP,
      SET 120 ''fcall'' 1 0 D3D10_SB_FLOW_OP,
      SET 143 ''dcl_stream'' 1 0 D3D10_SB_DCL_OP,
      SET 144 ''dcl_function_body'' 0 0 D3D10_SB_DCL_OP,
      SET 145 ''dcl_function_table'' 0 0 D3D10_SB_DCL_OP,
      SET 146 ''dcl_interface'' 0 0 D3D10_SB_DCL_OP,
      SET 121 ''bufinfo'' 2 0 D3D10_SB_TEX_OP,
      SET 122 ''deriv_rtx_coarse'' 2 0x2 D3D10_SB_FLOAT_OP,
      SET 123 ''deriv_rtx_fine'' 2 0x2 D3D10_SB_FLOAT_OP,
      SET 124 ''deriv_rty_coarse'' 2 0x2 D3D10_SB_FLOAT_OP,
      SET 125 ''deriv_rty_fine'' 2 0x2 D3D10_SB_FLOAT_OP,
      SET 126 ''gather4_c'' 5 0 D3D10_SB_TEX_OP,
      SET 127 ''gather4_po'' 5 0 D3D10_SB_TEX_OP,
      SET 128 ''gather4_po_c'' 6 0 D3D10_SB_TEX_OP,
      SET 129 ''rcp'' 2 0x2 D3D10_SB_FLOAT_OP,
      SET 130 ''f32tof16'' 2 0 D3D10_SB_FLOAT_OP,
      SET 131 ''f16tof32'' 2 0 D3D10_SB_FLOAT_OP,
      SET 132 ''uaddc'' 4 0xc D3D10_SB_UINT_OP,
      SET 133 ''usubb'' 4 0xc D3D10_SB_UINT_OP,
      SET 134 ''countbits'' 2 0x2 D3D10_SB_BIT_OP,
      SET 135 ''firstbit_hi'' 2 0x2 D3D10_SB_BIT_OP,
      SET 136 ''firstbit_lo'' 2 0x2 D3D10_SB_BIT_OP,
      SET 137 ''firstbit_shi'' 2 0x2 D3D10_SB_BIT_OP,
      SET 138 ''ubfe'' 4 0x2 D3D10_SB_BIT_OP,
      SET 139 ''ibfe'' 4 0x2 D3D10_SB_BIT_OP,
      SET 140 ''bfi'' 5 0x2 D3D10_SB_BIT_OP,
      SET 141 ''bfrev'' 2 0x2 D3D10_SB_BIT_OP]"

definition instruction_info_sm5 :: "(u32 \<times> instruction_info) list" where
  "instruction_info_sm5 =
     [SET 142 ''swapc'' 5 0x2 D3D10_SB_FLOAT_OP,
      SET 113 ''hs_decls'' 0 0 D3D10_SB_DCL_OP,
      SET 114 ''hs_control_point_phase'' 0 0 D3D10_SB_DCL_OP,
      SET 115 ''hs_fork_phase'' 0 0 D3D10_SB_DCL_OP,
      SET 116 ''hs_join_phase'' 0 0 D3D10_SB_DCL_OP,
      SET 147 ''dcl_input_control_point_count'' 0 0 D3D10_SB_DCL_OP,
      SET 148 ''dcl_output_control_point_count'' 0 0 D3D10_SB_DCL_OP,
      SET 149 ''dcl_tessellator_domain'' 0 0 D3D10_SB_DCL_OP,
      SET 150 ''dcl_tessellator_partitioning'' 0 0 D3D10_SB_DCL_OP,
      SET 151 ''dcl_tessellator_output_primitive'' 0 0 D3D10_SB_DCL_OP,
      SET 152 ''dcl_hs_max_tessfactor'' 0 0 D3D10_SB_DCL_OP,
      SET 153 ''dcl_hs_fork_phase_instance_count'' 0 0 D3D10_SB_DCL_OP,
      SET 154 ''dcl_hs_join_phase_instance_count'' 0 0 D3D10_SB_DCL_OP,
      SET 155 ''dcl_thread_group'' 0 0 D3D10_SB_DCL_OP,
      SET 156 ''dcl_uav_typed'' 1 0 D3D10_SB_DCL_OP,
      SET 157 ''dcl_uav_raw'' 1 0 D3D10_SB_DCL_OP,
      SET 158 ''dcl_uav_structured'' 1 0 D3D10_SB_DCL_OP,
      SET 159 ''dcl_tgsm_raw'' 1 0 D3D10_SB_DCL_OP,
      SET 160 ''dcl_tgsm_structured'' 1 0 D3D10_SB_DCL_OP,
      SET 161 ''dcl_resource_raw'' 1 0 D3D10_SB_DCL_OP,
      SET 162 ''dcl_resource_structured'' 1 0 D3D10_SB_DCL_OP,
      SET 163 ''ld_uav_typed'' 3 0 D3D11_SB_MEM_OP,
      SET 164 ''store_uav_typed'' 3 0 D3D11_SB_MEM_OP,
      SET 165 ''ld_raw'' 3 0 D3D11_SB_MEM_OP,
      SET 166 ''store_raw'' 3 0 D3D11_SB_MEM_OP,
      SET 167 ''ld_structured'' 4 0 D3D11_SB_MEM_OP,
      SET 168 ''store_structured'' 4 0 D3D11_SB_MEM_OP,
      SET 169 ''atomic_and'' 3 0 D3D11_SB_ATOMIC_OP,
      SET 170 ''atomic_or'' 3 0 D3D11_SB_ATOMIC_OP,
      SET 171 ''atomic_xor'' 3 0 D3D11_SB_ATOMIC_OP,
      SET 172 ''atomic_cmp_store'' 4 0 D3D11_SB_ATOMIC_OP,
      SET 173 ''atomic_iadd'' 3 0 D3D11_SB_ATOMIC_OP,
      SET 174 ''atomic_imax'' 3 0 D3D11_SB_ATOMIC_OP,
      SET 175 ''atomic_imin'' 3 0 D3D11_SB_ATOMIC_OP,
      SET 176 ''atomic_umax'' 3 0 D3D11_SB_ATOMIC_OP,
      SET 177 ''atomic_umin'' 3 0 D3D11_SB_ATOMIC_OP,
      SET 178 ''imm_atomic_alloc'' 2 0 D3D11_SB_ATOMIC_OP,
      SET 179 ''imm_atomic_consume'' 2 0 D3D11_SB_ATOMIC_OP,
      SET 180 ''imm_atomic_iadd'' 4 0 D3D11_SB_ATOMIC_OP,
      SET 181 ''imm_atomic_and'' 4 0 D3D11_SB_ATOMIC_OP,
      SET 182 ''imm_atomic_or'' 4 0 D3D11_SB_ATOMIC_OP,
      SET 183 ''imm_atomic_xor'' 4 0 D3D11_SB_ATOMIC_OP,
      SET 184 ''imm_atomic_exch'' 4 0 D3D11_SB_ATOMIC_OP,
      SET 185 ''imm_atomic_cmp_exch'' 5 0 D3D11_SB_ATOMIC_OP,
      SET 186 ''imm_atomic_imax'' 4 0 D3D11_SB_ATOMIC_OP,
      SET 187 ''imm_atomic_imin'' 4 0 D3D11_SB_ATOMIC_OP,
      SET 188 ''imm_atomic_umax'' 4 0 D3D11_SB_ATOMIC_OP,
      SET 189 ''imm_atomic_umin'' 4 0 D3D11_SB_ATOMIC_OP,
      SET 190 ''sync'' 0 0 D3D10_SB_FLOW_OP,
      SET 203 ''eval_snapped'' 3 0x2 D3D10_SB_FLOAT_OP,
      SET 204 ''eval_sample_index'' 3 0x2 D3D10_SB_FLOAT_OP,
      SET 205 ''eval_centroid'' 2 0x2 D3D10_SB_FLOAT_OP,
      SET 206 ''dcl_gsinstances'' 0 0 D3D10_SB_DCL_OP,
      SET 191 ''dadd'' 3 0x6 D3D11_SB_DOUBLE_OP,
      SET 192 ''dmax'' 3 0x6 D3D11_SB_DOUBLE_OP,
      SET 193 ''dmin'' 3 0x6 D3D11_SB_DOUBLE_OP,
      SET 194 ''dmul'' 3 0x6 D3D11_SB_DOUBLE_OP,
      SET 195 ''deq'' 3 0 D3D11_SB_DOUBLE_OP,
      SET 196 ''dge'' 3 0 D3D11_SB_DOUBLE_OP,
      SET 197 ''dlt'' 3 0 D3D11_SB_DOUBLE_OP,
      SET 198 ''dne'' 3 0 D3D11_SB_DOUBLE_OP,
      SET 199 ''dmov'' 2 0x2 D3D11_SB_DOUBLE_OP,
      SET 200 ''dmovc'' 4 0xc D3D11_SB_DOUBLE_OP,
      SET 201 ''dtof'' 2 0x2 D3D11_SB_DOUBLE_TO_FLOAT_OP,
      SET 202 ''ftod'' 2 0 D3D11_SB_FLOAT_TO_DOUBLE_OP,
      SET 207 ''abort'' 0 0 D3D11_SB_DEBUG_OP,
      SET 208 ''debug_break'' 0 0 D3D11_SB_DEBUG_OP,
      SET 210 ''ddiv'' 3 0x6 D3D11_SB_DOUBLE_OP,
      SET 211 ''dfma'' 4 0xe D3D11_SB_DOUBLE_OP,
      SET 212 ''drcp'' 2 0x2 D3D11_SB_DOUBLE_OP,
      SET 213 ''msad'' 4 0xe D3D10_SB_UINT_OP,
      SET 214 ''dtoi'' 2 0 D3D11_SB_DOUBLE_OP,
      SET 215 ''dtou'' 2 0 D3D11_SB_DOUBLE_OP,
      SET 216 ''itod'' 2 0 D3D10_SB_INT_OP,
      SET 217 ''utod'' 2 0 D3D10_SB_UINT_OP,
      SET 219 ''gather4_s'' 5 0 D3D10_SB_TEX_OP,
      SET 220 ''gather4_c_s'' 6 0 D3D10_SB_TEX_OP,
      SET 221 ''gather4_po_s'' 6 0 D3D10_SB_TEX_OP,
      SET 222 ''gather4_po_c_s'' 7 0 D3D10_SB_TEX_OP,
      SET 223 ''ld_s'' 4 0 D3D10_SB_TEX_OP,
      SET 224 ''ldms_s'' 5 0 D3D10_SB_TEX_OP,
      SET 225 ''ld_uav_typed_s'' 4 0 D3D11_SB_MEM_OP,
      SET 226 ''ld_raw_s'' 4 0 D3D11_SB_MEM_OP,
      SET 227 ''ld_structured_s'' 5 0 D3D11_SB_MEM_OP,
      SET 228 ''sample_l_s'' 6 0 D3D10_SB_TEX_OP,
      SET 229 ''sample_c_lz_s'' 6 0 D3D10_SB_TEX_OP,
      SET 230 ''sample_cl_s'' 6 0 D3D10_SB_TEX_OP,
      SET 231 ''sample_b_cl_s'' 7 0 D3D10_SB_TEX_OP,
      SET 232 ''sample_d_cl_s'' 8 0 D3D10_SB_TEX_OP,
      SET 233 ''sample_c_cl_s'' 7 0 D3D10_SB_TEX_OP,
      SET 234 ''check_access_fully_mapped'' 2 0 D3D10_SB_TEX_OP]"

definition instruction_table :: "(u32 \<times> instruction_info) list" where
  "instruction_table = instruction_info_sm4 @ instruction_info_decls @ instruction_info_sm5"

text \<open>\<open>g_InstructionInfo\<close>; an opcode without an entry keeps the zero initialisation.\<close>

definition g_InstructionInfo :: "u32 \<Rightarrow> instruction_info" where
  "g_InstructionInfo opcode =
     (case map_of instruction_table opcode of
        Some i \<Rightarrow> i
      | None \<Rightarrow> \<lparr>m_Name = [], m_NumOperands = 0, m_InPrecisionFromOutMask = 0, m_OpClass = D3D10_SB_FLOAT_OP\<rparr>)"

definition IsOpCodeValid :: "u32 \<Rightarrow> bool" where
  "IsOpCodeValid opcode \<longleftrightarrow> opcode < D3D10_SB_NUM_OPCODES"

section \<open>The encoding macros\<close>

definition ENCODE_D3D10_SB_OPCODE_TYPE :: "u32 \<Rightarrow> u32" where
  "ENCODE_D3D10_SB_OPCODE_TYPE x = x AND 0x7ff"

definition ENCODE_D3D10_SB_TOKENIZED_INSTRUCTION_LENGTH :: "u32 \<Rightarrow> u32" where
  "ENCODE_D3D10_SB_TOKENIZED_INSTRUCTION_LENGTH x = push_bit 24 x AND 0x7f000000"

definition ENCODE_D3D10_SB_INSTRUCTION_SATURATE :: "u32 \<Rightarrow> u32" where
  "ENCODE_D3D10_SB_INSTRUCTION_SATURATE x = (if x \<noteq> 0 then 0x2000 else 0)"

definition ENCODE_D3D10_SB_INSTRUCTION_TEST_BOOLEAN :: "u32 \<Rightarrow> u32" where
  "ENCODE_D3D10_SB_INSTRUCTION_TEST_BOOLEAN x = push_bit 18 x AND 0x40000"

definition ENCODE_D3D11_SB_INSTRUCTION_PRECISE_VALUES :: "u32 \<Rightarrow> u32" where
  "ENCODE_D3D11_SB_INSTRUCTION_PRECISE_VALUES x = push_bit 19 x AND 0x780000"

definition ENCODE_D3D10_SB_OPCODE_EXTENDED :: "u32 \<Rightarrow> u32" where
  "ENCODE_D3D10_SB_OPCODE_EXTENDED x = (if x \<noteq> 0 then 0x80000000 else 0)"

definition ENCODE_D3D10_SB_CUSTOMDATA_CLASS :: "u32 \<Rightarrow> u32" where
  "ENCODE_D3D10_SB_CUSTOMDATA_CLASS x = 
     ENCODE_D3D10_SB_OPCODE_TYPE D3D10_SB_OPCODE_CUSTOMDATA OR (push_bit 11 x AND 0xfffff800)"

definition ENCODE_D3D10_SB_OPERAND_NUM_COMPONENTS :: "u32 \<Rightarrow> u32" where
  "ENCODE_D3D10_SB_OPERAND_NUM_COMPONENTS x = x AND 0x3"

definition ENCODE_D3D10_SB_OPERAND_4_COMPONENT_SELECTION_MODE :: "u32 \<Rightarrow> u32" where
  "ENCODE_D3D10_SB_OPERAND_4_COMPONENT_SELECTION_MODE x = push_bit 2 x AND 0xc"

definition ENCODE_D3D10_SB_OPERAND_4_COMPONENT_MASK :: "u32 \<Rightarrow> u32" where
  "ENCODE_D3D10_SB_OPERAND_4_COMPONENT_MASK x = x AND 0xf0"

definition ENCODE_D3D10_SB_OPERAND_4_COMPONENT_SWIZZLE :: "u32 \<Rightarrow> u32 \<Rightarrow> u32 \<Rightarrow> u32 \<Rightarrow> u32" where
  "ENCODE_D3D10_SB_OPERAND_4_COMPONENT_SWIZZLE x y z w = 
     push_bit 4 ((x AND 3) OR push_bit 2 (y AND 3) OR push_bit 4 (z AND 3) OR push_bit 6 (w AND 3))"

definition ENCODE_D3D10_SB_OPERAND_4_COMPONENT_SELECT_1 :: "u32 \<Rightarrow> u32" where
  "ENCODE_D3D10_SB_OPERAND_4_COMPONENT_SELECT_1 x = push_bit 4 x AND 0x30"

definition ENCODE_D3D10_SB_OPERAND_TYPE :: "u32 \<Rightarrow> u32" where
  "ENCODE_D3D10_SB_OPERAND_TYPE x = push_bit 12 x AND 0xff000"

definition ENCODE_D3D10_SB_OPERAND_INDEX_DIMENSION :: "u32 \<Rightarrow> u32" where
  "ENCODE_D3D10_SB_OPERAND_INDEX_DIMENSION x = push_bit 20 x AND 0x300000"

definition ENCODE_D3D10_SB_OPERAND_INDEX_REPRESENTATION :: "nat \<Rightarrow> u32 \<Rightarrow> u32" where
  "ENCODE_D3D10_SB_OPERAND_INDEX_REPRESENTATION dim x = 
     push_bit (22 + 3 * dim) x AND push_bit (22 + 3 * dim) 0x3"

definition ENCODE_D3D10_SB_OPERAND_EXTENDED :: "u32 \<Rightarrow> u32" where
  "ENCODE_D3D10_SB_OPERAND_EXTENDED x = (if x \<noteq> 0 then 0x80000000 else 0)"

definition ENCODE_D3D10_SB_EXTENDED_OPERAND_TYPE :: "u32 \<Rightarrow> u32" where
  "ENCODE_D3D10_SB_EXTENDED_OPERAND_TYPE x = x AND 0x3f"

definition ENCODE_D3D10_SB_OPERAND_DOUBLE_EXTENDED :: "u32 \<Rightarrow> u32" where
  "ENCODE_D3D10_SB_OPERAND_DOUBLE_EXTENDED x = (if x \<noteq> 0 then 0x80000000 else 0)"

definition ENCODE_D3D10_SB_EXTENDED_OPERAND_MODIFIER :: "u32 \<Rightarrow> u32" where
  "ENCODE_D3D10_SB_EXTENDED_OPERAND_MODIFIER x = 
     (push_bit 6 x AND 0x3fc0) OR ENCODE_D3D10_SB_EXTENDED_OPERAND_TYPE 1 OR ENCODE_D3D10_SB_OPERAND_DOUBLE_EXTENDED 0"

definition ENCODE_D3D11_SB_OPERAND_MIN_PRECISION :: "u32 \<Rightarrow> u32" where
  "ENCODE_D3D11_SB_OPERAND_MIN_PRECISION x = push_bit 14 x AND 0x1c000"

definition ENCODE_D3D12_SB_OPERAND_NON_UNIFORM :: "u32 \<Rightarrow> u32" where
  "ENCODE_D3D12_SB_OPERAND_NON_UNIFORM x = push_bit 17 x AND 0x20000"

definition ENCODE_D3D10_SB_EXTENDED_OPCODE_TYPE :: "u32 \<Rightarrow> u32" where
  "ENCODE_D3D10_SB_EXTENDED_OPCODE_TYPE x = x AND 0x3f"

definition ENCODE_IMMEDIATE_D3D10_SB_ADDRESS_OFFSET :: "nat \<Rightarrow> u32 \<Rightarrow> u32" where
  "ENCODE_IMMEDIATE_D3D10_SB_ADDRESS_OFFSET coord x = 
     push_bit (9 + 4 * coord) x AND push_bit (9 + 4 * coord) 0xf"

section \<open>Fields of a token\<close>

text \<open>
  Every macro reads or writes a field: the \<open>k\<close> bits of a token from bit \<open>s\<close> on.  The
  collections \<open>fields\<close> and \<open>tokens\<close> turn a macro into a field and a field of a token into what
  was written there.
\<close>

named_theorems fields "the macros as fields of a token"
named_theorems tokens "fields of composed tokens"

definition field :: "nat \<Rightarrow> nat \<Rightarrow> u32 \<Rightarrow> u32" where
  "field s k t = take_bit k (drop_bit s t)"

definition place :: "nat \<Rightarrow> nat \<Rightarrow> u32 \<Rightarrow> u32" where
  "place s k x = push_bit s (take_bit k x)"

lemma field_eqI:
  assumes "m = push_bit s (mask k)"
  shows "drop_bit s (t AND m) = field s k t"
  unfolding assms by (auto simp: field_def bit_eq_iff bit_simps dest: bit_imp_le_length)

lemma place_eqI:
  assumes "m = push_bit s (mask k)"
  shows "push_bit s x AND m = place s k x"
  unfolding assms by (auto simp: place_def bit_eq_iff bit_simps dest: bit_imp_le_length)

lemma field_or [tokens]: "field s k (a OR b) = field s k a OR field s k b"
  by (simp add: field_def)

lemma field_zero [tokens]: "field s k 0 = 0"
  by (simp add: field_def)

lemma field_place_other [tokens]: "s + k \<le> s' \<or> s' + k' \<le> s \<Longrightarrow> field s k (place s' k' x) = 0"
  by (auto simp: field_def place_def bit_eq_iff bit_simps)

lemma field_place_same [tokens]: "s + k \<le> 32 \<Longrightarrow> field s k (place s k x) = take_bit k x"
  by (auto simp: field_def place_def bit_eq_iff bit_simps)

lemma DECODE_D3D10_SB_CUSTOMDATA_CLASS_field [fields]: "DECODE_D3D10_SB_CUSTOMDATA_CLASS t = field 11 21 t"
  using field_eqI [of "0xfffff800" 11 21 t] by (simp add: DECODE_D3D10_SB_CUSTOMDATA_CLASS_def mask_numeral push_bit_of_1)

lemma DECODE_D3D10_SB_EXTENDED_OPCODE_TYPE_field [fields]: "DECODE_D3D10_SB_EXTENDED_OPCODE_TYPE t = field 0 6 t"
  using field_eqI [of "0x3f" 0 6 t] by (simp add: DECODE_D3D10_SB_EXTENDED_OPCODE_TYPE_def mask_numeral push_bit_of_1)

lemma DECODE_D3D10_SB_INSTRUCTION_RETURN_TYPE_field [fields]: "DECODE_D3D10_SB_INSTRUCTION_RETURN_TYPE t = field 11 2 t"
  using field_eqI [of "0x1800" 11 2 t] by (simp add: DECODE_D3D10_SB_INSTRUCTION_RETURN_TYPE_def mask_numeral push_bit_of_1)

lemma DECODE_D3D10_SB_INSTRUCTION_TEST_BOOLEAN_field [fields]: "DECODE_D3D10_SB_INSTRUCTION_TEST_BOOLEAN t = field 18 1 t"
  using field_eqI [of "0x40000" 18 1 t] by (simp add: DECODE_D3D10_SB_INSTRUCTION_TEST_BOOLEAN_def mask_numeral push_bit_of_1)

lemma DECODE_D3D10_SB_OPCODE_TYPE_field [fields]: "DECODE_D3D10_SB_OPCODE_TYPE t = field 0 11 t"
  using field_eqI [of "0x7ff" 0 11 t] by (simp add: DECODE_D3D10_SB_OPCODE_TYPE_def mask_numeral push_bit_of_1)

lemma DECODE_D3D10_SB_RESINFO_INSTRUCTION_RETURN_TYPE_field [fields]: "DECODE_D3D10_SB_RESINFO_INSTRUCTION_RETURN_TYPE t = field 11 2 t"
  using field_eqI [of "0x1800" 11 2 t] by (simp add: DECODE_D3D10_SB_RESINFO_INSTRUCTION_RETURN_TYPE_def mask_numeral push_bit_of_1)

lemma DECODE_D3D10_SB_TOKENIZED_INSTRUCTION_LENGTH_field [fields]: "DECODE_D3D10_SB_TOKENIZED_INSTRUCTION_LENGTH t = field 24 7 t"
  using field_eqI [of "0x7f000000" 24 7 t] by (simp add: DECODE_D3D10_SB_TOKENIZED_INSTRUCTION_LENGTH_def mask_numeral push_bit_of_1)

lemma DECODE_D3D10_SB_TOKENIZED_PROGRAM_MAJOR_VERSION_field [fields]: "DECODE_D3D10_SB_TOKENIZED_PROGRAM_MAJOR_VERSION t = field 4 4 t"
  using field_eqI [of "0xf0" 4 4 t] by (simp add: DECODE_D3D10_SB_TOKENIZED_PROGRAM_MAJOR_VERSION_def mask_numeral push_bit_of_1)

lemma DECODE_D3D10_SB_TOKENIZED_PROGRAM_MINOR_VERSION_field [fields]: "DECODE_D3D10_SB_TOKENIZED_PROGRAM_MINOR_VERSION t = field 0 4 t"
  using field_eqI [of "0xf" 0 4 t] by (simp add: DECODE_D3D10_SB_TOKENIZED_PROGRAM_MINOR_VERSION_def mask_numeral push_bit_of_1)

lemma DECODE_D3D10_SB_TOKENIZED_PROGRAM_TYPE_field [fields]: "DECODE_D3D10_SB_TOKENIZED_PROGRAM_TYPE t = field 16 16 t"
  using field_eqI [of "0xffff0000" 16 16 t] by (simp add: DECODE_D3D10_SB_TOKENIZED_PROGRAM_TYPE_def mask_numeral push_bit_of_1)

lemma DECODE_D3D11_SB_INSTRUCTION_PRECISE_VALUES_field [fields]: "DECODE_D3D11_SB_INSTRUCTION_PRECISE_VALUES t = field 19 4 t"
  using field_eqI [of "0x780000" 19 4 t] by (simp add: DECODE_D3D11_SB_INSTRUCTION_PRECISE_VALUES_def mask_numeral push_bit_of_1)

lemma DECODE_IS_D3D10_SB_OPCODE_EXTENDED_field [fields]: "DECODE_IS_D3D10_SB_OPCODE_EXTENDED t = field 31 1 t"
  using field_eqI [of "0x80000000" 31 1 t] by (simp add: DECODE_IS_D3D10_SB_OPCODE_EXTENDED_def mask_numeral push_bit_of_1)

lemma DECODE_D3D11_SB_EXTENDED_RESOURCE_DIMENSION_field [fields]: "DECODE_D3D11_SB_EXTENDED_RESOURCE_DIMENSION t = field 6 5 t"
  using field_eqI [of "0x7c0" 6 5 t] by (simp add: DECODE_D3D11_SB_EXTENDED_RESOURCE_DIMENSION_def mask_numeral push_bit_of_1)

lemma DECODE_D3D11_SB_EXTENDED_RESOURCE_DIMENSION_STRUCTURE_STRIDE_field [fields]: "DECODE_D3D11_SB_EXTENDED_RESOURCE_DIMENSION_STRUCTURE_STRIDE t = field 11 12 t"
  using field_eqI [of "0x7ff800" 11 12 t] by (simp add: DECODE_D3D11_SB_EXTENDED_RESOURCE_DIMENSION_STRUCTURE_STRIDE_def mask_numeral push_bit_of_1)

lemma DECODE_D3D10_SB_EXTENDED_OPERAND_TYPE_field [fields]: "DECODE_D3D10_SB_EXTENDED_OPERAND_TYPE t = field 0 6 t"
  using field_eqI [of "0x3f" 0 6 t] by (simp add: DECODE_D3D10_SB_EXTENDED_OPERAND_TYPE_def mask_numeral push_bit_of_1)

lemma DECODE_D3D10_SB_OPERAND_4_COMPONENT_SELECTION_MODE_field [fields]: "DECODE_D3D10_SB_OPERAND_4_COMPONENT_SELECTION_MODE t = field 2 2 t"
  using field_eqI [of "0xc" 2 2 t] by (simp add: DECODE_D3D10_SB_OPERAND_4_COMPONENT_SELECTION_MODE_def mask_numeral push_bit_of_1)

lemma DECODE_D3D10_SB_OPERAND_4_COMPONENT_SELECT_1_field [fields]: "DECODE_D3D10_SB_OPERAND_4_COMPONENT_SELECT_1 t = field 4 2 t"
  using field_eqI [of "0x30" 4 2 t] by (simp add: DECODE_D3D10_SB_OPERAND_4_COMPONENT_SELECT_1_def mask_numeral push_bit_of_1)

lemma DECODE_D3D10_SB_OPERAND_INDEX_DIMENSION_field [fields]: "DECODE_D3D10_SB_OPERAND_INDEX_DIMENSION t = field 20 2 t"
  using field_eqI [of "0x300000" 20 2 t] by (simp add: DECODE_D3D10_SB_OPERAND_INDEX_DIMENSION_def mask_numeral push_bit_of_1)

lemma DECODE_D3D10_SB_OPERAND_MODIFIER_field [fields]: "DECODE_D3D10_SB_OPERAND_MODIFIER t = field 6 8 t"
  using field_eqI [of "0x3fc0" 6 8 t] by (simp add: DECODE_D3D10_SB_OPERAND_MODIFIER_def mask_numeral push_bit_of_1)

lemma DECODE_D3D10_SB_OPERAND_NUM_COMPONENTS_field [fields]: "DECODE_D3D10_SB_OPERAND_NUM_COMPONENTS t = field 0 2 t"
  using field_eqI [of "0x3" 0 2 t] by (simp add: DECODE_D3D10_SB_OPERAND_NUM_COMPONENTS_def mask_numeral push_bit_of_1)

lemma DECODE_D3D10_SB_OPERAND_TYPE_field [fields]: "DECODE_D3D10_SB_OPERAND_TYPE t = field 12 8 t"
  using field_eqI [of "0xff000" 12 8 t] by (simp add: DECODE_D3D10_SB_OPERAND_TYPE_def mask_numeral push_bit_of_1)

lemma DECODE_D3D11_SB_OPERAND_MIN_PRECISION_field [fields]: "DECODE_D3D11_SB_OPERAND_MIN_PRECISION t = field 14 3 t"
  using field_eqI [of "0x1c000" 14 3 t] by (simp add: DECODE_D3D11_SB_OPERAND_MIN_PRECISION_def mask_numeral push_bit_of_1)

lemma DECODE_D3D12_SB_OPERAND_NON_UNIFORM_field [fields]: "DECODE_D3D12_SB_OPERAND_NON_UNIFORM t = field 17 1 t"
  using field_eqI [of "0x20000" 17 1 t] by (simp add: DECODE_D3D12_SB_OPERAND_NON_UNIFORM_def mask_numeral push_bit_of_1)

lemma DECODE_IS_D3D10_SB_OPERAND_EXTENDED_field [fields]: "DECODE_IS_D3D10_SB_OPERAND_EXTENDED t = field 31 1 t"
  using field_eqI [of "0x80000000" 31 1 t] by (simp add: DECODE_IS_D3D10_SB_OPERAND_EXTENDED_def mask_numeral push_bit_of_1)

lemma DECODE_D3D10_SB_CONSTANT_BUFFER_ACCESS_PATTERN_field [fields]: "DECODE_D3D10_SB_CONSTANT_BUFFER_ACCESS_PATTERN t = field 11 1 t"
  using field_eqI [of "0x800" 11 1 t] by (simp add: DECODE_D3D10_SB_CONSTANT_BUFFER_ACCESS_PATTERN_def mask_numeral push_bit_of_1)

lemma DECODE_D3D10_SB_GS_INPUT_PRIMITIVE_field [fields]: "DECODE_D3D10_SB_GS_INPUT_PRIMITIVE t = field 11 6 t"
  using field_eqI [of "0x1f800" 11 6 t] by (simp add: DECODE_D3D10_SB_GS_INPUT_PRIMITIVE_def mask_numeral push_bit_of_1)

lemma DECODE_D3D10_SB_GS_OUTPUT_PRIMITIVE_TOPOLOGY_field [fields]: "DECODE_D3D10_SB_GS_OUTPUT_PRIMITIVE_TOPOLOGY t = field 11 6 t"
  using field_eqI [of "0x1f800" 11 6 t] by (simp add: DECODE_D3D10_SB_GS_OUTPUT_PRIMITIVE_TOPOLOGY_def mask_numeral push_bit_of_1)

lemma DECODE_D3D10_SB_INPUT_INTERPOLATION_MODE_field [fields]: "DECODE_D3D10_SB_INPUT_INTERPOLATION_MODE t = field 11 4 t"
  using field_eqI [of "0x7800" 11 4 t] by (simp add: DECODE_D3D10_SB_INPUT_INTERPOLATION_MODE_def mask_numeral push_bit_of_1)

lemma DECODE_D3D10_SB_NAME_field [fields]: "DECODE_D3D10_SB_NAME t = field 0 16 t"
  using field_eqI [of "0xffff" 0 16 t] by (simp add: DECODE_D3D10_SB_NAME_def mask_numeral push_bit_of_1)

lemma DECODE_D3D10_SB_RESOURCE_DIMENSION_field [fields]: "DECODE_D3D10_SB_RESOURCE_DIMENSION t = field 11 5 t"
  using field_eqI [of "0xf800" 11 5 t] by (simp add: DECODE_D3D10_SB_RESOURCE_DIMENSION_def mask_numeral push_bit_of_1)

lemma DECODE_D3D10_SB_RESOURCE_SAMPLE_COUNT_field [fields]: "DECODE_D3D10_SB_RESOURCE_SAMPLE_COUNT t = field 16 7 t"
  using field_eqI [of "0x7f0000" 16 7 t] by (simp add: DECODE_D3D10_SB_RESOURCE_SAMPLE_COUNT_def mask_numeral push_bit_of_1)

lemma DECODE_D3D10_SB_SAMPLER_MODE_field [fields]: "DECODE_D3D10_SB_SAMPLER_MODE t = field 11 4 t"
  using field_eqI [of "0x7800" 11 4 t] by (simp add: DECODE_D3D10_SB_SAMPLER_MODE_def mask_numeral push_bit_of_1)

lemma DECODE_D3D11_SB_INPUT_CONTROL_POINT_COUNT_field [fields]: "DECODE_D3D11_SB_INPUT_CONTROL_POINT_COUNT t = field 11 6 t"
  using field_eqI [of "0x1f800" 11 6 t] by (simp add: DECODE_D3D11_SB_INPUT_CONTROL_POINT_COUNT_def mask_numeral push_bit_of_1)

lemma DECODE_D3D11_SB_INTERFACE_ARRAY_LENGTH_field [fields]: "DECODE_D3D11_SB_INTERFACE_ARRAY_LENGTH t = field 16 16 t"
  using field_eqI [of "0xffff0000" 16 16 t] by (simp add: DECODE_D3D11_SB_INTERFACE_ARRAY_LENGTH_def mask_numeral push_bit_of_1)

lemma DECODE_D3D11_SB_INTERFACE_TABLE_LENGTH_field [fields]: "DECODE_D3D11_SB_INTERFACE_TABLE_LENGTH t = field 0 16 t"
  using field_eqI [of "0xffff" 0 16 t] by (simp add: DECODE_D3D11_SB_INTERFACE_TABLE_LENGTH_def mask_numeral push_bit_of_1)

lemma DECODE_D3D11_SB_OUTPUT_CONTROL_POINT_COUNT_field [fields]: "DECODE_D3D11_SB_OUTPUT_CONTROL_POINT_COUNT t = field 11 6 t"
  using field_eqI [of "0x1f800" 11 6 t] by (simp add: DECODE_D3D11_SB_OUTPUT_CONTROL_POINT_COUNT_def mask_numeral push_bit_of_1)

lemma DECODE_D3D11_SB_TESS_DOMAIN_field [fields]: "DECODE_D3D11_SB_TESS_DOMAIN t = field 11 2 t"
  using field_eqI [of "0x1800" 11 2 t] by (simp add: DECODE_D3D11_SB_TESS_DOMAIN_def mask_numeral push_bit_of_1)

lemma DECODE_D3D11_SB_TESS_OUTPUT_PRIMITIVE_field [fields]: "DECODE_D3D11_SB_TESS_OUTPUT_PRIMITIVE t = field 11 3 t"
  using field_eqI [of "0x3800" 11 3 t] by (simp add: DECODE_D3D11_SB_TESS_OUTPUT_PRIMITIVE_def mask_numeral push_bit_of_1)

lemma DECODE_D3D11_SB_TESS_PARTITIONING_field [fields]: "DECODE_D3D11_SB_TESS_PARTITIONING t = field 11 3 t"
  using field_eqI [of "0x3800" 11 3 t] by (simp add: DECODE_D3D11_SB_TESS_PARTITIONING_def mask_numeral push_bit_of_1)

lemma and_3_take: "(x :: u32) AND 3 = take_bit 2 x"
  by (simp add: take_bit_eq_mask mask_numeral)

lemma and_15_take: "(x :: u32) AND 0xf = take_bit 4 x"
  by (simp add: take_bit_eq_mask mask_numeral)

lemma swizzle_source_field [fields]: "DECODE_D3D10_SB_OPERAND_4_COMPONENT_SWIZZLE_SOURCE t dest = field (4 + 2 * dest) 2 t"
  by (simp add: DECODE_D3D10_SB_OPERAND_4_COMPONENT_SWIZZLE_SOURCE_def field_def and_3_take)

lemma index_representation_field [fields]: "DECODE_D3D10_SB_OPERAND_INDEX_REPRESENTATION dim t = field (22 + 3 * dim) 2 t"
  using field_eqI [of "push_bit (22 + 3 * dim) 3" "22 + 3 * dim" 2 t]
  by (simp add: DECODE_D3D10_SB_OPERAND_INDEX_REPRESENTATION_def mask_numeral)

lemma address_offset_field [fields]: "DECODE_IMMEDIATE_D3D10_SB_ADDRESS_OFFSET coord t = field (9 + 4 * coord) 4 t"
  using field_eqI [of "push_bit (9 + 4 * coord) 15" "9 + 4 * coord" 4 t]
  by (simp add: DECODE_IMMEDIATE_D3D10_SB_ADDRESS_OFFSET_def mask_numeral)

lemma resource_return_type_field [fields]: "DECODE_D3D10_SB_RESOURCE_RETURN_TYPE t component = field (component * 4) 4 t"
  by (simp add: DECODE_D3D10_SB_RESOURCE_RETURN_TYPE_def field_def and_15_take)

lemma and_field:
  assumes "m = push_bit s (mask k)"
  shows "(t :: u32) AND m = push_bit s (field s k t)"
  unfolding assms by (auto simp: field_def bit_eq_iff bit_simps dest: bit_imp_le_length)

lemma component_mask_field [fields]: "DECODE_D3D10_SB_OPERAND_4_COMPONENT_MASK t = push_bit 4 (field 4 4 t)"
  using and_field [of "0xf0" 4 4 t] by (simp add: DECODE_D3D10_SB_OPERAND_4_COMPONENT_MASK_def mask_numeral)

lemma saturate_field [fields]: "DECODE_IS_D3D10_SB_INSTRUCTION_SATURATE_ENABLED t = push_bit 13 (field 13 1 t)"
  using and_field [of "0x2000" 13 1 t]
  by (simp add: DECODE_IS_D3D10_SB_INSTRUCTION_SATURATE_ENABLED_def mask_numeral push_bit_of_1)

lemma ENCODE_D3D10_SB_OPCODE_TYPE_place [fields]: "ENCODE_D3D10_SB_OPCODE_TYPE x = place 0 11 x"
  using place_eqI [of "0x7ff" 0 11 x] by (simp add: ENCODE_D3D10_SB_OPCODE_TYPE_def mask_numeral push_bit_of_1)

lemma ENCODE_D3D10_SB_TOKENIZED_INSTRUCTION_LENGTH_place [fields]: "ENCODE_D3D10_SB_TOKENIZED_INSTRUCTION_LENGTH x = place 24 7 x"
  using place_eqI [of "0x7f000000" 24 7 x] by (simp add: ENCODE_D3D10_SB_TOKENIZED_INSTRUCTION_LENGTH_def mask_numeral push_bit_of_1)

lemma ENCODE_D3D10_SB_INSTRUCTION_TEST_BOOLEAN_place [fields]: "ENCODE_D3D10_SB_INSTRUCTION_TEST_BOOLEAN x = place 18 1 x"
  using place_eqI [of "0x40000" 18 1 x] by (simp add: ENCODE_D3D10_SB_INSTRUCTION_TEST_BOOLEAN_def mask_numeral push_bit_of_1)

lemma ENCODE_D3D11_SB_INSTRUCTION_PRECISE_VALUES_place [fields]: "ENCODE_D3D11_SB_INSTRUCTION_PRECISE_VALUES x = place 19 4 x"
  using place_eqI [of "0x780000" 19 4 x] by (simp add: ENCODE_D3D11_SB_INSTRUCTION_PRECISE_VALUES_def mask_numeral push_bit_of_1)

lemma ENCODE_D3D10_SB_OPERAND_NUM_COMPONENTS_place [fields]: "ENCODE_D3D10_SB_OPERAND_NUM_COMPONENTS x = place 0 2 x"
  using place_eqI [of "0x3" 0 2 x] by (simp add: ENCODE_D3D10_SB_OPERAND_NUM_COMPONENTS_def mask_numeral push_bit_of_1)

lemma ENCODE_D3D10_SB_OPERAND_4_COMPONENT_SELECTION_MODE_place [fields]: "ENCODE_D3D10_SB_OPERAND_4_COMPONENT_SELECTION_MODE x = place 2 2 x"
  using place_eqI [of "0xc" 2 2 x] by (simp add: ENCODE_D3D10_SB_OPERAND_4_COMPONENT_SELECTION_MODE_def mask_numeral push_bit_of_1)

lemma ENCODE_D3D10_SB_OPERAND_4_COMPONENT_SELECT_1_place [fields]: "ENCODE_D3D10_SB_OPERAND_4_COMPONENT_SELECT_1 x = place 4 2 x"
  using place_eqI [of "0x30" 4 2 x] by (simp add: ENCODE_D3D10_SB_OPERAND_4_COMPONENT_SELECT_1_def mask_numeral push_bit_of_1)

lemma ENCODE_D3D10_SB_OPERAND_TYPE_place [fields]: "ENCODE_D3D10_SB_OPERAND_TYPE x = place 12 8 x"
  using place_eqI [of "0xff000" 12 8 x] by (simp add: ENCODE_D3D10_SB_OPERAND_TYPE_def mask_numeral push_bit_of_1)

lemma ENCODE_D3D10_SB_OPERAND_INDEX_DIMENSION_place [fields]: "ENCODE_D3D10_SB_OPERAND_INDEX_DIMENSION x = place 20 2 x"
  using place_eqI [of "0x300000" 20 2 x] by (simp add: ENCODE_D3D10_SB_OPERAND_INDEX_DIMENSION_def mask_numeral push_bit_of_1)

lemma ENCODE_D3D10_SB_EXTENDED_OPERAND_TYPE_place [fields]: "ENCODE_D3D10_SB_EXTENDED_OPERAND_TYPE x = place 0 6 x"
  using place_eqI [of "0x3f" 0 6 x] by (simp add: ENCODE_D3D10_SB_EXTENDED_OPERAND_TYPE_def mask_numeral push_bit_of_1)

lemma ENCODE_D3D11_SB_OPERAND_MIN_PRECISION_place [fields]: "ENCODE_D3D11_SB_OPERAND_MIN_PRECISION x = place 14 3 x"
  using place_eqI [of "0x1c000" 14 3 x] by (simp add: ENCODE_D3D11_SB_OPERAND_MIN_PRECISION_def mask_numeral push_bit_of_1)

lemma ENCODE_D3D12_SB_OPERAND_NON_UNIFORM_place [fields]: "ENCODE_D3D12_SB_OPERAND_NON_UNIFORM x = place 17 1 x"
  using place_eqI [of "0x20000" 17 1 x] by (simp add: ENCODE_D3D12_SB_OPERAND_NON_UNIFORM_def mask_numeral push_bit_of_1)

lemma ENCODE_D3D10_SB_EXTENDED_OPCODE_TYPE_place [fields]: "ENCODE_D3D10_SB_EXTENDED_OPCODE_TYPE x = place 0 6 x"
  using place_eqI [of "0x3f" 0 6 x] by (simp add: ENCODE_D3D10_SB_EXTENDED_OPCODE_TYPE_def mask_numeral push_bit_of_1)

lemma ENCODE_D3D10_SB_INSTRUCTION_SATURATE_place [fields]: "ENCODE_D3D10_SB_INSTRUCTION_SATURATE x = place 13 1 (of_bool (x \<noteq> 0))"
  by (simp add: ENCODE_D3D10_SB_INSTRUCTION_SATURATE_def place_def push_bit_of_1)

lemma ENCODE_D3D10_SB_OPCODE_EXTENDED_place [fields]: "ENCODE_D3D10_SB_OPCODE_EXTENDED x = place 31 1 (of_bool (x \<noteq> 0))"
  by (simp add: ENCODE_D3D10_SB_OPCODE_EXTENDED_def place_def push_bit_of_1)

lemma ENCODE_D3D10_SB_OPERAND_EXTENDED_place [fields]: "ENCODE_D3D10_SB_OPERAND_EXTENDED x = place 31 1 (of_bool (x \<noteq> 0))"
  by (simp add: ENCODE_D3D10_SB_OPERAND_EXTENDED_def place_def push_bit_of_1)

lemma ENCODE_D3D10_SB_OPERAND_DOUBLE_EXTENDED_place [fields]: "ENCODE_D3D10_SB_OPERAND_DOUBLE_EXTENDED x = place 31 1 (of_bool (x \<noteq> 0))"
  by (simp add: ENCODE_D3D10_SB_OPERAND_DOUBLE_EXTENDED_def place_def push_bit_of_1)

lemma encode_component_mask [fields]: "ENCODE_D3D10_SB_OPERAND_4_COMPONENT_MASK x = place 4 4 (drop_bit 4 x)"
  using and_field [of "0xf0" 4 4 x]
  by (simp add: ENCODE_D3D10_SB_OPERAND_4_COMPONENT_MASK_def mask_numeral field_def place_def)

lemma encode_swizzle [fields]:
  "ENCODE_D3D10_SB_OPERAND_4_COMPONENT_SWIZZLE x y z w = place 4 2 x OR place 6 2 y OR place 8 2 z OR place 10 2 w"
  by (simp add: ENCODE_D3D10_SB_OPERAND_4_COMPONENT_SWIZZLE_def place_def and_3_take push_bit_or)

lemma encode_index_representation [fields]:
  "ENCODE_D3D10_SB_OPERAND_INDEX_REPRESENTATION dim x = place (22 + 3 * dim) 2 x"
  using place_eqI [of "push_bit (22 + 3 * dim) 3" "22 + 3 * dim" 2 x]
  by (simp add: ENCODE_D3D10_SB_OPERAND_INDEX_REPRESENTATION_def mask_numeral)

lemma encode_address_offset [fields]:
  "ENCODE_IMMEDIATE_D3D10_SB_ADDRESS_OFFSET coord x = place (9 + 4 * coord) 4 x"
  using place_eqI [of "push_bit (9 + 4 * coord) 15" "9 + 4 * coord" 4 x]
  by (simp add: ENCODE_IMMEDIATE_D3D10_SB_ADDRESS_OFFSET_def mask_numeral)

lemma encode_operand_modifier [fields]:
  "ENCODE_D3D10_SB_EXTENDED_OPERAND_MODIFIER x = place 0 6 1 OR place 6 8 x"
  using place_eqI [of "0x3fc0" 6 8 x]
  by (simp add: ENCODE_D3D10_SB_EXTENDED_OPERAND_MODIFIER_def fields mask_numeral) (simp add: place_def or.commute)

lemma encode_customdata_class [fields]: "ENCODE_D3D10_SB_CUSTOMDATA_CLASS x = place 0 11 53 OR place 11 21 x"
  using place_eqI [of "0xfffff800" 11 21 x]
  by (simp add: ENCODE_D3D10_SB_CUSTOMDATA_CLASS_def fields mask_numeral)

end
