(* ===== verification/ShaderParser.thy ===== *)
theory ShaderParser
  imports ShaderTokens
begin

text \<open>
  The parser of DXBC shaders, \<open>CShaderCodeParser\<close> of \<open>libs/DXBCParser/ShaderBinary.cpp\<close> with
  the structures of \<open>ShaderBinary.h\<close>, and the loop of \<open>src/airconv/dxbc_converter_cfg.cpp\<close> that
  reads one instruction after the other.  The memory behind \<open>m_pCurrentToken\<close> is a list of
  tokens that ends with the buffer.  A read or a write outside of a buffer is an error of its
  own, and so is the end of the fuel of a recursion.  Allocations succeed, and the two
  assertions of \<open>ParseInstruction\<close> are off.
\<close>

section \<open>Reading tokens\<close>

datatype parse_error = Throws hresult | OutsideRead | OutsideWrite | OutOfFuel

type_synonym tokens = "u32 list"
type_synonym 'a reader = "tokens \<Rightarrow> parse_error + 'a \<times> tokens"

definition give :: "'a \<Rightarrow> 'a reader" where
  "give a ts = Inr (a, ts)"

definition fail :: "parse_error \<Rightarrow> 'a reader" where
  "fail e ts = Inl e"

definition then_read :: "'a reader \<Rightarrow> ('a \<Rightarrow> 'b reader) \<Rightarrow> 'b reader" where
  "then_read p f ts = (case p ts of Inl e \<Rightarrow> Inl e | Inr (a, ts') \<Rightarrow> f a ts')"

text \<open>\<open>*m_pCurrentToken++\<close>, and \<open>n\<close> tokens at once.\<close>

fun next_token :: "u32 reader" where
  "next_token [] = Inl OutsideRead"
| "next_token (t # ts) = Inr (t, ts)"

definition next_tokens :: "nat \<Rightarrow> u32 list reader" where
  "next_tokens n ts = (if n \<le> length ts then Inr (take n ts, drop n ts) else Inl OutsideRead)"

fun read_list :: "nat \<Rightarrow> u32 list reader" where
  "read_list 0 = give []"
| "read_list (Suc n) = then_read next_token (\<lambda>t. then_read (read_list n) (\<lambda>ts. give (t # ts)))"

section \<open>Operands\<close>

text \<open>
  \<open>COperandIndex\<close>: \<open>m_RegIndex\<close> and \<open>m_RegIndexHi\<close> are the two words of the union of the
  register index.  The members that the parser never writes are left out.
\<close>

record operand_index =
  m_RegIndex :: u32
  m_RegIndexHi :: u32
  m_RelRegType :: u32
  i_ComponentName :: u32
  i_IndexDimension :: u32
  i_MinPrecision :: u32
  m_RelIndex :: u32
  m_RelIndex1 :: u32

definition clear_index :: operand_index where
  "clear_index = \<lparr>m_RegIndex = 0, m_RegIndexHi = 0, m_RelRegType = 0, i_ComponentName = 0,
     i_IndexDimension = 0, i_MinPrecision = 0, m_RelIndex = 0, m_RelIndex1 = 0\<rparr>"

text \<open>
  \<open>COperandBase\<close>: \<open>m_WriteMask\<close> is the union with the bytes \<open>m_Swizzle\<close>, the first byte the
  lowest.
\<close>

record operand =
  m_Type :: u32
  m_Index :: "operand_index list"
  m_NumComponents :: u32
  m_ComponentSelection :: u32
  m_bExtendedOperand :: u32
  m_Modifier :: u32
  m_MinPrecision :: u32
  m_Nonuniform :: u32
  m_ExtendedOperandType :: u32
  m_WriteMask :: u32
  m_ComponentName :: u32
  m_Value :: "u32 list"
  m_IndexType :: "u32 list"
  m_IndexDimension :: u32

text \<open>\<open>COperandBase::Clear\<close>.\<close>

definition clear_operand :: operand where
  "clear_operand = \<lparr>m_Type = 0, m_Index = replicate 3 clear_index, m_NumComponents = 0,
     m_ComponentSelection = 0, m_bExtendedOperand = 0, m_Modifier = 0, m_MinPrecision = 0,
     m_Nonuniform = 0, m_ExtendedOperandType = 0, m_WriteMask = 0, m_ComponentName = 0,
     m_Value = replicate 4 0, m_IndexType = replicate 3 0, m_IndexDimension = 0\<rparr>"

definition swizzle_bytes :: "u32 \<Rightarrow> u32 \<Rightarrow> u32 \<Rightarrow> u32 \<Rightarrow> u32" where
  "swizzle_bytes x y z w = (x AND 0xff) OR push_bit 8 (y AND 0xff) OR push_bit 16 (z AND 0xff) OR push_bit 24 (w AND 0xff)"

abbreviation OPERAND_1_COMPONENT :: u32 where "OPERAND_1_COMPONENT \<equiv> 1"
abbreviation OPERAND_4_COMPONENT :: u32 where "OPERAND_4_COMPONENT \<equiv> 2"
abbreviation OPERAND_TYPE_IMMEDIATE32 :: u32 where "OPERAND_TYPE_IMMEDIATE32 \<equiv> 4"
abbreviation OPERAND_TYPE_IMMEDIATE64 :: u32 where "OPERAND_TYPE_IMMEDIATE64 \<equiv> 5"

definition is_immediate :: "u32 \<Rightarrow> bool" where
  "is_immediate ty \<longleftrightarrow> ty = OPERAND_TYPE_IMMEDIATE32 \<or> ty = OPERAND_TYPE_IMMEDIATE64"

text \<open>The component selection of an operand token: mask, swizzle, or one component.\<close>

definition component_selection :: "u32 \<Rightarrow> operand \<Rightarrow> operand reader" where
  "component_selection Token op =
     (let mode = DECODE_D3D10_SB_OPERAND_4_COMPONENT_SELECTION_MODE Token;
          op = op\<lparr>m_ComponentSelection := mode\<rparr>
      in if mode = 0 then give (op\<lparr>m_WriteMask := DECODE_D3D10_SB_OPERAND_4_COMPONENT_MASK Token\<rparr>)
         else if mode = 1 then
           give (op\<lparr>m_WriteMask := swizzle_bytes (DECODE_D3D10_SB_OPERAND_4_COMPONENT_SWIZZLE_SOURCE Token 0)
             (DECODE_D3D10_SB_OPERAND_4_COMPONENT_SWIZZLE_SOURCE Token 1)
             (DECODE_D3D10_SB_OPERAND_4_COMPONENT_SWIZZLE_SOURCE Token 2)
             (DECODE_D3D10_SB_OPERAND_4_COMPONENT_SWIZZLE_SOURCE Token 3)\<rparr>)
         else if mode = 2 then
           (let c = DECODE_D3D10_SB_OPERAND_4_COMPONENT_SELECT_1 Token
            in give (op\<lparr>m_WriteMask := swizzle_bytes c c c c, m_ComponentName := c\<rparr>))
         else fail (Throws E_FAIL))"

text \<open>The first token of an operand: type, components, and the kinds of its indices.\<close>

definition operand_token :: "u32 \<Rightarrow> operand \<Rightarrow> operand reader" where
  "operand_token Token op =
     (let op = op\<lparr>m_Type := DECODE_D3D10_SB_OPERAND_TYPE Token,
                  m_NumComponents := DECODE_D3D10_SB_OPERAND_NUM_COMPONENTS Token,
                  m_bExtendedOperand := DECODE_IS_D3D10_SB_OPERAND_EXTENDED Token\<rparr>
      in if is_immediate (m_Type op) then give op
         else then_read (if m_NumComponents op = OPERAND_4_COMPONENT then component_selection Token op else give op)
           (\<lambda>op. let dim = DECODE_D3D10_SB_OPERAND_INDEX_DIMENSION Token
                 in give (op\<lparr>m_IndexDimension := dim,
                      m_IndexType := map (\<lambda>i. DECODE_D3D10_SB_OPERAND_INDEX_REPRESENTATION i Token) [0..<unat dim] @
                        drop (unat dim) (m_IndexType op)\<rparr>)))"

definition extended_operand :: "operand \<Rightarrow> operand reader" where
  "extended_operand op =
     (if m_bExtendedOperand op \<noteq> 0 then
        then_read next_token (\<lambda>Token.
          let op = op\<lparr>m_ExtendedOperandType := DECODE_D3D10_SB_EXTENDED_OPERAND_TYPE Token\<rparr>
          in if m_ExtendedOperandType op = 1 then
               give (op\<lparr>m_Modifier := DECODE_D3D10_SB_OPERAND_MODIFIER Token,
                        m_MinPrecision := DECODE_D3D11_SB_OPERAND_MIN_PRECISION Token,
                        m_Nonuniform := DECODE_D3D12_SB_OPERAND_NON_UNIFORM Token\<rparr>)
             else give op)
      else give op)"

definition immediate_values :: "operand \<Rightarrow> operand reader" where
  "immediate_values op =
     (let NumComponents = (if m_NumComponents op = OPERAND_1_COMPONENT then 1
                           else if m_NumComponents op = OPERAND_4_COMPONENT then 4 else 0)
      in if is_immediate (m_Type op) then
           then_read (read_list NumComponents) (\<lambda>vs. give (op\<lparr>m_Value := vs @ drop NumComponents (m_Value op)\<rparr>))
         else give op)"

text \<open>
  \<open>ParseIndex\<close> with the parser \<open>p\<close> of the nested operand, \<open>ParseOperand\<close> on a cleared operand.
\<close>

definition relative_index :: "operand \<Rightarrow> operand_index \<Rightarrow> operand_index" where
  "relative_index operand x =
     x\<lparr>m_RelIndex := m_RegIndex (m_Index operand ! 0), m_RelIndex1 := m_RegIndex (m_Index operand ! 1),
       m_RelRegType := m_Type operand, i_IndexDimension := m_IndexDimension operand,
       i_ComponentName := m_ComponentName operand, i_MinPrecision := m_MinPrecision operand\<rparr>"

definition ParseIndex :: "operand reader \<Rightarrow> operand_index \<Rightarrow> u32 \<Rightarrow> operand_index reader" where
  "ParseIndex p x IndexType =
     (if IndexType = 0 then
        then_read next_token (\<lambda>t. give (x\<lparr>m_RegIndex := t, i_ComponentName := 0, m_RelRegType := OPERAND_TYPE_IMMEDIATE32\<rparr>))
      else if IndexType = 1 then
        then_read next_token (\<lambda>t. then_read next_token (\<lambda>u.
          give (x\<lparr>m_RegIndex := t, m_RegIndexHi := u, i_ComponentName := 0, m_RelRegType := OPERAND_TYPE_IMMEDIATE64\<rparr>)))
      else if IndexType = 2 then
        then_read p (\<lambda>operand. give (relative_index operand x))
      else if IndexType = 3 then
        then_read next_token (\<lambda>t. then_read p (\<lambda>operand. give (relative_index operand (x\<lparr>m_RegIndex := t\<rparr>))))
      else fail (Throws E_FAIL))"

fun parse_indices :: "operand reader \<Rightarrow> nat list \<Rightarrow> operand \<Rightarrow> operand reader" where
  "parse_indices p [] op = give op"
| "parse_indices p (i # rest) op =
     then_read (ParseIndex p (m_Index op ! i) (m_IndexType op ! i))
       (\<lambda>x. parse_indices p rest (op\<lparr>m_Index := (m_Index op)[i := x]\<rparr>))"

text \<open>
  \<open>ParseOperand\<close>: the fuel bounds the nesting of relative indices.  Every operand reads a token,
  so one more than the number of tokens is enough.
\<close>

fun parse_operand :: "nat \<Rightarrow> operand \<Rightarrow> operand reader" where
  "parse_operand 0 op = fail OutOfFuel"
| "parse_operand (Suc n) op =
     then_read next_token (\<lambda>Token.
     then_read (operand_token Token op) (\<lambda>op.
     then_read (extended_operand op) (\<lambda>op.
     then_read (immediate_values op) (\<lambda>op.
       parse_indices (parse_operand n clear_operand) [0..<unat (m_IndexDimension op)] op))))"

definition ParseOperand :: "operand \<Rightarrow> operand reader" where
  "ParseOperand op ts = parse_operand (Suc (length ts)) op ts"

section \<open>Instructions\<close>

text \<open>
  \<open>CShaderMessage\<close>: the format string is kept as the words it starts at.  \<open>None\<close> stands for
  the cleared message without operands.  The code allocates room for \<open>NumOperands\<close> operands;
  \<open>message_operands\<close> holds those that were parsed, the others stay uninitialised.
\<close>

record shader_message =
  MessageID :: u32
  FormatStyle :: u32
  pFormatString :: "u32 list"
  message_NumOperands :: u32
  message_operands :: "operand list"

text \<open>
  \<open>CSyncFlags\<close>, and the union of the additional fields of \<open>CInstruction\<close>, in groups:
  blocks of data, registers, pipeline stages, and the memory of compute shaders.
\<close>

record sync_flags =
  bThreadsInGroup :: bool
  bThreadGroupSharedMemory :: bool
  bUnorderedAccessViewMemoryGroup :: bool
  bUnorderedAccessViewMemoryGlobal :: bool

datatype block_data =
    CustomData (CustomDataType: u32) (DataSizeInBytes: u32) (pData: "u32 list option") (ShaderMessage: "shader_message option")
  | FunctionBodyDecl u32
  | FunctionTableDecl u32 u32 "u32 list"
  | InterfaceDecl bool u16 u32 u32 u16 "u32 list"

datatype register_decl =
    ResourceDecl u32 "u32 list" u32 u32
  | SamplerDecl u32 u32
  | TempsDecl u32
  | IndexableTempDecl u32 u32 u32
  | InputDeclSIV u32
  | InputPSDecl u32
  | InputPSDeclSIV u32 u32
  | InputPSDeclSGV u32 u32
  | OutputDeclSIV u32
  | OutputDeclSGV u32
  | IndexRangeDecl u32
  | ConstantBufferDecl u32 u32 u32

datatype stage_decl =
    OutputTopologyDecl u32
  | InputPrimitiveDecl u32
  | GSMaxOutputVertexCountDecl u32
  | GSInstanceCountDecl u32
  | GlobalFlagsDecl u32
  | InputControlPointCountDecl u32
  | OutputControlPointCountDecl u32
  | TessellatorDomainDecl u32
  | TessellatorPartitioningDecl u32
  | TessellatorOutputPrimitiveDecl u32
  | HSMaxTessFactorDecl u32
  | HSForkPhaseInstanceCountDecl u32
  | HSJoinPhaseInstanceCountDecl u32

datatype memory_decl =
    ThreadGroupDecl u32 u32 u32
  | TypedUAVDecl u32 "u32 list" u32 u32
  | RawUAVDecl u32 u32
  | StructuredUAVDecl u32 u32 u32
  | RawTGSMDecl u32
  | StructuredTGSMDecl u32 u32
  | RawSRVDecl u32
  | StructuredSRVDecl u32 u32

datatype extra =
    NoExtra
  | Block block_data
  | Register register_decl
  | Stage stage_decl
  | Memory memory_decl
  | InterfaceCall u32
  | SyncFlags sync_flags
  | ResInfoReturnType u32
  | InstructionReturnType u32
  | Test u32

abbreviation D3D10_SB_MAX_INSTRUCTION_OPERANDS :: nat where "D3D10_SB_MAX_INSTRUCTION_OPERANDS \<equiv> 8"

record instruction =
  m_OpCode :: u32
  i_OpClass :: opcode_class
  m_Operands :: "operand list"
  i_NumOperands :: u32
  m_ExtendedOpCodeCount :: u32
  m_PreciseMask :: u32
  m_OpCodeEx :: "u32 list"
  m_TexelOffset :: "u8 list"
  m_ResourceDimEx :: u32
  m_ResourceDimStructureStrideEx :: u32
  m_ResourceReturnTypeEx :: "u32 list"
  m_bSaturate :: u32
  m_Extra :: extra

text \<open>\<open>CInstruction::Clear\<close>.\<close>

definition clear_instruction :: instruction where
  "clear_instruction = \<lparr>m_OpCode = 0, i_OpClass = D3D10_SB_FLOAT_OP,
     m_Operands = replicate D3D10_SB_MAX_INSTRUCTION_OPERANDS clear_operand, i_NumOperands = 0,
     m_ExtendedOpCodeCount = 0, m_PreciseMask = 0, m_OpCodeEx = [0, 0, 0], m_TexelOffset = [0, 0, 0],
     m_ResourceDimEx = 0, m_ResourceDimStructureStrideEx = 0, m_ResourceReturnTypeEx = [0, 0, 0, 0],
     m_bSaturate = 0, m_Extra = NoExtra\<rparr>"

definition GetNumInstructionOperands :: "u32 \<Rightarrow> u32 reader" where
  "GetNumInstructionOperands opcode =
     (if IsOpCodeValid opcode then give (ucast (m_NumOperands (g_InstructionInfo opcode))) else fail (Throws E_FAIL))"

text \<open>\<open>ParseOperand(&pInstruction->m_Operands[i])\<close>.\<close>

definition operand_at :: "nat \<Rightarrow> instruction \<Rightarrow> instruction reader" where
  "operand_at i inst =
     then_read (ParseOperand (m_Operands inst ! i)) (\<lambda>op. give (inst\<lparr>m_Operands := (m_Operands inst)[i := op]\<rparr>))"

fun operands_at :: "nat list \<Rightarrow> instruction \<Rightarrow> instruction reader" where
  "operands_at [] inst = give inst"
| "operands_at (i # rest) inst = then_read (operand_at i inst) (operands_at rest)"

text \<open>
  The texel offsets of the sample controls: the 4-bit field is extended by its sign bit.
\<close>

definition texel_offset :: "nat \<Rightarrow> u32 \<Rightarrow> u8" where
  "texel_offset coord Token =
     (let x = ucast (DECODE_IMMEDIATE_D3D10_SB_ADDRESS_OFFSET coord Token) :: u8
      in if x AND 0x8 \<noteq> 0 then x OR 0xf0 else x)"

definition extended_opcode :: "u32 \<Rightarrow> instruction \<Rightarrow> instruction" where
  "extended_opcode Token inst =
     (let ty = DECODE_D3D10_SB_EXTENDED_OPCODE_TYPE Token
      in if ty = 1 then inst\<lparr>m_TexelOffset := map (\<lambda>c. texel_offset c Token) [0, 1, 2]\<rparr>
         else if ty = 2 then
           inst\<lparr>m_ResourceDimEx := DECODE_D3D11_SB_EXTENDED_RESOURCE_DIMENSION Token,
                m_ResourceDimStructureStrideEx := DECODE_D3D11_SB_EXTENDED_RESOURCE_DIMENSION_STRUCTURE_STRIDE Token\<rparr>
         else if ty = 3 then
           inst\<lparr>m_ResourceReturnTypeEx := map (DECODE_D3D11_SB_EXTENDED_RESOURCE_RETURN_TYPE Token) [0, 1, 2, 3]\<rparr>
         else inst)"

text \<open>The loop over the extended opcode tokens; \<open>i\<close> runs over the slots that are left.\<close>

fun extended_opcodes :: "nat list \<Rightarrow> u32 \<Rightarrow> instruction \<Rightarrow> instruction reader" where
  "extended_opcodes [] bExtended inst = give inst"
| "extended_opcodes (i # rest) bExtended inst =
     (if bExtended = 0 then give inst
      else then_read next_token (\<lambda>Token.
        extended_opcodes rest (DECODE_IS_D3D10_SB_OPCODE_EXTENDED Token)
          (extended_opcode Token (inst\<lparr>m_ExtendedOpCodeCount := m_ExtendedOpCodeCount inst + 1,
             m_OpCodeEx := (m_OpCodeEx inst)[i := DECODE_D3D10_SB_EXTENDED_OPCODE_TYPE Token]\<rparr>))))"

section \<open>Custom data\<close>

text \<open>
  The operands of a shader message: the loop stops when the tokens up to \<open>pOpEnd\<close> are used up,
  which leaves \<open>after\<close> tokens of the block.
\<close>

fun message_operands_from :: "nat \<Rightarrow> nat \<Rightarrow> operand list reader" where
  "message_operands_from 0 after = give []"
| "message_operands_from (Suc n) after =
     (\<lambda>ts. if length ts \<le> after then give [] ts
           else then_read (ParseOperand clear_operand) (\<lambda>op. then_read (message_operands_from n after)
                  (\<lambda>ops. give (op # ops))) ts)"

definition parse_message :: "u32 list \<Rightarrow> u32 \<Rightarrow> parse_error + shader_message option" where
  "parse_message data Length =
     (if Length < 6 then Inr None
      else let StrChars = data ! 2; StrWords = ucast (drop_bit 2 (ucast StrChars + 4 :: u64)) :: u32;
               NumOperands = data ! 3; OpLength = data ! 4
           in if OpLength \<ge> 0x10000 \<or> NumOperands \<ge> 0x1000 \<or> StrWords \<ge> 0x10000 \<or>
                 Length < 5 + OpLength + StrWords then Inr None
              else let after = length data - (5 + unat OpLength)
                   in case message_operands_from (unat NumOperands) after (drop 5 data) of
                        Inl e \<Rightarrow> Inl e
                      | Inr (ops, ts) \<Rightarrow>
                          if length ts \<noteq> after then Inr None
                          else Inr (Some \<lparr>MessageID = data ! 0, FormatStyle = data ! 1,
                                 pFormatString = drop (5 + unat OpLength) data,
                                 message_NumOperands = NumOperands, message_operands = ops\<rparr>))"

text \<open>A comment is closed by a zero in the last byte of the block.\<close>

definition close_comment :: "u32 list \<Rightarrow> parse_error + u32 list" where
  "close_comment data =
     (if data = [] then Inl OutsideWrite else Inr (butlast data @ [last data AND 0x00ffffff]))"

text \<open>The block of an opcode \<open>CUSTOMDATA\<close>, with the new instruction length.\<close>

definition parse_custom_data :: "u32 \<Rightarrow> instruction \<Rightarrow> (instruction \<times> u32) reader" where
  "parse_custom_data Token inst =
     (let ty = DECODE_D3D10_SB_CUSTOMDATA_CLASS Token;
          inst = inst\<lparr>m_PreciseMask := 0, m_bSaturate := 0, i_NumOperands := 0\<rparr>;
          result = (\<lambda>bytes data msg. inst\<lparr>m_Extra := Block (CustomData ty bytes data msg)\<rparr>)
      in then_read next_token (\<lambda>InstructionLength.
           if InstructionLength < 2 then give (result 0 None None, 2)
           else let bytes = (InstructionLength - 2) * 4
                in then_read (next_tokens (unat (drop_bit 2 bytes))) (\<lambda>data.
                     if ty = 4 then
                       (case parse_message data (drop_bit 2 bytes) of
                          Inl e \<Rightarrow> fail e
                        | Inr msg \<Rightarrow> give (result bytes (Some data) msg, InstructionLength))
                     else if ty = 0 then
                       (case close_comment data of
                          Inl e \<Rightarrow> fail e
                        | Inr data \<Rightarrow> give (result bytes (Some data) None, InstructionLength))
                     else give (result bytes (Some data) None, InstructionLength))))"

section \<open>Declarations\<close>

definition set_extra :: "extra \<Rightarrow> instruction \<Rightarrow> instruction" where
  "set_extra e inst = inst\<lparr>m_Extra := e\<rparr>"

text \<open>The register space is a token of its own from shader model 5.1 on.\<close>

definition register_space :: "bool \<Rightarrow> u32 reader" where
  "register_space b51PlusShader = (if b51PlusShader then next_token else give 0)"

definition return_types :: "u32 \<Rightarrow> u32 list" where
  "return_types t = map (DECODE_D3D10_SB_RESOURCE_RETURN_TYPE t) [0, 1, 2, 3]"

definition parse_block :: "u32 \<Rightarrow> instruction \<Rightarrow> instruction reader option" where
  "parse_block Token inst =
     (if m_OpCode inst = D3D11_SB_OPCODE_DCL_FUNCTION_BODY then
        Some (then_read next_token (\<lambda>n. give (set_extra (Block (FunctionBodyDecl n)) inst)))
      else if m_OpCode inst = D3D11_SB_OPCODE_DCL_FUNCTION_TABLE then
        Some (then_read next_token (\<lambda>n. then_read next_token (\<lambda>len. then_read (next_tokens (unat len)) (\<lambda>ids.
          give (set_extra (Block (FunctionTableDecl n len ids)) inst)))))
      else if m_OpCode inst = D3D11_SB_OPCODE_DCL_INTERFACE then
        Some (then_read next_token (\<lambda>n. then_read next_token (\<lambda>expected. then_read next_token (\<lambda>t.
          then_read (next_tokens (unat (DECODE_D3D11_SB_INTERFACE_TABLE_LENGTH t))) (\<lambda>ids.
            give (set_extra (Block (InterfaceDecl (DECODE_D3D11_SB_INTERFACE_INDEXED_BIT Token) (ucast n) expected
              (DECODE_D3D11_SB_INTERFACE_TABLE_LENGTH t) (ucast (DECODE_D3D11_SB_INTERFACE_ARRAY_LENGTH t)) ids)) inst))))))
      else if m_OpCode inst = D3D11_SB_OPCODE_INTERFACE_CALL then
        Some (then_read next_token (\<lambda>f. operand_at 0 (set_extra (InterfaceCall f) inst)))
      else None)"

text \<open>\<open>.x\<close>, \<open>.xy\<close>, \<open>.xyz\<close> or \<open>.xyzw\<close> for a number of components.\<close>

definition component_mask :: "u32 \<Rightarrow> u32" where
  "component_mask n =
     (let k = min 4 (max 1 n)
      in if k = 1 then 0x10 else if k = 2 then 0x30 else if k = 3 then 0x70 else 0xf0)"

text \<open>A declaration with one operand and one more token.\<close>

definition operand_and_token :: "(u32 \<Rightarrow> extra) \<Rightarrow> instruction \<Rightarrow> instruction reader" where
  "operand_and_token f inst =
     then_read (operand_at 0 inst) (\<lambda>inst. then_read next_token (\<lambda>t. give (set_extra (f t) inst)))"

definition parse_register_decl :: "bool \<Rightarrow> u32 \<Rightarrow> instruction \<Rightarrow> instruction reader option" where
  "parse_register_decl b51 Token inst =
     (if m_OpCode inst = D3D10_SB_OPCODE_DCL_RESOURCE then
        Some (then_read (operand_at 0 inst) (\<lambda>inst. then_read next_token (\<lambda>t. then_read (register_space b51) (\<lambda>space.
          give (set_extra (Register (ResourceDecl (DECODE_D3D10_SB_RESOURCE_DIMENSION Token) (return_types t)
            (DECODE_D3D10_SB_RESOURCE_SAMPLE_COUNT Token) space)) inst)))))
      else if m_OpCode inst = D3D10_SB_OPCODE_DCL_SAMPLER then
        Some (then_read (operand_at 0 inst) (\<lambda>inst. then_read (register_space b51) (\<lambda>space.
          give (set_extra (Register (SamplerDecl (DECODE_D3D10_SB_SAMPLER_MODE Token) space)) inst))))
      else if m_OpCode inst = D3D11_SB_OPCODE_DCL_STREAM then Some (operand_at 0 inst)
      else if m_OpCode inst = D3D10_SB_OPCODE_DCL_TEMPS then
        Some (then_read next_token (\<lambda>n. give (set_extra (Register (TempsDecl n)) inst)))
      else if m_OpCode inst = D3D10_SB_OPCODE_DCL_INDEXABLE_TEMP then
        Some (then_read next_token (\<lambda>n. then_read next_token (\<lambda>regs. then_read next_token (\<lambda>comps.
          give (set_extra (Register (IndexableTempDecl n regs (component_mask comps))) inst)))))
      else if m_OpCode inst = D3D10_SB_OPCODE_DCL_INPUT \<or> m_OpCode inst = D3D10_SB_OPCODE_DCL_OUTPUT then
        Some (operand_at 0 inst)
      else if m_OpCode inst = D3D10_SB_OPCODE_DCL_INPUT_SIV \<or> m_OpCode inst = D3D10_SB_OPCODE_DCL_INPUT_SGV then
        Some (operand_and_token (\<lambda>t. Register (InputDeclSIV (DECODE_D3D10_SB_NAME t))) inst)
      else if m_OpCode inst = D3D10_SB_OPCODE_DCL_INPUT_PS then
        Some (operand_at 0 (set_extra (Register (InputPSDecl (DECODE_D3D10_SB_INPUT_INTERPOLATION_MODE Token))) inst))
      else if m_OpCode inst = D3D10_SB_OPCODE_DCL_INPUT_PS_SIV then
        Some (operand_and_token (\<lambda>t. Register (InputPSDeclSIV (DECODE_D3D10_SB_NAME t)
          (DECODE_D3D10_SB_INPUT_INTERPOLATION_MODE Token))) inst)
      else if m_OpCode inst = D3D10_SB_OPCODE_DCL_INPUT_PS_SGV then
        Some (operand_and_token (\<lambda>t. Register (InputPSDeclSGV (DECODE_D3D10_SB_NAME t)
          (DECODE_D3D10_SB_INPUT_INTERPOLATION_MODE Token))) inst)
      else if m_OpCode inst = D3D10_SB_OPCODE_DCL_OUTPUT_SIV then
        Some (operand_and_token (\<lambda>t. Register (OutputDeclSIV (DECODE_D3D10_SB_NAME t))) inst)
      else if m_OpCode inst = D3D10_SB_OPCODE_DCL_OUTPUT_SGV then
        Some (operand_and_token (\<lambda>t. Register (OutputDeclSGV (DECODE_D3D10_SB_NAME t))) inst)
      else if m_OpCode inst = D3D10_SB_OPCODE_DCL_INDEX_RANGE then
        Some (operand_and_token (\<lambda>t. Register (IndexRangeDecl t)) inst)
      else if m_OpCode inst = D3D10_SB_OPCODE_DCL_CONSTANT_BUFFER then
        Some (then_read (operand_at 0 inst) (\<lambda>inst.
          if b51 then then_read next_token (\<lambda>size. then_read next_token (\<lambda>space.
            give (set_extra (Register (ConstantBufferDecl
              (DECODE_D3D10_SB_CONSTANT_BUFFER_ACCESS_PATTERN Token) size space)) inst)))
          else give (set_extra (Register (ConstantBufferDecl (DECODE_D3D10_SB_CONSTANT_BUFFER_ACCESS_PATTERN Token)
            (m_RegIndex (m_Index (m_Operands inst ! 0) ! 1)) 0)) inst)))
      else None)"

definition parse_stage_decl :: "u32 \<Rightarrow> instruction \<Rightarrow> instruction reader option" where
  "parse_stage_decl Token inst =
     (if m_OpCode inst = D3D10_SB_OPCODE_DCL_GS_OUTPUT_PRIMITIVE_TOPOLOGY then
        Some (give (set_extra (Stage (OutputTopologyDecl (DECODE_D3D10_SB_GS_OUTPUT_PRIMITIVE_TOPOLOGY Token))) inst))
      else if m_OpCode inst = D3D10_SB_OPCODE_DCL_GS_INPUT_PRIMITIVE then
        Some (give (set_extra (Stage (InputPrimitiveDecl (DECODE_D3D10_SB_GS_INPUT_PRIMITIVE Token))) inst))
      else if m_OpCode inst = D3D10_SB_OPCODE_DCL_MAX_OUTPUT_VERTEX_COUNT then
        Some (then_read next_token (\<lambda>t. give (set_extra (Stage (GSMaxOutputVertexCountDecl t)) inst)))
      else if m_OpCode inst = D3D11_SB_OPCODE_DCL_GS_INSTANCE_COUNT then
        Some (then_read next_token (\<lambda>t. give (set_extra (Stage (GSInstanceCountDecl t)) inst)))
      else if m_OpCode inst = D3D10_SB_OPCODE_DCL_GLOBAL_FLAGS then
        Some (give (set_extra (Stage (GlobalFlagsDecl (DECODE_D3D10_SB_GLOBAL_FLAGS Token))) inst))
      else if m_OpCode inst = D3D11_SB_OPCODE_DCL_INPUT_CONTROL_POINT_COUNT then
        Some (give (set_extra (Stage (InputControlPointCountDecl (DECODE_D3D11_SB_INPUT_CONTROL_POINT_COUNT Token))) inst))
      else if m_OpCode inst = D3D11_SB_OPCODE_DCL_OUTPUT_CONTROL_POINT_COUNT then
        Some (give (set_extra (Stage (OutputControlPointCountDecl (DECODE_D3D11_SB_OUTPUT_CONTROL_POINT_COUNT Token))) inst))
      else if m_OpCode inst = D3D11_SB_OPCODE_DCL_TESS_DOMAIN then
        Some (give (set_extra (Stage (TessellatorDomainDecl (DECODE_D3D11_SB_TESS_DOMAIN Token))) inst))
      else if m_OpCode inst = D3D11_SB_OPCODE_DCL_TESS_PARTITIONING then
        Some (give (set_extra (Stage (TessellatorPartitioningDecl (DECODE_D3D11_SB_TESS_PARTITIONING Token))) inst))
      else if m_OpCode inst = D3D11_SB_OPCODE_DCL_TESS_OUTPUT_PRIMITIVE then
        Some (give (set_extra (Stage (TessellatorOutputPrimitiveDecl (DECODE_D3D11_SB_TESS_OUTPUT_PRIMITIVE Token))) inst))
      else if m_OpCode inst = D3D11_SB_OPCODE_DCL_HS_MAX_TESSFACTOR then
        Some (then_read next_token (\<lambda>t. give (set_extra (Stage (HSMaxTessFactorDecl t)) inst)))
      else if m_OpCode inst = D3D11_SB_OPCODE_DCL_HS_FORK_PHASE_INSTANCE_COUNT then
        Some (then_read next_token (\<lambda>t. give (set_extra (Stage (HSForkPhaseInstanceCountDecl t)) inst)))
      else if m_OpCode inst = D3D11_SB_OPCODE_DCL_HS_JOIN_PHASE_INSTANCE_COUNT then
        Some (then_read next_token (\<lambda>t. give (set_extra (Stage (HSJoinPhaseInstanceCountDecl t)) inst)))
      else None)"

definition parse_memory_decl :: "bool \<Rightarrow> u32 \<Rightarrow> instruction \<Rightarrow> instruction reader option" where
  "parse_memory_decl b51 Token inst =
     (if m_OpCode inst = D3D11_SB_OPCODE_DCL_THREAD_GROUP then
        Some (then_read next_token (\<lambda>x. then_read next_token (\<lambda>y. then_read next_token (\<lambda>z.
          give (set_extra (Memory (ThreadGroupDecl x y z)) inst)))))
      else if m_OpCode inst = D3D11_SB_OPCODE_DCL_UNORDERED_ACCESS_VIEW_TYPED then
        Some (then_read (operand_at 0 inst) (\<lambda>inst. then_read next_token (\<lambda>t. then_read (register_space b51) (\<lambda>space.
          give (set_extra (Memory (TypedUAVDecl (DECODE_D3D10_SB_RESOURCE_DIMENSION Token) (return_types t)
            (DECODE_D3D11_SB_RESOURCE_FLAGS Token) space)) inst)))))
      else if m_OpCode inst = D3D11_SB_OPCODE_DCL_UNORDERED_ACCESS_VIEW_RAW then
        Some (then_read (operand_at 0 inst) (\<lambda>inst. then_read (register_space b51) (\<lambda>space.
          give (set_extra (Memory (RawUAVDecl (DECODE_D3D11_SB_RESOURCE_FLAGS Token) space)) inst))))
      else if m_OpCode inst = D3D11_SB_OPCODE_DCL_UNORDERED_ACCESS_VIEW_STRUCTURED then
        Some (then_read (operand_at 0 inst) (\<lambda>inst. then_read next_token (\<lambda>stride. then_read (register_space b51) (\<lambda>space.
          give (set_extra (Memory (StructuredUAVDecl stride (DECODE_D3D11_SB_RESOURCE_FLAGS Token) space)) inst)))))
      else if m_OpCode inst = D3D11_SB_OPCODE_DCL_THREAD_GROUP_SHARED_MEMORY_RAW then
        Some (operand_and_token (\<lambda>t. Memory (RawTGSMDecl t)) inst)
      else if m_OpCode inst = D3D11_SB_OPCODE_DCL_THREAD_GROUP_SHARED_MEMORY_STRUCTURED then
        Some (then_read (operand_at 0 inst) (\<lambda>inst. then_read next_token (\<lambda>stride. then_read next_token (\<lambda>n.
          give (set_extra (Memory (StructuredTGSMDecl stride n)) inst)))))
      else if m_OpCode inst = D3D11_SB_OPCODE_DCL_RESOURCE_RAW then
        Some (then_read (operand_at 0 inst) (\<lambda>inst. then_read (register_space b51) (\<lambda>space.
          give (set_extra (Memory (RawSRVDecl space)) inst))))
      else if m_OpCode inst = D3D11_SB_OPCODE_DCL_RESOURCE_STRUCTURED then
        Some (then_read (operand_at 0 inst) (\<lambda>inst. then_read next_token (\<lambda>stride. then_read (register_space b51) (\<lambda>space.
          give (set_extra (Memory (StructuredSRVDecl stride space)) inst)))))
      else None)"

section \<open>ParseInstruction\<close>

text \<open>The instructions with a control in the opcode token.\<close>

definition sync_flags_of :: "u32 \<Rightarrow> sync_flags" where
  "sync_flags_of flags =
     \<lparr>bThreadsInGroup = (flags AND 0x800 \<noteq> 0), bThreadGroupSharedMemory = (flags AND 0x1000 \<noteq> 0),
      bUnorderedAccessViewMemoryGroup = (flags AND 0x2000 \<noteq> 0),
      bUnorderedAccessViewMemoryGlobal = (flags AND 0x4000 \<noteq> 0)\<rparr>"

definition parse_control :: "u32 \<Rightarrow> instruction \<Rightarrow> instruction reader option" where
  "parse_control Token inst =
     (if m_OpCode inst = D3D11_SB_OPCODE_SYNC then
        Some (give (set_extra (SyncFlags (sync_flags_of (DECODE_D3D11_SB_SYNC_FLAGS Token))) inst))
      else if m_OpCode inst = D3D10_SB_OPCODE_RESINFO then
        Some (operands_at [0, 1, 2] (set_extra (ResInfoReturnType (DECODE_D3D10_SB_RESINFO_INSTRUCTION_RETURN_TYPE Token)) inst))
      else if m_OpCode inst = D3D10_1_SB_OPCODE_SAMPLE_INFO then
        Some (operands_at [0, 1] (set_extra (InstructionReturnType (DECODE_D3D10_SB_INSTRUCTION_RETURN_TYPE Token)) inst))
      else if m_OpCode inst = D3D10_SB_OPCODE_IF \<or> m_OpCode inst = D3D10_SB_OPCODE_BREAKC \<or>
              m_OpCode inst = D3D10_SB_OPCODE_CONTINUEC \<or> m_OpCode inst = D3D10_SB_OPCODE_RETC \<or>
              m_OpCode inst = D3D10_SB_OPCODE_DISCARD then
        Some (operand_at 0 (set_extra (Test (DECODE_D3D10_SB_INSTRUCTION_TEST_BOOLEAN Token)) inst))
      else if m_OpCode inst = D3D10_SB_OPCODE_CALLC then
        Some (operands_at [0, 1] (set_extra (Test (DECODE_D3D10_SB_INSTRUCTION_TEST_BOOLEAN Token)) inst))
      else None)"

text \<open>The switch over the opcode, without the custom data; the default case reads the operands.\<close>

definition parse_body :: "bool \<Rightarrow> u32 \<Rightarrow> instruction \<Rightarrow> instruction reader" where
  "parse_body b51 Token inst =
     (case List.map_filter (\<lambda>p. p) [parse_block Token inst, parse_register_decl b51 Token inst,
             parse_stage_decl Token inst, parse_memory_decl b51 Token inst, parse_control Token inst] of
        p # _ \<Rightarrow> p
      | [] \<Rightarrow> operands_at [0..<unat (i_NumOperands inst)] inst)"

text \<open>
  The first token, the extended tokens and the switch.  The result holds the length that the
  parser advances by.
\<close>

definition opcode_token :: "u32 \<Rightarrow> instruction reader" where
  "opcode_token Token =
     (let opcode = DECODE_D3D10_SB_OPCODE_TYPE Token
      in then_read (GetNumInstructionOperands opcode) (\<lambda>n.
           give (clear_instruction\<lparr>m_OpCode := opcode, i_OpClass := m_OpClass (g_InstructionInfo opcode),
             m_PreciseMask := DECODE_D3D11_SB_INSTRUCTION_PRECISE_VALUES Token,
             m_bSaturate := DECODE_IS_D3D10_SB_INSTRUCTION_SATURATE_ENABLED Token, i_NumOperands := n\<rparr>)))"

definition read_extended :: "u32 \<Rightarrow> instruction \<Rightarrow> (instruction \<times> u32) reader" where
  "read_extended Token inst =
     (let bExtended = DECODE_IS_D3D10_SB_OPCODE_EXTENDED Token
      in if bExtended \<noteq> 0 \<and> (m_OpCode inst = D3D11_SB_OPCODE_DCL_INTERFACE \<or>
            m_OpCode inst = D3D11_SB_OPCODE_DCL_FUNCTION_TABLE) then
           then_read next_token (\<lambda>InstructionLength. give (inst\<lparr>m_ExtendedOpCodeCount := 1\<rparr>, InstructionLength))
         else then_read (extended_opcodes [0, 1, 2] bExtended inst) (\<lambda>inst.
           give (inst, DECODE_D3D10_SB_TOKENIZED_INSTRUCTION_LENGTH Token)))"

definition instruction_at :: "bool \<Rightarrow> (instruction \<times> u32) reader" where
  "instruction_at b51PlusShader =
     then_read next_token (\<lambda>Token.
     then_read (opcode_token Token) (\<lambda>inst.
     then_read (read_extended Token inst) (\<lambda>(inst, InstructionLength).
       if m_OpCode inst = D3D10_SB_OPCODE_CUSTOMDATA then parse_custom_data Token inst
       else then_read (parse_body b51PlusShader Token inst) (\<lambda>inst. give (inst, InstructionLength)))))"

section \<open>CShaderCodeParser\<close>

record code_parser =
  m_pShaderCode :: tokens
  m_pCurrentToken :: nat
  m_pShaderEndToken :: nat

text \<open>\<open>SetShader\<close> reads the second token of the buffer, the length of the shader.\<close>

definition SetShader :: "tokens \<Rightarrow> parse_error + code_parser" where
  "SetShader pBuffer =
     (if length pBuffer < 2 then Inl OutsideRead
      else Inr \<lparr>m_pShaderCode = pBuffer, m_pCurrentToken = 2, m_pShaderEndToken = unat (pBuffer ! 1)\<rparr>)"

definition ShaderType :: "code_parser \<Rightarrow> u32" where
  "ShaderType s = DECODE_D3D10_SB_TOKENIZED_PROGRAM_TYPE (m_pShaderCode s ! 0)"

definition ShaderMinorVersion :: "code_parser \<Rightarrow> u32" where
  "ShaderMinorVersion s = DECODE_D3D10_SB_TOKENIZED_PROGRAM_MINOR_VERSION (m_pShaderCode s ! 0)"

definition ShaderMajorVersion :: "code_parser \<Rightarrow> u32" where
  "ShaderMajorVersion s = DECODE_D3D10_SB_TOKENIZED_PROGRAM_MAJOR_VERSION (m_pShaderCode s ! 0)"

definition ShaderLengthInTokens :: "code_parser \<Rightarrow> u32" where
  "ShaderLengthInTokens s = m_pShaderCode s ! 1"

definition CurrentTokenOffset :: "code_parser \<Rightarrow> u32" where
  "CurrentTokenOffset s = of_nat (m_pCurrentToken s)"

definition SetCurrentTokenOffset :: "u32 \<Rightarrow> code_parser \<Rightarrow> code_parser" where
  "SetCurrentTokenOffset off s = s\<lparr>m_pCurrentToken := unat off\<rparr>"

definition EndOfShader :: "code_parser \<Rightarrow> bool" where
  "EndOfShader s \<longleftrightarrow> m_pCurrentToken s \<ge> m_pShaderEndToken s"

definition b51PlusShader :: "code_parser \<Rightarrow> bool" where
  "b51PlusShader s \<longleftrightarrow> ShaderMajorVersion s > 5 \<or> ShaderMajorVersion s = 5 \<and> ShaderMinorVersion s > 0"

definition ParseInstruction :: "code_parser \<Rightarrow> parse_error + instruction \<times> code_parser" where
  "ParseInstruction s =
     (case instruction_at (b51PlusShader s) (drop (m_pCurrentToken s) (m_pShaderCode s)) of
        Inl e \<Rightarrow> Inl e
      | Inr ((inst, InstructionLength), _) \<Rightarrow>
          Inr (inst, s\<lparr>m_pCurrentToken := m_pCurrentToken s + unat InstructionLength\<rparr>))"

text \<open>
  \<open>while (!Parser.EndOfShader()) Parser.ParseInstruction(&Inst)\<close>, the loop that reads a shader.
\<close>

fun read_shader :: "nat \<Rightarrow> code_parser \<Rightarrow> parse_error + instruction list" where
  "read_shader 0 s = Inl OutOfFuel"
| "read_shader (Suc n) s =
     (if EndOfShader s then Inr []
      else case ParseInstruction s of
             Inl e \<Rightarrow> Inl e
           | Inr (inst, s') \<Rightarrow>
               (case read_shader n s' of Inl e \<Rightarrow> Inl e | Inr insts \<Rightarrow> Inr (inst # insts)))"

end
