(* ===== verification/ShaderSyntax.thy ===== *)
theory ShaderSyntax
  imports ShaderContract
begin

text \<open>
  The abstract syntax of operands and instructions, the tokens that the encoding macros of
  \<open>libs/DXBCParser/d3d12tokenizedprogramformat.hpp\<close> write for them in the layout that the header
  documents, and the proof that the parser reads them back.
\<close>

section \<open>Operands\<close>

type_synonym modifiers = "(u32 \<times> u32 \<times> u32) option"

datatype components =
    NoComponent | OneComponent | NComponents
  | MaskOf u32 | SwizzleOf u32 u32 u32 u32 | Component u32

datatype index_ast =
    Imm32Index u32 | Imm64Index u32 u32 | RelIndex operand_ast | Imm32RelIndex u32 operand_ast
and operand_ast =
    ImmediateOp bool bool "u32 list" modifiers
  | RegisterOp u32 components modifiers "index_ast list"

fun index_kind :: "index_ast \<Rightarrow> u32" where
  "index_kind (Imm32Index n) = 0"
| "index_kind (Imm64Index a b) = 1"
| "index_kind (RelIndex d) = 2"
| "index_kind (Imm32RelIndex n d) = 3"

fun encode_components :: "components \<Rightarrow> u32" where
  "encode_components NoComponent = ENCODE_D3D10_SB_OPERAND_NUM_COMPONENTS 0"
| "encode_components OneComponent = ENCODE_D3D10_SB_OPERAND_NUM_COMPONENTS 1"
| "encode_components NComponents = ENCODE_D3D10_SB_OPERAND_NUM_COMPONENTS 3"
| "encode_components (MaskOf m) = ENCODE_D3D10_SB_OPERAND_NUM_COMPONENTS 2 OR
     ENCODE_D3D10_SB_OPERAND_4_COMPONENT_SELECTION_MODE 0 OR ENCODE_D3D10_SB_OPERAND_4_COMPONENT_MASK m"
| "encode_components (SwizzleOf x y z w) = ENCODE_D3D10_SB_OPERAND_NUM_COMPONENTS 2 OR
     ENCODE_D3D10_SB_OPERAND_4_COMPONENT_SELECTION_MODE 1 OR ENCODE_D3D10_SB_OPERAND_4_COMPONENT_SWIZZLE x y z w"
| "encode_components (Component c) = ENCODE_D3D10_SB_OPERAND_NUM_COMPONENTS 2 OR
     ENCODE_D3D10_SB_OPERAND_4_COMPONENT_SELECTION_MODE 2 OR ENCODE_D3D10_SB_OPERAND_4_COMPONENT_SELECT_1 c"

fun encode_modifiers :: "modifiers \<Rightarrow> tokens" where
  "encode_modifiers None = []"
| "encode_modifiers (Some (m, precision, nonuniform)) =
     [ENCODE_D3D10_SB_EXTENDED_OPERAND_MODIFIER m OR ENCODE_D3D11_SB_OPERAND_MIN_PRECISION precision OR
      ENCODE_D3D12_SB_OPERAND_NON_UNIFORM nonuniform]"

fun index_kinds :: "nat \<Rightarrow> index_ast list \<Rightarrow> u32" where
  "index_kinds i [] = 0"
| "index_kinds i (x # xs) = ENCODE_D3D10_SB_OPERAND_INDEX_REPRESENTATION i (index_kind x) OR index_kinds (Suc i) xs"

definition register_token :: "u32 \<Rightarrow> components \<Rightarrow> modifiers \<Rightarrow> index_ast list \<Rightarrow> u32" where
  "register_token ty c e ix =
     encode_components c OR ENCODE_D3D10_SB_OPERAND_TYPE ty OR
     ENCODE_D3D10_SB_OPERAND_INDEX_DIMENSION (of_nat (length ix)) OR index_kinds 0 ix OR
     ENCODE_D3D10_SB_OPERAND_EXTENDED (of_bool (e \<noteq> None))"

definition immediate_type :: "bool \<Rightarrow> u32" where
  "immediate_type wide = (if wide then OPERAND_TYPE_IMMEDIATE64 else OPERAND_TYPE_IMMEDIATE32)"

definition immediate_token :: "bool \<Rightarrow> bool \<Rightarrow> modifiers \<Rightarrow> u32" where
  "immediate_token wide four e =
     ENCODE_D3D10_SB_OPERAND_NUM_COMPONENTS (if four then 2 else 1) OR
     ENCODE_D3D10_SB_OPERAND_TYPE (immediate_type wide) OR
     ENCODE_D3D10_SB_OPERAND_EXTENDED (of_bool (e \<noteq> None))"

fun encode_operand :: "operand_ast \<Rightarrow> tokens"
  and encode_index :: "index_ast \<Rightarrow> tokens"
  and encode_indices :: "index_ast list \<Rightarrow> tokens" where
  "encode_operand (ImmediateOp wide four vs e) = immediate_token wide four e # encode_modifiers e @ vs"
| "encode_operand (RegisterOp ty c e ix) = register_token ty c e ix # encode_modifiers e @ encode_indices ix"
| "encode_index (Imm32Index n) = [n]"
| "encode_index (Imm64Index a b) = [a, b]"
| "encode_index (RelIndex d) = encode_operand d"
| "encode_index (Imm32RelIndex n d) = n # encode_operand d"
| "encode_indices [] = []"
| "encode_indices (x # xs) = encode_index x @ encode_indices xs"

text \<open>The values that have an encoding.\<close>

fun components_ok :: "components \<Rightarrow> bool" where
  "components_ok (MaskOf m) \<longleftrightarrow> m AND 0xf0 = m"
| "components_ok (SwizzleOf x y z w) \<longleftrightarrow> x < 4 \<and> y < 4 \<and> z < 4 \<and> w < 4"
| "components_ok (Component c) \<longleftrightarrow> c < 4"
| "components_ok _ \<longleftrightarrow> True"

fun modifiers_ok :: "modifiers \<Rightarrow> bool" where
  "modifiers_ok None \<longleftrightarrow> True"
| "modifiers_ok (Some (m, precision, nonuniform)) \<longleftrightarrow> m < 256 \<and> precision < 8 \<and> nonuniform < 2"

fun operand_ok :: "operand_ast \<Rightarrow> bool"
  and index_ok :: "index_ast \<Rightarrow> bool"
  and indices_ok :: "index_ast list \<Rightarrow> bool" where
  "operand_ok (ImmediateOp wide four vs e) \<longleftrightarrow> length vs = (if four then 4 else 1) \<and> modifiers_ok e"
| "operand_ok (RegisterOp ty c e ix) \<longleftrightarrow> ty < 256 \<and> \<not> is_immediate ty \<and> components_ok c \<and> modifiers_ok e \<and>
     length ix \<le> 3 \<and> indices_ok ix"
| "index_ok (Imm32Index n) \<longleftrightarrow> True"
| "index_ok (Imm64Index a b) \<longleftrightarrow> True"
| "index_ok (RelIndex d) \<longleftrightarrow> operand_ok d"
| "index_ok (Imm32RelIndex n d) \<longleftrightarrow> operand_ok d"
| "indices_ok [] \<longleftrightarrow> True"
| "indices_ok (x # xs) \<longleftrightarrow> index_ok x \<and> indices_ok xs"

text \<open>The operand in memory that an abstract operand stands for.\<close>

fun number_of_components :: "components \<Rightarrow> u32" where
  "number_of_components NoComponent = 0"
| "number_of_components OneComponent = 1"
| "number_of_components NComponents = 3"
| "number_of_components _ = 2"

fun with_components :: "components \<Rightarrow> operand \<Rightarrow> operand" where
  "with_components (MaskOf m) op = op\<lparr>m_ComponentSelection := 0, m_WriteMask := m\<rparr>"
| "with_components (SwizzleOf x y z w) op = op\<lparr>m_ComponentSelection := 1, m_WriteMask := swizzle_bytes x y z w\<rparr>"
| "with_components (Component c) op =
     op\<lparr>m_ComponentSelection := 2, m_WriteMask := swizzle_bytes c c c c, m_ComponentName := c\<rparr>"
| "with_components _ op = op"

fun with_modifiers :: "modifiers \<Rightarrow> operand \<Rightarrow> operand" where
  "with_modifiers None op = op"
| "with_modifiers (Some (m, precision, nonuniform)) op =
     op\<lparr>m_bExtendedOperand := 1, m_ExtendedOperandType := 1, m_Modifier := m, m_MinPrecision := precision, m_Nonuniform := nonuniform\<rparr>"

fun operand_of :: "operand_ast \<Rightarrow> operand"
  and index_of :: "index_ast \<Rightarrow> operand_index"
  and indices_of :: "index_ast list \<Rightarrow> operand_index list" where
  "operand_of (ImmediateOp wide four vs e) = with_modifiers e
     (clear_operand\<lparr>m_Type := immediate_type wide, m_NumComponents := (if four then 2 else 1),
        m_Value := vs @ drop (length vs) [0, 0, 0, 0]\<rparr>)"
| "operand_of (RegisterOp ty c e ix) = with_modifiers e (with_components c
     (clear_operand\<lparr>m_Type := ty, m_NumComponents := number_of_components c, m_IndexDimension := of_nat (length ix),
        m_IndexType := map index_kind ix @ replicate (3 - length ix) 0,
        m_Index := indices_of ix @ replicate (3 - length ix) clear_index\<rparr>))"
| "index_of (Imm32Index n) = clear_index\<lparr>m_RegIndex := n, m_RelRegType := OPERAND_TYPE_IMMEDIATE32\<rparr>"
| "index_of (Imm64Index a b) = clear_index\<lparr>m_RegIndex := a, m_RegIndexHi := b, m_RelRegType := OPERAND_TYPE_IMMEDIATE64\<rparr>"
| "index_of (RelIndex d) = relative_index (operand_of d) clear_index"
| "index_of (Imm32RelIndex n d) = relative_index (operand_of d) (clear_index\<lparr>m_RegIndex := n\<rparr>)"
| "indices_of [] = []"
| "indices_of (x # xs) = index_of x # indices_of xs"

section \<open>Reading back a register token\<close>

lemma take_bit_small: "x < 2 ^ k \<Longrightarrow> take_bit k x = (x :: u32)"
  by (simp add: take_bit_eq_mask less_mask_eq)

lemma index_kind_small: "take_bit 2 (index_kind x) = index_kind x"
  by (cases x) (simp_all add: take_bit_small)

lemma field_index_kinds_low: "s + k \<le> 22 \<Longrightarrow> field s k (index_kinds i ix) = 0"
  by (induction ix arbitrary: i) (simp_all add: fields tokens)

lemma field_index_kinds_high: "i + length ix \<le> 3 \<Longrightarrow> field 31 1 (index_kinds i ix) = 0"
  by (induction ix arbitrary: i) (simp_all add: fields tokens)

lemma field_index_kinds:
  "field (22 + 3 * j) 2 (index_kinds i ix) = (if i \<le> j \<and> j < i + length ix then index_kind (ix ! (j - i)) else 0)"
  if "j < 3"
  using that
proof (induction ix arbitrary: i)
  case (Cons x ix)
  show ?case
  proof (cases "i = j")
    case True
    then show ?thesis using Cons
      by (simp add: fields tokens field_place_same index_kind_small)
  next
    case False
    then have "22 + 3 * j + 2 \<le> 22 + 3 * i \<or> 22 + 3 * i + 2 \<le> 22 + 3 * j" by arith
    with False show ?thesis
      using Cons.IH [OF Cons.prems, of "Suc i"]
      by (auto simp: fields field_or field_place_other nth_Cons' Suc_le_eq)
  qed
qed (auto simp: tokens)


lemma small_of_bool: "take_bit 1 (of_bool b) = (of_bool b :: u32)"
  by (cases b) simp_all

lemma small_length: "n \<le> 3 \<Longrightarrow> take_bit 2 (of_nat n :: u32) = of_nat n"
  by (rule take_bit_small) (simp add: word_less_nat_alt unat_of_nat)

lemma field_components_high: "12 \<le> s \<Longrightarrow> field s k (encode_components c) = 0"
  by (cases c) (simp_all add: fields tokens)

lemma field_components_low: "field 0 2 (encode_components c) = number_of_components c"
  by (cases c) (simp_all add: fields tokens take_bit_small)

lemmas register_fields =
  register_token_def fields field_or field_zero field_place_other field_place_same field_components_high field_components_low
  field_index_kinds_low field_index_kinds_high

lemma register_token_fields:
  assumes "ty < 256" "length ix \<le> 3"
  shows "field 12 8 (register_token ty c e ix) = ty"
    and "field 0 2 (register_token ty c e ix) = number_of_components c"
    and "field 31 1 (register_token ty c e ix) = of_bool (e \<noteq> None)"
    and "field 20 2 (register_token ty c e ix) = of_nat (length ix)"
  using assms by (simp_all add: register_fields take_bit_small small_length small_of_bool field_index_kinds_high del: of_bool_eq One_nat_def)

lemma register_token_component_field:
  "2 \<le> s \<Longrightarrow> s + k \<le> 12 \<Longrightarrow> field s k (register_token ty c e ix) = field s k (encode_components c)"
  by (simp add: register_fields)

lemma register_token_kinds:
  assumes "length ix \<le> 3"
  shows "map (\<lambda>i. DECODE_D3D10_SB_OPERAND_INDEX_REPRESENTATION i (register_token ty c e ix)) [0..<length ix] = map index_kind ix"
proof -
  have "field (22 + 3 * j) 2 (register_token ty c e ix) = index_kind (ix ! j)" if "j < length ix" for j
    using that assms field_index_kinds [of j 0 ix] by (simp add: register_fields)
  then show ?thesis by (auto simp: fields intro: nth_equalityI)
qed

lemma component_mask_back: "m AND 0xf0 = m \<Longrightarrow> push_bit 4 (take_bit 4 (drop_bit 4 m)) = (m :: u32)"
  using and_field [of "0xf0" 4 4 m] by (simp add: field_def mask_numeral)

lemma component_selection_register:
  assumes "components_ok c" "number_of_components c = 2"
  shows "component_selection (register_token ty c e ix) op ts = Inr (with_components c op, ts)"
  using assms
  by (cases c)
    (simp_all add: component_selection_def Let_def register_token_component_field fields give_def tokens take_bit_small component_mask_back)

section \<open>Reading back an operand\<close>

lemma then_read_Inr [simp]: "p ts = Inr (a, rest) \<Longrightarrow> then_read p f ts = f a rest"
  by (simp add: then_read_def)

lemma operand_token_register:
  assumes "ty < 256" "\<not> is_immediate ty" "components_ok c" "length ix \<le> 3"
  shows "operand_token (register_token ty c e ix) clear_operand ts =
    Inr (with_components c (clear_operand\<lparr>m_Type := ty, m_NumComponents := number_of_components c,
      m_bExtendedOperand := of_bool (e \<noteq> None), m_IndexDimension := of_nat (length ix),
      m_IndexType := map index_kind ix @ replicate (3 - length ix) 0\<rparr>), ts)"
proof -
  have sel: "(if number_of_components c = 2 then component_selection (register_token ty c e ix) op else give op) ts =
      Inr (with_components c op, ts)" for op
    using component_selection_register [OF assms(3)] by (cases c) (simp_all add: give_def)
  have dim: "unat (of_nat (length ix) :: u32) = length ix" using assms(4) by (simp add: unat_of_nat)
  show ?thesis
    using assms sel
    by (simp add: operand_token_def Let_def fields register_token_fields then_read_def give_def dim
          register_token_kinds [unfolded fields] del: One_nat_def of_bool_eq)
      (cases c; simp add: clear_operand_def del: of_bool_eq)
qed

lemma extended_operand_modifiers:
  assumes "m_bExtendedOperand op = of_bool (e \<noteq> None)" "modifiers_ok e"
  shows "extended_operand op (encode_modifiers e @ ts) = Inr (with_modifiers e op, ts)"
proof (cases e)
  case None
  then show ?thesis using assms by (simp add: extended_operand_def give_def)
next
  case (Some t)
  obtain m p n where t: "t = (m, p, n)" by (cases t)
  show ?thesis using assms Some t
    by (cases op) (simp add: extended_operand_def then_read_def give_def Let_def fields tokens take_bit_small [of _ 8, simplified]
        take_bit_small [of _ 3, simplified] take_bit_small [of _ 1, simplified])
qed

lemma immediate_values_register: "\<not> is_immediate (m_Type op) \<Longrightarrow> immediate_values op ts = Inr (op, ts)"
  by (simp add: immediate_values_def Let_def give_def)

lemma read_list_append: "length vs = n \<Longrightarrow> read_list n (vs @ ts) = Inr (vs, ts)"
  by (induction n arbitrary: vs) (auto simp: give_def then_read_def length_Suc_conv)

lemma with_modifiers_simps [simp]:
  "m_Type (with_modifiers e op) = m_Type op"
  "m_IndexDimension (with_modifiers e op) = m_IndexDimension op"
  "m_Index (with_modifiers e op) = m_Index op"
  "m_IndexType (with_modifiers e op) = m_IndexType op"
  "m_NumComponents (with_modifiers e op) = m_NumComponents op"
  "m_Value (with_modifiers e op) = m_Value op"
  by (cases e; auto)+

lemma with_components_simps [simp]:
  "m_Type (with_components c op) = m_Type op"
  "m_IndexDimension (with_components c op) = m_IndexDimension op"
  "m_Index (with_components c op) = m_Index op"
  "m_IndexType (with_components c op) = m_IndexType op"
  "m_bExtendedOperand (with_components c op) = m_bExtendedOperand op"
  by (cases c; auto)+

lemma update_under_modifiers:
  "(with_modifiers e (with_components c op))\<lparr>m_Index := x\<rparr> = with_modifiers e (with_components c (op\<lparr>m_Index := x\<rparr>))"
  by (cases e; cases c; cases op; auto)

lemma extended_bit_redundant:
  "with_modifiers e (with_components c (op\<lparr>m_bExtendedOperand := of_bool (e \<noteq> None)\<rparr>)) =
   with_modifiers e (with_components c (op\<lparr>m_bExtendedOperand := 0\<rparr>))"
  by (cases e; cases c; cases op; auto)

lemma immediate_token_fields:
  shows "field 12 8 (immediate_token wide four e) = immediate_type wide"
    and "field 0 2 (immediate_token wide four e) = (if four then 2 else 1)"
    and "field 31 1 (immediate_token wide four e) = of_bool (e \<noteq> None)"
proof -
  show "field 12 8 (immediate_token wide four e) = immediate_type wide"
    by (simp add: immediate_token_def immediate_type_def fields tokens)
  show "field 0 2 (immediate_token wide four e) = (if four then 2 else 1)"
    by (simp add: immediate_token_def fields tokens)
  show "field 31 1 (immediate_token wide four e) = of_bool (e \<noteq> None)"
    by (simp add: immediate_token_def fields tokens small_of_bool del: of_bool_eq One_nat_def)
qed

lemma parse_immediate:
  assumes "operand_ok (ImmediateOp wide four vs e)"
  shows "parse_operand (Suc n) clear_operand (encode_operand (ImmediateOp wide four vs e) @ rest) =
    Inr (operand_of (ImmediateOp wide four vs e), rest)"
proof -
  let ?op = "clear_operand\<lparr>m_Type := immediate_type wide, m_NumComponents := (if four then 2 else 1),
        m_bExtendedOperand := of_bool (e \<noteq> None)\<rparr>"
  have imm: "is_immediate (immediate_type wide)" by (simp add: is_immediate_def immediate_type_def)
  have tok: "operand_token (immediate_token wide four e) clear_operand ts = Inr (?op, ts)" for ts
    using imm by (simp add: operand_token_def Let_def fields immediate_token_fields give_def del: One_nat_def of_bool_eq)
  have ext: "extended_operand ?op (encode_modifiers e @ vs @ rest) = Inr (with_modifiers e ?op, vs @ rest)"
    using assms by (intro extended_operand_modifiers) (auto simp del: of_bool_eq)
  have rl: "read_list (if four then 4 else 1) (vs @ rest) = Inr (vs, rest)"
    using assms by (intro read_list_append) simp
  have clear_values: "m_Value clear_operand = [0, 0, 0, 0]" by (simp add: clear_operand_def eval_nat_numeral)
  have val: "immediate_values (with_modifiers e ?op) (vs @ rest) =
      Inr ((with_modifiers e ?op)\<lparr>m_Value := vs @ drop (length vs) [0, 0, 0, 0]\<rparr>, rest)"
    using assms imm rl clear_values by (cases four) (simp_all add: immediate_values_def give_def)
  show ?thesis
    using tok ext val by (simp add: give_def del: of_bool_eq) (cases e; auto simp: clear_operand_def give_def)
qed

text \<open>
  The indices: the loop of \<open>ParseOperand\<close> from index \<open>i\<close> on, with any parser that reads the
  nested operands.
\<close>

definition reads_index :: "operand reader \<Rightarrow> index_ast \<Rightarrow> bool" where
  "reads_index p x \<longleftrightarrow>
     (\<forall>rest. ParseIndex p clear_index (index_kind x) (encode_index x @ rest) = Inr (index_of x, rest))"

lemma parse_indices_read:
  assumes "\<forall>x \<in> set xs. reads_index p x" "i + length xs \<le> length (m_Index op)"
    and "drop i (m_Index op) = replicate (length (m_Index op) - i) clear_index"
    and "\<forall>j < length xs. m_IndexType op ! (i + j) = index_kind (xs ! j)"
  shows "parse_indices p [i..<i + length xs] op (encode_indices xs @ rest) =
    Inr (op\<lparr>m_Index := take i (m_Index op) @ indices_of xs @ drop (i + length xs) (m_Index op)\<rparr>, rest)"
  using assms
proof (induction xs arbitrary: i op)
  case Nil
  then show ?case using append_take_drop_id [of i "m_Index op"] by (cases op) (simp add: give_def)
next
  case (Cons x xs)
  let ?op = "op\<lparr>m_Index := (m_Index op)[i := index_of x]\<rparr>"
  have i: "i < length (m_Index op)" using Cons.prems by simp
  then have clear: "m_Index op ! i = clear_index"
    using Cons.prems(3) by (metis add.right_neutral diff_is_0_eq length_drop length_replicate less_or_eq_imp_le
        linorder_not_le nth_drop nth_replicate zero_less_diff)
  have kind: "m_IndexType op ! i = index_kind x" using Cons.prems(4) by force
  have x: "ParseIndex p (m_Index op ! i) (m_IndexType op ! i) (encode_index x @ encode_indices xs @ rest) =
      Inr (index_of x, encode_indices xs @ rest)"
    using Cons.prems(1) by (simp add: clear kind reads_index_def)
  have "drop (Suc i) (m_Index op) = replicate (length (m_Index op) - Suc i) clear_index"
    using arg_cong [OF Cons.prems(3), of "drop 1"] by simp
  then have "drop (Suc i) (m_Index ?op) = replicate (length (m_Index ?op) - Suc i) clear_index"
    by (simp add: drop_update_cancel)
  then have "parse_indices p [Suc i..<Suc i + length xs] ?op (encode_indices xs @ rest) =
      Inr (?op\<lparr>m_Index := take (Suc i) (m_Index ?op) @ indices_of xs @ drop (Suc i + length xs) (m_Index ?op)\<rparr>, rest)"
    using Cons.prems by (intro Cons.IH) (auto simp: nth_Cons')
  moreover have "[i..<i + length (x # xs)] = i # [Suc i..<Suc i + length xs]" by (simp add: upt_conv_Cons del: upt_Suc)
  ultimately show ?case
    using i x by (simp add: take_Suc_conv_app_nth drop_update_cancel del: upt_Suc)
qed

definition reads_operand :: "operand reader \<Rightarrow> operand_ast \<Rightarrow> bool" where
  "reads_operand p d \<longleftrightarrow> (\<forall>rest. p (encode_operand d @ rest) = Inr (operand_of d, rest))"

lemma reads_index_intros:
  "reads_index p (Imm32Index n)"
  "reads_index p (Imm64Index a b)"
  "reads_operand p d \<Longrightarrow> reads_index p (RelIndex d)"
  "reads_operand p d \<Longrightarrow> reads_index p (Imm32RelIndex n d)"
  by (simp_all add: reads_index_def reads_operand_def ParseIndex_def then_read_def give_def clear_index_def)

lemma length_indices_of [simp]: "length (indices_of ix) = length ix"
  by (induction ix) auto

lemma parse_register:
  assumes ok: "operand_ok (RegisterOp ty c e ix)"
    and idx: "\<forall>x \<in> set ix. reads_index (parse_operand n clear_operand) x"
  shows "reads_operand (parse_operand (Suc n) clear_operand) (RegisterOp ty c e ix)"
  unfolding reads_operand_def
proof
  fix rest
  let ?op = "clear_operand\<lparr>m_Type := ty, m_NumComponents := number_of_components c,
      m_bExtendedOperand := of_bool (e \<noteq> None), m_IndexDimension := of_nat (length ix),
      m_IndexType := map index_kind ix @ replicate (3 - length ix) 0\<rparr>"
  let ?op2 = "with_modifiers e (with_components c ?op)"
  have tok: "operand_token (register_token ty c e ix) clear_operand ts = Inr (with_components c ?op, ts)" for ts
    using ok by (intro operand_token_register) auto
  have ext: "extended_operand (with_components c ?op) (encode_modifiers e @ ts) = Inr (?op2, ts)" for ts
    using ok by (intro extended_operand_modifiers) (auto simp del: of_bool_eq)
  have len: "length (m_Index clear_operand) = 3" by (simp add: clear_operand_def)
  have dim: "unat (of_nat (length ix) :: u32) = length ix" using ok by (simp add: unat_of_nat)
  have "parse_indices (parse_operand n clear_operand) [0..<0 + length ix] ?op2 (encode_indices ix @ rest) =
      Inr (?op2\<lparr>m_Index := take 0 (m_Index ?op2) @ indices_of ix @ drop (0 + length ix) (m_Index ?op2)\<rparr>, rest)"
    using ok idx by (intro parse_indices_read) (auto simp: len nth_append, simp add: clear_operand_def)
  moreover have "drop (length ix) (m_Index clear_operand) = replicate (3 - length ix) clear_index"
    by (simp add: clear_operand_def)
  moreover have "?op2\<lparr>m_Index := indices_of ix @ replicate (3 - length ix) clear_index\<rparr> = operand_of (RegisterOp ty c e ix)"
    by (cases c; cases e; auto simp: clear_operand_def)
  ultimately show "parse_operand (Suc n) clear_operand (encode_operand (RegisterOp ty c e ix) @ rest) =
      Inr (operand_of (RegisterOp ty c e ix), rest)"
    using ok tok ext dim by (simp add: immediate_values_register del: of_bool_eq operand_of.simps)
qed

lemma reads_operand_more_fuel:
  "reads_operand (parse_operand n clear_operand) d \<Longrightarrow> n \<le> m \<Longrightarrow> reads_operand (parse_operand m clear_operand) d"
  using agrees_parse_operand [of n m clear_operand] by (auto simp: reads_operand_def agrees_def)

lemma reads_index_more_fuel:
  "reads_index (parse_operand n clear_operand) x \<Longrightarrow> n \<le> m \<Longrightarrow> reads_index (parse_operand m clear_operand) x"
proof -
  assume *: "reads_index (parse_operand n clear_operand) x" "n \<le> m"
  have "agrees (ParseIndex (parse_operand n clear_operand) y ty) (ParseIndex (parse_operand m clear_operand) y ty)" for y ty
    using agrees_parse_operand [OF *(2)] by (auto simp: ParseIndex_def intro!: agrees_then_read)
  with *(1) show ?thesis by (auto simp: reads_index_def agrees_def)
qed

lemma some_fuel_reads:
  "operand_ok d \<Longrightarrow> \<exists>n. reads_operand (parse_operand n clear_operand) d"
  "index_ok x \<Longrightarrow> \<exists>n. reads_index (parse_operand n clear_operand) x"
  "indices_ok xs \<Longrightarrow> \<exists>n. \<forall>x \<in> set xs. reads_index (parse_operand n clear_operand) x"
proof (induction d and x and xs rule: encode_operand_encode_index_encode_indices.induct)
  case (1 wide four vs e)
  then show ?case using parse_immediate unfolding reads_operand_def by blast
next
  case (2 ty c e ix)
  then show ?case using parse_register by (metis operand_ok.simps(2))
next
  case (8 x xs)
  then obtain n m where "reads_index (parse_operand n clear_operand) x"
      "\<forall>x \<in> set xs. reads_index (parse_operand m clear_operand) x" by auto
  then have "\<forall>y \<in> set (x # xs). reads_index (parse_operand (max n m) clear_operand) y"
    by (auto intro: reads_index_more_fuel)
  then show ?case ..
qed (auto intro: reads_index_intros)

text \<open>\<open>ParseOperand\<close> passes enough fuel, so that it reads every encoded operand.\<close>

lemma ParseOperand_reads: "operand_ok d \<Longrightarrow> ParseOperand clear_operand (encode_operand d @ rest) = Inr (operand_of d, rest)"
proof -
  assume "operand_ok d"
  then obtain n where n: "reads_operand (parse_operand n clear_operand) d" using some_fuel_reads(1) by blast
  let ?ts = "encode_operand d @ rest" let ?k = "Suc (length ?ts)"
  have "parse_operand ?k clear_operand ?ts \<noteq> Inl OutOfFuel"
    using fuelled_parse_operand [of ?k clear_operand] by (simp add: fuelled_def)
  then have "parse_operand (max n ?k) clear_operand ?ts = parse_operand ?k clear_operand ?ts"
    using agrees_parse_operand [of ?k "max n ?k" clear_operand] by (simp add: agrees_def)
  moreover have "reads_operand (parse_operand (max n ?k) clear_operand) d"
    using reads_operand_more_fuel [OF n] by simp
  ultimately show ?thesis by (simp add: ParseOperand_def reads_operand_def)
qed

section \<open>Instructions\<close>

text \<open>
  The opcodes of the switch of \<open>ParseInstruction\<close>; the others are plain: their operands follow
  the opcode token.
\<close>

definition special_opcodes :: "u32 list" where
  "special_opcodes =
     [D3D10_SB_OPCODE_BREAKC,
      D3D10_SB_OPCODE_CALLC,
      D3D10_SB_OPCODE_CONTINUEC,
      D3D10_SB_OPCODE_DISCARD,
      D3D10_SB_OPCODE_IF,
      D3D10_SB_OPCODE_CUSTOMDATA,
      D3D10_SB_OPCODE_RESINFO,
      D3D10_SB_OPCODE_RETC,
      D3D10_SB_OPCODE_DCL_RESOURCE,
      D3D10_SB_OPCODE_DCL_CONSTANT_BUFFER,
      D3D10_SB_OPCODE_DCL_SAMPLER,
      D3D10_SB_OPCODE_DCL_INDEX_RANGE,
      D3D10_SB_OPCODE_DCL_GS_OUTPUT_PRIMITIVE_TOPOLOGY,
      D3D10_SB_OPCODE_DCL_GS_INPUT_PRIMITIVE,
      D3D10_SB_OPCODE_DCL_MAX_OUTPUT_VERTEX_COUNT,
      D3D10_SB_OPCODE_DCL_INPUT,
      D3D10_SB_OPCODE_DCL_INPUT_SGV,
      D3D10_SB_OPCODE_DCL_INPUT_SIV,
      D3D10_SB_OPCODE_DCL_INPUT_PS,
      D3D10_SB_OPCODE_DCL_INPUT_PS_SGV,
      D3D10_SB_OPCODE_DCL_INPUT_PS_SIV,
      D3D10_SB_OPCODE_DCL_OUTPUT,
      D3D10_SB_OPCODE_DCL_OUTPUT_SGV,
      D3D10_SB_OPCODE_DCL_OUTPUT_SIV,
      D3D10_SB_OPCODE_DCL_TEMPS,
      D3D10_SB_OPCODE_DCL_INDEXABLE_TEMP,
      D3D10_SB_OPCODE_DCL_GLOBAL_FLAGS,
      D3D10_1_SB_OPCODE_SAMPLE_INFO,
      D3D11_SB_OPCODE_INTERFACE_CALL,
      D3D11_SB_OPCODE_DCL_STREAM,
      D3D11_SB_OPCODE_DCL_FUNCTION_BODY,
      D3D11_SB_OPCODE_DCL_FUNCTION_TABLE,
      D3D11_SB_OPCODE_DCL_INTERFACE,
      D3D11_SB_OPCODE_DCL_INPUT_CONTROL_POINT_COUNT,
      D3D11_SB_OPCODE_DCL_OUTPUT_CONTROL_POINT_COUNT,
      D3D11_SB_OPCODE_DCL_TESS_DOMAIN,
      D3D11_SB_OPCODE_DCL_TESS_PARTITIONING,
      D3D11_SB_OPCODE_DCL_TESS_OUTPUT_PRIMITIVE,
      D3D11_SB_OPCODE_DCL_HS_MAX_TESSFACTOR,
      D3D11_SB_OPCODE_DCL_HS_FORK_PHASE_INSTANCE_COUNT,
      D3D11_SB_OPCODE_DCL_HS_JOIN_PHASE_INSTANCE_COUNT,
      D3D11_SB_OPCODE_DCL_THREAD_GROUP,
      D3D11_SB_OPCODE_DCL_UNORDERED_ACCESS_VIEW_TYPED,
      D3D11_SB_OPCODE_DCL_UNORDERED_ACCESS_VIEW_RAW,
      D3D11_SB_OPCODE_DCL_UNORDERED_ACCESS_VIEW_STRUCTURED,
      D3D11_SB_OPCODE_DCL_THREAD_GROUP_SHARED_MEMORY_RAW,
      D3D11_SB_OPCODE_DCL_THREAD_GROUP_SHARED_MEMORY_STRUCTURED,
      D3D11_SB_OPCODE_DCL_RESOURCE_RAW,
      D3D11_SB_OPCODE_DCL_RESOURCE_STRUCTURED,
      D3D11_SB_OPCODE_SYNC,
      D3D11_SB_OPCODE_DCL_GS_INSTANCE_COUNT]"

definition plain_opcode :: "u32 \<Rightarrow> bool" where
  "plain_opcode opcode \<longleftrightarrow> IsOpCodeValid opcode \<and> opcode \<notin> set special_opcodes"

definition conditional_opcodes :: "u32 list" where
  "conditional_opcodes = [D3D10_SB_OPCODE_IF, D3D10_SB_OPCODE_BREAKC, D3D10_SB_OPCODE_CONTINUEC, D3D10_SB_OPCODE_RETC, D3D10_SB_OPCODE_DISCARD]"

text \<open>
  A plain instruction has an optional texel offset, a triple of numbers from -8 to 7; a
  conditional instruction tests whether its operand is zero.
\<close>

datatype instruction_ast =
    Plain u32 bool u32 "(int \<times> int \<times> int) option" "operand_ast list"
  | Conditional u32 bool operand_ast

fun encode_offset :: "(int \<times> int \<times> int) option \<Rightarrow> tokens" where
  "encode_offset None = []"
| "encode_offset (Some (u, v, w)) =
     [ENCODE_D3D10_SB_EXTENDED_OPCODE_TYPE 1 OR ENCODE_IMMEDIATE_D3D10_SB_ADDRESS_OFFSET 0 (word_of_int u) OR
      ENCODE_IMMEDIATE_D3D10_SB_ADDRESS_OFFSET 1 (word_of_int v) OR ENCODE_IMMEDIATE_D3D10_SB_ADDRESS_OFFSET 2 (word_of_int w)]"

fun instruction_tokens :: "instruction_ast \<Rightarrow> tokens" where
  "instruction_tokens (Plain opcode sat precise off ds) = encode_offset off @ concat (map encode_operand ds)"
| "instruction_tokens (Conditional opcode nonzero d) = encode_operand d"

fun opcode_fields :: "instruction_ast \<Rightarrow> u32" where
  "opcode_fields (Plain opcode sat precise off ds) =
     ENCODE_D3D10_SB_OPCODE_TYPE opcode OR ENCODE_D3D10_SB_INSTRUCTION_SATURATE (of_bool sat) OR
     ENCODE_D3D11_SB_INSTRUCTION_PRECISE_VALUES precise OR ENCODE_D3D10_SB_OPCODE_EXTENDED (of_bool (off \<noteq> None))"
| "opcode_fields (Conditional opcode nonzero d) =
     ENCODE_D3D10_SB_OPCODE_TYPE opcode OR ENCODE_D3D10_SB_INSTRUCTION_TEST_BOOLEAN (of_bool nonzero)"

definition encode_instruction :: "instruction_ast \<Rightarrow> tokens" where
  "encode_instruction i =
     (opcode_fields i OR
      ENCODE_D3D10_SB_TOKENIZED_INSTRUCTION_LENGTH (of_nat (Suc (length (instruction_tokens i))))) # instruction_tokens i"

definition offset_ok :: "int \<Rightarrow> bool" where
  "offset_ok x \<longleftrightarrow> -8 \<le> x \<and> x \<le> 7"

fun instruction_ok :: "instruction_ast \<Rightarrow> bool" where
  "instruction_ok (Plain opcode sat precise off ds) \<longleftrightarrow>
     plain_opcode opcode \<and> precise < 16 \<and> (case off of None \<Rightarrow> True | Some (u, v, w) \<Rightarrow> offset_ok u \<and> offset_ok v \<and> offset_ok w) \<and>
     length ds = unat (m_NumOperands (g_InstructionInfo opcode)) \<and> list_all operand_ok ds \<and>
     length (instruction_tokens (Plain opcode sat precise off ds)) < 127"
| "instruction_ok (Conditional opcode nonzero d) \<longleftrightarrow>
     opcode \<in> set conditional_opcodes \<and> operand_ok d \<and> length (encode_operand d) < 127"

definition operand_slots :: "operand_ast list \<Rightarrow> operand list" where
  "operand_slots ds = map operand_of ds @ replicate (8 - length ds) clear_operand"

fun with_offset :: "(int \<times> int \<times> int) option \<Rightarrow> instruction \<Rightarrow> instruction" where
  "with_offset None inst = inst"
| "with_offset (Some (u, v, w)) inst =
     inst\<lparr>m_ExtendedOpCodeCount := 1, m_OpCodeEx := [1, 0, 0], m_TexelOffset := [word_of_int u, word_of_int v, word_of_int w]\<rparr>"

text \<open>What the parser hands to the compiler.\<close>

fun instruction_of :: "instruction_ast \<Rightarrow> instruction" where
  "instruction_of (Plain opcode sat precise off ds) = with_offset off
     (clear_instruction\<lparr>m_OpCode := opcode, i_OpClass := m_OpClass (g_InstructionInfo opcode),
        i_NumOperands := of_nat (length ds), m_PreciseMask := precise, m_bSaturate := (if sat then 0x2000 else 0),
        m_Operands := operand_slots ds\<rparr>)"
| "instruction_of (Conditional opcode nonzero d) =
     clear_instruction\<lparr>m_OpCode := opcode, i_OpClass := m_OpClass (g_InstructionInfo opcode), i_NumOperands := 1,
        m_Operands := operand_slots [d], m_Extra := Test (of_bool nonzero)\<rparr>"

section \<open>Reading back an instruction\<close>

lemma field_eq_0: "field s k x = 0 \<Longrightarrow> field s k y = 0 \<Longrightarrow> field s k (x OR y) = 0"
  by (simp add: field_or)

lemma opcode_small: "opcode < 0x800 \<Longrightarrow> take_bit 11 opcode = (opcode :: u32)"
  by (rule take_bit_small) simp

lemma plain_opcode_small: "plain_opcode opcode \<Longrightarrow> opcode < 0x800"
  by (auto simp: plain_opcode_def IsOpCodeValid_def D3D10_SB_NUM_OPCODES_def word_less_nat_alt)

lemma conditional_opcode_small: "opcode \<in> set conditional_opcodes \<Longrightarrow> opcode < 0x800 \<and> IsOpCodeValid opcode"
  by (auto simp: conditional_opcodes_def IsOpCodeValid_def D3D10_SB_NUM_OPCODES_def)

lemma length_small: "n < 127 \<Longrightarrow> take_bit 7 (of_nat (Suc n) :: u32) = of_nat (Suc n)"
  by (rule take_bit_small) (simp add: word_less_nat_alt unat_of_nat del: of_nat_Suc)

lemma plain_token_fields:
  fixes off and sat and ds
  assumes "opcode < 0x800" "precise < 16" "n < 127"
  defines "t \<equiv> opcode_fields (Plain opcode sat precise off ds) OR
      ENCODE_D3D10_SB_TOKENIZED_INSTRUCTION_LENGTH (of_nat (Suc n))"
  shows "DECODE_D3D10_SB_OPCODE_TYPE t = opcode"
    and "DECODE_D3D11_SB_INSTRUCTION_PRECISE_VALUES t = precise"
    and "DECODE_IS_D3D10_SB_INSTRUCTION_SATURATE_ENABLED t = (if sat then 0x2000 else 0)"
    and "DECODE_IS_D3D10_SB_OPCODE_EXTENDED t = of_bool (off \<noteq> None)"
    and "DECODE_D3D10_SB_TOKENIZED_INSTRUCTION_LENGTH t = of_nat (Suc n)"
  using assms(1-3) unfolding t_def
  by (simp_all add: fields tokens opcode_small take_bit_small [of _ 4, simplified] length_small small_of_bool push_bit_of_1
      del: of_bool_eq One_nat_def of_nat_Suc)

lemma conditional_token_fields:
  fixes nonzero and d
  assumes "opcode < 0x800" "n < 127"
  defines "t \<equiv> opcode_fields (Conditional opcode nonzero d) OR
      ENCODE_D3D10_SB_TOKENIZED_INSTRUCTION_LENGTH (of_nat (Suc n))"
  shows "DECODE_D3D10_SB_OPCODE_TYPE t = opcode"
    and "DECODE_D3D11_SB_INSTRUCTION_PRECISE_VALUES t = 0"
    and "DECODE_IS_D3D10_SB_INSTRUCTION_SATURATE_ENABLED t = 0"
    and "DECODE_IS_D3D10_SB_OPCODE_EXTENDED t = 0"
    and "DECODE_D3D10_SB_INSTRUCTION_TEST_BOOLEAN t = of_bool nonzero"
    and "DECODE_D3D10_SB_TOKENIZED_INSTRUCTION_LENGTH t = of_nat (Suc n)"
  using assms(1-2) unfolding t_def
  by (simp_all add: fields tokens opcode_small length_small small_of_bool del: of_bool_eq One_nat_def of_nat_Suc)

lemma operand_at_reads:
  assumes "operand_ok d" "i < length (m_Operands inst)" "m_Operands inst ! i = clear_operand"
  shows "operand_at i inst (encode_operand d @ rest) = Inr (inst\<lparr>m_Operands := (m_Operands inst)[i := operand_of d]\<rparr>, rest)"
  using assms by (simp add: operand_at_def ParseOperand_reads give_def)

lemma operands_at_read:
  assumes "list_all operand_ok ds" "i + length ds \<le> length (m_Operands inst)"
    and "drop i (m_Operands inst) = replicate (length (m_Operands inst) - i) clear_operand"
  shows "operands_at [i..<i + length ds] inst (concat (map encode_operand ds) @ rest) =
    Inr (inst\<lparr>m_Operands := take i (m_Operands inst) @ map operand_of ds @ drop (i + length ds) (m_Operands inst)\<rparr>, rest)"
  using assms
proof (induction ds arbitrary: i inst)
  case Nil
  then show ?case using append_take_drop_id [of i "m_Operands inst"] by (cases inst) (simp add: give_def)
next
  case (Cons d ds)
  let ?inst = "inst\<lparr>m_Operands := (m_Operands inst)[i := operand_of d]\<rparr>"
  have i: "i < length (m_Operands inst)" using Cons.prems by simp
  have "m_Operands inst ! i = drop i (m_Operands inst) ! 0" using i by simp
  then have clear: "m_Operands inst ! i = clear_operand" using Cons.prems(3) i by simp
  have d: "operand_at i inst (encode_operand d @ concat (map encode_operand ds) @ rest) =
      Inr (?inst, concat (map encode_operand ds) @ rest)"
    using Cons.prems i clear by (intro operand_at_reads) simp_all
  have "drop (Suc i) (m_Operands inst) = replicate (length (m_Operands inst) - Suc i) clear_operand"
    using arg_cong [OF Cons.prems(3), of "drop 1"] by simp
  then have "operands_at [Suc i..<Suc i + length ds] ?inst (concat (map encode_operand ds) @ rest) =
      Inr (?inst\<lparr>m_Operands := take (Suc i) (m_Operands ?inst) @ map operand_of ds @ drop (Suc i + length ds) (m_Operands ?inst)\<rparr>, rest)"
    using Cons.prems by (intro Cons.IH) (auto simp: drop_update_cancel)
  moreover have "[i..<i + length (d # ds)] = i # [Suc i..<Suc i + length ds]" by (simp add: upt_conv_Cons del: upt_Suc)
  ultimately show ?case
    using i d by (simp add: take_Suc_conv_app_nth drop_update_cancel del: upt_Suc)
qed

lemma operands_at_clear:
  assumes "list_all operand_ok ds" "length ds \<le> 8" "m_Operands inst = replicate 8 clear_operand"
  shows "operands_at [0..<length ds] inst (concat (map encode_operand ds) @ rest) =
    Inr (inst\<lparr>m_Operands := operand_slots ds\<rparr>, rest)"
  using operands_at_read [of ds 0 inst rest] assms by (simp add: operand_slots_def)

lemma plain_body:
  assumes "m_OpCode inst \<notin> set special_opcodes"
  shows "parse_body b Token inst = operands_at [0..<unat (i_NumOperands inst)] inst"
  using assms
  by (simp add: special_opcodes_def parse_body_def parse_block_def parse_register_decl_def parse_stage_decl_def
      parse_memory_decl_def parse_control_def map_filter_def)

lemma conditional_body:
  assumes "m_OpCode inst \<in> set conditional_opcodes"
  shows "parse_body b Token inst =
    operand_at 0 (set_extra (Test (DECODE_D3D10_SB_INSTRUCTION_TEST_BOOLEAN Token)) inst)"
proof -
  have "m_OpCode inst = D3D10_SB_OPCODE_IF \<or> m_OpCode inst = D3D10_SB_OPCODE_BREAKC \<or>
      m_OpCode inst = D3D10_SB_OPCODE_CONTINUEC \<or> m_OpCode inst = D3D10_SB_OPCODE_RETC \<or>
      m_OpCode inst = D3D10_SB_OPCODE_DISCARD"
    using assms by (simp add: conditional_opcodes_def)
  note cases = this
  then have "parse_block Token inst = None \<and> parse_register_decl b Token inst = None \<and>
      parse_stage_decl Token inst = None \<and> parse_memory_decl b Token inst = None"
    by (elim disjE) (simp_all add: parse_block_def parse_register_decl_def parse_stage_decl_def parse_memory_decl_def)
  moreover have "parse_control Token inst =
      Some (operand_at 0 (set_extra (Test (DECODE_D3D10_SB_INSTRUCTION_TEST_BOOLEAN Token)) inst))"
    using cases by (elim disjE) (simp_all add: parse_control_def)
  ultimately show ?thesis by (simp add: parse_body_def map_filter_def)
qed

lemma special_opcodes_include:
  "opcode \<notin> set special_opcodes \<Longrightarrow> opcode \<noteq> D3D11_SB_OPCODE_DCL_INTERFACE \<and>
     opcode \<noteq> D3D11_SB_OPCODE_DCL_FUNCTION_TABLE \<and> opcode \<noteq> D3D10_SB_OPCODE_CUSTOMDATA"
  "opcode \<in> set conditional_opcodes \<Longrightarrow> opcode \<noteq> D3D11_SB_OPCODE_DCL_INTERFACE \<and>
     opcode \<noteq> D3D11_SB_OPCODE_DCL_FUNCTION_TABLE \<and> opcode \<noteq> D3D10_SB_OPCODE_CUSTOMDATA"
  by (auto simp add: special_opcodes_def conditional_opcodes_def)

text \<open>Every entry of the table fits into the eight operand slots.\<close>

lemma table_operands: "list_all (\<lambda>(k, i). m_NumOperands i \<le> 8) instruction_table"
  by (simp add: instruction_table_def instruction_info_sm4_def instruction_info_decls_def instruction_info_sm5_def SET_def)

lemma NumOperands_le: "unat (m_NumOperands (g_InstructionInfo opcode)) \<le> 8"
proof (cases "map_of instruction_table opcode")
  case None
  then show ?thesis by (simp add: g_InstructionInfo_def)
next
  case (Some i)
  then have "m_NumOperands i \<le> 8" using table_operands by (auto simp: list_all_iff dest!: map_of_SomeD)
  then show ?thesis using Some by (simp add: g_InstructionInfo_def word_le_nat_alt)
qed

lemma unat_small_nat: "n \<le> 8 \<Longrightarrow> unat (of_nat n :: u32) = n"
  by (simp add: unat_of_nat)

lemma ucast_of_unat: "(ucast (w :: u8) :: u32) = of_nat (unat w)"
  by (simp add: unsigned_of_nat)

lemma texel_offset_reads:
  assumes "offset_ok u" "offset_ok v" "offset_ok w"
  defines "t \<equiv> hd (encode_offset (Some (u, v, w)))"
  shows "map (\<lambda>c. texel_offset c t) [0, 1, 2] = [word_of_int u, word_of_int v, word_of_int w]"
proof -
  have ext: "(let x = ucast (take_bit 4 (word_of_int y :: u32)) :: u8 in if x AND 0x8 \<noteq> 0 then x OR 0xf0 else x) = word_of_int y"
    if "offset_ok y" for y
  proof -
    have "y \<in> {-8, -7, -6, -5, -4, -3, -2, -1, 0, 1, 2, 3, 4, 5, 6, 7}" using that unfolding offset_ok_def by simp presburger
    then show ?thesis by (elim insertE emptyE; simp add: mask_numeral)
  qed
  have "field 9 4 t = take_bit 4 (word_of_int u)" "field 13 4 t = take_bit 4 (word_of_int v)"
    "field 17 4 t = take_bit 4 (word_of_int w)" by (simp_all add: t_def fields tokens)
  then show ?thesis using assms(1-3) by (simp add: texel_offset_def fields ext)
qed

lemma m_Operands_with_offset [simp]:
  "m_Operands (with_offset off inst) = m_Operands inst"
  "m_OpCode (with_offset off inst) = m_OpCode inst"
  "i_NumOperands (with_offset off inst) = i_NumOperands inst"
  by (cases off; auto)+

lemma extended_opcodes_offset:
  assumes "case off of None \<Rightarrow> True | Some (u, v, w) \<Rightarrow> offset_ok u \<and> offset_ok v \<and> offset_ok w"
    and "m_ExtendedOpCodeCount inst = 0" "m_OpCodeEx inst = [0, 0, 0]"
  shows "extended_opcodes [0, 1, 2] (of_bool (off \<noteq> None)) inst (encode_offset off @ ts) = Inr (with_offset off inst, ts)"
proof (cases off)
  case None
  then show ?thesis by (simp add: give_def)
next
  case (Some a)
  obtain u v w where a: "a = (u, v, w)" by (cases a)
  define t where "t = hd (encode_offset (Some (u, v, w)))"
  have toks: "encode_offset off = [t]" by (simp add: t_def Some a)
  have ok: "offset_ok u" "offset_ok v" "offset_ok w" using assms(1) by (simp_all add: Some a)
  have ty: "DECODE_D3D10_SB_EXTENDED_OPCODE_TYPE t = 1" and last: "DECODE_IS_D3D10_SB_OPCODE_EXTENDED t = 0"
    by (simp_all add: t_def fields tokens)
  show ?thesis
    using texel_offset_reads [OF ok, folded t_def] assms(2,3)
    by (simp add: toks then_read_def ty last extended_opcode_def give_def) (simp add: Some a)
qed

lemma encode_instruction_head:
  "hd (encode_instruction i) = opcode_fields i OR
     ENCODE_D3D10_SB_TOKENIZED_INSTRUCTION_LENGTH (of_nat (Suc (length (instruction_tokens i))))"
  by (simp add: encode_instruction_def)

text \<open>The three steps of the parser on a token and the tokens that follow it.\<close>

lemma instruction_at_steps:
  assumes "opcode_token t ts = Inr (inst1, ts1)"
    and "read_extended t inst1 ts1 = Inr ((inst2, len), ts2)"
    and "m_OpCode inst2 \<noteq> D3D10_SB_OPCODE_CUSTOMDATA"
    and "parse_body b t inst2 ts2 = Inr (inst3, ts3)"
  shows "instruction_at b (t # ts) = Inr ((inst3, len), ts3)"
  using assms by (simp add: instruction_at_def give_def)

lemma opcode_token_reads:
  assumes "DECODE_D3D10_SB_OPCODE_TYPE t = opcode" "IsOpCodeValid opcode"
    and "DECODE_D3D11_SB_INSTRUCTION_PRECISE_VALUES t = precise"
    and "DECODE_IS_D3D10_SB_INSTRUCTION_SATURATE_ENABLED t = sat"
  shows "opcode_token t ts = Inr (clear_instruction\<lparr>m_OpCode := opcode, i_OpClass := m_OpClass (g_InstructionInfo opcode),
      m_PreciseMask := precise, m_bSaturate := sat, i_NumOperands := ucast (m_NumOperands (g_InstructionInfo opcode))\<rparr>, ts)"
  using assms by (simp add: opcode_token_def Let_def GetNumInstructionOperands_def then_read_def give_def)

lemma read_extended_reads:
  assumes "DECODE_IS_D3D10_SB_OPCODE_EXTENDED t = of_bool (off \<noteq> None)"
    and "DECODE_D3D10_SB_TOKENIZED_INSTRUCTION_LENGTH t = len"
    and "m_OpCode inst \<noteq> D3D11_SB_OPCODE_DCL_INTERFACE" "m_OpCode inst \<noteq> D3D11_SB_OPCODE_DCL_FUNCTION_TABLE"
    and "case off of None \<Rightarrow> True | Some (u, v, w) \<Rightarrow> offset_ok u \<and> offset_ok v \<and> offset_ok w"
    and "m_ExtendedOpCodeCount inst = 0" "m_OpCodeEx inst = [0, 0, 0]"
  shows "read_extended t inst (encode_offset off @ ts) = Inr ((with_offset off inst, len), ts)"
  using extended_opcodes_offset [OF assms(5-7), of ts] assms(1-4)
  by (simp add: read_extended_def give_def del: of_bool_eq extended_opcodes.simps)

lemma operand_slots_update:
  "(with_offset off (clear_instruction\<lparr>m_OpCode := a, i_OpClass := c, m_PreciseMask := p, m_bSaturate := s,
      i_NumOperands := n\<rparr>))\<lparr>m_Operands := x\<rparr> =
   with_offset off (clear_instruction\<lparr>m_OpCode := a, i_OpClass := c, i_NumOperands := n, m_PreciseMask := p,
      m_bSaturate := s, m_Operands := x\<rparr>)"
  by (cases off) (auto simp: clear_instruction_def)

lemma instruction_at_plain:
  assumes "instruction_ok (Plain opcode sat precise off ds)"
  shows "instruction_at b (encode_instruction (Plain opcode sat precise off ds) @ rest) =
    Inr ((instruction_of (Plain opcode sat precise off ds),
          of_nat (length (encode_instruction (Plain opcode sat precise off ds)))), rest)"
proof -
  let ?i = "Plain opcode sat precise off ds"
  define t where "t = hd (encode_instruction ?i)"
  define inst where "inst = clear_instruction\<lparr>m_OpCode := opcode, i_OpClass := m_OpClass (g_InstructionInfo opcode),
      m_PreciseMask := precise, m_bSaturate := (if sat then 0x2000 else 0), i_NumOperands := of_nat (length ds)\<rparr>"
  have len: "length (instruction_tokens ?i) < 127" and op: "plain_opcode opcode" and pr: "precise < 16"
    and off: "case off of None \<Rightarrow> True | Some (u, v, w) \<Rightarrow> offset_ok u \<and> offset_ok v \<and> offset_ok w"
    and ds: "length ds = unat (m_NumOperands (g_InstructionInfo opcode))" "list_all operand_ok ds"
    using assms by simp_all
  have op': "IsOpCodeValid opcode" "opcode \<notin> set special_opcodes" using op by (simp_all add: plain_opcode_def)
  note tf = plain_token_fields [OF plain_opcode_small [OF op] pr len, of sat off ds, folded encode_instruction_head, folded t_def]
  have few: "length ds \<le> 8" using NumOperands_le [of opcode] by (simp only: ds(1))
  have n: "unat (of_nat (length ds) :: u32) = length ds" "ucast (m_NumOperands (g_InstructionInfo opcode)) = (of_nat (length ds) :: u32)"
    using few by (simp_all only: unat_small_nat ds(1) ucast_of_unat)
  have inst_simps: "m_OpCode inst = opcode" "m_ExtendedOpCodeCount inst = 0" "m_OpCodeEx inst = [0, 0, 0]"
    "i_NumOperands inst = of_nat (length ds)" "m_Operands inst = replicate 8 clear_operand"
    by (simp_all add: inst_def clear_instruction_def)
  have t: "opcode_token t ts = Inr (inst, ts)" for ts
    unfolding inst_def n(2) [symmetric] by (rule opcode_token_reads [OF tf(1) op'(1) tf(2,3)])
  have e: "read_extended t inst (encode_offset off @ ts) =
      Inr ((with_offset off inst, of_nat (Suc (length (instruction_tokens ?i)))), ts)" for ts
    using special_opcodes_include(1) [OF op'(2)]
    by (intro read_extended_reads tf off inst_simps) (simp_all only: inst_simps not_False_eq_True simp_thms)
  have "m_OpCode (with_offset off inst) \<notin> set special_opcodes" using op'(2) by (simp only: inst_simps m_Operands_with_offset not_False_eq_True)
  then have b: "parse_body b t (with_offset off inst) (concat (map encode_operand ds) @ rest) =
      Inr ((with_offset off inst)\<lparr>m_Operands := operand_slots ds\<rparr>, rest)"
    using operands_at_clear [OF ds(2) few, of "with_offset off inst" rest]
    by (simp only: plain_body m_Operands_with_offset inst_simps n(1) simp_thms)
  have r: "(with_offset off inst)\<lparr>m_Operands := operand_slots ds\<rparr> = instruction_of ?i"
    by (simp only: inst_def operand_slots_update instruction_of.simps)
  have "instruction_at b (t # encode_offset off @ concat (map encode_operand ds) @ rest) =
      Inr ((instruction_of ?i, of_nat (Suc (length (instruction_tokens ?i)))), rest)"
    using special_opcodes_include(1) [OF op'(2)]
    by (intro instruction_at_steps [OF t e _ b [unfolded r]]) (simp only: inst_simps m_Operands_with_offset not_False_eq_True)
  then show ?thesis by (simp add: encode_instruction_def t_def del: of_nat_Suc instruction_of.simps)
qed

lemma conditional_operands: "opcode \<in> set conditional_opcodes \<Longrightarrow> m_NumOperands (g_InstructionInfo opcode) = 1"
proof -
  have "list_all (\<lambda>opcode. m_NumOperands (g_InstructionInfo opcode) = 1) conditional_opcodes"
    by code_simp
  then show "opcode \<in> set conditional_opcodes \<Longrightarrow> m_NumOperands (g_InstructionInfo opcode) = 1"
    by (simp add: list_all_iff)
qed

lemma instruction_at_conditional:
  assumes "instruction_ok (Conditional opcode nonzero d)"
  shows "instruction_at b (encode_instruction (Conditional opcode nonzero d) @ rest) =
    Inr ((instruction_of (Conditional opcode nonzero d),
          of_nat (length (encode_instruction (Conditional opcode nonzero d)))), rest)"
proof -
  let ?i = "Conditional opcode nonzero d"
  define t where "t = hd (encode_instruction ?i)"
  define inst where "inst = clear_instruction\<lparr>m_OpCode := opcode, i_OpClass := m_OpClass (g_InstructionInfo opcode),
      m_PreciseMask := 0, m_bSaturate := 0, i_NumOperands := ucast (m_NumOperands (g_InstructionInfo opcode))\<rparr>"
  have op: "opcode \<in> set conditional_opcodes" and d: "operand_ok d" and len: "length (instruction_tokens ?i) < 127"
    using assms by simp_all
  have small: "opcode < 0x800" "IsOpCodeValid opcode" using conditional_opcode_small [OF op] by simp_all
  note tf = conditional_token_fields [OF small(1) len, of nonzero d, folded encode_instruction_head, folded t_def]
  have inst_simps: "m_OpCode inst = opcode" "m_ExtendedOpCodeCount inst = 0" "m_OpCodeEx inst = [0, 0, 0]"
    by (simp_all add: inst_def clear_instruction_def)
  have n: "ucast (m_NumOperands (g_InstructionInfo opcode)) = (1 :: u32)"
    using op by (simp only: conditional_operands) simp
  have t: "opcode_token t ts = Inr (inst, ts)" for ts
    unfolding inst_def by (rule opcode_token_reads [OF tf(1) small(2) tf(2,3)])
  have e: "read_extended t inst (encode_offset None @ ts) = Inr ((with_offset None inst, of_nat (Suc (length (instruction_tokens ?i)))), ts)" for ts
    using special_opcodes_include(2) [OF op] tf(4)
    by (intro read_extended_reads tf inst_simps) (simp_all only: inst_simps not_False_eq_True simp_thms option.case of_bool_eq)
  have "m_OpCode inst \<in> set conditional_opcodes" using op by (simp only: inst_simps)
  then have b: "parse_body b t inst (encode_operand d @ rest) = Inr (instruction_of ?i, rest)"
    using operand_at_reads [OF d, of 0 "set_extra (Test (of_bool nonzero)) inst" rest]
    by (simp add: conditional_body tf(5) operand_slots_def set_extra_def n inst_def clear_instruction_def eval_nat_numeral del: of_bool_eq)
  have "instruction_at b (t # encode_offset None @ encode_operand d @ rest) =
      Inr ((instruction_of ?i, of_nat (Suc (length (instruction_tokens ?i)))), rest)"
    using special_opcodes_include(2) [OF op] b
    by (intro instruction_at_steps [OF t e]) (simp_all only: inst_simps with_offset.simps not_False_eq_True)
  then show ?thesis by (simp add: encode_instruction_def t_def del: of_nat_Suc instruction_of.simps)
qed

lemma instruction_at_reads:
  "instruction_ok i \<Longrightarrow> instruction_at b (encode_instruction i @ rest) = Inr ((instruction_of i, of_nat (length (encode_instruction i))), rest)"
  by (cases i) (simp_all only: instruction_at_plain instruction_at_conditional)

end
