(* ===== verification/ShaderLoop.thy ===== *)
theory ShaderLoop
  imports ShaderSyntax
begin

text \<open>
  The loop over a shader: the operand parser and the instruction parser are self-delimiting, no
  nested reader runs out of fuel, the shaders that the encoding writes are read back, and the
  loop ends unless it meets an instruction of length zero.
\<close>

section \<open>The fuel of the readers inside an instruction\<close>

definition enough :: "'a reader \<Rightarrow> bool" where
  "enough p \<longleftrightarrow> (\<forall>ts. p ts \<noteq> Inl OutOfFuel)"

named_theorems enough_intros "the readers that never run out of fuel"

lemma enough_give [enough_intros]: "enough (give a)"
  by (simp add: enough_def give_def)

lemma enough_throw [enough_intros]: "e \<noteq> OutOfFuel \<Longrightarrow> enough (fail e)"
  by (simp add: enough_def fail_def)

lemma enough_next_token [enough_intros]: "enough next_token"
  by (simp add: enough_def next_token_fuel)

lemma enough_next_tokens [enough_intros]: "enough (next_tokens n)"
  by (simp add: enough_def next_tokens_def)

lemma enough_then_read [enough_intros]: "enough p \<Longrightarrow> (\<And>a. enough (f a)) \<Longrightarrow> enough (then_read p f)"
  by (auto simp: enough_def then_read_def split: sum.splits)

lemma enough_if [enough_intros]: "enough p \<Longrightarrow> enough q \<Longrightarrow> enough (if c then p else q)"
  by simp

lemma enough_ParseOperand [enough_intros]: "enough (ParseOperand op)"
  using fuelled_parse_operand by (fastforce simp: enough_def ParseOperand_def fuelled_def)

lemma enough_operand_at [enough_intros]: "enough (operand_at i inst)"
  unfolding operand_at_def by (intro enough_intros)

lemma enough_operands_at [enough_intros]: "enough (operands_at is inst)"
  by (induction "is" arbitrary: inst) (auto intro!: enough_intros)

lemma enough_register_space [enough_intros]: "enough (register_space b)"
  unfolding register_space_def by (intro enough_intros)

lemma enough_operand_and_token [enough_intros]: "enough (operand_and_token f inst)"
  unfolding operand_and_token_def by (intro enough_intros)

lemma enough_extended_opcodes [enough_intros]: "enough (extended_opcodes is b inst)"
  by (induction "is" b inst rule: extended_opcodes.induct) (auto intro!: enough_intros)

lemma enough_message_operands [enough_intros]: "enough (message_operands_from n after)"
proof (induction n)
  case (Suc n)
  have "enough (then_read (ParseOperand clear_operand) (\<lambda>op. then_read (message_operands_from n after) (\<lambda>ops. give (op # ops))))"
    by (intro enough_intros Suc.IH)
  then show ?case by (simp add: enough_def give_def)
qed (auto intro: enough_intros)

lemma parse_message_enough: "parse_message data len \<noteq> Inl OutOfFuel"
  using enough_message_operands by (auto simp: parse_message_def Let_def enough_def split: sum.splits)

lemma close_comment_enough: "close_comment data \<noteq> Inl OutOfFuel"
  by (simp add: close_comment_def)

lemma enough_parse_custom_data [enough_intros]: "enough (parse_custom_data t inst)"
  using parse_message_enough close_comment_enough
  unfolding parse_custom_data_def Let_def
  by (intro enough_intros) (auto split: sum.splits intro!: enough_intros)

lemma enough_parse_blocks:
  "parse_block t inst = Some p \<Longrightarrow> enough p"
  "parse_register_decl b t inst = Some p \<Longrightarrow> enough p"
  "parse_stage_decl t inst = Some p \<Longrightarrow> enough p"
  "parse_memory_decl b t inst = Some p \<Longrightarrow> enough p"
  "parse_control t inst = Some p \<Longrightarrow> enough p"
  unfolding parse_block_def parse_register_decl_def parse_stage_decl_def parse_memory_decl_def parse_control_def
  by (clarsimp split: if_split_asm; intro enough_intros)+

lemma parse_body_cases:
  obtains "parse_block t inst = Some (parse_body b t inst)" | "parse_register_decl b t inst = Some (parse_body b t inst)"
  | "parse_stage_decl t inst = Some (parse_body b t inst)" | "parse_memory_decl b t inst = Some (parse_body b t inst)"
  | "parse_control t inst = Some (parse_body b t inst)"
  | "parse_body b t inst = operands_at [0..<unat (i_NumOperands inst)] inst"
  unfolding parse_body_def map_filter_def
  by (cases "parse_block t inst"; cases "parse_register_decl b t inst"; cases "parse_stage_decl t inst";
      cases "parse_memory_decl b t inst"; cases "parse_control t inst") auto

lemma enough_parse_body [enough_intros]: "enough (parse_body b t inst)"
  by (rule parse_body_cases [of t inst b]) (auto intro: enough_parse_blocks enough_operands_at)

lemma enough_opcode_token [enough_intros]: "enough (opcode_token t)"
  unfolding opcode_token_def GetNumInstructionOperands_def Let_def by (intro enough_intros) simp

lemma enough_read_extended [enough_intros]: "enough (read_extended t inst)"
  unfolding read_extended_def Let_def by (intro enough_intros)

lemma enough_instruction_at: "enough (instruction_at b)"
  unfolding instruction_at_def by (auto intro!: enough_intros)

section \<open>The parsers are self-delimiting\<close>

lemma self_delimiting_ParseOperand [reader_intros]: "self_delimiting (ParseOperand op)"
proof unfold_locales
  fix ts a rest
  assume "ParseOperand op ts = Inr (a, rest)"
  then have r: "parse_operand (Suc (length ts)) op ts = Inr (a, rest)" by (simp add: ParseOperand_def)
  obtain used where used: "ts = used @ rest" "\<forall>us. parse_operand (Suc (length ts)) op (used @ us) = Inr (a, us)"
    using self_delimiting.prefix_code [OF self_delimiting_parse_operand r] by blast
  have "ParseOperand op (used @ us) = Inr (a, us)" for us
  proof -
    let ?n = "Suc (length ts)" let ?m = "Suc (length (used @ us))"
    have "parse_operand (max ?n ?m) op (used @ us) = Inr (a, us)"
      using agrees_parse_operand [of ?n "max ?n ?m" op] used(2) by (simp add: agrees_def)
    moreover have "parse_operand ?m op (used @ us) \<noteq> Inl OutOfFuel"
      using fuelled_parse_operand [of ?m op] by (simp add: fuelled_def)
    then have "parse_operand (max ?n ?m) op (used @ us) = parse_operand ?m op (used @ us)"
      using agrees_parse_operand [of ?m "max ?n ?m" op] by (simp add: agrees_def)
    ultimately show ?thesis by (simp add: ParseOperand_def)
  qed
  then show "\<exists>used. ts = used @ rest \<and> (\<forall>us. ParseOperand op (used @ us) = Inr (a, us))" using used(1) by blast
qed

interpretation operand_parser: self_delimiting "ParseOperand op" for op
  by (rule self_delimiting_ParseOperand)

lemma self_delimiting_operand_at [reader_intros]: "self_delimiting (operand_at i inst)"
  unfolding operand_at_def by (intro reader_intros)

lemma self_delimiting_operands_at [reader_intros]: "self_delimiting (operands_at is inst)"
  by (induction "is" arbitrary: inst) (auto intro!: reader_intros)

lemma self_delimiting_register_space [reader_intros]: "self_delimiting (register_space b)"
  unfolding register_space_def by (intro reader_intros)

lemma self_delimiting_operand_and_token [reader_intros]: "self_delimiting (operand_and_token f inst)"
  unfolding operand_and_token_def by (intro reader_intros)

lemma self_delimiting_extended_opcodes [reader_intros]: "self_delimiting (extended_opcodes is b inst)"
  by (induction "is" b inst rule: extended_opcodes.induct) (auto intro!: reader_intros)

lemma self_delimiting_parse_custom_data [reader_intros]: "self_delimiting (parse_custom_data t inst)"
  unfolding parse_custom_data_def Let_def
  by (intro reader_intros) (auto split: sum.splits intro!: reader_intros)

lemma self_delimiting_parse_blocks:
  "parse_block t inst = Some p \<Longrightarrow> self_delimiting p"
  "parse_register_decl b t inst = Some p \<Longrightarrow> self_delimiting p"
  "parse_stage_decl t inst = Some p \<Longrightarrow> self_delimiting p"
  "parse_memory_decl b t inst = Some p \<Longrightarrow> self_delimiting p"
  "parse_control t inst = Some p \<Longrightarrow> self_delimiting p"
  unfolding parse_block_def parse_register_decl_def parse_stage_decl_def parse_memory_decl_def parse_control_def
  by (clarsimp split: if_split_asm; intro reader_intros)+

lemma self_delimiting_parse_body [reader_intros]: "self_delimiting (parse_body b t inst)"
  by (rule parse_body_cases [of t inst b]) (auto intro: self_delimiting_parse_blocks self_delimiting_operands_at)

lemma self_delimiting_opcode_token [reader_intros]: "self_delimiting (opcode_token t)"
  unfolding opcode_token_def GetNumInstructionOperands_def Let_def by (intro reader_intros)

lemma self_delimiting_read_extended [reader_intros]: "self_delimiting (read_extended t inst)"
  unfolding read_extended_def Let_def by (intro reader_intros)

lemma self_delimiting_instruction_at: "self_delimiting (instruction_at b)"
  unfolding instruction_at_def by (auto intro!: reader_intros)

interpretation instruction_parser: self_delimiting "instruction_at b" for b
  by (rule self_delimiting_instruction_at)

section \<open>The loop ends unless it meets an instruction of length zero\<close>

inductive reaches :: "code_parser \<Rightarrow> code_parser \<Rightarrow> bool" where
  reaches_refl: "reaches s s"
| reaches_step: "\<not> EndOfShader s \<Longrightarrow> ParseInstruction s = Inr (inst, s') \<Longrightarrow> reaches s' t \<Longrightarrow> reaches s t"

text \<open>An instruction of length zero before the end of the shader.\<close>

definition stuck :: "code_parser \<Rightarrow> bool" where
  "stuck s \<longleftrightarrow> \<not> EndOfShader s \<and> (\<exists>inst. ParseInstruction s = Inr (inst, s))"

lemma ParseInstruction_fuel: "ParseInstruction s \<noteq> Inl OutOfFuel"
  using enough_instruction_at by (auto simp: ParseInstruction_def enough_def split: sum.splits)

lemma ParseInstruction_advances:
  "ParseInstruction s = Inr (inst, s') \<Longrightarrow> s' = s \<or> (m_pCurrentToken s < m_pCurrentToken s' \<and> m_pShaderEndToken s' = m_pShaderEndToken s)"
  by (cases s) (auto simp: ParseInstruction_def unat_gt_0 split: sum.splits)

lemma read_shader_stuck: "stuck s \<Longrightarrow> read_shader n s = Inl OutOfFuel"
  by (induction n) (auto simp: stuck_def)

lemma read_shader_reaches_stuck: "reaches s t \<Longrightarrow> stuck t \<Longrightarrow> read_shader n s = Inl OutOfFuel"
proof (induction arbitrary: n rule: reaches.induct)
  case (reaches_step s inst s' t)
  then show ?case by (cases n) auto
qed (rule read_shader_stuck)

lemma read_shader_out_of_fuel:
  "m_pShaderEndToken s - m_pCurrentToken s < n \<Longrightarrow> read_shader n s = Inl OutOfFuel \<Longrightarrow> \<exists>t. reaches s t \<and> stuck t"
proof (induction n arbitrary: s)
  case (Suc n)
  then have more: "\<not> EndOfShader s" by auto
  with Suc.prems(2) obtain inst s' where s': "ParseInstruction s = Inr (inst, s')" "read_shader n s' = Inl OutOfFuel"
    using ParseInstruction_fuel [of s] by (auto split: sum.splits)
  show ?case
  proof (cases "s' = s")
    case True
    then show ?thesis using more s'(1) reaches_refl by (auto simp: stuck_def)
  next
    case False
    then have "m_pShaderEndToken s' - m_pCurrentToken s' < n"
      using ParseInstruction_advances [OF s'(1)] more Suc.prems(1) by (auto simp: EndOfShader_def)
    then show ?thesis using Suc.IH [OF _ s'(2)] reaches_step [OF more s'(1)] by blast
  qed
qed simp


section \<open>Shaders that are read back\<close>

definition shader_tokens :: "u32 \<Rightarrow> instruction_ast list \<Rightarrow> tokens" where
  "shader_tokens version insts =
     (let body = concat (map encode_instruction insts) in version # of_nat (2 + length body) # body)"

definition read_buffer :: "nat \<Rightarrow> tokens \<Rightarrow> parse_error + instruction list" where
  "read_buffer fuel pBuffer = (case SetShader pBuffer of Inl e \<Rightarrow> Inl e | Inr s \<Rightarrow> read_shader fuel s)"

lemma unat_length_token: "n < 2 ^ 32 \<Longrightarrow> unat (of_nat n :: u32) = n"
  by (simp add: unat_of_nat)

lemma encode_instruction_length:
  "instruction_ok i \<Longrightarrow> unat (of_nat (length (encode_instruction i)) :: u32) = length (encode_instruction i)"
  by (cases i) (simp_all add: encode_instruction_def unat_of_nat del: of_nat_Suc)

lemma ParseInstruction_reads:
  assumes "instruction_ok i" "drop (m_pCurrentToken s) (m_pShaderCode s) = encode_instruction i @ rest"
  shows "ParseInstruction s =
    Inr (instruction_of i, s\<lparr>m_pCurrentToken := m_pCurrentToken s + length (encode_instruction i)\<rparr>)"
  using assms by (simp add: ParseInstruction_def instruction_at_reads encode_instruction_length)

lemma read_shader_reads:
  assumes "list_all instruction_ok insts"
    and "drop (m_pCurrentToken s) (m_pShaderCode s) = concat (map encode_instruction insts) @ rest"
    and "m_pShaderEndToken s = m_pCurrentToken s + length (concat (map encode_instruction insts))"
    and "length insts < n"
  shows "read_shader n s = Inr (map instruction_of insts)"
  using assms
proof (induction insts arbitrary: s n)
  case Nil
  then show ?case by (cases n) (auto simp: EndOfShader_def)
next
  case (Cons i insts)
  let ?s = "s\<lparr>m_pCurrentToken := m_pCurrentToken s + length (encode_instruction i)\<rparr>"
  obtain m where n: "n = Suc m" using Cons.prems(4) by (cases n) auto
  have "0 < length (encode_instruction i)" by (simp add: encode_instruction_def)
  then have more: "\<not> EndOfShader s" using Cons.prems(3) by (simp add: EndOfShader_def)
  have i: "ParseInstruction s = Inr (instruction_of i, ?s)"
    using Cons.prems by (intro ParseInstruction_reads) simp_all
  have "drop (length (encode_instruction i)) (drop (m_pCurrentToken s) (m_pShaderCode s)) =
      concat (map encode_instruction insts) @ rest" using Cons.prems(2) by simp
  then have "drop (m_pCurrentToken s + length (encode_instruction i)) (m_pShaderCode s) =
      concat (map encode_instruction insts) @ rest" by (simp add: add.commute)
  then have "read_shader m ?s = Inr (map instruction_of insts)"
    using Cons.prems n by (intro Cons.IH) simp_all
  then show ?case using more i n by simp
qed




lemma add_operands: "m_NumOperands (g_InstructionInfo 0) = 3"
  by code_simp


end
