(* ===== verification/ShaderInstructions.thy ===== *)
theory ShaderInstructions
  imports ShaderParser "HOL-Library.Monad_Syntax"
begin

text \<open>
  The instructions of the compiler, \<open>src/airconv/dxbc_instructions.hpp\<close>, and the functions of
  \<open>dxbc_instructions.cpp\<close> that read them from the instructions of the parser.  \<open>None\<close> stands for
  a broken assertion or for a function that ends without a value.  The shader information of
  \<open>dxbc_converter.hpp\<close> is kept without the tables and argument indices of the later binding.
\<close>

section \<open>Operands\<close>

record Swizzle =
  swz_x :: u8
  swz_y :: u8
  swz_z :: u8
  swz_w :: u8

definition swizzle_identity :: Swizzle where
  "swizzle_identity = \<lparr>swz_x = 0, swz_y = 1, swz_z = 2, swz_w = 3\<rparr>"

text \<open>
  The variants of a register index: the indices by a component of a temporary hold the register
  (file and register), the phase, the component and the offset.
\<close>

datatype OperandIndex =
    RegisterIndex u32
  | IndexByIndexableTempComponent u32 u32 u32 u8 u32
  | IndexByTempComponent u32 u32 u8 u32

datatype OperandDataType = Float | Integer | Half16X16

record SrcOperandCommon =
  swizzle :: Swizzle
  absolute :: bool
  negate :: bool
  read_type :: OperandDataType

datatype InputAttribute =
    VertexId | InstanceId | ThreadId | ThreadIdInGroup | ThreadGroupId | ThreadIdInGroupFlatten
  | PrimitiveId | CoverageMask | OutputControlPointId | ForkInstanceId | JoinInstanceId | Domain
  | GSInstanceId

datatype SrcOperand =
    SrcOperandImmediate32 SrcOperandCommon "u32 list"
  | SrcOperandTemp SrcOperandCommon u32 u32
  | SrcOperandIndexableTemp SrcOperandCommon u32 OperandIndex u32
  | SrcOperandInput SrcOperandCommon u32
  | SrcOperandConstantBuffer SrcOperandCommon u32 OperandIndex OperandIndex
  | SrcOperandImmediateConstantBuffer SrcOperandCommon OperandIndex
  | SrcOperandAttribute SrcOperandCommon InputAttribute
  | SrcOperandIndexableInput SrcOperandCommon OperandIndex
  | SrcOperandInputICP SrcOperandCommon OperandIndex u32
  | SrcOperandInputOCP SrcOperandCommon OperandIndex u32
  | SrcOperandInputPC SrcOperandCommon OperandIndex

record DstOperandCommon =
  write_mask :: u32
  write_type :: OperandDataType

datatype DstOperand =
    DstOperandNull DstOperandCommon
  | DstOperandSideEffect DstOperandCommon
  | DstOperandTemp DstOperandCommon u32 u32
  | DstOperandIndexableTemp DstOperandCommon u32 OperandIndex u32
  | DstOperandOutput DstOperandCommon u32 u32
  | DstOperandOutputDepth DstOperandCommon
  | DstOperandOutputCoverageMask DstOperandCommon
  | DstOperandOutputStencilRef DstOperandCommon
  | DstOperandIndexableOutput DstOperandCommon OperandIndex u32

record SrcOperandResource =
  resource_range_id :: u32
  resource_index :: OperandIndex
  resource_read_swizzle :: Swizzle

record SrcOperandSampler =
  sampler_range_id :: u32
  sampler_index :: OperandIndex
  gather_channel :: u8

record SrcOperandUAV =
  uav_range_id :: u32
  uav_index :: OperandIndex
  uav_read_swizzle :: Swizzle

record SrcOperandTGSM =
  tgsm_id :: u32
  tgsm_read_swizzle :: Swizzle

record AtomicDstOperandUAV =
  atomic_range_id :: u32
  atomic_index :: OperandIndex
  atomic_mask :: u32

record AtomicOperandTGSM =
  atomic_tgsm_id :: u32
  atomic_tgsm_mask :: u32

datatype typeless_src = TypelessResource SrcOperandResource | TypelessUAV SrcOperandUAV | TypelessTGSM SrcOperandTGSM

section \<open>Instructions\<close>

record InstructionCommon =
  saturate :: bool
  precise_mask :: u8

text \<open>The variants of an instruction, in groups; every constructor has the fields of its structure in order.\<close>

datatype move_inst =
    InstMov InstructionCommon DstOperand SrcOperand
  | InstMovConditional InstructionCommon DstOperand SrcOperand SrcOperand SrcOperand
  | InstSwapConditional DstOperand DstOperand SrcOperand SrcOperand SrcOperand

datatype FloatComparison = Equal | NotEqual | GreaterEqual | LessThan

datatype FloatBinaryOp = FAdd | FMul | FDiv | FMin | FMax

datatype FloatUnaryOp =
    Log2 | Exp2 | Rcp | Rsq | Sqrt | Fraction | RoundNearestEven | RoundNegativeInf | RoundPositiveInf | RoundZero

datatype float_inst =
    InstDotProduct InstructionCommon DstOperand SrcOperand SrcOperand u8
  | InstSinCos InstructionCommon DstOperand DstOperand SrcOperand
  | InstFloatCompare InstructionCommon FloatComparison DstOperand SrcOperand SrcOperand
  | InstFloatBinaryOp InstructionCommon FloatBinaryOp DstOperand SrcOperand SrcOperand
  | InstFloatUnaryOp InstructionCommon FloatUnaryOp DstOperand SrcOperand
  | InstFloatMAD InstructionCommon DstOperand SrcOperand SrcOperand SrcOperand
  | InstPartialDerivative InstructionCommon DstOperand SrcOperand bool bool

datatype IntegerComparison =
    IEqual | INotEqual | SignedLessThan | SignedGreaterEqual | UnsignedLessThan | UnsignedGreaterEqual

datatype IntegerUnaryOp = INeg | INot | ReverseBits | CountBits | FirstHiBitSigned | FirstHiBit | FirstLowBit

datatype IntegerBinaryOp = UMin | UMax | IMin | IMax | IShl | IShr | UShr | IXor | IOr | IAnd | IAdd

datatype IntegerBinaryOpWithTwoDst = IMul | UAddCarry | UDiv | UMul | USubBorrow

datatype ConversionOp = HalfToFloat | FloatToHalf | FloatToSigned | SignedToFloat | FloatToUnsigned | UnsignedToFloat

datatype integer_inst =
    InstIntegerCompare IntegerComparison DstOperand SrcOperand SrcOperand
  | InstIntegerUnaryOp IntegerUnaryOp DstOperand SrcOperand
  | InstIntegerBinaryOp IntegerBinaryOp DstOperand SrcOperand SrcOperand
  | InstIntegerBinaryOpWithTwoDst InstructionCommon IntegerBinaryOpWithTwoDst DstOperand DstOperand SrcOperand SrcOperand
  | InstIntegerMAD DstOperand SrcOperand SrcOperand SrcOperand bool
  | InstMaskedSumOfAbsDiff DstOperand SrcOperand SrcOperand SrcOperand
  | InstExtractBits DstOperand SrcOperand SrcOperand SrcOperand bool
  | InstBitFiledInsert DstOperand SrcOperand SrcOperand SrcOperand SrcOperand
  | InstConvert ConversionOp DstOperand SrcOperand

text \<open>The offsets are 32-bit integers, read from the bytes of the parser.\<close>

datatype sample_inst =
    InstSample DstOperand SrcOperand SrcOperandResource SrcOperandSampler "u32 list" "SrcOperand option" "DstOperand option"
  | InstSampleCompare DstOperand SrcOperand SrcOperandResource SrcOperandSampler SrcOperand "u32 list" "SrcOperand option"
      "DstOperand option" bool
  | InstSampleBias DstOperand SrcOperand SrcOperandResource SrcOperandSampler SrcOperand "u32 list" "SrcOperand option"
      "DstOperand option"
  | InstSampleDerivative DstOperand SrcOperand SrcOperandResource SrcOperandSampler SrcOperand SrcOperand "u32 list"
      "SrcOperand option" "DstOperand option"
  | InstSampleLOD DstOperand SrcOperand SrcOperandResource SrcOperandSampler SrcOperand "u32 list" "DstOperand option"
  | InstGather DstOperand SrcOperand SrcOperandResource SrcOperandSampler SrcOperand "DstOperand option"
  | InstGatherCompare DstOperand SrcOperand SrcOperandResource SrcOperandSampler SrcOperand SrcOperand "DstOperand option"
  | InstCalcLOD DstOperand SrcOperand SrcOperandResource SrcOperandSampler

datatype resinfo_modifier = M_none | M_uint | M_rcp

datatype info_inst =
    InstBufferInfo DstOperand "SrcOperandResource + SrcOperandUAV"
  | InstResourceInfo DstOperand SrcOperand "SrcOperandResource + SrcOperandUAV" resinfo_modifier
  | InstSampleInfo DstOperand "SrcOperandResource option" bool Swizzle
  | InstSamplePos DstOperand "SrcOperandResource option" SrcOperand Swizzle

datatype memory_inst =
    InstLoad DstOperand SrcOperand SrcOperandResource "SrcOperand option" "u32 list"
  | InstLoadRaw DstOperand SrcOperand typeless_src bool
  | InstLoadStructured DstOperand SrcOperand SrcOperand typeless_src bool
  | InstLoadUAVTyped DstOperand SrcOperand SrcOperandUAV
  | InstStoreUAVTyped AtomicDstOperandUAV SrcOperand SrcOperand
  | InstStoreRaw "AtomicDstOperandUAV + AtomicOperandTGSM" SrcOperand SrcOperand
  | InstStoreStructured "AtomicDstOperandUAV + AtomicOperandTGSM" SrcOperand SrcOperand SrcOperand

datatype AtomicBinaryOp = AtomicAnd | AtomicOr | AtomicXor | AtomicAdd | AtomicIMax | AtomicIMin | AtomicUMax | AtomicUMin | AtomicXchg

datatype atomic_inst =
    InstAtomicBinOp AtomicBinaryOp "AtomicDstOperandUAV + AtomicOperandTGSM" SrcOperand SrcOperand DstOperand
  | InstAtomicImmIncrement DstOperand AtomicDstOperandUAV
  | InstAtomicImmDecrement DstOperand AtomicDstOperandUAV
  | InstAtomicImmCmpExchange DstOperand "AtomicDstOperandUAV + AtomicOperandTGSM" SrcOperand SrcOperand SrcOperand

datatype UAVBoundary = global_boundary | group_boundary | no_boundary

datatype other_inst =
    InstNop
  | InstPixelDiscard
  | InstSync UAVBoundary bool bool
  | InstInterpolateCentroid DstOperand u32 Swizzle
  | InstInterpolateSample DstOperand SrcOperand u32 Swizzle
  | InstInterpolateOffset DstOperand SrcOperand u32 Swizzle
  | InstEmit
  | InstCut

datatype Instruction =
    Move move_inst | FloatOp float_inst | IntegerOp integer_inst | SampleOp sample_inst | InfoOp info_inst
  | MemoryOp memory_inst | AtomicOp atomic_inst | OtherOp other_inst

section \<open>Shader information\<close>

datatype ScalerDataType = ScalerFloat | ScalerUint | ScalerInt | ScalerDouble

datatype ResourceType =
    TextureBuffer | Texture1D | Texture1DArray | Texture2D | Texture2DArray | Texture2DMultisampled
  | Texture2DMultisampledArray | Texture3D | TextureCube | TextureCubeArray | NonApplicable

record ResourceRange =
  range_id :: u32
  lower_bound :: u32
  range_size :: u32
  range_space :: u32

record ShaderResourceViewInfo =
  srv_range :: ResourceRange
  srv_scaler_type :: ScalerDataType
  srv_resource_type :: ResourceType
  srv_read :: bool
  srv_sampled :: bool
  srv_compared :: bool
  srv_structure_stride :: u32

record UnorderedAccessViewInfo =
  uav_range :: ResourceRange
  uav_scaler_type :: ScalerDataType
  uav_resource_type :: ResourceType
  uav_read :: bool
  uav_written :: bool
  global_coherent :: bool
  rasterizer_order :: bool
  with_counter :: bool
  uav_structure_stride :: u32

record ConstantBufferInfo =
  cbuffer_range :: ResourceRange
  size_in_vec4 :: u32

record SamplerInfo =
  sampler_range :: ResourceRange

record ThreadgroupBufferInfo =
  size_in_uint :: u32
  tgsm_size :: u32
  tgsm_stride :: u32
  structured :: bool

record PhaseInfo =
  phase_tempRegisterCount :: u32
  phase_indexableTempRegisterCounts :: "u32 \<rightharpoonup> u32 \<times> u32"

record ShaderInfo =
  immConstantBufferData :: "u32 list list"
  srvMap :: "u32 \<rightharpoonup> ShaderResourceViewInfo"
  uavMap :: "u32 \<rightharpoonup> UnorderedAccessViewInfo"
  cbufferMap :: "u32 \<rightharpoonup> ConstantBufferInfo"
  samplerMap :: "u32 \<rightharpoonup> SamplerInfo"
  tgsmMap :: "u32 \<rightharpoonup> ThreadgroupBufferInfo"
  tempRegisterCount :: u32
  indexableTempRegisterCounts :: "u32 \<rightharpoonup> u32 \<times> u32"
  skipOptimization :: bool
  refactoringAllowed :: bool
  use_cmp_exch :: bool
  no_control_point_phase_passthrough :: bool
  output_control_point_read :: bool
  use_msad :: bool
  use_samplepos :: bool
  phases :: "PhaseInfo list"
  pull_mode_reg_mask :: u32

text \<open>\<open>std::map::operator[]\<close> inserts a zero-initialised entry for a missing key.\<close>

definition zero_range :: ResourceRange where
  "zero_range = \<lparr>range_id = 0, lower_bound = 0, range_size = 0, range_space = 0\<rparr>"

definition new_srv :: ShaderResourceViewInfo where
  "new_srv = \<lparr>srv_range = zero_range, srv_scaler_type = ScalerFloat, srv_resource_type = TextureBuffer,
     srv_read = False, srv_sampled = False, srv_compared = False, srv_structure_stride = 0\<rparr>"

definition new_uav :: UnorderedAccessViewInfo where
  "new_uav = \<lparr>uav_range = zero_range, uav_scaler_type = ScalerFloat, uav_resource_type = TextureBuffer,
     uav_read = False, uav_written = False, global_coherent = False, rasterizer_order = False, with_counter = False,
     uav_structure_stride = 0\<rparr>"

text \<open>The information of a new shader.\<close>

definition new_info :: ShaderInfo where
  "new_info = \<lparr>immConstantBufferData = [], srvMap = Map.empty, uavMap = Map.empty, cbufferMap = Map.empty,
     samplerMap = Map.empty, tgsmMap = Map.empty, tempRegisterCount = 0, indexableTempRegisterCounts = Map.empty,
     skipOptimization = False, refactoringAllowed = False, use_cmp_exch = False,
     no_control_point_phase_passthrough = False, output_control_point_read = False, use_msad = False,
     use_samplepos = False, phases = [], pull_mode_reg_mask = 0\<rparr>"

definition srv_at :: "ShaderInfo \<Rightarrow> u32 \<Rightarrow> ShaderResourceViewInfo" where
  "srv_at info r = (case srvMap info r of Some v \<Rightarrow> v | None \<Rightarrow> new_srv)"

definition uav_at :: "ShaderInfo \<Rightarrow> u32 \<Rightarrow> UnorderedAccessViewInfo" where
  "uav_at info r = (case uavMap info r of Some v \<Rightarrow> v | None \<Rightarrow> new_uav)"

definition mark_srv :: "(ShaderResourceViewInfo \<Rightarrow> ShaderResourceViewInfo) \<Rightarrow> u32 \<Rightarrow> ShaderInfo \<Rightarrow> ShaderInfo" where
  "mark_srv f r info = info\<lparr>srvMap := (srvMap info)(r \<mapsto> f (srv_at info r))\<rparr>"

definition mark_uav :: "(UnorderedAccessViewInfo \<Rightarrow> UnorderedAccessViewInfo) \<Rightarrow> u32 \<Rightarrow> ShaderInfo \<Rightarrow> ShaderInfo" where
  "mark_uav f r info = info\<lparr>uavMap := (uavMap info)(r \<mapsto> f (uav_at info r))\<rparr>"

abbreviation srv_set_read :: "u32 \<Rightarrow> ShaderInfo \<Rightarrow> ShaderInfo" where
  "srv_set_read \<equiv> mark_srv (\<lambda>v. v\<lparr>srv_read := True\<rparr>)"
abbreviation srv_set_sampled :: "u32 \<Rightarrow> ShaderInfo \<Rightarrow> ShaderInfo" where
  "srv_set_sampled \<equiv> mark_srv (\<lambda>v. v\<lparr>srv_sampled := True\<rparr>)"
abbreviation srv_set_compared :: "u32 \<Rightarrow> ShaderInfo \<Rightarrow> ShaderInfo" where
  "srv_set_compared \<equiv> mark_srv (\<lambda>v. v\<lparr>srv_compared := True\<rparr>)"
abbreviation uav_set_read :: "u32 \<Rightarrow> ShaderInfo \<Rightarrow> ShaderInfo" where
  "uav_set_read \<equiv> mark_uav (\<lambda>v. v\<lparr>uav_read := True\<rparr>)"
abbreviation uav_set_written :: "u32 \<Rightarrow> ShaderInfo \<Rightarrow> ShaderInfo" where
  "uav_set_written \<equiv> mark_uav (\<lambda>v. v\<lparr>uav_written := True\<rparr>)"
abbreviation uav_set_counter :: "u32 \<Rightarrow> ShaderInfo \<Rightarrow> ShaderInfo" where
  "uav_set_counter \<equiv> mark_uav (\<lambda>v. v\<lparr>with_counter := True\<rparr>)"

section \<open>Reading operands\<close>

text \<open>\<open>D3D10_SB_OPERAND_TYPE\<close>; the types of immediate operands are with the parser.\<close>

abbreviation OPERAND_TYPE_TEMP :: u32 where "OPERAND_TYPE_TEMP \<equiv> 0"
abbreviation OPERAND_TYPE_INPUT :: u32 where "OPERAND_TYPE_INPUT \<equiv> 1"
abbreviation OPERAND_TYPE_OUTPUT :: u32 where "OPERAND_TYPE_OUTPUT \<equiv> 2"
abbreviation OPERAND_TYPE_INDEXABLE_TEMP :: u32 where "OPERAND_TYPE_INDEXABLE_TEMP \<equiv> 3"
abbreviation OPERAND_TYPE_RESOURCE :: u32 where "OPERAND_TYPE_RESOURCE \<equiv> 7"
abbreviation OPERAND_TYPE_CONSTANT_BUFFER :: u32 where "OPERAND_TYPE_CONSTANT_BUFFER \<equiv> 8"
abbreviation OPERAND_TYPE_IMMEDIATE_CONSTANT_BUFFER :: u32 where "OPERAND_TYPE_IMMEDIATE_CONSTANT_BUFFER \<equiv> 9"
abbreviation OPERAND_TYPE_INPUT_PRIMITIVEID :: u32 where "OPERAND_TYPE_INPUT_PRIMITIVEID \<equiv> 11"
abbreviation OPERAND_TYPE_OUTPUT_DEPTH :: u32 where "OPERAND_TYPE_OUTPUT_DEPTH \<equiv> 12"
abbreviation OPERAND_TYPE_NULL :: u32 where "OPERAND_TYPE_NULL \<equiv> 13"
abbreviation OPERAND_TYPE_RASTERIZER :: u32 where "OPERAND_TYPE_RASTERIZER \<equiv> 14"
abbreviation OPERAND_TYPE_OUTPUT_COVERAGE_MASK :: u32 where "OPERAND_TYPE_OUTPUT_COVERAGE_MASK \<equiv> 15"
abbreviation OPERAND_TYPE_OUTPUT_CONTROL_POINT_ID :: u32 where "OPERAND_TYPE_OUTPUT_CONTROL_POINT_ID \<equiv> 22"
abbreviation OPERAND_TYPE_INPUT_FORK_INSTANCE_ID :: u32 where "OPERAND_TYPE_INPUT_FORK_INSTANCE_ID \<equiv> 23"
abbreviation OPERAND_TYPE_INPUT_JOIN_INSTANCE_ID :: u32 where "OPERAND_TYPE_INPUT_JOIN_INSTANCE_ID \<equiv> 24"
abbreviation OPERAND_TYPE_INPUT_CONTROL_POINT :: u32 where "OPERAND_TYPE_INPUT_CONTROL_POINT \<equiv> 25"
abbreviation OPERAND_TYPE_OUTPUT_CONTROL_POINT :: u32 where "OPERAND_TYPE_OUTPUT_CONTROL_POINT \<equiv> 26"
abbreviation OPERAND_TYPE_INPUT_PATCH_CONSTANT :: u32 where "OPERAND_TYPE_INPUT_PATCH_CONSTANT \<equiv> 27"
abbreviation OPERAND_TYPE_INPUT_DOMAIN_POINT :: u32 where "OPERAND_TYPE_INPUT_DOMAIN_POINT \<equiv> 28"
abbreviation OPERAND_TYPE_UNORDERED_ACCESS_VIEW :: u32 where "OPERAND_TYPE_UNORDERED_ACCESS_VIEW \<equiv> 30"
abbreviation OPERAND_TYPE_THREAD_GROUP_SHARED_MEMORY :: u32 where "OPERAND_TYPE_THREAD_GROUP_SHARED_MEMORY \<equiv> 31"
abbreviation OPERAND_TYPE_INPUT_THREAD_ID :: u32 where "OPERAND_TYPE_INPUT_THREAD_ID \<equiv> 32"
abbreviation OPERAND_TYPE_INPUT_THREAD_GROUP_ID :: u32 where "OPERAND_TYPE_INPUT_THREAD_GROUP_ID \<equiv> 33"
abbreviation OPERAND_TYPE_INPUT_THREAD_ID_IN_GROUP :: u32 where "OPERAND_TYPE_INPUT_THREAD_ID_IN_GROUP \<equiv> 34"
abbreviation OPERAND_TYPE_INPUT_COVERAGE_MASK :: u32 where "OPERAND_TYPE_INPUT_COVERAGE_MASK \<equiv> 35"
abbreviation OPERAND_TYPE_INPUT_THREAD_ID_IN_GROUP_FLATTENED :: u32 where "OPERAND_TYPE_INPUT_THREAD_ID_IN_GROUP_FLATTENED \<equiv> 36"
abbreviation OPERAND_TYPE_INPUT_GS_INSTANCE_ID :: u32 where "OPERAND_TYPE_INPUT_GS_INSTANCE_ID \<equiv> 37"
abbreviation OPERAND_TYPE_OUTPUT_DEPTH_GREATER_EQUAL :: u32 where "OPERAND_TYPE_OUTPUT_DEPTH_GREATER_EQUAL \<equiv> 38"
abbreviation OPERAND_TYPE_OUTPUT_DEPTH_LESS_EQUAL :: u32 where "OPERAND_TYPE_OUTPUT_DEPTH_LESS_EQUAL \<equiv> 39"
abbreviation OPERAND_TYPE_OUTPUT_STENCIL_REF :: u32 where "OPERAND_TYPE_OUTPUT_STENCIL_REF \<equiv> 41"

definition assert_dxbc :: "bool \<Rightarrow> unit option" where
  "assert_dxbc b = (if b then Some () else None)"

definition readOperandRelativeIndex :: "operand_index \<Rightarrow> u32 \<Rightarrow> u32 \<Rightarrow> OperandIndex option" where
  "readOperandRelativeIndex OpIndex phase offset =
     (if m_RelRegType OpIndex = OPERAND_TYPE_TEMP then
        Some (IndexByTempComponent (m_RelIndex OpIndex) phase (ucast (i_ComponentName OpIndex)) offset)
      else if m_RelRegType OpIndex = OPERAND_TYPE_INDEXABLE_TEMP then
        Some (IndexByIndexableTempComponent (m_RelIndex OpIndex) (m_RelIndex1 OpIndex) phase
          (ucast (i_ComponentName OpIndex)) offset)
      else None)"

definition readOperandIndex :: "operand_index \<Rightarrow> u32 \<Rightarrow> u32 \<Rightarrow> OperandIndex option" where
  "readOperandIndex OpIndex indexType phase =
     (if indexType = 0 then
        (if m_RelRegType OpIndex = OPERAND_TYPE_IMMEDIATE32 then Some (RegisterIndex (m_RegIndex OpIndex)) else None)
      else if indexType = 2 then readOperandRelativeIndex OpIndex phase 0
      else if indexType = 3 then readOperandRelativeIndex OpIndex phase (m_RegIndex OpIndex)
      else None)"

text \<open>\<open>readOperandIndex(O.m_Index[i], O.m_IndexType[i], phase)\<close>.\<close>

definition index_at :: "nat \<Rightarrow> operand \<Rightarrow> u32 \<Rightarrow> OperandIndex option" where
  "index_at i O' phase = readOperandIndex (m_Index O' ! i) (m_IndexType O' ! i) phase"

definition reg_index :: "nat \<Rightarrow> operand \<Rightarrow> u32" where
  "reg_index i O' = m_RegIndex (m_Index O' ! i)"

definition readDstOperand :: "operand \<Rightarrow> u32 \<Rightarrow> OperandDataType \<Rightarrow> DstOperand option" where
  "readDstOperand O' phase ty =
     (let c = \<lparr>write_mask = drop_bit 4 (m_WriteMask O'), write_type = ty\<rparr>; c1 = \<lparr>write_mask = 1, write_type = ty\<rparr> in
      if m_Type O' = OPERAND_TYPE_TEMP then
        (if m_IndexDimension O' = 1 then Some (DstOperandTemp c (reg_index 0 O') phase) else None)
      else if m_Type O' = OPERAND_TYPE_INDEXABLE_TEMP then
        (if m_IndexDimension O' = 2 \<and> m_IndexType O' ! 0 = 0 then
           map_option (\<lambda>x. DstOperandIndexableTemp c (reg_index 0 O') x phase) (index_at 1 O' phase)
         else None)
      else if m_Type O' = OPERAND_TYPE_OUTPUT then
        (if m_IndexType O' ! 0 = 0 then Some (DstOperandOutput c (reg_index 0 O') phase)
         else map_option (\<lambda>x. DstOperandIndexableOutput c x phase) (index_at 0 O' phase))
      else if m_Type O' \<in> {OPERAND_TYPE_OUTPUT_DEPTH, OPERAND_TYPE_OUTPUT_DEPTH_GREATER_EQUAL,
          OPERAND_TYPE_OUTPUT_DEPTH_LESS_EQUAL} then Some (DstOperandOutputDepth c1)
      else if m_Type O' = OPERAND_TYPE_OUTPUT_COVERAGE_MASK then Some (DstOperandOutputCoverageMask c1)
      else if m_Type O' = OPERAND_TYPE_OUTPUT_STENCIL_REF then Some (DstOperandOutputStencilRef c1)
      else if m_Type O' = OPERAND_TYPE_NULL then Some (DstOperandNull \<lparr>write_mask = 0, write_type = ty\<rparr>)
      else None)"

text \<open>The bytes \<open>m_Swizzle\<close> share their memory with \<open>m_WriteMask\<close>.\<close>

definition readSrcOperandSwizzle :: "operand \<Rightarrow> Swizzle option" where
  "readSrcOperandSwizzle O' =
     (if m_ComponentSelection O' = 1 then
        Some \<lparr>swz_x = ucast (m_WriteMask O'), swz_y = ucast (drop_bit 8 (m_WriteMask O')),
          swz_z = ucast (drop_bit 16 (m_WriteMask O')), swz_w = ucast (drop_bit 24 (m_WriteMask O'))\<rparr>
      else if m_ComponentSelection O' = 2 then
        (let c = ucast (m_ComponentName O') in Some \<lparr>swz_x = c, swz_y = c, swz_z = c, swz_w = c\<rparr>)
      else None)"

definition with_swizzle :: "operand \<Rightarrow> Swizzle \<Rightarrow> OperandDataType \<Rightarrow> SrcOperandCommon" where
  "with_swizzle O' s ty = \<lparr>swizzle = s, absolute = (m_Modifier O' AND 2 \<noteq> 0), negate = (m_Modifier O' AND 1 \<noteq> 0), read_type = ty\<rparr>"

definition readSrcOperandCommon :: "operand \<Rightarrow> OperandDataType \<Rightarrow> SrcOperandCommon option" where
  "readSrcOperandCommon O' ty = map_option (\<lambda>s. with_swizzle O' s ty) (readSrcOperandSwizzle O')"

definition read_attribute :: "operand \<Rightarrow> OperandDataType \<Rightarrow> InputAttribute \<Rightarrow> SrcOperand option" where
  "read_attribute O' ty a = map_option (\<lambda>c. SrcOperandAttribute c a) (readSrcOperandCommon O' ty)"

text \<open>
  \<open>readSrcOperand\<close>, in two parts: the operands with registers and buffers, and the attributes of
  the pipeline.
\<close>

definition read_attribute_operand :: "operand \<Rightarrow> OperandDataType \<Rightarrow> SrcOperand option" where
  "read_attribute_operand O' ty =
     (if m_Type O' = OPERAND_TYPE_INPUT_THREAD_GROUP_ID then read_attribute O' ty ThreadGroupId
      else if m_Type O' = OPERAND_TYPE_INPUT_THREAD_ID then read_attribute O' ty ThreadId
      else if m_Type O' = OPERAND_TYPE_INPUT_THREAD_ID_IN_GROUP then read_attribute O' ty ThreadIdInGroup
      else if m_Type O' = OPERAND_TYPE_INPUT_THREAD_ID_IN_GROUP_FLATTENED then read_attribute O' ty ThreadIdInGroupFlatten
      else if m_Type O' = OPERAND_TYPE_INPUT_COVERAGE_MASK then read_attribute O' ty CoverageMask
      else if m_Type O' = OPERAND_TYPE_OUTPUT_CONTROL_POINT_ID then
        Some (SrcOperandAttribute (with_swizzle O' swizzle_identity ty) OutputControlPointId)
      else if m_Type O' = OPERAND_TYPE_INPUT_FORK_INSTANCE_ID then read_attribute O' ty ForkInstanceId
      else if m_Type O' = OPERAND_TYPE_INPUT_JOIN_INSTANCE_ID then read_attribute O' ty JoinInstanceId
      else if m_Type O' = OPERAND_TYPE_INPUT_DOMAIN_POINT then read_attribute O' ty Domain
      else if m_Type O' = OPERAND_TYPE_INPUT_PRIMITIVEID then
        Some (SrcOperandAttribute (with_swizzle O' swizzle_identity ty) PrimitiveId)
      else if m_Type O' = OPERAND_TYPE_INPUT_GS_INSTANCE_ID then read_attribute O' ty GSInstanceId
      else None)"

definition read_immediate32 :: "operand \<Rightarrow> OperandDataType \<Rightarrow> SrcOperand option" where
  "read_immediate32 O' ty =
     (let c = \<lparr>swizzle = swizzle_identity, absolute = False, negate = False, read_type = ty\<rparr> in
      if m_Modifier O' \<noteq> 0 then None
      else if m_NumComponents O' = OPERAND_4_COMPONENT then Some (SrcOperandImmediate32 c (take 4 (m_Value O')))
      else Some (SrcOperandImmediate32 c (replicate 4 (m_Value O' ! 0))))"

definition read_input :: "operand \<Rightarrow> u32 \<Rightarrow> OperandDataType \<Rightarrow> SrcOperand option" where
  "read_input O' phase ty =
     (if m_IndexDimension O' = 2 then
        do { assert_dxbc (m_IndexType O' ! 1 = 0 \<and> phase = - 1); c \<leftarrow> readSrcOperandCommon O' ty; x \<leftarrow> index_at 0 O' phase;
             Some (SrcOperandInputICP c x (reg_index 1 O')) }
      else do { assert_dxbc (m_IndexDimension O' = 1);
        if m_IndexType O' ! 0 = 0 then do { c \<leftarrow> readSrcOperandCommon O' ty; Some (SrcOperandInput c (reg_index 0 O')) }
        else do { c \<leftarrow> readSrcOperandCommon O' ty; x \<leftarrow> index_at 0 O' phase; Some (SrcOperandIndexableInput c x) } })"

definition read_constant_buffer :: "operand \<Rightarrow> u32 \<Rightarrow> OperandDataType \<Rightarrow> SrcOperand option" where
  "read_constant_buffer O' phase ty =
     (if m_IndexDimension O' = 2 then
        do { c \<leftarrow> readSrcOperandCommon O' ty; x \<leftarrow> index_at 0 O' phase; y \<leftarrow> index_at 1 O' phase;
             Some (SrcOperandConstantBuffer c (reg_index 0 O') x y) }
      else
        do { assert_dxbc (m_IndexDimension O' = 3); c \<leftarrow> readSrcOperandCommon O' ty; x \<leftarrow> index_at 1 O' phase;
             y \<leftarrow> index_at 2 O' phase; Some (SrcOperandConstantBuffer c (reg_index 0 O') x y) })"

definition readSrcOperand :: "operand \<Rightarrow> u32 \<Rightarrow> OperandDataType \<Rightarrow> SrcOperand option" where
  "readSrcOperand O' phase ty =
     (if m_Type O' = OPERAND_TYPE_IMMEDIATE32 then read_immediate32 O' ty
      else if m_Type O' = OPERAND_TYPE_TEMP then
        do { assert_dxbc (m_IndexDimension O' = 1); c \<leftarrow> readSrcOperandCommon O' ty;
             Some (SrcOperandTemp c (reg_index 0 O') phase) }
      else if m_Type O' = OPERAND_TYPE_INPUT then read_input O' phase ty
      else if m_Type O' = OPERAND_TYPE_INPUT_CONTROL_POINT then
        do { c \<leftarrow> readSrcOperandCommon O' ty; x \<leftarrow> index_at 0 O' phase; Some (SrcOperandInputICP c x (reg_index 1 O')) }
      else if m_Type O' = OPERAND_TYPE_OUTPUT_CONTROL_POINT then
        do { c \<leftarrow> readSrcOperandCommon O' ty; x \<leftarrow> index_at 0 O' phase; Some (SrcOperandInputOCP c x (reg_index 1 O')) }
      else if m_Type O' = OPERAND_TYPE_INPUT_PATCH_CONSTANT then
        do { c \<leftarrow> readSrcOperandCommon O' ty; x \<leftarrow> index_at 0 O' phase; Some (SrcOperandInputPC c x) }
      else if m_Type O' = OPERAND_TYPE_INDEXABLE_TEMP then
        do { assert_dxbc (m_IndexDimension O' = 2 \<and> m_IndexType O' ! 0 = 0); c \<leftarrow> readSrcOperandCommon O' ty;
             x \<leftarrow> index_at 1 O' phase; Some (SrcOperandIndexableTemp c (reg_index 0 O') x phase) }
      else if m_Type O' = OPERAND_TYPE_RASTERIZER then None
      else if m_Type O' = OPERAND_TYPE_CONSTANT_BUFFER then read_constant_buffer O' phase ty
      else if m_Type O' = OPERAND_TYPE_IMMEDIATE_CONSTANT_BUFFER then
        do { assert_dxbc (m_IndexDimension O' = 1); c \<leftarrow> readSrcOperandCommon O' ty; x \<leftarrow> index_at 0 O' phase;
             Some (SrcOperandImmediateConstantBuffer c x) }
      else read_attribute_operand O' ty)"

text \<open>Resources, samplers and views: one index selects a register, otherwise the second index selects inside the range.\<close>

definition readSrcOperandResource :: "operand \<Rightarrow> u32 \<Rightarrow> SrcOperandResource option" where
  "readSrcOperandResource O' phase =
     do { assert_dxbc (m_Type O' = OPERAND_TYPE_RESOURCE);
          assert_dxbc (m_IndexType O' ! 0 = 0);
          x \<leftarrow> index_at (if m_IndexDimension O' = 1 then 0 else 1) O' phase;
          s \<leftarrow> readSrcOperandSwizzle O';
          Some \<lparr>resource_range_id = reg_index 0 O', resource_index = x, resource_read_swizzle = s\<rparr> }"

definition readSrcOperandSampler :: "operand \<Rightarrow> u32 \<Rightarrow> SrcOperandSampler option" where
  "readSrcOperandSampler O' phase =
     do { assert_dxbc (m_IndexDimension O' = 1 \<longrightarrow> m_IndexType O' ! 0 = 0);
          x \<leftarrow> index_at (if m_IndexDimension O' = 1 then 0 else 1) O' phase;
          Some \<lparr>sampler_range_id = reg_index 0 O', sampler_index = x, gather_channel = ucast (m_ComponentName O')\<rparr> }"

definition readSrcOperandUAV :: "operand \<Rightarrow> u32 \<Rightarrow> SrcOperandUAV option" where
  "readSrcOperandUAV O' phase =
     do { assert_dxbc (m_IndexDimension O' = 1 \<longrightarrow> m_IndexType O' ! 0 = 0);
          x \<leftarrow> index_at (if m_IndexDimension O' = 1 then 0 else 1) O' phase;
          s \<leftarrow> readSrcOperandSwizzle O';
          Some \<lparr>uav_range_id = reg_index 0 O', uav_index = x, uav_read_swizzle = s\<rparr> }"

definition readSrcOperandTGSM :: "operand \<Rightarrow> SrcOperandTGSM option" where
  "readSrcOperandTGSM O' =
     do { assert_dxbc (m_Type O' = OPERAND_TYPE_THREAD_GROUP_SHARED_MEMORY); s \<leftarrow> readSrcOperandSwizzle O';
          Some \<lparr>tgsm_id = reg_index 0 O', tgsm_read_swizzle = s\<rparr> }"

definition readDstOperandUAV :: "operand \<Rightarrow> u32 \<Rightarrow> AtomicDstOperandUAV option" where
  "readDstOperandUAV O' phase =
     do { assert_dxbc (m_IndexDimension O' = 1 \<longrightarrow> m_IndexType O' ! 0 = 0);
          x \<leftarrow> index_at (if m_IndexDimension O' = 1 then 0 else 1) O' phase;
          Some \<lparr>atomic_range_id = reg_index 0 O', atomic_index = x, atomic_mask = drop_bit 4 (m_WriteMask O')\<rparr> }"

definition readAtomicDst :: "operand \<Rightarrow> u32 \<Rightarrow> (AtomicDstOperandUAV + AtomicOperandTGSM) option" where
  "readAtomicDst O' phase =
     (if m_Type O' = OPERAND_TYPE_UNORDERED_ACCESS_VIEW then map_option Inl (readDstOperandUAV O' phase)
      else if m_Type O' = OPERAND_TYPE_THREAD_GROUP_SHARED_MEMORY then
        Some (Inr \<lparr>atomic_tgsm_id = reg_index 0 O', atomic_tgsm_mask = drop_bit 4 (m_WriteMask O')\<rparr>)
      else None)"

definition readTypelessSrc :: "operand \<Rightarrow> u32 \<Rightarrow> typeless_src option" where
  "readTypelessSrc O' phase =
     (if m_Type O' = OPERAND_TYPE_UNORDERED_ACCESS_VIEW then map_option TypelessUAV (readSrcOperandUAV O' phase)
      else if m_Type O' = OPERAND_TYPE_RESOURCE then map_option TypelessResource (readSrcOperandResource O' phase)
      else if m_Type O' = OPERAND_TYPE_THREAD_GROUP_SHARED_MEMORY then map_option TypelessTGSM (readSrcOperandTGSM O')
      else None)"

definition readSrcResourceOrUAV :: "operand \<Rightarrow> u32 \<Rightarrow> (SrcOperandResource + SrcOperandUAV) option" where
  "readSrcResourceOrUAV O' phase =
     (if m_Type O' = OPERAND_TYPE_UNORDERED_ACCESS_VIEW then map_option Inr (readSrcOperandUAV O' phase)
      else if m_Type O' = OPERAND_TYPE_RESOURCE then map_option Inl (readSrcOperandResource O' phase)
      else None)"

text \<open>The condition of a branch; an instruction without a test has none.\<close>

record BasicBlockCondition =
  cond_operand :: SrcOperand
  test_nonzero :: bool

definition m_Test :: "instruction \<Rightarrow> u32 option" where
  "m_Test Inst = (case m_Extra Inst of Test t \<Rightarrow> Some t | _ \<Rightarrow> None)"

definition readCondition :: "instruction \<Rightarrow> nat \<Rightarrow> u32 \<Rightarrow> BasicBlockCondition option" where
  "readCondition Inst OpIdx phase =
     do { t \<leftarrow> m_Test Inst; s \<leftarrow> readSrcOperand (m_Operands Inst ! OpIdx) phase Integer;
          Some \<lparr>cond_operand = s, test_nonzero = (t = 1)\<rparr> }"

section \<open>Reading instructions\<close>

text \<open>The opcodes that \<open>readInstruction\<close> handles, beyond those of the parser.\<close>

abbreviation D3D10_SB_OPCODE_MOV :: u32 where "D3D10_SB_OPCODE_MOV \<equiv> 54"
abbreviation D3D10_SB_OPCODE_MOVC :: u32 where "D3D10_SB_OPCODE_MOVC \<equiv> 55"
abbreviation D3D11_SB_OPCODE_SWAPC :: u32 where "D3D11_SB_OPCODE_SWAPC \<equiv> 142"
abbreviation D3DWDDM1_3_SB_OPCODE_SAMPLE_CLAMP_FEEDBACK :: u32 where "D3DWDDM1_3_SB_OPCODE_SAMPLE_CLAMP_FEEDBACK \<equiv> 230"
abbreviation D3D10_SB_OPCODE_SAMPLE :: u32 where "D3D10_SB_OPCODE_SAMPLE \<equiv> 69"
abbreviation D3DWDDM1_3_SB_OPCODE_SAMPLE_B_CLAMP_FEEDBACK :: u32 where "D3DWDDM1_3_SB_OPCODE_SAMPLE_B_CLAMP_FEEDBACK \<equiv> 231"
abbreviation D3D10_SB_OPCODE_SAMPLE_B :: u32 where "D3D10_SB_OPCODE_SAMPLE_B \<equiv> 74"
abbreviation D3DWDDM1_3_SB_OPCODE_SAMPLE_D_CLAMP_FEEDBACK :: u32 where "D3DWDDM1_3_SB_OPCODE_SAMPLE_D_CLAMP_FEEDBACK \<equiv> 232"
abbreviation D3D10_SB_OPCODE_SAMPLE_D :: u32 where "D3D10_SB_OPCODE_SAMPLE_D \<equiv> 73"
abbreviation D3D10_SB_OPCODE_SAMPLE_L :: u32 where "D3D10_SB_OPCODE_SAMPLE_L \<equiv> 72"
abbreviation D3DWDDM1_3_SB_OPCODE_SAMPLE_L_FEEDBACK :: u32 where "D3DWDDM1_3_SB_OPCODE_SAMPLE_L_FEEDBACK \<equiv> 228"
abbreviation D3D10_SB_OPCODE_SAMPLE_C_LZ :: u32 where "D3D10_SB_OPCODE_SAMPLE_C_LZ \<equiv> 71"
abbreviation D3D10_SB_OPCODE_SAMPLE_C :: u32 where "D3D10_SB_OPCODE_SAMPLE_C \<equiv> 70"
abbreviation D3DWDDM1_3_SB_OPCODE_SAMPLE_C_CLAMP_FEEDBACK :: u32 where "D3DWDDM1_3_SB_OPCODE_SAMPLE_C_CLAMP_FEEDBACK \<equiv> 233"
abbreviation D3DWDDM1_3_SB_OPCODE_SAMPLE_C_LZ_FEEDBACK :: u32 where "D3DWDDM1_3_SB_OPCODE_SAMPLE_C_LZ_FEEDBACK \<equiv> 229"
abbreviation D3D10_1_SB_OPCODE_GATHER4 :: u32 where "D3D10_1_SB_OPCODE_GATHER4 \<equiv> 109"
abbreviation D3DWDDM1_3_SB_OPCODE_GATHER4_FEEDBACK :: u32 where "D3DWDDM1_3_SB_OPCODE_GATHER4_FEEDBACK \<equiv> 219"
abbreviation D3D11_SB_OPCODE_GATHER4_C :: u32 where "D3D11_SB_OPCODE_GATHER4_C \<equiv> 126"
abbreviation D3DWDDM1_3_SB_OPCODE_GATHER4_C_FEEDBACK :: u32 where "D3DWDDM1_3_SB_OPCODE_GATHER4_C_FEEDBACK \<equiv> 220"
abbreviation D3D11_SB_OPCODE_GATHER4_PO :: u32 where "D3D11_SB_OPCODE_GATHER4_PO \<equiv> 127"
abbreviation D3DWDDM1_3_SB_OPCODE_GATHER4_PO_FEEDBACK :: u32 where "D3DWDDM1_3_SB_OPCODE_GATHER4_PO_FEEDBACK \<equiv> 221"
abbreviation D3D11_SB_OPCODE_GATHER4_PO_C :: u32 where "D3D11_SB_OPCODE_GATHER4_PO_C \<equiv> 128"
abbreviation D3DWDDM1_3_SB_OPCODE_GATHER4_PO_C_FEEDBACK :: u32 where "D3DWDDM1_3_SB_OPCODE_GATHER4_PO_C_FEEDBACK \<equiv> 222"
abbreviation D3D10_1_SB_OPCODE_SAMPLE_POS :: u32 where "D3D10_1_SB_OPCODE_SAMPLE_POS \<equiv> 110"
abbreviation D3D11_SB_OPCODE_BUFINFO :: u32 where "D3D11_SB_OPCODE_BUFINFO \<equiv> 121"
abbreviation D3D10_SB_OPCODE_LD :: u32 where "D3D10_SB_OPCODE_LD \<equiv> 45"
abbreviation D3D10_SB_OPCODE_LD_MS :: u32 where "D3D10_SB_OPCODE_LD_MS \<equiv> 46"
abbreviation D3D11_SB_OPCODE_LD_UAV_TYPED :: u32 where "D3D11_SB_OPCODE_LD_UAV_TYPED \<equiv> 163"
abbreviation D3D11_SB_OPCODE_STORE_UAV_TYPED :: u32 where "D3D11_SB_OPCODE_STORE_UAV_TYPED \<equiv> 164"
abbreviation D3D11_SB_OPCODE_LD_RAW :: u32 where "D3D11_SB_OPCODE_LD_RAW \<equiv> 165"
abbreviation D3D11_SB_OPCODE_STORE_RAW :: u32 where "D3D11_SB_OPCODE_STORE_RAW \<equiv> 166"
abbreviation D3D11_SB_OPCODE_LD_STRUCTURED :: u32 where "D3D11_SB_OPCODE_LD_STRUCTURED \<equiv> 167"
abbreviation D3D11_SB_OPCODE_STORE_STRUCTURED :: u32 where "D3D11_SB_OPCODE_STORE_STRUCTURED \<equiv> 168"
abbreviation D3D10_SB_OPCODE_DP2 :: u32 where "D3D10_SB_OPCODE_DP2 \<equiv> 15"
abbreviation D3D10_SB_OPCODE_DP3 :: u32 where "D3D10_SB_OPCODE_DP3 \<equiv> 16"
abbreviation D3D10_SB_OPCODE_DP4 :: u32 where "D3D10_SB_OPCODE_DP4 \<equiv> 17"
abbreviation D3D10_SB_OPCODE_RSQ :: u32 where "D3D10_SB_OPCODE_RSQ \<equiv> 68"
abbreviation D3D11_SB_OPCODE_RCP :: u32 where "D3D11_SB_OPCODE_RCP \<equiv> 129"
abbreviation D3D10_SB_OPCODE_LOG :: u32 where "D3D10_SB_OPCODE_LOG \<equiv> 47"
abbreviation D3D10_SB_OPCODE_EXP :: u32 where "D3D10_SB_OPCODE_EXP \<equiv> 25"
abbreviation D3D10_SB_OPCODE_SQRT :: u32 where "D3D10_SB_OPCODE_SQRT \<equiv> 75"
abbreviation D3D10_SB_OPCODE_ROUND_Z :: u32 where "D3D10_SB_OPCODE_ROUND_Z \<equiv> 67"
abbreviation D3D10_SB_OPCODE_ROUND_PI :: u32 where "D3D10_SB_OPCODE_ROUND_PI \<equiv> 66"
abbreviation D3D10_SB_OPCODE_ROUND_NI :: u32 where "D3D10_SB_OPCODE_ROUND_NI \<equiv> 65"
abbreviation D3D10_SB_OPCODE_ROUND_NE :: u32 where "D3D10_SB_OPCODE_ROUND_NE \<equiv> 64"
abbreviation D3D10_SB_OPCODE_FRC :: u32 where "D3D10_SB_OPCODE_FRC \<equiv> 26"
abbreviation D3D10_SB_OPCODE_ADD :: u32 where "D3D10_SB_OPCODE_ADD \<equiv> 0"
abbreviation D3D10_SB_OPCODE_MUL :: u32 where "D3D10_SB_OPCODE_MUL \<equiv> 56"
abbreviation D3D10_SB_OPCODE_DIV :: u32 where "D3D10_SB_OPCODE_DIV \<equiv> 14"
abbreviation D3D10_SB_OPCODE_MAX :: u32 where "D3D10_SB_OPCODE_MAX \<equiv> 52"
abbreviation D3D10_SB_OPCODE_MIN :: u32 where "D3D10_SB_OPCODE_MIN \<equiv> 51"
abbreviation D3D10_SB_OPCODE_MAD :: u32 where "D3D10_SB_OPCODE_MAD \<equiv> 50"
abbreviation D3D10_SB_OPCODE_IMAD :: u32 where "D3D10_SB_OPCODE_IMAD \<equiv> 35"
abbreviation D3D10_SB_OPCODE_UMAD :: u32 where "D3D10_SB_OPCODE_UMAD \<equiv> 82"
abbreviation D3D11_1_SB_OPCODE_MSAD :: u32 where "D3D11_1_SB_OPCODE_MSAD \<equiv> 213"
abbreviation D3D10_SB_OPCODE_SINCOS :: u32 where "D3D10_SB_OPCODE_SINCOS \<equiv> 77"
abbreviation D3D10_SB_OPCODE_EQ :: u32 where "D3D10_SB_OPCODE_EQ \<equiv> 24"
abbreviation D3D10_SB_OPCODE_GE :: u32 where "D3D10_SB_OPCODE_GE \<equiv> 29"
abbreviation D3D10_SB_OPCODE_LT :: u32 where "D3D10_SB_OPCODE_LT \<equiv> 49"
abbreviation D3D10_SB_OPCODE_NE :: u32 where "D3D10_SB_OPCODE_NE \<equiv> 57"
abbreviation D3D10_SB_OPCODE_IEQ :: u32 where "D3D10_SB_OPCODE_IEQ \<equiv> 32"
abbreviation D3D10_SB_OPCODE_INE :: u32 where "D3D10_SB_OPCODE_INE \<equiv> 39"
abbreviation D3D10_SB_OPCODE_IGE :: u32 where "D3D10_SB_OPCODE_IGE \<equiv> 33"
abbreviation D3D10_SB_OPCODE_ILT :: u32 where "D3D10_SB_OPCODE_ILT \<equiv> 34"
abbreviation D3D10_SB_OPCODE_UGE :: u32 where "D3D10_SB_OPCODE_UGE \<equiv> 80"
abbreviation D3D10_SB_OPCODE_ULT :: u32 where "D3D10_SB_OPCODE_ULT \<equiv> 79"
abbreviation D3D10_SB_OPCODE_NOT :: u32 where "D3D10_SB_OPCODE_NOT \<equiv> 59"
abbreviation D3D10_SB_OPCODE_INEG :: u32 where "D3D10_SB_OPCODE_INEG \<equiv> 40"
abbreviation D3D11_SB_OPCODE_BFREV :: u32 where "D3D11_SB_OPCODE_BFREV \<equiv> 141"
abbreviation D3D11_SB_OPCODE_COUNTBITS :: u32 where "D3D11_SB_OPCODE_COUNTBITS \<equiv> 134"
abbreviation D3D11_SB_OPCODE_FIRSTBIT_HI :: u32 where "D3D11_SB_OPCODE_FIRSTBIT_HI \<equiv> 135"
abbreviation D3D11_SB_OPCODE_FIRSTBIT_SHI :: u32 where "D3D11_SB_OPCODE_FIRSTBIT_SHI \<equiv> 137"
abbreviation D3D11_SB_OPCODE_FIRSTBIT_LO :: u32 where "D3D11_SB_OPCODE_FIRSTBIT_LO \<equiv> 136"
abbreviation D3D11_SB_OPCODE_BFI :: u32 where "D3D11_SB_OPCODE_BFI \<equiv> 140"
abbreviation D3D11_SB_OPCODE_UBFE :: u32 where "D3D11_SB_OPCODE_UBFE \<equiv> 138"
abbreviation D3D11_SB_OPCODE_IBFE :: u32 where "D3D11_SB_OPCODE_IBFE \<equiv> 139"
abbreviation D3D10_SB_OPCODE_ISHL :: u32 where "D3D10_SB_OPCODE_ISHL \<equiv> 41"
abbreviation D3D10_SB_OPCODE_ISHR :: u32 where "D3D10_SB_OPCODE_ISHR \<equiv> 42"
abbreviation D3D10_SB_OPCODE_USHR :: u32 where "D3D10_SB_OPCODE_USHR \<equiv> 85"
abbreviation D3D10_SB_OPCODE_XOR :: u32 where "D3D10_SB_OPCODE_XOR \<equiv> 87"
abbreviation D3D10_SB_OPCODE_OR :: u32 where "D3D10_SB_OPCODE_OR \<equiv> 60"
abbreviation D3D10_SB_OPCODE_AND :: u32 where "D3D10_SB_OPCODE_AND \<equiv> 1"
abbreviation D3D10_SB_OPCODE_UMIN :: u32 where "D3D10_SB_OPCODE_UMIN \<equiv> 84"
abbreviation D3D10_SB_OPCODE_UMAX :: u32 where "D3D10_SB_OPCODE_UMAX \<equiv> 83"
abbreviation D3D10_SB_OPCODE_IMIN :: u32 where "D3D10_SB_OPCODE_IMIN \<equiv> 37"
abbreviation D3D10_SB_OPCODE_IMAX :: u32 where "D3D10_SB_OPCODE_IMAX \<equiv> 36"
abbreviation D3D10_SB_OPCODE_IADD :: u32 where "D3D10_SB_OPCODE_IADD \<equiv> 30"
abbreviation D3D10_SB_OPCODE_IMUL :: u32 where "D3D10_SB_OPCODE_IMUL \<equiv> 38"
abbreviation D3D10_SB_OPCODE_UMUL :: u32 where "D3D10_SB_OPCODE_UMUL \<equiv> 81"
abbreviation D3D10_SB_OPCODE_UDIV :: u32 where "D3D10_SB_OPCODE_UDIV \<equiv> 78"
abbreviation D3D11_SB_OPCODE_UADDC :: u32 where "D3D11_SB_OPCODE_UADDC \<equiv> 132"
abbreviation D3D11_SB_OPCODE_USUBB :: u32 where "D3D11_SB_OPCODE_USUBB \<equiv> 133"
abbreviation D3D11_SB_OPCODE_F16TOF32 :: u32 where "D3D11_SB_OPCODE_F16TOF32 \<equiv> 131"
abbreviation D3D11_SB_OPCODE_F32TOF16 :: u32 where "D3D11_SB_OPCODE_F32TOF16 \<equiv> 130"
abbreviation D3D10_SB_OPCODE_FTOI :: u32 where "D3D10_SB_OPCODE_FTOI \<equiv> 27"
abbreviation D3D10_SB_OPCODE_FTOU :: u32 where "D3D10_SB_OPCODE_FTOU \<equiv> 28"
abbreviation D3D10_SB_OPCODE_ITOF :: u32 where "D3D10_SB_OPCODE_ITOF \<equiv> 43"
abbreviation D3D10_SB_OPCODE_UTOF :: u32 where "D3D10_SB_OPCODE_UTOF \<equiv> 86"
abbreviation D3D10_SB_OPCODE_DERIV_RTX :: u32 where "D3D10_SB_OPCODE_DERIV_RTX \<equiv> 11"
abbreviation D3D11_SB_OPCODE_DERIV_RTX_FINE :: u32 where "D3D11_SB_OPCODE_DERIV_RTX_FINE \<equiv> 123"
abbreviation D3D10_SB_OPCODE_DERIV_RTY :: u32 where "D3D10_SB_OPCODE_DERIV_RTY \<equiv> 12"
abbreviation D3D11_SB_OPCODE_DERIV_RTY_FINE :: u32 where "D3D11_SB_OPCODE_DERIV_RTY_FINE \<equiv> 125"
abbreviation D3D11_SB_OPCODE_DERIV_RTX_COARSE :: u32 where "D3D11_SB_OPCODE_DERIV_RTX_COARSE \<equiv> 122"
abbreviation D3D11_SB_OPCODE_DERIV_RTY_COARSE :: u32 where "D3D11_SB_OPCODE_DERIV_RTY_COARSE \<equiv> 124"
abbreviation D3D10_1_SB_OPCODE_LOD :: u32 where "D3D10_1_SB_OPCODE_LOD \<equiv> 108"
abbreviation D3D10_SB_OPCODE_NOP :: u32 where "D3D10_SB_OPCODE_NOP \<equiv> 58"
abbreviation D3D11_SB_OPCODE_ATOMIC_AND :: u32 where "D3D11_SB_OPCODE_ATOMIC_AND \<equiv> 169"
abbreviation D3D11_SB_OPCODE_ATOMIC_OR :: u32 where "D3D11_SB_OPCODE_ATOMIC_OR \<equiv> 170"
abbreviation D3D11_SB_OPCODE_ATOMIC_XOR :: u32 where "D3D11_SB_OPCODE_ATOMIC_XOR \<equiv> 171"
abbreviation D3D11_SB_OPCODE_ATOMIC_IADD :: u32 where "D3D11_SB_OPCODE_ATOMIC_IADD \<equiv> 173"
abbreviation D3D11_SB_OPCODE_ATOMIC_IMAX :: u32 where "D3D11_SB_OPCODE_ATOMIC_IMAX \<equiv> 174"
abbreviation D3D11_SB_OPCODE_ATOMIC_IMIN :: u32 where "D3D11_SB_OPCODE_ATOMIC_IMIN \<equiv> 175"
abbreviation D3D11_SB_OPCODE_ATOMIC_UMAX :: u32 where "D3D11_SB_OPCODE_ATOMIC_UMAX \<equiv> 176"
abbreviation D3D11_SB_OPCODE_ATOMIC_UMIN :: u32 where "D3D11_SB_OPCODE_ATOMIC_UMIN \<equiv> 177"
abbreviation D3D11_SB_OPCODE_ATOMIC_CMP_STORE :: u32 where "D3D11_SB_OPCODE_ATOMIC_CMP_STORE \<equiv> 172"
abbreviation D3D11_SB_OPCODE_IMM_ATOMIC_ALLOC :: u32 where "D3D11_SB_OPCODE_IMM_ATOMIC_ALLOC \<equiv> 178"
abbreviation D3D11_SB_OPCODE_IMM_ATOMIC_CONSUME :: u32 where "D3D11_SB_OPCODE_IMM_ATOMIC_CONSUME \<equiv> 179"
abbreviation D3D11_SB_OPCODE_IMM_ATOMIC_EXCH :: u32 where "D3D11_SB_OPCODE_IMM_ATOMIC_EXCH \<equiv> 184"
abbreviation D3D11_SB_OPCODE_IMM_ATOMIC_CMP_EXCH :: u32 where "D3D11_SB_OPCODE_IMM_ATOMIC_CMP_EXCH \<equiv> 185"
abbreviation D3D11_SB_OPCODE_IMM_ATOMIC_AND :: u32 where "D3D11_SB_OPCODE_IMM_ATOMIC_AND \<equiv> 181"
abbreviation D3D11_SB_OPCODE_IMM_ATOMIC_OR :: u32 where "D3D11_SB_OPCODE_IMM_ATOMIC_OR \<equiv> 182"
abbreviation D3D11_SB_OPCODE_IMM_ATOMIC_XOR :: u32 where "D3D11_SB_OPCODE_IMM_ATOMIC_XOR \<equiv> 183"
abbreviation D3D11_SB_OPCODE_IMM_ATOMIC_IADD :: u32 where "D3D11_SB_OPCODE_IMM_ATOMIC_IADD \<equiv> 180"
abbreviation D3D11_SB_OPCODE_IMM_ATOMIC_UMAX :: u32 where "D3D11_SB_OPCODE_IMM_ATOMIC_UMAX \<equiv> 188"
abbreviation D3D11_SB_OPCODE_IMM_ATOMIC_UMIN :: u32 where "D3D11_SB_OPCODE_IMM_ATOMIC_UMIN \<equiv> 189"
abbreviation D3D11_SB_OPCODE_IMM_ATOMIC_IMAX :: u32 where "D3D11_SB_OPCODE_IMM_ATOMIC_IMAX \<equiv> 186"
abbreviation D3D11_SB_OPCODE_IMM_ATOMIC_IMIN :: u32 where "D3D11_SB_OPCODE_IMM_ATOMIC_IMIN \<equiv> 187"
abbreviation D3D11_SB_OPCODE_EVAL_CENTROID :: u32 where "D3D11_SB_OPCODE_EVAL_CENTROID \<equiv> 205"
abbreviation D3D11_SB_OPCODE_EVAL_SAMPLE_INDEX :: u32 where "D3D11_SB_OPCODE_EVAL_SAMPLE_INDEX \<equiv> 204"
abbreviation D3D11_SB_OPCODE_EVAL_SNAPPED :: u32 where "D3D11_SB_OPCODE_EVAL_SNAPPED \<equiv> 203"

definition readInstructionCommon :: "instruction \<Rightarrow> ShaderInfo \<Rightarrow> InstructionCommon" where
  "readInstructionCommon Inst info =
     \<lparr>saturate = (m_bSaturate Inst \<noteq> 0),
      precise_mask = (if refactoringAllowed info then ucast (m_PreciseMask Inst) else 0xf)\<rparr>"

text \<open>
  A case of \<open>readInstruction\<close> maps the instruction, the phase and the shader information to the
  compiler's instruction and the new information.  \<open>read_dst\<close> and \<open>read_src\<close> read an operand.
\<close>

type_synonym inst_reader = "instruction \<Rightarrow> u32 \<Rightarrow> ShaderInfo \<Rightarrow> (Instruction \<times> ShaderInfo) option"

definition read_dst :: "instruction \<Rightarrow> u32 \<Rightarrow> nat \<Rightarrow> OperandDataType \<Rightarrow> DstOperand option" where
  "read_dst Inst phase k ty = readDstOperand (m_Operands Inst ! k) phase ty"

definition read_src :: "instruction \<Rightarrow> u32 \<Rightarrow> nat \<Rightarrow> OperandDataType \<Rightarrow> SrcOperand option" where
  "read_src Inst phase k ty = readSrcOperand (m_Operands Inst ! k) phase ty"

definition read_mov :: inst_reader where
  "read_mov Inst phase info =
     do { d \<leftarrow> read_dst Inst phase 0 Float; s \<leftarrow> read_src Inst phase 1 Float;
          Some (Move (InstMov (readInstructionCommon Inst info) d s), info) }"

definition read_movc :: inst_reader where
  "read_movc Inst phase info =
     do { d \<leftarrow> read_dst Inst phase 0 Float; c \<leftarrow> read_src Inst phase 1 Integer; s0 \<leftarrow> read_src Inst phase 2 Float; s1 \<leftarrow> read_src Inst phase 3 Float;
          Some (Move (InstMovConditional (readInstructionCommon Inst info) d c s0 s1), info) }"

definition read_swapc :: inst_reader where
  "read_swapc Inst phase info =
     do { d0 \<leftarrow> read_dst Inst phase 0 Float; d1 \<leftarrow> read_dst Inst phase 1 Float; c \<leftarrow> read_src Inst phase 2 Integer;
          s0 \<leftarrow> read_src Inst phase 3 Float; s1 \<leftarrow> read_src Inst phase 4 Float;
          Some (Move (InstSwapConditional d0 d1 c s0 s1), info) }"

subsection \<open>Floating point\<close>

definition dot_product :: "u8 \<Rightarrow> inst_reader" where
  "dot_product n Inst phase info =
     do { d \<leftarrow> read_dst Inst phase 0 Float; s0 \<leftarrow> read_src Inst phase 1 Float; s1 \<leftarrow> read_src Inst phase 2 Float;
          Some (FloatOp (InstDotProduct (readInstructionCommon Inst info) d s0 s1 n), info) }"

definition float_unary :: "FloatUnaryOp \<Rightarrow> inst_reader" where
  "float_unary op Inst phase info =
     do { d \<leftarrow> read_dst Inst phase 0 Float; s \<leftarrow> read_src Inst phase 1 Float;
          Some (FloatOp (InstFloatUnaryOp (readInstructionCommon Inst info) op d s), info) }"

definition float_binary :: "FloatBinaryOp \<Rightarrow> inst_reader" where
  "float_binary op Inst phase info =
     do { d \<leftarrow> read_dst Inst phase 0 Float; s0 \<leftarrow> read_src Inst phase 1 Float; s1 \<leftarrow> read_src Inst phase 2 Float;
          Some (FloatOp (InstFloatBinaryOp (readInstructionCommon Inst info) op d s0 s1), info) }"

definition float_mad :: inst_reader where
  "float_mad Inst phase info =
     do { d \<leftarrow> read_dst Inst phase 0 Float; s0 \<leftarrow> read_src Inst phase 1 Float; s1 \<leftarrow> read_src Inst phase 2 Float; s2 \<leftarrow> read_src Inst phase 3 Float;
          Some (FloatOp (InstFloatMAD (readInstructionCommon Inst info) d s0 s1 s2), info) }"

definition sin_cos :: inst_reader where
  "sin_cos Inst phase info =
     do { d0 \<leftarrow> read_dst Inst phase 0 Float; d1 \<leftarrow> read_dst Inst phase 1 Float; s \<leftarrow> read_src Inst phase 2 Float;
          Some (FloatOp (InstSinCos (readInstructionCommon Inst info) d0 d1 s), info) }"

definition float_compare :: "FloatComparison \<Rightarrow> inst_reader" where
  "float_compare cmp Inst phase info =
     do { d \<leftarrow> read_dst Inst phase 0 Integer; s0 \<leftarrow> read_src Inst phase 1 Float; s1 \<leftarrow> read_src Inst phase 2 Float;
          Some (FloatOp (InstFloatCompare (readInstructionCommon Inst info) cmp d s0 s1), info) }"

definition partial_derivative :: "bool \<Rightarrow> bool \<Rightarrow> inst_reader" where
  "partial_derivative ddy coarse Inst phase info =
     do { d \<leftarrow> read_dst Inst phase 0 Float; s \<leftarrow> read_src Inst phase 1 Float;
          Some (FloatOp (InstPartialDerivative (readInstructionCommon Inst info) d s ddy coarse), info) }"

definition float_cases :: "(u32 \<times> inst_reader) list" where
  "float_cases =
     [(D3D10_SB_OPCODE_DP2, dot_product 2),
      (D3D10_SB_OPCODE_DP3, dot_product 3),
      (D3D10_SB_OPCODE_DP4, dot_product 4),
      (D3D10_SB_OPCODE_RSQ, float_unary Rsq),
      (D3D11_SB_OPCODE_RCP, float_unary Rcp),
      (D3D10_SB_OPCODE_LOG, float_unary Log2),
      (D3D10_SB_OPCODE_EXP, float_unary Exp2),
      (D3D10_SB_OPCODE_SQRT, float_unary Sqrt),
      (D3D10_SB_OPCODE_ROUND_Z, float_unary RoundZero),
      (D3D10_SB_OPCODE_ROUND_PI, float_unary RoundPositiveInf),
      (D3D10_SB_OPCODE_ROUND_NI, float_unary RoundNegativeInf),
      (D3D10_SB_OPCODE_ROUND_NE, float_unary RoundNearestEven),
      (D3D10_SB_OPCODE_FRC, float_unary Fraction),
      (D3D10_SB_OPCODE_ADD, float_binary FAdd),
      (D3D10_SB_OPCODE_MUL, float_binary FMul),
      (D3D10_SB_OPCODE_DIV, float_binary FDiv),
      (D3D10_SB_OPCODE_MAX, float_binary FMax),
      (D3D10_SB_OPCODE_MIN, float_binary FMin),
      (D3D10_SB_OPCODE_MAD, float_mad),
      (D3D10_SB_OPCODE_SINCOS, sin_cos),
      (D3D10_SB_OPCODE_EQ, float_compare Equal),
      (D3D10_SB_OPCODE_GE, float_compare GreaterEqual),
      (D3D10_SB_OPCODE_LT, float_compare LessThan),
      (D3D10_SB_OPCODE_NE, float_compare NotEqual)]"

definition derivative_cases :: "(u32 \<times> inst_reader) list" where
  "derivative_cases =
     [(D3D10_SB_OPCODE_DERIV_RTX, partial_derivative False False),
      (D3D11_SB_OPCODE_DERIV_RTX_FINE, partial_derivative False False),
      (D3D10_SB_OPCODE_DERIV_RTY, partial_derivative True False),
      (D3D11_SB_OPCODE_DERIV_RTY_FINE, partial_derivative True False),
      (D3D11_SB_OPCODE_DERIV_RTX_COARSE, partial_derivative False True),
      (D3D11_SB_OPCODE_DERIV_RTY_COARSE, partial_derivative True True)]"

subsection \<open>Integers and conversions\<close>

definition integer_compare :: "IntegerComparison \<Rightarrow> inst_reader" where
  "integer_compare cmp Inst phase info =
     do { d \<leftarrow> read_dst Inst phase 0 Integer; s0 \<leftarrow> read_src Inst phase 1 Integer; s1 \<leftarrow> read_src Inst phase 2 Integer;
          Some (IntegerOp (InstIntegerCompare cmp d s0 s1), info) }"

definition integer_unary :: "IntegerUnaryOp \<Rightarrow> inst_reader" where
  "integer_unary op Inst phase info =
     do { d \<leftarrow> read_dst Inst phase 0 Integer; s \<leftarrow> read_src Inst phase 1 Integer;
          Some (IntegerOp (InstIntegerUnaryOp op d s), info) }"

definition integer_binary :: "IntegerBinaryOp \<Rightarrow> inst_reader" where
  "integer_binary op Inst phase info =
     do { d \<leftarrow> read_dst Inst phase 0 Integer; s0 \<leftarrow> read_src Inst phase 1 Integer; s1 \<leftarrow> read_src Inst phase 2 Integer;
          Some (IntegerOp (InstIntegerBinaryOp op d s0 s1), info) }"

definition integer_two_dst :: "IntegerBinaryOpWithTwoDst \<Rightarrow> inst_reader" where
  "integer_two_dst op Inst phase info =
     do { d0 \<leftarrow> read_dst Inst phase 0 Integer; d1 \<leftarrow> read_dst Inst phase 1 Integer; s0 \<leftarrow> read_src Inst phase 2 Integer;
          s1 \<leftarrow> read_src Inst phase 3 Integer;
          Some (IntegerOp (InstIntegerBinaryOpWithTwoDst (readInstructionCommon Inst info) op d0 d1 s0 s1), info) }"

definition integer_mad :: "bool \<Rightarrow> inst_reader" where
  "integer_mad is_signed Inst phase info =
     do { d \<leftarrow> read_dst Inst phase 0 Integer; s0 \<leftarrow> read_src Inst phase 1 Integer; s1 \<leftarrow> read_src Inst phase 2 Integer;
          s2 \<leftarrow> read_src Inst phase 3 Integer; Some (IntegerOp (InstIntegerMAD d s0 s1 s2 is_signed), info) }"

definition read_msad :: inst_reader where
  "read_msad Inst phase info =
     do { d \<leftarrow> read_dst Inst phase 0 Integer; s0 \<leftarrow> read_src Inst phase 1 Integer; s1 \<leftarrow> read_src Inst phase 2 Integer;
          s2 \<leftarrow> read_src Inst phase 3 Integer;
          Some (IntegerOp (InstMaskedSumOfAbsDiff d s0 s1 s2), info\<lparr>use_msad := True\<rparr>) }"

definition read_extract_bits :: "bool \<Rightarrow> inst_reader" where
  "read_extract_bits is_signed Inst phase info =
     do { d \<leftarrow> read_dst Inst phase 0 Integer; s0 \<leftarrow> read_src Inst phase 1 Integer; s1 \<leftarrow> read_src Inst phase 2 Integer;
          s2 \<leftarrow> read_src Inst phase 3 Integer; Some (IntegerOp (InstExtractBits d s0 s1 s2 is_signed), info) }"

definition bit_insert :: inst_reader where
  "bit_insert Inst phase info =
     do { d \<leftarrow> read_dst Inst phase 0 Integer; s0 \<leftarrow> read_src Inst phase 1 Integer; s1 \<leftarrow> read_src Inst phase 2 Integer;
          s2 \<leftarrow> read_src Inst phase 3 Integer; s3 \<leftarrow> read_src Inst phase 4 Integer;
          Some (IntegerOp (InstBitFiledInsert d s0 s1 s2 s3), info) }"

definition convert_op :: "ConversionOp \<Rightarrow> OperandDataType \<Rightarrow> OperandDataType \<Rightarrow> inst_reader" where
  "convert_op op to from Inst phase info =
     do { d \<leftarrow> read_dst Inst phase 0 to; s \<leftarrow> read_src Inst phase 1 from; Some (IntegerOp (InstConvert op d s), info) }"

definition integer_cases :: "(u32 \<times> inst_reader) list" where
  "integer_cases =
     [(D3D10_SB_OPCODE_IMAD, integer_mad True),
      (D3D10_SB_OPCODE_UMAD, integer_mad False),
      (D3D11_1_SB_OPCODE_MSAD, read_msad),
      (D3D10_SB_OPCODE_IEQ, integer_compare IEqual),
      (D3D10_SB_OPCODE_INE, integer_compare INotEqual),
      (D3D10_SB_OPCODE_IGE, integer_compare SignedGreaterEqual),
      (D3D10_SB_OPCODE_ILT, integer_compare SignedLessThan),
      (D3D10_SB_OPCODE_UGE, integer_compare UnsignedGreaterEqual),
      (D3D10_SB_OPCODE_ULT, integer_compare UnsignedLessThan),
      (D3D10_SB_OPCODE_NOT, integer_unary INot),
      (D3D10_SB_OPCODE_INEG, integer_unary INeg),
      (D3D11_SB_OPCODE_BFREV, integer_unary ReverseBits),
      (D3D11_SB_OPCODE_COUNTBITS, integer_unary CountBits),
      (D3D11_SB_OPCODE_FIRSTBIT_HI, integer_unary FirstHiBit),
      (D3D11_SB_OPCODE_FIRSTBIT_SHI, integer_unary FirstHiBitSigned),
      (D3D11_SB_OPCODE_FIRSTBIT_LO, integer_unary FirstLowBit),
      (D3D11_SB_OPCODE_BFI, bit_insert),
      (D3D11_SB_OPCODE_UBFE, read_extract_bits False),
      (D3D11_SB_OPCODE_IBFE, read_extract_bits True)]"

definition integer_binary_cases :: "(u32 \<times> inst_reader) list" where
  "integer_binary_cases =
     [(D3D10_SB_OPCODE_ISHL, integer_binary IShl),
      (D3D10_SB_OPCODE_ISHR, integer_binary IShr),
      (D3D10_SB_OPCODE_USHR, integer_binary UShr),
      (D3D10_SB_OPCODE_XOR, integer_binary IXor),
      (D3D10_SB_OPCODE_OR, integer_binary IOr),
      (D3D10_SB_OPCODE_AND, integer_binary IAnd),
      (D3D10_SB_OPCODE_UMIN, integer_binary UMin),
      (D3D10_SB_OPCODE_UMAX, integer_binary UMax),
      (D3D10_SB_OPCODE_IMIN, integer_binary IMin),
      (D3D10_SB_OPCODE_IMAX, integer_binary IMax),
      (D3D10_SB_OPCODE_IADD, integer_binary IAdd),
      (D3D10_SB_OPCODE_IMUL, integer_two_dst IMul),
      (D3D10_SB_OPCODE_UMUL, integer_two_dst UMul),
      (D3D10_SB_OPCODE_UDIV, integer_two_dst UDiv),
      (D3D11_SB_OPCODE_UADDC, integer_two_dst UAddCarry),
      (D3D11_SB_OPCODE_USUBB, integer_two_dst USubBorrow)]"

definition conversion_cases :: "(u32 \<times> inst_reader) list" where
  "conversion_cases =
     [(D3D11_SB_OPCODE_F16TOF32, convert_op HalfToFloat Float Half16X16),
      (D3D11_SB_OPCODE_F32TOF16, convert_op FloatToHalf Half16X16 Float),
      (D3D10_SB_OPCODE_FTOI, convert_op FloatToSigned Integer Float),
      (D3D10_SB_OPCODE_FTOU, convert_op FloatToUnsigned Integer Float),
      (D3D10_SB_OPCODE_ITOF, convert_op SignedToFloat Float Integer),
      (D3D10_SB_OPCODE_UTOF, convert_op UnsignedToFloat Float Integer)]"

subsection \<open>Sampling\<close>

text \<open>
  A sparse instruction has the feedback register as its second operand, so the others move up by
  one; \<open>f\<close> is this shift.  The lod clamp is an operand of its own, unless it is null.
\<close>

definition texel_offsets :: "instruction \<Rightarrow> u32 list" where
  "texel_offsets Inst = map (\<lambda>k. scast (m_TexelOffset Inst ! k)) [0, 1, 2]"

definition read_feedback :: "bool \<Rightarrow> instruction \<Rightarrow> u32 \<Rightarrow> DstOperand option option" where
  "read_feedback sparse Inst phase = (if sparse then map_option Some (read_dst Inst phase 1 Integer) else Some None)"

definition lod_clamp :: "bool \<Rightarrow> nat \<Rightarrow> instruction \<Rightarrow> u32 \<Rightarrow> SrcOperand option option" where
  "lod_clamp sparse k Inst phase =
     (if sparse \<and> m_Type (m_Operands Inst ! k) \<noteq> OPERAND_TYPE_NULL then map_option Some (read_src Inst phase k Float) else Some None)"

definition read_resource :: "instruction \<Rightarrow> u32 \<Rightarrow> nat \<Rightarrow> SrcOperandResource option" where
  "read_resource Inst phase k = readSrcOperandResource (m_Operands Inst ! k) phase"

definition read_sampler :: "instruction \<Rightarrow> u32 \<Rightarrow> nat \<Rightarrow> SrcOperandSampler option" where
  "read_sampler Inst phase k = readSrcOperandSampler (m_Operands Inst ! k) phase"

definition shift_by :: "bool \<Rightarrow> nat" where
  "shift_by sparse = (if sparse then 1 else 0)"

definition read_sample :: "bool \<Rightarrow> inst_reader" where
  "read_sample sparse Inst phase info =
     (let f = shift_by sparse in
      do { d \<leftarrow> read_dst Inst phase 0 Float; a \<leftarrow> read_src Inst phase (1 + f) Float; r \<leftarrow> read_resource Inst phase (2 + f);
           s \<leftarrow> read_sampler Inst phase (3 + f); l \<leftarrow> lod_clamp sparse (4 + f) Inst phase; fb \<leftarrow> read_feedback sparse Inst phase;
           Some (SampleOp (InstSample d a r s (texel_offsets Inst) l fb), srv_set_sampled (resource_range_id r) info) })"

definition read_sample_bias :: "bool \<Rightarrow> inst_reader" where
  "read_sample_bias sparse Inst phase info =
     (let f = shift_by sparse in
      do { d \<leftarrow> read_dst Inst phase 0 Float; a \<leftarrow> read_src Inst phase (1 + f) Float; r \<leftarrow> read_resource Inst phase (2 + f);
           s \<leftarrow> read_sampler Inst phase (3 + f); b \<leftarrow> read_src Inst phase (4 + f) Float; l \<leftarrow> lod_clamp sparse (5 + f) Inst phase;
           fb \<leftarrow> read_feedback sparse Inst phase;
           Some (SampleOp (InstSampleBias d a r s b (texel_offsets Inst) l fb), srv_set_sampled (resource_range_id r) info) })"

definition read_sample_derivative :: "bool \<Rightarrow> inst_reader" where
  "read_sample_derivative sparse Inst phase info =
     (let f = shift_by sparse in
      do { d \<leftarrow> read_dst Inst phase 0 Float; a \<leftarrow> read_src Inst phase (1 + f) Float; r \<leftarrow> read_resource Inst phase (2 + f);
           s \<leftarrow> read_sampler Inst phase (3 + f); x \<leftarrow> read_src Inst phase (4 + f) Float; y \<leftarrow> read_src Inst phase (5 + f) Float;
           l \<leftarrow> lod_clamp sparse (6 + f) Inst phase; fb \<leftarrow> read_feedback sparse Inst phase;
           Some (SampleOp (InstSampleDerivative d a r s x y (texel_offsets Inst) l fb),
             srv_set_sampled (resource_range_id r) info) })"

definition read_sample_lod :: "bool \<Rightarrow> inst_reader" where
  "read_sample_lod sparse Inst phase info =
     (let f = shift_by sparse in
      do { d \<leftarrow> read_dst Inst phase 0 Float; a \<leftarrow> read_src Inst phase (1 + f) Float; r \<leftarrow> read_resource Inst phase (2 + f);
           s \<leftarrow> read_sampler Inst phase (3 + f); l \<leftarrow> read_src Inst phase (4 + f) Float; fb \<leftarrow> read_feedback sparse Inst phase;
           Some (SampleOp (InstSampleLOD d a r s l (texel_offsets Inst) fb), srv_set_sampled (resource_range_id r) info) })"

definition read_sample_compare :: "bool \<Rightarrow> bool \<Rightarrow> bool \<Rightarrow> inst_reader" where
  "read_sample_compare sparse sparse_clamp level_zero Inst phase info =
     (let f = shift_by sparse in
      do { d \<leftarrow> read_dst Inst phase 0 Float; a \<leftarrow> read_src Inst phase (1 + f) Float; r \<leftarrow> read_resource Inst phase (2 + f);
           s \<leftarrow> read_sampler Inst phase (3 + f); c \<leftarrow> read_src Inst phase (4 + f) Float;
           l \<leftarrow> lod_clamp sparse_clamp (5 + f) Inst phase; fb \<leftarrow> read_feedback sparse Inst phase;
           Some (SampleOp (InstSampleCompare d a r s c (texel_offsets Inst) l fb level_zero),
             srv_set_compared (resource_range_id r) info) })"

definition data_type_of :: "ScalerDataType \<Rightarrow> OperandDataType" where
  "data_type_of t = (if t = ScalerUint \<or> t = ScalerInt then Integer else Float)"

definition immediate_offset :: "instruction \<Rightarrow> SrcOperand" where
  "immediate_offset Inst =
     SrcOperandImmediate32 \<lparr>swizzle = swizzle_identity, absolute = False, negate = False, read_type = Integer\<rparr>
       [scast (m_TexelOffset Inst ! 0), scast (m_TexelOffset Inst ! 1), 0, 0]"

definition read_gather :: "bool \<Rightarrow> inst_reader" where
  "read_gather sparse Inst phase info =
     (let f = shift_by sparse in
      do { r \<leftarrow> read_resource Inst phase (2 + f);
           d \<leftarrow> read_dst Inst phase 0 (data_type_of (srv_scaler_type (srv_at info (resource_range_id r))));
           a \<leftarrow> read_src Inst phase (1 + f) Float; s \<leftarrow> read_sampler Inst phase (3 + f); fb \<leftarrow> read_feedback sparse Inst phase;
           Some (SampleOp (InstGather d a r s (immediate_offset Inst) fb), srv_set_sampled (resource_range_id r) info) })"

definition read_gather_compare :: "bool \<Rightarrow> inst_reader" where
  "read_gather_compare sparse Inst phase info =
     (let f = shift_by sparse in
      do { d \<leftarrow> read_dst Inst phase 0 Float; a \<leftarrow> read_src Inst phase (1 + f) Float; r \<leftarrow> read_resource Inst phase (2 + f);
           s \<leftarrow> read_sampler Inst phase (3 + f); c \<leftarrow> read_src Inst phase (4 + f) Float; fb \<leftarrow> read_feedback sparse Inst phase;
           Some (SampleOp (InstGatherCompare d a r s c (immediate_offset Inst) fb),
             srv_set_compared (resource_range_id r) info) })"

definition read_gather_po :: "bool \<Rightarrow> inst_reader" where
  "read_gather_po sparse Inst phase info =
     (let f = shift_by sparse in
      do { r \<leftarrow> read_resource Inst phase (3 + f);
           d \<leftarrow> read_dst Inst phase 0 (data_type_of (srv_scaler_type (srv_at info (resource_range_id r))));
           a \<leftarrow> read_src Inst phase (1 + f) Float; s \<leftarrow> read_sampler Inst phase (4 + f); off \<leftarrow> read_src Inst phase (2 + f) Integer;
           fb \<leftarrow> read_feedback sparse Inst phase;
           Some (SampleOp (InstGather d a r s off fb), srv_set_sampled (resource_range_id r) info) })"

definition read_gather_po_compare :: "bool \<Rightarrow> inst_reader" where
  "read_gather_po_compare sparse Inst phase info =
     (let f = shift_by sparse in
      do { d \<leftarrow> read_dst Inst phase 0 Float; a \<leftarrow> read_src Inst phase (1 + f) Float; r \<leftarrow> read_resource Inst phase (3 + f);
           s \<leftarrow> read_sampler Inst phase (4 + f); c \<leftarrow> read_src Inst phase (5 + f) Float; off \<leftarrow> read_src Inst phase (2 + f) Integer;
           fb \<leftarrow> read_feedback sparse Inst phase;
           Some (SampleOp (InstGatherCompare d a r s c off fb), srv_set_compared (resource_range_id r) info) })"

definition read_calc_lod :: inst_reader where
  "read_calc_lod Inst phase info =
     do { d \<leftarrow> read_dst Inst phase 0 Float; a \<leftarrow> read_src Inst phase 1 Float; r \<leftarrow> read_resource Inst phase 2; s \<leftarrow> read_sampler Inst phase 3;
          Some (SampleOp (InstCalcLOD d a r s), info) }"

definition sample_cases :: "(u32 \<times> inst_reader) list" where
  "sample_cases =
     [(D3DWDDM1_3_SB_OPCODE_SAMPLE_CLAMP_FEEDBACK, read_sample True),
      (D3D10_SB_OPCODE_SAMPLE, read_sample False),
      (D3DWDDM1_3_SB_OPCODE_SAMPLE_B_CLAMP_FEEDBACK, read_sample_bias True),
      (D3D10_SB_OPCODE_SAMPLE_B, read_sample_bias False),
      (D3DWDDM1_3_SB_OPCODE_SAMPLE_D_CLAMP_FEEDBACK, read_sample_derivative True),
      (D3D10_SB_OPCODE_SAMPLE_D, read_sample_derivative False),
      (D3D10_SB_OPCODE_SAMPLE_L, read_sample_lod False),
      (D3DWDDM1_3_SB_OPCODE_SAMPLE_L_FEEDBACK, read_sample_lod True),
      (D3D10_SB_OPCODE_SAMPLE_C_LZ, read_sample_compare False False True),
      (D3D10_SB_OPCODE_SAMPLE_C, read_sample_compare False False False),
      (D3DWDDM1_3_SB_OPCODE_SAMPLE_C_CLAMP_FEEDBACK, read_sample_compare True True False),
      (D3DWDDM1_3_SB_OPCODE_SAMPLE_C_LZ_FEEDBACK, read_sample_compare True False True),
      (D3D10_1_SB_OPCODE_GATHER4, read_gather False),
      (D3DWDDM1_3_SB_OPCODE_GATHER4_FEEDBACK, read_gather True),
      (D3D11_SB_OPCODE_GATHER4_C, read_gather_compare False),
      (D3DWDDM1_3_SB_OPCODE_GATHER4_C_FEEDBACK, read_gather_compare True),
      (D3D11_SB_OPCODE_GATHER4_PO, read_gather_po False),
      (D3DWDDM1_3_SB_OPCODE_GATHER4_PO_FEEDBACK, read_gather_po True),
      (D3D11_SB_OPCODE_GATHER4_PO_C, read_gather_po_compare False),
      (D3DWDDM1_3_SB_OPCODE_GATHER4_PO_C_FEEDBACK, read_gather_po_compare True),
      (D3D10_1_SB_OPCODE_LOD, read_calc_lod)]"

subsection \<open>Queries of resources\<close>

definition m_InstructionReturnType :: "instruction \<Rightarrow> u32 option" where
  "m_InstructionReturnType Inst = (case m_Extra Inst of InstructionReturnType t \<Rightarrow> Some t | _ \<Rightarrow> None)"

definition m_ResInfoReturnType :: "instruction \<Rightarrow> u32 option" where
  "m_ResInfoReturnType Inst = (case m_Extra Inst of ResInfoReturnType t \<Rightarrow> Some t | _ \<Rightarrow> None)"

definition read_sample_info :: inst_reader where
  "read_sample_info Inst phase info =
     do { t \<leftarrow> m_InstructionReturnType Inst; let return_uint = (t = 1);
          r \<leftarrow> (if m_Type (m_Operands Inst ! 1) = OPERAND_TYPE_RASTERIZER then Some None
                else map_option Some (read_resource Inst phase 1));
          d \<leftarrow> read_dst Inst phase 0 (if return_uint then Integer else Float);
          s \<leftarrow> readSrcOperandSwizzle (m_Operands Inst ! 1);
          Some (InfoOp (InstSampleInfo d r return_uint s),
            case r of None \<Rightarrow> info | Some r \<Rightarrow> srv_set_read (resource_range_id r) info) }"

definition read_sample_pos :: inst_reader where
  "read_sample_pos Inst phase info =
     do { let info = info\<lparr>use_samplepos := True\<rparr>;
          r \<leftarrow> (if m_Type (m_Operands Inst ! 1) = OPERAND_TYPE_RASTERIZER then Some None
                else map_option Some (read_resource Inst phase 1));
          d \<leftarrow> read_dst Inst phase 0 Float; i \<leftarrow> read_src Inst phase 2 Integer; s \<leftarrow> readSrcOperandSwizzle (m_Operands Inst ! 1);
          Some (InfoOp (InstSamplePos d r i s),
            case r of None \<Rightarrow> info | Some r \<Rightarrow> srv_set_read (resource_range_id r) info) }"

definition mark_read :: "SrcOperandResource + SrcOperandUAV \<Rightarrow> ShaderInfo \<Rightarrow> ShaderInfo" where
  "mark_read r info = (case r of Inl res \<Rightarrow> srv_set_read (resource_range_id res) info | Inr uav \<Rightarrow> uav_set_read (uav_range_id uav) info)"

definition read_bufinfo :: inst_reader where
  "read_bufinfo Inst phase info =
     do { d \<leftarrow> read_dst Inst phase 0 Integer; r \<leftarrow> readSrcResourceOrUAV (m_Operands Inst ! 1) phase;
          Some (InfoOp (InstBufferInfo d r), mark_read r info) }"

definition read_resinfo :: inst_reader where
  "read_resinfo Inst phase info =
     do { t \<leftarrow> m_ResInfoReturnType Inst;
          let modifier = (if t = 2 then M_uint else if t = 1 then M_rcp else M_none);
          d \<leftarrow> read_dst Inst phase 0 (if modifier = M_uint then Integer else Float); l \<leftarrow> read_src Inst phase 1 Integer;
          r \<leftarrow> readSrcResourceOrUAV (m_Operands Inst ! 2) phase;
          Some (InfoOp (InstResourceInfo d l r modifier), mark_read r info) }"

subsection \<open>Loads and stores\<close>

definition read_ld :: "bool \<Rightarrow> inst_reader" where
  "read_ld ms Inst phase info =
     do { r \<leftarrow> read_resource Inst phase 2;
          d \<leftarrow> read_dst Inst phase 0 (data_type_of (srv_scaler_type (srv_at info (resource_range_id r))));
          a \<leftarrow> read_src Inst phase 1 Integer; i \<leftarrow> (if ms then map_option Some (read_src Inst phase 3 Integer) else Some None);
          Some (MemoryOp (InstLoad d a r i (texel_offsets Inst)), srv_set_read (resource_range_id r) info) }"

definition read_ld_uav_typed :: inst_reader where
  "read_ld_uav_typed Inst phase info =
     do { u \<leftarrow> readSrcOperandUAV (m_Operands Inst ! 2) phase;
          d \<leftarrow> read_dst Inst phase 0 (data_type_of (uav_scaler_type (uav_at info (uav_range_id u)))); a \<leftarrow> read_src Inst phase 1 Integer;
          Some (MemoryOp (InstLoadUAVTyped d a u), uav_set_read (uav_range_id u) info) }"

definition read_store_uav_typed :: inst_reader where
  "read_store_uav_typed Inst phase info =
     do { u \<leftarrow> readDstOperandUAV (m_Operands Inst ! 0) phase; a \<leftarrow> read_src Inst phase 1 Integer;
          s \<leftarrow> read_src Inst phase 2 (data_type_of (uav_scaler_type (uav_at info (atomic_range_id u))));
          Some (MemoryOp (InstStoreUAVTyped u a s), uav_set_written (atomic_range_id u) info) }"

definition mark_typeless_read :: "typeless_src \<Rightarrow> ShaderInfo \<Rightarrow> ShaderInfo" where
  "mark_typeless_read r info =
     (case r of TypelessResource res \<Rightarrow> srv_set_read (resource_range_id res) info
      | TypelessUAV uav \<Rightarrow> uav_set_read (uav_range_id uav) info | TypelessTGSM _ \<Rightarrow> info)"

definition vec4_aligned :: "SrcOperand \<Rightarrow> bool" where
  "vec4_aligned s = (case s of SrcOperandImmediate32 _ v \<Rightarrow> v ! 0 AND 0xF = 0 | _ \<Rightarrow> False)"

definition mark_stored :: "AtomicDstOperandUAV + AtomicOperandTGSM \<Rightarrow> ShaderInfo \<Rightarrow> ShaderInfo" where
  "mark_stored u info = (case u of Inl uav \<Rightarrow> uav_set_written (atomic_range_id uav) info | Inr _ \<Rightarrow> info)"

definition read_ld_raw :: inst_reader where
  "read_ld_raw Inst phase info =
     do { d \<leftarrow> read_dst Inst phase 0 Integer; off \<leftarrow> read_src Inst phase 1 Integer; r \<leftarrow> readTypelessSrc (m_Operands Inst ! 2) phase;
          Some (MemoryOp (InstLoadRaw d off r (vec4_aligned off)), mark_typeless_read r info) }"

definition read_ld_structured :: inst_reader where
  "read_ld_structured Inst phase info =
     do { d \<leftarrow> read_dst Inst phase 0 Integer; a \<leftarrow> read_src Inst phase 1 Integer; off \<leftarrow> read_src Inst phase 2 Integer;
          r \<leftarrow> readTypelessSrc (m_Operands Inst ! 3) phase;
          Some (MemoryOp (InstLoadStructured d a off r (vec4_aligned off)), mark_typeless_read r info) }"

definition read_store_raw :: inst_reader where
  "read_store_raw Inst phase info =
     do { u \<leftarrow> readAtomicDst (m_Operands Inst ! 0) phase; off \<leftarrow> read_src Inst phase 1 Integer; s \<leftarrow> read_src Inst phase 2 Integer;
          Some (MemoryOp (InstStoreRaw u off s), mark_stored u info) }"

definition read_store_structured :: inst_reader where
  "read_store_structured Inst phase info =
     do { u \<leftarrow> readAtomicDst (m_Operands Inst ! 0) phase; a \<leftarrow> read_src Inst phase 1 Integer; off \<leftarrow> read_src Inst phase 2 Integer;
          s \<leftarrow> read_src Inst phase 3 Integer;
          Some (MemoryOp (InstStoreStructured u a off s), mark_stored u info) }"

definition memory_cases :: "(u32 \<times> inst_reader) list" where
  "memory_cases =
     [(D3D10_1_SB_OPCODE_SAMPLE_INFO, read_sample_info),
      (D3D10_1_SB_OPCODE_SAMPLE_POS, read_sample_pos),
      (D3D11_SB_OPCODE_BUFINFO, read_bufinfo),
      (D3D10_SB_OPCODE_RESINFO, read_resinfo),
      (D3D10_SB_OPCODE_LD, read_ld False),
      (D3D10_SB_OPCODE_LD_MS, read_ld True),
      (D3D11_SB_OPCODE_LD_UAV_TYPED, read_ld_uav_typed),
      (D3D11_SB_OPCODE_STORE_UAV_TYPED, read_store_uav_typed),
      (D3D11_SB_OPCODE_LD_RAW, read_ld_raw),
      (D3D11_SB_OPCODE_STORE_RAW, read_store_raw),
      (D3D11_SB_OPCODE_LD_STRUCTURED, read_ld_structured),
      (D3D11_SB_OPCODE_STORE_STRUCTURED, read_store_structured)]"

subsection \<open>Atomic operations\<close>

definition side_effect :: DstOperand where
  "side_effect = DstOperandSideEffect \<lparr>write_mask = 0xf, write_type = Integer\<rparr>"

definition mark_atomic :: "AtomicDstOperandUAV + AtomicOperandTGSM \<Rightarrow> ShaderInfo \<Rightarrow> ShaderInfo" where
  "mark_atomic u info =
     (case u of Inl uav \<Rightarrow> uav_set_written (atomic_range_id uav) (uav_set_read (atomic_range_id uav) info) | Inr _ \<Rightarrow> info)"

definition read_atomic :: "AtomicBinaryOp \<Rightarrow> inst_reader" where
  "read_atomic op Inst phase info =
     do { u \<leftarrow> readAtomicDst (m_Operands Inst ! 0) phase; a \<leftarrow> read_src Inst phase 1 Integer; s \<leftarrow> read_src Inst phase 2 Integer;
          Some (AtomicOp (InstAtomicBinOp op u a s side_effect), mark_atomic u info) }"

definition read_imm_atomic :: "AtomicBinaryOp \<Rightarrow> inst_reader" where
  "read_imm_atomic op Inst phase info =
     do { u \<leftarrow> readAtomicDst (m_Operands Inst ! 1) phase; a \<leftarrow> read_src Inst phase 2 Integer; s \<leftarrow> read_src Inst phase 3 Integer;
          d \<leftarrow> read_dst Inst phase 0 Integer;
          Some (AtomicOp (InstAtomicBinOp op u a s d), mark_atomic u info) }"

definition read_cmp_store :: inst_reader where
  "read_cmp_store Inst phase info =
     do { u \<leftarrow> readAtomicDst (m_Operands Inst ! 0) phase; a \<leftarrow> read_src Inst phase 1 Integer; s0 \<leftarrow> read_src Inst phase 2 Integer;
          s1 \<leftarrow> read_src Inst phase 3 Integer;
          Some (AtomicOp (InstAtomicImmCmpExchange side_effect u a s0 s1), mark_atomic u (info\<lparr>use_cmp_exch := True\<rparr>)) }"

definition read_cmp_exch :: inst_reader where
  "read_cmp_exch Inst phase info =
     do { d \<leftarrow> read_dst Inst phase 0 Integer; u \<leftarrow> readAtomicDst (m_Operands Inst ! 1) phase; a \<leftarrow> read_src Inst phase 2 Integer;
          s0 \<leftarrow> read_src Inst phase 3 Integer; s1 \<leftarrow> read_src Inst phase 4 Integer;
          Some (AtomicOp (InstAtomicImmCmpExchange d u a s0 s1), mark_atomic u (info\<lparr>use_cmp_exch := True\<rparr>)) }"

definition read_counter :: "(DstOperand \<Rightarrow> AtomicDstOperandUAV \<Rightarrow> atomic_inst) \<Rightarrow> inst_reader" where
  "read_counter mk Inst phase info =
     do { d \<leftarrow> read_dst Inst phase 0 Integer; u \<leftarrow> readDstOperandUAV (m_Operands Inst ! 1) phase;
          Some (AtomicOp (mk d u), uav_set_counter (atomic_range_id u) info) }"

definition atomic_cases :: "(u32 \<times> inst_reader) list" where
  "atomic_cases =
     [(D3D11_SB_OPCODE_ATOMIC_AND, read_atomic AtomicAnd),
      (D3D11_SB_OPCODE_ATOMIC_OR, read_atomic AtomicOr),
      (D3D11_SB_OPCODE_ATOMIC_XOR, read_atomic AtomicXor),
      (D3D11_SB_OPCODE_ATOMIC_IADD, read_atomic AtomicAdd),
      (D3D11_SB_OPCODE_ATOMIC_IMAX, read_atomic AtomicIMax),
      (D3D11_SB_OPCODE_ATOMIC_IMIN, read_atomic AtomicIMin),
      (D3D11_SB_OPCODE_ATOMIC_UMAX, read_atomic AtomicUMax),
      (D3D11_SB_OPCODE_ATOMIC_UMIN, read_atomic AtomicUMin),
      (D3D11_SB_OPCODE_ATOMIC_CMP_STORE, read_cmp_store)]"

definition imm_atomic_cases :: "(u32 \<times> inst_reader) list" where
  "imm_atomic_cases =
     [(D3D11_SB_OPCODE_IMM_ATOMIC_ALLOC, read_counter InstAtomicImmIncrement),
      (D3D11_SB_OPCODE_IMM_ATOMIC_CONSUME, read_counter InstAtomicImmDecrement),
      (D3D11_SB_OPCODE_IMM_ATOMIC_EXCH, read_imm_atomic AtomicXchg),
      (D3D11_SB_OPCODE_IMM_ATOMIC_CMP_EXCH, read_cmp_exch),
      (D3D11_SB_OPCODE_IMM_ATOMIC_AND, read_imm_atomic AtomicAnd),
      (D3D11_SB_OPCODE_IMM_ATOMIC_OR, read_imm_atomic AtomicOr),
      (D3D11_SB_OPCODE_IMM_ATOMIC_XOR, read_imm_atomic AtomicXor),
      (D3D11_SB_OPCODE_IMM_ATOMIC_IADD, read_imm_atomic AtomicAdd),
      (D3D11_SB_OPCODE_IMM_ATOMIC_UMAX, read_imm_atomic AtomicUMax),
      (D3D11_SB_OPCODE_IMM_ATOMIC_UMIN, read_imm_atomic AtomicUMin),
      (D3D11_SB_OPCODE_IMM_ATOMIC_IMAX, read_imm_atomic AtomicIMax),
      (D3D11_SB_OPCODE_IMM_ATOMIC_IMIN, read_imm_atomic AtomicIMin)]"

subsection \<open>The rest\<close>

definition read_nop :: inst_reader where
  "read_nop Inst phase info = Some (OtherOp InstNop, info)"

definition m_SyncFlags :: "instruction \<Rightarrow> sync_flags option" where
  "m_SyncFlags Inst = (case m_Extra Inst of SyncFlags f \<Rightarrow> Some f | _ \<Rightarrow> None)"

definition read_sync :: inst_reader where
  "read_sync Inst phase info =
     do { f \<leftarrow> m_SyncFlags Inst;
          Some (OtherOp (InstSync (if bUnorderedAccessViewMemoryGlobal f then global_boundary
              else if bUnorderedAccessViewMemoryGroup f then group_boundary else no_boundary)
            (bThreadGroupSharedMemory f) (bThreadsInGroup f)), info) }"

text \<open>
  Interpolation of an input register; a register number of 32 or more would shift \<open>1\<close> out of an
  \<open>int\<close>, which is undefined.
\<close>

definition pulled_input :: "instruction \<Rightarrow> ShaderInfo \<Rightarrow> (u32 \<times> ShaderInfo) option" where
  "pulled_input Inst info =
     (let O' = m_Operands Inst ! 1; regid = reg_index 0 O' in
      do { assert_dxbc (m_Type O' = OPERAND_TYPE_INPUT); assert_dxbc (m_IndexType O' ! 0 = 0); assert_dxbc (regid < 32);
           Some (regid, info\<lparr>pull_mode_reg_mask := pull_mode_reg_mask info OR push_bit (unat regid) 1\<rparr>) })"

definition read_eval_centroid :: inst_reader where
  "read_eval_centroid Inst phase info =
     do { (regid, info) \<leftarrow> pulled_input Inst info; d \<leftarrow> read_dst Inst phase 0 Float;
          s \<leftarrow> readSrcOperandSwizzle (m_Operands Inst ! 1); Some (OtherOp (InstInterpolateCentroid d regid s), info) }"

definition read_eval_sample :: inst_reader where
  "read_eval_sample Inst phase info =
     do { (regid, info) \<leftarrow> pulled_input Inst info; d \<leftarrow> read_dst Inst phase 0 Float; i \<leftarrow> read_src Inst phase 2 Integer;
          s \<leftarrow> readSrcOperandSwizzle (m_Operands Inst ! 1); Some (OtherOp (InstInterpolateSample d i regid s), info) }"

definition read_eval_snapped :: inst_reader where
  "read_eval_snapped Inst phase info =
     do { (regid, info) \<leftarrow> pulled_input Inst info; d \<leftarrow> read_dst Inst phase 0 Float; off \<leftarrow> read_src Inst phase 2 Integer;
          s \<leftarrow> readSrcOperandSwizzle (m_Operands Inst ! 1); Some (OtherOp (InstInterpolateOffset d off regid s), info) }"

definition other_cases :: "(u32 \<times> inst_reader) list" where
  "other_cases =
     [(D3D10_SB_OPCODE_MOV, read_mov),
      (D3D10_SB_OPCODE_MOVC, read_movc),
      (D3D11_SB_OPCODE_SWAPC, read_swapc),
      (D3D10_SB_OPCODE_NOP, read_nop),
      (D3D11_SB_OPCODE_SYNC, read_sync),
      (D3D11_SB_OPCODE_EVAL_CENTROID, read_eval_centroid),
      (D3D11_SB_OPCODE_EVAL_SAMPLE_INDEX, read_eval_sample),
      (D3D11_SB_OPCODE_EVAL_SNAPPED, read_eval_snapped)]"

subsection \<open>readInstruction\<close>

text \<open>The loop before the switch: the count of temporaries covers every temporary operand.\<close>

fun count_temps :: "nat list \<Rightarrow> instruction \<Rightarrow> ShaderInfo \<Rightarrow> ShaderInfo" where
  "count_temps [] Inst info = info"
| "count_temps (i # rest) Inst info =
     count_temps rest Inst
       (if m_Type (m_Operands Inst ! i) = OPERAND_TYPE_TEMP
        then info\<lparr>tempRegisterCount := max (tempRegisterCount info) (reg_index 0 (m_Operands Inst ! i) + 1)\<rparr>
        else info)"

definition all_cases :: "(u32 \<times> inst_reader) list" where
  "all_cases = other_cases @ sample_cases @ memory_cases @ float_cases @ integer_cases @ integer_binary_cases @
     conversion_cases @ derivative_cases @ atomic_cases @ imm_atomic_cases"

definition readInstruction :: "instruction \<Rightarrow> u32 \<Rightarrow> ShaderInfo \<Rightarrow> (Instruction \<times> ShaderInfo) option" where
  "readInstruction Inst phase info =
     (case map_of all_cases (m_OpCode Inst) of
        Some p \<Rightarrow> p Inst phase (count_temps [0..<unat (i_NumOperands Inst)] Inst info)
      | None \<Rightarrow> None)"

end
