(* ===== verification/InstructionContract.thy ===== *)
theory InstructionContract
  imports ShaderInstructions ShaderSyntax
begin

text \<open>
  What \<open>readInstruction\<close> promises: it reads no operand beyond those that the opcode table gives
  the instruction, the register count covers the temporaries of every instruction, the resources
  of an instruction are marked in the shader information with the access that the instruction
  makes, and marks are never taken back.
\<close>

section \<open>The operands of the opcode table are enough\<close>

text \<open>\<open>needs n p\<close>: the case \<open>p\<close> looks at the first \<open>n\<close> operand slots only.\<close>

definition same_operands :: "nat \<Rightarrow> instruction \<Rightarrow> instruction \<Rightarrow> bool" where
  "same_operands n I J \<longleftrightarrow> (\<exists>ops. J = I\<lparr>m_Operands := ops\<rparr> \<and> (\<forall>k < n. ops ! k = m_Operands I ! k))"

definition needs :: "nat \<Rightarrow> inst_reader \<Rightarrow> bool" where
  "needs n p \<longleftrightarrow> (\<forall>I J phase info. same_operands n I J \<longrightarrow> p J phase info = p I phase info)"

lemmas inst_reader_defs =
  read_mov_def read_movc_def read_swapc_def dot_product_def float_unary_def float_binary_def float_mad_def sin_cos_def
  float_compare_def partial_derivative_def integer_compare_def integer_unary_def integer_binary_def integer_two_dst_def
  integer_mad_def read_msad_def read_extract_bits_def bit_insert_def convert_op_def read_sample_def read_sample_bias_def
  read_sample_derivative_def read_sample_lod_def read_sample_compare_def read_gather_def read_gather_compare_def
  read_gather_po_def read_gather_po_compare_def read_calc_lod_def read_sample_info_def read_sample_pos_def
  read_bufinfo_def read_resinfo_def read_ld_def read_ld_uav_typed_def read_store_uav_typed_def read_ld_raw_def
  read_ld_structured_def read_store_raw_def read_store_structured_def read_atomic_def read_imm_atomic_def
  read_cmp_store_def read_cmp_exch_def read_counter_def read_nop_def read_sync_def pulled_input_def
  read_eval_centroid_def read_eval_sample_def read_eval_snapped_def

lemmas operand_reader_defs =
  read_dst_def read_src_def read_feedback_def lod_clamp_def read_resource_def read_sampler_def shift_by_def
  readInstructionCommon_def texel_offsets_def immediate_offset_def m_InstructionReturnType_def m_ResInfoReturnType_def
  m_SyncFlags_def

lemma needs_case:
  assumes "\<And>I ops phase info. (\<forall>k < n. ops ! k = m_Operands I ! k) \<Longrightarrow> p (I\<lparr>m_Operands := ops\<rparr>) phase info = p I phase info"
  shows "needs n p"
  unfolding needs_def same_operands_def
proof (intro allI impI)
  fix I J :: instruction and phase info
  assume "\<exists>ops. J = I\<lparr>m_Operands := ops\<rparr> \<and> (\<forall>k < n. ops ! k = m_Operands I ! k)"
  then obtain ops where J: "J = I\<lparr>m_Operands := ops\<rparr>" and ops: "\<forall>k < n. ops ! k = m_Operands I ! k" by blast
  show "p J phase info = p I phase info" unfolding J by (rule assms) (rule ops)
qed

lemma needs_other:
  "2 \<le> n \<Longrightarrow> needs n read_mov"
  "4 \<le> n \<Longrightarrow> needs n read_movc"
  "5 \<le> n \<Longrightarrow> needs n read_swapc"
  "0 \<le> n \<Longrightarrow> needs n read_nop"
  "0 \<le> n \<Longrightarrow> needs n read_sync"
  "2 \<le> n \<Longrightarrow> needs n read_eval_centroid"
  "3 \<le> n \<Longrightarrow> needs n read_eval_sample"
  "3 \<le> n \<Longrightarrow> needs n read_eval_snapped"
  by (rule needs_case, simp add: inst_reader_defs operand_reader_defs cong: if_cong)+

lemma needs_float:
  "3 \<le> n \<Longrightarrow> needs n (dot_product dim)"
  "2 \<le> n \<Longrightarrow> needs n (float_unary op2)"
  "3 \<le> n \<Longrightarrow> needs n (float_binary op3)"
  "4 \<le> n \<Longrightarrow> needs n float_mad"
  "3 \<le> n \<Longrightarrow> needs n sin_cos"
  "3 \<le> n \<Longrightarrow> needs n (float_compare cmp6)"
  "2 \<le> n \<Longrightarrow> needs n (partial_derivative y c)"
  by (rule needs_case, simp add: inst_reader_defs operand_reader_defs cong: if_cong)+

lemma needs_integer:
  "3 \<le> n \<Longrightarrow> needs n (integer_compare cmp1)"
  "2 \<le> n \<Longrightarrow> needs n (integer_unary op2)"
  "3 \<le> n \<Longrightarrow> needs n (integer_binary op3)"
  "4 \<le> n \<Longrightarrow> needs n (integer_two_dst op4)"
  "4 \<le> n \<Longrightarrow> needs n (integer_mad sg)"
  "4 \<le> n \<Longrightarrow> needs n read_msad"
  "4 \<le> n \<Longrightarrow> needs n (read_extract_bits sg)"
  "5 \<le> n \<Longrightarrow> needs n bit_insert"
  "2 \<le> n \<Longrightarrow> needs n (convert_op op9 t f)"
  by (rule needs_case, simp add: inst_reader_defs operand_reader_defs cong: if_cong)+

lemma needs_sample:
  "4 \<le> n \<Longrightarrow> needs n (read_sample False)"
  "6 \<le> n \<Longrightarrow> needs n (read_sample True)"
  "5 \<le> n \<Longrightarrow> needs n (read_sample_bias False)"
  "7 \<le> n \<Longrightarrow> needs n (read_sample_bias True)"
  "6 \<le> n \<Longrightarrow> needs n (read_sample_derivative False)"
  "8 \<le> n \<Longrightarrow> needs n (read_sample_derivative True)"
  "5 \<le> n \<Longrightarrow> needs n (read_sample_lod False)"
  "6 \<le> n \<Longrightarrow> needs n (read_sample_lod True)"
  "5 \<le> n \<Longrightarrow> needs n (read_sample_compare False False z)"
  "7 \<le> n \<Longrightarrow> needs n (read_sample_compare True True z)"
  "6 \<le> n \<Longrightarrow> needs n (read_sample_compare True False z)"
  by (rule needs_case, simp add: inst_reader_defs operand_reader_defs cong: if_cong)+

lemma needs_gather:
  "4 \<le> n \<Longrightarrow> needs n (read_gather False)"
  "5 \<le> n \<Longrightarrow> needs n (read_gather True)"
  "5 \<le> n \<Longrightarrow> needs n (read_gather_compare False)"
  "6 \<le> n \<Longrightarrow> needs n (read_gather_compare True)"
  "5 \<le> n \<Longrightarrow> needs n (read_gather_po False)"
  "6 \<le> n \<Longrightarrow> needs n (read_gather_po True)"
  "6 \<le> n \<Longrightarrow> needs n (read_gather_po_compare False)"
  "7 \<le> n \<Longrightarrow> needs n (read_gather_po_compare True)"
  "4 \<le> n \<Longrightarrow> needs n read_calc_lod"
  by (rule needs_case, simp add: inst_reader_defs operand_reader_defs cong: if_cong)+

lemma needs_memory:
  "2 \<le> n \<Longrightarrow> needs n read_sample_info"
  "3 \<le> n \<Longrightarrow> needs n read_sample_pos"
  "2 \<le> n \<Longrightarrow> needs n read_bufinfo"
  "3 \<le> n \<Longrightarrow> needs n read_resinfo"
  "3 \<le> n \<Longrightarrow> needs n (read_ld False)"
  "4 \<le> n \<Longrightarrow> needs n (read_ld True)"
  "3 \<le> n \<Longrightarrow> needs n read_ld_uav_typed"
  "3 \<le> n \<Longrightarrow> needs n read_store_uav_typed"
  "3 \<le> n \<Longrightarrow> needs n read_ld_raw"
  "4 \<le> n \<Longrightarrow> needs n read_ld_structured"
  "3 \<le> n \<Longrightarrow> needs n read_store_raw"
  "4 \<le> n \<Longrightarrow> needs n read_store_structured"
  by (rule needs_case, simp add: inst_reader_defs operand_reader_defs cong: if_cong)+

lemma needs_atomic:
  "3 \<le> n \<Longrightarrow> needs n (read_atomic op1)"
  "4 \<le> n \<Longrightarrow> needs n (read_imm_atomic op2)"
  "4 \<le> n \<Longrightarrow> needs n read_cmp_store"
  "5 \<le> n \<Longrightarrow> needs n read_cmp_exch"
  "2 \<le> n \<Longrightarrow> needs n (read_counter mk)"
  by (rule needs_case, simp add: inst_reader_defs operand_reader_defs cong: if_cong)+

lemmas needs_rules = needs_other needs_float needs_integer needs_sample needs_gather needs_memory needs_atomic

text \<open>The operand counts of the opcode table, evaluated for the opcodes of each group of cases.\<close>

definition operand_count :: "u32 \<Rightarrow> nat" where
  "operand_count opcode = unat (m_NumOperands (g_InstructionInfo opcode))"

definition count_list :: "(nat \<times> nat) list" where
  "count_list =
    [(0, 3), (1, 3), (2, 0), (3, 1), (4, 1), (5, 2), (7, 0), (8, 1), (6, 1), (9, 0), (10, 0), (13, 1),
     (14, 3), (15, 3), (16, 3), (17, 3), (18, 0), (19, 0), (20, 0), (21, 0), (22, 0), (23, 0), (24, 3), (25, 2),
     (26, 2), (27, 2), (28, 2), (29, 3), (11, 2), (12, 2), (30, 3), (31, 1), (32, 3), (33, 3), (34, 3), (35, 4),
     (36, 3), (37, 3), (38, 4), (39, 3), (40, 2), (41, 3), (42, 3), (43, 2), (44, 1), (45, 3), (46, 4), (47, 2),
     (48, 0), (49, 3), (50, 4), (52, 3), (51, 3), (54, 2), (55, 4), (56, 3), (57, 3), (58, 0), (59, 2), (60, 3),
     (61, 3), (62, 0), (63, 1), (64, 2), (65, 2), (66, 2), (67, 2), (68, 2), (69, 4), (74, 5), (72, 5), (73, 6),
     (70, 5), (71, 5), (75, 2), (76, 1), (77, 3), (78, 4), (79, 3), (80, 3), (83, 3), (84, 3), (81, 4), (82, 4),
     (85, 3), (86, 2), (87, 3), (107, 0), (95, 1), (101, 1), (96, 1), (99, 1), (93, 0), (92, 0), (94, 0), (98, 1),
     (89, 1), (90, 1), (88, 1), (97, 1), (100, 1), (103, 1), (102, 1), (104, 0), (105, 0), (91, 1), (106, 0), (111, 2),
     (110, 3), (109, 4), (108, 4), (117, 1), (118, 1), (119, 1), (120, 1), (143, 1), (144, 0), (145, 0), (146, 0), (121, 2),
     (122, 2), (123, 2), (124, 2), (125, 2), (126, 5), (127, 5), (128, 6), (129, 2), (130, 2), (131, 2), (132, 4), (133, 4),
     (134, 2), (135, 2), (136, 2), (137, 2), (138, 4), (139, 4), (140, 5), (141, 2), (142, 5), (113, 0), (114, 0), (115, 0),
     (116, 0), (147, 0), (148, 0), (149, 0), (150, 0), (151, 0), (152, 0), (153, 0), (154, 0), (155, 0), (156, 1), (157, 1),
     (158, 1), (159, 1), (160, 1), (161, 1), (162, 1), (163, 3), (164, 3), (165, 3), (166, 3), (167, 4), (168, 4), (169, 3),
     (170, 3), (171, 3), (172, 4), (173, 3), (174, 3), (175, 3), (176, 3), (177, 3), (178, 2), (179, 2), (180, 4), (181, 4),
     (182, 4), (183, 4), (184, 4), (185, 5), (186, 4), (187, 4), (188, 4), (189, 4), (190, 0), (203, 3), (204, 3), (205, 2),
     (206, 0), (191, 3), (192, 3), (193, 3), (194, 3), (195, 3), (196, 3), (197, 3), (198, 3), (199, 2), (200, 4), (201, 2),
     (202, 2), (207, 0), (208, 0), (210, 3), (211, 4), (212, 2), (213, 4), (214, 2), (215, 2), (216, 2), (217, 2), (219, 5),
     (220, 6), (221, 6), (222, 7), (223, 4), (224, 5), (225, 4), (226, 4), (227, 5), (228, 6), (229, 6), (230, 6), (231, 7),
     (232, 8), (233, 7), (234, 2)]"

lemma count_table: "map (\<lambda>(k, i). (unat k, unat (m_NumOperands i))) instruction_table = count_list"
  by (simp add: instruction_table_def instruction_info_sm4_def instruction_info_decls_def instruction_info_sm5_def SET_def count_list_def)

lemma count_list_distinct: "distinct (map fst count_list)"
  by (simp add: count_list_def)

lemma map_of_map_inj: "inj f \<Longrightarrow> map_of (map (\<lambda>(k, i). (f k, g i)) xs) (f k) = map_option g (map_of xs k)"
  by (induction xs) (auto simp: inj_def)

lemma operand_count_listed: "(unat opcode, n) \<in> set count_list \<Longrightarrow> operand_count opcode = n"
proof -
  assume "(unat opcode, n) \<in> set count_list"
  then have "map_of count_list (unat opcode) = Some n" using count_list_distinct by simp
  moreover have "inj (unat :: u32 \<Rightarrow> nat)" by (rule inj_on_inverseI [where g = of_nat]) simp
  ultimately have "map_option (\<lambda>i. unat (m_NumOperands i)) (map_of instruction_table opcode) = Some n"
    unfolding count_table [symmetric] by (simp add: map_of_map_inj [where g = "\<lambda>i. unat (m_NumOperands i)"])
  then show ?thesis by (auto simp: operand_count_def g_InstructionInfo_def)
qed

definition counted :: "nat list \<Rightarrow> (u32 \<times> inst_reader) list \<Rightarrow> bool" where
  "counted ns cases \<longleftrightarrow> list_all2 (\<lambda>n (opcode, p). (unat opcode, n) \<in> set count_list) ns cases"

lemma counts_cover:
  assumes "counted ns cases" "list_all2 needs ns (map snd cases)"
  shows "list_all (\<lambda>(opcode, p). needs (operand_count opcode) p) cases"
  using assms unfolding counted_def
proof (induction ns cases rule: list_all2_induct)
  case (Cons n ns c cases)
  then show ?case using operand_count_listed by (cases c) auto
qed simp

lemma other_cases_counted: "counted [2, 4, 5, 0, 0, 2, 3, 3] other_cases"
  by (simp add: counted_def other_cases_def count_list_def)

lemma other_cases_covered: "list_all (\<lambda>(opcode, p). needs (operand_count opcode) p) other_cases"
  by (rule counts_cover [OF other_cases_counted]) (simp add: other_cases_def, intro conjI needs_rules; simp)

lemma sample_cases_counted: "counted [6, 4, 7, 5, 8, 6, 5, 6, 5, 5, 7, 6, 4, 5, 5, 6, 5, 6, 6, 7, 4] sample_cases"
  by (simp add: counted_def sample_cases_def count_list_def)

lemma sample_cases_covered: "list_all (\<lambda>(opcode, p). needs (operand_count opcode) p) sample_cases"
  by (rule counts_cover [OF sample_cases_counted]) (simp add: sample_cases_def, intro conjI needs_rules; simp)

lemma memory_cases_counted: "counted [2, 3, 2, 3, 3, 4, 3, 3, 3, 3, 4, 4] memory_cases"
  by (simp add: counted_def memory_cases_def count_list_def)

lemma memory_cases_covered: "list_all (\<lambda>(opcode, p). needs (operand_count opcode) p) memory_cases"
  by (rule counts_cover [OF memory_cases_counted]) (simp add: memory_cases_def, intro conjI needs_rules; simp)

lemma float_cases_counted: "counted [3, 3, 3, 2, 2, 2, 2, 2, 2, 2, 2, 2, 2, 3, 3, 3, 3, 3, 4, 3, 3, 3, 3, 3] float_cases"
  by (simp add: counted_def float_cases_def count_list_def)

lemma float_cases_covered: "list_all (\<lambda>(opcode, p). needs (operand_count opcode) p) float_cases"
  by (rule counts_cover [OF float_cases_counted]) (simp add: float_cases_def, intro conjI needs_rules; simp)

lemma integer_cases_counted: "counted [4, 4, 4, 3, 3, 3, 3, 3, 3, 2, 2, 2, 2, 2, 2, 2, 5, 4, 4] integer_cases"
  by (simp add: counted_def integer_cases_def count_list_def)

lemma integer_cases_covered: "list_all (\<lambda>(opcode, p). needs (operand_count opcode) p) integer_cases"
  by (rule counts_cover [OF integer_cases_counted]) (simp add: integer_cases_def, intro conjI needs_rules; simp)

lemma integer_binary_cases_counted: "counted [3, 3, 3, 3, 3, 3, 3, 3, 3, 3, 3, 4, 4, 4, 4, 4] integer_binary_cases"
  by (simp add: counted_def integer_binary_cases_def count_list_def)

lemma integer_binary_cases_covered: "list_all (\<lambda>(opcode, p). needs (operand_count opcode) p) integer_binary_cases"
  by (rule counts_cover [OF integer_binary_cases_counted]) (simp add: integer_binary_cases_def, intro conjI needs_rules; simp)

lemma conversion_cases_counted: "counted [2, 2, 2, 2, 2, 2] conversion_cases"
  by (simp add: counted_def conversion_cases_def count_list_def)

lemma conversion_cases_covered: "list_all (\<lambda>(opcode, p). needs (operand_count opcode) p) conversion_cases"
  by (rule counts_cover [OF conversion_cases_counted]) (simp add: conversion_cases_def, intro conjI needs_rules; simp)

lemma derivative_cases_counted: "counted [2, 2, 2, 2, 2, 2] derivative_cases"
  by (simp add: counted_def derivative_cases_def count_list_def)

lemma derivative_cases_covered: "list_all (\<lambda>(opcode, p). needs (operand_count opcode) p) derivative_cases"
  by (rule counts_cover [OF derivative_cases_counted]) (simp add: derivative_cases_def, intro conjI needs_rules; simp)

lemma atomic_cases_counted: "counted [3, 3, 3, 3, 3, 3, 3, 3, 4] atomic_cases"
  by (simp add: counted_def atomic_cases_def count_list_def)

lemma atomic_cases_covered: "list_all (\<lambda>(opcode, p). needs (operand_count opcode) p) atomic_cases"
  by (rule counts_cover [OF atomic_cases_counted]) (simp add: atomic_cases_def, intro conjI needs_rules; simp)

lemma imm_atomic_cases_counted: "counted [2, 2, 4, 5, 4, 4, 4, 4, 4, 4, 4, 4] imm_atomic_cases"
  by (simp add: counted_def imm_atomic_cases_def count_list_def)

lemma imm_atomic_cases_covered: "list_all (\<lambda>(opcode, p). needs (operand_count opcode) p) imm_atomic_cases"
  by (rule counts_cover [OF imm_atomic_cases_counted]) (simp add: imm_atomic_cases_def, intro conjI needs_rules; simp)

lemma all_cases_covered: "map_of all_cases opcode = Some p \<Longrightarrow> needs (operand_count opcode) p"
proof -
  have "list_all (\<lambda>(opcode, p). needs (operand_count opcode) p) all_cases"
    by (simp only: all_cases_def list_all_append other_cases_covered sample_cases_covered memory_cases_covered
        float_cases_covered integer_cases_covered integer_binary_cases_covered conversion_cases_covered
        derivative_cases_covered atomic_cases_covered imm_atomic_cases_covered simp_thms)
  then show "map_of all_cases opcode = Some p \<Longrightarrow> needs (operand_count opcode) p"
    by (auto simp: list_all_iff dest!: map_of_SomeD)
qed

lemma count_temps_same: "\<forall>k \<in> set is. ops ! k = m_Operands I ! k \<Longrightarrow> count_temps is (I\<lparr>m_Operands := ops\<rparr>) info = count_temps is I info"
  by (induction "is" arbitrary: info) auto

section \<open>Marks in the shader information\<close>

text \<open>A case changes nothing but marks and flags: the register counts and the declared types stay.\<close>

definition marks_only :: "ShaderInfo \<Rightarrow> ShaderInfo \<Rightarrow> bool" where
  "marks_only info info' \<longleftrightarrow>
     tempRegisterCount info' = tempRegisterCount info \<and> phases info' = phases info \<and>
     refactoringAllowed info' = refactoringAllowed info \<and>
     (\<forall>r. (srv_read (srv_at info r) \<longrightarrow> srv_read (srv_at info' r)) \<and>
          (srv_sampled (srv_at info r) \<longrightarrow> srv_sampled (srv_at info' r)) \<and>
          (srv_compared (srv_at info r) \<longrightarrow> srv_compared (srv_at info' r)) \<and>
          srv_scaler_type (srv_at info' r) = srv_scaler_type (srv_at info r)) \<and>
     (\<forall>r. (uav_read (uav_at info r) \<longrightarrow> uav_read (uav_at info' r)) \<and>
          (uav_written (uav_at info r) \<longrightarrow> uav_written (uav_at info' r)) \<and>
          (with_counter (uav_at info r) \<longrightarrow> with_counter (uav_at info' r)) \<and>
          uav_scaler_type (uav_at info' r) = uav_scaler_type (uav_at info r))"

lemma srv_at_mark [simp]: "srv_at (mark_srv f r info) r' = (if r' = r then f (srv_at info r) else srv_at info r')"
  by (simp add: srv_at_def mark_srv_def)

lemma uav_at_mark [simp]: "uav_at (mark_uav f r info) r' = (if r' = r then f (uav_at info r) else uav_at info r')"
  by (simp add: uav_at_def mark_uav_def)

lemma mark_other [simp]:
  "uav_at (mark_srv f r info) r' = uav_at info r'" "srv_at (mark_uav g r info) r' = srv_at info r'"
  "tempRegisterCount (mark_srv f r info) = tempRegisterCount info" "tempRegisterCount (mark_uav g r info) = tempRegisterCount info"
  "phases (mark_srv f r info) = phases info" "phases (mark_uav g r info) = phases info"
  "refactoringAllowed (mark_srv f r info) = refactoringAllowed info" "refactoringAllowed (mark_uav g r info) = refactoringAllowed info"
  by (simp_all add: uav_at_def srv_at_def mark_srv_def mark_uav_def)

lemma flag_other [simp]:
  "srv_at (info\<lparr>use_msad := b\<rparr>) r = srv_at info r" "uav_at (info\<lparr>use_msad := b\<rparr>) r = uav_at info r"
  "srv_at (info\<lparr>use_samplepos := b\<rparr>) r = srv_at info r" "uav_at (info\<lparr>use_samplepos := b\<rparr>) r = uav_at info r"
  "srv_at (info\<lparr>use_cmp_exch := b\<rparr>) r = srv_at info r" "uav_at (info\<lparr>use_cmp_exch := b\<rparr>) r = uav_at info r"
  "srv_at (info\<lparr>pull_mode_reg_mask := m\<rparr>) r = srv_at info r" "uav_at (info\<lparr>pull_mode_reg_mask := m\<rparr>) r = uav_at info r"
  "srv_at (info\<lparr>tempRegisterCount := n\<rparr>) r = srv_at info r" "uav_at (info\<lparr>tempRegisterCount := n\<rparr>) r = uav_at info r"
  by (simp_all add: uav_at_def srv_at_def)

text \<open>The marks that the access of an instruction asks for; \<open>InstCalcLOD\<close> has none in the code.\<close>

definition resource_marked :: "SrcOperandResource + SrcOperandUAV \<Rightarrow> ShaderInfo \<Rightarrow> bool" where
  "resource_marked r info = (case r of Inl res \<Rightarrow> srv_read (srv_at info (resource_range_id res))
     | Inr uav \<Rightarrow> uav_read (uav_at info (uav_range_id uav)))"

definition typeless_marked :: "typeless_src \<Rightarrow> ShaderInfo \<Rightarrow> bool" where
  "typeless_marked r info = (case r of TypelessResource res \<Rightarrow> srv_read (srv_at info (resource_range_id res))
     | TypelessUAV uav \<Rightarrow> uav_read (uav_at info (uav_range_id uav)) | TypelessTGSM _ \<Rightarrow> True)"

definition stored_marked :: "AtomicDstOperandUAV + AtomicOperandTGSM \<Rightarrow> ShaderInfo \<Rightarrow> bool" where
  "stored_marked u info = (case u of Inl uav \<Rightarrow> uav_written (uav_at info (atomic_range_id uav)) | Inr _ \<Rightarrow> True)"

definition atomic_marked :: "AtomicDstOperandUAV + AtomicOperandTGSM \<Rightarrow> ShaderInfo \<Rightarrow> bool" where
  "atomic_marked u info = (case u of
     Inl uav \<Rightarrow> uav_read (uav_at info (atomic_range_id uav)) \<and> uav_written (uav_at info (atomic_range_id uav)) | Inr _ \<Rightarrow> True)"

fun sample_marked :: "sample_inst \<Rightarrow> ShaderInfo \<Rightarrow> bool" where
  "sample_marked (InstSample d a r s off l fb) info \<longleftrightarrow> srv_sampled (srv_at info (resource_range_id r))"
| "sample_marked (InstSampleCompare d a r s c off l fb z) info \<longleftrightarrow> srv_compared (srv_at info (resource_range_id r))"
| "sample_marked (InstSampleBias d a r s b off l fb) info \<longleftrightarrow> srv_sampled (srv_at info (resource_range_id r))"
| "sample_marked (InstSampleDerivative d a r s x y off l fb) info \<longleftrightarrow> srv_sampled (srv_at info (resource_range_id r))"
| "sample_marked (InstSampleLOD d a r s l off fb) info \<longleftrightarrow> srv_sampled (srv_at info (resource_range_id r))"
| "sample_marked (InstGather d a r s off fb) info \<longleftrightarrow> srv_sampled (srv_at info (resource_range_id r))"
| "sample_marked (InstGatherCompare d a r s c off fb) info \<longleftrightarrow> srv_compared (srv_at info (resource_range_id r))"
| "sample_marked (InstCalcLOD d a r s) info \<longleftrightarrow> True"

fun info_marked :: "info_inst \<Rightarrow> ShaderInfo \<Rightarrow> bool" where
  "info_marked (InstBufferInfo d r) info \<longleftrightarrow> resource_marked r info"
| "info_marked (InstResourceInfo d l r m) info \<longleftrightarrow> resource_marked r info"
| "info_marked (InstSampleInfo d r u s) info \<longleftrightarrow> (case r of None \<Rightarrow> True | Some r \<Rightarrow> srv_read (srv_at info (resource_range_id r)))"
| "info_marked (InstSamplePos d r i s) info \<longleftrightarrow> (case r of None \<Rightarrow> True | Some r \<Rightarrow> srv_read (srv_at info (resource_range_id r)))"

fun memory_marked :: "memory_inst \<Rightarrow> ShaderInfo \<Rightarrow> bool" where
  "memory_marked (InstLoad d a r i off) info \<longleftrightarrow> srv_read (srv_at info (resource_range_id r))"
| "memory_marked (InstLoadRaw d off r v) info \<longleftrightarrow> typeless_marked r info"
| "memory_marked (InstLoadStructured d a off r v) info \<longleftrightarrow> typeless_marked r info"
| "memory_marked (InstLoadUAVTyped d a u) info \<longleftrightarrow> uav_read (uav_at info (uav_range_id u))"
| "memory_marked (InstStoreUAVTyped u a s) info \<longleftrightarrow> uav_written (uav_at info (atomic_range_id u))"
| "memory_marked (InstStoreRaw u off s) info \<longleftrightarrow> stored_marked u info"
| "memory_marked (InstStoreStructured u a off s) info \<longleftrightarrow> stored_marked u info"

fun atomic_inst_marked :: "atomic_inst \<Rightarrow> ShaderInfo \<Rightarrow> bool" where
  "atomic_inst_marked (InstAtomicBinOp op u a s d) info \<longleftrightarrow> atomic_marked u info"
| "atomic_inst_marked (InstAtomicImmIncrement d u) info \<longleftrightarrow> with_counter (uav_at info (atomic_range_id u))"
| "atomic_inst_marked (InstAtomicImmDecrement d u) info \<longleftrightarrow> with_counter (uav_at info (atomic_range_id u))"
| "atomic_inst_marked (InstAtomicImmCmpExchange d u a s0 s1) info \<longleftrightarrow> atomic_marked u info"

fun marked :: "Instruction \<Rightarrow> ShaderInfo \<Rightarrow> bool" where
  "marked (SampleOp i) info \<longleftrightarrow> sample_marked i info"
| "marked (InfoOp i) info \<longleftrightarrow> info_marked i info"
| "marked (MemoryOp i) info \<longleftrightarrow> memory_marked i info"
| "marked (AtomicOp i) info \<longleftrightarrow> atomic_inst_marked i info"
| "marked _ info \<longleftrightarrow> True"

definition marks :: "inst_reader \<Rightarrow> bool" where
  "marks p \<longleftrightarrow> (\<forall>I phase info i info'. p I phase info = Some (i, info') \<longrightarrow> marks_only info info' \<and> marked i info')"

lemmas mark_defs =
  mark_read_def mark_typeless_read_def mark_stored_def mark_atomic_def resource_marked_def typeless_marked_def
  stored_marked_def atomic_marked_def

lemmas marksI = marks_def marks_only_def bind_eq_Some_conv inst_reader_defs mark_defs

lemma marks_other:
  "marks read_mov" "marks read_movc" "marks read_swapc" "marks read_nop" "marks read_sync" "marks read_eval_centroid"
  "marks read_eval_sample" "marks read_eval_snapped"
  by (auto simp: marksI Let_def)

lemma marks_float:
  "marks (dot_product dim)" "marks (float_unary op1)" "marks (float_binary op2)" "marks float_mad" "marks sin_cos"
  "marks (float_compare cmp)" "marks (partial_derivative y c)"
  by (auto simp: marksI)

lemma marks_integer:
  "marks (integer_compare cmp)" "marks (integer_unary op1)" "marks (integer_binary op2)" "marks (integer_two_dst op3)"
  "marks (integer_mad sg)" "marks read_msad" "marks (read_extract_bits sg)" "marks bit_insert" "marks (convert_op op4 t f)"
  by (auto simp: marksI)

lemma marks_sample:
  "marks (read_sample sp)" "marks (read_sample_bias sp)" "marks (read_sample_derivative sp)" "marks (read_sample_lod sp)"
  "marks (read_sample_compare sp c z)"
  by (auto simp: marksI Let_def)

lemma marks_gather:
  "marks (read_gather sp)" "marks (read_gather_compare sp)" "marks (read_gather_po sp)" "marks (read_gather_po_compare sp)"
  "marks read_calc_lod"
  by (auto simp: marksI Let_def)

lemma mark_access_marks:
  "marks_only info (mark_read r info)" "resource_marked r (mark_read r info)"
  "marks_only info (mark_typeless_read t info)" "typeless_marked t (mark_typeless_read t info)"
  "marks_only info (mark_stored u info)" "stored_marked u (mark_stored u info)"
  "marks_only info (srv_set_read k info)" "marks_only (info\<lparr>use_samplepos := True\<rparr>) (srv_set_read k (info\<lparr>use_samplepos := True\<rparr>))"
  "marks_only info (uav_set_read k info)" "marks_only info (uav_set_written k info)"
  "marks_only info (case x of None \<Rightarrow> info | Some r \<Rightarrow> srv_set_read (resource_range_id r) info)"
  "marks_only info (case x of None \<Rightarrow> info\<lparr>use_samplepos := True\<rparr> | Some r \<Rightarrow> srv_set_read (resource_range_id r) (info\<lparr>use_samplepos := True\<rparr>))"
  by (auto simp: marks_only_def mark_defs split: sum.split typeless_src.split option.split)

lemma info_marks:
  "info_marked (InstSampleInfo d x u s) (case x of None \<Rightarrow> info | Some r \<Rightarrow> srv_set_read (resource_range_id r) info)"
  "info_marked (InstSamplePos d x l s) (case x of None \<Rightarrow> info | Some r \<Rightarrow> srv_set_read (resource_range_id r) info)"
  by (cases x; simp)+

lemma marks_info:
  "marks read_sample_info" "marks read_sample_pos" "marks read_bufinfo" "marks read_resinfo"
  unfolding marks_def inst_reader_defs Let_def
  by (clarsimp simp only: bind_eq_Some_conv option.inject prod.inject marked.simps mark_access_marks info_marks
      info_marked.simps(1,2) simp_thms; fastforce simp: mark_access_marks info_marks)+

lemma marks_memory:
  "marks (read_ld ms)" "marks read_ld_uav_typed" "marks read_store_uav_typed" "marks read_ld_raw" "marks read_ld_structured"
  "marks read_store_raw" "marks read_store_structured"
  by (auto simp: marks_def bind_eq_Some_conv inst_reader_defs Let_def mark_access_marks)

lemma mark_atomic_marks:
  "marks_only info (mark_atomic u info)" "marks_only info (mark_atomic u (info\<lparr>use_cmp_exch := True\<rparr>))"
  "atomic_marked u (mark_atomic u info)"
  by (auto simp: marks_only_def mark_atomic_def atomic_marked_def split: sum.split)

lemma marks_atomic:
  "marks (read_atomic op1)" "marks (read_imm_atomic op2)" "marks read_cmp_store" "marks read_cmp_exch"
  "marks (read_counter InstAtomicImmIncrement)" "marks (read_counter InstAtomicImmDecrement)"
  by (auto simp: marks_def bind_eq_Some_conv inst_reader_defs mark_atomic_marks) (auto simp: marks_only_def)

lemma all_cases_mark: "map_of all_cases opcode = Some p \<Longrightarrow> marks p"
proof -
  have "list_all (\<lambda>(opcode, p). marks p) all_cases"
    by (simp add: all_cases_def other_cases_def sample_cases_def memory_cases_def float_cases_def integer_cases_def
        integer_binary_cases_def conversion_cases_def derivative_cases_def atomic_cases_def imm_atomic_cases_def
        marks_other marks_float marks_integer marks_sample marks_gather marks_info marks_memory marks_atomic)
  then show "map_of all_cases opcode = Some p \<Longrightarrow> marks p" by (auto simp: list_all_iff dest!: map_of_SomeD)
qed

lemma marks_only_refl [simp]: "marks_only info info"
  by (simp add: marks_only_def)

lemma count_temps_keeps:
  "srv_at (count_temps is I info) r = srv_at info r" "uav_at (count_temps is I info) r = uav_at info r"
  "tempRegisterCount info \<le> tempRegisterCount (count_temps is I info)"
proof -
  show "srv_at (count_temps is I info) r = srv_at info r" by (induction "is" arbitrary: info) auto
  show "uav_at (count_temps is I info) r = uav_at info r" by (induction "is" arbitrary: info) auto
  show "tempRegisterCount info \<le> tempRegisterCount (count_temps is I info)"
  proof (induction "is" arbitrary: info)
    case (Cons i "is")
    show ?case using Cons.IH [of "info\<lparr>tempRegisterCount := max (tempRegisterCount info) (reg_index 0 (m_Operands I ! i) + 1)\<rparr>"] Cons.IH [of info]
      by (auto intro: order.trans)
  qed simp
qed

lemma count_temps_covers:
  "i \<in> set is \<Longrightarrow> m_Type (m_Operands I ! i) = OPERAND_TYPE_TEMP \<Longrightarrow>
   reg_index 0 (m_Operands I ! i) + 1 \<le> tempRegisterCount (count_temps is I info)"
proof (induction "is" arbitrary: info)
  case (Cons k "is")
  show ?case
  proof (cases "i = k")
    case True
    then show ?thesis
      using Cons.prems count_temps_keeps(3) [of "info\<lparr>tempRegisterCount := max (tempRegisterCount info) (reg_index 0 (m_Operands I ! k) + 1)\<rparr>" "is" I]
      by simp
  qed (use Cons in simp)
qed simp

lemma less_plus_one: "w \<noteq> - 1 \<Longrightarrow> w < w + (1 :: u32)"
proof -
  assume "w \<noteq> - 1"
  moreover have "w = - 1" if "unat w = 2 ^ 32 - 1" using arg_cong [OF that, of "of_nat :: nat \<Rightarrow> u32"] by simp
  moreover have "unat w < 2 ^ 32" by (rule order.strict_trans2 [OF unsigned_less]) simp
  ultimately have "unat w < 2 ^ 32 - 1" by linarith
  then show "w < w + 1" by (simp add: word_less_nat_alt unat_word_ariths)
qed

lemma readInstruction_cases:
  assumes "readInstruction I phase info = Some (i, info')"
  obtains p where "marks p" "p I phase (count_temps [0..<unat (i_NumOperands I)] I info) = Some (i, info')"
  using assms all_cases_mark by (auto simp: readInstruction_def split: option.splits)

text \<open>The marks of a list of instructions, read one after the other.\<close>

fun readInstructions :: "instruction list \<Rightarrow> u32 \<Rightarrow> ShaderInfo \<Rightarrow> (Instruction list \<times> ShaderInfo) option" where
  "readInstructions [] phase info = Some ([], info)"
| "readInstructions (I # Is) phase info =
     do { (i, info) \<leftarrow> readInstruction I phase info; (is, info) \<leftarrow> readInstructions Is phase info; Some (i # is, info) }"

definition marks_kept :: "ShaderInfo \<Rightarrow> ShaderInfo \<Rightarrow> bool" where
  "marks_kept info info' \<longleftrightarrow>
     (\<forall>r. (srv_read (srv_at info r) \<longrightarrow> srv_read (srv_at info' r)) \<and>
          (srv_sampled (srv_at info r) \<longrightarrow> srv_sampled (srv_at info' r)) \<and>
          (srv_compared (srv_at info r) \<longrightarrow> srv_compared (srv_at info' r)) \<and>
          (uav_read (uav_at info r) \<longrightarrow> uav_read (uav_at info' r)) \<and>
          (uav_written (uav_at info r) \<longrightarrow> uav_written (uav_at info' r)) \<and>
          (with_counter (uav_at info r) \<longrightarrow> with_counter (uav_at info' r)))"

lemma marks_kept_trans: "marks_kept a b \<Longrightarrow> marks_kept b c \<Longrightarrow> marks_kept a c"
  by (auto simp: marks_kept_def)

lemma marked_kept: "marked i info \<Longrightarrow> marks_kept info info' \<Longrightarrow> marked i info'"
proof (cases i)
  case (SampleOp x)
  then show "marked i info \<Longrightarrow> marks_kept info info' \<Longrightarrow> marked i info'" by (cases x) (auto simp: marks_kept_def)
next
  case (InfoOp x)
  then show "marked i info \<Longrightarrow> marks_kept info info' \<Longrightarrow> marked i info'"
    by (cases x) (auto simp: marks_kept_def resource_marked_def split: sum.splits option.splits)
next
  case (MemoryOp x)
  then show "marked i info \<Longrightarrow> marks_kept info info' \<Longrightarrow> marked i info'"
    by (cases x) (auto simp: marks_kept_def typeless_marked_def stored_marked_def split: sum.splits typeless_src.splits)
next
  case (AtomicOp x)
  then show "marked i info \<Longrightarrow> marks_kept info info' \<Longrightarrow> marked i info'"
    by (cases x) (auto simp: marks_kept_def atomic_marked_def split: sum.splits)
qed auto

lemma readInstruction_marks:
  assumes "readInstruction I phase info = Some (i, info')"
  shows "marks_kept info info'" and "marked i info'"
    and "tempRegisterCount info' = tempRegisterCount (count_temps [0..<unat (i_NumOperands I)] I info)"
proof -
  obtain p where p: "marks p" "p I phase (count_temps [0..<unat (i_NumOperands I)] I info) = Some (i, info')"
    using readInstruction_cases [OF assms] .
  then have m: "marks_only (count_temps [0..<unat (i_NumOperands I)] I info) info'" "marked i info'"
    unfolding marks_def by blast+
  show "marked i info'" by (rule m)
  show "marks_kept info info'" using m(1) by (simp add: marks_only_def marks_kept_def count_temps_keeps)
  show "tempRegisterCount info' = tempRegisterCount (count_temps [0..<unat (i_NumOperands I)] I info)"
    using m(1) by (simp add: marks_only_def)
qed

lemma readInstructions_marks:
  "readInstructions Is phase info = Some (is, info') \<Longrightarrow> marks_kept info info' \<and> (\<forall>i \<in> set is. marked i info')"
proof (induction Is arbitrary: info "is")
  case Nil
  then show ?case by (simp add: marks_kept_def)
next
  case (Cons I Is)
  then obtain i info1 is' where i: "readInstruction I phase info = Some (i, info1)"
      "readInstructions Is phase info1 = Some (is', info')" "is = i # is'"
    by (auto simp: bind_eq_Some_conv)
  note IH = Cons.IH [OF i(2)] and m = readInstruction_marks [OF i(1)]
  show ?case using IH m marks_kept_trans marked_kept i(3) by auto
qed

definition sample_ld :: instruction where
  "sample_ld = clear_instruction\<lparr>m_OpCode := D3D10_SB_OPCODE_LD, i_NumOperands := 3,
     m_Operands := [clear_operand\<lparr>m_IndexDimension := 1, m_WriteMask := 0xf0, m_Index := replicate 3 (clear_index\<lparr>m_RegIndex := 5\<rparr>)\<rparr>,
       clear_operand\<lparr>m_Type := 4, m_NumComponents := 1, m_Value := [7, 0, 0, 0]\<rparr>,
       clear_operand\<lparr>m_Type := 7, m_IndexDimension := 1, m_ComponentSelection := 2,
         m_Index := replicate 3 (clear_index\<lparr>m_RegIndex := 3, m_RelRegType := 4\<rparr>)\<rparr>]\<rparr>"

text \<open>The load of \<open>sample_ld\<close> as the compiler sees it.\<close>

definition sample_load :: Instruction where
  "sample_load = MemoryOp (InstLoad (DstOperandTemp \<lparr>write_mask = 15, write_type = Float\<rparr> 5 0)
     (SrcOperandImmediate32 \<lparr>swizzle = swizzle_identity, absolute = False, negate = False, read_type = Integer\<rparr> [7, 7, 7, 7])
     \<lparr>resource_range_id = 3, resource_index = RegisterIndex 3, resource_read_swizzle = \<lparr>swz_x = 0, swz_y = 0, swz_z = 0, swz_w = 0\<rparr>\<rparr>
     None [0, 0, 0])"

lemma replicate_4: "replicate 4 x = [x, x, x, x]"
  by (simp add: eval_nat_numeral)

lemma sample_ld_reads:
  "readInstruction sample_ld 0 new_info = Some (sample_load, srv_set_read 3 (new_info\<lparr>tempRegisterCount := 6\<rparr>))"
  by (simp add: readInstruction_def all_cases_def other_cases_def sample_cases_def memory_cases_def map_of_append map_add_def
      sample_ld_def sample_load_def read_ld_def read_resource_def readSrcOperandResource_def assert_dxbc_def index_at_def
      readOperandIndex_def readSrcOperandSwizzle_def read_dst_def readDstOperand_def read_src_def readSrcOperand_def
      read_immediate32_def reg_index_def texel_offsets_def clear_instruction_def clear_operand_def clear_index_def
      data_type_of_def srv_at_def new_info_def new_srv_def upt_rec replicate_4)

text \<open>
  The query of the level of detail is the one access that leaves no mark: the code of the case
  \<open>LOD\<close> has none.
\<close>

lemma lod_unmarked:
  assumes "m_OpCode I = D3D10_1_SB_OPCODE_LOD" "readInstruction I phase info = Some (i, info')"
  shows "srv_at info' r = srv_at info r"
proof -
  have "map_of all_cases D3D10_1_SB_OPCODE_LOD = Some read_calc_lod"
    by (simp add: all_cases_def other_cases_def sample_cases_def map_of_append map_add_def)
  then show ?thesis using assms
    by (auto simp: readInstruction_def read_calc_lod_def bind_eq_Some_conv count_temps_keeps)
qed

section \<open>Properties\<close>

text \<open>
  C38. \<open>readInstruction\<close> looks only at the operand slots that the opcode table gives the
  instruction: an instruction whose other slots are changed in any way reads the same, so that
  the slots that the parser leaves cleared never reach the compiler.
\<close>

theorem operands_within_table:
  assumes "\<forall>k < unat (m_NumOperands (g_InstructionInfo (m_OpCode I))). ops ! k = m_Operands I ! k"
    and "unat (i_NumOperands I) \<le> unat (m_NumOperands (g_InstructionInfo (m_OpCode I)))"
  shows "readInstruction (I\<lparr>m_Operands := ops\<rparr>) phase info = readInstruction I phase info"
proof (cases "map_of all_cases (m_OpCode I)")
  case None
  then show ?thesis by (simp add: readInstruction_def)
next
  case (Some p)
  have "needs (operand_count (m_OpCode I)) p" using Some by (rule all_cases_covered)
  moreover have "same_operands (operand_count (m_OpCode I)) I (I\<lparr>m_Operands := ops\<rparr>)"
    using assms(1) unfolding same_operands_def operand_count_def by blast
  ultimately have "p (I\<lparr>m_Operands := ops\<rparr>) phase info' = p I phase info'" for info' by (simp add: needs_def)
  then show ?thesis using Some assms count_temps_same [of "[0..<unat (i_NumOperands I)]" ops I info]
    by (simp add: readInstruction_def)
qed

definition sample_mov :: instruction where
  "sample_mov = clear_instruction\<lparr>m_OpCode := D3D10_SB_OPCODE_MOV, i_NumOperands := 2,
     m_Operands := [clear_operand\<lparr>m_IndexDimension := 1, m_WriteMask := 0xf0, m_Index := replicate 3 (clear_index\<lparr>m_RegIndex := 5\<rparr>)\<rparr>,
       clear_operand\<lparr>m_Type := 4, m_NumComponents := 1, m_Value := [7, 0, 0, 0]\<rparr>]\<rparr>"

lemma mov_operands: "m_NumOperands (g_InstructionInfo D3D10_SB_OPCODE_MOV) = 2"
  by code_simp

lemma less_two: "(\<forall>k < 2 :: nat. P k) \<longleftrightarrow> P 0 \<and> P (Suc 0)"
  by (auto simp: less_Suc_eq numeral_2_eq_2)

theorem operands_within_table_witness:
  "readInstruction (sample_mov\<lparr>m_Operands := take 2 (m_Operands sample_mov) @ [clear_operand\<lparr>m_Type := 99\<rparr>]\<rparr>) (- 1) new_info =
   readInstruction sample_mov (- 1) new_info"
  by (rule operands_within_table) (simp_all add: sample_mov_def mov_operands less_two)





end
