(* ===== verification/ControlFlow.thy ===== *)
theory ControlFlow
  imports ShaderInstructions "HOL-Library.While_Combinator"
begin

text \<open>
  The control flow of a shader, \<open>src/airconv/dxbc_converter_cfg.cpp\<close>: the loop that reads one
  instruction after the other turns the structured instructions into a graph of basic blocks,
  records the declarations, and inlines the calls of functions.  Blocks are numbered in the
  order in which \<open>fresh_bb\<close> creates them, from 1; number 0 is \<open>bb_void\<close>, which collects what
  follows a jump and is not part of the result.  Names of blocks are left out.  The empty stack,
  a pointer into a target that was assigned again and a broken assertion are \<open>None\<close>.
\<close>

section \<open>Basic blocks\<close>

datatype block_target =
    ConditionalBranch BasicBlockCondition nat nat
  | UnconditionalBranch nat
  | SwitchTarget SrcOperand "(u32 \<times> nat) list" nat
  | ReturnTarget
  | InstanceBarrier u32 nat nat
  | HullShaderWriteOutput u32 nat
  | CallTarget u32 nat
  | UndefinedTarget

record basic_block =
  block_instructions :: "Instruction list"
  block_target :: block_target

definition new_block :: basic_block where
  "new_block = \<lparr>block_instructions = [], block_target = UndefinedTarget\<rparr>"

text \<open>
  The local variables of \<open>read_control_flow\<close>.  The stacks have their top first.  The pointers to
  a switch, an instance barrier or a call point into the target of a block: the number of that
  block stands for them.
\<close>

record flow_graph =
  bbs :: "basic_block list"
  bb_current :: nat
  bb_endif :: "nat list"
  bb_continue_target :: "nat list"
  bb_break_target :: "nat list"
  switch_ctx :: "nat list"
  instance_ctx :: "nat list"
  func_return_point :: "nat option"
  func_entries :: "u32 \<rightharpoonup> nat"
  call_targets :: "nat list"

abbreviation (input) bb_void :: nat where "bb_void \<equiv> 0"
abbreviation (input) bb_entry :: nat where "bb_entry \<equiv> 1"
abbreviation (input) bb_return :: nat where "bb_return \<equiv> 2"

definition start_graph :: flow_graph where
  "start_graph = \<lparr>bbs = [new_block, new_block, new_block\<lparr>block_target := ReturnTarget\<rparr>], bb_current = bb_entry,
     bb_endif = [], bb_continue_target = [], bb_break_target = [], switch_ctx = [], instance_ctx = [],
     func_return_point = None, func_entries = Map.empty, call_targets = []\<rparr>"

definition fresh_bb :: "flow_graph \<Rightarrow> nat \<times> flow_graph" where
  "fresh_bb g = (length (bbs g), g\<lparr>bbs := bbs g @ [new_block]\<rparr>)"

definition set_target :: "nat \<Rightarrow> block_target \<Rightarrow> flow_graph \<Rightarrow> flow_graph" where
  "set_target n t g = g\<lparr>bbs := (bbs g)[n := (bbs g ! n)\<lparr>block_target := t\<rparr>]\<rparr>"

definition add_instructions :: "nat \<Rightarrow> Instruction list \<Rightarrow> flow_graph \<Rightarrow> flow_graph" where
  "add_instructions n is g =
     g\<lparr>bbs := (bbs g)[n := (bbs g ! n)\<lparr>block_instructions := block_instructions (bbs g ! n) @ is\<rparr>]\<rparr>"

abbreviation target_of :: "flow_graph \<Rightarrow> nat \<Rightarrow> block_target" where
  "target_of g n \<equiv> block_target (bbs g ! n)"

text \<open>Ends the current block with a target and goes on in another block.\<close>

definition end_block :: "block_target \<Rightarrow> nat \<Rightarrow> flow_graph \<Rightarrow> flow_graph" where
  "end_block t n g = (set_target (bb_current g) t g)\<lparr>bb_current := n\<rparr>"

section \<open>Structured control flow\<close>

text \<open>What one instruction asks of the graph; \<open>Straight\<close> are the instructions of a block.\<close>

datatype flow_event =
    Straight "Instruction list"
  | E_If BasicBlockCondition | E_Else | E_EndIf
  | E_Loop | E_EndLoop | E_Break | E_Continue
  | E_BreakC BasicBlockCondition | E_ContinueC BasicBlockCondition
  | E_Switch SrcOperand | E_Case u32 | E_Default | E_EndSwitch
  | E_Ret | E_RetC BasicBlockCondition | E_Discard BasicBlockCondition
  | E_ControlPointPhase u32 | E_ForkJoinPhase | E_InstanceCount u32
  | E_Label u32 | E_Call u32 | E_CallC BasicBlockCondition u32

definition flow_if :: "BasicBlockCondition \<Rightarrow> flow_graph \<Rightarrow> flow_graph option" where
  "flow_if c g =
     (let (if_true, g) = fresh_bb g; (end_if, g) = fresh_bb g
      in Some (end_block (ConditionalBranch c if_true end_if) if_true (g\<lparr>bb_endif := end_if # bb_endif g\<rparr>)))"

definition flow_else :: "flow_graph \<Rightarrow> flow_graph option" where
  "flow_else g =
     (let (end_if, g) = fresh_bb g
      in case bb_endif g of [] \<Rightarrow> None
         | alternative # rest \<Rightarrow> Some ((end_block (UnconditionalBranch end_if) alternative g)\<lparr>bb_endif := end_if # rest\<rparr>))"

definition flow_endif :: "flow_graph \<Rightarrow> flow_graph option" where
  "flow_endif g =
     (case bb_endif g of [] \<Rightarrow> None
      | end_if # rest \<Rightarrow> Some ((end_block (UnconditionalBranch end_if) end_if g)\<lparr>bb_endif := rest\<rparr>))"

definition flow_loop :: "flow_graph \<Rightarrow> flow_graph option" where
  "flow_loop g =
     (let (loop_entrance, g) = fresh_bb g; (end_loop, g) = fresh_bb g
      in Some (end_block (UnconditionalBranch loop_entrance) loop_entrance
           (g\<lparr>bb_continue_target := loop_entrance # bb_continue_target g, bb_break_target := end_loop # bb_break_target g\<rparr>)))"

definition flow_endloop :: "flow_graph \<Rightarrow> flow_graph option" where
  "flow_endloop g =
     (case (bb_continue_target g, bb_break_target g) of
        (c # cs, b # bs) \<Rightarrow> Some ((end_block (UnconditionalBranch c) b g)\<lparr>bb_continue_target := cs, bb_break_target := bs\<rparr>)
      | _ \<Rightarrow> None)"

definition flow_break :: "flow_graph \<Rightarrow> flow_graph option" where
  "flow_break g = (case bb_break_target g of [] \<Rightarrow> None | b # _ \<Rightarrow> Some (end_block (UnconditionalBranch b) bb_void g))"

definition flow_continue :: "flow_graph \<Rightarrow> flow_graph option" where
  "flow_continue g = (case bb_continue_target g of [] \<Rightarrow> None | c # _ \<Rightarrow> Some (end_block (UnconditionalBranch c) bb_void g))"

text \<open>A conditional jump to \<open>n\<close> that goes on in a fresh block: \<open>breakc\<close>, \<open>continuec\<close>, \<open>retc\<close>.\<close>

definition jump_if :: "BasicBlockCondition \<Rightarrow> nat \<Rightarrow> flow_graph \<Rightarrow> flow_graph" where
  "jump_if c n g = (let (after_jump, g) = fresh_bb g in end_block (ConditionalBranch c n after_jump) after_jump g)"

definition flow_breakc :: "BasicBlockCondition \<Rightarrow> flow_graph \<Rightarrow> flow_graph option" where
  "flow_breakc c g = (case bb_break_target g of [] \<Rightarrow> None | b # _ \<Rightarrow> Some (jump_if c b g))"

definition flow_continuec :: "BasicBlockCondition \<Rightarrow> flow_graph \<Rightarrow> flow_graph option" where
  "flow_continuec c g = (case bb_continue_target g of [] \<Rightarrow> None | n # _ \<Rightarrow> Some (jump_if c n g))"

definition flow_switch :: "SrcOperand \<Rightarrow> flow_graph \<Rightarrow> flow_graph option" where
  "flow_switch v g =
     (let (end_switch, g) = fresh_bb g
      in Some (end_block (SwitchTarget v [] end_switch) bb_void
           (g\<lparr>bb_break_target := end_switch # bb_break_target g, switch_ctx := bb_current g # switch_ctx g\<rparr>)))"

text \<open>\<open>std::map::insert\<close> keeps an entry that is there already.\<close>

definition insert_case :: "u32 \<Rightarrow> nat \<Rightarrow> (u32 \<times> nat) list \<Rightarrow> (u32 \<times> nat) list" where
  "insert_case v n cases = (if v \<in> fst ` set cases then cases else insort_key fst (v, n) cases)"

definition flow_case :: "u32 \<Rightarrow> flow_graph \<Rightarrow> flow_graph option" where
  "flow_case v g =
     (let (case_body, g) = fresh_bb g
      in case switch_ctx g of [] \<Rightarrow> None
         | sw # _ \<Rightarrow> (case target_of g sw of
             SwitchTarget x cases d \<Rightarrow>
               Some (end_block (UnconditionalBranch case_body) case_body
                 (set_target sw (SwitchTarget x (insert_case v case_body cases) d) g))
           | _ \<Rightarrow> None))"

definition flow_default :: "flow_graph \<Rightarrow> flow_graph option" where
  "flow_default g =
     (let (case_default, g) = fresh_bb g
      in case switch_ctx g of [] \<Rightarrow> None
         | sw # _ \<Rightarrow> (case target_of g sw of
             SwitchTarget x cases _ \<Rightarrow>
               Some (end_block (UnconditionalBranch case_default) case_default
                 (set_target sw (SwitchTarget x cases case_default) g))
           | _ \<Rightarrow> None))"

definition flow_endswitch :: "flow_graph \<Rightarrow> flow_graph option" where
  "flow_endswitch g =
     (case (bb_break_target g, switch_ctx g) of
        (b # bs, _ # sws) \<Rightarrow> Some ((end_block (UnconditionalBranch b) b g)\<lparr>bb_break_target := bs, switch_ctx := sws\<rparr>)
      | _ \<Rightarrow> None)"

text \<open>
  Where a return goes: the end of the function, the end of the phase of a hull shader, or the
  end of the shader.
\<close>

definition ret_target :: "flow_graph \<Rightarrow> nat option" where
  "ret_target g =
     (case func_return_point g of
        Some n \<Rightarrow> Some n
      | None \<Rightarrow> (case instance_ctx g of
          [] \<Rightarrow> Some bb_return
        | n # _ \<Rightarrow> (case target_of g n of InstanceBarrier _ _ sync \<Rightarrow> Some sync | _ \<Rightarrow> None)))"

definition flow_ret :: "flow_graph \<Rightarrow> flow_graph option" where
  "flow_ret g =
     (case ret_target g of
        None \<Rightarrow> None
      | Some n \<Rightarrow>
          Some (if bb_break_target g = [] \<and> bb_endif g = [] then
                  if func_return_point g \<noteq> None then
                    (end_block (UnconditionalBranch n) bb_return g)\<lparr>func_return_point := None\<rparr>
                  else (end_block (UnconditionalBranch n) n g)\<lparr>instance_ctx := tl (instance_ctx g)\<rparr>
                else end_block (UnconditionalBranch n) bb_void g))"

definition flow_retc :: "BasicBlockCondition \<Rightarrow> flow_graph \<Rightarrow> flow_graph option" where
  "flow_retc c g = map_option (\<lambda>n. jump_if c n g) (ret_target g)"

definition flow_discard :: "BasicBlockCondition \<Rightarrow> flow_graph \<Rightarrow> flow_graph option" where
  "flow_discard c g =
     (let (fulfilled, g) = fresh_bb g; (otherwise, g) = fresh_bb g;
          g = end_block (ConditionalBranch c fulfilled otherwise) otherwise g
      in Some (add_instructions fulfilled [OtherOp InstPixelDiscard] (set_target fulfilled (UnconditionalBranch otherwise) g)))"

text \<open>
  The phases of a hull shader: the first \<open>n\<close> threads of a patch run the phase, then all of them
  meet at a barrier.
\<close>

definition flow_phase :: "u32 \<Rightarrow> flow_graph \<Rightarrow> flow_graph option" where
  "flow_phase n g =
     (let (active, g) = fresh_bb g; (sync, g) = fresh_bb g;
          g = add_instructions sync [OtherOp (InstSync no_boundary True True)] g
      in Some (end_block (InstanceBarrier n active sync) active (g\<lparr>instance_ctx := bb_current g # instance_ctx g\<rparr>)))"

definition flow_instance_count :: "u32 \<Rightarrow> flow_graph \<Rightarrow> flow_graph option" where
  "flow_instance_count n g =
     (case instance_ctx g of [] \<Rightarrow> None
      | b # _ \<Rightarrow> (case target_of g b of
          InstanceBarrier _ active sync \<Rightarrow> Some (set_target b (InstanceBarrier n active sync) g)
        | _ \<Rightarrow> None))"

text \<open>Functions and their calls.\<close>

definition flow_label :: "u32 \<Rightarrow> flow_graph \<Rightarrow> flow_graph option" where
  "flow_label f g =
     (let (func_body, g) = fresh_bb g; (func_end, g) = fresh_bb g; g = set_target func_end ReturnTarget g
      in Some (g\<lparr>func_entries := (func_entries g)(f \<mapsto> func_body), func_return_point := Some func_end,
                 bb_current := func_body\<rparr>))"

definition flow_call :: "u32 \<Rightarrow> flow_graph \<Rightarrow> flow_graph option" where
  "flow_call f g =
     (let (after_call, g) = fresh_bb g
      in Some (end_block (CallTarget f after_call) after_call (g\<lparr>call_targets := call_targets g @ [bb_current g]\<rparr>)))"

text \<open>\<open>std::get<BasicBlockCall>\<close> throws when the target is no call.\<close>

definition flow_callc :: "BasicBlockCondition \<Rightarrow> u32 \<Rightarrow> flow_graph \<Rightarrow> flow_graph option" where
  "flow_callc c f g =
     (let (if_true, g) = fresh_bb g; (after_callc, g) = fresh_bb g;
          g = set_target (bb_current g) (ConditionalBranch c if_true after_callc) g
      in case target_of g (bb_current g) of
           CallTarget _ _ \<Rightarrow>
             Some ((set_target if_true (CallTarget f after_callc)
               (g\<lparr>call_targets := call_targets g @ [bb_current g]\<rparr>))\<lparr>bb_current := after_callc\<rparr>)
         | _ \<Rightarrow> None)"

fun graph_step :: "flow_event \<Rightarrow> flow_graph \<Rightarrow> flow_graph option" where
  "graph_step (Straight is) = (\<lambda>g. Some (add_instructions (bb_current g) is g))"
| "graph_step (E_If c) = flow_if c"
| "graph_step E_Else = flow_else"
| "graph_step E_EndIf = flow_endif"
| "graph_step E_Loop = flow_loop"
| "graph_step E_EndLoop = flow_endloop"
| "graph_step E_Break = flow_break"
| "graph_step E_Continue = flow_continue"
| "graph_step (E_BreakC c) = flow_breakc c"
| "graph_step (E_ContinueC c) = flow_continuec c"
| "graph_step (E_Switch v) = flow_switch v"
| "graph_step (E_Case v) = flow_case v"
| "graph_step E_Default = flow_default"
| "graph_step E_EndSwitch = flow_endswitch"
| "graph_step E_Ret = flow_ret"
| "graph_step (E_RetC c) = flow_retc c"
| "graph_step (E_Discard c) = flow_discard c"
| "graph_step (E_ControlPointPhase n) = flow_phase n"
| "graph_step E_ForkJoinPhase = flow_phase 1"
| "graph_step (E_InstanceCount n) = flow_instance_count n"
| "graph_step (E_Label f) = flow_label f"
| "graph_step (E_Call f) = flow_call f"
| "graph_step (E_CallC c f) = flow_callc c f"

fun graph_steps :: "flow_event list \<Rightarrow> flow_graph \<Rightarrow> flow_graph option" where
  "graph_steps [] g = Some g"
| "graph_steps (e # es) g = (case graph_step e g of None \<Rightarrow> None | Some g \<Rightarrow> graph_steps es g)"

end
