(* ===== verification/ShaderDeclarations.thy ===== *)
theory ShaderDeclarations
  imports ShaderInstructions
begin

text \<open>
  The declarations of a shader: the cases of \<open>read_control_flow\<close> in
  \<open>src/airconv/dxbc_converter_cfg.cpp\<close> that record bindings, registers, thread group memory and
  the fixed-function parameters of a stage, and \<open>SM50ShaderInternal\<close> of \<open>dxbc_converter.hpp\<close>
  with what these cases write.  \<open>None\<close> is a broken assertion.  The declarations of input and
  output registers, \<open>dxbc_signature.cpp\<close>, are an argument where they are called.
\<close>

section \<open>Opcodes\<close>

abbreviation D3D10_SB_OPCODE_ELSE :: u32 where "D3D10_SB_OPCODE_ELSE \<equiv> 18"
abbreviation D3D10_SB_OPCODE_ENDIF :: u32 where "D3D10_SB_OPCODE_ENDIF \<equiv> 21"
abbreviation D3D10_SB_OPCODE_LOOP :: u32 where "D3D10_SB_OPCODE_LOOP \<equiv> 48"
abbreviation D3D10_SB_OPCODE_ENDLOOP :: u32 where "D3D10_SB_OPCODE_ENDLOOP \<equiv> 22"
abbreviation D3D10_SB_OPCODE_BREAK :: u32 where "D3D10_SB_OPCODE_BREAK \<equiv> 2"
abbreviation D3D10_SB_OPCODE_CONTINUE :: u32 where "D3D10_SB_OPCODE_CONTINUE \<equiv> 7"
abbreviation D3D10_SB_OPCODE_SWITCH :: u32 where "D3D10_SB_OPCODE_SWITCH \<equiv> 76"
abbreviation D3D10_SB_OPCODE_CASE :: u32 where "D3D10_SB_OPCODE_CASE \<equiv> 6"
abbreviation D3D10_SB_OPCODE_DEFAULT :: u32 where "D3D10_SB_OPCODE_DEFAULT \<equiv> 10"
abbreviation D3D10_SB_OPCODE_ENDSWITCH :: u32 where "D3D10_SB_OPCODE_ENDSWITCH \<equiv> 23"
abbreviation D3D10_SB_OPCODE_RET :: u32 where "D3D10_SB_OPCODE_RET \<equiv> 62"
abbreviation D3D10_SB_OPCODE_LABEL :: u32 where "D3D10_SB_OPCODE_LABEL \<equiv> 44"
abbreviation D3D10_SB_OPCODE_CALL :: u32 where "D3D10_SB_OPCODE_CALL \<equiv> 4"
abbreviation D3D10_SB_OPCODE_EMIT :: u32 where "D3D10_SB_OPCODE_EMIT \<equiv> 19"
abbreviation D3D10_SB_OPCODE_EMITTHENCUT :: u32 where "D3D10_SB_OPCODE_EMITTHENCUT \<equiv> 20"
abbreviation D3D10_SB_OPCODE_CUT :: u32 where "D3D10_SB_OPCODE_CUT \<equiv> 9"
abbreviation D3D11_SB_OPCODE_HS_DECLS :: u32 where "D3D11_SB_OPCODE_HS_DECLS \<equiv> 113"
abbreviation D3D11_SB_OPCODE_HS_CONTROL_POINT_PHASE :: u32 where "D3D11_SB_OPCODE_HS_CONTROL_POINT_PHASE \<equiv> 114"
abbreviation D3D11_SB_OPCODE_HS_FORK_PHASE :: u32 where "D3D11_SB_OPCODE_HS_FORK_PHASE \<equiv> 115"
abbreviation D3D11_SB_OPCODE_HS_JOIN_PHASE :: u32 where "D3D11_SB_OPCODE_HS_JOIN_PHASE \<equiv> 116"
abbreviation D3D11_SB_OPCODE_EMIT_STREAM :: u32 where "D3D11_SB_OPCODE_EMIT_STREAM \<equiv> 117"
abbreviation D3D11_SB_OPCODE_CUT_STREAM :: u32 where "D3D11_SB_OPCODE_CUT_STREAM \<equiv> 118"
abbreviation D3D11_SB_OPCODE_EMITTHENCUT_STREAM :: u32 where "D3D11_SB_OPCODE_EMITTHENCUT_STREAM \<equiv> 119"

section \<open>The shader\<close>

text \<open>
  \<open>func_signature\<close> is represented by the two members that the cases set.  The factor of the
  tessellation is kept as the bits of its \<open>float\<close>; the default is \<open>64.0f\<close>.
\<close>

record sm50_shader =
  shader_info :: ShaderInfo
  shader_type :: u32
  threadgroup_size :: "u32 \<times> u32 \<times> u32"
  input_control_point_count :: u32
  output_control_point_count :: u32
  tessellation_partition :: u32
  max_tesselation_factor :: u32
  tessellator_output_primitive :: u32
  tessellation_domain :: u32
  hull_maximum_threads_per_patch :: u32
  gs_input_primitive :: u32
  gs_output_topology :: u32
  gs_max_vertex_output :: u32
  gs_instance_count :: u32
  max_work_group_size :: u32
  early_fragment_tests :: bool

definition new_shader :: "u32 \<Rightarrow> sm50_shader" where
  "new_shader ty = \<lparr>shader_info = new_info, shader_type = ty, threadgroup_size = (0, 0, 0),
     input_control_point_count = - 1, output_control_point_count = - 1, tessellation_partition = 0,
     max_tesselation_factor = 0x42800000, tessellator_output_primitive = 0, tessellation_domain = 0,
     hull_maximum_threads_per_patch = 0, gs_input_primitive = 0, gs_output_topology = 0,
     gs_max_vertex_output = 0, gs_instance_count = 1, max_work_group_size = 0, early_fragment_tests = False\<rparr>"

type_synonym decl_reader = "instruction \<Rightarrow> u32 \<Rightarrow> sm50_shader \<Rightarrow> sm50_shader option"

definition on_info :: "(ShaderInfo \<Rightarrow> ShaderInfo) \<Rightarrow> sm50_shader \<Rightarrow> sm50_shader" where
  "on_info f s = s\<lparr>shader_info := f (shader_info s)\<rparr>"

section \<open>Bindings\<close>

definition to_shader_resource_type :: "u32 \<Rightarrow> ResourceType option" where
  "to_shader_resource_type dim =
     (if dim = 0 \<or> dim = 1 \<or> dim = 11 \<or> dim = 12 then Some TextureBuffer
      else if dim = 2 then Some Texture1D
      else if dim = 3 then Some Texture2D
      else if dim = 4 then Some Texture2DMultisampled
      else if dim = 5 then Some Texture3D
      else if dim = 6 then Some TextureCube
      else if dim = 7 then Some Texture1DArray
      else if dim = 8 then Some Texture2DArray
      else if dim = 9 then Some Texture2DMultisampledArray
      else if dim = 10 then Some TextureCubeArray
      else None)"

definition to_shader_scaler_type :: "u32 \<Rightarrow> ScalerDataType option" where
  "to_shader_scaler_type ty =
     (if ty = 1 \<or> ty = 2 \<or> ty = 5 then Some ScalerFloat
      else if ty = 3 then Some ScalerInt
      else if ty = 4 \<or> ty = 6 then Some ScalerUint
      else None)"

text \<open>
  The range of registers of a binding: a single register of the older models, or the bounds of
  the second and third index, where the upper bound \<open>UINT_MAX\<close> is an unbounded range.
\<close>

definition bounded_range :: "operand \<Rightarrow> u32 \<times> u32" where
  "bounded_range O' =
     (reg_index 1 O', if reg_index 2 O' \<noteq> - 1 then reg_index 2 O' - reg_index 1 O' + 1 else - 1)"

definition declared_range :: "u32 \<Rightarrow> operand \<Rightarrow> (u32 \<times> u32) option" where
  "declared_range single O' =
     (if m_IndexDimension O' = single then Some (reg_index 0 O', 1)
      else if m_IndexDimension O' = 3 then Some (bounded_range O')
      else None)"

definition versioned_range :: "bool \<Rightarrow> operand \<Rightarrow> u32 \<times> u32" where
  "versioned_range sm_ver_5_1 O' = (if sm_ver_5_1 then bounded_range O' else (reg_index 0 O', 1))"

definition range_of :: "operand \<Rightarrow> u32 \<times> u32 \<Rightarrow> u32 \<Rightarrow> ResourceRange" where
  "range_of O' r space = \<lparr>range_id = reg_index 0 O', lower_bound = fst r, range_size = snd r, range_space = space\<rparr>"

definition dcl_constant_buffer :: decl_reader where
  "dcl_constant_buffer Inst phase s =
     (let O' = m_Operands Inst ! 0
      in case m_Extra Inst of
           Register (ConstantBufferDecl _ vec4s space) \<Rightarrow>
             do { r \<leftarrow> declared_range 2 O';
                  Some (on_info (\<lambda>info. info\<lparr>cbufferMap := (cbufferMap info)(reg_index 0 O' \<mapsto>
                    \<lparr>cbuffer_range = range_of O' r space, size_in_vec4 = vec4s\<rparr>)\<rparr>) s) }
         | _ \<Rightarrow> None)"

definition dcl_sampler :: decl_reader where
  "dcl_sampler Inst phase s =
     (let O' = m_Operands Inst ! 0
      in case m_Extra Inst of
           Register (SamplerDecl _ space) \<Rightarrow>
             do { r \<leftarrow> declared_range 1 O';
                  Some (on_info (\<lambda>info. info\<lparr>samplerMap := (samplerMap info)(reg_index 0 O' \<mapsto>
                    \<lparr>sampler_range = range_of O' r space\<rparr>)\<rparr>) s) }
         | _ \<Rightarrow> None)"

text \<open>The type, the scalar type, the stride, the space and the flags of a resource or a view.\<close>

definition resource_decl :: "extra \<Rightarrow> (ResourceType \<times> ScalerDataType \<times> u32 \<times> u32) option" where
  "resource_decl e =
     (case e of
        Register (ResourceDecl dim rets _ space) \<Rightarrow>
          do { t \<leftarrow> to_shader_resource_type dim; c \<leftarrow> to_shader_scaler_type (rets ! 0); Some (t, c, - 1, space) }
      | Memory (RawSRVDecl space) \<Rightarrow> Some (NonApplicable, ScalerUint, 0, space)
      | Memory (StructuredSRVDecl stride space) \<Rightarrow> Some (NonApplicable, ScalerUint, stride, space)
      | _ \<Rightarrow> None)"

definition dcl_resource :: "bool \<Rightarrow> decl_reader" where
  "dcl_resource sm_ver_5_1 Inst phase s =
     (let O' = m_Operands Inst ! 0 in
      do { (t, c, stride, space) \<leftarrow> resource_decl (m_Extra Inst);
           Some (on_info (\<lambda>info. info\<lparr>srvMap := (srvMap info)(reg_index 0 O' \<mapsto>
             \<lparr>srv_range = range_of O' (versioned_range sm_ver_5_1 O') space, srv_scaler_type = c, srv_resource_type = t,
              srv_read = False, srv_sampled = False, srv_compared = False, srv_structure_stride = stride\<rparr>)\<rparr>) s) })"

abbreviation D3D11_SB_GLOBALLY_COHERENT_ACCESS :: u32 where "D3D11_SB_GLOBALLY_COHERENT_ACCESS \<equiv> 0x00010000"
abbreviation D3D11_SB_RASTERIZER_ORDERED_ACCESS :: u32 where "D3D11_SB_RASTERIZER_ORDERED_ACCESS \<equiv> 0x00020000"

definition view_decl :: "extra \<Rightarrow> (ResourceType \<times> ScalerDataType \<times> u32 \<times> u32 \<times> u32) option" where
  "view_decl e =
     (case e of
        Memory (TypedUAVDecl dim rets flags space) \<Rightarrow>
          do { t \<leftarrow> to_shader_resource_type dim; c \<leftarrow> to_shader_scaler_type (rets ! 0); Some (t, c, - 1, flags, space) }
      | Memory (RawUAVDecl flags space) \<Rightarrow> Some (NonApplicable, ScalerUint, 0, flags, space)
      | Memory (StructuredUAVDecl stride flags space) \<Rightarrow> Some (NonApplicable, ScalerUint, stride, flags, space)
      | _ \<Rightarrow> None)"

definition dcl_view :: "bool \<Rightarrow> decl_reader" where
  "dcl_view sm_ver_5_1 Inst phase s =
     (let O' = m_Operands Inst ! 0 in
      do { (t, c, stride, flags, space) \<leftarrow> view_decl (m_Extra Inst);
           Some (on_info (\<lambda>info. info\<lparr>uavMap := (uavMap info)(reg_index 0 O' \<mapsto>
             \<lparr>uav_range = range_of O' (versioned_range sm_ver_5_1 O') space, uav_scaler_type = c, uav_resource_type = t,
              uav_read = False, uav_written = False,
              global_coherent = (flags AND D3D11_SB_GLOBALLY_COHERENT_ACCESS \<noteq> 0),
              rasterizer_order = (flags AND D3D11_SB_RASTERIZER_ORDERED_ACCESS \<noteq> 0),
              with_counter = False, uav_structure_stride = stride\<rparr>)\<rparr>) s) })"

section \<open>Registers and thread group memory\<close>

text \<open>In a fork or join phase the temporary registers are those of the phase.\<close>

definition dcl_temps :: decl_reader where
  "dcl_temps Inst phase s =
     (case m_Extra Inst of
        Register (TempsDecl n) \<Rightarrow>
          if phase \<noteq> - 1 then
            do { assert_dxbc (unat phase < length (phases (shader_info s)));
                 Some (on_info (\<lambda>info. info\<lparr>phases := (phases info)[unat phase :=
                   (phases info ! unat phase)\<lparr>phase_tempRegisterCount := n\<rparr>]\<rparr>) s) }
          else Some (on_info (\<lambda>info. info\<lparr>tempRegisterCount := n\<rparr>) s)
      | _ \<Rightarrow> None)"

definition dcl_indexable_temp :: decl_reader where
  "dcl_indexable_temp Inst phase s =
     (case m_Extra Inst of
        Register (IndexableTempDecl n regs comps) \<Rightarrow>
          if phase \<noteq> - 1 then
            do { assert_dxbc (unat phase < length (phases (shader_info s)));
                 Some (on_info (\<lambda>info. info\<lparr>phases := (phases info)[unat phase :=
                   (phases info ! unat phase)\<lparr>phase_indexableTempRegisterCounts :=
                     (phase_indexableTempRegisterCounts (phases info ! unat phase))(n \<mapsto> (regs, drop_bit 4 comps))\<rparr>]\<rparr>) s) }
          else Some (on_info (\<lambda>info. info\<lparr>indexableTempRegisterCounts :=
            (indexableTempRegisterCounts info)(n \<mapsto> (regs, drop_bit 4 comps))\<rparr>) s)
      | _ \<Rightarrow> None)"

definition dcl_thread_group :: decl_reader where
  "dcl_thread_group Inst phase s =
     (case m_Extra Inst of
        Memory (ThreadGroupDecl x y z) \<Rightarrow> Some (s\<lparr>threadgroup_size := (x, y, z), max_work_group_size := x * y * z\<rparr>)
      | _ \<Rightarrow> None)"

definition tgsm_decl :: "extra \<Rightarrow> ThreadgroupBufferInfo option" where
  "tgsm_decl e =
     (case e of
        Memory (RawTGSMDecl bytes) \<Rightarrow>
          do { assert_dxbc (bytes AND 3 = 0);
               Some \<lparr>size_in_uint = bytes div 4, tgsm_size = bytes, tgsm_stride = 0, structured = False\<rparr> }
      | Memory (StructuredTGSMDecl stride n) \<Rightarrow>
          do { assert_dxbc (stride AND 3 = 0);
               Some \<lparr>size_in_uint = stride * n div 4, tgsm_size = n, tgsm_stride = stride, structured = True\<rparr> }
      | _ \<Rightarrow> None)"

definition dcl_tgsm :: decl_reader where
  "dcl_tgsm Inst phase s =
     do { b \<leftarrow> tgsm_decl (m_Extra Inst);
          Some (on_info (\<lambda>info. info\<lparr>tgsmMap := (tgsmMap info)(reg_index 0 (m_Operands Inst ! 0) \<mapsto> b)\<rparr>) s) }"

text \<open>The immediate constant buffer: four words for each entry.\<close>

fun words4 :: "u32 list \<Rightarrow> u32 list list" where
  "words4 (a # b # c # d # rest) = [a, b, c, d] # words4 rest"
| "words4 _ = []"

definition custom_data :: decl_reader where
  "custom_data Inst phase s =
     (case m_Extra Inst of
        Block (CustomData ty bytes data _) \<Rightarrow>
          if ty = 3 then
            do { assert_dxbc (bytes = drop_bit 4 bytes * 16);
                 Some (on_info (\<lambda>info. info\<lparr>immConstantBufferData := words4 (case data of Some d \<Rightarrow> d | None \<Rightarrow> [])\<rparr>) s) }
          else Some s
      | _ \<Rightarrow> None)"

section \<open>Parameters of the stages\<close>

definition dcl_global_flags :: decl_reader where
  "dcl_global_flags Inst phase s =
     (case m_Extra Inst of
        Stage (GlobalFlagsDecl flags) \<Rightarrow>
          Some (on_info (\<lambda>info. info\<lparr>skipOptimization := (skipOptimization info \<or> bit flags 15),
                                     refactoringAllowed := (refactoringAllowed info \<or> bit flags 11)\<rparr>)
                 (s\<lparr>early_fragment_tests := (early_fragment_tests s \<or> bit flags 13)\<rparr>))
      | _ \<Rightarrow> None)"

definition threads_at_least :: "u32 \<Rightarrow> sm50_shader \<Rightarrow> sm50_shader" where
  "threads_at_least n s = s\<lparr>hull_maximum_threads_per_patch := max (hull_maximum_threads_per_patch s) n\<rparr>"

definition dcl_stage :: decl_reader where
  "dcl_stage Inst phase s =
     (case m_Extra Inst of
        Stage d \<Rightarrow>
          (case d of
             InputPrimitiveDecl p \<Rightarrow> Some (s\<lparr>gs_input_primitive := p\<rparr>)
           | OutputTopologyDecl t \<Rightarrow> Some (s\<lparr>gs_output_topology := t\<rparr>)
           | GSMaxOutputVertexCountDecl n \<Rightarrow> Some (s\<lparr>gs_max_vertex_output := n\<rparr>)
           | GSInstanceCountDecl n \<Rightarrow> Some (s\<lparr>gs_instance_count := n\<rparr>)
           | TessellatorPartitioningDecl p \<Rightarrow> Some (s\<lparr>tessellation_partition := p\<rparr>)
           | TessellatorOutputPrimitiveDecl p \<Rightarrow> Some (s\<lparr>tessellator_output_primitive := p\<rparr>)
           | InputControlPointCountDecl n \<Rightarrow> Some (threads_at_least n (s\<lparr>input_control_point_count := n\<rparr>))
           | OutputControlPointCountDecl n \<Rightarrow> Some (threads_at_least n (s\<lparr>output_control_point_count := n\<rparr>))
           | TessellatorDomainDecl d \<Rightarrow> Some (s\<lparr>tessellation_domain := d\<rparr>)
           | HSMaxTessFactorDecl f \<Rightarrow> Some (s\<lparr>max_tesselation_factor := f\<rparr>)
           | _ \<Rightarrow> None)
      | _ \<Rightarrow> None)"

definition ignored :: decl_reader where
  "ignored Inst phase s = Some s"

definition declaration_cases :: "bool \<Rightarrow> (u32 \<times> decl_reader) list" where
  "declaration_cases sm_ver_5_1 =
     [(D3D10_SB_OPCODE_DCL_CONSTANT_BUFFER, dcl_constant_buffer),
      (D3D10_SB_OPCODE_DCL_SAMPLER, dcl_sampler),
      (D3D10_SB_OPCODE_DCL_RESOURCE, dcl_resource sm_ver_5_1),
      (D3D11_SB_OPCODE_DCL_RESOURCE_RAW, dcl_resource sm_ver_5_1),
      (D3D11_SB_OPCODE_DCL_RESOURCE_STRUCTURED, dcl_resource sm_ver_5_1),
      (D3D11_SB_OPCODE_DCL_UNORDERED_ACCESS_VIEW_TYPED, dcl_view sm_ver_5_1),
      (D3D11_SB_OPCODE_DCL_UNORDERED_ACCESS_VIEW_RAW, dcl_view sm_ver_5_1),
      (D3D11_SB_OPCODE_DCL_UNORDERED_ACCESS_VIEW_STRUCTURED, dcl_view sm_ver_5_1),
      (D3D10_SB_OPCODE_DCL_TEMPS, dcl_temps),
      (D3D10_SB_OPCODE_DCL_INDEXABLE_TEMP, dcl_indexable_temp),
      (D3D11_SB_OPCODE_DCL_THREAD_GROUP, dcl_thread_group),
      (D3D11_SB_OPCODE_DCL_THREAD_GROUP_SHARED_MEMORY_RAW, dcl_tgsm),
      (D3D11_SB_OPCODE_DCL_THREAD_GROUP_SHARED_MEMORY_STRUCTURED, dcl_tgsm),
      (D3D10_SB_OPCODE_DCL_GLOBAL_FLAGS, dcl_global_flags),
      (D3D10_SB_OPCODE_CUSTOMDATA, custom_data)]"

definition stage_cases :: "(u32 \<times> decl_reader) list" where
  "stage_cases =
     [(D3D10_SB_OPCODE_DCL_INDEX_RANGE, ignored),
      (D3D10_SB_OPCODE_DCL_GS_INPUT_PRIMITIVE, dcl_stage),
      (D3D10_SB_OPCODE_DCL_GS_OUTPUT_PRIMITIVE_TOPOLOGY, dcl_stage),
      (D3D10_SB_OPCODE_DCL_MAX_OUTPUT_VERTEX_COUNT, dcl_stage),
      (D3D11_SB_OPCODE_DCL_GS_INSTANCE_COUNT, dcl_stage),
      (D3D11_SB_OPCODE_DCL_STREAM, ignored),
      (D3D11_SB_OPCODE_DCL_INTERFACE, ignored),
      (D3D11_SB_OPCODE_DCL_FUNCTION_TABLE, ignored),
      (D3D11_SB_OPCODE_DCL_FUNCTION_BODY, ignored),
      (D3D11_SB_OPCODE_HS_DECLS, ignored),
      (D3D11_SB_OPCODE_DCL_TESS_PARTITIONING, dcl_stage),
      (D3D11_SB_OPCODE_DCL_TESS_OUTPUT_PRIMITIVE, dcl_stage),
      (D3D11_SB_OPCODE_DCL_INPUT_CONTROL_POINT_COUNT, dcl_stage),
      (D3D11_SB_OPCODE_DCL_OUTPUT_CONTROL_POINT_COUNT, dcl_stage),
      (D3D11_SB_OPCODE_DCL_TESS_DOMAIN, dcl_stage),
      (D3D11_SB_OPCODE_DCL_HS_MAX_TESSFACTOR, dcl_stage)]"

definition signature_opcodes :: "u32 list" where
  "signature_opcodes =
     [D3D10_SB_OPCODE_DCL_INPUT_SIV, D3D10_SB_OPCODE_DCL_INPUT_SGV, D3D10_SB_OPCODE_DCL_INPUT,
      D3D10_SB_OPCODE_DCL_INPUT_PS_SIV, D3D10_SB_OPCODE_DCL_INPUT_PS_SGV, D3D10_SB_OPCODE_DCL_INPUT_PS,
      D3D10_SB_OPCODE_DCL_OUTPUT_SGV, D3D10_SB_OPCODE_DCL_OUTPUT_SIV, D3D10_SB_OPCODE_DCL_OUTPUT]"

end
