(* ===== verification/FlowReader.thy ===== *)
theory FlowReader
  imports ControlFlow ShaderDeclarations
begin

text \<open>
  The loop of \<open>read_control_flow\<close>, \<open>src/airconv/dxbc_converter_cfg.cpp\<close>: what each opcode asks of
  the graph and of the shader, the end of the shader, the inlining of function calls; and the
  traversal of the finished graph by \<open>convert_basicblocks\<close> of \<open>dxbc_converter_basicblock.cpp\<close>.
\<close>

section \<open>Reading the instructions\<close>

text \<open>The state besides the graph: the shader and the number of the fork or join phase.\<close>

record flow_reader =
  reader_shader :: sm50_shader
  reader_phase :: u32

type_synonym flow_decoder = "instruction \<Rightarrow> u32 \<Rightarrow> flow_event option"

definition plain_event :: "flow_event \<Rightarrow> flow_decoder" where
  "plain_event e Inst phase = Some e"

definition condition_event :: "(BasicBlockCondition \<Rightarrow> flow_event) \<Rightarrow> flow_decoder" where
  "condition_event f Inst phase = map_option f (readCondition Inst 0 phase)"

definition switch_event :: flow_decoder where
  "switch_event Inst phase = map_option E_Switch (readSrcOperand (m_Operands Inst ! 0) phase Integer)"

definition case_event :: flow_decoder where
  "case_event Inst phase =
     (let O' = m_Operands Inst ! 0 in
      do { assert_dxbc (m_Type O' = OPERAND_TYPE_IMMEDIATE32 \<and> m_NumComponents O' = OPERAND_1_COMPONENT);
           Some (E_Case (m_Value O' ! 0)) })"

definition label_event :: flow_decoder where
  "label_event Inst phase = Some (E_Label (reg_index 0 (m_Operands Inst ! 0)))"

definition call_event :: flow_decoder where
  "call_event Inst phase = Some (E_Call (reg_index 0 (m_Operands Inst ! 0)))"

definition callc_event :: flow_decoder where
  "callc_event Inst phase =
     map_option (\<lambda>c. E_CallC c (reg_index 0 (m_Operands Inst ! 1))) (readCondition Inst 0 phase)"

definition stream_event :: "flow_event \<Rightarrow> flow_decoder" where
  "stream_event e Inst phase = do { assert_dxbc (m_Value (m_Operands Inst ! 0) ! 0 = 0); Some e }"

definition instance_count_of :: "instruction \<Rightarrow> u32 option" where
  "instance_count_of Inst =
     (case m_Extra Inst of
        Stage (HSForkPhaseInstanceCountDecl n) \<Rightarrow> Some n
      | Stage (HSJoinPhaseInstanceCountDecl n) \<Rightarrow> Some n
      | _ \<Rightarrow> None)"

abbreviation emit_inst :: Instruction where "emit_inst \<equiv> OtherOp InstEmit"
abbreviation cut_inst :: Instruction where "cut_inst \<equiv> OtherOp InstCut"

definition flow_cases :: "(u32 \<times> flow_decoder) list" where
  "flow_cases =
     [(D3D10_SB_OPCODE_IF, condition_event E_If),
      (D3D10_SB_OPCODE_ELSE, plain_event E_Else),
      (D3D10_SB_OPCODE_ENDIF, plain_event E_EndIf),
      (D3D10_SB_OPCODE_LOOP, plain_event E_Loop),
      (D3D10_SB_OPCODE_ENDLOOP, plain_event E_EndLoop),
      (D3D10_SB_OPCODE_BREAK, plain_event E_Break),
      (D3D10_SB_OPCODE_CONTINUE, plain_event E_Continue),
      (D3D10_SB_OPCODE_BREAKC, condition_event E_BreakC),
      (D3D10_SB_OPCODE_CONTINUEC, condition_event E_ContinueC),
      (D3D10_SB_OPCODE_SWITCH, switch_event),
      (D3D10_SB_OPCODE_CASE, case_event),
      (D3D10_SB_OPCODE_DEFAULT, plain_event E_Default),
      (D3D10_SB_OPCODE_ENDSWITCH, plain_event E_EndSwitch),
      (D3D10_SB_OPCODE_RET, plain_event E_Ret),
      (D3D10_SB_OPCODE_RETC, condition_event E_RetC),
      (D3D10_SB_OPCODE_DISCARD, condition_event E_Discard),
      (D3D10_SB_OPCODE_LABEL, label_event),
      (D3D10_SB_OPCODE_CALL, call_event),
      (D3D10_SB_OPCODE_CALLC, callc_event),
      (D3D10_SB_OPCODE_EMIT, plain_event (Straight [emit_inst])),
      (D3D10_SB_OPCODE_EMITTHENCUT, plain_event (Straight [emit_inst, cut_inst])),
      (D3D10_SB_OPCODE_CUT, plain_event (Straight [cut_inst])),
      (D3D11_SB_OPCODE_EMIT_STREAM, stream_event (Straight [emit_inst])),
      (D3D11_SB_OPCODE_EMITTHENCUT_STREAM, stream_event (Straight [emit_inst, cut_inst])),
      (D3D11_SB_OPCODE_CUT_STREAM, stream_event (Straight [cut_inst]))]"

text \<open>The phases of a hull shader; a fork or join phase has registers of its own.\<close>

definition control_point_phase :: "instruction \<Rightarrow> flow_reader \<Rightarrow> (flow_event list \<times> flow_reader) option" where
  "control_point_phase Inst r =
     (let s = on_info (\<lambda>info. info\<lparr>no_control_point_phase_passthrough := True\<rparr>) (reader_shader r)
      in Some ([E_ControlPointPhase (output_control_point_count s)], r\<lparr>reader_shader := s\<rparr>))"

definition fork_join_phase :: "instruction \<Rightarrow> flow_reader \<Rightarrow> (flow_event list \<times> flow_reader) option" where
  "fork_join_phase Inst r =
     Some ([E_ForkJoinPhase],
       r\<lparr>reader_phase := reader_phase r + 1,
         reader_shader := on_info (\<lambda>info. info\<lparr>phases := phases info @
           [\<lparr>phase_tempRegisterCount = 0, phase_indexableTempRegisterCounts = Map.empty\<rparr>]\<rparr>) (reader_shader r)\<rparr>)"

definition phase_instance_count :: "instruction \<Rightarrow> flow_reader \<Rightarrow> (flow_event list \<times> flow_reader) option" where
  "phase_instance_count Inst r =
     do { n \<leftarrow> instance_count_of Inst;
          Some ([E_InstanceCount n], r\<lparr>reader_shader := threads_at_least n (reader_shader r)\<rparr>) }"

definition phase_cases :: "(u32 \<times> (instruction \<Rightarrow> flow_reader \<Rightarrow> (flow_event list \<times> flow_reader) option)) list" where
  "phase_cases =
     [(D3D11_SB_OPCODE_HS_CONTROL_POINT_PHASE, control_point_phase),
      (D3D11_SB_OPCODE_HS_FORK_PHASE, fork_join_phase),
      (D3D11_SB_OPCODE_HS_JOIN_PHASE, fork_join_phase),
      (D3D11_SB_OPCODE_DCL_HS_FORK_PHASE_INSTANCE_COUNT, phase_instance_count),
      (D3D11_SB_OPCODE_DCL_HS_JOIN_PHASE_INSTANCE_COUNT, phase_instance_count)]"

definition declares :: "decl_reader \<Rightarrow> instruction \<Rightarrow> flow_reader \<Rightarrow> (flow_event list \<times> flow_reader) option" where
  "declares d Inst r =
     map_option (\<lambda>s. ([], r\<lparr>reader_shader := s\<rparr>)) (d Inst (reader_phase r) (reader_shader r))"

text \<open>
  The switch over the opcode: the events for the graph, and the reader afterwards.  The argument
  \<open>handle_signature\<close> is the function of \<open>dxbc_signature.cpp\<close> for input and output registers.
\<close>

definition decode_instruction ::
  "decl_reader \<Rightarrow> bool \<Rightarrow> instruction \<Rightarrow> flow_reader \<Rightarrow> (flow_event list \<times> flow_reader) option" where
  "decode_instruction handle_signature sm_ver_5_1 Inst r =
     (case map_of flow_cases (m_OpCode Inst) of
        Some f \<Rightarrow> map_option (\<lambda>e. ([e], r)) (f Inst (reader_phase r))
      | None \<Rightarrow>
     (case map_of phase_cases (m_OpCode Inst) of
        Some f \<Rightarrow> f Inst r
      | None \<Rightarrow>
     (case map_of (declaration_cases sm_ver_5_1 @ stage_cases) (m_OpCode Inst) of
        Some d \<Rightarrow> declares d Inst r
      | None \<Rightarrow>
          if m_OpCode Inst \<in> set signature_opcodes then declares handle_signature Inst r
          else do { (i, info) \<leftarrow> readInstruction Inst (reader_phase r) (shader_info (reader_shader r));
                    Some ([Straight [i]], r\<lparr>reader_shader := (reader_shader r)\<lparr>shader_info := info\<rparr>\<rparr>) })))"

fun read_instructions ::
  "decl_reader \<Rightarrow> bool \<Rightarrow> instruction list \<Rightarrow> flow_reader \<Rightarrow> flow_graph \<Rightarrow> (flow_reader \<times> flow_graph) option" where
  "read_instructions hs v [] r g = Some (r, g)"
| "read_instructions hs v (Inst # rest) r g =
     do { (es, r) \<leftarrow> decode_instruction hs v Inst r; g \<leftarrow> graph_steps es g; read_instructions hs v rest r g }"

text \<open>
  After the last instruction: a hull shader whose control point outputs are in thread group
  memory writes them, then the shader returns.
\<close>

abbreviation D3D11_SB_HULL_SHADER :: u32 where "D3D11_SB_HULL_SHADER \<equiv> 3"

definition finish_graph :: "sm50_shader \<Rightarrow> flow_graph \<Rightarrow> flow_graph" where
  "finish_graph s g =
     (if bb_current g \<noteq> bb_return then
        end_block (if shader_type s = D3D11_SB_HULL_SHADER \<and>
              (output_control_point_read (shader_info s) \<or> \<not> no_control_point_phase_passthrough (shader_info s))
            then HullShaderWriteOutput (output_control_point_count s) bb_return
            else UnconditionalBranch bb_return) bb_return g
      else g)"

section \<open>Inlining\<close>

text \<open>
  The state of one inlined call: the blocks, the copies made so far, the blocks whose copies
  still need their targets, and the calls among the copies.
\<close>

record cloning =
  cl_bbs :: "basic_block list"
  visited :: "nat \<rightharpoonup> nat"
  block_to_redirect :: "nat list"
  new_call_targets :: "nat list"

definition clone :: "nat \<Rightarrow> cloning \<Rightarrow> nat \<times> cloning" where
  "clone n s =
     (case visited s n of
        Some m \<Rightarrow> (m, s)
      | None \<Rightarrow>
          (let m = length (cl_bbs s)
           in (m, s\<lparr>cl_bbs := cl_bbs s @ [\<lparr>block_instructions = block_instructions (cl_bbs s ! n), block_target = UndefinedTarget\<rparr>],
                    visited := (visited s)(n \<mapsto> m), block_to_redirect := n # block_to_redirect s\<rparr>)))"

fun clone_cases :: "(u32 \<times> nat) list \<Rightarrow> cloning \<Rightarrow> (u32 \<times> nat) list \<times> cloning" where
  "clone_cases [] s = ([], s)"
| "clone_cases ((v, n) # rest) s =
     (let (m, s) = clone n s; (cases, s) = clone_cases rest s in ((v, m) # cases, s))"

text \<open>
  The target of a copy.  A return of the function goes to the return point of the call; calls
  inside the function are kept for the next round, and skipped in the last one.
\<close>

fun redirect :: "nat \<Rightarrow> nat \<Rightarrow> block_target \<Rightarrow> cloning \<Rightarrow> block_target \<times> cloning" where
  "redirect depth back UndefinedTarget s = (UndefinedTarget, s)"
| "redirect depth back ReturnTarget s = (UnconditionalBranch back, s)"
| "redirect depth back (UnconditionalBranch n) s = (let (n, s) = clone n s in (UnconditionalBranch n, s))"
| "redirect depth back (ConditionalBranch c t e) s =
     (let (t, s) = clone t s; (e, s) = clone e s in (ConditionalBranch c t e, s))"
| "redirect depth back (SwitchTarget v cases d) s =
     (let (d, s) = clone d s; (cases, s) = clone_cases cases s in (SwitchTarget v cases d, s))"
| "redirect depth back (InstanceBarrier n active sync) s =
     (let (active, s) = clone active s; (sync, s) = clone sync s in (InstanceBarrier n active sync, s))"
| "redirect depth back (HullShaderWriteOutput n epilogue) s =
     (let (epilogue, s) = clone epilogue s in (HullShaderWriteOutput n epilogue, s))"
| "redirect depth back (CallTarget f r) s =
     (let (r, s) = clone r s in (if depth = 1 then UnconditionalBranch r else CallTarget f r, s))"

fun is_call :: "block_target \<Rightarrow> bool" where
  "is_call (CallTarget _ _) = True"
| "is_call _ = False"

definition set_block_target :: "nat \<Rightarrow> block_target \<Rightarrow> basic_block list \<Rightarrow> basic_block list" where
  "set_block_target n t bs = bs[n := (bs ! n)\<lparr>block_target := t\<rparr>]"

definition redirect_step :: "nat \<Rightarrow> nat \<Rightarrow> cloning \<Rightarrow> cloning" where
  "redirect_step depth back s =
     (let current = hd (block_to_redirect s);
          s = s\<lparr>block_to_redirect := tl (block_to_redirect s)\<rparr>;
          cloned = the (visited s current);
          (t, s) = redirect depth back (block_target (cl_bbs s ! current)) s
      in s\<lparr>cl_bbs := set_block_target cloned t (cl_bbs s),
           new_call_targets := (if is_call t then new_call_targets s @ [cloned] else new_call_targets s)\<rparr>)"

text \<open>
  One call: \<open>std::map::at\<close> throws for an unknown function.  The return point is the one of the
  call that the assignment of the new target replaces.  The loop over the blocks ends unless the
  function reaches the call itself.
\<close>

definition inline_call ::
  "(u32 \<rightharpoonup> nat) \<Rightarrow> nat \<Rightarrow> nat \<Rightarrow> basic_block list \<times> nat list \<Rightarrow> (basic_block list \<times> nat list) option" where
  "inline_call entries depth bb st =
     (case block_target (fst st ! bb) of
        CallTarget f back \<Rightarrow>
          (case entries f of None \<Rightarrow> None
           | Some e \<Rightarrow>
               (let (m, s) = clone e \<lparr>cl_bbs = fst st, visited = Map.empty, block_to_redirect = [], new_call_targets = snd st\<rparr>;
                    s = s\<lparr>cl_bbs := set_block_target bb (UnconditionalBranch m) (cl_bbs s)\<rparr>
                in map_option (\<lambda>s. (cl_bbs s, new_call_targets s))
                     (while_option (\<lambda>s. block_to_redirect s \<noteq> []) (redirect_step depth back) s)))
      | _ \<Rightarrow> None)"

fun inline_calls ::
  "(u32 \<rightharpoonup> nat) \<Rightarrow> nat \<Rightarrow> nat list \<Rightarrow> basic_block list \<times> nat list \<Rightarrow> (basic_block list \<times> nat list) option" where
  "inline_calls entries depth [] st = Some st"
| "inline_calls entries depth (bb # rest) st =
     (case inline_call entries depth bb st of None \<Rightarrow> None | Some st \<Rightarrow> inline_calls entries depth rest st)"

text \<open>The rounds, with the depth counting down from 32.\<close>

fun inline_rounds :: "(u32 \<rightharpoonup> nat) \<Rightarrow> nat \<Rightarrow> nat list \<Rightarrow> basic_block list \<Rightarrow> basic_block list option" where
  "inline_rounds entries 0 calls bs = Some bs"
| "inline_rounds entries (Suc d) calls bs =
     (if calls = [] then Some bs
      else case inline_calls entries (Suc d) calls (bs, []) of
             None \<Rightarrow> None
           | Some (bs, calls) \<Rightarrow> inline_rounds entries d calls bs)"

section \<open>The whole function\<close>

definition read_control_flow ::
  "decl_reader \<Rightarrow> bool \<Rightarrow> instruction list \<Rightarrow> sm50_shader \<Rightarrow> (sm50_shader \<times> basic_block list) option" where
  "read_control_flow handle_signature sm_ver_5_1 insts s =
     do { (r, g) \<leftarrow> read_instructions handle_signature sm_ver_5_1 insts \<lparr>reader_shader = s, reader_phase = - 1\<rparr> start_graph;
          g \<leftarrow> Some (finish_graph (reader_shader r) g);
          bs \<leftarrow> inline_rounds (func_entries g) 32 (call_targets g) (bbs g);
          Some (reader_shader r, bs) }"

section \<open>The traversal of the finished graph\<close>

text \<open>
  \<open>convert_basicblocks\<close> visits the blocks that are reachable from the entry and refuses an
  undefined target or a call among them.
\<close>

fun successors :: "block_target \<Rightarrow> nat list" where
  "successors UndefinedTarget = []"
| "successors ReturnTarget = []"
| "successors (UnconditionalBranch n) = [n]"
| "successors (ConditionalBranch c t e) = [t, e]"
| "successors (SwitchTarget v cases d) = d # map snd cases"
| "successors (InstanceBarrier n active sync) = [active, sync]"
| "successors (HullShaderWriteOutput n epilogue) = [epilogue]"
| "successors (CallTarget f back) = [back]"

definition visit_step :: "basic_block list \<Rightarrow> nat list \<times> nat list \<Rightarrow> nat list \<times> nat list" where
  "visit_step bs st =
     (case st of (current # rest, order) \<Rightarrow>
        if current \<in> set order then (rest, order)
        else (rev (successors (block_target (bs ! current))) @ rest, order @ [current])
      | ([], order) \<Rightarrow> ([], order))"

definition visit_order :: "basic_block list \<Rightarrow> nat \<Rightarrow> nat list option" where
  "visit_order bs entry = map_option snd (while_option (\<lambda>st. fst st \<noteq> []) (visit_step bs) ([entry], []))"

fun convertible :: "block_target \<Rightarrow> bool" where
  "convertible UndefinedTarget = False"
| "convertible (CallTarget _ _) = False"
| "convertible _ = True"

definition convert_basicblocks :: "basic_block list \<Rightarrow> nat \<Rightarrow> nat list option" where
  "convert_basicblocks bs entry =
     do { order \<leftarrow> visit_order bs entry;
          if list_all (\<lambda>n. convertible (block_target (bs ! n))) order then Some order else None }"

end
