(* ===== verification/FlowSemantics.thy ===== *)
theory FlowSemantics
  imports FlowReader
begin

text \<open>
  The meaning of structured shaders and of graphs of basic blocks.  Structured code is the
  syntax behind the control flow instructions; \<open>run\<close> executes it, \<open>events\<close> writes it as the
  sequence of instructions that \<open>read_control_flow\<close> reads.  \<open>follow\<close> executes a graph the way the
  code emitted by \<open>convert_basicblocks\<close> (\<open>src/airconv/dxbc_converter_basicblock.cpp\<close>) branches.
\<close>

section \<open>Structured code\<close>

text \<open>
  Every constructor ends with the code that follows the statement.  A switch has one body in
  which labels, \<open>None\<close> for \<open>default\<close>, mark the places to enter; control falls through them.
\<close>

datatype code =
    Done
  | Exec Instruction code
  | If BasicBlockCondition code code
  | IfElse BasicBlockCondition code code code
  | Loop code code
  | Switch SrcOperand code code
  | CaseLabel "u32 option" code
  | Break code
  | Continue code
  | Ret code
  | BreakC BasicBlockCondition code
  | ContinueC BasicBlockCondition code
  | RetC BasicBlockCondition code
  | Discard BasicBlockCondition code

fun events :: "code \<Rightarrow> flow_event list" where
  "events Done = []"
| "events (Exec i c) = Straight [i] # events c"
| "events (If b t c) = E_If b # events t @ E_EndIf # events c"
| "events (IfElse b t e c) = E_If b # events t @ E_Else # events e @ E_EndIf # events c"
| "events (Loop b c) = E_Loop # events b @ E_EndLoop # events c"
| "events (Switch v b c) = E_Switch v # events b @ E_EndSwitch # events c"
| "events (CaseLabel l c) = (case l of Some v \<Rightarrow> E_Case v | None \<Rightarrow> E_Default) # events c"
| "events (Break c) = E_Break # events c"
| "events (Continue c) = E_Continue # events c"
| "events (Ret c) = E_Ret # events c"
| "events (BreakC b c) = E_BreakC b # events c"
| "events (ContinueC b c) = E_ContinueC b # events c"
| "events (RetC b c) = E_RetC b # events c"
| "events (Discard b c) = E_Discard b # events c"

text \<open>The labels of a switch body, and the code from a label on.\<close>

fun labels :: "code \<Rightarrow> u32 option list" where
  "labels Done = []"
| "labels (Exec i c) = labels c"
| "labels (If b t c) = labels c"
| "labels (IfElse b t e c) = labels c"
| "labels (Loop b c) = labels c"
| "labels (Switch v b c) = labels c"
| "labels (CaseLabel l c) = l # labels c"
| "labels (Break c) = labels c"
| "labels (Continue c) = labels c"
| "labels (Ret c) = labels c"
| "labels (BreakC b c) = labels c"
| "labels (ContinueC b c) = labels c"
| "labels (RetC b c) = labels c"
| "labels (Discard b c) = labels c"

fun from_label :: "u32 option \<Rightarrow> code \<Rightarrow> code option" where
  "from_label l Done = None"
| "from_label l (Exec i c) = from_label l c"
| "from_label l (If b t c) = from_label l c"
| "from_label l (IfElse b t e c) = from_label l c"
| "from_label l (Loop b c) = from_label l c"
| "from_label l (Switch v b c) = from_label l c"
| "from_label l (CaseLabel k c) = (if k = l then Some c else from_label l c)"
| "from_label l (Break c) = from_label l c"
| "from_label l (Continue c) = from_label l c"
| "from_label l (Ret c) = from_label l c"
| "from_label l (BreakC b c) = from_label l c"
| "from_label l (ContinueC b c) = from_label l c"
| "from_label l (RetC b c) = from_label l c"
| "from_label l (Discard b c) = from_label l c"

text \<open>
  Well-formed code: \<open>N\<close> inside of a statement, \<open>C\<close> inside of a loop, \<open>B\<close> inside of a loop or a
  switch, \<open>L\<close> directly in the body of a switch, and \<open>A\<close> when the code may be reached from the
  code before it.  A return that is not last, a label elsewhere, a repeated label and a switch
  right after a jump are excluded.
\<close>

fun well_formed :: "bool \<Rightarrow> bool \<Rightarrow> bool \<Rightarrow> bool \<Rightarrow> bool \<Rightarrow> code \<Rightarrow> bool" where
  "well_formed N C B L A Done = True"
| "well_formed N C B L A (Exec i c) = well_formed N C B L A c"
| "well_formed N C B L A (If b t c) = (well_formed True C B False True t \<and> well_formed N C B L True c)"
| "well_formed N C B L A (IfElse b t e c) =
     (well_formed True C B False True t \<and> well_formed True C B False True e \<and> well_formed N C B L True c)"
| "well_formed N C B L A (Loop b c) = (well_formed True True True False True b \<and> well_formed N C B L True c)"
| "well_formed N C B L A (Switch v b c) =
     (A \<and> distinct (labels b) \<and> well_formed True C True True False b \<and> well_formed N C B L True c)"
| "well_formed N C B L A (CaseLabel l c) = (L \<and> well_formed N C B L True c)"
| "well_formed N C B L A (Break c) = (B \<and> well_formed N C B L False c)"
| "well_formed N C B L A (Continue c) = (C \<and> well_formed N C B L False c)"
| "well_formed N C B L A (Ret c) = (N \<and> well_formed N C B L False c)"
| "well_formed N C B L A (BreakC b c) = (B \<and> well_formed N C B L True c)"
| "well_formed N C B L A (ContinueC b c) = (C \<and> well_formed N C B L True c)"
| "well_formed N C B L A (RetC b c) = well_formed N C B L True c"
| "well_formed N C B L A (Discard b c) = well_formed N C B L True c"

section \<open>Execution of structured code\<close>

text \<open>
  What a thread does with an instruction, a value and the output of a hull shader is a
  parameter; so is the number of the thread in its patch.
\<close>

record 's machine =
  exec :: "Instruction \<Rightarrow> 's \<Rightarrow> 's"
  load :: "SrcOperand \<Rightarrow> 's \<Rightarrow> u32"
  write_output :: "u32 \<Rightarrow> 's \<Rightarrow> 's"
  thread_id_in_patch :: "'s \<Rightarrow> u32"

definition holds :: "'s machine \<Rightarrow> BasicBlockCondition \<Rightarrow> 's \<Rightarrow> bool" where
  "holds M c s \<longleftrightarrow> (if test_nonzero c then load M (cond_operand c) s \<noteq> 0 else load M (cond_operand c) s = 0)"

datatype outcome = Normal | Broke | Continued | Returned

lemma size_from_label: "from_label l c = Some d \<Longrightarrow> size d < size c"
  by (induction l c rule: from_label.induct) (auto split: if_splits)

text \<open>The place where a switch enters its body.\<close>

definition enter :: "u32 \<Rightarrow> code \<Rightarrow> code option" where
  "enter v b = (case from_label (Some v) b of Some c \<Rightarrow> Some c | None \<Rightarrow> from_label None b)"

lemma size_enter: "enter v b = Some c \<Longrightarrow> size c < size b"
  by (auto simp: enter_def size_from_label split: option.splits)

text \<open>The number bounds the iterations of a loop; \<open>None\<close> is a loop that wants more.\<close>

function run :: "'s machine \<Rightarrow> nat \<Rightarrow> code \<Rightarrow> 's \<Rightarrow> (outcome \<times> 's) option" where
  "run M n Done s = Some (Normal, s)"
| "run M n (Exec i c) s = run M n c (exec M i s)"
| "run M n (If b t c) s =
     (if holds M b s then
        (case run M n t s of None \<Rightarrow> None
         | Some (r, s') \<Rightarrow> if r = Normal then run M n c s' else Some (r, s'))
      else run M n c s)"
| "run M n (IfElse b t e c) s =
     (case (if holds M b s then run M n t s else run M n e s) of None \<Rightarrow> None
      | Some (r, s') \<Rightarrow> if r = Normal then run M n c s' else Some (r, s'))"
| "run M n (Loop b c) s =
     (case n of 0 \<Rightarrow> None
      | Suc m \<Rightarrow>
          (case run M n b s of None \<Rightarrow> None
           | Some (r, s') \<Rightarrow>
               if r = Broke then run M n c s' else if r = Returned then Some (r, s') else run M m (Loop b c) s'))"
| "run M n (Switch v b c) s =
     (case enter (load M v s) b of None \<Rightarrow> run M n c s
      | Some d \<Rightarrow>
          (case run M n d s of None \<Rightarrow> None
           | Some (r, s') \<Rightarrow> if r = Normal \<or> r = Broke then run M n c s' else Some (r, s')))"
| "run M n (CaseLabel l c) s = run M n c s"
| "run M n (Break c) s = Some (Broke, s)"
| "run M n (Continue c) s = Some (Continued, s)"
| "run M n (Ret c) s = Some (Returned, s)"
| "run M n (BreakC b c) s = (if holds M b s then Some (Broke, s) else run M n c s)"
| "run M n (ContinueC b c) s = (if holds M b s then Some (Continued, s) else run M n c s)"
| "run M n (RetC b c) s = (if holds M b s then Some (Returned, s) else run M n c s)"
| "run M n (Discard b c) s = run M n c (if holds M b s then exec M (OtherOp InstPixelDiscard) s else s)"
  by pat_completeness auto
termination
  by (relation "measures [\<lambda>(M, n, c, s). n, \<lambda>(M, n, c, s). size c]")
     (auto dest: size_enter)

section \<open>Execution of graphs\<close>

text \<open>
  A thread at the end of block \<open>n\<close>, after a return, or at a target that the conversion refuses.
\<close>

datatype 's progress = At nat 's | Halted 's | Stuck

definition run_block :: "'s machine \<Rightarrow> Instruction list \<Rightarrow> 's \<Rightarrow> 's" where
  "run_block M is s = fold (exec M) is s"

definition enter_block :: "'s machine \<Rightarrow> basic_block list \<Rightarrow> nat \<Rightarrow> 's \<Rightarrow> 's progress" where
  "enter_block M F n s = At n (run_block M (block_instructions (F ! n)) s)"

fun branch :: "'s machine \<Rightarrow> basic_block list \<Rightarrow> block_target \<Rightarrow> 's \<Rightarrow> 's progress" where
  "branch M F (UnconditionalBranch n) s = enter_block M F n s"
| "branch M F (ConditionalBranch c t e) s = enter_block M F (if holds M c s then t else e) s"
| "branch M F (SwitchTarget v cases d) s =
     enter_block M F (case map_of cases (load M v s) of Some n \<Rightarrow> n | None \<Rightarrow> d) s"
| "branch M F (InstanceBarrier n active sync) s = enter_block M F (if thread_id_in_patch M s < n then active else sync) s"
| "branch M F (HullShaderWriteOutput n epilogue) s = enter_block M F epilogue (write_output M n s)"
| "branch M F ReturnTarget s = Halted s"
| "branch M F UndefinedTarget s = Stuck"
| "branch M F (CallTarget f back) s = Stuck"

fun follow :: "'s machine \<Rightarrow> basic_block list \<Rightarrow> 's progress \<Rightarrow> 's progress" where
  "follow M F (At n s) = branch M F (block_target (F ! n)) s"
| "follow M F (Halted s) = Halted s"
| "follow M F Stuck = Stuck"

definition started :: "'s machine \<Rightarrow> basic_block list \<Rightarrow> 's \<Rightarrow> 's progress" where
  "started M F s = enter_block M F bb_entry s"

end
