(* ===== verification/FlowLayout.thy ===== *)
theory FlowLayout
  imports FlowSemantics
begin

text \<open>
  The layout of structured code in a graph, and the simulation: a graph in which code is laid
  out executes it.
\<close>

section \<open>Layout\<close>

text \<open>A place inside of a block with the instructions that are left there, or unreachable code.\<close>

datatype place = Dead | Live nat "Instruction list"

definition block_start :: "basic_block list \<Rightarrow> nat \<Rightarrow> place" where
  "block_start F n = Live n (block_instructions (F ! n))"

definition closes :: "basic_block list \<Rightarrow> place \<Rightarrow> block_target \<Rightarrow> bool" where
  "closes F p t \<longleftrightarrow> (case p of Dead \<Rightarrow> True | Live n is \<Rightarrow> is = [] \<and> block_target (F ! n) = t)"

lemma closes_Dead [simp]: "closes F Dead t"
  by (simp add: closes_def)

lemma closes_Live: "closes F (Live n is) t \<longleftrightarrow> is = [] \<and> block_target (F ! n) = t"
  by (simp add: closes_def)

text \<open>Where the jumps out of a piece of code go.\<close>

record jumps =
  break_to :: nat
  continue_to :: nat
  return_to_block :: nat
  label_at :: "u32 option \<Rightarrow> nat option"

definition switch_labels :: "(u32 \<times> nat) list \<Rightarrow> nat \<Rightarrow> u32 option \<Rightarrow> nat option" where
  "switch_labels cases d l = (case l of Some v \<Rightarrow> map_of cases v | None \<Rightarrow> Some d)"

fun after_instruction :: "Instruction \<Rightarrow> place \<Rightarrow> place option" where
  "after_instruction i Dead = Some Dead"
| "after_instruction i (Live n []) = None"
| "after_instruction i (Live n (j # is)) = (if i = j then Some (Live n is) else None)"

fun laid :: "basic_block list \<Rightarrow> jumps \<Rightarrow> code \<Rightarrow> place \<Rightarrow> place \<Rightarrow> bool" where
  "laid F v Done p q = (p = q)"
| "laid F v (Exec i c) p q = (\<exists>r. after_instruction i p = Some r \<and> laid F v c r q)"
| "laid F v (If b t c) p q =
     (\<exists>x y r. closes F p (ConditionalBranch b x y) \<and> laid F v t (block_start F x) r \<and>
        closes F r (UnconditionalBranch y) \<and> laid F v c (block_start F y) q)"
| "laid F v (IfElse b t e c) p q =
     (\<exists>x y z r r'. closes F p (ConditionalBranch b x y) \<and> laid F v t (block_start F x) r \<and>
        closes F r (UnconditionalBranch z) \<and> laid F v e (block_start F y) r' \<and>
        closes F r' (UnconditionalBranch z) \<and> laid F v c (block_start F z) q)"
| "laid F v (Loop b c) p q =
     (\<exists>x y r. closes F p (UnconditionalBranch x) \<and>
        laid F (v\<lparr>continue_to := x, break_to := y\<rparr>) b (block_start F x) r \<and>
        closes F r (UnconditionalBranch x) \<and> laid F v c (block_start F y) q)"
| "laid F v (Switch w b c) p q =
     (\<exists>cases d y r. closes F p (SwitchTarget w cases d) \<and>
        laid F (v\<lparr>break_to := y, label_at := switch_labels cases d\<rparr>) b Dead r \<and> closes F r (UnconditionalBranch y) \<and>
        Some ` fst ` set cases = set (labels b) - {None} \<and> (None \<notin> set (labels b) \<longrightarrow> d = y) \<and>
        laid F v c (block_start F y) q)"
| "laid F v (CaseLabel l c) p q =
     (\<exists>x. closes F p (UnconditionalBranch x) \<and> label_at v l = Some x \<and> laid F v c (block_start F x) q)"
| "laid F v (Break c) p q = (closes F p (UnconditionalBranch (break_to v)) \<and> laid F v c Dead q)"
| "laid F v (Continue c) p q = (closes F p (UnconditionalBranch (continue_to v)) \<and> laid F v c Dead q)"
| "laid F v (Ret c) p q = (closes F p (UnconditionalBranch (return_to_block v)) \<and> laid F v c Dead q)"
| "laid F v (BreakC b c) p q = (\<exists>x. closes F p (ConditionalBranch b (break_to v) x) \<and> laid F v c (block_start F x) q)"
| "laid F v (ContinueC b c) p q = (\<exists>x. closes F p (ConditionalBranch b (continue_to v) x) \<and> laid F v c (block_start F x) q)"
| "laid F v (RetC b c) p q = (\<exists>x. closes F p (ConditionalBranch b (return_to_block v) x) \<and> laid F v c (block_start F x) q)"
| "laid F v (Discard b c) p q =
     (\<exists>x y. closes F p (ConditionalBranch b x y) \<and> block_instructions (F ! x) = [OtherOp InstPixelDiscard] \<and>
        block_target (F ! x) = UnconditionalBranch y \<and> laid F v c (block_start F y) q)"

lemma from_label_None_iff: "from_label l c = None \<longleftrightarrow> l \<notin> set (labels c)"
  by (induction l c rule: from_label.induct) auto

lemma laid_from_label:
  "laid F v b p q \<Longrightarrow> from_label l b = Some d \<Longrightarrow> \<exists>x. label_at v l = Some x \<and> laid F v d (block_start F x) q"
  by (induction b arbitrary: p) (auto split: if_splits)

section \<open>Simulation\<close>

abbreviation jumped :: "'s machine \<Rightarrow> basic_block list \<Rightarrow> nat \<Rightarrow> 's progress \<Rightarrow> 's progress" where
  "jumped M F j x \<equiv> (follow M F ^^ j) x"

lemma follow_Suc: "jumped M F (Suc j) x = jumped M F j (follow M F x)"
  by (simp add: funpow_swap1)

lemma follow_more: "jumped M F i x = y \<Longrightarrow> jumped M F j y = z \<Longrightarrow> jumped M F (i + j) x = z"
  by (metis add.commute comp_apply funpow_add)

text \<open>
  What the graph does for the result of a run from the place \<open>x\<close>: the run reaches the place that
  belongs to its outcome, and a run that is cut off after \<open>n\<close> iterations makes \<open>n\<close> jumps.
\<close>

definition reaches :: "'s machine \<Rightarrow> basic_block list \<Rightarrow> nat \<Rightarrow> 's progress \<Rightarrow> 's progress \<Rightarrow> bool" where
  "reaches M F m x y \<longleftrightarrow> (\<exists>j\<ge>m. jumped M F j x = y)"

fun simulates :: "'s machine \<Rightarrow> basic_block list \<Rightarrow> jumps \<Rightarrow> place \<Rightarrow> nat \<Rightarrow> 's progress \<Rightarrow> (outcome \<times> 's) option \<Rightarrow> bool" where
  "simulates M F v q n x None = (\<exists>k s. reaches M F n x (At k s))"
| "simulates M F v q n x (Some (Normal, s)) = (\<exists>k is. q = Live k is \<and> reaches M F 0 x (At k (run_block M is s)))"
| "simulates M F v q n x (Some (Broke, s)) = reaches M F 1 x (enter_block M F (break_to v) s)"
| "simulates M F v q n x (Some (Continued, s)) = reaches M F 1 x (enter_block M F (continue_to v) s)"
| "simulates M F v q n x (Some (Returned, s)) = reaches M F 1 x (enter_block M F (return_to_block v) s)"

lemma reaches_trans: "reaches M F i x y \<Longrightarrow> reaches M F j y z \<Longrightarrow> reaches M F (i + j) x z"
  unfolding reaches_def by (metis add_mono follow_more)

lemma reaches_weaken: "reaches M F i x y \<Longrightarrow> j \<le> i \<Longrightarrow> reaches M F j x y"
  unfolding reaches_def using le_trans by blast

lemma reaches_refl [intro]: "reaches M F 0 x x"
  by (auto simp: reaches_def intro: exI [of _ 0])

lemma reaches_step: "follow M F x = y \<Longrightarrow> reaches M F 1 x y"
  unfolding reaches_def by (intro exI [of _ 1]) simp

lemma simulates_after:
  assumes x: "reaches M F i x y" and y: "simulates M F v q n y r"
  shows "simulates M F v q (i + n) x r"
proof (cases r)
  case None
  then show ?thesis using y reaches_trans [OF x] by auto
next
  case (Some o_s)
  moreover obtain out s where "o_s = (out, s)" by (cases o_s)
  ultimately have r: "r = Some (out, s)" by simp
  have "reaches M F 0 y z \<Longrightarrow> reaches M F 0 x z" for z using reaches_weaken [OF reaches_trans [OF x]] by auto
  moreover have "reaches M F 1 y z \<Longrightarrow> reaches M F 1 x z" for z using reaches_weaken [OF reaches_trans [OF x]] by auto
  ultimately show ?thesis using y unfolding r by (cases out) auto
qed

lemma simulates_less: "simulates M F v q n x r \<Longrightarrow> m \<le> n \<Longrightarrow> simulates M F v q m x r"
  by (cases "(M, F, v, q, n, x, r)" rule: simulates.cases) (auto intro: reaches_weaken)

lemma simulates_follow: "follow M F x = y \<Longrightarrow> simulates M F v q n y r \<Longrightarrow> simulates M F v q n x r"
  by (rule simulates_less [OF simulates_after [OF reaches_step]]) auto

lemma run_block_Nil [simp]: "run_block M [] s = s"
  by (simp add: run_block_def)

lemma run_block_Cons [simp]: "run_block M (i # is) s = run_block M is (exec M i s)"
  by (simp add: run_block_def)

text \<open>At a place that a target closes, the graph branches.\<close>

lemma simulates_branch:
  "closes F (Live k is) t \<Longrightarrow> branch M F t s = y \<Longrightarrow> simulates M F v q n y r \<Longrightarrow>
     simulates M F v q n (At k (run_block M is s)) r"
  by (rule simulates_follow) (auto simp: closes_Live)

lemma reaches_branch:
  "closes F (Live k is) t \<Longrightarrow> branch M F t s = y \<Longrightarrow> reaches M F 1 (At k (run_block M is s)) y"
  by (rule reaches_step) (auto simp: closes_Live)

text \<open>
  Code followed by more code: what the first piece does is continued, and other outcomes are
  passed on with their targets.
\<close>

lemma simulates_join:
  assumes first: "simulates M F v r n x (run M n t s)"
    and closed: "closes F r (UnconditionalBranch y)"
    and rest: "\<And>s. simulates M F v q n (enter_block M F y s) (run M n c s)"
  shows "simulates M F v q n x
    (case run M n t s of None \<Rightarrow> None | Some (o', s') \<Rightarrow> if o' = Normal then run M n c s' else Some (o', s'))"
proof (cases "run M n t s")
  case None
  then show ?thesis using first by simp
next
  case (Some a)
  obtain o' s' where a: "a = (o', s')" by (cases a)
  show ?thesis
  proof (cases o')
    case Normal
    obtain k "is" where r: "r = Live k is" and x: "reaches M F 0 x (At k (run_block M is s'))"
      using first Some a Normal by auto
    have "reaches M F 1 x (enter_block M F y s')"
      using reaches_trans [OF x reaches_branch [OF closed [unfolded r]]] by auto
    from simulates_less [OF simulates_after [OF this rest]] show ?thesis using Some a Normal by simp
  qed (use first Some a in auto)
qed

lemma loop_simulates:
  assumes body: "\<And>n s. simulates M F (v\<lparr>continue_to := x, break_to := y\<rparr>) r n (enter_block M F x s) (run M n b s)"
    and closed: "closes F r (UnconditionalBranch x)"
    and rest: "\<And>n s. simulates M F v q n (enter_block M F y s) (run M n c s)"
  shows "simulates M F v q n (enter_block M F x s) (run M n (Loop b c) s)"
proof (induction n arbitrary: s)
  case 0
  then show ?case by (auto simp: enter_block_def)
next
  case (Suc m)
  let ?v = "v\<lparr>continue_to := x, break_to := y\<rparr>"
  note sim = body [of "Suc m" s]
  show ?case
  proof (cases "run M (Suc m) b s")
    case None
    then show ?thesis using sim by simp
  next
    case (Some a)
    obtain o' s' where a: "a = (o', s')" by (cases a)
    have again: "reaches M F 1 (enter_block M F x s) (enter_block M F x s')" if "o' = Normal \<or> o' = Continued"
    proof (cases "o' = Normal")
      case True
      then obtain k "is" where r: "r = Live k is" and x: "reaches M F 0 (enter_block M F x s) (At k (run_block M is s'))"
        using sim Some a by auto
      show ?thesis using reaches_trans [OF x reaches_branch [OF closed [unfolded r]]] by auto
    qed (use sim Some a that in auto)
    show ?thesis
    proof (cases o')
      case Broke
      then have "reaches M F 1 (enter_block M F x s) (enter_block M F y s')" using sim Some a by simp
      from simulates_less [OF simulates_after [OF this rest [of "Suc m"]]] show ?thesis using Some a Broke by simp
    next
      case Returned
      then show ?thesis using sim Some a by simp
    qed (use simulates_after [OF again Suc.IH] Some a in simp_all)
  qed
qed

lemma enter_laid:
  assumes b: "laid F (v\<lparr>break_to := y, label_at := switch_labels cases d\<rparr>) b Dead r"
    and cases: "Some ` fst ` set cases = set (labels b) - {None}"
    and default: "None \<notin> set (labels b) \<Longrightarrow> d = y"
    and x: "x = (case map_of cases w of Some n \<Rightarrow> n | None \<Rightarrow> d)"
  shows "case enter w b of None \<Rightarrow> x = y
    | Some e \<Rightarrow> laid F (v\<lparr>break_to := y, label_at := switch_labels cases d\<rparr>) e (block_start F x) r"
proof (cases "from_label (Some w) b")
  case (Some e)
  with laid_from_label [OF b Some] show ?thesis using x
    by (auto simp: enter_def switch_labels_def)
next
  case None
  then have "Some w \<notin> set (labels b)" by (simp add: from_label_None_iff)
  then have "w \<notin> fst ` set cases" using cases by blast
  then have "map_of cases w = None" by (simp add: map_of_eq_None_iff)
  then have x: "x = d" using x by simp
  show ?thesis
  proof (cases "from_label None b")
    case (Some e)
    with laid_from_label [OF b Some] show ?thesis using x None
      by (auto simp: enter_def switch_labels_def)
  next
    case none: None
    then have "d = y" using default by (simp add: from_label_None_iff)
    then show ?thesis using None none x by (simp add: enter_def)
  qed
qed

lemma switch_simulates:
  assumes first: "simulates M F (v\<lparr>break_to := y, label_at := l\<rparr>) r n x (run M n d s)"
    and closed: "closes F r (UnconditionalBranch y)"
    and rest: "\<And>s. simulates M F v q n (enter_block M F y s) (run M n c s)"
  shows "simulates M F v q n x
    (case run M n d s of None \<Rightarrow> None
     | Some (o', s') \<Rightarrow> if o' = Normal \<or> o' = Broke then run M n c s' else Some (o', s'))"
proof (cases "run M n d s")
  case None
  then show ?thesis using first by simp
next
  case (Some a)
  obtain o' s' where a: "a = (o', s')" by (cases a)
  have out: "reaches M F 1 x (enter_block M F y s')" if "o' = Normal \<or> o' = Broke"
  proof (cases "o' = Normal")
    case True
    then obtain k "is" where r: "r = Live k is" and x: "reaches M F 0 x (At k (run_block M is s'))"
      using first Some a by auto
    show ?thesis using reaches_trans [OF x reaches_branch [OF closed [unfolded r]]] by auto
  qed (use first Some a that in auto)
  show ?thesis
  proof (cases "o' = Normal \<or> o' = Broke")
    case True
    from simulates_less [OF simulates_after [OF out [OF this] rest]] show ?thesis using Some a True by simp
  next
    case False
    then show ?thesis using first Some a by (cases o') auto
  qed
qed

text \<open>A conditional jump out of the code.\<close>

lemma jump_taken:
  "closes F (Live k is) (ConditionalBranch b t x) \<Longrightarrow> holds M b s \<Longrightarrow>
     reaches M F 1 (At k (run_block M is s)) (enter_block M F t s)"
  by (rule reaches_branch, assumption, simp)

lemma jump_passed:
  "closes F (Live k is) (ConditionalBranch b t x) \<Longrightarrow> \<not> holds M b s \<Longrightarrow>
     simulates M F v q n (enter_block M F x s) r \<Longrightarrow> simulates M F v q n (At k (run_block M is s)) r"
  by (rule simulates_branch, assumption) simp_all

lemma laid_simulates:
  "laid F v c (Live k is) q \<Longrightarrow> simulates M F v q n (At k (run_block M is s)) (run M n c s)"
proof (induction c arbitrary: F v k "is" q n s rule: measure_induct_rule [where f = size])
  case (less c)
  have start: "simulates M F v q n (enter_block M F k s) (run M n c' s)"
    if "laid F v c' (block_start F k) q" "size c' < size c" for F v c' k q n s
    using less.IH [OF that(2) that(1) [unfolded block_start_def]] by (simp add: enter_block_def)
  note laid = less.prems
  show ?case
  proof (cases c)
    case Done
    then show ?thesis using laid by auto
  next
    case (Exec i c')
    then obtain js where "is = i # js" "laid F v c' (Live k js) q"
      using laid by (cases "is") (auto split: if_splits)
    then show ?thesis using less.IH [of c' F v k js q n "exec M i s"] Exec by simp
  next
    case (If b t c')
    then obtain x y r where *: "closes F (Live k is) (ConditionalBranch b x y)" "laid F v t (block_start F x) r"
        "closes F r (UnconditionalBranch y)" "laid F v c' (block_start F y) q"
      using laid by auto
    have rest: "simulates M F v q n (enter_block M F y s) (run M n c' s)" for s using start [OF *(4)] If by simp
    show ?thesis
    proof (rule simulates_branch [OF *(1) refl], cases "holds M b s")
      case True
      then show "simulates M F v q n (branch M F (ConditionalBranch b x y) s) (run M n c s)"
        using simulates_join [OF start [OF *(2)] *(3) rest] If by simp
    qed (use rest If in simp)
  next
    case (IfElse b t e c')
    then obtain x y z r r' where *: "closes F (Live k is) (ConditionalBranch b x y)" "laid F v t (block_start F x) r"
        "closes F r (UnconditionalBranch z)" "laid F v e (block_start F y) r'"
        "closes F r' (UnconditionalBranch z)" "laid F v c' (block_start F z) q"
      using laid by auto
    have rest: "simulates M F v q n (enter_block M F z s) (run M n c' s)" for s using start [OF *(6)] IfElse by simp
    show ?thesis
      by (rule simulates_branch [OF *(1) refl])
        (use simulates_join [OF start [OF *(2)] *(3) rest] simulates_join [OF start [OF *(4)] *(5) rest] IfElse in simp)
  next
    case (Loop b c')
    then obtain x y r where *: "closes F (Live k is) (UnconditionalBranch x)"
        "laid F (v\<lparr>continue_to := x, break_to := y\<rparr>) b (block_start F x) r"
        "closes F r (UnconditionalBranch x)" "laid F v c' (block_start F y) q"
      using laid by auto
    show ?thesis
      by (rule simulates_branch [OF *(1) refl])
        (use loop_simulates [OF start [OF *(2)] *(3) start [OF *(4)]] Loop in simp)
  next
    case (Switch w b c')
    then obtain cases d y r where *: "closes F (Live k is) (SwitchTarget w cases d)"
        "laid F (v\<lparr>break_to := y, label_at := switch_labels cases d\<rparr>) b Dead r"
        "closes F r (UnconditionalBranch y)" "Some ` fst ` set cases = set (labels b) - {None}"
        "None \<notin> set (labels b) \<longrightarrow> d = y" "laid F v c' (block_start F y) q"
      using laid by auto
    let ?x = "case map_of cases (load M w s) of Some n \<Rightarrow> n | None \<Rightarrow> d"
    have rest: "simulates M F v q n (enter_block M F y s) (run M n c' s)" for s using start [OF *(6)] Switch by simp
    show ?thesis
    proof (rule simulates_branch [OF *(1) refl], cases "enter (load M w s) b")
      case None
      then show "simulates M F v q n (branch M F (SwitchTarget w cases d) s) (run M n c s)"
        using enter_laid [OF *(2,4) *(5) [rule_format] refl, of "load M w s"] rest Switch by simp
    next
      case (Some e)
      then have e: "laid F (v\<lparr>break_to := y, label_at := switch_labels cases d\<rparr>) e (block_start F ?x) r"
        using enter_laid [OF *(2,4) *(5) [rule_format] refl, of "load M w s"] by simp
      have "size e < size c" using size_enter [OF Some] Switch by simp
      then show "simulates M F v q n (branch M F (SwitchTarget w cases d) s) (run M n c s)"
        using switch_simulates [OF start [OF e] *(3) rest] Some Switch by simp
    qed
  next
    case (BreakC b c')
    then obtain x where *: "closes F (Live k is) (ConditionalBranch b (break_to v) x)" "laid F v c' (block_start F x) q"
      using laid by auto
    show ?thesis using jump_taken [OF *(1)] jump_passed [OF *(1) _ start [OF *(2)]] BreakC
      by (cases "holds M b s") simp_all
  next
    case (ContinueC b c')
    then obtain x where *: "closes F (Live k is) (ConditionalBranch b (continue_to v) x)" "laid F v c' (block_start F x) q"
      using laid by auto
    show ?thesis using jump_taken [OF *(1)] jump_passed [OF *(1) _ start [OF *(2)]] ContinueC
      by (cases "holds M b s") simp_all
  next
    case (RetC b c')
    then obtain x where *: "closes F (Live k is) (ConditionalBranch b (return_to_block v) x)" "laid F v c' (block_start F x) q"
      using laid by auto
    show ?thesis using jump_taken [OF *(1)] jump_passed [OF *(1) _ start [OF *(2)]] RetC
      by (cases "holds M b s") simp_all
  next
    case (Discard b c')
    then obtain x y where *: "closes F (Live k is) (ConditionalBranch b x y)"
        "block_instructions (F ! x) = [OtherOp InstPixelDiscard]" "block_target (F ! x) = UnconditionalBranch y"
        "laid F v c' (block_start F y) q"
      using laid by auto
    have "follow M F (enter_block M F x s) = enter_block M F y (exec M (OtherOp InstPixelDiscard) s)"
      using *(2,3) by (simp add: enter_block_def)
    then have "simulates M F v q n (enter_block M F x s) (run M n c' (exec M (OtherOp InstPixelDiscard) s))"
      by (rule simulates_follow) (use start [OF *(4)] Discard in simp)
    then show ?thesis
      by (intro simulates_branch [OF *(1) refl]) (use start [OF *(4)] Discard in simp)
  next
    case (CaseLabel l c')
    then obtain x where *: "closes F (Live k is) (UnconditionalBranch x)" "laid F v c' (block_start F x) q"
      using laid by auto
    show ?thesis by (rule simulates_branch [OF *(1) refl]) (use start [OF *(2)] CaseLabel in simp)
  next
    case (Break c')
    then have "closes F (Live k is) (UnconditionalBranch (break_to v))" using laid by simp
    from reaches_branch [OF this] show ?thesis using Break by simp
  next
    case (Continue c')
    then have "closes F (Live k is) (UnconditionalBranch (continue_to v))" using laid by simp
    from reaches_branch [OF this] show ?thesis using Continue by simp
  next
    case (Ret c')
    then have "closes F (Live k is) (UnconditionalBranch (return_to_block v))" using laid by simp
    from reaches_branch [OF this] show ?thesis using Ret by simp
  qed
qed

end
