(* ===== verification/FlowBuilder.thy ===== *)
theory FlowBuilder
  imports FlowLayout
begin

text \<open>
  What \<open>read_control_flow\<close> builds for well-formed code: the steps succeed, blocks that are closed
  are never touched again, and the code is laid out in every graph that completes the one built
  so far.
\<close>

section \<open>The shape of the steps\<close>

lemmas flow_defs = fresh_bb_def Let_def end_block_def set_target_def set_block_target_def add_instructions_def

abbreviation put :: "flow_graph \<Rightarrow> block_target \<Rightarrow> basic_block list" where
  "put g t \<equiv> set_block_target (bb_current g) t (bbs g)"

abbreviation size_of :: "flow_graph \<Rightarrow> nat" where
  "size_of g \<equiv> length (bbs g)"

lemma length_set_block_target [simp]: "length (set_block_target n t bs) = length bs"
  by (simp add: set_block_target_def)

lemma step_if:
  "bb_current g < size_of g \<Longrightarrow>
   graph_step (E_If c) g = Some (g\<lparr>bbs := put g (ConditionalBranch c (size_of g) (Suc (size_of g))) @ [new_block, new_block],
     bb_current := size_of g, bb_endif := Suc (size_of g) # bb_endif g\<rparr>)"
  by (simp add: flow_if_def flow_defs list_update_append nth_append)

lemma step_else:
  "bb_current g < size_of g \<Longrightarrow> bb_endif g = a # rest \<Longrightarrow>
   graph_step E_Else g = Some (g\<lparr>bbs := put g (UnconditionalBranch (size_of g)) @ [new_block],
     bb_current := a, bb_endif := size_of g # rest\<rparr>)"
  by (simp add: flow_else_def flow_defs list_update_append nth_append)

lemma step_endif:
  "bb_endif g = e # rest \<Longrightarrow>
   graph_step E_EndIf g = Some (g\<lparr>bbs := put g (UnconditionalBranch e), bb_current := e, bb_endif := rest\<rparr>)"
  by (simp add: flow_endif_def flow_defs)

lemma step_loop:
  "bb_current g < size_of g \<Longrightarrow>
   graph_step E_Loop g = Some (g\<lparr>bbs := put g (UnconditionalBranch (size_of g)) @ [new_block, new_block],
     bb_current := size_of g, bb_continue_target := size_of g # bb_continue_target g,
     bb_break_target := Suc (size_of g) # bb_break_target g\<rparr>)"
  by (simp add: flow_loop_def flow_defs list_update_append nth_append)

lemma step_endloop:
  "bb_continue_target g = c # cs \<Longrightarrow> bb_break_target g = b # bs \<Longrightarrow>
   graph_step E_EndLoop g = Some (g\<lparr>bbs := put g (UnconditionalBranch c), bb_current := b,
     bb_continue_target := cs, bb_break_target := bs\<rparr>)"
  by (simp add: flow_endloop_def flow_defs)

lemma step_break:
  "bb_break_target g = b # bs \<Longrightarrow>
   graph_step E_Break g = Some (g\<lparr>bbs := put g (UnconditionalBranch b), bb_current := 0\<rparr>)"
  by (simp add: flow_break_def flow_defs)

lemma step_continue:
  "bb_continue_target g = c # cs \<Longrightarrow>
   graph_step E_Continue g = Some (g\<lparr>bbs := put g (UnconditionalBranch c), bb_current := 0\<rparr>)"
  by (simp add: flow_continue_def flow_defs)

lemma jump_if_eq:
  "bb_current g < size_of g \<Longrightarrow>
   jump_if c n g = g\<lparr>bbs := put g (ConditionalBranch c n (size_of g)) @ [new_block], bb_current := size_of g\<rparr>"
  by (simp add: jump_if_def flow_defs list_update_append nth_append)

lemma step_switch:
  "bb_current g < size_of g \<Longrightarrow>
   graph_step (E_Switch v) g = Some (g\<lparr>bbs := put g (SwitchTarget v [] (size_of g)) @ [new_block], bb_current := 0,
     bb_break_target := size_of g # bb_break_target g, switch_ctx := bb_current g # switch_ctx g\<rparr>)"
  by (simp add: flow_switch_def flow_defs list_update_append nth_append)

lemma step_endswitch:
  "bb_break_target g = b # bs \<Longrightarrow> switch_ctx g = sw # sws \<Longrightarrow>
   graph_step E_EndSwitch g = Some (g\<lparr>bbs := put g (UnconditionalBranch b), bb_current := b,
     bb_break_target := bs, switch_ctx := sws\<rparr>)"
  by (simp add: flow_endswitch_def flow_defs)

definition put_label :: "u32 option \<Rightarrow> nat \<Rightarrow> block_target \<Rightarrow> block_target" where
  "put_label l n t =
     (case t of SwitchTarget w cases d \<Rightarrow>
        (case l of Some v \<Rightarrow> SwitchTarget w (insert_case v n cases) d | None \<Rightarrow> SwitchTarget w cases n)
      | _ \<Rightarrow> t)"

lemma step_label:
  "bb_current g < size_of g \<Longrightarrow> switch_ctx g = sw # sws \<Longrightarrow> sw < size_of g \<Longrightarrow> sw \<noteq> bb_current g \<Longrightarrow>
   target_of g sw = SwitchTarget w cases d \<Longrightarrow>
   graph_step (case l of Some v \<Rightarrow> E_Case v | None \<Rightarrow> E_Default) g =
     Some (g\<lparr>bbs := set_block_target sw (put_label l (size_of g) (target_of g sw)) (put g (UnconditionalBranch (size_of g))) @ [new_block],
       bb_current := size_of g\<rparr>)"
  by (cases l) (auto simp: put_label_def flow_case_def flow_default_def flow_defs list_update_append nth_append list_update_swap)

lemma step_ret:
  "ret_target g = Some n \<Longrightarrow> bb_break_target g \<noteq> [] \<or> bb_endif g \<noteq> [] \<Longrightarrow>
   graph_step E_Ret g = Some (g\<lparr>bbs := put g (UnconditionalBranch n), bb_current := 0\<rparr>)"
  by (auto simp add: flow_ret_def flow_defs)

lemma step_discard:
  "bb_current g < size_of g \<Longrightarrow>
   graph_step (E_Discard c) g = Some (g\<lparr>bbs := put g (ConditionalBranch c (size_of g) (Suc (size_of g))) @
     [\<lparr>block_instructions = [OtherOp InstPixelDiscard], block_target = UnconditionalBranch (Suc (size_of g))\<rparr>, new_block],
     bb_current := Suc (size_of g)\<rparr>)"
  by (simp add: flow_discard_def flow_defs list_update_append nth_append new_block_def)

section \<open>Invariant\<close>

definition pending :: "flow_graph \<Rightarrow> nat set" where
  "pending g = insert (bb_current g) (set (bb_endif g) \<union> set (bb_break_target g))"

definition is_switch :: "nat \<Rightarrow> block_target \<Rightarrow> bool" where
  "is_switch m t \<longleftrightarrow> (case t of SwitchTarget _ _ d \<Rightarrow> 0 < d \<and> d < m | _ \<Rightarrow> False)"

definition graph_ok :: "flow_graph \<Rightarrow> bool" where
  "graph_ok g \<longleftrightarrow>
     2 < size_of g \<and> bb_current g < size_of g \<and> bb_current g \<noteq> 2 \<and>
     (\<forall>n\<in>set (bb_endif g) \<union> set (bb_break_target g). 2 < n \<and> n < size_of g \<and> n \<noteq> bb_current g \<and> bbs g ! n = new_block) \<and>
     distinct (bb_endif g @ bb_break_target g) \<and>
     (\<forall>n\<in>set (switch_ctx g). 0 < n \<and> n < size_of g \<and> n \<noteq> 2 \<and> n \<notin> pending g \<and> is_switch (size_of g) (target_of g n)) \<and>
     distinct (switch_ctx g) \<and>
     (\<forall>n\<in>set (instance_ctx g). 0 < n \<and> n < size_of g \<and> n \<notin> pending g \<and> n \<notin> set (switch_ctx g)) \<and>
     ret_target g \<noteq> None"

text \<open>
  A final list of blocks completes a graph: the blocks that are pending may have got more
  instructions and a target, the switches more labels; all others are as they are.
\<close>

definition extends_switch :: "nat set \<Rightarrow> block_target \<Rightarrow> block_target \<Rightarrow> bool" where
  "extends_switch open t t' \<longleftrightarrow>
     (case (t, t') of
        (SwitchTarget w cases d, SwitchTarget w' cases' d') \<Rightarrow>
          w' = w \<and> map_of cases \<subseteq>\<^sub>m map_of cases' \<and> (d' = d \<or> d \<in> open)
      | _ \<Rightarrow> False)"

definition agrees :: "basic_block list \<Rightarrow> flow_graph \<Rightarrow> nat \<Rightarrow> bool" where
  "agrees F g n \<longleftrightarrow>
     (if n \<in> pending g then \<exists>is. block_instructions (F ! n) = block_instructions (bbs g ! n) @ is
      else if n \<in> set (switch_ctx g) then
        block_instructions (F ! n) = block_instructions (bbs g ! n) \<and>
        extends_switch (set (bb_break_target g)) (target_of g n) (block_target (F ! n))
      else F ! n = bbs g ! n)"

definition complete :: "basic_block list \<Rightarrow> flow_graph \<Rightarrow> bool" where
  "complete F g \<longleftrightarrow> size_of g \<le> length F \<and> (\<forall>n. 0 < n \<and> n < size_of g \<longrightarrow> agrees F g n)"

text \<open>One step, as far as it matters for completions.\<close>

definition evolves :: "flow_graph \<Rightarrow> flow_graph \<Rightarrow> bool" where
  "evolves g g' \<longleftrightarrow>
     size_of g \<le> size_of g' \<and>
     (\<forall>n < size_of g. 0 < n \<longrightarrow>
        (n \<in> pending g' \<longrightarrow> n \<in> pending g) \<and>
        (n \<in> set (bb_break_target g') \<longrightarrow> n \<in> set (bb_break_target g)) \<and>
        (n \<in> set (switch_ctx g') \<longrightarrow> n \<in> set (switch_ctx g) \<or> n = bb_current g) \<and>
        (if n = bb_current g then \<exists>is. block_instructions (bbs g' ! n) = block_instructions (bbs g ! n) @ is
         else if n \<in> set (switch_ctx g) then
           block_instructions (bbs g' ! n) = block_instructions (bbs g ! n) \<and>
           extends_switch (set (bb_break_target g)) (target_of g n) (target_of g' n)
         else bbs g' ! n = bbs g ! n))"

lemma agrees_prefix: "agrees F g n \<Longrightarrow> \<exists>is. block_instructions (F ! n) = block_instructions (bbs g ! n) @ is"
  by (auto simp: agrees_def split: if_splits)

lemma extends_switch_trans:
  "extends_switch A t u \<Longrightarrow> extends_switch B u v \<Longrightarrow> is_switch m t \<Longrightarrow> (\<And>n. 0 < n \<Longrightarrow> n < m \<Longrightarrow> n \<in> B \<Longrightarrow> n \<in> A) \<Longrightarrow>
     extends_switch A t v"
  by (auto simp: extends_switch_def is_switch_def split: block_target.splits elim: map_le_trans)

lemma extends_switch_refl: "is_switch m t \<Longrightarrow> extends_switch A t t"
  by (simp add: extends_switch_def is_switch_def split: block_target.splits)

lemma evolvesD:
  assumes "evolves g g'" "0 < n" "n < size_of g"
  shows "n \<in> pending g' \<Longrightarrow> n \<in> pending g"
    and "n \<in> set (bb_break_target g') \<Longrightarrow> n \<in> set (bb_break_target g)"
    and "n \<in> set (switch_ctx g') \<Longrightarrow> n \<in> set (switch_ctx g) \<or> n = bb_current g"
    and "n = bb_current g \<Longrightarrow> \<exists>is. block_instructions (bbs g' ! n) = block_instructions (bbs g ! n) @ is"
    and "n \<noteq> bb_current g \<Longrightarrow> n \<in> set (switch_ctx g) \<Longrightarrow> block_instructions (bbs g' ! n) = block_instructions (bbs g ! n) \<and>
      extends_switch (set (bb_break_target g)) (target_of g n) (target_of g' n)"
    and "n \<noteq> bb_current g \<Longrightarrow> n \<notin> set (switch_ctx g) \<Longrightarrow> bbs g' ! n = bbs g ! n"
  using assms unfolding evolves_def by presburger+

lemma agrees_back:
  assumes ok: "graph_ok g" and ev: "evolves g g'" and a: "agrees F g' n" and n: "0 < n" "n < size_of g"
  shows "agrees F g n"
proof -
  note ev = evolvesD [OF ev n]
  have "\<exists>is. block_instructions (bbs g' ! n) = block_instructions (bbs g ! n) @ is"
    using ev(4,5,6) by (metis append_Nil2)
  with agrees_prefix [OF a] have prefix: "\<exists>is. block_instructions (F ! n) = block_instructions (bbs g ! n) @ is"
    by fastforce
  consider "n \<in> pending g" | "n \<notin> pending g" "n \<in> set (switch_ctx g)" | "n \<notin> pending g" "n \<notin> set (switch_ctx g)" by blast
  then show ?thesis
  proof cases
    case 1
    with prefix show ?thesis by (simp add: agrees_def)
  next
    case 2
    then have cur: "n \<noteq> bb_current g" by (auto simp: pending_def)
    have e: "block_instructions (bbs g' ! n) = block_instructions (bbs g ! n)"
        "extends_switch (set (bb_break_target g)) (target_of g n) (target_of g' n)" "n \<notin> pending g'"
      using ev(1) ev(5) [OF cur] 2 by blast+
    have sw: "is_switch (size_of g) (target_of g n)" using ok 2 by (simp add: graph_ok_def)
    have br: "0 < k \<Longrightarrow> k < size_of g \<Longrightarrow> k \<in> set (bb_break_target g') \<Longrightarrow> k \<in> set (bb_break_target g)" for k
      using assms(2) by (rule evolvesD)
    have "extends_switch (set (bb_break_target g')) (target_of g' n) (block_target (F ! n)) \<or> F ! n = bbs g' ! n"
      "block_instructions (F ! n) = block_instructions (bbs g' ! n)"
      using a e(3) by (auto simp: agrees_def split: if_splits)
    then show ?thesis using e 2 extends_switch_trans [OF e(2) _ sw br] by (auto simp: agrees_def)
  next
    case 3
    then have cur: "n \<noteq> bb_current g" by (auto simp: pending_def)
    with 3 have "n \<notin> pending g'" "n \<notin> set (switch_ctx g')" "bbs g' ! n = bbs g ! n"
      using ev(1,3,6) by blast+
    then show ?thesis using a 3 by (simp add: agrees_def)
  qed
qed

lemma complete_back:
  assumes "graph_ok g" "evolves g g'" "complete F g'"
  shows "complete F g"
proof -
  have "size_of g \<le> size_of g'" using assms(2) by (simp add: evolves_def)
  then show ?thesis using assms agrees_back by (auto simp: complete_def)
qed

section \<open>Transitions\<close>

text \<open>
  What the steps have in common: they end or extend the current block, extend switches, and go on
  in a block that was pending or is new.
\<close>

definition transition :: "flow_graph \<Rightarrow> flow_graph \<Rightarrow> bool" where
  "transition g g' \<longleftrightarrow>
     size_of g \<le> size_of g' \<and>
     (\<forall>n < size_of g. n \<noteq> bb_current g \<and> n \<notin> set (switch_ctx g) \<longrightarrow> bbs g' ! n = bbs g ! n) \<and>
     (\<exists>is. block_instructions (bbs g' ! bb_current g) = block_instructions (bbs g ! bb_current g) @ is) \<and>
     (\<forall>n \<in> set (switch_ctx g). block_instructions (bbs g' ! n) = block_instructions (bbs g ! n) \<and>
        extends_switch (set (bb_break_target g)) (target_of g n) (target_of g' n) \<and> is_switch (size_of g') (target_of g' n)) \<and>
     instance_ctx g' = instance_ctx g \<and> func_return_point g' = func_return_point g"

text \<open>The current block and the stacks afterwards.\<close>

definition stacks_move :: "flow_graph \<Rightarrow> flow_graph \<Rightarrow> bool" where
  "stacks_move g g' \<longleftrightarrow>
     bb_current g' < size_of g' \<and> (bb_current g' = 0 \<or> bb_current g' \<in> pending g \<or> size_of g \<le> bb_current g') \<and>
     bb_current g' \<notin> set (bb_endif g') \<union> set (bb_break_target g') \<and>
     distinct (bb_endif g' @ bb_break_target g') \<and>
     (\<forall>n \<in> set (bb_endif g') \<union> set (bb_break_target g').
        n \<noteq> bb_current g \<and> (n \<in> set (bb_endif g) \<union> set (bb_break_target g) \<or> size_of g \<le> n \<and> n < size_of g' \<and> bbs g' ! n = new_block)) \<and>
     (\<forall>n \<in> set (bb_break_target g'). n < size_of g \<longrightarrow> n \<in> set (bb_break_target g)) \<and>
     (set (switch_ctx g') \<subseteq> set (switch_ctx g) \<and> distinct (switch_ctx g') \<or>
      switch_ctx g' = bb_current g # switch_ctx g \<and> 0 < bb_current g \<and> bb_current g' \<noteq> bb_current g \<and>
      is_switch (size_of g') (target_of g' (bb_current g)))"

lemma ret_target_same:
  "instance_ctx g' = instance_ctx g \<Longrightarrow> func_return_point g' = func_return_point g \<Longrightarrow>
     (\<And>n. n \<in> set (instance_ctx g) \<Longrightarrow> bbs g' ! n = bbs g ! n) \<Longrightarrow> ret_target g' = ret_target g"
  by (auto simp: ret_target_def split: option.splits list.splits)

lemma graph_okD:
  assumes "graph_ok g"
  shows "2 < size_of g" "bb_current g < size_of g" "bb_current g \<noteq> 2" "distinct (bb_endif g @ bb_break_target g)"
    and "n \<in> set (bb_endif g) \<union> set (bb_break_target g) \<Longrightarrow> 2 < n \<and> n < size_of g \<and> n \<noteq> bb_current g \<and> bbs g ! n = new_block"
    and "n \<in> set (switch_ctx g) \<Longrightarrow> 0 < n \<and> n < size_of g \<and> n \<noteq> 2 \<and> n \<notin> pending g \<and> is_switch (size_of g) (target_of g n)"
    and "distinct (switch_ctx g)"
    and "n \<in> set (instance_ctx g) \<Longrightarrow> 0 < n \<and> n < size_of g \<and> n \<notin> pending g \<and> n \<notin> set (switch_ctx g)"
    and "ret_target g \<noteq> None"
  using assms by (simp_all add: graph_ok_def)

lemma stacks_move_cur:
  "stacks_move g g' \<Longrightarrow> bb_current g' < size_of g' \<and> (bb_current g' = 0 \<or> bb_current g' \<in> pending g \<or> size_of g \<le> bb_current g')"
  by (simp add: stacks_move_def)

lemma stacks_move_in:
  assumes "stacks_move g g'" "n \<in> set (bb_endif g') \<union> set (bb_break_target g')"
  shows "n \<noteq> bb_current g'" "n \<noteq> bb_current g"
    and "n \<in> set (bb_endif g) \<union> set (bb_break_target g) \<or> size_of g \<le> n \<and> n < size_of g' \<and> bbs g' ! n = new_block"
proof -
  show "n \<noteq> bb_current g'" using assms unfolding stacks_move_def by metis
  have "n \<noteq> bb_current g \<and> (n \<in> set (bb_endif g) \<union> set (bb_break_target g) \<or> size_of g \<le> n \<and> n < size_of g' \<and> bbs g' ! n = new_block)"
    using assms(1) unfolding stacks_move_def by (elim conjE) (rule bspec [OF _ assms(2)])
  then show "n \<noteq> bb_current g"
    "n \<in> set (bb_endif g) \<union> set (bb_break_target g) \<or> size_of g \<le> n \<and> n < size_of g' \<and> bbs g' ! n = new_block"
    by simp_all
qed

lemma stacks_move_switch:
  assumes "stacks_move g g'" "n \<in> set (switch_ctx g')"
  shows "n \<in> set (switch_ctx g) \<or> n = bb_current g \<and> 0 < n \<and> n \<noteq> bb_current g' \<and> is_switch (size_of g') (target_of g' n)"
proof -
  have "set (switch_ctx g') \<subseteq> set (switch_ctx g) \<or>
    switch_ctx g' = bb_current g # switch_ctx g \<and> 0 < bb_current g \<and> bb_current g' \<noteq> bb_current g \<and>
      is_switch (size_of g') (target_of g' (bb_current g))"
    using assms(1) unfolding stacks_move_def by (elim conjE) blast
  then show ?thesis
  proof
    assume "set (switch_ctx g') \<subseteq> set (switch_ctx g)"
    then show ?thesis using assms(2) by blast
  next
    assume "switch_ctx g' = bb_current g # switch_ctx g \<and> 0 < bb_current g \<and> bb_current g' \<noteq> bb_current g \<and>
      is_switch (size_of g') (target_of g' (bb_current g))"
    then show ?thesis using assms(2) by auto
  qed
qed

lemma stacks_move_pending:
  assumes "stacks_move g g'" "n \<in> pending g'"
  shows "n = 0 \<or> n \<in> pending g \<or> size_of g \<le> n"
proof (cases "n = bb_current g'")
  case True
  then show ?thesis using stacks_move_cur [OF assms(1)] by simp
next
  case False
  then have "n \<in> set (bb_endif g') \<union> set (bb_break_target g')" using assms(2) by (simp add: pending_def)
  from stacks_move_in(3) [OF assms(1) this] show ?thesis by (auto simp: pending_def)
qed

lemma transition_evolves:
  assumes ok: "graph_ok g" and t: "transition g g'" and s: "stacks_move g g'"
  shows "evolves g g'"
  unfolding evolves_def
proof (intro conjI allI impI)
  show "size_of g \<le> size_of g'" using t by (simp add: transition_def)
  fix n assume n: "n < size_of g" "0 < n"
  show "n \<in> pending g" if "n \<in> pending g'" using stacks_move_pending [OF s that] n by simp
  show "n \<in> set (bb_break_target g)" if "n \<in> set (bb_break_target g')"
    using s that n(1) unfolding stacks_move_def by (elim conjE) blast
  show "n \<in> set (switch_ctx g) \<or> n = bb_current g" if "n \<in> set (switch_ctx g')"
    using stacks_move_switch [OF s that] by blast
  show "if n = bb_current g then \<exists>is. block_instructions (bbs g' ! n) = block_instructions (bbs g ! n) @ is
      else if n \<in> set (switch_ctx g) then block_instructions (bbs g' ! n) = block_instructions (bbs g ! n) \<and>
        extends_switch (set (bb_break_target g)) (target_of g n) (target_of g' n)
      else bbs g' ! n = bbs g ! n"
    using t n(1) by (simp add: transition_def)
qed

lemma stacks_move_distinct:
  assumes ok: "graph_ok g" and s: "stacks_move g g'"
  shows "distinct (switch_ctx g')"
proof -
  have "bb_current g \<notin> set (switch_ctx g)" using graph_okD(6) [OF ok, of "bb_current g"] by (auto simp: pending_def)
  then show ?thesis using s graph_okD(7) [OF ok] unfolding stacks_move_def by auto
qed

lemma transition_stacks:
  assumes ok: "graph_ok g" and t: "transition g g'" and s: "stacks_move g g'"
    and n: "n \<in> set (bb_endif g') \<union> set (bb_break_target g')"
  shows "2 < n \<and> n < size_of g' \<and> n \<noteq> bb_current g' \<and> bbs g' ! n = new_block"
proof -
  from stacks_move_in(1,3) [OF s n] consider "n \<noteq> bb_current g'" "n \<in> set (bb_endif g) \<union> set (bb_break_target g)"
    | "n \<noteq> bb_current g'" "size_of g \<le> n" "n < size_of g'" "bbs g' ! n = new_block" by blast
  then show ?thesis
  proof cases
    case 1
    from graph_okD(5) [OF ok 1(2)] have m: "2 < n" "n \<noteq> bb_current g" "bbs g ! n = new_block" "n < size_of g" by auto
    moreover have "n \<notin> set (switch_ctx g)" using graph_okD(6) [OF ok, of n] 1(2) by (auto simp: pending_def)
    ultimately have "bbs g' ! n = new_block" using t by (simp add: transition_def)
    then show ?thesis using m 1 t by (simp add: transition_def)
  qed (use graph_okD(1) [OF ok] in simp)
qed

lemma transition_switches:
  assumes ok: "graph_ok g" and t: "transition g g'" and s: "stacks_move g g'" and n: "n \<in> set (switch_ctx g')"
  shows "0 < n \<and> n < size_of g' \<and> n \<noteq> 2 \<and> n \<notin> pending g' \<and> is_switch (size_of g') (target_of g' n)"
proof -
  have le: "size_of g \<le> size_of g'" using t by (simp add: transition_def)
  from stacks_move_switch [OF s n] consider "n \<in> set (switch_ctx g)"
    | "n = bb_current g" "0 < n" "n \<noteq> bb_current g'" "is_switch (size_of g') (target_of g' n)" by blast
  then show ?thesis
  proof cases
    case 1
    from graph_okD(6) [OF ok this] have m: "0 < n" "n < size_of g" "n \<noteq> 2" "n \<notin> pending g" by auto
    then have "n \<notin> pending g'" using stacks_move_pending [OF s, of n] by auto
    moreover have "is_switch (size_of g') (target_of g' n)" using 1 t by (simp add: transition_def)
    ultimately show ?thesis using m le by simp
  next
    case 2
    then have "n \<notin> pending g'" using stacks_move_in(2) [OF s, of n] by (auto simp: pending_def)
    then show ?thesis using 2 graph_okD(2,3) [OF ok] le by simp
  qed
qed

lemma transition_ret_target:
  assumes ok: "graph_ok g" and t: "transition g g'"
  shows "ret_target g' = ret_target g"
proof (rule ret_target_same)
  fix n assume "n \<in> set (instance_ctx g)"
  from graph_okD(8) [OF ok this] show "bbs g' ! n = bbs g ! n" using t by (simp add: transition_def pending_def)
qed (use t in \<open>simp_all add: transition_def\<close>)

lemma transition_ok:
  assumes ok: "graph_ok g" and t: "transition g g'" and s: "stacks_move g g'"
  shows "graph_ok g'"
  unfolding graph_ok_def
proof (intro conjI ballI)
  show "2 < size_of g'" using t graph_okD(1) [OF ok] by (simp add: transition_def)
  have "2 \<notin> pending g" using graph_okD(3) [OF ok] graph_okD(5) [OF ok, of 2] by (auto simp: pending_def)
  then show "bb_current g' \<noteq> 2" using stacks_move_cur [OF s] graph_okD(1) [OF ok] by auto
  show "distinct (switch_ctx g')" using ok s by (rule stacks_move_distinct)
  show "ret_target g' \<noteq> None" using transition_ret_target [OF ok t] graph_okD(9) [OF ok] by simp
  fix n assume "n \<in> set (instance_ctx g')"
  then have "0 < n \<and> n < size_of g \<and> n \<notin> pending g \<and> n \<notin> set (switch_ctx g)"
    using t graph_okD(8) [OF ok] by (simp add: transition_def)
  moreover have "n \<notin> set (switch_ctx g')" using calculation stacks_move_switch [OF s, of n] by (auto simp: pending_def)
  moreover have "size_of g \<le> size_of g'" using t by (simp add: transition_def)
  ultimately show "0 < n" "n < size_of g'" "n \<notin> pending g'" "n \<notin> set (switch_ctx g')"
    using stacks_move_pending [OF s, of n] by auto
qed (use transition_stacks [OF ok t s] transition_switches [OF ok t s] stacks_move_cur [OF s] s in \<open>auto simp: stacks_move_def\<close>)

section \<open>Progress\<close>

text \<open>
  Several steps: blocks numbered below \<open>m\<close> stay as they are, except for the current one and \<open>X\<close>.
\<close>

definition progress :: "nat \<Rightarrow> nat set \<Rightarrow> flow_graph \<Rightarrow> flow_graph \<Rightarrow> bool" where
  "progress m X g g' \<longleftrightarrow>
     graph_ok g' \<and> m \<le> size_of g \<and> size_of g \<le> size_of g' \<and>
     instance_ctx g' = instance_ctx g \<and> func_return_point g' = func_return_point g \<and> ret_target g' = ret_target g \<and>
     (\<forall>F. complete F g' \<longrightarrow> complete F g) \<and>
     (bb_current g' = 0 \<or> bb_current g' = bb_current g \<or> m \<le> bb_current g') \<and>
     (\<forall>n < m. 0 < n \<and> n \<noteq> bb_current g \<and> n \<notin> X \<longrightarrow> bbs g' ! n = bbs g ! n)"

lemma progress_refl: "graph_ok g \<Longrightarrow> m \<le> size_of g \<Longrightarrow> progress m X g g"
  by (simp add: progress_def)

lemma progressD:
  assumes "progress m X g g'"
  shows "graph_ok g'" "m \<le> size_of g" "size_of g \<le> size_of g'"
    and "instance_ctx g' = instance_ctx g" "func_return_point g' = func_return_point g" "ret_target g' = ret_target g"
    and "complete F g' \<Longrightarrow> complete F g"
    and "bb_current g' = 0 \<or> bb_current g' = bb_current g \<or> m \<le> bb_current g'"
    and "n < m \<Longrightarrow> 0 < n \<Longrightarrow> n \<noteq> bb_current g \<Longrightarrow> n \<notin> X \<Longrightarrow> bbs g' ! n = bbs g ! n"
  using assms by (simp_all add: progress_def)

lemma progress_trans:
  assumes 1: "progress m X g g1" and 2: "progress m Y g1 g2"
  shows "progress m (X \<union> Y) g g2"
  unfolding progress_def
proof (intro conjI allI impI)
  show "bb_current g2 = 0 \<or> bb_current g2 = bb_current g \<or> m \<le> bb_current g2"
    using progressD(8) [OF 1] progressD(8) [OF 2] by auto
  fix n assume n: "n < m" "0 < n \<and> n \<noteq> bb_current g \<and> n \<notin> X \<union> Y"
  then have "n \<noteq> bb_current g1" using progressD(8) [OF 1] by auto
  then show "bbs g2 ! n = bbs g ! n" using n progressD(9) [OF 1, of n] progressD(9) [OF 2, of n] by simp
qed (use progressD(1-7) [OF 1] progressD(1-7) [OF 2] in simp_all)

lemma progress_mono:
  assumes 1: "progress m X g g'" and k: "k \<le> m" and X: "X \<inter> {0<..<k} \<subseteq> insert (bb_current g) Y"
  shows "progress k Y g g'"
  unfolding progress_def
proof (intro conjI allI impI)
  show "bb_current g' = 0 \<or> bb_current g' = bb_current g \<or> k \<le> bb_current g'"
    using progressD(8) [OF 1] k by auto
  fix n assume n: "n < k" "0 < n \<and> n \<noteq> bb_current g \<and> n \<notin> Y"
  then have "n \<notin> X" using X by auto
  then show "bbs g' ! n = bbs g ! n" using n k progressD(9) [OF 1, of n] by simp
qed (use progressD(1-7) [OF 1] k in simp_all)

lemma transition_progress:
  assumes ok: "graph_ok g" and t: "transition g g'" and s: "stacks_move g g'"
    and cur: "bb_current g' = 0 \<or> bb_current g' = bb_current g \<or> m \<le> bb_current g'"
    and same: "\<And>n. n < m \<Longrightarrow> n \<noteq> bb_current g \<Longrightarrow> n \<notin> X \<Longrightarrow> bbs g' ! n = bbs g ! n" and m: "m \<le> size_of g"
  shows "progress m X g g'"
  unfolding progress_def
  using transition_ok [OF ok t s] transition_ret_target [OF ok t] complete_back [OF ok transition_evolves [OF ok t s]]
    cur same m t by (simp add: transition_def)

lemma is_switch_mono: "is_switch m t \<Longrightarrow> m \<le> k \<Longrightarrow> is_switch k t"
  by (auto simp: is_switch_def split: block_target.splits)

lemma plain_transition:
  assumes ok: "graph_ok g" and "size_of g \<le> size_of g'" "instance_ctx g' = instance_ctx g" "func_return_point g' = func_return_point g"
    and same: "\<And>n. n < size_of g \<Longrightarrow> n \<noteq> bb_current g \<Longrightarrow> bbs g' ! n = bbs g ! n"
    and cur: "\<exists>is. block_instructions (bbs g' ! bb_current g) = block_instructions (bbs g ! bb_current g) @ is"
  shows "transition g g'"
proof -
  have "bbs g' ! n = bbs g ! n \<and> is_switch (size_of g) (target_of g n)" if "n \<in> set (switch_ctx g)" for n
    using graph_okD(6) [OF ok that] same by (auto simp: pending_def)
  then show ?thesis
    using assms by (auto simp: transition_def intro: extends_switch_refl is_switch_mono)
qed

lemma nth_put:
  "n < size_of g \<Longrightarrow> (put g t @ news) ! n = (if n = bb_current g then (bbs g ! n)\<lparr>block_target := t\<rparr> else bbs g ! n)"
  by (simp add: set_block_target_def nth_append)

lemma put_transition:
  assumes ok: "graph_ok g" and "bbs g' = put g t @ news" "instance_ctx g' = instance_ctx g" "func_return_point g' = func_return_point g"
  shows "transition g g'"
  using assms graph_okD(2) [OF ok] by (intro plain_transition [OF ok]) (simp_all add: nth_put)

lemma put_progress:
  assumes ok: "graph_ok g" and b: "bbs g' = put g t @ news"
    and i: "instance_ctx g' = instance_ctx g" "func_return_point g' = func_return_point g" and s: "stacks_move g g'"
    and cur: "bb_current g' = 0 \<or> bb_current g' = bb_current g \<or> m \<le> bb_current g'" and m: "m \<le> size_of g"
  shows "progress m {} g g'"
  by (rule transition_progress [OF ok put_transition [OF ok b i] s cur]) (use m b in \<open>simp_all add: nth_put\<close>)

section \<open>Places\<close>

definition place_of :: "basic_block list \<Rightarrow> flow_graph \<Rightarrow> place" where
  "place_of F g =
     (if bb_current g = 0 then Dead
      else Live (bb_current g) (drop (length (block_instructions (bbs g ! bb_current g))) (block_instructions (F ! bb_current g))))"

lemma place_start: "0 < bb_current g \<Longrightarrow> block_instructions (bbs g ! bb_current g) = [] \<Longrightarrow> place_of F g = block_start F (bb_current g)"
  by (simp add: place_of_def block_start_def)

lemma place_dead [simp]: "bb_current g = 0 \<Longrightarrow> place_of F g = Dead"
  by (simp add: place_of_def)

lemma closed_complete:
  "complete F g \<Longrightarrow> 0 < n \<Longrightarrow> n < size_of g \<Longrightarrow> n \<notin> pending g \<Longrightarrow> n \<notin> set (switch_ctx g) \<Longrightarrow> F ! n = bbs g ! n"
  by (simp add: complete_def agrees_def)

lemma closes_closed:
  assumes "complete F g'" "bb_current g < size_of g'" "bb_current g \<notin> pending g'" "bb_current g \<notin> set (switch_ctx g')"
    and "block_instructions (bbs g' ! bb_current g) = block_instructions (bbs g ! bb_current g)"
    and "target_of g' (bb_current g) = t"
  shows "closes F (place_of F g) t"
proof (cases "bb_current g = 0")
  case False
  then have "F ! bb_current g = bbs g' ! bb_current g" using assms by (intro closed_complete) auto
  then show ?thesis using assms(5,6) False by (simp add: place_of_def closes_Live)
qed simp

lemma closes_put:
  assumes ok: "graph_ok g" and F: "complete F g'" and b: "bbs g' = put g t @ news" and s: "stacks_move g g'"
    and cur: "bb_current g' \<noteq> bb_current g \<or> bb_current g = 0" and sw: "set (switch_ctx g') \<subseteq> set (switch_ctx g)"
  shows "closes F (place_of F g) t"
proof (cases "bb_current g = 0")
  case False
  have "bb_current g \<notin> pending g'"
    using stacks_move_in(2) [OF s, of "bb_current g"] cur False by (auto simp: pending_def)
  moreover have "bb_current g \<notin> set (switch_ctx g')"
    using sw graph_okD(6) [OF ok, of "bb_current g"] by (auto simp: pending_def)
  ultimately show ?thesis
    using graph_okD(2) [OF ok] by (intro closes_closed [OF F]) (simp_all add: b nth_put)
qed simp

end
