(* ===== verification/FlowCompile.thy ===== *)
theory FlowCompile
  imports FlowBuilder
begin

text \<open>
  The graph that the steps build for well-formed code: every step and every statement makes
  progress, and the code is laid out in it.
\<close>

section \<open>The steps make progress\<close>

definition same_stacks :: "flow_graph \<Rightarrow> flow_graph \<Rightarrow> bool" where
  "same_stacks g g' \<longleftrightarrow>
     bb_endif g' = bb_endif g \<and> bb_continue_target g' = bb_continue_target g \<and>
     bb_break_target g' = bb_break_target g \<and> switch_ctx g' = switch_ctx g"

text \<open>A step that ends the current block with \<open>t\<close>, adds blocks and changes the stacks.\<close>

definition block_step :: "flow_event \<Rightarrow> flow_graph \<Rightarrow> block_target \<Rightarrow> basic_block list \<Rightarrow> flow_graph \<Rightarrow> bool" where
  "block_step e g t news g' \<longleftrightarrow>
     graph_step e g = Some g' \<and> bbs g' = put g t @ news \<and>
     instance_ctx g' = instance_ctx g \<and> func_return_point g' = func_return_point g \<and> stacks_move g g'"

lemma block_step_progress:
  "graph_ok g \<Longrightarrow> block_step e g t news g' \<Longrightarrow>
     bb_current g' = 0 \<or> bb_current g' = bb_current g \<or> m \<le> bb_current g' \<Longrightarrow> m \<le> size_of g \<Longrightarrow> progress m {} g g'"
  unfolding block_step_def by (elim conjE) (rule put_progress)

lemma block_step_closes:
  "graph_ok g \<Longrightarrow> block_step e g t news g' \<Longrightarrow> complete F g' \<Longrightarrow> bb_current g' \<noteq> bb_current g \<or> bb_current g = 0 \<Longrightarrow>
     set (switch_ctx g') \<subseteq> set (switch_ctx g) \<Longrightarrow> closes F (place_of F g) t"
  unfolding block_step_def by (elim conjE) (rule closes_put)

lemma old_stacks:
  "graph_ok g \<Longrightarrow> n \<in> set (bb_endif g) \<Longrightarrow> 2 < n \<and> n < size_of g \<and> n \<noteq> bb_current g"
  "graph_ok g \<Longrightarrow> n \<in> set (bb_break_target g) \<Longrightarrow> 2 < n \<and> n < size_of g \<and> n \<noteq> bb_current g"
  using graph_okD(5) by blast+

lemma fresh_stacks:
  assumes "graph_ok g" "size_of g \<le> k"
  shows "k \<notin> set (bb_endif g)" "k \<notin> set (bb_break_target g)" "bb_current g \<noteq> k" "k \<noteq> bb_current g"
  using old_stacks [OF assms(1)] graph_okD(2) [OF assms(1)] assms(2) by fastforce+

lemma no_stacks:
  assumes "graph_ok g"
  shows "0 \<notin> set (bb_endif g)" "0 \<notin> set (bb_break_target g)"
    and "bb_current g \<notin> set (bb_endif g)" "bb_current g \<notin> set (bb_break_target g)"
    and "\<forall>n\<in>set (bb_endif g). n \<noteq> bb_current g" "\<forall>n\<in>set (bb_break_target g). n \<noteq> bb_current g"
    and "\<forall>n\<in>set (bb_endif g). n < size_of g" "\<forall>n\<in>set (bb_break_target g). n < size_of g"
    and "0 < size_of g" "0 \<noteq> size_of g" "bbs g \<noteq> []"
  using old_stacks [OF assms] graph_okD(1) [OF assms] by fastforce+

lemmas stack_facts = stacks_move_def pending_def nth_append

lemma if_step:
  assumes ok: "graph_ok g"
  shows "block_step (E_If c) g (ConditionalBranch c (size_of g) (Suc (size_of g))) [new_block, new_block]
    (g\<lparr>bbs := put g (ConditionalBranch c (size_of g) (Suc (size_of g))) @ [new_block, new_block],
       bb_current := size_of g, bb_endif := Suc (size_of g) # bb_endif g\<rparr>)"
  using step_if [OF graph_okD(2) [OF ok]] no_stacks [OF ok] fresh_stacks [OF ok] graph_okD(4,7) [OF ok]
  by (auto simp: block_step_def stack_facts)

lemma endif_step:
  assumes ok: "graph_ok g" and e: "bb_endif g = e # rest"
  shows "block_step E_EndIf g (UnconditionalBranch e) []
    (g\<lparr>bbs := put g (UnconditionalBranch e), bb_current := e, bb_endif := rest\<rparr>)"
  using step_endif [OF e] no_stacks [OF ok] fresh_stacks [OF ok] graph_okD(4,7) [OF ok] e
  by (auto simp: block_step_def stack_facts)

lemma else_step:
  assumes ok: "graph_ok g" and e: "bb_endif g = a # rest"
  shows "block_step E_Else g (UnconditionalBranch (size_of g)) [new_block]
    (g\<lparr>bbs := put g (UnconditionalBranch (size_of g)) @ [new_block], bb_current := a, bb_endif := size_of g # rest\<rparr>)"
  using step_else [OF graph_okD(2) [OF ok] e] no_stacks [OF ok] fresh_stacks [OF ok] graph_okD(4,7) [OF ok] e
  by (auto simp: block_step_def stack_facts)

lemma loop_step:
  assumes ok: "graph_ok g"
  shows "block_step E_Loop g (UnconditionalBranch (size_of g)) [new_block, new_block]
    (g\<lparr>bbs := put g (UnconditionalBranch (size_of g)) @ [new_block, new_block],
       bb_current := size_of g, bb_continue_target := size_of g # bb_continue_target g,
       bb_break_target := Suc (size_of g) # bb_break_target g\<rparr>)"
  using step_loop [OF graph_okD(2) [OF ok]] no_stacks [OF ok] fresh_stacks [OF ok] graph_okD(4,7) [OF ok]
  by (auto simp: block_step_def stack_facts)

lemma endloop_step:
  assumes ok: "graph_ok g" and c: "bb_continue_target g = c # cs" and b: "bb_break_target g = b # bs"
  shows "block_step E_EndLoop g (UnconditionalBranch c) []
    (g\<lparr>bbs := put g (UnconditionalBranch c), bb_current := b, bb_continue_target := cs, bb_break_target := bs\<rparr>)"
  using step_endloop [OF c b] no_stacks [OF ok] fresh_stacks [OF ok] graph_okD(4,7) [OF ok] b
  by (auto simp: block_step_def stack_facts)

text \<open>The steps that end the block with a jump.\<close>

lemma jump_step:
  assumes ok: "graph_ok g"
    and e: "graph_step e g = Some (g\<lparr>bbs := put g t, bb_current := 0\<rparr>)"
  shows "block_step e g t [] (g\<lparr>bbs := put g t, bb_current := 0\<rparr>)"
  using e no_stacks [OF ok] graph_okD(4,7) [OF ok] by (auto simp: block_step_def stack_facts)

lemma branch_step:
  assumes ok: "graph_ok g"
    and e: "graph_step e g = Some (g\<lparr>bbs := put g t @ [new_block], bb_current := size_of g\<rparr>)"
  shows "block_step e g t [new_block] (g\<lparr>bbs := put g t @ [new_block], bb_current := size_of g\<rparr>)"
  using e no_stacks [OF ok] fresh_stacks [OF ok] graph_okD(4,7) [OF ok] by (auto simp: block_step_def stack_facts)

lemma discard_step:
  assumes ok: "graph_ok g"
  shows "block_step (E_Discard c) g (ConditionalBranch c (size_of g) (Suc (size_of g)))
    [\<lparr>block_instructions = [OtherOp InstPixelDiscard], block_target = UnconditionalBranch (Suc (size_of g))\<rparr>, new_block]
    (g\<lparr>bbs := put g (ConditionalBranch c (size_of g) (Suc (size_of g))) @
      [\<lparr>block_instructions = [OtherOp InstPixelDiscard], block_target = UnconditionalBranch (Suc (size_of g))\<rparr>, new_block],
      bb_current := Suc (size_of g)\<rparr>)"
  using step_discard [OF graph_okD(2) [OF ok]] no_stacks [OF ok] fresh_stacks [OF ok] graph_okD(4,7) [OF ok]
  by (auto simp: block_step_def stack_facts)

lemma switch_step:
  assumes ok: "graph_ok g" and live: "bb_current g \<noteq> 0"
  shows "block_step (E_Switch v) g (SwitchTarget v [] (size_of g)) [new_block]
    (g\<lparr>bbs := put g (SwitchTarget v [] (size_of g)) @ [new_block], bb_current := 0,
       bb_break_target := size_of g # bb_break_target g, switch_ctx := bb_current g # switch_ctx g\<rparr>)"
  using step_switch [OF graph_okD(2) [OF ok]] no_stacks [OF ok] fresh_stacks [OF ok] graph_okD(2,4,7) [OF ok] live
  by (auto simp: block_step_def stack_facts is_switch_def set_block_target_def)

lemma endswitch_step:
  assumes ok: "graph_ok g" and b: "bb_break_target g = b # bs" and sw: "switch_ctx g = sw # sws"
  shows "block_step E_EndSwitch g (UnconditionalBranch b) []
    (g\<lparr>bbs := put g (UnconditionalBranch b), bb_current := b, bb_break_target := bs, switch_ctx := sws\<rparr>)"
  using step_endswitch [OF b sw] no_stacks [OF ok] fresh_stacks [OF ok] graph_okD(4,7) [OF ok] b sw
  by (auto simp: block_step_def stack_facts)

text \<open>Instructions are added to the current block.\<close>

lemma straight_step:
  fixes js :: "Instruction list"
  assumes ok: "graph_ok g" and m: "m \<le> size_of g"
  defines "g' \<equiv> add_instructions (bb_current g) js g"
  shows "graph_step (Straight js) g = Some g'" "progress m {} g g'" "same_stacks g g'" "bb_current g' = bb_current g"
proof -
  have b: "bbs g' ! n = (if n = bb_current g then (bbs g ! n)\<lparr>block_instructions := block_instructions (bbs g ! n) @ js\<rparr> else bbs g ! n)"
    if "n < size_of g" for n
    using that by (simp add: g'_def add_instructions_def)
  have "transition g g'" using b graph_okD(2) [OF ok]
    by (intro plain_transition [OF ok]) (simp_all add: g'_def add_instructions_def)
  moreover have "stacks_move g g'" using no_stacks [OF ok] graph_okD(2,4,7) [OF ok]
    by (auto simp: g'_def add_instructions_def stack_facts)
  ultimately show "progress m {} g g'" using b m
    by (intro transition_progress [OF ok]) (simp_all add: g'_def add_instructions_def)
qed (simp_all add: g'_def same_stacks_def add_instructions_def)

section \<open>Labels\<close>

lemma map_of_insort: "v \<notin> fst ` set xs \<Longrightarrow> map_of (insort_key fst (v, n) xs) = (map_of xs)(v \<mapsto> n)"
  by (induction xs) (auto simp: fun_upd_twist)

lemma insert_case_map: "v \<notin> fst ` set cases \<Longrightarrow> map_of (insert_case v n cases) = (map_of cases)(v \<mapsto> n)"
  by (simp add: insert_case_def map_of_insort)

lemma insert_case_keys: "fst ` set (insert_case v n cases) = insert v (fst ` set cases)"
  by (auto simp: insert_case_def set_insort_key)

text \<open>A label that the switch does not have yet.\<close>

definition label_free :: "nat set \<Rightarrow> u32 option \<Rightarrow> block_target \<Rightarrow> bool" where
  "label_free open l t \<longleftrightarrow>
     (case t of SwitchTarget w cases d \<Rightarrow> (case l of Some v \<Rightarrow> v \<notin> fst ` set cases | None \<Rightarrow> d \<in> open) | _ \<Rightarrow> False)"

definition labels_of_target :: "block_target \<Rightarrow> u32 option \<Rightarrow> nat option" where
  "labels_of_target t = (case t of SwitchTarget w cases d \<Rightarrow> switch_labels cases d | _ \<Rightarrow> Map.empty)"

definition labels_added :: "u32 option set \<Rightarrow> block_target \<Rightarrow> block_target \<Rightarrow> bool" where
  "labels_added L t t' \<longleftrightarrow>
     (case (t, t') of
        (SwitchTarget w cases d, SwitchTarget w' cases' d') \<Rightarrow>
          w' = w \<and> Some ` fst ` set cases' = Some ` fst ` set cases \<union> (L - {None}) \<and> (None \<notin> L \<longrightarrow> d' = d)
      | _ \<Rightarrow> False)"

lemma labels_added_refl: "is_switch m t \<Longrightarrow> labels_added {} t t"
  by (simp add: labels_added_def is_switch_def split: block_target.splits)

lemma labels_added_trans: "labels_added L t u \<Longrightarrow> labels_added K u v \<Longrightarrow> labels_added (L \<union> K) t v"
  by (auto simp: labels_added_def split: block_target.splits)

lemma put_label_switch:
  assumes "label_free A l t" "is_switch m t" "0 < k" "k < j" "m \<le> j"
  shows "extends_switch A t (put_label l k t)" "is_switch j (put_label l k t)" "labels_added {l} t (put_label l k t)"
    "labels_of_target (put_label l k t) l = Some k"
  using assms
  by (auto simp: label_free_def is_switch_def put_label_def extends_switch_def labels_added_def labels_of_target_def
      switch_labels_def insert_case_map insert_case_keys map_le_def split: block_target.splits option.splits)
    (force dest: map_of_SomeD)

lemma labels_of_extension:
  "extends_switch A t u \<Longrightarrow> labels_of_target t l = Some k \<Longrightarrow> k \<notin> A \<Longrightarrow> labels_of_target u l = Some k"
  by (auto simp: extends_switch_def labels_of_target_def switch_labels_def map_le_def dom_def
      split: block_target.splits option.splits)

text \<open>The step of a label.\<close>

lemma label_step:
  assumes ok: "graph_ok g" and sw: "switch_ctx g = sw # sws"
    and free: "label_free (set (bb_break_target g)) l (target_of g sw)" and m: "m \<le> size_of g"
  shows "\<exists>g'. graph_step (case l of Some v \<Rightarrow> E_Case v | None \<Rightarrow> E_Default) g = Some g' \<and>
    progress m {sw} g g' \<and> same_stacks g g' \<and> bb_current g' = size_of g \<and> bbs g' ! size_of g = new_block \<and>
    labels_added {l} (target_of g sw) (target_of g' sw) \<and>
    (\<forall>F. complete F g' \<longrightarrow> closes F (place_of F g) (UnconditionalBranch (size_of g)) \<and>
       labels_of_target (block_target (F ! sw)) l = Some (size_of g))"
proof -
  from graph_okD(6) [OF ok, of sw] sw have w: "0 < sw" "sw < size_of g" "sw \<noteq> bb_current g" "is_switch (size_of g) (target_of g sw)"
    by (auto simp: pending_def)
  then obtain x cases d where t: "target_of g sw = SwitchTarget x cases d"
    by (auto simp: is_switch_def split: block_target.splits)
  let ?t = "put_label l (size_of g) (target_of g sw)"
  define g' where "g' = g\<lparr>bbs := set_block_target sw ?t (put g (UnconditionalBranch (size_of g))) @ [new_block],
    bb_current := size_of g\<rparr>"
  have len: "size_of g' = Suc (size_of g)" by (simp add: g'_def)
  have nth: "bbs g' ! n = (if n = sw then (bbs g ! sw)\<lparr>block_target := ?t\<rparr>
      else if n = bb_current g then (bbs g ! n)\<lparr>block_target := UnconditionalBranch (size_of g)\<rparr> else bbs g ! n)"
    if "n < size_of g" for n
    using that w by (simp add: g'_def set_block_target_def nth_append)
  have pos: "0 < size_of g" using graph_okD(1) [OF ok] by linarith
  note p = put_label_switch [OF free w(4) pos, of "Suc (size_of g)"]
  have others: "bbs g' ! n = bbs g ! n \<and> is_switch (size_of g) (target_of g n)" if "n \<in> set sws" for n
    using graph_okD(6) [OF ok, of n] graph_okD(7) [OF ok] that sw nth [of n] by (auto simp: pending_def)
  have tr: "transition g g'"
    unfolding transition_def
  proof (intro conjI ballI)
    show "\<exists>is. block_instructions (bbs g' ! bb_current g) = block_instructions (bbs g ! bb_current g) @ is"
      using nth [of "bb_current g"] graph_okD(2) [OF ok] w(3) by simp
    show "\<forall>n < size_of g. n \<noteq> bb_current g \<and> n \<notin> set (switch_ctx g) \<longrightarrow> bbs g' ! n = bbs g ! n"
      using nth sw by simp
    fix n assume n: "n \<in> set (switch_ctx g)"
    show "block_instructions (bbs g' ! n) = block_instructions (bbs g ! n)"
      "extends_switch (set (bb_break_target g)) (target_of g n) (target_of g' n)" "is_switch (size_of g') (target_of g' n)"
      using n sw others [of n] nth [of sw] w p len by (auto intro: extends_switch_refl is_switch_mono)
  qed (simp_all add: g'_def)
  have sm: "stacks_move g g'" using no_stacks [OF ok] fresh_stacks [OF ok] graph_okD(4,7) [OF ok] len
    by (auto simp: g'_def stack_facts)
  have pr: "progress m {sw} g g'"
    using nth m by (intro transition_progress [OF ok tr sm]) (simp_all add: g'_def)
  have labels: "closes F (place_of F g) (UnconditionalBranch (size_of g)) \<and>
      labels_of_target (block_target (F ! sw)) l = Some (size_of g)" if F: "complete F g'" for F
  proof
    have cur: "bb_current g \<notin> pending g'" "bb_current g \<notin> set (switch_ctx g')"
      using no_stacks [OF ok] fresh_stacks(3) [OF ok, of "size_of g"] graph_okD(6) [OF ok, of "bb_current g"]
      by (auto simp: g'_def pending_def)
    show "closes F (place_of F g) (UnconditionalBranch (size_of g))"
      using nth [of "bb_current g"] graph_okD(2) [OF ok] w(3) cur len
      by (intro closes_closed [OF F]) simp_all
    have ok': "graph_ok g'" by (rule transition_ok [OF ok tr sm])
    have "sw \<in> set (switch_ctx g')" using sw by (simp add: g'_def)
    with graph_okD(6) [OF ok' this] F have "extends_switch (set (bb_break_target g')) (target_of g' sw) (block_target (F ! sw))"
      by (simp add: complete_def agrees_def)
    moreover have "size_of g \<notin> set (bb_break_target g')" using fresh_stacks [OF ok] by (simp add: g'_def)
    ultimately show "labels_of_target (block_target (F ! sw)) l = Some (size_of g)"
      using labels_of_extension p(4) nth [of sw] w by auto
  qed
  have "graph_step (case l of Some v \<Rightarrow> E_Case v | None \<Rightarrow> E_Default) g = Some g'"
    using step_label [OF graph_okD(2) [OF ok] sw w(2,3) t, of l] by (simp add: g'_def)
  moreover have "bbs g' ! size_of g = new_block" by (simp add: g'_def nth_append)
  moreover have "labels_added {l} (target_of g sw) (target_of g' sw)" using p(3) nth [of sw] w by simp
  moreover have "same_stacks g g'" "bb_current g' = size_of g" by (simp_all add: g'_def same_stacks_def)
  ultimately show ?thesis using pr labels by blast
qed

end
