(* ===== verification/FlowBuilt.thy ===== *)
theory FlowBuilt
  imports FlowCompile
begin

text \<open>
  Well-formed code is built: the steps of its events succeed and lay it out, by induction on the
  code.
\<close>

section \<open>What is built\<close>

definition jumps_of :: "basic_block list \<Rightarrow> flow_graph \<Rightarrow> jumps" where
  "jumps_of F g =
     \<lparr>break_to = hd (bb_break_target g), continue_to = hd (bb_continue_target g), return_to_block = the (ret_target g),
      label_at = labels_of_target (block_target (F ! hd (switch_ctx g)))\<rparr>"

definition built :: "code \<Rightarrow> flow_graph \<Rightarrow> flow_graph \<Rightarrow> bool" where
  "built c g g' \<longleftrightarrow>
     (labels c \<noteq> [] \<longrightarrow> switch_ctx g \<noteq> []) \<and> graph_steps (events c) g = Some g' \<and>
     progress (size_of g) (if labels c = [] then {} else {hd (switch_ctx g)}) g g' \<and> same_stacks g g' \<and>
     (labels c \<noteq> [] \<longrightarrow> labels_added (set (labels c)) (target_of g (hd (switch_ctx g))) (target_of g' (hd (switch_ctx g)))) \<and>
     (\<forall>F. complete F g' \<longrightarrow> laid F (jumps_of F g) c (place_of F g) (place_of F g'))"

text \<open>A graph in which code can be built.\<close>

definition ready :: "bool \<Rightarrow> bool \<Rightarrow> bool \<Rightarrow> bool \<Rightarrow> code \<Rightarrow> flow_graph \<Rightarrow> bool" where
  "ready N C B A c g \<longleftrightarrow>
     graph_ok g \<and> (N \<longrightarrow> bb_break_target g \<noteq> [] \<or> bb_endif g \<noteq> []) \<and> (C \<longrightarrow> bb_continue_target g \<noteq> []) \<and>
     (B \<longrightarrow> bb_break_target g \<noteq> []) \<and> (A \<longrightarrow> bb_current g \<noteq> 0) \<and> distinct (labels c) \<and>
     (\<forall>l \<in> set (labels c). switch_ctx g \<noteq> [] \<and>
        label_free (set (bb_break_target g)) l (target_of g (hd (switch_ctx g))))"

lemma well_formed_labels: "well_formed N C B False A c \<Longrightarrow> labels c = []"
  by (induction c arbitrary: A) auto

lemma graph_steps_append: "graph_steps xs g = Some h \<Longrightarrow> graph_steps (xs @ ys) g = graph_steps ys h"
  by (induction xs arbitrary: g) (auto split: option.splits)

lemma same_stacks_trans: "same_stacks g h \<Longrightarrow> same_stacks h k \<Longrightarrow> same_stacks g k"
  by (simp add: same_stacks_def)

lemma top_switch_same:
  assumes ok: "graph_ok g" and p: "progress (size_of g) {} g g'" and sw: "switch_ctx g \<noteq> []"
  shows "bbs g' ! hd (switch_ctx g) = bbs g ! hd (switch_ctx g)"
  using graph_okD(6) [OF ok, of "hd (switch_ctx g)"] sw
  by (intro progressD(9) [OF p]) (auto simp: pending_def)

lemma jumps_of_same:
  "same_stacks g g' \<Longrightarrow> progress m X g g' \<Longrightarrow> jumps_of F g' = jumps_of F g"
  by (simp add: jumps_of_def same_stacks_def progress_def)

lemma ready_after:
  assumes "ready N C B A c0 g" "progress (size_of g) {} g g'" "same_stacks g g'" "labels c = labels c0"
    and "A' \<Longrightarrow> bb_current g' \<noteq> 0"
  shows "ready N C B A' c g'"
  using assms top_switch_same [OF _ assms(2)] progressD(1) [OF assms(2)] by (simp add: ready_def same_stacks_def)

text \<open>Code after steps that leave the stacks as they were.\<close>

lemma built_after:
  assumes ok: "graph_ok g" and es: "graph_steps es g = Some h" and p: "progress (size_of g) {} g h" and s: "same_stacks g h"
    and code: "events c0 = es @ events c" "labels c0 = labels c"
    and laid: "\<And>F q. complete F h \<Longrightarrow> laid F (jumps_of F g) c (place_of F h) q \<Longrightarrow> laid F (jumps_of F g) c0 (place_of F g) q"
    and b: "built c h g'"
  shows "built c0 g g'"
proof -
  let ?X = "if labels c0 = [] then {} else {hd (switch_ctx g)}"
  have sw: "switch_ctx h = switch_ctx g" using s by (simp add: same_stacks_def)
  have "progress (size_of h) (if labels c = [] then {} else {hd (switch_ctx h)}) h g'" using b by (simp only: built_def)
  then have q: "progress (size_of h) ?X h g'" by (simp only: code(2) sw)
  then have "progress (size_of g) ?X h g'" using progressD(3) [OF p] by (rule progress_mono) auto
  from progress_trans [OF p this] have pr: "progress (size_of g) ?X g g'" by simp
  have st: "same_stacks g g'" using s b by (auto simp: built_def intro: same_stacks_trans)
  have added: "labels_added (set (labels c0)) (target_of g (hd (switch_ctx g))) (target_of g' (hd (switch_ctx g)))"
    if "labels c0 \<noteq> []"
    using that b code(2) sw top_switch_same [OF ok p] by (simp add: built_def)
  have "laid F (jumps_of F g) c0 (place_of F g) (place_of F g')" if F: "complete F g'" for F
  proof (rule laid)
    show "complete F h" using progressD(7) [OF q F] .
    show "laid F (jumps_of F g) c (place_of F h) (place_of F g')"
      using b F jumps_of_same [OF s p] by (simp add: built_def)
  qed
  moreover have "labels c0 \<noteq> [] \<longrightarrow> switch_ctx g \<noteq> []" using b code(2) sw by (simp add: built_def)
  moreover have "graph_steps (events c0) g = Some g'" using b graph_steps_append [OF es] code(1) by (simp add: built_def)
  ultimately show ?thesis using pr st added unfolding built_def by blast
qed

text \<open>A step that goes on in a pending block.\<close>

lemma resume:
  assumes ok: "graph_ok g" and b: "block_step e g t news g'" and F: "complete F g'"
    and cur: "bb_current g' \<in> set (bb_endif g) \<union> set (bb_break_target g)" and sw: "set (switch_ctx g') \<subseteq> set (switch_ctx g)"
  shows "closes F (place_of F g) t" "place_of F g' = block_start F (bb_current g')"
proof -
  from graph_okD(5) [OF ok cur] have n: "2 < bb_current g'" "bb_current g' < size_of g" "bb_current g' \<noteq> bb_current g"
    "bbs g ! bb_current g' = new_block" by auto
  show "closes F (place_of F g) t" using n(3) sw by (intro block_step_closes [OF ok b F]) auto
  have "bbs g' = put g t @ news" using b by (simp add: block_step_def)
  then have "bbs g' ! bb_current g' = bbs g ! bb_current g'" using nth_put [OF n(2)] n(3) by simp
  then show "place_of F g' = block_start F (bb_current g')" using n(1,4) by (intro place_start) (simp_all add: new_block_def)
qed

text \<open>A step that goes on in a new block.\<close>

lemma proceed:
  assumes ok: "graph_ok g" and b: "block_step e g t news g'" and F: "complete F g'"
    and cur: "size_of g \<le> bb_current g'" "bbs g' ! bb_current g' = new_block" and sw: "set (switch_ctx g') \<subseteq> set (switch_ctx g)"
  shows "closes F (place_of F g) t" "place_of F g' = block_start F (bb_current g')"
proof -
  show "closes F (place_of F g) t" using graph_okD(2) [OF ok] cur(1) sw by (intro block_step_closes [OF ok b F]) auto
  show "place_of F g' = block_start F (bb_current g')"
    using graph_okD(1) [OF ok] cur by (intro place_start) (simp_all add: new_block_def)
qed

section \<open>The statements\<close>

lemma built_Done: "graph_ok g \<Longrightarrow> built Done g g"
  by (simp add: built_def progress_refl same_stacks_def)

lemma built_Exec:
  assumes r: "ready N C B A (Exec i c) g" and b: "\<And>h. ready N C B A c h \<Longrightarrow> \<exists>g'. built c h g'"
  shows "\<exists>g'. built (Exec i c) g g'"
proof -
  have ok: "graph_ok g" using r by (simp add: ready_def)
  let ?h = "add_instructions (bb_current g) [i] g"
  note st = straight_step [OF ok order.refl, of "[i]"]
  have "ready N C B A c ?h" using r st(4) by (intro ready_after [OF r st(2,3)]) (simp_all add: ready_def)
  from b [OF this] obtain g' where g': "built c ?h g'" by blast
  have "built (Exec i c) g g'"
  proof (rule built_after [OF ok _ st(2,3) _ _ _ g'])
    show "graph_steps [Straight [i]] g = Some ?h" using st(1) by simp
    fix F q assume F: "complete F ?h" and laid: "laid F (jumps_of F g) c (place_of F ?h) q"
    have "after_instruction i (place_of F g) = Some (place_of F ?h)"
    proof (cases "bb_current g = 0")
      case False
      let ?n = "bb_current g"
      have h: "block_instructions (bbs ?h ! ?n) = block_instructions (bbs g ! ?n) @ [i]"
        using graph_okD(2) [OF ok] by (simp add: add_instructions_def)
      have "agrees F ?h ?n" using F False progressD(3) [OF st(2)] graph_okD(2) [OF ok] by (simp add: complete_def)
      from agrees_prefix [OF this] h obtain js where "block_instructions (F ! ?n) = block_instructions (bbs g ! ?n) @ i # js"
        by auto
      then show ?thesis using False h st(4) by (simp add: place_of_def)
    qed (use st(4) in simp)
    then show "laid F (jumps_of F g) (Exec i c) (place_of F g) q" using laid by simp
  qed simp_all
  then show ?thesis by blast
qed

text \<open>A jump, with unreachable code after it.\<close>

lemma built_jump:
  assumes r: "ready N C B A c0 g" and code: "events c0 = e # events c" "labels c0 = labels c"
    and step: "graph_step e g = Some (g\<lparr>bbs := put g t, bb_current := 0\<rparr>)"
    and laid: "\<And>F q. closes F (place_of F g) t \<Longrightarrow> laid F (jumps_of F g) c Dead q \<Longrightarrow> laid F (jumps_of F g) c0 (place_of F g) q"
    and b: "\<And>h. ready N C B False c h \<Longrightarrow> \<exists>g'. built c h g'"
  shows "\<exists>g'. built c0 g g'"
proof -
  have ok: "graph_ok g" using r by (simp add: ready_def)
  let ?h = "g\<lparr>bbs := put g t, bb_current := 0\<rparr>"
  note bs = jump_step [OF ok step]
  have p: "progress (size_of g) {} g ?h" by (rule block_step_progress [OF ok bs]) simp_all
  have s: "same_stacks g ?h" by (simp add: same_stacks_def)
  have "ready N C B False c ?h" by (rule ready_after [OF r p s]) (simp_all add: code)
  from b [OF this] obtain g' where g': "built c ?h g'" by blast
  have "built c0 g g'"
  proof (rule built_after [OF ok _ p s _ _ _ g'])
    fix F q assume F: "complete F ?h" and c: "laid F (jumps_of F g) c (place_of F ?h) q"
    have "closes F (place_of F g) t" by (rule block_step_closes [OF ok bs F]) auto
    then show "laid F (jumps_of F g) c0 (place_of F g) q" using c by (intro laid) simp_all
  qed (use step code in simp_all)
  then show ?thesis by blast
qed

text \<open>A conditional jump and a new block after it.\<close>

lemma built_branch:
  assumes r: "ready N C B A c0 g" and code: "events c0 = e # events c" "labels c0 = labels c"
    and bs: "block_step e g t news h" and cur: "size_of g \<le> bb_current h" "bbs h ! bb_current h = new_block"
    and s: "same_stacks g h"
    and laid: "\<And>F q. complete F h \<Longrightarrow> closes F (place_of F g) t \<Longrightarrow> laid F (jumps_of F g) c (block_start F (bb_current h)) q \<Longrightarrow>
      laid F (jumps_of F g) c0 (place_of F g) q"
    and b: "\<And>h. ready N C B True c h \<Longrightarrow> \<exists>g'. built c h g'"
  shows "\<exists>g'. built c0 g g'"
proof -
  have ok: "graph_ok g" using r by (simp add: ready_def)
  have p: "progress (size_of g) {} g h" using cur by (intro block_step_progress [OF ok bs]) simp_all
  have "ready N C B True c h" using graph_okD(1) [OF ok] cur(1) by (intro ready_after [OF r p s]) (simp_all add: code)
  from b [OF this] obtain g' where g': "built c h g'" by blast
  have "built c0 g g'"
  proof (rule built_after [OF ok _ p s _ _ _ g'])
    have sw: "set (switch_ctx h) \<subseteq> set (switch_ctx g)" using s by (simp add: same_stacks_def)
    fix F q assume F: "complete F h" and c: "laid F (jumps_of F g) c (place_of F h) q"
    show "laid F (jumps_of F g) c0 (place_of F g) q"
      using laid [OF F] c proceed [OF ok bs F cur sw] by simp
  qed (use bs code in \<open>simp_all add: block_step_def\<close>)
  then show ?thesis by blast
qed

lemma built_Break:
  assumes r: "ready N C True A (Break c) g" and b: "\<And>h. ready N C True False c h \<Longrightarrow> \<exists>g'. built c h g'"
  shows "\<exists>g'. built (Break c) g g'"
proof -
  obtain x xs where x: "bb_break_target g = x # xs" using r by (auto simp: ready_def neq_Nil_conv)
  show ?thesis by (rule built_jump [OF r _ _ step_break [OF x] _ b]) (simp_all add: jumps_of_def x)
qed

lemma built_Continue:
  assumes r: "ready N True B A (Continue c) g" and b: "\<And>h. ready N True B False c h \<Longrightarrow> \<exists>g'. built c h g'"
  shows "\<exists>g'. built (Continue c) g g'"
proof -
  obtain x xs where x: "bb_continue_target g = x # xs" using r by (auto simp: ready_def neq_Nil_conv)
  show ?thesis by (rule built_jump [OF r _ _ step_continue [OF x] _ b]) (simp_all add: jumps_of_def x)
qed

lemma built_Ret:
  assumes r: "ready True C B A (Ret c) g" and b: "\<And>h. ready True C B False c h \<Longrightarrow> \<exists>g'. built c h g'"
  shows "\<exists>g'. built (Ret c) g g'"
proof -
  obtain x where x: "ret_target g = Some x" using r graph_okD(9) [of g] by (auto simp: ready_def)
  have "bb_break_target g \<noteq> [] \<or> bb_endif g \<noteq> []" using r by (simp add: ready_def)
  from built_jump [OF r _ _ step_ret [OF x this] _ b] show ?thesis by (simp add: jumps_of_def x)
qed

lemma jump_if_step:
  assumes ok: "graph_ok g" and e: "graph_step e g = Some (jump_if c n g)"
  shows "block_step e g (ConditionalBranch c n (size_of g)) [new_block]
    (g\<lparr>bbs := put g (ConditionalBranch c n (size_of g)) @ [new_block], bb_current := size_of g\<rparr>)"
  using e jump_if_eq [OF graph_okD(2) [OF ok]] by (intro branch_step [OF ok]) simp

lemma built_jump_if:
  assumes r: "ready N C B A c0 g" and code: "events c0 = e # events c" "labels c0 = labels c"
    and e: "graph_step e g = Some (jump_if x n g)"
    and laid: "\<And>F q. closes F (place_of F g) (ConditionalBranch x n (size_of g)) \<Longrightarrow>
      laid F (jumps_of F g) c (block_start F (size_of g)) q \<Longrightarrow> laid F (jumps_of F g) c0 (place_of F g) q"
    and b: "\<And>h. ready N C B True c h \<Longrightarrow> \<exists>g'. built c h g'"
  shows "\<exists>g'. built c0 g g'"
proof -
  have ok: "graph_ok g" using r by (simp add: ready_def)
  show ?thesis
    by (rule built_branch [OF r code jump_if_step [OF ok e] _ _ _ _ b])
      (auto simp: nth_append same_stacks_def intro: laid)
qed

lemma built_BreakC:
  assumes r: "ready N C True A (BreakC x c) g" and b: "\<And>h. ready N C True True c h \<Longrightarrow> \<exists>g'. built c h g'"
  shows "\<exists>g'. built (BreakC x c) g g'"
proof -
  obtain y ys where y: "bb_break_target g = y # ys" using r by (auto simp: ready_def neq_Nil_conv)
  show ?thesis by (rule built_jump_if [OF r _ _ _ _ b, of _ x y]) (auto simp: jumps_of_def flow_breakc_def y)
qed

lemma built_ContinueC:
  assumes r: "ready N True B A (ContinueC x c) g" and b: "\<And>h. ready N True B True c h \<Longrightarrow> \<exists>g'. built c h g'"
  shows "\<exists>g'. built (ContinueC x c) g g'"
proof -
  obtain y ys where y: "bb_continue_target g = y # ys" using r by (auto simp: ready_def neq_Nil_conv)
  show ?thesis by (rule built_jump_if [OF r _ _ _ _ b, of _ x y]) (auto simp: jumps_of_def flow_continuec_def y)
qed

lemma built_RetC:
  assumes r: "ready N C B A (RetC x c) g" and b: "\<And>h. ready N C B True c h \<Longrightarrow> \<exists>g'. built c h g'"
  shows "\<exists>g'. built (RetC x c) g g'"
proof -
  obtain y where y: "ret_target g = Some y" using r graph_okD(9) [of g] by (auto simp: ready_def)
  show ?thesis by (rule built_jump_if [OF r _ _ _ _ b, of _ x y]) (auto simp: jumps_of_def flow_retc_def y)
qed

lemma built_Discard:
  assumes r: "ready N C B A (Discard x c) g" and b: "\<And>h. ready N C B True c h \<Longrightarrow> \<exists>g'. built c h g'"
  shows "\<exists>g'. built (Discard x c) g g'"
proof -
  have ok: "graph_ok g" using r by (simp add: ready_def)
  let ?f = "\<lparr>block_instructions = [OtherOp InstPixelDiscard], block_target = UnconditionalBranch (Suc (size_of g))\<rparr>"
  note bs = discard_step [OF ok, of x]
  show ?thesis
  proof (rule built_branch [OF r _ _ bs _ _ _ _ b])
    let ?h = "g\<lparr>bbs := put g (ConditionalBranch x (size_of g) (Suc (size_of g))) @ [?f, new_block], bb_current := Suc (size_of g)\<rparr>"
    fix F q assume F: "complete F ?h" and cl: "closes F (place_of F g) (ConditionalBranch x (size_of g) (Suc (size_of g)))"
      and c: "laid F (jumps_of F g) c (block_start F (bb_current ?h)) q"
    have pos: "0 < size_of g" using graph_okD(1) [OF ok] by linarith
    have "size_of g \<notin> pending ?h" "size_of g \<notin> set (switch_ctx ?h)"
      using fresh_stacks [OF ok] graph_okD(6) [OF ok, of "size_of g"] by (auto simp: pending_def)
    then have "F ! size_of g = bbs ?h ! size_of g" by (intro closed_complete [OF F] pos) simp_all
    then have "F ! size_of g = ?f" by (simp add: nth_append)
    then show "laid F (jumps_of F g) (Discard x c) (place_of F g) q"
      using cl c by simp (rule exI [of _ "size_of g"], rule exI [of _ "Suc (size_of g)"], simp)
  qed (simp_all add: nth_append same_stacks_def)
qed

section \<open>Nested statements\<close>

text \<open>A body is built after an opening step; the closing step resumes a block that was put aside.\<close>

lemma built_body:
  assumes b: "built t h h'" and lab: "labels t = []" and p: "progress m {} g h"
  shows "graph_steps (events t) h = Some h'" "progress m {} g h'" "progress m {} h h'" "same_stacks h h'" "graph_ok h'"
    and "complete F h' \<Longrightarrow> laid F (jumps_of F h) t (place_of F h) (place_of F h')"
proof -
  have q: "progress (size_of h) {} h h'" using b lab by (simp add: built_def)
  then show "progress m {} h h'" by (rule progress_mono) (use progressD(2,3) [OF p] in simp_all)
  from progress_trans [OF p this] show "progress m {} g h'" by simp
  show "graph_ok h'" by (rule progressD(1) [OF q])
qed (use b in \<open>simp_all add: built_def\<close>)

lemma built_If:
  assumes r: "ready N C B A (If x t c) g" and lab: "labels t = []"
    and t: "\<And>h. ready True C B True t h \<Longrightarrow> \<exists>g'. built t h g'"
    and b: "\<And>h. ready N C B True c h \<Longrightarrow> \<exists>g'. built c h g'"
  shows "\<exists>g'. built (If x t c) g g'"
proof -
  have ok: "graph_ok g" using r by (simp add: ready_def)
  let ?L = "size_of g" and ?E = "Suc (size_of g)"
  define h where "h = g\<lparr>bbs := put g (ConditionalBranch x ?L ?E) @ [new_block, new_block], bb_current := ?L, bb_endif := ?E # bb_endif g\<rparr>"
  have s1: "block_step (E_If x) g (ConditionalBranch x ?L ?E) [new_block, new_block] h"
    unfolding h_def by (rule if_step [OF ok])
  have p1: "progress ?L {} g h" by (rule block_step_progress [OF ok s1]) (simp_all add: h_def)
  note ok1 = progressD(1) [OF p1]
  have "ready True C B True t h" using r ok1 lab graph_okD(1) [OF ok] by (auto simp: ready_def h_def)
  from t [OF this] obtain h2 where t2: "built t h h2" by blast
  note body = built_body [OF t2 lab p1]
  have e2: "bb_endif h2 = ?E # bb_endif g" using body(4) by (simp add: same_stacks_def h_def)
  define h3 where "h3 = h2\<lparr>bbs := put h2 (UnconditionalBranch ?E), bb_current := ?E, bb_endif := bb_endif g\<rparr>"
  have s3: "block_step E_EndIf h2 (UnconditionalBranch ?E) [] h3"
    unfolding h3_def by (rule endif_step [OF body(5) e2])
  have p3: "progress ?L {} h2 h3"
    by (rule block_step_progress [OF body(5) s3]) (use progressD(2,3) [OF body(3)] in \<open>simp_all add: h3_def\<close>)
  have p: "progress ?L {} g h3" using progress_trans [OF body(2) p3] by simp
  have s: "same_stacks g h3" using body(4) by (simp add: same_stacks_def h_def h3_def)
  have "ready N C B True c h3" by (rule ready_after [OF r p s]) (simp_all add: h3_def)
  from b [OF this] obtain g' where g': "built c h3 g'" by blast
  have "built (If x t c) g g'"
  proof (rule built_after [OF ok _ p s _ _ _ g'])
    show "graph_steps (E_If x # events t @ [E_EndIf]) g = Some h3"
      using s1 s3 graph_steps_append [OF body(1)] by (simp add: block_step_def del: graph_step.simps)
    fix F q assume F: "complete F h3" and c: "laid F (jumps_of F g) c (place_of F h3) q"
    note F2 = progressD(7) [OF p3 F]
    note F1 = progressD(7) [OF body(3) F2]
    have j: "jumps_of F h = jumps_of F g" using progressD(6) [OF p1] by (simp add: jumps_of_def h_def)
    have "bb_current h3 \<in> set (bb_endif h2) \<union> set (bb_break_target h2)" "set (switch_ctx h3) \<subseteq> set (switch_ctx h2)"
      by (simp_all add: e2, simp_all add: h3_def)
    note res = resume [OF body(5) s3 F this]
    have "?L \<le> bb_current h" "bbs h ! bb_current h = new_block" "set (switch_ctx h) \<subseteq> set (switch_ctx g)"
      by (simp_all add: h_def nth_append)
    note pro = proceed [OF ok s1 F1 this]
    have "laid F (jumps_of F g) t (block_start F ?L) (place_of F h2)"
      using body(6) [OF F2] j pro(2) by (simp add: h_def)
    moreover have "laid F (jumps_of F g) c (block_start F ?E) q" using c res(2) by (simp add: h3_def)
    ultimately show "laid F (jumps_of F g) (If x t c) (place_of F g) q" using pro(1) res(1) by auto
  qed simp_all
  then show ?thesis by blast
qed

lemma built_IfElse:
  assumes r: "ready N C B A (IfElse x t e c) g" and lab: "labels t = []" "labels e = []"
    and t: "\<And>h. ready True C B True t h \<Longrightarrow> \<exists>g'. built t h g'"
    and e: "\<And>h. ready True C B True e h \<Longrightarrow> \<exists>g'. built e h g'"
    and b: "\<And>h. ready N C B True c h \<Longrightarrow> \<exists>g'. built c h g'"
  shows "\<exists>g'. built (IfElse x t e c) g g'"
proof -
  have ok: "graph_ok g" using r by (simp add: ready_def)
  let ?L = "size_of g" and ?E = "Suc (size_of g)"
  define h where "h = g\<lparr>bbs := put g (ConditionalBranch x ?L ?E) @ [new_block, new_block], bb_current := ?L, bb_endif := ?E # bb_endif g\<rparr>"
  have s1: "block_step (E_If x) g (ConditionalBranch x ?L ?E) [new_block, new_block] h"
    unfolding h_def by (rule if_step [OF ok])
  have p1: "progress ?L {} g h" by (rule block_step_progress [OF ok s1]) (simp_all add: h_def)
  note ok1 = progressD(1) [OF p1]
  have "ready True C B True t h" using r ok1 lab graph_okD(1) [OF ok] by (auto simp: ready_def h_def)
  from t [OF this] obtain h2 where t2: "built t h h2" by blast
  note body = built_body [OF t2 lab(1) p1]
  have e2: "bb_endif h2 = ?E # bb_endif g" using body(4) by (simp add: same_stacks_def h_def)
  let ?Z = "size_of h2"
  define h3 where "h3 = h2\<lparr>bbs := put h2 (UnconditionalBranch ?Z) @ [new_block], bb_current := ?E, bb_endif := ?Z # bb_endif g\<rparr>"
  have s3: "block_step E_Else h2 (UnconditionalBranch ?Z) [new_block] h3"
    unfolding h3_def by (rule else_step [OF body(5) e2])
  have p3: "progress ?L {} h2 h3"
    by (rule block_step_progress [OF body(5) s3]) (use progressD(2,3) [OF body(3)] in \<open>simp_all add: h3_def\<close>)
  have p13: "progress ?L {} g h3" using progress_trans [OF body(2) p3] by simp
  note ok3 = progressD(1) [OF p3]
  have st3: "bb_break_target h3 = bb_break_target g" "bb_continue_target h3 = bb_continue_target g" "switch_ctx h3 = switch_ctx g"
    using body(4) by (simp_all add: same_stacks_def h_def h3_def)
  have "ready True C B True e h3" using r ok3 lab st3 by (auto simp: ready_def h3_def)
  from e [OF this] obtain h4 where t4: "built e h3 h4" by blast
  note alt = built_body [OF t4 lab(2) p13]
  have e4: "bb_endif h4 = ?Z # bb_endif g" using alt(4) by (simp add: same_stacks_def h3_def)
  define h5 where "h5 = h4\<lparr>bbs := put h4 (UnconditionalBranch ?Z), bb_current := ?Z, bb_endif := bb_endif g\<rparr>"
  have s5: "block_step E_EndIf h4 (UnconditionalBranch ?Z) [] h5"
    unfolding h5_def by (rule endif_step [OF alt(5) e4])
  have p5: "progress ?L {} h4 h5"
    by (rule block_step_progress [OF alt(5) s5])
      (use progressD(2,3) [OF alt(3)] progressD(2,3) [OF body(3)] in \<open>simp_all add: h5_def\<close>)
  have p: "progress ?L {} g h5" using progress_trans [OF alt(2) p5] by simp
  have s: "same_stacks g h5" using alt(4) st3 by (simp add: same_stacks_def h5_def)
  have Z: "0 < ?Z" "?L \<le> ?Z" using progressD(2,3) [OF body(3)] graph_okD(1) [OF body(5)] by linarith+
  have "ready N C B True c h5" by (rule ready_after [OF r p s]) (use Z in \<open>simp_all add: h5_def\<close>)
  from b [OF this] obtain g' where g': "built c h5 g'" by blast
  have "built (IfElse x t e c) g g'"
  proof (rule built_after [OF ok _ p s _ _ _ g'])
    show "graph_steps (E_If x # events t @ E_Else # events e @ [E_EndIf]) g = Some h5"
      using s1 s3 s5 graph_steps_append [OF body(1)] graph_steps_append [OF alt(1)]
      by (simp add: block_step_def del: graph_step.simps)
    fix F q assume F: "complete F h5" and c: "laid F (jumps_of F g) c (place_of F h5) q"
    note F4 = progressD(7) [OF p5 F]
    note F3 = progressD(7) [OF alt(3) F4]
    note F2 = progressD(7) [OF p3 F3]
    note F1 = progressD(7) [OF body(3) F2]
    have j: "jumps_of F h = jumps_of F g" using progressD(6) [OF p1] by (simp add: jumps_of_def h_def)
    have j3: "jumps_of F h3 = jumps_of F g" using progressD(6) [OF p13] st3 by (simp add: jumps_of_def)
    have "bb_current h5 \<in> set (bb_endif h4) \<union> set (bb_break_target h4)" "set (switch_ctx h5) \<subseteq> set (switch_ctx h4)"
      by (simp_all add: e4, simp_all add: h5_def)
    note res5 = resume [OF alt(5) s5 F this]
    have "bb_current h3 \<in> set (bb_endif h2) \<union> set (bb_break_target h2)" "set (switch_ctx h3) \<subseteq> set (switch_ctx h2)"
      by (simp_all add: e2, simp_all add: h3_def)
    note res3 = resume [OF body(5) s3 F3 this]
    have "?L \<le> bb_current h" "bbs h ! bb_current h = new_block" "set (switch_ctx h) \<subseteq> set (switch_ctx g)"
      by (simp_all add: h_def nth_append)
    note pro = proceed [OF ok s1 F1 this]
    have "laid F (jumps_of F g) t (block_start F ?L) (place_of F h2)"
      using body(6) [OF F2] j pro(2) by (simp add: h_def)
    moreover have "laid F (jumps_of F g) e (block_start F ?E) (place_of F h4)"
      using alt(6) [OF F4] j3 res3(2) by (simp add: h3_def)
    moreover have "laid F (jumps_of F g) c (block_start F ?Z) q" using c res5(2) by (simp add: h5_def)
    ultimately show "laid F (jumps_of F g) (IfElse x t e c) (place_of F g) q" using pro(1) res3(1) res5(1)
      unfolding laid.simps by blast
  qed simp_all
  then show ?thesis by blast
qed

lemma built_Loop:
  assumes r: "ready N C B A (Loop t c) g" and lab: "labels t = []"
    and t: "\<And>h. ready True True True True t h \<Longrightarrow> \<exists>g'. built t h g'"
    and b: "\<And>h. ready N C B True c h \<Longrightarrow> \<exists>g'. built c h g'"
  shows "\<exists>g'. built (Loop t c) g g'"
proof -
  have ok: "graph_ok g" using r by (simp add: ready_def)
  let ?L = "size_of g" and ?E = "Suc (size_of g)"
  define h where "h = g\<lparr>bbs := put g (UnconditionalBranch ?L) @ [new_block, new_block], bb_current := ?L,
    bb_continue_target := ?L # bb_continue_target g, bb_break_target := ?E # bb_break_target g\<rparr>"
  have s1: "block_step E_Loop g (UnconditionalBranch ?L) [new_block, new_block] h"
    unfolding h_def by (rule loop_step [OF ok])
  have p1: "progress ?L {} g h" by (rule block_step_progress [OF ok s1]) (simp_all add: h_def)
  note ok1 = progressD(1) [OF p1]
  have "ready True True True True t h" using ok1 lab graph_okD(1) [OF ok] by (auto simp: ready_def h_def)
  from t [OF this] obtain h2 where t2: "built t h h2" by blast
  note body = built_body [OF t2 lab p1]
  have e2: "bb_continue_target h2 = ?L # bb_continue_target g" "bb_break_target h2 = ?E # bb_break_target g"
    using body(4) by (simp_all add: same_stacks_def h_def)
  define h3 where "h3 = h2\<lparr>bbs := put h2 (UnconditionalBranch ?L), bb_current := ?E,
    bb_continue_target := bb_continue_target g, bb_break_target := bb_break_target g\<rparr>"
  have s3: "block_step E_EndLoop h2 (UnconditionalBranch ?L) [] h3"
    unfolding h3_def by (rule endloop_step [OF body(5) e2])
  have p3: "progress ?L {} h2 h3"
    by (rule block_step_progress [OF body(5) s3]) (use progressD(2,3) [OF body(3)] in \<open>simp_all add: h3_def\<close>)
  have p: "progress ?L {} g h3" using progress_trans [OF body(2) p3] by simp
  have s: "same_stacks g h3" using body(4) by (simp add: same_stacks_def h_def h3_def)
  have "ready N C B True c h3" by (rule ready_after [OF r p s]) (simp_all add: h3_def)
  from b [OF this] obtain g' where g': "built c h3 g'" by blast
  have "built (Loop t c) g g'"
  proof (rule built_after [OF ok _ p s _ _ _ g'])
    show "graph_steps (E_Loop # events t @ [E_EndLoop]) g = Some h3"
      using s1 s3 graph_steps_append [OF body(1)] by (simp add: block_step_def del: graph_step.simps)
    fix F q assume F: "complete F h3" and c: "laid F (jumps_of F g) c (place_of F h3) q"
    note F2 = progressD(7) [OF p3 F]
    note F1 = progressD(7) [OF body(3) F2]
    have j: "jumps_of F h = (jumps_of F g)\<lparr>continue_to := ?L, break_to := ?E\<rparr>"
      using progressD(6) [OF p1] by (simp add: jumps_of_def h_def)
    have "bb_current h3 \<in> set (bb_endif h2) \<union> set (bb_break_target h2)" "set (switch_ctx h3) \<subseteq> set (switch_ctx h2)"
      by (simp_all add: e2, simp_all add: h3_def)
    note res = resume [OF body(5) s3 F this]
    have "?L \<le> bb_current h" "bbs h ! bb_current h = new_block" "set (switch_ctx h) \<subseteq> set (switch_ctx g)"
      by (simp_all add: h_def nth_append)
    note pro = proceed [OF ok s1 F1 this]
    have "laid F ((jumps_of F g)\<lparr>continue_to := ?L, break_to := ?E\<rparr>) t (block_start F ?L) (place_of F h2)"
      using body(6) [OF F2] j pro(2) by (simp add: h_def)
    moreover have "laid F (jumps_of F g) c (block_start F ?E) q" using c res(2) by (simp add: h3_def)
    ultimately show "laid F (jumps_of F g) (Loop t c) (place_of F g) q" using pro(1) res(1)
      unfolding laid.simps by blast
  qed simp_all
  then show ?thesis by blast
qed

lemma label_free_added:
  assumes f: "label_free A k t" and a: "labels_added {l} t t'" and k: "k \<noteq> l"
  shows "label_free A k t'"
proof -
  obtain w cases d cases' d' where t: "t = SwitchTarget w cases d" "t' = SwitchTarget w cases' d'"
      and c: "Some ` fst ` set cases' = Some ` fst ` set cases \<union> ({l} - {None})" and d: "None \<noteq> l \<longrightarrow> d' = d"
    using a by (auto simp: labels_added_def split: block_target.splits)
  show ?thesis
  proof (cases k)
    case None
    then show ?thesis using f t d k by (simp add: label_free_def)
  next
    case (Some v)
    have "Some v \<notin> Some ` fst ` set cases'" using f t k Some unfolding c by (auto simp: label_free_def)
    then have "v \<notin> fst ` set cases'" by blast
    then show ?thesis using t Some by (simp add: label_free_def)
  qed
qed

lemma labels_added_switch:
  "labels_added L (SwitchTarget w [] d) t \<Longrightarrow>
     \<exists>cases d'. t = SwitchTarget w cases d' \<and> Some ` fst ` set cases = L - {None} \<and> (None \<notin> L \<longrightarrow> d' = d)"
  by (auto simp: labels_added_def split: block_target.splits)

lemma built_CaseLabel:
  assumes r: "ready N C B A (CaseLabel l c) g" and b: "\<And>h. ready N C B True c h \<Longrightarrow> \<exists>g'. built c h g'"
  shows "\<exists>g'. built (CaseLabel l c) g g'"
proof -
  have ok: "graph_ok g" using r by (simp add: ready_def)
  obtain sw sws where sw: "switch_ctx g = sw # sws" using r by (auto simp: ready_def neq_Nil_conv)
  have free: "label_free (set (bb_break_target g)) k (target_of g sw)" if "k \<in> set (l # labels c)" for k
    using r sw that by (auto simp: ready_def)
  obtain h where h: "graph_step (case l of Some v \<Rightarrow> E_Case v | None \<Rightarrow> E_Default) g = Some h"
      "progress (size_of g) {sw} g h" "same_stacks g h" "bb_current h = size_of g" "bbs h ! size_of g = new_block"
      "labels_added {l} (target_of g sw) (target_of h sw)"
    and closed: "\<And>F. complete F h \<Longrightarrow> closes F (place_of F g) (UnconditionalBranch (size_of g)) \<and>
       labels_of_target (block_target (F ! sw)) l = Some (size_of g)"
    using label_step [OF ok sw free order.refl] by auto
  note okh = progressD(1) [OF h(2)]
  have pos: "0 < size_of g" using graph_okD(1) [OF ok] by linarith
  have st: "switch_ctx h = sw # sws" "bb_break_target h = bb_break_target g" "bb_continue_target h = bb_continue_target g"
      "bb_endif h = bb_endif g" using h(3) sw by (simp_all add: same_stacks_def)
  have "ready N C B True c h"
    using r okh st h(4) pos free label_free_added [OF _ h(6)] by (auto simp: ready_def)
  from b [OF this] obtain g' where g': "built c h g'" by blast
  have w: "0 < sw" "sw < size_of g" "is_switch (size_of h) (target_of h sw)"
    using graph_okD(6) [OF ok, of sw] graph_okD(6) [OF okh, of sw] sw st by (auto simp: pending_def)
  have "progress (size_of h) (if labels c = [] then {} else {hd (switch_ctx h)}) h g'" using g' by (simp only: built_def)
  then have q: "progress (size_of h) (if labels c = [] then {} else {sw}) h g'" by (simp only: st list.sel)
  then have "progress (size_of g) {sw} h g'" using progressD(3) [OF h(2)] by (rule progress_mono) auto
  from progress_trans [OF h(2) this] have pr: "progress (size_of g) {sw} g g'" by simp
  have "labels_added (set (labels c)) (target_of h sw) (target_of g' sw)"
  proof (cases "labels c = []")
    case True
    then have "bbs g' ! sw = bbs h ! sw"
      using q w h(4) progressD(3) [OF h(2)] by (intro progressD(9) [of "size_of h" "{}"]) simp_all
    then show ?thesis using True labels_added_refl [OF w(3)] by simp
  next
    case False
    then show ?thesis using g' st by (simp add: built_def)
  qed
  with labels_added_trans [OF h(6) this] have added: "labels_added (set (l # labels c)) (target_of g sw) (target_of g' sw)"
    by simp
  have "laid F (jumps_of F g) (CaseLabel l c) (place_of F g) (place_of F g')" if F: "complete F g'" for F
  proof -
    have Fh: "complete F h" by (rule progressD(7) [OF q F])
    have j: "jumps_of F h = jumps_of F g" by (rule jumps_of_same [OF h(3,2)])
    have "place_of F h = block_start F (size_of g)" using place_start [of h F] h(4,5) pos by (simp add: new_block_def)
    moreover have "laid F (jumps_of F h) c (place_of F h) (place_of F g')" using g' F by (simp add: built_def)
    ultimately have "laid F (jumps_of F g) c (block_start F (size_of g)) (place_of F g')" by (simp add: j)
    then show ?thesis using closed [OF Fh] sw by (simp add: jumps_of_def)
  qed
  moreover have "graph_steps (events (CaseLabel l c)) g = Some g'" using g' h(1) by (simp add: built_def)
  moreover have "same_stacks g g'" using g' h(3) by (auto simp: built_def intro: same_stacks_trans)
  ultimately have "built (CaseLabel l c) g g'" using pr added sw unfolding built_def by simp
  then show ?thesis by blast
qed

lemma built_Switch:
  assumes r: "ready N C B True (Switch v t c) g" and dist: "distinct (labels t)"
    and t: "\<And>h. ready True C True False t h \<Longrightarrow> \<exists>g'. built t h g'"
    and b: "\<And>h. ready N C B True c h \<Longrightarrow> \<exists>g'. built c h g'"
  shows "\<exists>g'. built (Switch v t c) g g'"
proof -
  have ok: "graph_ok g" and live: "bb_current g \<noteq> 0" using r by (simp_all add: ready_def)
  let ?L = "size_of g" and ?n = "bb_current g"
  have pos: "0 < ?L" using graph_okD(1) [OF ok] by linarith
  define h where "h = g\<lparr>bbs := put g (SwitchTarget v [] ?L) @ [new_block], bb_current := 0,
    bb_break_target := ?L # bb_break_target g, switch_ctx := ?n # switch_ctx g\<rparr>"
  have s1: "block_step (E_Switch v) g (SwitchTarget v [] ?L) [new_block] h"
    unfolding h_def by (rule switch_step [OF ok live])
  have p1: "progress ?L {} g h" by (rule block_step_progress [OF ok s1]) (simp_all add: h_def)
  note ok1 = progressD(1) [OF p1]
  have hn: "bbs h ! ?n = (bbs g ! ?n)\<lparr>block_target := SwitchTarget v [] ?L\<rparr>"
    using nth_put [OF graph_okD(2) [OF ok]] by (simp add: h_def)
  have ctx: "switch_ctx h = ?n # switch_ctx g" "bb_break_target h = ?L # bb_break_target g" by (simp_all add: h_def)
  have "ready True C True False t h"
    using r ok1 dist hn ctx by (auto simp: ready_def label_free_def h_def split: option.splits)
  from t [OF this] obtain h2 where t2: "built t h h2" by blast
  have st2: "same_stacks h h2" using t2 by (simp add: built_def)
  have e2: "bb_break_target h2 = ?L # bb_break_target g" "switch_ctx h2 = ?n # switch_ctx g"
      "bb_endif h2 = bb_endif g" "bb_continue_target h2 = bb_continue_target g"
    using st2 by (simp_all add: same_stacks_def h_def)
  have "progress (size_of h) (if labels t = [] then {} else {hd (switch_ctx h)}) h h2" using t2 by (simp only: built_def)
  then have q: "progress (size_of h) (if labels t = [] then {} else {?n}) h h2" by (simp only: ctx list.sel)
  then have q': "progress ?L {?n} h h2" using progressD(3) [OF p1] by (rule progress_mono) auto
  have p2: "progress ?L {} g h2" by (rule progress_mono [OF progress_trans [OF p1 q']]) auto
  note ok2 = progressD(1) [OF q]
  define h3 where "h3 = h2\<lparr>bbs := put h2 (UnconditionalBranch ?L), bb_current := ?L,
    bb_break_target := bb_break_target g, switch_ctx := switch_ctx g\<rparr>"
  have s3: "block_step E_EndSwitch h2 (UnconditionalBranch ?L) [] h3"
    unfolding h3_def by (rule endswitch_step [OF ok2 e2(1,2)])
  have p3: "progress ?L {} h2 h3"
    by (rule block_step_progress [OF ok2 s3]) (use progressD(2,3) [OF q'] in \<open>simp_all add: h3_def\<close>)
  have p: "progress ?L {} g h3" using progress_trans [OF p2 p3] by simp
  have s: "same_stacks g h3" using e2 by (simp add: same_stacks_def h3_def)
  have "ready N C B True c h3" by (rule ready_after [OF r p s]) (use pos in \<open>simp_all add: h3_def\<close>)
  from b [OF this] obtain g' where g': "built c h3 g'" by blast
  have n2: "?n \<notin> pending h2" "?n < size_of h2"
    using graph_okD(6) [OF ok2, of ?n] e2(2) by auto
  have "labels_added (set (labels t)) (SwitchTarget v [] ?L) (target_of h2 ?n)"
  proof (cases "labels t = []")
    case True
    then have "bbs h2 ! ?n = bbs h ! ?n"
      using q live graph_okD(2) [OF ok] progressD(3) [OF p1]
      by (intro progressD(9) [of "size_of h" "{}"]) (simp_all add: h_def)
    then show ?thesis using True hn by (simp add: labels_added_def)
  next
    case False
    then show ?thesis using t2 hn ctx by (simp add: built_def)
  qed
  then obtain cases d where target: "target_of h2 ?n = SwitchTarget v cases d"
      "Some ` fst ` set cases = set (labels t) - {None}" "None \<notin> set (labels t) \<longrightarrow> d = ?L"
    using labels_added_switch by blast
  have "built (Switch v t c) g g'"
  proof (rule built_after [OF ok _ p s _ _ _ g'])
    show "graph_steps (E_Switch v # events t @ [E_EndSwitch]) g = Some h3"
      using s1 s3 graph_steps_append [of "events t" h h2] t2 by (simp add: block_step_def built_def del: graph_step.simps)
    fix F k assume F: "complete F h3" and c: "laid F (jumps_of F g) c (place_of F h3) k"
    note F2 = progressD(7) [OF p3 F]
    note F1 = progressD(7) [OF q' F2]
    have "bb_current h3 \<in> set (bb_endif h2) \<union> set (bb_break_target h2)" "set (switch_ctx h3) \<subseteq> set (switch_ctx h2)"
      by (simp_all add: e2, simp_all add: h3_def e2 subset_insertI)
    note res = resume [OF ok2 s3 F this]
    have n3: "?n \<notin> pending h3" "?n \<notin> set (switch_ctx h3)"
      using no_stacks [OF ok] fresh_stacks [OF ok] graph_okD(6) [OF ok, of ?n] e2 by (auto simp: pending_def h3_def)
    have "F ! ?n = bbs h3 ! ?n"
      using live n2(2) by (intro closed_complete [OF F _ _ n3]) (simp_all add: h3_def)
    moreover have "bbs h3 ! ?n = bbs h2 ! ?n"
      using nth_put [OF n2(2), of "UnconditionalBranch ?L" "[]"] n2(1) by (simp add: h3_def pending_def)
    ultimately have Fn: "block_target (F ! ?n) = SwitchTarget v cases d" using target(1) by simp
    have "?n \<notin> pending h" using no_stacks [OF ok] fresh_stacks [OF ok] live by (simp add: pending_def h_def)
    moreover have "agrees F h ?n"
      using F1 live graph_okD(2) [OF ok] progressD(3) [OF p1] by (simp add: complete_def)
    ultimately have "block_instructions (F ! ?n) = block_instructions (bbs g ! ?n)"
      using ctx hn by (simp add: agrees_def)
    then have closed: "closes F (place_of F g) (SwitchTarget v cases d)"
      using Fn live by (simp add: place_of_def closes_Live)
    have j: "jumps_of F h = (jumps_of F g)\<lparr>break_to := ?L, label_at := switch_labels cases d\<rparr>"
      using progressD(6) [OF p1] Fn by (simp add: jumps_of_def h_def labels_of_target_def)
    have "laid F (jumps_of F h) t (place_of F h) (place_of F h2)" using t2 F2 by (simp add: built_def)
    then have "laid F ((jumps_of F g)\<lparr>break_to := ?L, label_at := switch_labels cases d\<rparr>) t Dead (place_of F h2)"
      using j by (simp add: h_def)
    moreover have "laid F (jumps_of F g) c (block_start F ?L) k" using c res(2) by (simp add: h3_def)
    ultimately show "laid F (jumps_of F g) (Switch v t c) (place_of F g) k"
      using closed res(1) target(2,3) unfolding laid.simps by blast
  qed simp_all
  then show ?thesis by blast
qed

section \<open>Well-formed code\<close>

lemma well_formed_built:
  "well_formed N C B L A c \<Longrightarrow> ready N C B A c g \<Longrightarrow> \<exists>g'. built c g g'"
proof (induction c arbitrary: N C B L A g)
  case Done
  then show ?case using built_Done by (auto simp: ready_def)
next
  case (Exec i c)
  then show ?case by (intro built_Exec) auto
next
  case (If x t c)
  then show ?case using well_formed_labels by (intro built_If) auto
next
  case (IfElse x t e c)
  then show ?case using well_formed_labels by (intro built_IfElse) auto
next
  case (Loop t c)
  then show ?case using well_formed_labels by (intro built_Loop) auto
next
  case (Switch v t c)
  then show ?case by (cases A) (auto intro!: built_Switch)
next
  case (CaseLabel l c)
  then show ?case by (intro built_CaseLabel) auto
next
  case (Break c)
  then show ?case by (cases B) (auto intro!: built_Break)
next
  case (Continue c)
  then show ?case by (cases C) (auto intro!: built_Continue)
next
  case (Ret c)
  then show ?case by (cases N) (auto intro!: built_Ret)
next
  case (BreakC x c)
  then show ?case by (cases B) (auto intro!: built_BreakC)
next
  case (ContinueC x c)
  then show ?case by (cases C) (auto intro!: built_ContinueC)
next
  case (RetC x c)
  then show ?case by (intro built_RetC) auto
next
  case (Discard x c)
  then show ?case by (intro built_Discard) auto
qed

end
