(* ===== verification/FlowContract.thy ===== *)
theory FlowContract
  imports FlowBuilt
begin

text \<open>
  The properties of \<open>read_control_flow\<close>: the graph of a well-formed shader does what the
  structured code says, and no call is left after inlining.
\<close>

section \<open>The whole shader\<close>

text \<open>The events of all instructions, and the reader afterwards.\<close>

fun decode_instructions ::
  "decl_reader \<Rightarrow> bool \<Rightarrow> instruction list \<Rightarrow> flow_reader \<Rightarrow> (flow_event list \<times> flow_reader) option" where
  "decode_instructions hs v [] r = Some ([], r)"
| "decode_instructions hs v (Inst # rest) r =
     do { (es, r) \<leftarrow> decode_instruction hs v Inst r; (fs, r) \<leftarrow> decode_instructions hs v rest r; Some (es @ fs, r) }"

lemma graph_steps_bind: "graph_steps (xs @ ys) g = Option.bind (graph_steps xs g) (graph_steps ys)"
  by (induction xs arbitrary: g) (auto split: option.splits)

lemma read_decoded:
  "decode_instructions hs v insts r = Some (es, r') \<Longrightarrow> graph_steps es g = Some g' \<Longrightarrow>
     read_instructions hs v insts r g = Some (r', g')"
proof (induction insts arbitrary: r es g)
  case (Cons Inst rest)
  then obtain fs r1 gs where d: "decode_instruction hs v Inst r = Some (fs, r1)"
      "decode_instructions hs v rest r1 = Some (gs, r')" "es = fs @ gs"
    by (auto simp: bind_eq_Some_conv)
  then obtain h where h: "graph_steps fs g = Some h" "graph_steps gs h = Some g'"
    using Cons.prems(2) by (auto simp: graph_steps_bind bind_eq_Some_conv)
  show ?case using Cons.IH [OF d(2) h(2)] d(1) h(1) by simp
qed simp

text \<open>Only calls add to the calls.\<close>

fun calls_function :: "flow_event \<Rightarrow> bool" where
  "calls_function (E_Call f) = True"
| "calls_function (E_CallC c f) = True"
| "calls_function _ = False"

lemma step_calls: "graph_step e g = Some g' \<Longrightarrow> \<not> calls_function e \<Longrightarrow> call_targets g' = call_targets g"
  by (cases e)
    (auto simp: flow_if_def flow_else_def flow_endif_def flow_loop_def flow_endloop_def flow_break_def flow_continue_def
      flow_breakc_def flow_continuec_def flow_switch_def flow_case_def flow_default_def flow_endswitch_def flow_ret_def
      flow_retc_def flow_discard_def flow_phase_def flow_instance_count_def flow_label_def jump_if_def flow_defs
      split: list.splits option.splits block_target.splits if_splits)

lemma steps_calls:
  "graph_steps es g = Some g' \<Longrightarrow> list_all (\<lambda>e. \<not> calls_function e) es \<Longrightarrow> call_targets g' = call_targets g"
  by (induction es arbitrary: g) (auto simp: step_calls split: option.splits)

lemma events_call: "list_all (\<lambda>e. \<not> calls_function e) (events c)"
  by (induction c) (auto split: option.splits)

lemma start_ready:
  assumes "labels c = []"
  shows "ready False False False True c start_graph"
  using assms by (simp add: ready_def graph_ok_def start_graph_def pending_def ret_target_def)

text \<open>The final graph: the code ends in a jump to the block of the return.\<close>

lemma finished_graph:
  assumes "well_formed False False False False True c"
  shows "\<exists>g g'. graph_steps (events c @ [E_Ret]) start_graph = Some g' \<and> bb_current g' = bb_return \<and> call_targets g' = [] \<and>
     laid (bbs g') (jumps_of (bbs g') start_graph) c (block_start (bbs g') bb_entry) (place_of (bbs g') g) \<and>
     closes (bbs g') (place_of (bbs g') g) (UnconditionalBranch bb_return) \<and>
     bbs g' ! bb_return = \<lparr>block_instructions = [], block_target = ReturnTarget\<rparr>"
proof -
  have lab: "labels c = []" by (rule well_formed_labels [OF assms])
  have ok0: "graph_ok start_graph" using start_ready [OF lab] by (simp add: ready_def)
  obtain g where g: "built c start_graph g" using well_formed_built [OF assms start_ready [OF lab]] by blast
  have "size_of start_graph = 3" by (simp add: start_graph_def)
  then have p: "progress 3 {} start_graph g" using g lab by (simp add: built_def)
  note ok = progressD(1) [OF p]
  have st: "bb_endif g = []" "bb_break_target g = []" "switch_ctx g = []"
    using g by (simp_all add: built_def same_stacks_def start_graph_def)
  have ctx: "instance_ctx g = []" "func_return_point g = None"
    using progressD(4,5) [OF p] by (simp_all add: start_graph_def)
  then have ret: "ret_target g = Some bb_return" by (simp add: ret_target_def)
  define g' where "g' = g\<lparr>bbs := put g (UnconditionalBranch bb_return), bb_current := bb_return\<rparr>"
  have step: "graph_step E_Ret g = Some g'"
    using ret st ctx by (simp add: flow_ret_def flow_defs g'_def)
  let ?F = "bbs g'"
  have F: "?F ! n = (if n = bb_current g then (bbs g ! n)\<lparr>block_target := UnconditionalBranch bb_return\<rparr> else bbs g ! n)"
    if "n < size_of g" for n
    using nth_put [OF that, of "UnconditionalBranch bb_return" "[]"] by (simp add: g'_def)
  have "complete ?F g" using F st by (auto simp: complete_def agrees_def pending_def g'_def)
  then have laid: "laid ?F (jumps_of ?F start_graph) c (place_of ?F start_graph) (place_of ?F g)"
    using g by (simp add: built_def)
  have "place_of ?F start_graph = block_start ?F bb_entry"
    using place_start [of start_graph ?F] by (simp add: start_graph_def new_block_def)
  moreover have "closes ?F (place_of ?F g) (UnconditionalBranch bb_return)"
    using F [OF graph_okD(2) [OF ok]] by (simp add: place_of_def closes_Live closes_def)
  moreover have "?F ! bb_return = \<lparr>block_instructions = [], block_target = ReturnTarget\<rparr>"
    using F [of bb_return] graph_okD(1,3) [OF ok] progressD(9) [OF p, of bb_return]
    by (simp add: start_graph_def new_block_def)
  moreover have "graph_steps (events c @ [E_Ret]) start_graph = Some g'"
    using g step by (simp add: built_def graph_steps_bind)
  moreover from steps_calls [OF this] have "call_targets g' = []" using events_call by (simp add: start_graph_def)
  ultimately show ?thesis using laid by (intro exI [of _ g] exI [of _ g']) (simp add: g'_def)
qed

section \<open>Outcomes\<close>

lemma well_formed_from_label:
  "well_formed N C B L A b \<Longrightarrow> from_label l b = Some d \<Longrightarrow> well_formed N C B L True d"
  by (induction b arbitrary: A) (auto split: if_splits)

lemma well_formed_enter: "well_formed N C B L A b \<Longrightarrow> enter w b = Some d \<Longrightarrow> well_formed N C B L True d"
  by (auto simp: enter_def split: option.splits dest: well_formed_from_label)

definition stays :: "bool \<Rightarrow> bool \<Rightarrow> (outcome \<times> 's) option \<Rightarrow> bool" where
  "stays B C r \<longleftrightarrow> (case r of None \<Rightarrow> True | Some (out, s) \<Rightarrow> (out = Broke \<longrightarrow> B) \<and> (out = Continued \<longrightarrow> C))"

lemma stays_simps [simp]:
  "stays B C None" "stays B C (Some (Normal, s))" "stays B C (Some (Returned, s))"
  "stays B C (Some (Broke, s)) = B" "stays B C (Some (Continued, s)) = C"
  by (simp_all add: stays_def)

lemma run_cases:
  obtains "r = None" | s where "r = Some (Normal, s)" | s where "r = Some (Broke, s)"
    | s where "r = Some (Continued, s)" | s where "r = Some (Returned, s)"
proof (cases r)
  case (Some a)
  then show ?thesis using that by (cases a; cases "fst a") auto
qed (use that in simp)

lemma stays_join:
  "stays B C r \<Longrightarrow> (\<And>s. stays B C (f s)) \<Longrightarrow>
     stays B C (case r of None \<Rightarrow> None | Some (out, s) \<Rightarrow> if out = Normal then f s else Some (out, s))"
  by (rule run_cases [of r]) simp_all

lemma stays_switch:
  "stays True C r \<Longrightarrow> (\<And>s. stays B C (f s)) \<Longrightarrow>
     stays B C (case r of None \<Rightarrow> None | Some (out, s) \<Rightarrow> if out = Normal \<or> out = Broke then f s else Some (out, s))"
  by (rule run_cases [of r]) simp_all

lemma stays_loop:
  assumes b: "\<And>n s. stays True True (run M n b s)" and c: "\<And>n s. stays B C (run M n c s)"
  shows "stays B C (run M n (Loop b c) s)"
proof (induction n arbitrary: s)
  case (Suc n)
  show ?case
  proof (cases "run M (Suc n) b s")
    case (Some a)
    then show ?thesis using Suc.IH c [of "Suc n"] by (cases a; cases "fst a") simp_all
  qed simp
qed simp

lemma run_stays: "well_formed N C B L A c \<Longrightarrow> stays B C (run M n c s)"
proof (induction c arbitrary: N C B L A n s rule: measure_induct_rule [where f = size])
  case (less c)
  note IH = less.IH
  show ?case
  proof (cases c)
    case (If x t c')
    then have "stays B C (run M n t s)" "\<And>s. stays B C (run M n c' s)" using less.prems If IH [of t True C B False True] IH [of c' N C B L True] by simp_all
    then show ?thesis using If stays_join [of B C "run M n t s"] by simp
  next
    case (IfElse x t e c')
    then have "\<And>s. stays B C (run M n t s)" "\<And>s. stays B C (run M n e s)" "\<And>s. stays B C (run M n c' s)"
      using less.prems IfElse IH [of t True C B False True] IH [of e True C B False True] IH [of c' N C B L True] by simp_all
    then show ?thesis
      using IfElse stays_join [of B C "run M n t s"] stays_join [of B C "run M n e s"] by simp
  next
    case (Loop t c')
    then have "\<And>n s. stays True True (run M n t s)" "\<And>n s. stays B C (run M n c' s)"
      using less.prems Loop IH [of t True True True False True] IH [of c' N C B L True] by simp_all
    then show ?thesis unfolding Loop by (rule stays_loop)
  next
    case (Switch v t c')
    then have c: "\<And>s. stays B C (run M n c' s)" using less.prems IH [of c' N C B L True] by simp
    show ?thesis
    proof (cases "enter (load M v s) t")
      case None
      then show ?thesis using Switch c by simp
    next
      case (Some d)
      have "well_formed True C True True False t" using less.prems Switch by simp
      from well_formed_enter [OF this Some] have "stays True C (run M n d s)"
        using size_enter [OF Some] Switch IH [of d True C True True True] by simp
      then show ?thesis using Switch Some c stays_switch [of C "run M n d s"] by simp
    qed
  qed (use less.prems IH in auto)
qed

section \<open>Structured code is executed\<close>

lemma jumped_Halted: "jumped M F k (Halted s) = Halted s"
  by (induction k) auto

lemma jumped_Stuck: "jumped M F k Stuck = Stuck"
  by (induction k) auto

lemma jumped_later: "j \<le> k \<Longrightarrow> jumped M F k x = jumped M F (k - j) (jumped M F j x)"
  by (metis follow_more le_add_diff_inverse)

text \<open>At most one way to halt, and none after getting stuck.\<close>

lemma halted_once:
  assumes "jumped M F j x = Halted s" "jumped M F k x = y"
  shows "j \<le> k \<Longrightarrow> y = Halted s" "k \<le> j \<Longrightarrow> y = Halted t \<Longrightarrow> t = s" "y \<noteq> Stuck"
proof -
  show 1: "j \<le> k \<Longrightarrow> y = Halted s" using assms jumped_later [of j k M F x] by (simp add: jumped_Halted)
  show "k \<le> j \<Longrightarrow> y = Halted t \<Longrightarrow> t = s" using assms jumped_later [of k j M F x] by (simp add: jumped_Halted)
  show "y \<noteq> Stuck" using assms jumped_later [of k j M F x] 1 by (cases "j \<le> k") (auto simp: jumped_Stuck)
qed

lemma finished_run:
  assumes laid: "laid F v c (block_start F bb_entry) q" and closed: "closes F q (UnconditionalBranch bb_return)"
    and ret: "return_to_block v = bb_return" "F ! bb_return = \<lparr>block_instructions = [], block_target = ReturnTarget\<rparr>"
    and stays: "stays False False (run M n c s)"
  shows "case run M n c s of None \<Rightarrow> \<exists>k t. reaches M F n (started M F s) (At k t)
    | Some (out, t) \<Rightarrow> \<exists>j. jumped M F j (started M F s) = Halted t"
proof -
  have sim: "simulates M F v q n (started M F s) (run M n c s)"
    unfolding started_def enter_block_def by (rule laid_simulates) (use laid in \<open>simp add: block_start_def\<close>)
  have last: "jumped M F (Suc j) x = Halted t" if "jumped M F j x = enter_block M F bb_return t" for j x t
    using that ret(2) by (simp add: enter_block_def)
  have halts: "\<exists>j. jumped M F j (started M F s) = Halted t" if reached: "reaches M F 1 (started M F s) (enter_block M F bb_return t)" for t
  proof -
    obtain j where "jumped M F j (started M F s) = enter_block M F bb_return t" using reached by (auto simp: reaches_def)
    from last [OF this] show ?thesis by blast
  qed
  show ?thesis
  proof (rule run_cases [of "run M n c s"])
    fix t assume r: "run M n c s = Some (Normal, t)"
    then obtain k "is" where q: "q = Live k is" and x: "reaches M F 0 (started M F s) (At k (run_block M is t))"
      using sim by auto
    have "reaches M F 1 (started M F s) (enter_block M F bb_return t)"
      using reaches_trans [OF x reaches_branch [OF closed [unfolded q]]] by auto
    from halts [OF this] show ?thesis using r by simp
  next
    fix t assume r: "run M n c s = Some (Returned, t)"
    then have "reaches M F 1 (started M F s) (enter_block M F bb_return t)" using sim ret by simp
    from halts [OF this] show ?thesis using r by simp
  qed (use sim stays in auto)
qed

lemma finished_executes:
  assumes run: "\<And>n. case run M n c s of None \<Rightarrow> \<exists>k t. reaches M F n (started M F s) (At k t)
    | Some (out, t) \<Rightarrow> \<exists>j. jumped M F j (started M F s) = Halted t"
  shows "(\<exists>k. jumped M F k (started M F s) = Halted t) \<longleftrightarrow> (\<exists>n out. run M n c s = Some (out, t))"
    and "jumped M F k (started M F s) \<noteq> Stuck"
proof -
  let ?x = "started M F s"
  have decided: "(\<exists>out u j. run M (Suc k) c s = Some (out, u) \<and> jumped M F j ?x = Halted u) \<or>
      (\<exists>j u m. k < j \<and> jumped M F j ?x = At m u)" for k
  proof (cases "run M (Suc k) c s")
    case None
    then show ?thesis using run [of "Suc k"] by (auto simp: reaches_def Suc_le_eq)
  next
    case (Some a)
    then show ?thesis using run [of "Suc k"] by (cases a) auto
  qed
  show "(\<exists>k. jumped M F k ?x = Halted t) \<longleftrightarrow> (\<exists>n out. run M n c s = Some (out, t))"
  proof
    assume "\<exists>k. jumped M F k ?x = Halted t"
    then obtain k where k: "jumped M F k ?x = Halted t" by blast
    from decided [of k] show "\<exists>n out. run M n c s = Some (out, t)"
    proof (elim disjE exE conjE)
      fix out u j assume r: "run M (Suc k) c s = Some (out, u)" and j: "jumped M F j ?x = Halted u"
      have "u = t" using halted_once(1,2) [OF k j] by (cases "k \<le> j") auto
      then show ?thesis using r by blast
    next
      fix j u m assume "k < j" "jumped M F j ?x = At m u"
      then show ?thesis using halted_once(1) [OF k, of j] by simp
    qed
  next
    assume "\<exists>n out. run M n c s = Some (out, t)"
    then obtain n out where "run M n c s = Some (out, t)" by blast
    then show "\<exists>k. jumped M F k ?x = Halted t" using run [of n] by simp
  qed
  show "jumped M F k ?x \<noteq> Stuck"
  proof
    assume stuck: "jumped M F k ?x = Stuck"
    from decided [of k] show False
    proof (elim disjE exE conjE)
      fix j u assume "jumped M F j ?x = Halted u"
      then show False using halted_once(3) [OF _ stuck] by blast
    next
      fix j u m assume "k < j" "jumped M F j ?x = At m u"
      then show False using jumped_later [of k j M F ?x] stuck by (simp add: jumped_Stuck)
    qed
  qed
qed

text \<open>
  C1. Reading a well-formed structured shader succeeds, and the graph of basic blocks executes it:
  whatever instructions and conditions mean, a thread that follows the graph halts in a state
  exactly when the structured code ends in that state, and it never meets an undefined target or
  a call.
\<close>

theorem structured_code_executed:
  assumes "well_formed False False False False True c"
    and "decode_instructions hs v insts \<lparr>reader_shader = s, reader_phase = - 1\<rparr> = Some (events c @ [E_Ret], r)"
  shows "\<exists>bs. read_control_flow hs v insts s = Some (reader_shader r, bs) \<and>
    (\<forall>M st t. (\<exists>k. (follow M bs ^^ k) (started M bs st) = Halted t) = (\<exists>n out. run M n c st = Some (out, t))) \<and>
    (\<forall>M st k. (follow M bs ^^ k) (started M bs st) \<noteq> Stuck)"
proof -
  from finished_graph [OF assms(1)] obtain g g' where g': "graph_steps (events c @ [E_Ret]) start_graph = Some g'"
      "bb_current g' = bb_return" "call_targets g' = []"
    and laid: "laid (bbs g') (jumps_of (bbs g') start_graph) c (block_start (bbs g') bb_entry) (place_of (bbs g') g)"
    and closed: "closes (bbs g') (place_of (bbs g') g) (UnconditionalBranch bb_return)"
      "bbs g' ! bb_return = \<lparr>block_instructions = [], block_target = ReturnTarget\<rparr>" by blast
  have ret: "return_to_block (jumps_of (bbs g') start_graph) = bb_return"
    by (simp add: jumps_of_def ret_target_def start_graph_def)
  have "finish_graph (reader_shader r) g' = g'" using g'(2) by (simp add: finish_graph_def)
  moreover have "inline_rounds (func_entries g') 32 [] (bbs g') = Some (bbs g')" by (simp add: eval_nat_numeral)
  ultimately have read: "read_control_flow hs v insts s = Some (reader_shader r, bbs g')"
    using read_decoded [OF assms(2) g'(1)] g'(3) by (simp add: read_control_flow_def)
  note executes = finished_executes [OF finished_run [OF laid closed(1) ret closed(2) run_stays [OF assms(1)]]]
  show ?thesis
  proof (intro exI conjI allI)
    show "read_control_flow hs v insts s = Some (reader_shader r, bbs g')" by (rule read)
  qed (rule executes)+
qed

text \<open>\<open>loop; breakc_nz r0.x; endloop; ret\<close>, with the value of the condition as the state.\<close>

definition breakc_inst :: instruction where
  "breakc_inst = clear_instruction\<lparr>m_OpCode := D3D10_SB_OPCODE_BREAKC, m_Extra := Test 1,
     m_Operands := [clear_operand\<lparr>m_IndexDimension := 1, m_NumComponents := 2, m_ComponentSelection := 1\<rparr>]\<rparr>"

definition loop_shader :: "instruction list" where
  "loop_shader = [clear_instruction\<lparr>m_OpCode := D3D10_SB_OPCODE_LOOP\<rparr>, breakc_inst,
     clear_instruction\<lparr>m_OpCode := D3D10_SB_OPCODE_ENDLOOP\<rparr>, clear_instruction\<lparr>m_OpCode := D3D10_SB_OPCODE_RET\<rparr>]"

definition value_machine :: "u32 machine" where
  "value_machine = \<lparr>exec = \<lambda>i s. s, load = \<lambda>x s. s, write_output = \<lambda>n s. s, thread_id_in_patch = \<lambda>s. 0\<rparr>"

definition loop_condition :: BasicBlockCondition where
  "loop_condition = the (readCondition breakc_inst 0 (- 1))"

lemma flow_lookup:
  "map_of flow_cases D3D10_SB_OPCODE_LOOP = Some (plain_event E_Loop)"
  "map_of flow_cases D3D10_SB_OPCODE_BREAKC = Some (condition_event E_BreakC)"
  "map_of flow_cases D3D10_SB_OPCODE_ENDLOOP = Some (plain_event E_EndLoop)"
  "map_of flow_cases D3D10_SB_OPCODE_RET = Some (plain_event E_Ret)"
  by (simp_all add: flow_cases_def)

lemma breakc_condition: "\<exists>x. readCondition breakc_inst 0 (- 1) = Some \<lparr>cond_operand = x, test_nonzero = True\<rparr>"
  by (simp add: breakc_inst_def readCondition_def m_Test_def clear_operand_def readSrcOperand_def
      readSrcOperandCommon_def readSrcOperandSwizzle_def assert_dxbc_def)

lemma loop_shader_decoded:
  "decode_instructions (\<lambda>I p s. Some s) False loop_shader \<lparr>reader_shader = new_shader 0, reader_phase = - 1\<rparr> =
     Some (events (Loop (BreakC loop_condition Done) Done) @ [E_Ret], \<lparr>reader_shader = new_shader 0, reader_phase = - 1\<rparr>)"
proof -
  have "m_OpCode breakc_inst = D3D10_SB_OPCODE_BREAKC" by (simp add: breakc_inst_def)
  then show ?thesis using breakc_condition
    by (auto simp: loop_shader_def loop_condition_def decode_instruction_def flow_lookup plain_event_def condition_event_def)
qed

lemma loop_shader_run: "run value_machine 1 (Loop (BreakC loop_condition Done) Done) 5 = Some (Normal, 5)"
proof -
  have "test_nonzero loop_condition" using breakc_condition by (auto simp: loop_condition_def)
  then show ?thesis by (simp add: value_machine_def holds_def)
qed

theorem structured_code_executed_witness:
  "\<exists>bs. read_control_flow (\<lambda>I p s. Some s) False loop_shader (new_shader 0) = Some (new_shader 0, bs) \<and>
     (\<exists>k. (follow value_machine bs ^^ k) (started value_machine bs 5) = Halted 5)"
proof -
  have "well_formed False False False False True (Loop (BreakC loop_condition Done) Done)" by simp
  from structured_code_executed [OF this loop_shader_decoded] show ?thesis
  proof (elim exE conjE)
    fix bs
    assume read: "read_control_flow (\<lambda>I p s. Some s) False loop_shader (new_shader 0) =
        Some (reader_shader \<lparr>reader_shader = new_shader 0, reader_phase = - 1\<rparr>, bs)"
      and runs: "\<forall>M st t. (\<exists>k. (follow M bs ^^ k) (started M bs st) = Halted t) =
        (\<exists>n out. run M n (Loop (BreakC loop_condition Done) Done) (st :: u32) = Some (out, t))"
    have "\<exists>k. (follow value_machine bs ^^ k) (started value_machine bs 5) = Halted 5"
      using runs loop_shader_run by blast
    then show ?thesis using read by auto
  qed
qed

section \<open>What is refused\<close>

text \<open>The case \<open>CALLC\<close> asks the new conditional branch for a call, and throws.\<close>

lemma callc_refused: "bb_current g < size_of g \<Longrightarrow> graph_step (E_CallC c f) g = None"
  by (simp add: flow_callc_def flow_defs nth_append list_update_append)

text \<open>A switch in unreachable code: the first label overwrites the target that holds the switch.\<close>

lemma dead_switch_refused:
  "graph_steps [E_Loop, E_Break, E_Switch v, E_Case a, E_Case b] start_graph = None"
  by (simp add: start_graph_def flow_loop_def flow_break_def flow_switch_def flow_case_def flow_defs new_block_def)

text \<open>What follows a return at the top level becomes part of the block of the return.\<close>

lemma code_after_return:
  "\<exists>g. graph_steps [E_Ret, Straight [i]] start_graph = Some g \<and> block_instructions (bbs g ! bb_return) = [i]"
  by (simp add: start_graph_def flow_ret_def ret_target_def flow_defs new_block_def)

end
