(* ===== verification/FlowSafety.thy ===== *)
theory FlowSafety
  imports FlowReader
begin

text \<open>
  What holds of the graph for every shader that is read, well-formed or not: all targets are
  blocks of the graph, no call is left after inlining, and the traversal of the finished graph
  ends with the blocks that are reachable.
\<close>

section \<open>Closed graphs\<close>

definition targets_below :: "nat \<Rightarrow> basic_block list \<Rightarrow> bool" where
  "targets_below m bs \<longleftrightarrow> (\<forall>b \<in> set bs. \<forall>k \<in> set (successors (block_target b)). k < m)"

definition calls_in :: "nat set \<Rightarrow> basic_block list \<Rightarrow> bool" where
  "calls_in A bs \<longleftrightarrow> (\<forall>n < length bs. is_call (block_target (bs ! n)) \<longrightarrow> n \<in> A)"

definition below :: "nat \<Rightarrow> nat list \<Rightarrow> bool" where
  "below m ns \<longleftrightarrow> (\<forall>n \<in> set ns. n < m)"

lemma below_simps [simp]: "below m []" "below m (n # ns) \<longleftrightarrow> n < m \<and> below m ns"
  by (auto simp: below_def)

lemma below_mono: "below m ns \<Longrightarrow> m \<le> k \<Longrightarrow> below k ns"
  by (auto simp: below_def)

lemma below_append [simp]: "below m (ns @ ks) \<longleftrightarrow> below m ns \<and> below m ks"
  by (auto simp: below_def)

lemma below_tl: "below m ns \<Longrightarrow> below m (tl ns)"
  by (cases ns) auto

definition closed_graph :: "flow_graph \<Rightarrow> bool" where
  "closed_graph g \<longleftrightarrow>
     2 < length (bbs g) \<and> bb_current g < length (bbs g) \<and> targets_below (length (bbs g)) (bbs g) \<and>
     calls_in (set (call_targets g)) (bbs g) \<and> below (length (bbs g)) (bb_endif g) \<and>
     below (length (bbs g)) (bb_continue_target g) \<and> below (length (bbs g)) (bb_break_target g) \<and>
     below (length (bbs g)) (switch_ctx g) \<and> below (length (bbs g)) (instance_ctx g) \<and>
     below (length (bbs g)) (call_targets g) \<and> (\<forall>n. func_return_point g = Some n \<longrightarrow> n < length (bbs g)) \<and>
     (\<forall>f n. func_entries g f = Some n \<longrightarrow> n < length (bbs g))"

lemma targets_below_mono: "targets_below m bs \<Longrightarrow> m \<le> k \<Longrightarrow> targets_below k bs"
  by (fastforce simp: targets_below_def)

lemma targets_below_nth: "targets_below m bs \<Longrightarrow> n < length bs \<Longrightarrow> k \<in> set (successors (block_target (bs ! n))) \<Longrightarrow> k < m"
  by (auto simp: targets_below_def)

lemma targets_below_update:
  "targets_below m bs \<Longrightarrow> below m (successors (block_target b)) \<Longrightarrow> targets_below m (bs[n := b])"
  using set_update_subset_insert [of bs n b] by (fastforce simp: targets_below_def below_def)

lemma targets_below_append: "targets_below m (bs @ cs) \<longleftrightarrow> targets_below m bs \<and> targets_below m cs"
  by (auto simp: targets_below_def)

lemma calls_in_update:
  "calls_in A bs \<Longrightarrow> (is_call (block_target b) \<Longrightarrow> n \<in> B) \<Longrightarrow> A \<subseteq> B \<Longrightarrow> calls_in B (bs[n := b])"
  by (cases "n < length bs") (auto simp: calls_in_def nth_list_update)

lemma calls_in_append: "calls_in A bs \<Longrightarrow> (\<forall>c \<in> set cs. \<not> is_call (block_target c)) \<Longrightarrow> calls_in A (bs @ cs)"
  by (auto simp: calls_in_def nth_append)

lemma calls_in_mono: "calls_in A bs \<Longrightarrow> A \<subseteq> B \<Longrightarrow> calls_in B bs"
  by (auto simp: calls_in_def)

section \<open>The steps keep the graph closed\<close>

lemma closed_fresh:
  "closed_graph g \<Longrightarrow> closed_graph (g\<lparr>bbs := bbs g @ [new_block]\<rparr>)"
  by (auto simp: closed_graph_def targets_below_append targets_below_mono calls_in_append new_block_def
      intro: below_mono less_SucI) (simp add: targets_below_def)

lemma closed_target:
  assumes "closed_graph g" "below (length (bbs g)) (successors t)" "\<not> is_call t"
  shows "closed_graph (set_target n t g)"
  using assms calls_in_update [of "set (call_targets g)" "bbs g" "(bbs g ! n)\<lparr>block_target := t\<rparr>" n "set (call_targets g)"]
  by (simp add: closed_graph_def set_target_def targets_below_update)

lemma closed_end:
  "closed_graph g \<Longrightarrow> below (length (bbs g)) (successors t) \<Longrightarrow> \<not> is_call t \<Longrightarrow> n < length (bbs g) \<Longrightarrow> closed_graph (end_block t n g)"
  unfolding end_block_def by (drule (2) closed_target) (auto simp: closed_graph_def set_target_def)

lemma closed_instructions:
  assumes "closed_graph g"
  shows "closed_graph (add_instructions n js g)"
proof (cases "n < length (bbs g)")
  case True
  have "below (length (bbs g)) (successors (target_of g n))"
    using assms True by (auto simp: closed_graph_def below_def dest: targets_below_nth)
  then show ?thesis using assms True
    by (auto simp: closed_graph_def add_instructions_def calls_in_def nth_list_update intro: targets_below_update)
qed (use assms in \<open>simp add: add_instructions_def list_update_beyond\<close>)

lemma length_ops [simp]:
  "length (bbs (set_target n t g)) = length (bbs g)" "length (bbs (end_block t n g)) = length (bbs g)"
  "length (bbs (add_instructions n js g)) = length (bbs g)"
  by (simp_all add: set_target_def end_block_def add_instructions_def)

lemmas closed_intros = closed_end closed_target closed_instructions closed_fresh

lemma closed_stacks:
  assumes "closed_graph g"
  shows "below (length (bbs g)) ns \<Longrightarrow> closed_graph (g\<lparr>bb_endif := ns\<rparr>)"
    and "below (length (bbs g)) ns \<Longrightarrow> closed_graph (g\<lparr>bb_continue_target := ns\<rparr>)"
    and "below (length (bbs g)) ns \<Longrightarrow> closed_graph (g\<lparr>bb_break_target := ns\<rparr>)"
    and "below (length (bbs g)) ns \<Longrightarrow> closed_graph (g\<lparr>switch_ctx := ns\<rparr>)"
    and "below (length (bbs g)) ns \<Longrightarrow> closed_graph (g\<lparr>instance_ctx := ns\<rparr>)"
    and "closed_graph (g\<lparr>func_return_point := None\<rparr>)"
  using assms by (simp_all add: closed_graph_def)

lemma closed_two_fresh: "closed_graph g \<Longrightarrow> closed_graph (g\<lparr>bbs := bbs g @ [new_block, new_block]\<rparr>)"
  using closed_fresh [OF closed_fresh, of g] by simp

lemma closedD:
  assumes "closed_graph g"
  shows "2 < length (bbs g)" "bb_current g < length (bbs g)" "below (length (bbs g)) (bb_endif g)"
    "below (length (bbs g)) (bb_continue_target g)" "below (length (bbs g)) (bb_break_target g)"
    "below (length (bbs g)) (switch_ctx g)" "below (length (bbs g)) (instance_ctx g)"
    "func_return_point g = Some n \<Longrightarrow> n < length (bbs g)"
    "k < length (bbs g) \<Longrightarrow> below (length (bbs g)) (successors (target_of g k))"
  using assms by (auto simp: closed_graph_def) (auto simp: below_def dest: targets_below_nth)

lemma closed_ret_target:
  assumes "closed_graph g" "ret_target g = Some n"
  shows "n < length (bbs g)"
proof -
  have "below (length (bbs g)) (successors (target_of g k))" if "instance_ctx g = k # ks" for k ks
    using closedD(7,9) [OF assms(1)] that by simp
  then show ?thesis
    using assms(2) closedD(1,8) [OF assms(1)]
    by (fastforce simp: ret_target_def split: option.splits list.splits block_target.splits)
qed

lemma closed_jump_if:
  assumes g: "closed_graph g" and n: "n < length (bbs g)"
  shows "closed_graph (jump_if c n g)"
  using closed_fresh [OF g] n by (simp add: jump_if_def fresh_bb_def closed_end)

lemma successors_cases: "fst ` set cases = A \<Longrightarrow> set (map snd (insert_case v n cases)) \<subseteq> insert n (set (map snd cases))"
  by (auto simp: insert_case_def set_insort_key)

lemma below_insert_case: "below m (map snd (insert_case v n cases)) \<longleftrightarrow> below m (map snd cases) \<and> (v \<in> fst ` set cases \<or> n < m)"
  by (auto simp: insert_case_def below_def set_insort_key)

lemma second_of_two [simp]:
  "(xs @ [a, b]) ! Suc (length xs) = b" "(xs @ [a, b])[Suc (length xs) := c] = xs @ [a, c]"
  by (simp_all add: nth_append list_update_append)

lemma closed_phase:
  assumes g: "closed_graph g" and e: "flow_phase n g = Some g'"
  shows "closed_graph g'"
proof -
  have c: "closed_graph (add_instructions (Suc (length (bbs g))) js (g\<lparr>bbs := bbs g @ [new_block, new_block]\<rparr>))" for js
    using closed_instructions [OF closed_two_fresh [OF g]] .
  show ?thesis
    using e closed_stacks(5) [OF c] closedD [OF g]
    by (auto simp: flow_phase_def fresh_bb_def Let_def add_instructions_def below_mono intro!: closed_end)
qed

lemma closed_call:
  assumes g: "closed_graph g" and e: "flow_call f g = Some g'"
  shows "closed_graph g'"
proof -
  have "closed_graph (g\<lparr>bbs := bbs g @ [new_block]\<rparr>)" (is "closed_graph ?h") using closed_fresh [OF g] .
  moreover have "g' = (set_target (bb_current g) (CallTarget f (length (bbs g))) ?h)
      \<lparr>bb_current := length (bbs g), call_targets := call_targets g @ [bb_current g]\<rparr>"
    using e by (auto simp: flow_call_def fresh_bb_def end_block_def set_target_def)
  moreover have "bb_current g < length (bbs g)" using closedD(2) [OF g] .
  ultimately show ?thesis
    by (auto simp: closed_graph_def set_target_def intro!: targets_below_update calls_in_update [where A = "set (call_targets g)"])
qed

lemma closed_function:
  assumes "closed_graph g" "k < length (bbs g)" "m < length (bbs g)"
  shows "closed_graph (g\<lparr>func_entries := (func_entries g)(f \<mapsto> k), func_return_point := Some m, bb_current := k\<rparr>)"
  using assms by (simp add: closed_graph_def)

lemma closed_label:
  assumes g: "closed_graph g" and e: "flow_label f g = Some g'"
  shows "closed_graph g'"
proof -
  let ?h = "set_target (Suc (length (bbs g))) ReturnTarget (g\<lparr>bbs := bbs g @ [new_block, new_block]\<rparr>)"
  have "closed_graph ?h" using closed_target [OF closed_two_fresh [OF g]] by simp
  moreover have "g' = ?h\<lparr>func_entries := (func_entries ?h)(f \<mapsto> length (bbs g)),
      func_return_point := Some (Suc (length (bbs g))), bb_current := length (bbs g)\<rparr>"
    using e by (auto simp: flow_label_def fresh_bb_def set_target_def)
  ultimately show ?thesis by (auto intro: closed_function)
qed

lemma closed_case:
  assumes g: "closed_graph g" and e: "flow_case v g = Some g'"
  shows "closed_graph g'"
proof -
  let ?h = "g\<lparr>bbs := bbs g @ [new_block]\<rparr>"
  have h: "closed_graph ?h" using closed_fresh [OF g] .
  from e obtain sw sws x cases d where sw: "switch_ctx g = sw # sws" and t: "target_of ?h sw = SwitchTarget x cases d"
    and g': "g' = end_block (UnconditionalBranch (length (bbs g))) (length (bbs g))
      (set_target sw (SwitchTarget x (insert_case v (length (bbs g)) cases) d) ?h)"
    by (auto simp: flow_case_def fresh_bb_def split: list.splits block_target.splits)
  have "below (length (bbs ?h)) (successors (target_of ?h sw))"
    using closedD(9) [OF h, of sw] closedD(6) [OF g] sw by simp
  then show ?thesis unfolding g' t
    by (intro closed_end closed_target h) (auto simp: below_insert_case)
qed

lemma closed_default:
  assumes g: "closed_graph g" and e: "flow_default g = Some g'"
  shows "closed_graph g'"
proof -
  let ?h = "g\<lparr>bbs := bbs g @ [new_block]\<rparr>"
  have h: "closed_graph ?h" using closed_fresh [OF g] .
  from e obtain sw sws x cases d where sw: "switch_ctx g = sw # sws" and t: "target_of ?h sw = SwitchTarget x cases d"
    and g': "g' = end_block (UnconditionalBranch (length (bbs g))) (length (bbs g))
      (set_target sw (SwitchTarget x cases (length (bbs g))) ?h)"
    by (auto simp: flow_default_def fresh_bb_def split: list.splits block_target.splits)
  have "below (length (bbs ?h)) (successors (target_of ?h sw))"
    using closedD(9) [OF h, of sw] closedD(6) [OF g] sw by simp
  then show ?thesis unfolding g' t by (intro closed_end closed_target h) auto
qed

lemma closed_instance_count:
  assumes g: "closed_graph g" and e: "flow_instance_count n g = Some g'"
  shows "closed_graph g'"
proof -
  from e obtain b bs' m active sync where b: "instance_ctx g = b # bs'"
    and t: "target_of g b = InstanceBarrier m active sync" and g': "g' = set_target b (InstanceBarrier n active sync) g"
    by (auto simp: flow_instance_count_def split: list.splits block_target.splits)
  show ?thesis
    using closedD(9) [OF g, of b] closedD(7) [OF g] b t unfolding g' by (intro closed_target g) auto
qed

lemma closed_discard:
  assumes g: "closed_graph g" and e: "flow_discard c g = Some g'"
  shows "closed_graph g'"
proof -
  have "closed_graph (end_block (ConditionalBranch c (length (bbs g)) (Suc (length (bbs g)))) (Suc (length (bbs g)))
      (g\<lparr>bbs := bbs g @ [new_block, new_block]\<rparr>))"
    by (intro closed_end closed_two_fresh g) auto
  then show ?thesis
    using e by (auto simp: flow_discard_def fresh_bb_def Let_def intro!: closed_instructions closed_target)
qed

lemma closed_ret:
  assumes g: "closed_graph g" and e: "flow_ret g = Some g'"
  shows "closed_graph g'"
proof -
  from e obtain n where n: "ret_target g = Some n" by (auto simp: flow_ret_def split: option.splits)
  have c: "closed_graph (end_block (UnconditionalBranch n) m g)" if "m < length (bbs g)" for m
    using closed_ret_target [OF g n] that by (intro closed_end g) auto
  have "g' \<in> {(end_block (UnconditionalBranch n) bb_return g)\<lparr>func_return_point := None\<rparr>,
      (end_block (UnconditionalBranch n) n g)\<lparr>instance_ctx := tl (instance_ctx g)\<rparr>,
      end_block (UnconditionalBranch n) bb_void g}"
    using e n by (auto simp: flow_ret_def split: if_splits)
  then show ?thesis
    using c closed_ret_target [OF g n] closedD(1,7) [OF g]
    by (auto simp: below_tl intro!: closed_stacks intro: c [of 0, simplified])
qed

lemma closed_graph_step:
  assumes "closed_graph g" "graph_step e g = Some g'"
  shows "closed_graph g'"
  using assms
proof (cases e)
  case (Straight js) then show ?thesis using assms by (auto intro: closed_instructions)
next
  case (E_ControlPointPhase n) then show ?thesis using assms by (auto intro: closed_phase)
next
  case E_ForkJoinPhase then show ?thesis using assms by (auto intro: closed_phase)
next
  case (E_If c)
  then show ?thesis using assms closedD [OF assms(1)] closed_two_fresh [OF assms(1)]
    by (auto simp: flow_if_def fresh_bb_def below_mono intro!: closed_end closed_stacks)
next
  case E_Else
  then show ?thesis using assms closedD [OF assms(1)] closed_fresh [OF assms(1)]
    by (auto simp: flow_else_def fresh_bb_def below_mono split: list.splits intro!: closed_end closed_stacks)
next
  case E_EndIf
  then show ?thesis using assms closedD [OF assms(1)]
    by (auto simp: flow_endif_def split: list.splits intro!: closed_end closed_stacks)
next
  case E_Loop
  then show ?thesis using assms closedD [OF assms(1)] closed_two_fresh [OF assms(1)]
    by (auto simp: flow_loop_def fresh_bb_def below_mono intro!: closed_end closed_stacks)
next
  case E_EndLoop
  then show ?thesis using assms closedD [OF assms(1)]
    by (auto simp: flow_endloop_def split: list.splits intro!: closed_end closed_stacks)
next
  case E_Break
  then show ?thesis using assms closedD [OF assms(1)] by (auto simp: flow_break_def split: list.splits intro!: closed_end)
next
  case E_Continue
  then show ?thesis using assms closedD [OF assms(1)] by (auto simp: flow_continue_def split: list.splits intro!: closed_end)
next
  case (E_BreakC c)
  then show ?thesis using assms closedD [OF assms(1)] by (auto simp: flow_breakc_def split: list.splits intro!: closed_jump_if)
next
  case (E_ContinueC c)
  then show ?thesis using assms closedD [OF assms(1)] by (auto simp: flow_continuec_def split: list.splits intro!: closed_jump_if)
next
  case (E_Switch v)
  then show ?thesis using assms closedD [OF assms(1)] closed_fresh [OF assms(1)]
    by (auto simp: flow_switch_def fresh_bb_def below_mono intro!: closed_end closed_stacks)
next
  case E_EndSwitch
  then show ?thesis using assms closedD [OF assms(1)]
    by (auto simp: flow_endswitch_def split: list.splits intro!: closed_end closed_stacks)
next
  case (E_RetC c)
  then show ?thesis using assms by (auto simp: flow_retc_def intro: closed_jump_if closed_ret_target)
next
  case (E_CallC c f)
  have "bb_current g < length (bbs g)" using closedD(2) [OF assms(1)] .
  then have False using assms(2) E_CallC by (auto simp: flow_callc_def fresh_bb_def set_target_def nth_append Let_def split: block_target.splits)
  then show ?thesis ..
qed (auto intro: closed_case closed_default closed_instance_count closed_discard closed_ret closed_call closed_label)

lemma closed_graph_steps: "closed_graph g \<Longrightarrow> graph_steps es g = Some g' \<Longrightarrow> closed_graph g'"
  by (induction es arbitrary: g) (auto split: option.splits intro: closed_graph_step)

lemma closed_start [simp]: "closed_graph start_graph"
  by (simp add: closed_graph_def start_graph_def targets_below_def calls_in_def new_block_def less_Suc_eq numeral_3_eq_3)

lemma closed_read_instructions:
  "closed_graph g \<Longrightarrow> read_instructions hs v insts r g = Some (r', g') \<Longrightarrow> closed_graph g'"
proof (induction insts arbitrary: r g)
  case (Cons Inst rest)
  then show ?case by (auto simp: bind_eq_Some_conv intro: closed_graph_steps)
qed simp

lemma closed_finish: "closed_graph g \<Longrightarrow> closed_graph (finish_graph s g)"
  using closedD(1) [of g] by (auto simp: finish_graph_def intro!: closed_end)

section \<open>Inlining leaves no call\<close>

text \<open>
  The invariant of the inlining of one call: \<open>A\<close> are the calls that are still to be inlined in this
  round.
\<close>

definition cloning_ok :: "nat set \<Rightarrow> cloning \<Rightarrow> bool" where
  "cloning_ok A s \<longleftrightarrow>
     targets_below (length (cl_bbs s)) (cl_bbs s) \<and> calls_in (A \<union> set (new_call_targets s)) (cl_bbs s) \<and>
     below (length (cl_bbs s)) (new_call_targets s) \<and>
     (\<forall>n m. visited s n = Some m \<longrightarrow> n < length (cl_bbs s) \<and> m < length (cl_bbs s)) \<and>
     set (block_to_redirect s) \<subseteq> dom (visited s)"

definition cloning_grows :: "cloning \<Rightarrow> cloning \<Rightarrow> bool" where
  "cloning_grows s s' \<longleftrightarrow>
     length (cl_bbs s) \<le> length (cl_bbs s') \<and> visited s \<subseteq>\<^sub>m visited s' \<and> new_call_targets s' = new_call_targets s"

lemma cloning_grows_refl [simp]: "cloning_grows s s"
  by (simp add: cloning_grows_def)

lemma cloning_grows_trans: "cloning_grows s s' \<Longrightarrow> cloning_grows s' s'' \<Longrightarrow> cloning_grows s s''"
  unfolding cloning_grows_def by (metis map_le_trans order_trans)

lemma clone_ok:
  assumes s: "cloning_ok A s" and n: "n < length (cl_bbs s)" and c: "clone n s = (m, s')"
  shows "cloning_ok A s'" "cloning_grows s s'" "m < length (cl_bbs s')"
proof -
  have ok: "cloning_ok A s' \<and> cloning_grows s s' \<and> m < length (cl_bbs s')"
  proof (cases "visited s n")
    case (Some k)
    then show ?thesis using s c by (auto simp: clone_def cloning_ok_def)
  next
    case None
    let ?b = "\<lparr>block_instructions = block_instructions (cl_bbs s ! n), block_target = UndefinedTarget\<rparr>"
    have s': "m = length (cl_bbs s)" "s' = s\<lparr>cl_bbs := cl_bbs s @ [?b], visited := (visited s)(n \<mapsto> m),
        block_to_redirect := n # block_to_redirect s\<rparr>"
      using c None by (auto simp: clone_def Let_def)
    have "targets_below (Suc (length (cl_bbs s))) (cl_bbs s @ [?b])"
      using s by (auto simp: cloning_ok_def targets_below_append targets_below_mono) (simp add: targets_below_def)
    moreover have "calls_in (A \<union> set (new_call_targets s)) (cl_bbs s @ [?b])"
      using s by (auto simp: cloning_ok_def intro: calls_in_append)
    moreover have "visited s \<subseteq>\<^sub>m (visited s)(n \<mapsto> length (cl_bbs s))"
      using None by (auto simp: map_le_def dom_def)
    ultimately show ?thesis
      using s n by (auto simp: s' cloning_ok_def cloning_grows_def less_SucI intro: below_mono)
  qed
  then show "cloning_ok A s'" "cloning_grows s s'" "m < length (cl_bbs s')" by auto
qed

lemma clone_cases_ok:
  assumes "cloning_ok A s" "below (length (cl_bbs s)) (map snd cases)" "clone_cases cases s = (cases', s')"
  shows "cloning_ok A s' \<and> cloning_grows s s' \<and> below (length (cl_bbs s')) (map snd cases')"
  using assms
proof (induction cases arbitrary: s cases' s')
  case (Cons vn rest)
  obtain v n where vn: "vn = (v, n)" by fastforce
  obtain m s1 where c: "clone n s = (m, s1)" by fastforce
  obtain cs s2 where r: "clone_cases rest s1 = (cs, s2)" by fastforce
  note c_ok = clone_ok [OF Cons.prems(1) _ c]
  have n: "n < length (cl_bbs s)" "below (length (cl_bbs s)) (map snd rest)" using Cons.prems(2) vn by auto
  have le: "length (cl_bbs s) \<le> length (cl_bbs s1)" using c_ok(2) n by (simp add: cloning_grows_def)
  have IH: "cloning_ok A s2 \<and> cloning_grows s1 s2 \<and> below (length (cl_bbs s2)) (map snd cs)"
    using Cons.IH [OF c_ok(1) [OF n(1)] below_mono [OF n(2) le] r] .
  then show ?case using Cons.prems(3) c r vn c_ok n cloning_grows_trans
    by (auto simp: cloning_grows_def)
qed auto

lemma cloning_growsD:
  assumes "cloning_grows s s'"
  shows "n < length (cl_bbs s) \<Longrightarrow> n < length (cl_bbs s')" "below (length (cl_bbs s)) ns \<Longrightarrow> below (length (cl_bbs s')) ns"
  using assms by (auto simp: cloning_grows_def intro: below_mono)

definition redirected :: "nat \<Rightarrow> nat set \<Rightarrow> cloning \<Rightarrow> block_target \<times> cloning \<Rightarrow> bool" where
  "redirected depth A s r \<longleftrightarrow>
     cloning_ok A (snd r) \<and> cloning_grows s (snd r) \<and> below (length (cl_bbs (snd r))) (successors (fst r)) \<and>
     (is_call (fst r) \<longrightarrow> depth \<noteq> 1)"

lemma clone_two_ok:
  assumes s: "cloning_ok A s" and n: "n < length (cl_bbs s)" "k < length (cl_bbs s)"
    and c: "clone n s = (n', s1)" "clone k s1 = (k', s2)"
  shows "cloning_ok A s2 \<and> cloning_grows s s2 \<and> n' < length (cl_bbs s2) \<and> k' < length (cl_bbs s2)"
  using clone_ok [OF s n(1) c(1)] clone_ok [OF _ _ c(2), of A] n(2)
  by (meson cloning_growsD(1) cloning_grows_trans)

lemma redirect_ok:
  assumes s: "cloning_ok A s" and t: "below (length (cl_bbs s)) (successors t)" and b: "back < length (cl_bbs s)"
  shows "redirected depth A s (redirect depth back t s)"
proof (cases t)
  case (SwitchTarget v cases d)
  obtain d' s1 where c: "clone d s = (d', s1)" by fastforce
  obtain cs s2 where r: "clone_cases cases s1 = (cs, s2)" by fastforce
  have d: "d < length (cl_bbs s)" "below (length (cl_bbs s)) (map snd cases)" using t SwitchTarget by auto
  note c_ok = clone_ok [OF s d(1) c]
  have "cloning_ok A s2 \<and> cloning_grows s1 s2 \<and> below (length (cl_bbs s2)) (map snd cs)"
    using clone_cases_ok [OF c_ok(1) cloning_growsD(2) [OF c_ok(2) d(2)] r] .
  then show ?thesis using SwitchTarget c r c_ok
    by (auto simp: redirected_def intro: cloning_grows_trans cloning_growsD)
next
  case (ConditionalBranch c n k)
  obtain n' s1 k' s2 where c: "clone n s = (n', s1)" "clone k s1 = (k', s2)" by (meson surj_pair)
  then show ?thesis using clone_two_ok [OF s _ _ c] t ConditionalBranch by (simp add: redirected_def)
next
  case (InstanceBarrier c n k)
  obtain n' s1 k' s2 where c: "clone n s = (n', s1)" "clone k s1 = (k', s2)" by (meson surj_pair)
  then show ?thesis using clone_two_ok [OF s _ _ c] t InstanceBarrier by (simp add: redirected_def)
next
  case (UnconditionalBranch n)
  obtain n' s1 where c: "clone n s = (n', s1)" by fastforce
  then show ?thesis using clone_ok [OF s _ c] t UnconditionalBranch by (simp add: redirected_def)
next
  case (HullShaderWriteOutput c n)
  obtain n' s1 where c: "clone n s = (n', s1)" by fastforce
  then show ?thesis using clone_ok [OF s _ c] t HullShaderWriteOutput by (simp add: redirected_def)
next
  case (CallTarget f n)
  obtain n' s1 where c: "clone n s = (n', s1)" by fastforce
  then show ?thesis using clone_ok [OF s _ c] t CallTarget by (simp add: redirected_def)
qed (use s b in \<open>auto simp: redirected_def\<close>)

definition inlining_ok :: "nat \<Rightarrow> nat \<Rightarrow> nat set \<Rightarrow> nat \<Rightarrow> cloning \<Rightarrow> bool" where
  "inlining_ok depth back A n s \<longleftrightarrow>
     cloning_ok A s \<and> back < length (cl_bbs s) \<and> n \<le> length (cl_bbs s) \<and> (depth = 1 \<longrightarrow> new_call_targets s = [])"

lemma redirect_step_ok:
  assumes s: "inlining_ok depth back A k s" and ne: "block_to_redirect s \<noteq> []"
  shows "inlining_ok depth back A k (redirect_step depth back s)"
proof -
  obtain n ns where ns: "block_to_redirect s = n # ns" using ne by (cases "block_to_redirect s") auto
  let ?s = "s\<lparr>block_to_redirect := ns\<rparr>"
  obtain t s1 where r: "redirect depth back (block_target (cl_bbs s ! n)) ?s = (t, s1)" by fastforce
  have s': "cloning_ok A ?s" and n: "n \<in> dom (visited s)"
    using s ns by (auto simp: inlining_ok_def cloning_ok_def)
  then obtain m where m: "visited s n = Some m" by blast
  have nm: "n < length (cl_bbs s)" "m < length (cl_bbs s)"
    using s m by (auto simp: inlining_ok_def cloning_ok_def)
  have "below (length (cl_bbs s)) (successors (block_target (cl_bbs s ! n)))"
    using s nm by (auto simp: inlining_ok_def cloning_ok_def below_def dest: targets_below_nth)
  then have r_ok: "redirected depth A ?s (t, s1)"
    using redirect_ok [OF s', of "block_target (cl_bbs s ! n)" "back" depth] s r by (simp add: inlining_ok_def)
  let ?s' = "s1\<lparr>cl_bbs := set_block_target m t (cl_bbs s1),
      new_call_targets := (if is_call t then new_call_targets s1 @ [m] else new_call_targets s1)\<rparr>"
  have "redirect_step depth back s = ?s'"
    using ns m r by (simp add: redirect_step_def Let_def)
  moreover have "cloning_ok A ?s'"
    using r_ok nm unfolding redirected_def cloning_ok_def set_block_target_def cloning_grows_def
    by (auto intro!: targets_below_update calls_in_update [of "A \<union> set (new_call_targets s1)"])
  ultimately show ?thesis
    using s r_ok by (auto simp: inlining_ok_def redirected_def cloning_grows_def set_block_target_def)
qed

definition blocks_ok :: "nat set \<Rightarrow> basic_block list \<Rightarrow> bool" where
  "blocks_ok A bs \<longleftrightarrow> targets_below (length bs) bs \<and> calls_in A bs"

lemma calls_in_remove:
  "calls_in A bs \<Longrightarrow> \<not> is_call (block_target b) \<Longrightarrow> A \<subseteq> insert n B \<Longrightarrow> calls_in B (bs[n := b])"
  by (cases "n < length bs") (auto simp: calls_in_def nth_list_update)

lemma inline_call_ok:
  assumes st: "blocks_ok (insert n A \<union> set new) bs" "below (length bs) new" "depth = 1 \<longrightarrow> new = []"
    and n: "n < length bs" and entries: "\<forall>f m. entries f = Some m \<longrightarrow> m < length bs"
    and i: "inline_call entries depth n (bs, new) = Some (bs', new')"
  shows "blocks_ok (A \<union> set new') bs' \<and> below (length bs') new' \<and> (depth = 1 \<longrightarrow> new' = []) \<and> length bs \<le> length bs'"
proof -
  from i obtain f r e where t: "block_target (bs ! n) = CallTarget f r" and e: "entries f = Some e"
    by (auto simp: inline_call_def split: block_target.splits option.splits)
  let ?s = "\<lparr>cl_bbs = bs, visited = Map.empty, block_to_redirect = [], new_call_targets = new\<rparr>"
  obtain m s where c: "clone e ?s = (m, s)" by fastforce
  let ?s1 = "s\<lparr>cl_bbs := set_block_target n (UnconditionalBranch m) (cl_bbs s)\<rparr>"
  obtain s' where w: "while_option (\<lambda>s. block_to_redirect s \<noteq> []) (redirect_step depth r) ?s1 = Some s'"
      and bs': "bs' = cl_bbs s'" "new' = new_call_targets s'"
    using i t e c by (auto simp: inline_call_def Let_def)
  have "cloning_ok (insert n A) ?s" using st by (simp add: cloning_ok_def blocks_ok_def)
  note s_ok = clone_ok [OF this _ c, simplified]
  have r: "r < length bs"
    using st(1) n t by (auto simp: blocks_ok_def dest!: targets_below_nth [where n = n])
  have "inlining_ok depth r A (length bs) ?s1"
    using s_ok e entries st(3) r
    by (auto simp: inlining_ok_def cloning_ok_def cloning_grows_def set_block_target_def
        intro!: targets_below_update calls_in_remove [of "insert n A \<union> set new"])
  then have "inlining_ok depth r A (length bs) s'"
    using while_option_rule [where P = "inlining_ok depth r A (length bs)", OF _ w] redirect_step_ok by blast
  then show ?thesis by (auto simp: inlining_ok_def cloning_ok_def blocks_ok_def bs')
qed

lemma inline_calls_ok:
  assumes "blocks_ok (set calls \<union> set new) bs" "below (length bs) calls" "below (length bs) new" "depth = 1 \<longrightarrow> new = []"
    and "\<forall>f m. entries f = Some m \<longrightarrow> m < length bs" "inline_calls entries depth calls (bs, new) = Some (bs', new')"
  shows "blocks_ok (set new') bs' \<and> below (length bs') new' \<and> (depth = 1 \<longrightarrow> new' = []) \<and> length bs \<le> length bs'"
  using assms
proof (induction calls arbitrary: bs new)
  case (Cons n rest)
  from Cons.prems(6) obtain bs1 new1 where i: "inline_call entries depth n (bs, new) = Some (bs1, new1)"
    and rest: "inline_calls entries depth rest (bs1, new1) = Some (bs', new')"
    by (auto split: option.splits)
  have "blocks_ok (insert n (set rest) \<union> set new) bs" "n < length bs" using Cons.prems(1,2) by auto
  note ok = inline_call_ok [OF this(1) Cons.prems(3,4) this(2) Cons.prems(5) i]
  then show ?case
    using Cons.IH [OF _ _ _ _ _ rest] Cons.prems(2,5) below_mono [of "length bs" rest "length bs1"]
    by (auto dest: order_trans less_le_trans)
qed auto

lemma inline_rounds_ok:
  assumes "blocks_ok (set calls) bs" "below (length bs) calls" "d = 0 \<longrightarrow> calls = []"
    and "\<forall>f m. entries f = Some m \<longrightarrow> m < length bs" "inline_rounds entries d calls bs = Some bs'"
  shows "blocks_ok {} bs' \<and> length bs \<le> length bs'"
  using assms
proof (induction d arbitrary: calls bs)
  case (Suc d)
  show ?case
  proof (cases "calls = []")
    case False
    then obtain bs1 new1 where i: "inline_calls entries (Suc d) calls (bs, []) = Some (bs1, new1)"
        and rest: "inline_rounds entries d new1 bs1 = Some bs'"
      using Suc.prems(5) by (auto split: option.splits prod.splits)
    have ok: "blocks_ok (set new1) bs1 \<and> below (length bs1) new1 \<and> (Suc d = 1 \<longrightarrow> new1 = []) \<and> length bs \<le> length bs1"
      using inline_calls_ok [OF _ _ _ _ Suc.prems(4) i] Suc.prems(1,2) by simp
    then have "\<forall>f m. entries f = Some m \<longrightarrow> m < length bs1" using Suc.prems(4) by (meson less_le_trans)
    from Suc.IH [OF _ _ _ this rest] ok show ?thesis by auto
  qed (use Suc.prems in auto)
qed auto

lemma read_graph_ok:
  assumes "read_control_flow hs v insts s = Some (s', bs')"
  shows "blocks_ok {} bs' \<and> 2 < length bs'"
proof -
  from assms obtain r g where
    g: "read_instructions hs v insts \<lparr>reader_shader = s, reader_phase = - 1\<rparr> start_graph = Some (r, g)"
    and bs': "inline_rounds (func_entries (finish_graph (reader_shader r) g)) 32
        (call_targets (finish_graph (reader_shader r) g)) (bbs (finish_graph (reader_shader r) g)) = Some bs'"
    by (auto simp: read_control_flow_def bind_eq_Some_conv)
  have "closed_graph (finish_graph (reader_shader r) g)"
    using closed_finish [OF closed_read_instructions [OF closed_start g]] .
  then show ?thesis
    using inline_rounds_ok [OF _ _ _ _ bs'] by (auto simp: closed_graph_def blocks_ok_def)
qed

definition call_free :: "basic_block list \<Rightarrow> bool" where
  "call_free bs = list_all (\<lambda>b. \<not> is_call (block_target b) \<and>
     list_all (\<lambda>k. k < length bs) (successors (block_target b))) bs"

lemma call_free_blocks: "blocks_ok {} bs \<Longrightarrow> call_free bs"
  by (auto simp: blocks_ok_def call_free_def list_all_iff targets_below_def calls_in_def in_set_conv_nth)

section \<open>The traversal ends\<close>

inductive reachable_block :: "basic_block list \<Rightarrow> nat \<Rightarrow> nat \<Rightarrow> bool" for bs :: "basic_block list" and entry :: nat where
  reaches_entry: "reachable_block bs entry entry"
| reaches_next: "reachable_block bs entry n \<Longrightarrow> k \<in> set (successors (block_target (bs ! n))) \<Longrightarrow> reachable_block bs entry k"

definition visiting :: "basic_block list \<Rightarrow> nat \<Rightarrow> nat list \<times> nat list \<Rightarrow> bool" where
  "visiting bs entry st \<longleftrightarrow>
     distinct (snd st) \<and> below (length bs) (fst st @ snd st) \<and> (\<forall>n \<in> set (fst st @ snd st). reachable_block bs entry n) \<and>
     entry \<in> set (fst st @ snd st) \<and>
     (\<forall>n \<in> set (snd st). set (successors (block_target (bs ! n))) \<subseteq> set (fst st @ snd st))"

lemma visiting_step:
  assumes bs: "targets_below (length bs) bs" and v: "visiting bs entry st" and ne: "fst st \<noteq> []"
  shows "visiting bs entry (visit_step bs st)"
proof -
  obtain n ns order where st: "st = (n # ns, order)" using ne by (cases st; cases "fst st") auto
  have "n < length bs" "reachable_block bs entry n" using v st by (auto simp: visiting_def)
  moreover from this have "below (length bs) (successors (block_target (bs ! n)))"
      "\<And>k. k \<in> set (successors (block_target (bs ! n))) \<Longrightarrow> reachable_block bs entry k"
    using bs by (auto simp: below_def dest: targets_below_nth intro: reaches_next)
  ultimately show ?thesis
    using v unfolding st visiting_def visit_step_def by (auto simp: below_def)
qed

lemma visited_bound:
  assumes "visiting bs entry st"
  shows "length (snd st) \<le> length bs"
proof -
  have "set (snd st) \<subseteq> {..< length bs}" using assms by (auto simp: visiting_def below_def)
  then show ?thesis
    using assms card_mono [of "{..< length bs}" "set (snd st)"] by (simp add: visiting_def distinct_card)
qed

lemma visit_decreases:
  assumes bs: "targets_below (length bs) bs" and v: "visiting bs entry st" and ne: "fst st \<noteq> []"
  shows "(visit_step bs st, st) \<in> measures [\<lambda>st. length bs - length (snd st), \<lambda>st. length (fst st)]"
proof -
  obtain n ns order where st: "st = (n # ns, order)" using ne by (cases st; cases "fst st") auto
  have "length (snd (visit_step bs st)) \<le> length bs" by (rule visited_bound [OF visiting_step [OF assms]])
  then show ?thesis using st by (auto simp: visit_step_def split: if_splits)
qed

lemma visit_order_reaches:
  assumes bs: "targets_below (length bs) bs" and entry: "entry < length bs"
  shows "\<exists>order. visit_order bs entry = Some order \<and> distinct order \<and> set order = {n. reachable_block bs entry n}"
proof -
  let ?b = "\<lambda>st. fst st \<noteq> []"
  have start: "visiting bs entry ([entry], [])" using entry by (auto simp: visiting_def intro: reaches_entry)
  have "wf {(t, st). (visiting bs entry st \<and> ?b st) \<and> t = visit_step bs st}"
    by (rule wf_subset [OF wf_measures]) (use visit_decreases [OF bs, of entry] in blast)
  from wf_while_option_Some [OF this visiting_step [OF bs] start]
  obtain st where w: "while_option ?b (visit_step bs) ([entry], []) = Some st" by auto
  have v: "visiting bs entry st"
    using while_option_rule [where P = "visiting bs entry", OF visiting_step [OF bs] w start] .
  have e: "fst st = []" using while_option_stop [OF w] by simp
  have "n \<in> set (snd st)" if "reachable_block bs entry n" for n
    using that by induction (use v e in \<open>auto simp: visiting_def\<close>)
  then show ?thesis using v e w by (auto simp: visit_order_def visiting_def)
qed

lemma undefined_or_convertible: "\<not> is_call t \<Longrightarrow> convertible t \<longleftrightarrow> t \<noteq> UndefinedTarget"
  by (cases t) auto

text \<open>
  C8. For every shader that is read, well-formed or not, no block of the graph ends in a call and
  every block it can go to is a block of the graph: the inlining of function calls leaves neither a
  call nor a reference to a block that does not exist.
\<close>

theorem inlining_leaves_no_call:
  assumes "read_control_flow hs v insts s = Some (s', bs)"
  shows "call_free bs"
  using call_free_blocks read_graph_ok [OF assms] by blast

text \<open>
  C14. For every shader that is read, the traversal of the graph ends, meets every reachable block
  once and no other, and the conversion fails exactly when a reachable block was left undefined.
\<close>

theorem conversion_visits_reachable:
  assumes "read_control_flow hs v insts s = Some (s', bs)"
  shows "\<exists>order. visit_order bs bb_entry = Some order \<and> distinct order \<and> set order = {n. reachable_block bs bb_entry n} \<and>
    (convert_basicblocks bs bb_entry = None) = (\<exists>n. reachable_block bs bb_entry n \<and> block_target (bs ! n) = UndefinedTarget)"
proof -
  have bs: "targets_below (length bs) bs" "calls_in {} bs" "bb_entry < length bs"
    using read_graph_ok [OF assms] by (auto simp: blocks_ok_def)
  from visit_order_reaches [OF bs(1,3)]
  obtain order where o: "visit_order bs bb_entry = Some order" "distinct order" "set order = {n. reachable_block bs bb_entry n}"
    by blast
  have "n < length bs" if "reachable_block bs bb_entry n" for n
    using that
  proof induction
    case (reaches_next n k) then show ?case using targets_below_nth [OF bs(1)] by blast
  qed (rule bs(3))
  then have "convertible (block_target (bs ! n)) \<longleftrightarrow> block_target (bs ! n) \<noteq> UndefinedTarget" if "reachable_block bs bb_entry n" for n
    using that bs(2) by (auto simp: calls_in_def undefined_or_convertible)
  then have "(convert_basicblocks bs bb_entry = None) = (\<exists>n. reachable_block bs bb_entry n \<and> block_target (bs ! n) = UndefinedTarget)"
    using o by (auto simp: convert_basicblocks_def list_all_iff)
  with o show ?thesis by (intro exI [of _ order] conjI)
qed

text \<open>\<open>call l0; ret; label l0; ret\<close>: the body and the end of the function are copied behind the call.\<close>

definition label_operand :: operand where
  "label_operand = clear_operand\<lparr>m_IndexDimension := 1\<rparr>"

definition call_shader :: "instruction list" where
  "call_shader =
     [clear_instruction\<lparr>m_OpCode := D3D10_SB_OPCODE_CALL, m_Operands := [label_operand]\<rparr>,
      clear_instruction\<lparr>m_OpCode := D3D10_SB_OPCODE_RET\<rparr>,
      clear_instruction\<lparr>m_OpCode := D3D10_SB_OPCODE_LABEL, m_Operands := [label_operand]\<rparr>,
      clear_instruction\<lparr>m_OpCode := D3D10_SB_OPCODE_RET\<rparr>]"

definition call_blocks :: "basic_block list" where
  "call_blocks = map (\<lambda>t. \<lparr>block_instructions = [], block_target = t\<rparr>)
     [UndefinedTarget, UnconditionalBranch 6, ReturnTarget, UnconditionalBranch 2, UnconditionalBranch 5, ReturnTarget,
      UnconditionalBranch 7, UnconditionalBranch 3]"

lemma call_lookup:
  "map_of flow_cases D3D10_SB_OPCODE_CALL = Some call_event"
  "map_of flow_cases D3D10_SB_OPCODE_LABEL = Some label_event"
  "map_of flow_cases D3D10_SB_OPCODE_RET = Some (plain_event E_Ret)"
  by (simp_all add: flow_cases_def)

lemma call_shader_read:
  "\<exists>r g f. read_instructions (\<lambda>I p s. Some s) False call_shader \<lparr>reader_shader = new_shader 0, reader_phase = - 1\<rparr> start_graph
       = Some (r, g) \<and> reader_shader r = new_shader 0 \<and> func_entries g = [f \<mapsto> 4] \<and> call_targets g = [1] \<and> bb_current g = bb_return \<and>
     bbs g = map (\<lambda>t. \<lparr>block_instructions = [], block_target = t\<rparr>)
     [UndefinedTarget, CallTarget f 3, ReturnTarget, UnconditionalBranch 2, UnconditionalBranch 5, ReturnTarget]"
  by (simp add: call_shader_def decode_instruction_def call_lookup plain_event_def call_event_def label_event_def
      flow_call_def flow_ret_def flow_label_def fresh_bb_def end_block_def set_target_def ret_target_def start_graph_def new_block_def
      eval_nat_numeral)

lemma call_inlined:
  "inline_rounds [f \<mapsto> 4] 32 [1] (map (\<lambda>t. \<lparr>block_instructions = [], block_target = t\<rparr>)
     [UndefinedTarget, CallTarget f 3, ReturnTarget, UnconditionalBranch 2, UnconditionalBranch 5, ReturnTarget]) = Some call_blocks"
  by (simp add: eval_nat_numeral inline_call_def clone_def set_block_target_def while_option_unfold redirect_step_def call_blocks_def)

lemma call_shader_blocks:
  "read_control_flow (\<lambda>I p s. Some s) False call_shader (new_shader 0) = Some (new_shader 0, call_blocks)"
proof -
  from call_shader_read obtain r g f where
    r: "read_instructions (\<lambda>I p s. Some s) False call_shader \<lparr>reader_shader = new_shader 0, reader_phase = - 1\<rparr> start_graph = Some (r, g)"
    and g: "reader_shader r = new_shader 0" "func_entries g = [f \<mapsto> 4]" "call_targets g = [1]" "bb_current g = bb_return"
      "bbs g = map (\<lambda>t. \<lparr>block_instructions = [], block_target = t\<rparr>)
        [UndefinedTarget, CallTarget f 3, ReturnTarget, UnconditionalBranch 2, UnconditionalBranch 5, ReturnTarget]"
    by blast
  have "finish_graph (new_shader 0) g = g" using g(4) by (simp add: finish_graph_def)
  moreover have "inline_rounds (func_entries g) 32 (call_targets g) (bbs g) = Some call_blocks"
    unfolding g by (rule call_inlined)
  ultimately show ?thesis using r g(1) by (simp add: read_control_flow_def)
qed

theorem inlining_leaves_no_call_witness:
  "read_control_flow (\<lambda>I p s. Some s) False call_shader (new_shader 0) = Some (new_shader 0, call_blocks) \<and> call_free call_blocks"
  using call_shader_blocks inlining_leaves_no_call [OF call_shader_blocks] by (rule conjI)

theorem conversion_visits_reachable_witness:
  "\<exists>order. visit_order call_blocks bb_entry = Some order \<and> set order = {n. reachable_block call_blocks bb_entry n}"
  using conversion_visits_reachable [OF call_shader_blocks] by blast

end
