(* ===== verification/EncoderList.thy ===== *)
theory EncoderList
  imports FenceSet ResourceViews
begin

text \<open>
  The list of encoders of a command buffer and its optimisation before it is handed to Metal,
  \<open>flushCommands\<close> and \<open>checkEncoderRelation\<close> of \<open>src/dxmt/dxmt_context.cpp\<close> with the encoder data
  of \<open>dxmt_context.hpp\<close>.  Clears and render passes move forward over encoders that do not depend
  on them: a clear becomes the load action of a render pass, a render pass joins a later one with
  the same attachments, and a resolve becomes the store action of an earlier render pass.
\<close>

section \<open>Encoder data\<close>

datatype load_action = WMTLoadActionDontCare | WMTLoadActionLoad | WMTLoadActionClear

datatype store_action =
    WMTStoreActionDontCare | WMTStoreActionStore | WMTStoreActionMultisampleResolve
  | WMTStoreActionStoreAndMultisampleResolve | WMTStoreActionUnknown | WMTStoreActionCustomSampleDepthStore

text \<open>
  A reference to a view: the allocation, by number, and the key; an allocation has one view for
  each key.  A colour is kept as the bits of its four \<open>double\<close>s, a depth as those of a \<open>float\<close>.
\<close>

record view_ref =
  view_allocation :: nat
  ref_key :: view_key

type_synonym clear_color = "u64 \<times> u64 \<times> u64 \<times> u64"

record color_attachment =
  attachment :: "view_ref option"
  load_action :: load_action
  store_action :: store_action
  level :: u16
  slice :: u16
  depth_plane :: u32
  clear_color :: clear_color
  resolve_attachment :: "view_ref option"
  resolve_level :: u16
  resolve_slice :: u16
  resolve_depth_plane :: u32

record 'v planar_attachment =
  planar :: "view_ref option"
  planar_load :: load_action
  planar_store :: store_action
  planar_level :: u16
  planar_slice :: u16
  planar_depth_plane :: u32
  clear_value :: 'v

type_synonym depth_attachment = "u32 planar_attachment"
type_synonym stencil_attachment = "u8 planar_attachment"

record gs_marshal =
  gs_draw_arguments :: nat
  gs_draw_arguments_va :: u64
  gs_max_object_threadgroups :: u64
  gs_dispatch_arguments_buffer :: nat
  gs_dispatch_arguments_va :: u64
  vertex_count_per_warp :: u32

record ts_marshal =
  ts_draw_arguments :: nat
  ts_draw_arguments_va :: u64
  ts_max_object_threadgroups :: u64
  ts_dispatch_arguments_buffer :: nat
  ts_dispatch_arguments_va :: u64
  control_point_count :: u32
  patch_per_group :: u32

text \<open>
  The encoded commands \<open>'c\<close> are opaque; the linked list from \<open>cmd_head\<close> to \<open>cmd_tail\<close> is a list.
\<close>

record 'c render_encoder =
  colors :: "color_attachment list"
  depth :: depth_attachment
  stencil :: stencil_attachment
  default_raster_sample_count :: u8
  render_target_array_length :: u16
  render_target_height :: u32
  render_target_width :: u32
  gs_arg_marshal_tasks :: "gs_marshal list"
  ts_arg_marshal_tasks :: "ts_marshal list"
  render_commands :: "'c list"
  allocated_argbuf :: nat
  allocated_argbuf_offset :: u64
  encoder_id_vertex :: u64
  fence_wait_vertex :: fence_set
  fence_update_vertex :: fence_set
  dsv_planar_flags :: u8
  dsv_readonly_flags :: u8
  render_target_count :: nat
  use_visibility_result :: bool
  use_tessellation :: bool
  use_geometry :: bool
  use_emulated_so :: bool

text \<open>The union of a clear holds the colour when \<open>clear_dsv\<close> is 0, else depth and stencil.\<close>

record clear_encoder =
  color :: clear_color
  depth_stencil :: "u32 \<times> u8"
  clear_attachment :: view_ref
  clear_dsv :: u32
  clear_array_length :: u32
  clear_width :: u32
  clear_height :: u32

record resolve_encoder =
  resolve_src :: view_ref
  resolve_dst :: view_ref

datatype 'c encoder_data =
    NullEncoder
  | RenderEncoder "'c render_encoder"
  | ComputeEncoder "'c list" nat
  | BlitEncoder "'c list"
  | ClearEncoder clear_encoder
  | ResolveEncoder resolve_encoder
  | PresentEncoder 'c
  | SpatialUpscaleEncoder 'c
  | SignalEventEncoder nat u64
  | TemporalUpscaleEncoder 'c
  | WaitForEventEncoder nat u64
  | SampleTimestampEncoder nat

record 'c encoder =
  encoder_id :: u64
  fence_wait :: fence_set
  fence_update :: fence_set
  data :: "'c encoder_data"

text \<open>\<open>free\<close>: the encoder was merged into another one.\<close>

definition free_encoder :: "'c encoder \<Rightarrow> 'c encoder" where
  "free_encoder e = e\<lparr>data := NullEncoder\<rparr>"

section \<open>Data dependencies\<close>

definition all_waits :: "'c encoder \<Rightarrow> fence_set" where
  "all_waits e = (case data e of RenderEncoder r \<Rightarrow> fs_unionOf (fence_wait e) (fence_wait_vertex r) | _ \<Rightarrow> fence_wait e)"

definition all_updates :: "'c encoder \<Rightarrow> fence_set" where
  "all_updates e = (case data e of RenderEncoder r \<Rightarrow> fs_unionOf (fence_update_vertex r) (fence_update e) | _ \<Rightarrow> fence_update e)"

definition hasDataDependency :: "'c encoder \<Rightarrow> 'c encoder \<Rightarrow> bool" where
  "hasDataDependency latter former \<longleftrightarrow>
     fs_intersectedWith (all_updates former) (all_waits latter) \<or> fs_intersectedWith (all_updates latter) (all_waits former)"

section \<open>Which encoders match\<close>

text \<open>\<open>bit\<close> 0 of the flags is the depth plane, bit 1 the stencil plane.\<close>

definition planar_matched :: "bool \<Rightarrow> bool \<Rightarrow> 'v planar_attachment \<Rightarrow> 'v planar_attachment \<Rightarrow> bool" where
  "planar_matched present readonly a0 a1 \<longleftrightarrow>
     present \<longrightarrow> planar a0 = planar a1 \<and>
       (if readonly then planar_load a1 \<noteq> WMTLoadActionClear
        else planar_store a0 = WMTStoreActionStore \<and> planar_load a1 = WMTLoadActionLoad)"

definition color_matched :: "color_attachment \<Rightarrow> color_attachment \<Rightarrow> bool" where
  "color_matched a0 a1 \<longleftrightarrow>
     attachment a0 = attachment a1 \<and> depth_plane a0 = depth_plane a1 \<and>
     (attachment a0 \<noteq> None \<longrightarrow> store_action a0 = WMTStoreActionStore \<and> load_action a1 = WMTLoadActionLoad)"

definition isEncoderSignatureMatched :: "'c render_encoder \<Rightarrow> 'c render_encoder \<Rightarrow> bool" where
  "isEncoderSignatureMatched r0 r1 \<longleftrightarrow>
     render_target_count r0 = render_target_count r1 \<and>
     dsv_planar_flags r0 = dsv_planar_flags r1 \<and>
     dsv_readonly_flags r0 = dsv_readonly_flags r1 \<and>
     render_target_array_length r0 = render_target_array_length r1 \<and>
     allocated_argbuf r0 = allocated_argbuf r1 \<and>
     planar_matched (bit (dsv_planar_flags r0) 0) (bit (dsv_readonly_flags r0) 0) (depth r0) (depth r1) \<and>
     planar_matched (bit (dsv_planar_flags r0) 1) (bit (dsv_readonly_flags r0) 1) (stencil r0) (stencil r1) \<and>
     list_all (\<lambda>i. color_matched (colors r0 ! i) (colors r1 ! i)) [0..<render_target_count r0]"

text \<open>The first attachment of a pass with a property, by its index.\<close>

definition first_color :: "(color_attachment \<Rightarrow> bool) \<Rightarrow> 'c render_encoder \<Rightarrow> nat option" where
  "first_color P r = find (\<lambda>i. P (colors r ! i)) [0..<render_target_count r]"

definition isClearColorSignatureMatched :: "clear_encoder \<Rightarrow> 'c render_encoder \<Rightarrow> nat option" where
  "isClearColorSignatureMatched clear = first_color (\<lambda>a. attachment a = Some (clear_attachment clear))"

definition isClearDepthSignatureMatched :: "clear_encoder \<Rightarrow> 'c render_encoder \<Rightarrow> bool" where
  "isClearDepthSignatureMatched clear r \<longleftrightarrow> bit (clear_dsv clear) 0 \<and> planar (depth r) = Some (clear_attachment clear)"

definition isClearStencilSignatureMatched :: "clear_encoder \<Rightarrow> 'c render_encoder \<Rightarrow> bool" where
  "isClearStencilSignatureMatched clear r \<longleftrightarrow> bit (clear_dsv clear) 1 \<and> planar (stencil r) = Some (clear_attachment clear)"

text \<open>The textures behind the allocations; a view in another format may be added to one.\<close>

record texture_store =
  descriptor :: "nat \<Rightarrow> nat"
  textures :: "nat \<Rightarrow> texture"

definition texture_of :: "view_ref \<Rightarrow> texture_store \<Rightarrow> texture" where
  "texture_of v st = textures st (descriptor st (view_allocation v))"

definition pixelFormat :: "view_ref \<Rightarrow> view_key \<Rightarrow> texture_store \<Rightarrow> u32" where
  "pixelFormat v k st = format (viewDescriptors (texture_of v st) ! key_index k)"

definition use_format :: "view_ref \<Rightarrow> u32 \<Rightarrow> texture_store \<Rightarrow> view_key \<times> texture_store" where
  "use_format v fmt st =
     (case checkViewUseFormat (ref_key v) fmt (texture_of v st) of
        (k, tex) \<Rightarrow> (k, st\<lparr>textures := (textures st)(descriptor st (view_allocation v) := tex)\<rparr>))"

text \<open>The attachment that takes a resolve, and the view that it resolves to.\<close>

fun match_resolve ::
  "nat list \<Rightarrow> 'c render_encoder \<Rightarrow> resolve_encoder \<Rightarrow> texture_store \<Rightarrow> (nat \<times> view_ref) option \<times> texture_store" where
  "match_resolve [] r s st = (None, st)"
| "match_resolve (i # rest) r s st =
     (case attachment (colors r ! i) of
        None \<Rightarrow> match_resolve rest r s st
      | Some v \<Rightarrow>
          if store_action (colors r ! i) \<noteq> WMTStoreActionStore \<or> resolve_attachment (colors r ! i) \<noteq> None \<or>
             view_allocation v \<noteq> view_allocation (resolve_src s) then match_resolve rest r s st
          else if ref_key v = ref_key (resolve_src s) then (Some (i, resolve_dst s), st)
          else let fmt = pixelFormat (resolve_src s) (ref_key v) st; (k, st) = use_format (resolve_src s) fmt st
               in if ref_key v = k then
                    let (k', st) = use_format (resolve_dst s) fmt st in (Some (i, (resolve_dst s)\<lparr>ref_key := k'\<rparr>), st)
                  else match_resolve rest r s st)"

definition isResolveSignatureMatched ::
  "'c render_encoder \<Rightarrow> resolve_encoder \<Rightarrow> texture_store \<Rightarrow> (nat \<times> view_ref) option \<times> texture_store" where
  "isResolveSignatureMatched r = match_resolve [0..<render_target_count r] r"

section \<open>The relation of two encoders\<close>

datatype list_op = DXMT_ENCODER_LIST_OP_SWAP | DXMT_ENCODER_LIST_OP_SYNCHRONIZE

definition data_relation :: "'c encoder \<Rightarrow> 'c encoder \<Rightarrow> list_op" where
  "data_relation former latter =
     (if hasDataDependency latter former then DXMT_ENCODER_LIST_OP_SYNCHRONIZE else DXMT_ENCODER_LIST_OP_SWAP)"

text \<open>An encoder takes over the fences of one that is merged into it.\<close>

definition absorb_fences :: "'c encoder \<Rightarrow> 'c encoder \<Rightarrow> 'c encoder" where
  "absorb_fences x e = e\<lparr>fence_update := fs_merge (fence_update e) (fence_update x),
     fence_wait := fs_subtract (fs_merge (fence_wait e) (fence_wait x)) (fence_update x)\<rparr>"

definition clear_on_load :: "clear_color \<Rightarrow> color_attachment \<Rightarrow> color_attachment" where
  "clear_on_load c a =
     (if load_action a = WMTLoadActionLoad then a\<lparr>load_action := WMTLoadActionClear, clear_color := c\<rparr> else a)"

definition clear_planar :: "'v \<Rightarrow> 'v planar_attachment \<Rightarrow> 'v planar_attachment" where
  "clear_planar c a =
     (if planar_load a = WMTLoadActionLoad then a\<lparr>planar_load := WMTLoadActionClear, clear_value := c\<rparr> else a)"

definition clear_depth_plane :: "clear_encoder \<times> 'c render_encoder \<Rightarrow> clear_encoder \<times> 'c render_encoder" where
  "clear_depth_plane = (\<lambda>(c, r). if isClearDepthSignatureMatched c r
     then (c\<lparr>clear_dsv := clear_dsv c AND NOT 1\<rparr>, r\<lparr>depth := clear_planar (fst (depth_stencil c)) (depth r)\<rparr>) else (c, r))"

definition clear_stencil_plane :: "clear_encoder \<times> 'c render_encoder \<Rightarrow> clear_encoder \<times> 'c render_encoder" where
  "clear_stencil_plane = (\<lambda>(c, r). if isClearStencilSignatureMatched c r
     then (c\<lparr>clear_dsv := clear_dsv c AND NOT 2\<rparr>, r\<lparr>stencil := clear_planar (snd (depth_stencil c)) (stencil r)\<rparr>) else (c, r))"

definition clear_relation ::
  "'c encoder \<Rightarrow> clear_encoder \<Rightarrow> 'c encoder \<Rightarrow> 'c render_encoder \<Rightarrow> list_op \<times> 'c encoder \<times> 'c encoder" where
  "clear_relation former c latter r =
     (let merged = (\<lambda>r. (DXMT_ENCODER_LIST_OP_SYNCHRONIZE, free_encoder former,
                          absorb_fences former (latter\<lparr>data := RenderEncoder r\<rparr>)))
      in if ucast (render_target_array_length r) \<noteq> clear_array_length c then (data_relation former latter, former, latter)
         else if clear_dsv c \<noteq> 0 then
           (case clear_stencil_plane (clear_depth_plane (c, r)) of (c, r) \<Rightarrow>
              if clear_dsv c = 0 then merged r
              else (data_relation former latter, former\<lparr>data := ClearEncoder c\<rparr>, latter\<lparr>data := RenderEncoder r\<rparr>))
         else (case isClearColorSignatureMatched c r of
             None \<Rightarrow> (data_relation former latter, former, latter)
           | Some i \<Rightarrow> merged (r\<lparr>colors := (colors r)[i := clear_on_load (color c) (colors r ! i)]\<rparr>)))"

text \<open>The contents of a plane need not be stored when a later clear replaces them.\<close>

definition discard_plane :: "bool \<Rightarrow> view_ref \<Rightarrow> 'v planar_attachment \<Rightarrow> 'v planar_attachment" where
  "discard_plane cleared v a = (if cleared \<and> planar a = Some v then a\<lparr>planar_store := WMTStoreActionDontCare\<rparr> else a)"

definition discard_cleared :: "clear_encoder \<Rightarrow> 'c render_encoder \<Rightarrow> 'c render_encoder" where
  "discard_cleared c r =
     r\<lparr>depth := discard_plane (bit (clear_dsv c) 0) (clear_attachment c) (depth r),
       stencil := discard_plane (bit (clear_dsv c) 1) (clear_attachment c) (stencil r)\<rparr>"

definition resolve_into :: "nat \<Rightarrow> view_ref \<Rightarrow> 'c render_encoder \<Rightarrow> 'c render_encoder" where
  "resolve_into i dst r = r\<lparr>colors := (colors r)[i := (colors r ! i)
     \<lparr>store_action := WMTStoreActionStoreAndMultisampleResolve, resolve_attachment := Some dst\<rparr>]\<rparr>"

text \<open>Two render passes become one: the loads of the first, the commands of both.\<close>

definition inherit_load :: "color_attachment \<Rightarrow> color_attachment \<Rightarrow> color_attachment" where
  "inherit_load a0 a1 = a1\<lparr>load_action := load_action a0, clear_color := clear_color a0\<rparr>"

definition inherit_planar :: "'v planar_attachment \<Rightarrow> 'v planar_attachment \<Rightarrow> 'v planar_attachment" where
  "inherit_planar a0 a1 = a1\<lparr>planar_load := planar_load a0, clear_value := clear_value a0, planar_store := planar_store a0\<rparr>"

definition merge_passes :: "'c render_encoder \<Rightarrow> 'c render_encoder \<Rightarrow> 'c render_encoder" where
  "merge_passes r0 r1 =
     r1\<lparr>colors := map (\<lambda>i. if i < render_target_count r0 then inherit_load (colors r0 ! i) (colors r1 ! i) else colors r1 ! i)
          [0..<length (colors r1)],
        depth := inherit_planar (depth r0) (depth r1),
        stencil := inherit_planar (stencil r0) (stencil r1),
        render_commands := render_commands r0 @ render_commands r1,
        use_tessellation := (use_tessellation r0 \<or> use_tessellation r1),
        use_geometry := (use_geometry r0 \<or> use_geometry r1),
        use_emulated_so := (use_emulated_so r0 \<or> use_emulated_so r1),
        gs_arg_marshal_tasks := gs_arg_marshal_tasks r0 @ gs_arg_marshal_tasks r1,
        ts_arg_marshal_tasks := ts_arg_marshal_tasks r0 @ ts_arg_marshal_tasks r1,
        use_visibility_result := (use_visibility_result r0 \<or> use_visibility_result r1),
        fence_update_vertex := fs_merge (fence_update_vertex r1) (fence_update_vertex r0),
        fence_wait_vertex :=
          fs_subtract (fs_merge (fence_wait_vertex r1) (fence_wait_vertex r0)) (fence_update_vertex r0)\<rparr>"

definition render_relation ::
  "'c encoder \<Rightarrow> 'c render_encoder \<Rightarrow> 'c encoder \<Rightarrow> 'c render_encoder \<Rightarrow> list_op \<times> 'c encoder \<times> 'c encoder" where
  "render_relation former r0 latter r1 =
     (if isEncoderSignatureMatched r0 r1 \<and> \<not> fs_intersectedWith (fence_wait_vertex r1) (fence_update former) then
        let e = absorb_fences former (latter\<lparr>data := RenderEncoder (merge_passes r0 r1)\<rparr>)
        in (DXMT_ENCODER_LIST_OP_SYNCHRONIZE, free_encoder former,
            e\<lparr>fence_wait := fs_subtract (fence_wait e) (fence_update_vertex r0)\<rparr>)
      else (data_relation former latter, former, latter))"

definition resolve_relation ::
  "'c encoder \<Rightarrow> 'c render_encoder \<Rightarrow> 'c encoder \<Rightarrow> resolve_encoder \<Rightarrow> texture_store \<Rightarrow>
     (list_op \<times> 'c encoder \<times> 'c encoder) \<times> texture_store" where
  "resolve_relation former r latter s st =
     (case isResolveSignatureMatched r s st of
        (None, st) \<Rightarrow> ((data_relation former latter, former, latter), st)
      | (Some (i, dst), st) \<Rightarrow>
          ((DXMT_ENCODER_LIST_OP_SWAP, absorb_fences latter (former\<lparr>data := RenderEncoder (resolve_into i dst r)\<rparr>),
            free_encoder latter), st))"

fun synchronizes :: "'c encoder_data \<Rightarrow> bool" where
  "synchronizes (SignalEventEncoder e v) = True"
| "synchronizes (WaitForEventEncoder e v) = True"
| "synchronizes (SampleTimestampEncoder n) = True"
| "synchronizes _ = False"

definition checkEncoderRelation ::
  "'c encoder \<Rightarrow> 'c encoder \<Rightarrow> texture_store \<Rightarrow> (list_op \<times> 'c encoder \<times> 'c encoder) \<times> texture_store" where
  "checkEncoderRelation former latter st =
     (if data former = NullEncoder \<or> data latter = NullEncoder then ((DXMT_ENCODER_LIST_OP_SWAP, former, latter), st)
      else if synchronizes (data former) \<or> synchronizes (data latter) then
        ((DXMT_ENCODER_LIST_OP_SYNCHRONIZE, former, latter), st)
      else case (data former, data latter) of
          (ClearEncoder c, RenderEncoder r) \<Rightarrow> (clear_relation former c latter r, st)
        | (RenderEncoder r, ClearEncoder c) \<Rightarrow>
            (let former = former\<lparr>data := RenderEncoder (discard_cleared c r)\<rparr>
             in ((data_relation former latter, former, latter), st))
        | (RenderEncoder r, ResolveEncoder s) \<Rightarrow> resolve_relation former r latter s st
        | (RenderEncoder r0, RenderEncoder r1) \<Rightarrow> (render_relation former r0 latter r1, st)
        | _ \<Rightarrow> ((data_relation former latter, former, latter), st))"

section \<open>The pass over the list\<close>

text \<open>Encoder \<open>j\<close> against the later ones in turn, until one has to stay behind it.\<close>

fun relate_from ::
  "nat \<Rightarrow> nat list \<Rightarrow> 'c encoder list \<times> texture_store \<Rightarrow> 'c encoder list \<times> texture_store" where
  "relate_from j [] s = s"
| "relate_from j (i # rest) (es, st) =
     (if data (es ! i) = NullEncoder then relate_from j rest (es, st)
      else case checkEncoderRelation (es ! j) (es ! i) st of
             ((oper, former, latter), st) \<Rightarrow>
               let es = es[j := former, i := latter]
               in if oper = DXMT_ENCODER_LIST_OP_SYNCHRONIZE then (es, st) else relate_from j rest (es, st))"

fun movable :: "'c encoder_data \<Rightarrow> bool" where
  "movable (ClearEncoder c) = True"
| "movable (RenderEncoder r) = True"
| "movable _ = False"

definition optimize_at :: "nat \<Rightarrow> 'c encoder list \<times> texture_store \<Rightarrow> 'c encoder list \<times> texture_store" where
  "optimize_at j s = (if movable (data (fst s ! j)) then relate_from j [Suc j..<length (fst s)] s else s)"

definition optimize_encoders :: "'c encoder list \<times> texture_store \<Rightarrow> 'c encoder list \<times> texture_store" where
  "optimize_encoders s = fold optimize_at (rev [0..<length (fst s) - 1]) s"

section \<open>Encoders of the examples\<close>

definition example_view :: "nat \<Rightarrow> view_ref" where
  "example_view n = \<lparr>view_allocation = n, ref_key = \<lparr>key_index = 0, key_mip_count = 1, key_mip_start = 0,
     key_array_start = 0, key_mip_end = 1, key_array_end = 1\<rparr>\<rparr>"

definition example_store :: texture_store where
  "example_store = \<lparr>descriptor = \<lambda>n. n, textures = \<lambda>n. \<lparr>info = \<lparr>pixel_format = 70, ti_width = 1, ti_height = 1,
     ti_depth = 1, array_length = 1, ti_type = WMTTextureType2D, mipmap_level_count = 1, sample_count = 1, usage = 0\<rparr>,
     viewDescriptors = []\<rparr>\<rparr>"

definition example_color :: "view_ref option \<Rightarrow> color_attachment" where
  "example_color v = \<lparr>attachment = v, load_action = WMTLoadActionLoad, store_action = WMTStoreActionStore, level = 0,
     slice = 0, depth_plane = 0, clear_color = (0, 0, 0, 0), resolve_attachment = None, resolve_level = 0,
     resolve_slice = 0, resolve_depth_plane = 0\<rparr>"

definition no_plane :: "'v \<Rightarrow> 'v planar_attachment" where
  "no_plane v = \<lparr>planar = None, planar_load = WMTLoadActionDontCare, planar_store = WMTStoreActionDontCare,
     planar_level = 0, planar_slice = 0, planar_depth_plane = 0, clear_value = v\<rparr>"

text \<open>A pass on one colour attachment, with its identifiers and the fences it waits for.\<close>

definition example_pass :: "view_ref \<Rightarrow> u64 \<Rightarrow> u64 \<Rightarrow> fence_set \<Rightarrow> 'c list \<Rightarrow> 'c encoder" where
  "example_pass v n k w cs = \<lparr>encoder_id = k, fence_wait = w, fence_update = fs_singleton k, data = RenderEncoder
     \<lparr>colors = [example_color (Some v)], depth = no_plane 0, stencil = no_plane 0, default_raster_sample_count = 0,
      render_target_array_length = 1, render_target_height = 1, render_target_width = 1, gs_arg_marshal_tasks = [],
      ts_arg_marshal_tasks = [], render_commands = cs, allocated_argbuf = 0, allocated_argbuf_offset = 0,
      encoder_id_vertex = n, fence_wait_vertex = fs_empty, fence_update_vertex = fs_singleton n, dsv_planar_flags = 0,
      dsv_readonly_flags = 0, render_target_count = 1, use_visibility_result = False, use_tessellation = False,
      use_geometry = False, use_emulated_so = False\<rparr>\<rparr>"

definition example_blit :: "u64 \<Rightarrow> fence_set \<Rightarrow> 'c list \<Rightarrow> 'c encoder" where
  "example_blit k w cs = \<lparr>encoder_id = k, fence_wait = w, fence_update = fs_singleton k, data = BlitEncoder cs\<rparr>"

definition example_resolve :: "view_ref \<Rightarrow> view_ref \<Rightarrow> u64 \<Rightarrow> fence_set \<Rightarrow> 'c encoder" where
  "example_resolve v d k w =
     \<lparr>encoder_id = k, fence_wait = w, fence_update = fs_singleton k, data = ResolveEncoder \<lparr>resolve_src = v, resolve_dst = d\<rparr>\<rparr>"

end
