(* ===== verification/EncoderOrder.thy ===== *)
theory EncoderOrder
  imports EncoderList "HOL-Library.Sublist"
begin

text \<open>
  What the optimisation of the encoder list keeps: every encoder of the original list is part of
  one encoder of the result, the parts of an encoder run in an order that respects their
  dependencies, and the fences between different encoders are still waited for.
\<close>

section \<open>Fences as sets\<close>

lemma fs_abs_forEach [code]: "fs_abs s = set (fs_forEach s)"
  by (simp add: fs_forEach_sorted)

definition waits :: "'c encoder \<Rightarrow> nat set" where
  "waits e = fs_abs (all_waits e)"

definition updates :: "'c encoder \<Rightarrow> nat set" where
  "updates e = fs_abs (all_updates e)"

definition vertex_waits :: "'c encoder \<Rightarrow> nat set" where
  "vertex_waits e = (case data e of RenderEncoder r \<Rightarrow> fs_abs (fence_wait_vertex r) | _ \<Rightarrow> {})"

fun commands_of :: "'c encoder_data \<Rightarrow> 'c list" where
  "commands_of (RenderEncoder r) = render_commands r"
| "commands_of (ComputeEncoder cs b) = cs"
| "commands_of (BlitEncoder cs) = cs"
| "commands_of _ = []"

definition commands :: "'c encoder \<Rightarrow> 'c list" where
  "commands e = commands_of (data e)"

definition independent :: "'c encoder \<Rightarrow> 'c encoder \<Rightarrow> bool" where
  "independent f l \<longleftrightarrow> updates f \<inter> waits l = {} \<and> updates l \<inter> waits f = {}"

lemma hasDataDependency_iff: "hasDataDependency l f \<longleftrightarrow> \<not> independent f l"
  by (auto simp: hasDataDependency_def independent_def waits_def updates_def)

definition same_fences :: "'c encoder \<Rightarrow> 'c encoder \<Rightarrow> bool" where
  "same_fences e e' \<longleftrightarrow> data e' \<noteq> NullEncoder \<and> updates e' = updates e \<and> waits e' = waits e \<and>
     vertex_waits e' = vertex_waits e \<and> commands e' = commands e"

definition merges :: "'c encoder \<Rightarrow> 'c encoder \<Rightarrow> 'c encoder \<Rightarrow> bool" where
  "merges f l m \<longleftrightarrow> data m \<noteq> NullEncoder \<and> updates m = updates f \<union> updates l \<and> waits m \<subseteq> waits f \<union> waits l \<and>
     waits f \<union> waits l \<subseteq> waits m \<union> (updates f \<union> updates l) \<and>
     vertex_waits f \<union> vertex_waits l \<subseteq> vertex_waits m \<union> (updates f \<union> updates l) \<and>
     commands m = commands f @ commands l"

lemmas fence_defs = waits_def updates_def vertex_waits_def all_waits_def all_updates_def commands_def

lemma same_fences_refl: "data e \<noteq> NullEncoder \<Longrightarrow> same_fences e e"
  by (simp add: same_fences_def)

lemma data_relation_SWAP: "data_relation f l = DXMT_ENCODER_LIST_OP_SWAP \<longleftrightarrow> independent f l"
  by (simp add: data_relation_def hasDataDependency_iff)

section \<open>What one comparison does\<close>

definition compared ::
  "'c encoder \<Rightarrow> 'c encoder \<Rightarrow> list_op \<times> 'c encoder \<times> 'c encoder \<Rightarrow> bool" where
  "compared f l = (\<lambda>(oper, f', l').
     same_fences f f' \<and> same_fences l l' \<and> (oper = DXMT_ENCODER_LIST_OP_SWAP \<longrightarrow> independent f l) \<or>
     oper = DXMT_ENCODER_LIST_OP_SYNCHRONIZE \<and> data f' = NullEncoder \<and> merges f l l' \<or>
     oper = DXMT_ENCODER_LIST_OP_SWAP \<and> (\<exists>s. data l = ResolveEncoder s) \<and> data l' = NullEncoder \<and> merges f l f')"

lemma compared_kept:
  "data f \<noteq> NullEncoder \<Longrightarrow> data l \<noteq> NullEncoder \<Longrightarrow> compared f l (data_relation f l, f, l)"
  by (simp add: compared_def same_fences_refl data_relation_SWAP)

lemma clear_planes_fences:
  assumes "clear_stencil_plane (clear_depth_plane (c, r)) = (c', r')"
  shows "fence_wait_vertex r' = fence_wait_vertex r \<and> fence_update_vertex r' = fence_update_vertex r \<and>
    render_commands r' = render_commands r"
  using assms by (auto simp: clear_stencil_plane_def clear_depth_plane_def split: if_splits)

lemma clear_merges:
  assumes "data f = ClearEncoder c" "data l = RenderEncoder r"
    "fence_wait_vertex r' = fence_wait_vertex r" "fence_update_vertex r' = fence_update_vertex r"
    "render_commands r' = render_commands r"
  shows "merges f l (absorb_fences f (l\<lparr>data := RenderEncoder r'\<rparr>))"
  using assms by (auto simp: merges_def absorb_fences_def fence_defs)

lemma compared_clear:
  assumes "data f = ClearEncoder c" "data l = RenderEncoder r"
  shows "compared f l (clear_relation f c l r)"
proof -
  obtain c' r' where p: "clear_stencil_plane (clear_depth_plane (c, r)) = (c', r')" by fastforce
  note pf = clear_planes_fences [OF p]
  have kept: "compared f l (data_relation f l, f, l)" using assms by (simp add: compared_kept)
  have planes: "compared f l (data_relation f l, f\<lparr>data := ClearEncoder c'\<rparr>, l\<lparr>data := RenderEncoder r'\<rparr>)"
    using assms pf by (auto simp: compared_def same_fences_def data_relation_SWAP fence_defs)
  have merged: "compared f l (DXMT_ENCODER_LIST_OP_SYNCHRONIZE, free_encoder f, absorb_fences f (l\<lparr>data := RenderEncoder r''\<rparr>))"
    if "fence_wait_vertex r'' = fence_wait_vertex r" "fence_update_vertex r'' = fence_update_vertex r"
      "render_commands r'' = render_commands r" for r''
    using clear_merges [OF assms that] by (simp add: compared_def free_encoder_def)
  show ?thesis
    using kept planes merged pf p by (simp add: clear_relation_def Let_def split: option.splits)
qed

lemma compared_render:
  assumes "data f = RenderEncoder r0" "data l = RenderEncoder r1"
  shows "compared f l (render_relation f r0 l r1)"
proof -
  have "merges f l ((absorb_fences f (l\<lparr>data := RenderEncoder (merge_passes r0 r1)\<rparr>))\<lparr>fence_wait := fs_subtract
      (fence_wait (absorb_fences f (l\<lparr>data := RenderEncoder (merge_passes r0 r1)\<rparr>))) (fence_update_vertex r0)\<rparr>)"
    using assms by (auto simp: merges_def absorb_fences_def merge_passes_def fence_defs)
  then show ?thesis
    using assms compared_kept [of f l] by (simp add: render_relation_def Let_def compared_def free_encoder_def)
qed

lemma compared_resolve:
  assumes "data f = RenderEncoder r" "data l = ResolveEncoder s"
  shows "compared f l (fst (resolve_relation f r l s st))"
proof -
  have "merges f l (absorb_fences l (f\<lparr>data := RenderEncoder (resolve_into i dst r)\<rparr>))" for i dst
    using assms by (auto simp: merges_def absorb_fences_def resolve_into_def fence_defs)
  then show ?thesis
    using assms compared_kept [of f l]
    by (auto simp: resolve_relation_def compared_def free_encoder_def split: prod.splits option.splits)
qed

lemma compared_discard:
  assumes "data f = RenderEncoder r" "data l = ClearEncoder c"
  shows "compared f l (data_relation (f\<lparr>data := RenderEncoder (discard_cleared c r)\<rparr>) l,
    f\<lparr>data := RenderEncoder (discard_cleared c r)\<rparr>, l)"
  using assms by (auto simp: compared_def same_fences_def data_relation_SWAP fence_defs discard_cleared_def independent_def)

lemma check_compared:
  assumes "data f \<noteq> NullEncoder" "data l \<noteq> NullEncoder"
  shows "compared f l (fst (checkEncoderRelation f l st))"
proof (cases "synchronizes (data f) \<or> synchronizes (data l)")
  case True
  then show ?thesis using assms by (simp add: checkEncoderRelation_def compared_def same_fences_refl)
next
  case False
  then show ?thesis
    using assms compared_kept [OF assms] compared_clear compared_render compared_resolve compared_discard
    by (cases "data f"; cases "data l") (simp_all add: checkEncoderRelation_def Let_def)
qed

section \<open>The parts of an encoder\<close>

text \<open>\<open>xs\<close> are the numbers of the original encoders that were merged into \<open>e\<close>, in their order.\<close>

definition consists_of :: "'c encoder list \<Rightarrow> nat list \<Rightarrow> 'c encoder \<Rightarrow> bool" where
  "consists_of os xs e \<longleftrightarrow>
     updates e = (\<Union>a \<in> set xs. updates (os ! a)) \<and> waits e \<subseteq> (\<Union>a \<in> set xs. waits (os ! a)) \<and>
     (\<Union>a \<in> set xs. waits (os ! a)) \<subseteq> waits e \<union> updates e \<and>
     (\<Union>a \<in> set xs. vertex_waits (os ! a)) \<subseteq> vertex_waits e \<union> updates e \<and>
     commands e = concat (map (\<lambda>a. commands (os ! a)) xs)"

lemma consists_same: "consists_of os xs e \<Longrightarrow> same_fences e e' \<Longrightarrow> consists_of os xs e'"
  unfolding consists_of_def same_fences_def by metis

lemma consists_merges:
  assumes "consists_of os xs f" "consists_of os ys l" "merges f l m"
  shows "consists_of os (xs @ ys) m"
proof -
  note f = assms(1) [unfolded consists_of_def] and l = assms(2) [unfolded consists_of_def]
    and m = assms(3) [unfolded merges_def]
  have u: "updates m = (\<Union>a \<in> set (xs @ ys). updates (os ! a))" using f l m by (simp add: UN_Un)
  have w: "waits m \<subseteq> (\<Union>a \<in> set (xs @ ys). waits (os ! a))"
    using f l m unfolding set_append UN_Un by (meson Un_mono order_trans)
  have "(\<Union>a \<in> set xs. waits (os ! a)) \<union> (\<Union>a \<in> set ys. waits (os ! a)) \<subseteq> (waits f \<union> updates f) \<union> (waits l \<union> updates l)"
    using f l by (elim conjE) (intro Un_mono; assumption)
  also have "\<dots> \<subseteq> waits m \<union> updates m" using m by blast
  finally have w': "(\<Union>a \<in> set (xs @ ys). waits (os ! a)) \<subseteq> waits m \<union> updates m" by (simp add: UN_Un)
  have "(\<Union>a \<in> set xs. vertex_waits (os ! a)) \<union> (\<Union>a \<in> set ys. vertex_waits (os ! a)) \<subseteq>
      (vertex_waits f \<union> updates f) \<union> (vertex_waits l \<union> updates l)"
    using f l by (elim conjE) (intro Un_mono; assumption)
  also have "\<dots> \<subseteq> vertex_waits m \<union> updates m" using m by blast
  finally have v: "(\<Union>a \<in> set (xs @ ys). vertex_waits (os ! a)) \<subseteq> vertex_waits m \<union> updates m" by (simp add: UN_Un)
  show ?thesis unfolding consists_of_def using u w w' v f l m by (intro conjI) simp_all
qed

definition depends :: "'c encoder list \<Rightarrow> nat \<Rightarrow> nat \<Rightarrow> bool" where
  "depends os a b \<longleftrightarrow> a < b \<and> b < length os \<and> updates (os ! a) \<inter> waits (os ! b) \<noteq> {}"

definition in_order :: "(nat \<Rightarrow> nat) \<Rightarrow> (nat \<Rightarrow> nat list) \<Rightarrow> nat \<Rightarrow> nat \<Rightarrow> bool" where
  "in_order own parts a b \<longleftrightarrow> own a < own b \<or> own a = own b \<and> subseq [a, b] (parts (own a))"

definition arranged :: "'c encoder list \<Rightarrow> 'c encoder list \<Rightarrow> (nat \<Rightarrow> nat) \<Rightarrow> (nat \<Rightarrow> nat list) \<Rightarrow> bool" where
  "arranged os es own parts \<longleftrightarrow>
     length es = length os \<and> (\<forall>a < length os. own a < length os \<and> data (es ! own a) \<noteq> NullEncoder) \<and>
     (\<forall>s < length os. data (es ! s) \<noteq> NullEncoder \<longrightarrow> distinct (parts s) \<and> set (parts s) = {a. a < length os \<and> own a = s} \<and>
        consists_of os (parts s) (es ! s)) \<and>
     (\<forall>a b. depends os a b \<longrightarrow> in_order own parts a b)"

text \<open>The original encoders update different fences.\<close>

definition own_fences :: "'c encoder list \<Rightarrow> bool" where
  "own_fences os \<longleftrightarrow> (\<forall>a < length os. \<forall>b < length os. a \<noteq> b \<longrightarrow> updates (os ! a) \<inter> updates (os ! b) = {})"

lemma arrangedD:
  assumes "arranged os es own parts"
  shows "length es = length os"
    and "a < length os \<Longrightarrow> own a < length os" "a < length os \<Longrightarrow> data (es ! own a) \<noteq> NullEncoder"
    and "s < length os \<Longrightarrow> data (es ! s) \<noteq> NullEncoder \<Longrightarrow> distinct (parts s)"
    and "s < length os \<Longrightarrow> data (es ! s) \<noteq> NullEncoder \<Longrightarrow> set (parts s) = {a. a < length os \<and> own a = s}"
    and "s < length os \<Longrightarrow> data (es ! s) \<noteq> NullEncoder \<Longrightarrow> consists_of os (parts s) (es ! s)"
    and "depends os a b \<Longrightarrow> in_order own parts a b"
  using assms by (simp_all add: arranged_def)

lemma arranged_start:
  assumes "\<forall>e \<in> set os. data e \<noteq> NullEncoder"
  shows "arranged os os (\<lambda>a. a) (\<lambda>a. [a])"
  using assms by (auto simp: arranged_def consists_of_def in_order_def depends_def)

lemma slots_independent:
  assumes inv: "arranged os es own parts" and own: "own_fences os" and s: "s < length os" "data (es ! s) \<noteq> NullEncoder"
    and k: "k < length os" "data (es ! k) \<noteq> NullEncoder" "s \<noteq> k" and i: "updates (es ! s) \<inter> waits (es ! k) = {}"
    and a: "own a = s" "own b = k"
  shows "\<not> depends os a b"
proof
  assume d: "depends os a b"
  then obtain p where p: "p \<in> updates (os ! a)" "p \<in> waits (os ! b)" and ab: "a < length os" "b < length os"
    by (auto simp: depends_def)
  have mem: "a \<in> set (parts s)" "b \<in> set (parts k)"
    using arrangedD(5) [OF inv s] arrangedD(5) [OF inv k(1,2)] a ab by auto
  have "p \<in> updates (es ! s)"
    using arrangedD(6) [OF inv s] mem(1) p(1) by (auto simp: consists_of_def)
  moreover have "p \<in> waits (es ! k) \<or> p \<in> updates (es ! k)"
    using arrangedD(6) [OF inv k(1,2)] mem(2) p(2) by (auto simp: consists_of_def)
  ultimately obtain c where "c \<in> set (parts k)" "p \<in> updates (os ! c)"
    using i arrangedD(6) [OF inv k(1,2)] by (auto simp: consists_of_def)
  then have "c < length os" "own c = k" "c = a"
    using arrangedD(5) [OF inv k(1,2)] own p(1) ab by (auto simp: own_fences_def)
  then show False using a k by simp
qed

section \<open>Moving an encoder\<close>

definition passed :: "'c encoder list \<Rightarrow> (nat \<Rightarrow> nat) \<Rightarrow> nat \<Rightarrow> nat \<Rightarrow> bool" where
  "passed os own j i \<longleftrightarrow> (\<forall>a b. depends os a b \<longrightarrow> own a = j \<longrightarrow> j < own b \<longrightarrow> own b < i \<longrightarrow> False)"

lemma subseq_pair_append:
  "subseq [a, b] xs \<Longrightarrow> subseq [a, b] (xs @ ys)" "subseq [a, b] ys \<Longrightarrow> subseq [a, b] (xs @ ys)"
  "a \<in> set xs \<Longrightarrow> b \<in> set ys \<Longrightarrow> subseq [a, b] (xs @ ys)"
  using list_emb_append_mono [of "(=)" "[a]" xs "[b]" ys] by (auto intro: list_emb_append2 simp: subseq_singleton_left)

lemma arranged_merge:
  assumes inv: "arranged os es own parts" and ts: "{s, t} = {i, j}" and ij: "i \<noteq> j" "i < length os" "j < length os"
    and ne: "data (es ! i) \<noteq> NullEncoder" "data (es ! j) \<noteq> NullEncoder"
    and m: "merges (es ! i) (es ! j) m" "data x = NullEncoder"
    and ord: "\<And>a b. depends os a b \<Longrightarrow>
      in_order (\<lambda>a. if own a = s then t else own a) (parts(t := parts i @ parts j)) a b"
  shows "arranged os (es[t := m, s := x]) (\<lambda>a. if own a = s then t else own a) (parts(t := parts i @ parts j))"
proof -
  have st: "s \<noteq> t" "s < length os" "t < length os" "data (es ! t) \<noteq> NullEncoder"
    using ts ij ne by (auto simp: doubleton_eq_iff)
  have len: "length es = length os" using arrangedD(1) [OF inv] .
  have m': "data m \<noteq> NullEncoder" using m by (simp add: merges_def)
  have parts: "distinct (parts i)" "distinct (parts j)" "set (parts i) = {a. a < length os \<and> own a = i}"
      "set (parts j) = {a. a < length os \<and> own a = j}"
    using arrangedD(4,5) [OF inv] ij ne by blast+
  have joined: "distinct (parts i @ parts j)" "consists_of os (parts i @ parts j) m"
      "set (parts i @ parts j) = {a. a < length os \<and> (if own a = s then t else own a) = t}"
  proof -
    show "distinct (parts i @ parts j)" using parts ij by auto
    show "consists_of os (parts i @ parts j) m"
      using consists_merges [OF _ _ m(1)] arrangedD(6) [OF inv] ij ne by blast
    show "set (parts i @ parts j) = {a. a < length os \<and> (if own a = s then t else own a) = t}"
      using parts ts by (auto simp: doubleton_eq_iff)
  qed
  have nth: "es[t := m, s := x] ! k = (if k = s then x else if k = t then m else es ! k)" if "k < length os" for k
    using that len st by (simp add: nth_list_update)
  have slots: "distinct ((parts(t := parts i @ parts j)) k) \<and>
      set ((parts(t := parts i @ parts j)) k) = {a. a < length os \<and> (if own a = s then t else own a) = k} \<and>
      consists_of os ((parts(t := parts i @ parts j)) k) (es[t := m, s := x] ! k)"
    if k: "k < length os" "data (es[t := m, s := x] ! k) \<noteq> NullEncoder" for k
  proof (cases "k = t")
    case True then show ?thesis using joined k st len by simp
  next
    case False
    then have "k \<noteq> s" "data (es ! k) \<noteq> NullEncoder" using k m(2) by (auto simp: nth split: if_splits)
    then show ?thesis using False k arrangedD(4,5,6) [OF inv, of k] by (auto simp: nth)
  qed
  have "(if own a = s then t else own a) < length os \<and>
      data (es[t := m, s := x] ! (if own a = s then t else own a)) \<noteq> NullEncoder" if "a < length os" for a
    using arrangedD(2,3) [OF inv that] st m' len by (simp add: nth_list_update)
  then show ?thesis
    unfolding arranged_def using len slots ord by simp
qed

lemma in_parts:
  assumes "arranged os es own parts" "depends os a b"
  shows "a \<in> set (parts (own a))" "b \<in> set (parts (own b))"
  using assms(2) arrangedD(5) [OF assms(1) arrangedD(2,3) [OF assms(1)]] by (auto simp: depends_def)

lemma arranged_forward:
  assumes inv: "arranged os es own parts" and ji: "j < i" "i < length os"
    and ne: "data (es ! j) \<noteq> NullEncoder" "data (es ! i) \<noteq> NullEncoder" and p: "passed os own j i"
    and m: "merges (es ! j) (es ! i) m" "data x = NullEncoder"
  shows "arranged os (es[j := x, i := m]) (\<lambda>a. if own a = j then i else own a) (parts(i := parts j @ parts i))"
proof -
  have "in_order (\<lambda>a. if own a = j then i else own a) (parts(i := parts j @ parts i)) a b" if d: "depends os a b" for a b
  proof -
    have "own b \<ge> i" if "own a = j" "own b \<noteq> j"
      using p d arrangedD(7) [OF inv d] that by (fastforce simp: passed_def in_order_def)
    then show ?thesis
      using arrangedD(7) [OF inv d] in_parts [OF inv d] ji
      by (auto simp: in_order_def intro: subseq_pair_append)
  qed
  then have "arranged os (es[i := m, j := x]) (\<lambda>a. if own a = j then i else own a) (parts(i := parts j @ parts i))"
    using arranged_merge [OF inv, of j i j i m x] ji ne m by auto
  then show ?thesis using ji by (simp add: list_update_swap)
qed

lemma arranged_backward:
  assumes inv: "arranged os es own parts" and ji: "j < i" "i < length os"
    and ne: "data (es ! j) \<noteq> NullEncoder" "data (es ! i) \<noteq> NullEncoder"
    and p: "\<And>a b. depends os a b \<Longrightarrow> own b = i \<Longrightarrow> j < own a \<Longrightarrow> own a < i \<Longrightarrow> False"
    and m: "merges (es ! j) (es ! i) m" "data x = NullEncoder"
  shows "arranged os (es[j := m, i := x]) (\<lambda>a. if own a = i then j else own a) (parts(j := parts j @ parts i))"
proof -
  have "in_order (\<lambda>a. if own a = i then j else own a) (parts(j := parts j @ parts i)) a b" if d: "depends os a b" for a b
  proof -
    have "own a \<le> j" if "own b = i" "own a \<noteq> i"
      using p [OF d] arrangedD(7) [OF inv d] that by (fastforce simp: in_order_def)
    then show ?thesis
      using arrangedD(7) [OF inv d] in_parts [OF inv d] ji
      by (auto simp: in_order_def intro: subseq_pair_append)
  qed
  then show ?thesis using arranged_merge [OF inv, of i j j i m x] ji ne m by auto
qed

lemma arranged_kept:
  assumes inv: "arranged os es own parts" and ji: "j < i" "i < length os"
    and ne: "data (es ! j) \<noteq> NullEncoder" "data (es ! i) \<noteq> NullEncoder"
    and s: "same_fences (es ! j) f" "same_fences (es ! i) l"
  shows "arranged os (es[j := f, i := l]) own parts"
proof -
  have len: "length es = length os" using arrangedD(1) [OF inv] .
  have "same_fences (es ! k) (es[j := f, i := l] ! k)" if "k < length os" "data (es ! k) \<noteq> NullEncoder" for k
    using that ji s len by (auto simp: nth_list_update same_fences_refl)
  moreover have "data (es[j := f, i := l] ! k) \<noteq> NullEncoder \<longleftrightarrow> data (es ! k) \<noteq> NullEncoder" if "k < length os" for k
    using that ji s ne len by (auto simp: nth_list_update same_fences_def)
  ultimately show ?thesis
    using inv len unfolding arranged_def by (auto intro: consists_same)
qed

section \<open>Resolves over encoders in between\<close>

text \<open>
  A resolve moves back to the render pass without being compared with the encoders in between.
  \<open>hoists_safely\<close> follows the optimisation and asks that no such encoder updates a fence that
  the resolve waits for.
\<close>

definition hoist_free :: "'c encoder list \<Rightarrow> nat \<Rightarrow> nat \<Rightarrow> bool" where
  "hoist_free es j i \<longleftrightarrow> list_all (\<lambda>k. data (es ! k) = NullEncoder \<or>
     \<not> fs_intersectedWith (all_updates (es ! k)) (all_waits (es ! i))) [Suc j..<i]"

fun is_resolve :: "'c encoder_data \<Rightarrow> bool" where
  "is_resolve (ResolveEncoder s) = True"
| "is_resolve _ = False"

fun hoists_from :: "nat \<Rightarrow> nat list \<Rightarrow> 'c encoder list \<times> texture_store \<Rightarrow> bool" where
  "hoists_from j [] s = True"
| "hoists_from j (i # rest) (es, st) =
     (if data (es ! i) = NullEncoder then hoists_from j rest (es, st)
      else case checkEncoderRelation (es ! j) (es ! i) st of
             ((oper, former, latter), st) \<Rightarrow>
               (is_resolve (data (es ! i)) \<and> data latter = NullEncoder \<longrightarrow> hoist_free es j i) \<and>
               (oper = DXMT_ENCODER_LIST_OP_SYNCHRONIZE \<or> hoists_from j rest (es[j := former, i := latter], st)))"

fun hoists_safely :: "nat list \<Rightarrow> 'c encoder list \<times> texture_store \<Rightarrow> bool" where
  "hoists_safely [] s = True"
| "hoists_safely (j # rest) s =
     ((movable (data (fst s ! j)) \<longrightarrow> hoists_from j [Suc j..<length (fst s)] s) \<and> hoists_safely rest (optimize_at j s))"

lemma hoist_free_depends:
  assumes inv: "arranged os es own parts" and own: "own_fences os" and i: "i < length os" "data (es ! i) \<noteq> NullEncoder"
    and h: "hoist_free es j i" and d: "depends os a b" and ab: "own b = i" "j < own a" "own a < i"
  shows False
proof -
  have a: "own a < length os" "data (es ! own a) \<noteq> NullEncoder"
    using arrangedD(2,3) [OF inv] d by (auto simp: depends_def)
  then have "updates (es ! own a) \<inter> waits (es ! i) = {}"
    using h ab by (auto simp: hoist_free_def list_all_iff updates_def waits_def)
  then show False using slots_independent [OF inv own a i _ _ refl ab(1)] d ab by simp
qed

lemma passed_Suc:
  assumes "passed os own j i" "\<And>a b. depends os a b \<Longrightarrow> own a = j \<Longrightarrow> own b = i \<Longrightarrow> False"
  shows "passed os own j (Suc i)"
  using assms by (fastforce simp: passed_def less_Suc_eq)

lemma passed_backward:
  assumes inv: "arranged os es own parts" and p: "passed os own j i" and ji: "j < i"
  shows "passed os (\<lambda>a. if own a = i then j else own a) j (Suc i)"
proof -
  have "own a \<le> own b" if "depends os a b" for a b
    using arrangedD(7) [OF inv that] by (auto simp: in_order_def)
  then show ?thesis using p ji by (fastforce simp: passed_def less_Suc_eq split: if_splits)
qed

lemma relate_from_arranged:
  assumes "own_fences os" "arranged os es own parts" "passed os own j i" "j < i" "data (es ! j) \<noteq> NullEncoder"
    "hoists_from j [i..<length os] (es, st)"
  shows "\<exists>own parts. arranged os (fst (relate_from j [i..<length os] (es, st))) own parts"
  using assms
proof (induction "length os - i" arbitrary: i es st own parts)
  case 0
  then show ?case by auto
next
  case (Suc m)
  note own = Suc.prems(1) and inv = Suc.prems(2) and p = Suc.prems(3) and ji = Suc.prems(4) and ne = Suc.prems(5)
  have i: "i < length os" and m: "m = length os - Suc i" using Suc.hyps(2) by auto
  have upt: "[i..<length os] = i # [Suc i..<length os]" using i by (simp add: upt_conv_Cons)
  have j: "j < length os" using ji i by simp
  have len: "length es = length os" using arrangedD(1) [OF inv] .
  show ?case
  proof (cases "data (es ! i) = NullEncoder")
    case True
    have "passed os own j (Suc i)"
      using p by (rule passed_Suc) (use True arrangedD(3) [OF inv] in \<open>auto simp: depends_def\<close>)
    then show ?thesis using Suc.hyps(1) [OF m own inv _ _ ne] Suc.prems(6) ji True upt by simp
  next
    case False
    obtain oper f l st' where c: "checkEncoderRelation (es ! j) (es ! i) st = ((oper, f, l), st')"
      by (metis prod.exhaust)
    let ?es = "es[j := f, i := l]"
    have fl: "?es ! j = f" "?es ! i = l" using len ji i j by simp_all
    have h: "is_resolve (data (es ! i)) \<and> data l = NullEncoder \<longrightarrow> hoist_free es j i"
      "oper = DXMT_ENCODER_LIST_OP_SYNCHRONIZE \<or> hoists_from j [Suc i..<length os] (?es, st')"
      using Suc.prems(6) False by (simp_all add: upt c)
    have r: "relate_from j [i..<length os] (es, st) =
        (if oper = DXMT_ENCODER_LIST_OP_SYNCHRONIZE then (?es, st') else relate_from j [Suc i..<length os] (?es, st'))"
      using False by (simp add: upt c)
    have "compared (es ! j) (es ! i) (oper, f, l)" using check_compared [OF ne False, of st] by (simp add: c)
    then consider
        (kept) "same_fences (es ! j) f" "same_fences (es ! i) l"
          "oper = DXMT_ENCODER_LIST_OP_SWAP \<longrightarrow> independent (es ! j) (es ! i)"
      | (forward) "oper = DXMT_ENCODER_LIST_OP_SYNCHRONIZE" "data f = NullEncoder" "merges (es ! j) (es ! i) l"
      | (backward) "oper = DXMT_ENCODER_LIST_OP_SWAP" "is_resolve (data (es ! i))" "data l = NullEncoder" "merges (es ! j) (es ! i) f"
      by (auto simp: compared_def)
    then show ?thesis
    proof cases
      case kept
      have inv': "arranged os ?es own parts" by (rule arranged_kept [OF inv ji i ne False kept(1,2)])
      show ?thesis
      proof (cases "oper = DXMT_ENCODER_LIST_OP_SYNCHRONIZE")
        case True then show ?thesis using inv' r by auto
      next
        case swap: False
        then have "independent (es ! j) (es ! i)" using kept(3) by (cases oper) auto
        then have "passed os own j (Suc i)"
          using passed_Suc [OF p] slots_independent [OF inv own j ne i False] ji by (auto simp: independent_def)
        moreover have "data (?es ! j) \<noteq> NullEncoder" using kept(1) fl by (simp add: same_fences_def)
        ultimately show ?thesis using Suc.hyps(1) [OF m own inv'] swap h(2) ji r by simp
      qed
    next
      case forward
      have "arranged os ?es (\<lambda>a. if own a = j then i else own a) (parts(i := parts j @ parts i))"
        by (rule arranged_forward [OF inv ji i ne False p forward(3,2)])
      then show ?thesis using forward(1) r by auto
    next
      case backward
      have "arranged os ?es (\<lambda>a. if own a = i then j else own a) (parts(j := parts j @ parts i))"
        by (rule arranged_backward [OF inv ji i ne False _ backward(4,3)])
          (use hoist_free_depends [OF inv own i False] h(1) backward in blast)
      moreover have "data (?es ! j) \<noteq> NullEncoder" using backward(4) fl by (simp add: merges_def)
      ultimately show ?thesis
        using Suc.hyps(1) [OF m own _ passed_backward [OF inv p ji]] backward(1) h(2) ji r by auto
    qed
  qed
qed

lemma length_relate_from [simp]: "length (fst (relate_from j is' s)) = length (fst s)"
  by (induction j is' s rule: relate_from.induct) (auto simp: Let_def split: prod.splits)

lemma length_optimize_at [simp]: "length (fst (optimize_at j s)) = length (fst s)"
  by (simp add: optimize_at_def)

lemma optimize_at_arranged:
  assumes own: "own_fences os" and inv: "arranged os (fst s) own parts" and j: "j < length os"
    and h: "movable (data (fst s ! j)) \<longrightarrow> hoists_from j [Suc j..<length (fst s)] s"
  shows "\<exists>own parts. arranged os (fst (optimize_at j s)) own parts"
proof (cases "movable (data (fst s ! j))")
  case True
  then have "data (fst s ! j) \<noteq> NullEncoder" by (cases "data (fst s ! j)") auto
  then show ?thesis
    using relate_from_arranged [OF own inv _ _ _ , of j "Suc j" "snd s"] h True arrangedD(1) [OF inv]
    by (simp add: optimize_at_def passed_def)
next
  case False then show ?thesis using inv by (auto simp: optimize_at_def)
qed

lemma fold_optimize_arranged:
  assumes "own_fences os" "arranged os (fst s) own parts" "\<forall>j \<in> set js. j < length os" "hoists_safely js s"
  shows "\<exists>own parts. arranged os (fst (fold optimize_at js s)) own parts"
  using assms
proof (induction js arbitrary: s own parts)
  case (Cons j rest)
  then obtain own' parts' where "arranged os (fst (optimize_at j s)) own' parts'"
    using optimize_at_arranged [OF Cons.prems(1,2), of j] by auto
  then show ?case using Cons by simp
qed auto

section \<open>The order that is kept\<close>


text \<open>Without resolves nothing is hoisted.\<close>

lemma check_no_resolve:
  assumes "\<not> is_resolve (data f)" "\<not> is_resolve (data l)" "fst (checkEncoderRelation f l st) = (oper, f', l')"
  shows "\<not> is_resolve (data f')" "\<not> is_resolve (data l')"
proof -
  have "\<not> is_resolve (data f') \<and> \<not> is_resolve (data l')"
  proof (cases "data f = NullEncoder \<or> data l = NullEncoder \<or> synchronizes (data f) \<or> synchronizes (data l)")
    case True
    then show ?thesis using assms by (auto simp: checkEncoderRelation_def split: if_splits)
  next
    case False
    then show ?thesis using assms
      by (cases "data f"; cases "data l")
        (auto simp: checkEncoderRelation_def Let_def clear_relation_def render_relation_def absorb_fences_def free_encoder_def
          split: if_splits prod.splits option.splits)
  qed
  then show "\<not> is_resolve (data f')" "\<not> is_resolve (data l')" by auto
qed

definition resolve_free :: "'c encoder list \<Rightarrow> bool" where
  "resolve_free es \<longleftrightarrow> list_all (\<lambda>e. \<not> is_resolve (data e)) es"

lemma resolve_free_update:
  "resolve_free es \<Longrightarrow> \<not> is_resolve (data e) \<Longrightarrow> resolve_free (es[i := e])"
  using set_update_subset_insert [of es i e] by (fastforce simp: resolve_free_def list_all_iff)

lemma resolve_free_nth: "resolve_free es \<Longrightarrow> i < length es \<Longrightarrow> \<not> is_resolve (data (es ! i))"
  by (simp add: resolve_free_def list_all_iff)

lemma hoists_resolve_free:
  assumes "resolve_free (fst s)" "j < length (fst s)" "\<forall>i \<in> set js. i < length (fst s)"
  shows "hoists_from j js s \<and> resolve_free (fst (relate_from j js s))"
  using assms
proof (induction j js s rule: relate_from.induct)
  case (2 j i rest es st)
  note f = resolve_free_nth [OF _ 2(4)] and l = resolve_free_nth [of es i]
  show ?case
  proof (cases "data (es ! i) = NullEncoder")
    case True then show ?thesis using 2 by simp
  next
    case False
    obtain oper f l st' where c: "checkEncoderRelation (es ! j) (es ! i) st = ((oper, f, l), st')"
      by (metis prod.exhaust)
    have ji: "\<not> is_resolve (data (es ! j))" "\<not> is_resolve (data (es ! i))"
      using 2(3,4,5) resolve_free_nth by auto
    have fl: "resolve_free (es[j := f, i := l])"
      using check_no_resolve [OF ji, of st oper f l] c 2(3) by (simp add: resolve_free_update)
    then show ?thesis
      using 2(2) [OF False c [symmetric] refl refl] 2(4,5) c False ji
      by (cases oper) (auto simp: Let_def)
  qed
qed simp

lemma resolve_free_hoists: "resolve_free (fst s) \<Longrightarrow> \<forall>j \<in> set js. j < length (fst s) \<Longrightarrow> hoists_safely js s"
proof (induction js arbitrary: s)
  case (Cons j rest)
  have "resolve_free (fst (optimize_at j s))" "hoists_from j [Suc j..<length (fst s)] s"
    using hoists_resolve_free [of s j "[Suc j..<length (fst s)]"] Cons.prems by (auto simp: optimize_at_def)
  then show ?case using Cons by simp
qed simp

section \<open>Examples\<close>

text \<open>
  A pass, an unrelated blit that writes to texture 8, another pass on the attachment of the first,
  and its resolve to texture 9.
\<close>

definition example_list :: "nat encoder list" where
  "example_list = [example_pass (example_view 7) 1 2 fs_empty [10], example_blit 3 fs_empty [20],
     example_pass (example_view 7) 4 5 (fs_singleton 2) [30], example_resolve (example_view 7) (example_view 9) 6 (fs_singleton 5)]"

lemma example_list_safe: "hoists_safely (rev [0..<length example_list - 1]) (example_list, example_store)"
  by code_simp

text \<open>The resolve waits for the blit that writes its destination, and is executed before it.\<close>

definition hoisted_list :: "nat encoder list" where
  "hoisted_list = [example_pass (example_view 7) 1 2 fs_empty [10], example_blit 3 fs_empty [20],
     example_resolve (example_view 7) (example_view 8) 4 (fs_set (fs_singleton 2) 3)]"

lemma resolve_jumps_over_blit:
  "depends hoisted_list 1 2 \<and>
   map data (fst (optimize_encoders (hoisted_list, example_store))) =
     [RenderEncoder (resolve_into 0 (example_view 8) (case data (hoisted_list ! 0) of RenderEncoder r \<Rightarrow> r)),
      BlitEncoder [20], NullEncoder]"
  by code_simp

lemma example_list_fresh: "list_all (\<lambda>e. data e \<noteq> NullEncoder) example_list" "own_fences example_list"
  by (code_simp, simp add: own_fences_def example_list_def less_Suc_eq all_updates_def updates_def example_pass_def
      example_blit_def example_resolve_def fs_singleton_def pos_def)


text \<open>A pass that took over a resolve waits for its own fence.\<close>

lemma resolve_waits_for_itself:
  "2 \<in> updates (hoisted_list ! 0) \<and> 2 \<notin> waits (hoisted_list ! 0) \<and>
   2 \<in> updates (fst (optimize_encoders (hoisted_list, example_store)) ! 0) \<and>
   2 \<in> waits (fst (optimize_encoders (hoisted_list, example_store)) ! 0)"
  by code_simp

end
