(* ===== verification/EncoderMemory.thy ===== *)
theory EncoderMemory
  imports EncoderList
begin

text \<open>
  What the encoders do to memory, and that a comparison of two encoders does not change it: the
  encoders that \<open>checkEncoderRelation\<close> leaves in the two places have together the effect of the
  two that were there.  Memory that Metal leaves undefined is \<open>None\<close>; the optimisation may define
  more of it.
\<close>

section \<open>Memory\<close>

text \<open>A place of memory: a view of a colour, depth or stencil texture, with level, slice and plane.\<close>

datatype location =
    ColorAt view_ref u16 u16 u32
  | DepthAt view_ref u16 u16 u32
  | StencilAt view_ref u16 u16 u32

type_synonym 'v memory = "location \<Rightarrow> 'v option"

text \<open>
  What Metal does with clear values, a multisample resolve, a command of a pass of some size, and
  the encoders without attachments is a parameter.
\<close>

record pass_size =
  size_width :: u32
  size_height :: u32
  size_samples :: u8

record ('c, 'v) gpu =
  color_value :: "clear_color \<Rightarrow> 'v"
  depth_value :: "u32 \<Rightarrow> 'v"
  stencil_value :: "u8 \<Rightarrow> 'v"
  resolve_value :: "'v \<Rightarrow> 'v"
  run_command :: "pass_size \<Rightarrow> 'c \<Rightarrow> 'v memory \<Rightarrow> 'v memory"
  run_other :: "'c encoder_data \<Rightarrow> 'v memory \<Rightarrow> 'v memory"

definition load_at :: "location \<Rightarrow> load_action \<Rightarrow> 'v \<Rightarrow> 'v memory \<Rightarrow> 'v memory" where
  "load_at l act v m =
     (case act of WMTLoadActionLoad \<Rightarrow> m | WMTLoadActionClear \<Rightarrow> m(l \<mapsto> v) | WMTLoadActionDontCare \<Rightarrow> m(l := None))"

definition color_at :: "color_attachment \<Rightarrow> view_ref \<Rightarrow> location" where
  "color_at a v = ColorAt v (level a) (slice a) (depth_plane a)"

definition resolve_at :: "color_attachment \<Rightarrow> view_ref \<Rightarrow> location" where
  "resolve_at a v = ColorAt v (resolve_level a) (resolve_slice a) (resolve_depth_plane a)"

definition load_color :: "('c, 'v) gpu \<Rightarrow> color_attachment \<Rightarrow> 'v memory \<Rightarrow> 'v memory" where
  "load_color g a m =
     (case attachment a of None \<Rightarrow> m | Some v \<Rightarrow> load_at (color_at a v) (load_action a) (color_value g (clear_color a)) m)"

definition store_color :: "('c, 'v) gpu \<Rightarrow> color_attachment \<Rightarrow> 'v memory \<Rightarrow> 'v memory" where
  "store_color g a m =
     (case attachment a of None \<Rightarrow> m
      | Some v \<Rightarrow>
          let resolved = (case resolve_attachment a of None \<Rightarrow> m
             | Some d \<Rightarrow> m(resolve_at a d := map_option (resolve_value g) (m (color_at a v))))
          in case store_action a of
               WMTStoreActionStore \<Rightarrow> m
             | WMTStoreActionStoreAndMultisampleResolve \<Rightarrow> resolved
             | WMTStoreActionMultisampleResolve \<Rightarrow> resolved(color_at a v := None)
             | _ \<Rightarrow> m(color_at a v := None))"

text \<open>The depth and the stencil plane, by the place of a view and the value of a clear.\<close>

type_synonym place = "view_ref \<Rightarrow> u16 \<Rightarrow> u16 \<Rightarrow> u32 \<Rightarrow> location"

definition planar_at :: "place \<Rightarrow> 'x planar_attachment \<Rightarrow> view_ref \<Rightarrow> location" where
  "planar_at at a v = at v (planar_level a) (planar_slice a) (planar_depth_plane a)"

definition load_planar ::
  "place \<Rightarrow> ('x \<Rightarrow> 'v) \<Rightarrow> 'x planar_attachment \<Rightarrow> 'v memory \<Rightarrow> 'v memory" where
  "load_planar at value a m =
     (case planar a of None \<Rightarrow> m | Some v \<Rightarrow> load_at (planar_at at a v) (planar_load a) (value (clear_value a)) m)"

definition store_planar ::
  "place \<Rightarrow> 'x planar_attachment \<Rightarrow> 'v memory \<Rightarrow> 'v memory" where
  "store_planar at a m =
     (case planar a of None \<Rightarrow> m
      | Some v \<Rightarrow> if planar_store a = WMTStoreActionStore then m else m(planar_at at a v := None))"

section \<open>Encoders\<close>

definition pass_size_of :: "'c render_encoder \<Rightarrow> pass_size" where
  "pass_size_of r = \<lparr>size_width = render_target_width r, size_height = render_target_height r,
     size_samples = default_raster_sample_count r\<rparr>"

definition load_pass :: "('c, 'v) gpu \<Rightarrow> 'c render_encoder \<Rightarrow> 'v memory \<Rightarrow> 'v memory" where
  "load_pass g r m = load_planar StencilAt (stencil_value g) (stencil r)
     (load_planar DepthAt (depth_value g) (depth r) (fold (load_color g) (colors r) m))"

definition store_pass :: "('c, 'v) gpu \<Rightarrow> 'c render_encoder \<Rightarrow> 'v memory \<Rightarrow> 'v memory" where
  "store_pass g r m = store_planar StencilAt (stencil r) (store_planar DepthAt (depth r) (fold (store_color g) (colors r) m))"

definition render_pass :: "('c, 'v) gpu \<Rightarrow> 'c render_encoder \<Rightarrow> 'v memory \<Rightarrow> 'v memory" where
  "render_pass g r m = store_pass g r (fold (run_command g (pass_size_of r)) (render_commands r) (load_pass g r m))"

definition clear_pass :: "('c, 'v) gpu \<Rightarrow> clear_encoder \<Rightarrow> 'v memory \<Rightarrow> 'v memory" where
  "clear_pass g c m =
     (let v = clear_attachment c
      in if clear_dsv c = 0 then m(ColorAt v 0 0 0 \<mapsto> color_value g (color c))
         else let m = (if bit (clear_dsv c) 0 then m(DepthAt v 0 0 0 \<mapsto> depth_value g (fst (depth_stencil c))) else m)
              in if bit (clear_dsv c) 1 then m(StencilAt v 0 0 0 \<mapsto> stencil_value g (snd (depth_stencil c))) else m)"

definition resolve_pass :: "('c, 'v) gpu \<Rightarrow> resolve_encoder \<Rightarrow> 'v memory \<Rightarrow> 'v memory" where
  "resolve_pass g s m =
     m(ColorAt (resolve_dst s) 0 0 0 := map_option (resolve_value g) (m (ColorAt (resolve_src s) 0 0 0)))"

fun perform :: "('c, 'v) gpu \<Rightarrow> 'c encoder_data \<Rightarrow> 'v memory \<Rightarrow> 'v memory" where
  "perform g NullEncoder m = m"
| "perform g (RenderEncoder r) m = render_pass g r m"
| "perform g (ClearEncoder c) m = clear_pass g c m"
| "perform g (ResolveEncoder s) m = resolve_pass g s m"
| "perform g d m = run_other g d m"

text \<open>Commands do not get worse when more of the memory is defined.\<close>

definition monotone_gpu :: "('c, 'v) gpu \<Rightarrow> bool" where
  "monotone_gpu g \<longleftrightarrow> (\<forall>s c m m'. m \<subseteq>\<^sub>m m' \<longrightarrow> run_command g s c m \<subseteq>\<^sub>m run_command g s c m')"

section \<open>Places that an attachment uses\<close>

definition color_places :: "color_attachment \<Rightarrow> location set" where
  "color_places a = (case attachment a of None \<Rightarrow> {}
     | Some v \<Rightarrow> insert (color_at a v) (case resolve_attachment a of None \<Rightarrow> {} | Some d \<Rightarrow> {resolve_at a d}))"

lemma load_color_other:
  "l \<notin> color_places a \<Longrightarrow> load_color g a (m(l := x)) = (load_color g a m)(l := x)"
  by (auto simp: load_color_def color_places_def load_at_def fun_upd_twist split: option.splits load_action.splits)

lemma fold_load_other:
  "l \<notin> \<Union> (color_places ` set cs) \<Longrightarrow> fold (load_color g) cs (m(l := x)) = (fold (load_color g) cs m)(l := x)"
  by (induction cs arbitrary: m) (auto simp: load_color_other)

lemma store_color_other:
  "l \<notin> color_places a \<Longrightarrow> store_color g a (m(l := x)) = (store_color g a m)(l := x)"
  by (auto simp: store_color_def color_places_def Let_def fun_upd_twist split: option.splits store_action.splits)

lemma store_color_same: "l \<notin> color_places a \<Longrightarrow> store_color g a m l = m l"
  by (auto simp: store_color_def color_places_def Let_def split: option.splits store_action.splits)

lemma fold_store_other:
  "l \<notin> \<Union> (color_places ` set cs) \<Longrightarrow> fold (store_color g) cs (m(l := x)) = (fold (store_color g) cs m)(l := x)"
  by (induction cs arbitrary: m) (auto simp: store_color_other)

lemma fold_store_same: "l \<notin> \<Union> (color_places ` set cs) \<Longrightarrow> fold (store_color g) cs m l = m l"
  by (induction cs arbitrary: m) (auto simp: store_color_same)

lemma planar_place_color [simp]:
  "DepthAt v x y z \<notin> color_places a" "StencilAt v x y z \<notin> color_places a"
  by (auto simp: color_places_def color_at_def resolve_at_def split: option.splits)

text \<open>
  A pass as the front ends make it: whole views, no two attachments in one place, attachments only
  up to the count and planes only with their flag.
\<close>

definition whole_color :: "color_attachment \<Rightarrow> bool" where
  "whole_color a \<longleftrightarrow> level a = 0 \<and> slice a = 0 \<and> depth_plane a = 0 \<and>
     resolve_level a = 0 \<and> resolve_slice a = 0 \<and> resolve_depth_plane a = 0"

definition whole_planar :: "'v planar_attachment \<Rightarrow> bool" where
  "whole_planar a \<longleftrightarrow> planar_level a = 0 \<and> planar_slice a = 0 \<and> planar_depth_plane a = 0"

definition plain_pass :: "'c render_encoder \<Rightarrow> bool" where
  "plain_pass r \<longleftrightarrow>
     (\<forall>a \<in> set (colors r). whole_color a) \<and> whole_planar (depth r) \<and> whole_planar (stencil r) \<and>
     (\<forall>i < length (colors r). \<forall>j < length (colors r).
        i \<noteq> j \<longrightarrow> color_places (colors r ! i) \<inter> color_places (colors r ! j) = {}) \<and>
     render_target_count r \<le> length (colors r) \<and>
     (\<forall>i < length (colors r). render_target_count r \<le> i \<longrightarrow> attachment (colors r ! i) = None) \<and>
     (planar (depth r) \<noteq> None \<longrightarrow> bit (dsv_planar_flags r) 0) \<and> (planar (stencil r) \<noteq> None \<longrightarrow> bit (dsv_planar_flags r) 1)"

lemma plain_passD:
  assumes "plain_pass r"
  shows "i < length (colors r) \<Longrightarrow> whole_color (colors r ! i)" "whole_planar (depth r)" "whole_planar (stencil r)"
    and "i < length (colors r) \<Longrightarrow> j < length (colors r) \<Longrightarrow> i \<noteq> j \<Longrightarrow>
      color_places (colors r ! i) \<inter> color_places (colors r ! j) = {}"
    and "render_target_count r \<le> length (colors r)"
    and "i < length (colors r) \<Longrightarrow> render_target_count r \<le> i \<Longrightarrow> attachment (colors r ! i) = None"
    and "planar (depth r) \<noteq> None \<Longrightarrow> bit (dsv_planar_flags r) 0" "planar (stencil r) \<noteq> None \<Longrightarrow> bit (dsv_planar_flags r) 1"
  using assms unfolding plain_pass_def by (simp_all add: all_set_conv_all_nth)

lemma places_before:
  assumes "plain_pass r" "i < length (colors r)" "l \<in> color_places (colors r ! i)"
  shows "l \<notin> \<Union> (color_places ` set (take i (colors r)))" "l \<notin> \<Union> (color_places ` set (drop (Suc i) (colors r)))"
proof -
  have "l \<notin> color_places (colors r ! k)" if "k < length (colors r)" "k \<noteq> i" for k
    using plain_passD(4) [OF assms(1) that(1) assms(2) that(2)] assms(3) by auto
  then show "l \<notin> \<Union> (color_places ` set (take i (colors r)))" "l \<notin> \<Union> (color_places ` set (drop (Suc i) (colors r)))"
    using assms(2) by (auto simp: in_set_conv_nth)
qed

lemma fold_update_same: "f b = f (xs ! i) \<Longrightarrow> fold f (xs[i := b]) = fold f xs"
  by (induction xs arbitrary: i) (auto split: nat.split)

section \<open>A clear becomes a load action\<close>

lemma color_at_places: "attachment a = Some v \<Longrightarrow> color_at a v \<in> color_places a"
  by (simp add: color_places_def)

lemma whole_color_at: "whole_color a \<Longrightarrow> color_at a v = ColorAt v 0 0 0"
  by (simp add: whole_color_def color_at_def)

lemma load_cleared:
  "attachment a = Some v \<Longrightarrow>
     load_color g (clear_on_load c a) m = load_color g a (m(color_at a v \<mapsto> color_value g c))"
  by (cases "load_action a") (auto simp: load_color_def clear_on_load_def load_at_def color_at_def)

lemma store_cleared: "store_color g (clear_on_load c a) = store_color g a"
  by (cases "attachment a"; cases "resolve_attachment a"; cases "store_action a"; rule ext)
    (simp_all add: store_color_def clear_on_load_def color_at_def resolve_at_def)

lemma fold_load_cleared:
  assumes r: "plain_pass r" and i: "i < length (colors r)" and a: "attachment (colors r ! i) = Some v"
  shows "fold (load_color g) ((colors r)[i := clear_on_load c (colors r ! i)]) m =
    fold (load_color g) (colors r) (m(ColorAt v 0 0 0 \<mapsto> color_value g c))"
proof -
  let ?l = "color_at (colors r ! i) v"
  have l: "?l = ColorAt v 0 0 0" using whole_color_at plain_passD(1) [OF r i] .
  have "?l \<notin> \<Union> (color_places ` set (take i (colors r)))"
    using places_before(1) [OF r i color_at_places [OF a]] .
  then have "fold (load_color g) (take i (colors r) @ colors r ! i # drop (Suc i) (colors r)) (m(?l \<mapsto> color_value g c)) =
      fold (load_color g) (take i (colors r) @ clear_on_load c (colors r ! i) # drop (Suc i) (colors r)) m"
    by (simp add: fold_load_other load_cleared [OF a])
  then show ?thesis using i by (simp add: l upd_conv_take_nth_drop flip: id_take_nth_drop)
qed

lemma load_planar_other:
  "(\<And>v. planar a = Some v \<Longrightarrow> planar_at at a v \<noteq> l) \<Longrightarrow>
     load_planar at val a (m(l := x)) = (load_planar at val a m)(l := x)"
  by (auto simp: load_planar_def load_at_def fun_upd_twist split: option.splits load_action.splits)

lemma load_planar_cleared:
  "planar a = Some v \<Longrightarrow>
     load_planar at val (clear_planar c a) m = load_planar at val a (m(planar_at at a v \<mapsto> val c))"
  by (cases "planar_load a") (auto simp: load_planar_def clear_planar_def load_at_def planar_at_def)

lemma store_planar_cleared: "store_planar at (clear_planar c a) = store_planar at a"
  by (cases "planar a"; rule ext) (simp_all add: store_planar_def clear_planar_def planar_at_def)

lemma clear_color_pass:
  assumes "plain_pass r" "i < length (colors r)" "attachment (colors r ! i) = Some (clear_attachment c)" "clear_dsv c = 0"
  shows "render_pass g (r\<lparr>colors := (colors r)[i := clear_on_load (color c) (colors r ! i)]\<rparr>) m =
    render_pass g r (clear_pass g c m)"
  using assms fold_load_cleared [OF assms(1,2,3), of g "color c" m]
  by (simp add: render_pass_def load_pass_def store_pass_def pass_size_of_def clear_pass_def
      fold_update_same [of "store_color g", OF store_cleared])

lemma clear_depth_pass:
  assumes "plain_pass r" "planar (depth r) = Some v"
  shows "render_pass g (r\<lparr>depth := clear_planar c (depth r)\<rparr>) m = render_pass g r (m(DepthAt v 0 0 0 \<mapsto> depth_value g c))"
proof -
  have "planar_at DepthAt (depth r) v = DepthAt v 0 0 0"
    using plain_passD(2) [OF assms(1)] by (simp add: planar_at_def whole_planar_def)
  then show ?thesis
    by (simp add: render_pass_def load_pass_def store_pass_def pass_size_of_def fold_load_other
        load_planar_cleared [OF assms(2)] store_planar_cleared)
qed

lemma clear_stencil_pass:
  assumes "plain_pass r" "planar (stencil r) = Some v"
  shows "render_pass g (r\<lparr>stencil := clear_planar c (stencil r)\<rparr>) m = render_pass g r (m(StencilAt v 0 0 0 \<mapsto> stencil_value g c))"
proof -
  have "planar_at StencilAt (stencil r) v = StencilAt v 0 0 0"
    using plain_passD(3) [OF assms(1)] by (simp add: planar_at_def whole_planar_def)
  moreover have "load_planar DepthAt (depth_value g) (depth r) (x(StencilAt v 0 0 0 := y)) =
      (load_planar DepthAt (depth_value g) (depth r) x)(StencilAt v 0 0 0 := y)" for x y
    by (rule load_planar_other) (simp add: planar_at_def)
  ultimately show ?thesis
    by (simp add: render_pass_def load_pass_def store_pass_def pass_size_of_def fold_load_other
        load_planar_cleared [OF assms(2)] store_planar_cleared)
qed

lemma first_colorD:
  assumes "plain_pass r" "first_color P r = Some i"
  shows "i < length (colors r)" "P (colors r ! i)"
  using assms plain_passD(5) [OF assms(1)] by (auto simp: first_color_def find_Some_iff)

lemma dsv_planes:
  assumes "(x :: u32) < 4" "x \<noteq> 0"
  shows "x \<in> {1, 2, 3}"
proof -
  have "unat x < 4" "unat x \<noteq> 0" using assms by (auto simp: word_less_nat_alt unat_eq_0)
  then have "unat x = 1 \<or> unat x = 2 \<or> unat x = 3" by linarith
  then show ?thesis by (simp add: word_unat_eq_iff)
qed

lemma plain_clear_planar:
  "plain_pass (r\<lparr>depth := clear_planar c (depth r)\<rparr>) = plain_pass r"
  "plain_pass (r\<lparr>stencil := clear_planar d (stencil r)\<rparr>) = plain_pass r"
  by (auto simp: plain_pass_def clear_planar_def whole_planar_def)

text \<open>What is left of a clear of the planes, and the pass that took the others.\<close>

lemma clear_planes_pass:
  assumes r: "plain_pass r" and dsv: "clear_dsv c \<noteq> 0" "clear_dsv c < 4"
    and p: "clear_stencil_plane (clear_depth_plane (c, r)) = (c', r')"
  shows "render_pass g r' (if clear_dsv c' = 0 then m else clear_pass g c' m) = render_pass g r (clear_pass g c m)"
proof -
  let ?v = "clear_attachment c"
  consider "clear_dsv c = 1" | "clear_dsv c = 2" | "clear_dsv c = 3" using dsv_planes [OF dsv(2,1)] by auto
  then show ?thesis
    using p clear_depth_pass [OF r, of ?v g "fst (depth_stencil c)"] clear_stencil_pass [OF r, of ?v g "snd (depth_stencil c)"]
      clear_stencil_pass [of "r\<lparr>depth := clear_planar (fst (depth_stencil c)) (depth r)\<rparr>" ?v g "snd (depth_stencil c)"] r
    by cases (auto simp: clear_stencil_plane_def clear_depth_plane_def isClearDepthSignatureMatched_def
        isClearStencilSignatureMatched_def clear_pass_def plain_clear_planar fun_upd_twist Let_def split: if_splits)
qed

section \<open>Memory that is defined in more places\<close>

lemma map_leI: "(\<And>l v. m l = Some v \<Longrightarrow> m' l = Some v) \<Longrightarrow> m \<subseteq>\<^sub>m m'"
  by (force simp: map_le_def dom_def)

lemma map_leD: "m \<subseteq>\<^sub>m m' \<Longrightarrow> m l = Some v \<Longrightarrow> m' l = Some v"
  by (force simp: map_le_def dom_def)

lemma store_color_mono: "m \<subseteq>\<^sub>m m' \<Longrightarrow> store_color g a m \<subseteq>\<^sub>m store_color g a m'"
  by (rule map_leI) (auto simp: store_color_def Let_def split: option.splits store_action.splits if_splits dest: map_leD)

lemma fold_store_mono: "m \<subseteq>\<^sub>m m' \<Longrightarrow> fold (store_color g) cs m \<subseteq>\<^sub>m fold (store_color g) cs m'"
  by (induction cs arbitrary: m m') (simp_all add: store_color_mono)

lemma undefined_le: "m(l := None) \<subseteq>\<^sub>m m"
  by (rule map_leI) (simp split: if_splits)

lemma store_planar_le: "store_planar at a m \<subseteq>\<^sub>m m"
  by (simp add: store_planar_def undefined_le split: option.split)

lemma run_mono: "monotone_gpu g \<Longrightarrow> m \<subseteq>\<^sub>m m' \<Longrightarrow> fold (run_command g s) cs m \<subseteq>\<^sub>m fold (run_command g s) cs m'"
  by (induction cs arbitrary: m m') (simp_all add: monotone_gpu_def)

section \<open>Two passes become one\<close>

lemma fold_cong_nth:
  assumes "length xs = length ys" "\<And>i. i < length ys \<Longrightarrow> f (xs ! i) = h (ys ! i)"
  shows "fold f xs = fold h ys"
proof -
  have "map f xs = map h ys" using assms by (intro nth_equalityI) simp_all
  then have "fold id (map f xs) = fold id (map h ys)" by simp
  then show ?thesis by (simp add: fold_map)
qed

lemma fold_ident: "(\<And>a. a \<in> set xs \<Longrightarrow> f a = id) \<Longrightarrow> fold f xs = id"
  by (induction xs) auto

lemma load_inherited:
  assumes "color_matched a0 a1" "whole_color a0" "whole_color a1"
  shows "load_color g (inherit_load a0 a1) = load_color g a0"
  by (rule ext, cases "attachment a1")
    (use assms in \<open>simp_all add: load_color_def inherit_load_def color_matched_def color_at_def whole_color_def\<close>)

lemma store_inherited: "store_color g (inherit_load a0 a1) = store_color g a1"
  by (cases "attachment a1"; cases "resolve_attachment a1"; cases "store_action a1"; rule ext)
    (simp_all add: store_color_def inherit_load_def color_at_def resolve_at_def)

lemma no_attachment: "attachment a = None \<Longrightarrow> load_color g a = id" "attachment a = None \<Longrightarrow> store_color g a = id"
  by (simp_all add: load_color_def store_color_def fun_eq_iff)

lemma matched_ident: "color_matched a0 a1 \<Longrightarrow> store_color g a0 = id" "color_matched a0 a1 \<Longrightarrow> load_color g a1 = id"
  by (auto simp: color_matched_def store_color_def load_color_def load_at_def fun_eq_iff split: option.split)

text \<open>The planes of a pass are kept when it ends.\<close>

definition keeps_planes :: "'c render_encoder \<Rightarrow> bool" where
  "keeps_planes r \<longleftrightarrow> (planar (depth r) \<noteq> None \<longrightarrow> planar_store (depth r) = WMTStoreActionStore) \<and>
     (planar (stencil r) \<noteq> None \<longrightarrow> planar_store (stencil r) = WMTStoreActionStore)"

lemma merged_plane:
  assumes "planar_matched present readonly a0 a1" "planar a0 \<noteq> None \<Longrightarrow> present" "planar a1 \<noteq> None \<Longrightarrow> present"
    "whole_planar a0" "whole_planar a1" "planar a0 \<noteq> None \<Longrightarrow> planar_store a0 = WMTStoreActionStore"
  shows "load_planar at val (inherit_planar a0 a1) = load_planar at val a0" "store_planar at (inherit_planar a0 a1) m = m"
    "store_planar at a0 m = m" "load_planar at val a1 m \<subseteq>\<^sub>m m"
proof -
  have p: "planar a0 = planar a1" using assms(1-3) by (cases "planar a0"; cases "planar a1") (auto simp: planar_matched_def)
  show "load_planar at val (inherit_planar a0 a1) = load_planar at val a0"
    by (rule ext, cases "planar a1")
      (use p assms(4,5) in \<open>simp_all add: load_planar_def inherit_planar_def planar_at_def whole_planar_def\<close>)
  show "store_planar at (inherit_planar a0 a1) m = m" "store_planar at a0 m = m"
    using p assms(6) by (auto simp: store_planar_def inherit_planar_def split: option.split)
  show "load_planar at val a1 m \<subseteq>\<^sub>m m"
    using assms(1,3)
    by (auto simp: planar_matched_def load_planar_def load_at_def undefined_le split: option.split load_action.split if_splits)
qed

lemma merge_passes_pass:
  assumes g: "monotone_gpu g" and r: "plain_pass r0" "plain_pass r1" "length (colors r0) = length (colors r1)"
    and m: "isEncoderSignatureMatched r0 r1" and k: "keeps_planes r0" and size: "pass_size_of r0 = pass_size_of r1"
  shows "render_pass g r1 (render_pass g r0 mem) \<subseteq>\<^sub>m render_pass g (merge_passes r0 r1) mem"
proof -
  let ?r = "merge_passes r0 r1" and ?n = "render_target_count r0"
  have n: "render_target_count r1 = ?n" and flags: "dsv_planar_flags r1 = dsv_planar_flags r0"
    and cm: "i < ?n \<Longrightarrow> color_matched (colors r0 ! i) (colors r1 ! i)" for i
    using m by (simp_all add: isEncoderSignatureMatched_def list_all_iff)
  have none: "attachment (colors r0 ! i) = None" "attachment (colors r1 ! i) = None"
    if "i < length (colors r1)" "\<not> i < ?n" for i
    using plain_passD(6) [OF r(1)] plain_passD(6) [OF r(2)] r(3) n that by auto
  have nth: "colors ?r ! i = (if i < ?n then inherit_load (colors r0 ! i) (colors r1 ! i) else colors r1 ! i)"
      if "i < length (colors r1)" for i
    using that by (simp add: merge_passes_def)
  have len: "length (colors ?r) = length (colors r1)" by (simp add: merge_passes_def)
  have loads: "fold (load_color g) (colors ?r) = fold (load_color g) (colors r0)"
    by (rule fold_cong_nth) (use len r nth none in \<open>auto simp: load_inherited cm plain_passD(1) no_attachment\<close>)
  have stores: "fold (store_color g) (colors ?r) = fold (store_color g) (colors r1)"
    by (rule fold_cong_nth) (use len nth in \<open>auto simp: store_inherited\<close>)
  have kept: "fold (store_color g) (colors r0) = id"
    by (rule fold_ident) (use matched_ident(1) [OF cm] none(1) r(3) no_attachment(2) in \<open>metis in_set_conv_nth\<close>)
  have loaded: "fold (load_color g) (colors r1) = id"
    by (rule fold_ident) (use matched_ident(2) [OF cm] none(2) no_attachment(1) in \<open>metis in_set_conv_nth\<close>)
  have pm: "planar_matched (bit (dsv_planar_flags r0) 0) (bit (dsv_readonly_flags r0) 0) (depth r0) (depth r1)"
      "planar_matched (bit (dsv_planar_flags r0) 1) (bit (dsv_readonly_flags r0) 1) (stencil r0) (stencil r1)"
    using m unfolding isEncoderSignatureMatched_def by blast+
  note D = merged_plane [OF pm(1) _ _ plain_passD(2) [OF r(1)] plain_passD(2) [OF r(2)]]
  note S = merged_plane [OF pm(2) _ _ plain_passD(3) [OF r(1)] plain_passD(3) [OF r(2)]]
  note fl = plain_passD(7,8) [OF r(1)] plain_passD(7,8) [OF r(2), unfolded flags]
  have ks: "planar (depth r0) \<noteq> None \<Longrightarrow> planar_store (depth r0) = WMTStoreActionStore"
      "planar (stencil r0) \<noteq> None \<Longrightarrow> planar_store (stencil r0) = WMTStoreActionStore"
    using k by (simp_all add: keeps_planes_def)
  have parts: "depth ?r = inherit_planar (depth r0) (depth r1)" "stencil ?r = inherit_planar (stencil r0) (stencil r1)"
      "render_commands ?r = render_commands r0 @ render_commands r1" "pass_size_of ?r = pass_size_of r1"
    by (simp_all add: merge_passes_def pass_size_of_def)
  have D1: "load_planar DepthAt (depth_value g) (inherit_planar (depth r0) (depth r1)) =
      load_planar DepthAt (depth_value g) (depth r0)" by (rule D(1) [OF fl(1,3) ks(1)])
  have S1: "load_planar StencilAt (stencil_value g) (inherit_planar (stencil r0) (stencil r1)) =
      load_planar StencilAt (stencil_value g) (stencil r0)" by (rule S(1) [OF fl(2,4) ks(2)])
  have "load_pass g ?r mem = load_pass g r0 mem" by (simp only: load_pass_def parts loads D1 S1)
  moreover have planes: "store_planar DepthAt (depth r0) x = x" "store_planar StencilAt (stencil r0) x = x"
      "store_planar DepthAt (inherit_planar (depth r0) (depth r1)) x = x"
      "store_planar StencilAt (inherit_planar (stencil r0) (stencil r1)) x = x" for x :: "'b memory"
  proof -
    show "store_planar DepthAt (depth r0) x = x" by (rule D(3) [OF fl(1,3) ks(1)])
    show "store_planar StencilAt (stencil r0) x = x" by (rule S(3) [OF fl(2,4) ks(2)])
    show "store_planar DepthAt (inherit_planar (depth r0) (depth r1)) x = x" by (rule D(2) [OF fl(1,3) ks(1)])
    show "store_planar StencilAt (inherit_planar (stencil r0) (stencil r1)) x = x" by (rule S(2) [OF fl(2,4) ks(2)])
  qed
  moreover have "store_pass g r0 x = x" for x by (simp only: store_pass_def kept id_apply planes)
  moreover have "load_pass g r1 x \<subseteq>\<^sub>m x" for x
    unfolding load_pass_def loaded id_apply
    by (rule map_le_trans [OF S(4) [OF fl(2,4) ks(2)] D(4) [OF fl(1,3) ks(1)]])
  moreover have "store_pass g r1 x \<subseteq>\<^sub>m store_pass g ?r y" if "x \<subseteq>\<^sub>m y" for x y
  proof -
    have "store_pass g r1 x \<subseteq>\<^sub>m fold (store_color g) (colors r1) x"
      unfolding store_pass_def by (rule map_le_trans [OF store_planar_le store_planar_le])
    also have "\<dots> \<subseteq>\<^sub>m fold (store_color g) (colors r1) y" using that by (rule fold_store_mono)
    also have "fold (store_color g) (colors r1) y = store_pass g ?r y"
      by (simp only: store_pass_def parts stores planes)
    finally show ?thesis .
  qed
  ultimately show ?thesis
    using run_mono [OF g] by (simp add: render_pass_def parts size)
qed

section \<open>A resolve becomes a store action\<close>

lemma store_planar_other:
  assumes "\<And>v. planar a = Some v \<Longrightarrow> planar_at at a v \<noteq> l"
  shows "store_planar at a (m(l := x)) = (store_planar at a m)(l := x)" "store_planar at a m l = m l"
  using assms by (auto simp: store_planar_def fun_upd_twist split: option.splits)

lemma store_planes_color:
  "store_planar DepthAt a (m(ColorAt v x y z := u)) = (store_planar DepthAt a m)(ColorAt v x y z := u)"
  "store_planar StencilAt b (m(ColorAt v x y z := u)) = (store_planar StencilAt b m)(ColorAt v x y z := u)"
  "store_planar DepthAt a m (ColorAt v x y z) = m (ColorAt v x y z)"
  "store_planar StencilAt b m (ColorAt v x y z) = m (ColorAt v x y z)"
  by (rule store_planar_other; simp add: planar_at_def)+

lemma resolve_into_pass:
  assumes r: "plain_pass r" and i: "i < length (colors r)" and a: "attachment (colors r ! i) = Some (resolve_src s)"
    and st: "store_action (colors r ! i) = WMTStoreActionStore" "resolve_attachment (colors r ! i) = None"
    and d: "ColorAt (resolve_dst s) 0 0 0 \<notin> \<Union> (color_places ` set (colors r))"
  shows "render_pass g (resolve_into i (resolve_dst s) r) m = resolve_pass g s (render_pass g r m)"
proof -
  let ?a = "colors r ! i" and ?l = "ColorAt (resolve_src s) 0 0 0" and ?d = "ColorAt (resolve_dst s) 0 0 0"
  let ?a' = "?a\<lparr>store_action := WMTStoreActionStoreAndMultisampleResolve, resolve_attachment := Some (resolve_dst s)\<rparr>"
  have w: "whole_color ?a" using plain_passD(1) [OF r i] .
  have "load_color g ?a' = load_color g ?a"
    by (rule ext, cases "attachment ?a") (simp_all add: load_color_def color_at_def)
  then have loads: "fold (load_color g) ((colors r)[i := ?a']) = fold (load_color g) (colors r)" by (rule fold_update_same)
  have l: "?l \<in> color_places ?a" using color_at_places [OF a] whole_color_at [OF w] by simp
  note post = places_before(2) [OF r i l]
  have d': "?d \<notin> \<Union> (color_places ` set (drop (Suc i) (colors r)))" using d set_drop_subset by fastforce
  have a': "store_color g ?a' x = x(?d := map_option (resolve_value g) (x ?l))" for x
    using a w by (simp add: store_color_def color_at_def resolve_at_def whole_color_def)
  have a0: "store_color g ?a x = x" for x using a st by (simp add: store_color_def)
  have stores: "fold (store_color g) ((colors r)[i := ?a']) x =
      (fold (store_color g) (colors r) x)(?d := map_option (resolve_value g) (fold (store_color g) (colors r) x ?l))" for x
  proof -
    have "fold (store_color g) (colors r) x =
        fold (store_color g) (drop (Suc i) (colors r)) (fold (store_color g) (take i (colors r)) x)"
      by (subst id_take_nth_drop [OF i]) (simp add: a0)
    then show ?thesis
      using i by (simp add: upd_conv_take_nth_drop a' fold_store_other [OF d'] fold_store_same [OF post])
  qed
  show ?thesis
    by (simp add: render_pass_def load_pass_def store_pass_def pass_size_of_def resolve_into_def resolve_pass_def
        loads stores store_planes_color)
qed

lemma match_resolve_exact:
  assumes "match_resolve is' r s st = (Some (i, d), st')"
    and "\<And>a v. a \<in> set (colors r) \<Longrightarrow> attachment a = Some v \<Longrightarrow> view_allocation v = view_allocation (resolve_src s) \<Longrightarrow> v = resolve_src s"
    and "\<forall>k \<in> set is'. k < length (colors r)"
  shows "i < length (colors r) \<and> attachment (colors r ! i) = Some (resolve_src s) \<and>
    store_action (colors r ! i) = WMTStoreActionStore \<and> resolve_attachment (colors r ! i) = None \<and> d = resolve_dst s"
  using assms
proof (induction is' arbitrary: st)
  case (Cons k rest)
  show ?case
  proof (cases "\<exists>v. attachment (colors r ! k) = Some v \<and> store_action (colors r ! k) = WMTStoreActionStore \<and>
      resolve_attachment (colors r ! k) = None \<and> view_allocation v = view_allocation (resolve_src s)")
    case True
    moreover from this have "attachment (colors r ! k) = Some (resolve_src s)"
      using Cons.prems(2) [of "colors r ! k"] Cons.prems(3) by auto
    ultimately show ?thesis using Cons.prems(1,3) by auto
  next
    case False
    then have "match_resolve rest r s st = (Some (i, d), st')"
      using Cons.prems(1) by (auto split: option.splits if_splits)
    then show ?thesis using Cons.IH Cons.prems(2,3) by auto
  qed
qed simp

section \<open>A cleared plane need not be stored\<close>

lemma store_discarded:
  assumes "whole_planar a"
  shows "store_planar at (discard_plane b v a) m =
    (if b \<and> planar a = Some v then (store_planar at a m)(at v 0 0 0 := None) else store_planar at a m)"
  using assms by (auto simp: store_planar_def discard_plane_def planar_at_def whole_planar_def)

lemma load_discarded: "load_planar at val (discard_plane b v a) m = load_planar at val a m"
  by (cases "planar a") (simp_all add: load_planar_def discard_plane_def planar_at_def)

lemma discard_cleared_pass:
  assumes r: "plain_pass r" and c: "clear_dsv c < 4"
  shows "clear_pass g c (render_pass g (discard_cleared c r) m) = clear_pass g c (render_pass g r m)"
proof -
  let ?v = "clear_attachment c"
  have depth: "store_planar StencilAt b (x(DepthAt ?v 0 0 0 := None)) = (store_planar StencilAt b x)(DepthAt ?v 0 0 0 := None)" for b x
    by (rule store_planar_other) (simp add: planar_at_def)
  let ?x = "fold (run_command g (pass_size_of r)) (render_commands r) (load_pass g r m)"
  have "render_pass g (discard_cleared c r) m =
      (let y = (if bit (clear_dsv c) 0 \<and> planar (depth r) = Some ?v then (store_pass g r ?x)(DepthAt ?v 0 0 0 := None)
                else store_pass g r ?x)
       in if bit (clear_dsv c) 1 \<and> planar (stencil r) = Some ?v then y(StencilAt ?v 0 0 0 := None) else y)"
    using plain_passD(2,3) [OF r]
    by (simp add: render_pass_def load_pass_def store_pass_def pass_size_of_def discard_cleared_def
        load_discarded store_discarded depth Let_def)
  moreover have "clear_dsv c = 0 \<or> clear_dsv c \<in> {1, 2, 3}" using dsv_planes [OF c] by blast
  ultimately show ?thesis
    by (auto simp: clear_pass_def render_pass_def Let_def fun_upd_twist)
qed

section \<open>One comparison\<close>

text \<open>
  What the comparison does not check: the sizes of two passes, that a clear has no other planes
  than depth and stencil, that the destination of a resolve is no attachment of the pass, and that
  the attachment with the resolved texture is the view that is resolved.
\<close>

definition comparable :: "'c encoder_data \<Rightarrow> 'c encoder_data \<Rightarrow> bool" where
  "comparable f l =
     (case (f, l) of
        (ClearEncoder c, RenderEncoder r) \<Rightarrow> plain_pass r \<and> clear_dsv c < 4
      | (RenderEncoder r, ClearEncoder c) \<Rightarrow> plain_pass r \<and> clear_dsv c < 4
      | (RenderEncoder r, ResolveEncoder s) \<Rightarrow> plain_pass r \<and>
          ColorAt (resolve_dst s) 0 0 0 \<notin> \<Union> (color_places ` set (colors r)) \<and>
          (\<forall>a \<in> set (colors r). \<forall>v. attachment a = Some v \<longrightarrow>
             view_allocation v = view_allocation (resolve_src s) \<longrightarrow> v = resolve_src s)
      | (RenderEncoder r0, RenderEncoder r1) \<Rightarrow> plain_pass r0 \<and> plain_pass r1 \<and>
          length (colors r0) = length (colors r1) \<and> keeps_planes r0 \<and> pass_size_of r0 = pass_size_of r1
      | _ \<Rightarrow> True)"

lemma clear_relation_pass:
  assumes "data f = ClearEncoder c" "data l = RenderEncoder r" "plain_pass r" "clear_dsv c < 4"
    "clear_relation f c l r = (oper, f', l')"
  shows "perform g (data l') (perform g (data f') m) = perform g (data l) (perform g (data f) m)"
proof (cases "ucast (render_target_array_length r) = clear_array_length c")
  case True
  show ?thesis
  proof (cases "clear_dsv c = 0")
    case color: True
    show ?thesis
    proof (cases "isClearColorSignatureMatched c r")
      case (Some i)
      have "i < length (colors r)" "attachment (colors r ! i) = Some (clear_attachment c)"
        using first_colorD [OF assms(3)] Some by (auto simp: isClearColorSignatureMatched_def)
      from clear_color_pass [OF assms(3) this color] show ?thesis
        using assms True color Some by (auto simp: clear_relation_def Let_def free_encoder_def absorb_fences_def)
    qed (use assms True color in \<open>auto simp: clear_relation_def\<close>)
  next
    case False
    obtain c' r' where p: "clear_stencil_plane (clear_depth_plane (c, r)) = (c', r')" by fastforce
    from clear_planes_pass [OF assms(3) False assms(4) p, of g m] show ?thesis
      using assms True False p
      by (auto simp: clear_relation_def Let_def free_encoder_def absorb_fences_def split: if_splits)
  qed
qed (use assms in \<open>auto simp: clear_relation_def Let_def\<close>)

lemma resolve_relation_pass:
  assumes "data f = RenderEncoder r" "data l = ResolveEncoder s" "comparable (data f) (data l)"
    "resolve_relation f r l s st = ((oper, f', l'), st')"
  shows "perform g (data l') (perform g (data f') m) = perform g (data l) (perform g (data f) m)"
proof (cases "isResolveSignatureMatched r s st")
  case (Pair result st1)
  have c: "plain_pass r" "ColorAt (resolve_dst s) 0 0 0 \<notin> \<Union> (color_places ` set (colors r))"
      "\<And>a v. a \<in> set (colors r) \<Longrightarrow> attachment a = Some v \<Longrightarrow> view_allocation v = view_allocation (resolve_src s) \<Longrightarrow> v = resolve_src s"
    using assms(1-3) by (auto simp: comparable_def)
  show ?thesis
  proof (cases result)
    case (Some id)
    then obtain i d where id: "result = Some (i, d)" by (cases id) auto
    have "i < length (colors r) \<and> attachment (colors r ! i) = Some (resolve_src s) \<and>
        store_action (colors r ! i) = WMTStoreActionStore \<and> resolve_attachment (colors r ! i) = None \<and> d = resolve_dst s"
      using match_resolve_exact [OF Pair [unfolded isResolveSignatureMatched_def id] c(3)] plain_passD(5) [OF c(1)] by simp
    then show ?thesis
      using resolve_into_pass [OF c(1) _ _ _ _ c(2), of i g m] assms Pair id
      by (auto simp: resolve_relation_def free_encoder_def absorb_fences_def)
  qed (use assms Pair in \<open>auto simp: resolve_relation_def\<close>)
qed


text \<open>A GPU whose commands add a number to texture 7, and a clear before a pass on this texture.\<close>

definition adding_gpu :: "(u64, u64) gpu" where
  "adding_gpu = \<lparr>color_value = fst, depth_value = ucast, stencil_value = ucast, resolve_value = \<lambda>x. x,
     run_command = \<lambda>s c m. m(ColorAt (example_view 7) 0 0 0 := map_option ((+) c) (m (ColorAt (example_view 7) 0 0 0))),
     run_other = \<lambda>d m. m\<rparr>"

definition example_clear :: "u64 encoder" where
  "example_clear = \<lparr>encoder_id = 1, fence_wait = fs_empty, fence_update = fs_singleton 1, data = ClearEncoder
     \<lparr>color = (5, 0, 0, 0), depth_stencil = (0, 0), clear_attachment = example_view 7, clear_dsv = 0,
      clear_array_length = 1, clear_width = 1, clear_height = 1\<rparr>\<rparr>"

definition cleared_pass :: "u64 encoder" where
  "cleared_pass = example_pass (example_view 7) 2 3 (fs_singleton 1) [10]"

lemma adding_gpu_monotone: "monotone_gpu adding_gpu"
  by (auto simp: monotone_gpu_def adding_gpu_def map_le_def dom_def split: if_splits)

lemma example_comparable: "comparable (data example_clear) (data cleared_pass)"
  by (simp add: comparable_def example_clear_def cleared_pass_def example_pass_def plain_pass_def whole_color_def
      whole_planar_def example_color_def no_plane_def)


section \<open>What is not compared\<close>

text \<open>Passes of different sizes are merged, and the commands of the first run in the size of the second.\<close>

lemma sizes_not_compared:
  "isEncoderSignatureMatched r0 (r1\<lparr>render_target_width := w, render_target_height := h, default_raster_sample_count := n\<rparr>) =
     isEncoderSignatureMatched r0 r1"
  "pass_size_of (merge_passes r0 r1) = pass_size_of r1"
  by (simp_all add: isEncoderSignatureMatched_def merge_passes_def pass_size_of_def)

text \<open>A clear joins a pass on whatever depth plane of the view.\<close>

lemma plane_not_compared:
  assumes "render_target_count r \<le> length (colors r)"
  shows "isClearColorSignatureMatched c (r\<lparr>colors := map (\<lambda>a. a\<lparr>depth_plane := k\<rparr>) (colors r)\<rparr>) = isClearColorSignatureMatched c r"
proof -
  have "find P xs = find Q xs" if "\<forall>x \<in> set xs. P x = Q x" for P Q :: "nat \<Rightarrow> bool" and xs
    using that by (induction xs) auto
  then show ?thesis using assms by (simp add: isClearColorSignatureMatched_def first_color_def)
qed

end
